(* ===== verification/Prelude.thy ===== *)
theory Prelude
  imports Main "HOL-Library.Char_ord" "HOL-Library.List_Lexorder" "HOL-Library.Multiset"
begin

text \<open>
  The vocabulary every component shares: fallible stateful programs (a state, a sum for the
  error), loops over lists of such programs, frame relations of programs, a stable sort by an
  arbitrary comparison (Rust's \<open>sort_by\<close>), order-preserving removal of duplicates and the
  byte-string operations of \<open>str\<close> that the sources call.  A Rust \<open>String\<close> is the list of its
  UTF-8 bytes, so \<open>length\<close> is \<open>str::len\<close> and the order is the byte order of \<open>str\<close>.
\<close>

section \<open>Fallible programs over a state\<close>

type_synonym ('w, 'e, 'a) io = "'w \<Rightarrow> ('e + 'a) \<times> 'w"

definition return_io :: "'a \<Rightarrow> ('w, 'e, 'a) io" where
  "return_io x = (\<lambda>w. (Inr x, w))"

definition throw_io :: "'e \<Rightarrow> ('w, 'e, 'a) io" where
  "throw_io e = (\<lambda>w. (Inl e, w))"

definition bind_io :: "('w, 'e, 'a) io \<Rightarrow> ('a \<Rightarrow> ('w, 'e, 'b) io) \<Rightarrow> ('w, 'e, 'b) io" where
  "bind_io m k = (\<lambda>w. case m w of (Inl e, w') \<Rightarrow> (Inl e, w') | (Inr x, w') \<Rightarrow> k x w')"

definition get_io :: "('w \<Rightarrow> 'a) \<Rightarrow> ('w, 'e, 'a) io" where
  "get_io f = (\<lambda>w. (Inr (f w), w))"

definition modify_io :: "('w \<Rightarrow> 'w) \<Rightarrow> ('w, 'e, unit) io" where
  "modify_io f = (\<lambda>w. (Inr (), f w))"

definition map_err_io :: "('e \<Rightarrow> 'f) \<Rightarrow> ('w, 'e, 'a) io \<Rightarrow> ('w, 'f, 'a) io" where
  "map_err_io f m = (\<lambda>w. case m w of (Inl e, w') \<Rightarrow> (Inl (f e), w') | (Inr x, w') \<Rightarrow> (Inr x, w'))"

text \<open>A \<open>match\<close> on the \<open>Result\<close> of a call: the error is a value, not an early return.\<close>

definition attempt_io :: "('w, 'e, 'a) io \<Rightarrow> ('w, 'f, 'e + 'a) io" where
  "attempt_io m = (\<lambda>w. case m w of (r, w') \<Rightarrow> (Inr r, w'))"

text \<open>The \<open>for\<close> loops of the sources, whose body may return early with an error.\<close>

fun for_io :: "('x \<Rightarrow> ('w, 'e, unit) io) \<Rightarrow> 'x list \<Rightarrow> ('w, 'e, unit) io" where
  "for_io f [] = return_io ()"
| "for_io f (x # xs) = bind_io (f x) (\<lambda>_. for_io f xs)"

fun fold_io :: "('x \<Rightarrow> 's \<Rightarrow> ('w, 'e, 's) io) \<Rightarrow> 'x list \<Rightarrow> 's \<Rightarrow> ('w, 'e, 's) io" where
  "fold_io f [] s = return_io s"
| "fold_io f (x # xs) s = bind_io (f x s) (\<lambda>s'. fold_io f xs s')"

lemmas io_defs = return_io_def throw_io_def bind_io_def get_io_def modify_io_def map_err_io_def
  attempt_io_def

lemma bind_io_Inr_iff:
  "bind_io m k w = (Inr y, w'') \<longleftrightarrow> (\<exists>x w'. m w = (Inr x, w') \<and> k x w' = (Inr y, w''))"
  by (auto simp: bind_io_def split: prod.splits sum.splits)

lemma bind_io_Inl_iff:
  "bind_io m k w = (Inl e, w'') \<longleftrightarrow>
     m w = (Inl e, w'') \<or> (\<exists>x w'. m w = (Inr x, w') \<and> k x w' = (Inl e, w''))"
  by (auto simp: bind_io_def split: prod.splits sum.splits)

lemma bind_io_return [simp]: "bind_io (return_io x) k = k x"
  by (simp add: io_defs)

lemma bind_io_throw [simp]: "bind_io (throw_io e) k = throw_io e"
  by (simp add: io_defs)

lemma return_io_eq [simp]: "return_io x w = (r, w') \<longleftrightarrow> r = Inr x \<and> w' = w"
  by (auto simp: io_defs)

lemma throw_io_eq [simp]: "throw_io e w = (r, w') \<longleftrightarrow> r = Inl e \<and> w' = w"
  by (auto simp: io_defs)

lemma get_io_eq [simp]: "get_io f w = (r, w') \<longleftrightarrow> r = Inr (f w) \<and> w' = w"
  by (auto simp: io_defs)

lemma modify_io_eq [simp]: "modify_io f w = (r, w') \<longleftrightarrow> r = Inr () \<and> w' = f w"
  by (auto simp: io_defs)

lemma map_err_io_Inr_iff [simp]: "map_err_io f m w = (Inr x, w') \<longleftrightarrow> m w = (Inr x, w')"
  by (auto simp: map_err_io_def split: prod.splits sum.splits)

lemma map_err_io_Inl_iff:
  "map_err_io f m w = (Inl e, w') \<longleftrightarrow> (\<exists>e'. m w = (Inl e', w') \<and> e = f e')"
  by (auto simp: map_err_io_def split: prod.splits sum.splits)

lemma attempt_io_eq: "attempt_io m w = (Inr r, w') \<longleftrightarrow> m w = (r, w')"
  by (auto simp: attempt_io_def split: prod.splits)

lemma attempt_io_not_Inl [simp]: "attempt_io m w \<noteq> (Inl e, w')"
  by (auto simp: attempt_io_def split: prod.splits)

lemmas io_iffs = bind_io_Inr_iff bind_io_Inl_iff map_err_io_Inl_iff attempt_io_eq

text \<open>The question mark of a fallible function without state.\<close>

definition and_then :: "'e + 'a \<Rightarrow> ('a \<Rightarrow> 'e + 'b) \<Rightarrow> 'e + 'b" where
  "and_then r k = (case r of Inl e \<Rightarrow> Inl e | Inr x \<Rightarrow> k x)"

lemma and_then_Inr_iff: "and_then r k = Inr y \<longleftrightarrow> (\<exists>x. r = Inr x \<and> k x = Inr y)"
  by (auto simp: and_then_def split: sum.splits)

subsection \<open>Frame relations\<close>

text \<open>
  \<open>within R m\<close>: whatever the outcome of \<open>m\<close>, error included, the state it leaves is related by
  \<open>R\<close> to the state it started from.  The composition rules hold for every preorder.
\<close>

definition within :: "('w \<Rightarrow> 'w \<Rightarrow> bool) \<Rightarrow> ('w, 'e, 'a) io \<Rightarrow> bool" where
  "within R m \<longleftrightarrow> (\<forall>w. R w (snd (m w)))"

lemma withinD: "within R m \<Longrightarrow> m w = (r, w') \<Longrightarrow> R w w'"
  unfolding within_def by (metis snd_conv)

lemma withinI: "(\<And>w r w'. m w = (r, w') \<Longrightarrow> R w w') \<Longrightarrow> within R m"
  unfolding within_def by (metis surjective_pairing)

locale io_frame =
  fixes R :: "'w \<Rightarrow> 'w \<Rightarrow> bool"
  assumes frame_refl: "R w w"
    and frame_trans: "R u v \<Longrightarrow> R v w \<Longrightarrow> R u w"
begin

lemma within_return: "within R (return_io x)"
  by (simp add: within_def io_defs frame_refl)

lemma within_throw: "within R (throw_io e)"
  by (simp add: within_def io_defs frame_refl)

lemma within_get: "within R (get_io f)"
  by (simp add: within_def io_defs frame_refl)

lemma within_modify: "(\<And>w. R w (f w)) \<Longrightarrow> within R (modify_io f)"
  by (simp add: within_def io_defs)

lemma within_bind: "within R m \<Longrightarrow> (\<And>x. within R (k x)) \<Longrightarrow> within R (bind_io m k)"
  unfolding within_def bind_io_def
  by (auto split: prod.splits sum.splits intro: frame_trans) (metis frame_trans snd_conv)+

lemma within_map_err: "within R m \<Longrightarrow> within R (map_err_io f m)"
  unfolding within_def map_err_io_def by (auto split: prod.splits sum.splits) (metis snd_conv)+

lemma within_attempt: "within R m \<Longrightarrow> within R (attempt_io m)"
  unfolding within_def attempt_io_def by (auto split: prod.splits) (metis snd_conv)

lemma within_for: "(\<And>x. within R (f x)) \<Longrightarrow> within R (for_io f xs)"
  by (induction xs) (auto intro: within_return within_bind)

lemma within_fold: "(\<And>x s. within R (f x s)) \<Longrightarrow> within R (fold_io f xs s)"
  by (induction xs arbitrary: s) (auto intro: within_return within_bind)

lemma within_if: "(b \<Longrightarrow> within R m) \<Longrightarrow> (\<not> b \<Longrightarrow> within R n) \<Longrightarrow> within R (if b then m else n)"
  by simp

lemma within_case_option:
  "within R m \<Longrightarrow> (\<And>x. within R (f x)) \<Longrightarrow> within R (case v of None \<Rightarrow> m | Some x \<Rightarrow> f x)"
  by (cases v) auto

lemma within_case_sum:
  "(\<And>x. within R (f x)) \<Longrightarrow> (\<And>y. within R (g y)) \<Longrightarrow> within R (case v of Inl x \<Rightarrow> f x | Inr y \<Rightarrow> g y)"
  by (cases v) auto

lemma within_case_prod:
  "(\<And>x y. within R (f x y)) \<Longrightarrow> within R (case p of (x, y) \<Rightarrow> f x y)"
  by (cases p) auto

lemmas within_intros = within_return within_throw within_get within_bind within_map_err
  within_attempt within_for within_fold within_if within_case_option within_case_sum
  within_case_prod

end

text \<open>
  A loop keeps an invariant that its body keeps under a condition on the element, when the body keeps
  those conditions too.
\<close>

lemma fold_io_keeps:
  assumes "fold_io f xs s w = (r, w')" and "P w" and "\<forall>x \<in> set xs. Q x w"
    and "\<And>x s w r w'. f x s w = (r, w') \<Longrightarrow> Q x w \<Longrightarrow> P w \<Longrightarrow> P w' \<and> (\<forall>y. Q y w \<longrightarrow> Q y w')"
  shows "P w'"
  using assms(1-3)
proof (induction xs arbitrary: s w)
  case (Cons x xs)
  obtain q w1 where q: "f x s w = (q, w1)" by fastforce
  with assms(4) [OF q] Cons.prems have w1: "P w1" "\<forall>y \<in> set xs. Q y w1" by auto
  show ?case
  proof (cases q)
    case (Inl e)
    with q w1 Cons.prems show ?thesis by (simp add: bind_io_def)
  next
    case (Inr s')
    with q Cons.prems have "fold_io f xs s' w1 = (r, w')" by (simp add: bind_io_def)
    with w1 Cons.IH show ?thesis by blast
  qed
qed simp

lemma for_io_fold: "for_io f xs = fold_io (\<lambda>x _. f x) xs ()"
  by (induction xs) auto

lemma fold_io_collect:
  "fold_io (\<lambda>x out. bind_io (g x) (\<lambda>_. return_io (out @ [h x]))) xs out w = (Inr res, w') \<Longrightarrow>
   res = out @ map h xs"
  by (induction xs arbitrary: out w) (auto simp: io_iffs, fastforce)

lemma fold_io_establishes:
  assumes "fold_io f xs s w = (Inr res, w')" and "x \<in> set xs"
    and "\<And>s w s' w'. f x s w = (Inr s', w') \<Longrightarrow> P w'"
    and "\<And>y s w r w'. f y s w = (r, w') \<Longrightarrow> P w \<Longrightarrow> P w'"
  shows "P w'"
  using assms(1,2)
proof (induction xs arbitrary: s w)
  case (Cons y ys)
  then obtain s1 w1 where y: "f y s w = (Inr s1, w1)" and ys: "fold_io f ys s1 w1 = (Inr res, w')"
    by (auto simp: io_iffs)
  have later: "P w1 \<Longrightarrow> P w'"
    using fold_io_keeps [OF ys, of P "\<lambda>_ _. True"] assms(4) by blast
  from Cons.prems(2) Cons.IH [OF ys] later assms(3) y show ?case by auto
qed simp

text \<open>A loop over elements that are ready, whose body succeeds and leaves the others ready, succeeds.\<close>

lemma fold_io_succeeds:
  assumes "I w" and "\<forall>x \<in> set xs. Q x w"
    and "\<And>x s w. I w \<Longrightarrow> Q x w \<Longrightarrow> \<exists>s' w'. f x s w = (Inr s', w') \<and> I w' \<and> (\<forall>y. Q y w \<longrightarrow> Q y w')"
  shows "\<exists>res w'. fold_io f xs s w = (Inr res, w') \<and> I w'"
  using assms(1,2)
proof (induction xs arbitrary: s w)
  case (Cons x xs)
  then obtain s1 w1 where "f x s w = (Inr s1, w1)" "I w1" "\<forall>y. Q y w \<longrightarrow> Q y w1"
    using assms(3) [of w x s] by auto
  with Cons.IH [of w1 s1] Cons.prems show ?case by (simp add: bind_io_def)
qed simp

text \<open>Equality of an observation, and the preservation of an invariant, are frame relations.\<close>

definition same :: "('w \<Rightarrow> 'b) \<Rightarrow> 'w \<Rightarrow> 'w \<Rightarrow> bool" where
  "same f w w' \<longleftrightarrow> f w' = f w"

definition keeps :: "('w \<Rightarrow> bool) \<Rightarrow> 'w \<Rightarrow> 'w \<Rightarrow> bool" where
  "keeps P w w' \<longleftrightarrow> (P w \<longrightarrow> P w')"

interpretation same: io_frame "same f" for f
  by unfold_locales (auto simp: same_def)

interpretation keeps: io_frame "keeps P" for P
  by unfold_locales (auto simp: keeps_def)

lemma within_sameD: "within (same f) m \<Longrightarrow> m w = (r, w') \<Longrightarrow> f w' = f w"
  by (auto dest: withinD simp: same_def)

lemma within_keepsD: "within (keeps P) m \<Longrightarrow> m w = (r, w') \<Longrightarrow> P w \<Longrightarrow> P w'"
  by (auto dest: withinD simp: keeps_def)

lemma bind_same_cases:
  assumes "bind_io m k w = (r, w')" and "within (same f) m"
  obtains (failed) e where "r = Inl e" "m w = (Inl e, w')" "f w' = f w"
  | (continued) x w1 where "m w = (Inr x, w1)" "f w1 = f w" "k x w1 = (r, w')"
proof -
  obtain q w1 where q: "m w = (q, w1)" by fastforce
  with assms(2) have "f w1 = f w" by (auto dest: withinD simp: same_def)
  with q assms(1) failed continued show ?thesis by (cases q) (auto simp: bind_io_def)
qed

section \<open>Sorting by a comparison\<close>

text \<open>
  Rust's \<open>sort_by\<close> is stable: an element is put before the elements it compares equal to that
  stood after it.
\<close>

fun insert_by :: "('a \<Rightarrow> 'a \<Rightarrow> bool) \<Rightarrow> 'a \<Rightarrow> 'a list \<Rightarrow> 'a list" where
  "insert_by le x [] = [x]"
| "insert_by le x (y # ys) = (if le x y then x # y # ys else y # insert_by le x ys)"

fun sort_by :: "('a \<Rightarrow> 'a \<Rightarrow> bool) \<Rightarrow> 'a list \<Rightarrow> 'a list" where
  "sort_by le [] = []"
| "sort_by le (x # xs) = insert_by le x (sort_by le xs)"

lemma mset_insert_by [simp]: "mset (insert_by le x xs) = add_mset x (mset xs)"
  by (induction xs) auto

lemma mset_sort_by [simp]: "mset (sort_by le xs) = mset xs"
  by (induction xs) auto

lemma set_sort_by [simp]: "set (sort_by le xs) = set xs"
  by (metis mset_sort_by set_mset_mset)

lemma length_sort_by [simp]: "length (sort_by le xs) = length xs"
  by (metis mset_sort_by size_mset)

lemma distinct_sort_by [simp]: "distinct (sort_by le xs) = distinct xs"
  by (metis mset_sort_by mset_eq_imp_distinct_iff)

lemma sort_by_Nil_iff [simp]: "sort_by le xs = [] \<longleftrightarrow> xs = []"
  by (metis length_0_conv length_sort_by)

text \<open>The contract of a comparison: it is total and transitive.\<close>

locale comparison =
  fixes le :: "'a \<Rightarrow> 'a \<Rightarrow> bool"
  assumes le_total: "le x y \<or> le y x"
    and le_trans: "le x y \<Longrightarrow> le y z \<Longrightarrow> le x z"
begin

lemma sorted_wrt_insert_by: "sorted_wrt le xs \<Longrightarrow> sorted_wrt le (insert_by le x xs)"
proof (induction xs)
  case (Cons y ys)
  have "set (insert_by le x ys) = insert x (set ys)"
    by (metis list.simps(15) mset.simps(2) mset_insert_by set_mset_mset)
  with Cons show ?case using le_total le_trans by (auto 4 3)
qed simp

lemma sorted_wrt_sort_by: "sorted_wrt le (sort_by le xs)"
  by (induction xs) (auto intro: sorted_wrt_insert_by)

lemma le_refl: "le x x"
  using le_total by blast

text \<open>Stability: the elements equivalent to a given one keep their order.\<close>

lemma filter_insert_by_equiv:
  "filter (\<lambda>y. le z y \<and> le y z) (insert_by le x xs)
     = (if le z x \<and> le x z then x # filter (\<lambda>y. le z y \<and> le y z) xs
        else filter (\<lambda>y. le z y \<and> le y z) xs)"
  by (induction xs) (auto intro: le_trans dest: le_total [THEN disjE] le_trans)

lemma sort_by_stable:
  "filter (\<lambda>y. le z y \<and> le y z) (sort_by le xs) = filter (\<lambda>y. le z y \<and> le y z) xs"
  by (induction xs) (auto simp: filter_insert_by_equiv)

end

text \<open>Comparisons built as the sources build them: by a key, and \<open>then_with\<close> a second one.\<close>

definition cmp_key :: "('a \<Rightarrow> 'b::linorder) \<Rightarrow> 'a \<Rightarrow> 'a \<Rightarrow> bool" where
  "cmp_key f x y \<longleftrightarrow> f x \<le> f y"

definition cmp_key_desc :: "('a \<Rightarrow> 'b::linorder) \<Rightarrow> 'a \<Rightarrow> 'a \<Rightarrow> bool" where
  "cmp_key_desc f x y \<longleftrightarrow> f y \<le> f x"

definition then_with :: "('a \<Rightarrow> 'a \<Rightarrow> bool) \<Rightarrow> ('a \<Rightarrow> 'a \<Rightarrow> bool) \<Rightarrow> 'a \<Rightarrow> 'a \<Rightarrow> bool" where
  "then_with le le' x y \<longleftrightarrow> le x y \<and> (le y x \<longrightarrow> le' x y)"

lemma comparison_key [intro!]: "comparison (cmp_key f)"
  by unfold_locales (auto simp: cmp_key_def)

lemma comparison_key_desc [intro!]: "comparison (cmp_key_desc f)"
  by unfold_locales (auto simp: cmp_key_desc_def)

lemma comparison_then_with [intro!]:
  assumes "comparison le" and "comparison le'"
  shows "comparison (then_with le le')"
  using assms unfolding comparison_def then_with_def by metis

section \<open>Lists without duplicates, in order of first occurrence\<close>

fun dedup_acc :: "'a list \<Rightarrow> 'a list \<Rightarrow> 'a list" where
  "dedup_acc seen [] = []"
| "dedup_acc seen (x # xs) = (if x \<in> set seen then dedup_acc seen xs else x # dedup_acc (x # seen) xs)"

definition dedup :: "'a list \<Rightarrow> 'a list" where
  "dedup xs = dedup_acc [] xs"

lemma set_dedup_acc: "set (dedup_acc seen xs) = set xs - set seen"
  by (induction xs arbitrary: seen) auto

lemma distinct_dedup_acc: "distinct (dedup_acc seen xs)"
  by (induction xs arbitrary: seen) (auto simp: set_dedup_acc)

lemma set_dedup [simp]: "set (dedup xs) = set xs"
  by (simp add: dedup_def set_dedup_acc)

lemma distinct_dedup [simp]: "distinct (dedup xs)"
  by (simp add: dedup_def distinct_dedup_acc)

lemma dedup_acc_distinct: "distinct xs \<Longrightarrow> set xs \<inter> set seen = {} \<Longrightarrow> dedup_acc seen xs = xs"
  by (induction xs arbitrary: seen) auto

lemma dedup_distinct [simp]: "distinct xs \<Longrightarrow> dedup xs = xs"
  by (simp add: dedup_def dedup_acc_distinct)

lemma dedup_Nil_iff [simp]: "dedup xs = [] \<longleftrightarrow> xs = []"
  by (metis set_dedup set_empty)

text \<open>\<open>Vec::dedup\<close> removes consecutive repetitions only; it is called on sorted vectors.\<close>

lemma distinct_remdups_adj_sorted: "sorted xs \<Longrightarrow> distinct (remdups_adj (xs :: 'a::linorder list))"
  by (induction xs rule: remdups_adj.induct) auto

section \<open>Byte strings\<close>

definition str_starts_with :: "string \<Rightarrow> string \<Rightarrow> bool" where
  "str_starts_with s p \<longleftrightarrow> take (length p) s = p"

definition strip_prefix :: "string \<Rightarrow> string \<Rightarrow> string option" where
  "strip_prefix p s = (if str_starts_with s p then Some (drop (length p) s) else None)"

definition str_ends_with :: "string \<Rightarrow> string \<Rightarrow> bool" where
  "str_ends_with s p \<longleftrightarrow> length p \<le> length s \<and> drop (length s - length p) s = p"

definition strip_suffix :: "string \<Rightarrow> string \<Rightarrow> string option" where
  "strip_suffix p s = (if str_ends_with s p then Some (take (length s - length p) s) else None)"

fun str_contains :: "string \<Rightarrow> string \<Rightarrow> bool" where
  "str_contains [] p = (p = [])"
| "str_contains (c # s) p = (str_starts_with (c # s) p \<or> str_contains s p)"

lemma str_starts_with_iff: "str_starts_with s p \<longleftrightarrow> (\<exists>r. s = p @ r)"
  unfolding str_starts_with_def by (metis append_eq_conv_conj append_take_drop_id)

lemma str_ends_with_iff: "str_ends_with s p \<longleftrightarrow> (\<exists>r. s = r @ p)"
  unfolding str_ends_with_def
  by (metis append_take_drop_id diff_le_self length_append add_diff_cancel_right' append_eq_conv_conj le_add2)

lemma strip_prefix_Some_iff: "strip_prefix p s = Some r \<longleftrightarrow> s = p @ r"
  by (auto simp: strip_prefix_def str_starts_with_iff)

lemma strip_prefix_append [simp]: "strip_prefix p (p @ r) = Some r"
  by (simp add: strip_prefix_Some_iff)

lemma strip_suffix_Some_iff: "strip_suffix p s = Some r \<longleftrightarrow> s = r @ p"
  by (auto simp: strip_suffix_def str_ends_with_iff)

lemma str_contains_iff: "str_contains s p \<longleftrightarrow> (\<exists>a b. s = a @ p @ b)"
proof (induction s)
  case (Cons c s)
  have "(\<exists>a b. c # s = a @ p @ b) \<longleftrightarrow> (\<exists>b. c # s = p @ b) \<or> (\<exists>a b. s = a @ p @ b)"
    by (auto simp: Cons_eq_append_conv)
  with Cons.IH show ?case by (simp add: str_starts_with_iff)
qed simp

text \<open>Characters the sources test for; a byte of a multi-byte code point passes none of them.\<close>

definition is_ascii_lowercase :: "char \<Rightarrow> bool" where
  "is_ascii_lowercase c \<longleftrightarrow> CHR ''a'' \<le> c \<and> c \<le> CHR ''z''"

definition is_ascii_uppercase :: "char \<Rightarrow> bool" where
  "is_ascii_uppercase c \<longleftrightarrow> CHR ''A'' \<le> c \<and> c \<le> CHR ''Z''"

definition is_ascii_digit :: "char \<Rightarrow> bool" where
  "is_ascii_digit c \<longleftrightarrow> CHR ''0'' \<le> c \<and> c \<le> CHR ''9''"

definition is_ascii_hexdigit :: "char \<Rightarrow> bool" where
  "is_ascii_hexdigit c \<longleftrightarrow> is_ascii_digit c \<or> (CHR ''a'' \<le> c \<and> c \<le> CHR ''f'') \<or> (CHR ''A'' \<le> c \<and> c \<le> CHR ''F'')"

text \<open>
  The code points with the Unicode property \<open>White_Space\<close>, which \<open>char::is_whitespace\<close> and
  \<open>str::trim\<close> use, in their UTF-8 encodings.
\<close>

definition utf8_whitespace :: "string list" where
  "utf8_whitespace =
     [[CHR 0x09], [CHR 0x0A], [CHR 0x0B], [CHR 0x0C], [CHR 0x0D], [CHR 0x20],
      [CHR 0xC2, CHR 0x85], [CHR 0xC2, CHR 0xA0], [CHR 0xE1, CHR 0x9A, CHR 0x80],
      [CHR 0xE2, CHR 0x80, CHR 0x80], [CHR 0xE2, CHR 0x80, CHR 0x81], [CHR 0xE2, CHR 0x80, CHR 0x82],
      [CHR 0xE2, CHR 0x80, CHR 0x83], [CHR 0xE2, CHR 0x80, CHR 0x84], [CHR 0xE2, CHR 0x80, CHR 0x85],
      [CHR 0xE2, CHR 0x80, CHR 0x86], [CHR 0xE2, CHR 0x80, CHR 0x87], [CHR 0xE2, CHR 0x80, CHR 0x88],
      [CHR 0xE2, CHR 0x80, CHR 0x89], [CHR 0xE2, CHR 0x80, CHR 0x8A], [CHR 0xE2, CHR 0x80, CHR 0xA8],
      [CHR 0xE2, CHR 0x80, CHR 0xA9], [CHR 0xE2, CHR 0x80, CHR 0xAF], [CHR 0xE2, CHR 0x81, CHR 0x9F],
      [CHR 0xE3, CHR 0x80, CHR 0x80]]"

lemma find_SomeD: "find P xs = Some x \<Longrightarrow> x \<in> set xs \<and> P x"
  by (auto simp: find_Some_iff)

lemma utf8_whitespace_nonempty: "w \<in> set utf8_whitespace \<Longrightarrow> 0 < length w"
  by (auto simp: utf8_whitespace_def)

lemma trim_start_decreases:
  "find (str_starts_with s) utf8_whitespace = Some w \<Longrightarrow> length (drop (length w) s) < length s"
  using utf8_whitespace_nonempty by (fastforce dest: find_SomeD simp: str_starts_with_iff)

lemma trim_end_decreases:
  "find (str_ends_with s) utf8_whitespace = Some w \<Longrightarrow> length (take (length s - length w) s) < length s"
  using utf8_whitespace_nonempty by (fastforce dest: find_SomeD simp: str_ends_with_iff)

function str_trim_start :: "string \<Rightarrow> string" where
  "str_trim_start s = (case find (str_starts_with s) utf8_whitespace of
                         None \<Rightarrow> s | Some w \<Rightarrow> str_trim_start (drop (length w) s))"
  by pat_completeness auto
termination
  by (relation "measure length") (use trim_start_decreases in auto)

function str_trim_end :: "string \<Rightarrow> string" where
  "str_trim_end s = (case find (str_ends_with s) utf8_whitespace of
                       None \<Rightarrow> s | Some w \<Rightarrow> str_trim_end (take (length s - length w) s))"
  by pat_completeness auto
termination
  by (relation "measure length") (use trim_end_decreases in auto)

declare str_trim_start.simps [simp del] str_trim_end.simps [simp del]

definition str_trim :: "string \<Rightarrow> string" where
  "str_trim s = str_trim_end (str_trim_start s)"

text \<open>\<open>join\<close> of a list of strings.\<close>

fun join_with :: "string \<Rightarrow> string list \<Rightarrow> string" where
  "join_with sep [] = []"
| "join_with sep [x] = x"
| "join_with sep (x # y # xs) = x @ sep @ join_with sep (y # xs)"

end
