(* ===== verification/Claim_Ids.thy ===== *)
theory Claim_Ids
  imports Prelude "HOL-Library.Word"
begin

text \<open>
  The identifiers of \<open>src/claim/id.rs\<close>.  The macro \<open>prefixed_id!\<close> generates one newtype over
  \<open>String\<close> per entity with the same code and another prefix; here it is one datatype with a phantom
  tag and definitions that take the prefix.  Random ids draw a 32-bit value, derived ids hash their
  parts: the generator and \<open>DefaultHasher\<close> are arguments.
\<close>

section \<open>The identifier types\<close>

datatype 'k ident = Ident (as_str: string)

datatype claim_tag = ClaimTag
datatype policy_tag = PolicyTag
datatype trace_tag = TraceTag
datatype dispute_tag = DisputeTag
datatype inbox_tag = InboxTag
datatype action_tag = ActionTag
datatype session_tag = SessionTag
datatype resolution_tag = ResolutionTag
datatype agent_tag = AgentTag

type_synonym claim_id = "claim_tag ident"
type_synonym policy_id = "policy_tag ident"
type_synonym trace_id = "trace_tag ident"
type_synonym dispute_id = "dispute_tag ident"
type_synonym inbox_id = "inbox_tag ident"
type_synonym maintainer_action_id = "action_tag ident"
type_synonym session_id = "session_tag ident"
type_synonym arbitration_resolution_id = "resolution_tag ident"
type_synonym agent_id = "agent_tag ident"

text \<open>\<open>Ord\<close> compares the underlying strings.\<close>

instantiation ident :: (type) linorder
begin

definition less_eq_ident :: "'a ident \<Rightarrow> 'a ident \<Rightarrow> bool" where
  "less_eq_ident a b \<longleftrightarrow> as_str a \<le> as_str b"

definition less_ident :: "'a ident \<Rightarrow> 'a ident \<Rightarrow> bool" where
  "less_ident a b \<longleftrightarrow> as_str a < as_str b"

instance
  by standard (auto simp: less_eq_ident_def less_ident_def intro: ident.expand)

end

datatype id_error =
    WrongPrefix string string
  | BadSuffix string
  | BadAgentId string
  | SourceIdBadPrefix string

definition claim_prefix :: string where "claim_prefix = ''claim_''"
definition policy_prefix :: string where "policy_prefix = ''policy_''"
definition trace_prefix :: string where "trace_prefix = ''trace_''"
definition dispute_prefix :: string where "dispute_prefix = ''dispute_''"
definition inbox_prefix :: string where "inbox_prefix = ''inbox_''"
definition action_prefix :: string where "action_prefix = ''intent_''"
definition session_prefix :: string where "session_prefix = ''session_''"
definition resolution_prefix :: string where "resolution_prefix = ''resolution_''"
definition legacy_resolution_prefix :: string where
  "legacy_resolution_prefix = ''arbitration_''"

lemmas prefix_defs = claim_prefix_def policy_prefix_def trace_prefix_def dispute_prefix_def
  inbox_prefix_def action_prefix_def session_prefix_def resolution_prefix_def
  legacy_resolution_prefix_def

section \<open>Hexadecimal suffixes\<close>

definition hex_chars :: string where "hex_chars = ''0123456789abcdef''"

definition hex_digit :: "nat \<Rightarrow> char" where
  "hex_digit n = hex_chars ! n"

text \<open>\<open>hex::encode\<close> of the four bytes of a 32-bit value, which is also \<open>{:08x}\<close>.\<close>

fun hex_be :: "nat \<Rightarrow> nat \<Rightarrow> string" where
  "hex_be 0 v = []"
| "hex_be (Suc k) v = hex_be k (v div 16) @ [hex_digit (v mod 16)]"

definition random_hex8 :: "32 word \<Rightarrow> string" where
  "random_hex8 r = hex_be 8 (unat r)"

definition random_hex4 :: "16 word \<Rightarrow> string" where
  "random_hex4 r = hex_be 4 (unat r)"

definition hex8_suffix :: "string \<Rightarrow> bool" where
  "hex8_suffix s \<longleftrightarrow> length s = 8 \<and> (\<forall>c \<in> set s. is_ascii_hexdigit c \<and> \<not> is_ascii_uppercase c)"

section \<open>Construction and parsing\<close>

definition random_id :: "string \<Rightarrow> 32 word \<Rightarrow> 'k ident" where
  "random_id prefix r = Ident (prefix @ random_hex8 r)"

definition id_from_str :: "string \<Rightarrow> string \<Rightarrow> id_error + 'k ident" where
  "id_from_str prefix s =
     (case strip_prefix prefix s of
        None \<Rightarrow> Inl (WrongPrefix prefix s)
      | Some suffix \<Rightarrow> if \<not> hex8_suffix suffix then Inl (BadSuffix suffix) else Inr (Ident s))"

definition resolution_from_str :: "string \<Rightarrow> id_error + arbitration_resolution_id" where
  "resolution_from_str s =
     (case (case strip_prefix resolution_prefix s of
              Some x \<Rightarrow> Some x
            | None \<Rightarrow> strip_prefix legacy_resolution_prefix s) of
        None \<Rightarrow> Inl (WrongPrefix resolution_prefix s)
      | Some suffix \<Rightarrow> if \<not> hex8_suffix suffix then Inl (BadSuffix suffix) else Inr (Ident s))"

definition agent_char :: "char \<Rightarrow> bool" where
  "agent_char c \<longleftrightarrow> is_ascii_lowercase c \<or> is_ascii_digit c \<or> c = CHR ''-'' \<or> c = CHR ''_''"

definition agent_id_new :: "string \<Rightarrow> id_error + agent_id" where
  "agent_id_new s = (if s = [] \<or> \<not> list_all agent_char s then Inl (BadAgentId s) else Inr (Ident s))"

datatype source_id = SourceClaim claim_id | SourcePolicy policy_id

fun source_as_str :: "source_id \<Rightarrow> string" where
  "source_as_str (SourceClaim c) = as_str c"
| "source_as_str (SourcePolicy p) = as_str p"

definition source_from_str :: "string \<Rightarrow> id_error + source_id" where
  "source_from_str s =
     (if str_starts_with s claim_prefix then map_sum (\<lambda>e. e) SourceClaim (id_from_str claim_prefix s)
      else if str_starts_with s policy_prefix then map_sum (\<lambda>e. e) SourcePolicy (id_from_str policy_prefix s)
      else Inl (SourceIdBadPrefix s))"

section \<open>Derived identifiers\<close>

text \<open>
  What the \<open>Hash\<close> implementations feed the hasher: an \<open>i64\<close> and a \<open>u8\<close> as they are, a \<open>str\<close> as
  its bytes and the terminator \<open>0xff\<close>.  \<open>finish\<close> is the hash of the whole sequence of writes.
\<close>

datatype hash_write = HashI64 "64 word" | HashU8 "8 word" | HashStr string

text \<open>
  \<open>timestamp_nanos_opt\<close>, and whole seconds times \<open>1_000_000_000\<close> (wrapping, as an \<open>i64\<close>
  product does in a release build) where the nanoseconds do not fit an \<open>i64\<close>.
\<close>

definition hash_nanos :: "int \<Rightarrow> 64 word" where
  "hash_nanos t = (if - (2 ^ 63) \<le> t \<and> t < 2 ^ 63 then word_of_int t
                   else word_of_int (t div 1000000000) * 1000000000)"

definition derive_id_string :: "(hash_write list \<Rightarrow> 64 word) \<Rightarrow> string \<Rightarrow> int \<Rightarrow> string \<Rightarrow> hash_write list \<Rightarrow> string"
  where
  "derive_id_string finish prefix created_at salt payload =
     prefix @ hex_be 8 (unat (ucast (finish ([HashI64 (hash_nanos created_at)] @ payload @ [HashStr salt])) :: 32 word))"

definition claim_id_from_parts :: "(hash_write list \<Rightarrow> 64 word) \<Rightarrow> int \<Rightarrow> string \<Rightarrow> string \<Rightarrow> string \<Rightarrow> claim_id" where
  "claim_id_from_parts finish created_at nm scp salt =
     Ident (derive_id_string finish claim_prefix created_at salt [HashStr nm, HashStr scp])"

definition trace_payload :: "string \<Rightarrow> source_id list \<Rightarrow> claim_id list \<Rightarrow> hash_write list" where
  "trace_payload nm ins outs =
     [HashStr nm] @ map (\<lambda>i. HashStr (source_as_str i)) ins @ [HashU8 0] @ map (\<lambda>i. HashStr (as_str i)) outs"

definition trace_id_from_parts ::
  "(hash_write list \<Rightarrow> 64 word) \<Rightarrow> int \<Rightarrow> string \<Rightarrow> source_id list \<Rightarrow> claim_id list \<Rightarrow> string \<Rightarrow> trace_id" where
  "trace_id_from_parts finish created_at nm ins outs salt =
     Ident (derive_id_string finish trace_prefix created_at salt (trace_payload nm ins outs))"

definition dispute_payload :: "string \<Rightarrow> claim_id list \<Rightarrow> string \<Rightarrow> hash_write list" where
  "dispute_payload nm claims summary =
     [HashStr nm] @ map (\<lambda>i. HashStr (as_str i)) claims @ [HashStr summary]"

definition dispute_id_from_parts ::
  "(hash_write list \<Rightarrow> 64 word) \<Rightarrow> int \<Rightarrow> string \<Rightarrow> claim_id list \<Rightarrow> string \<Rightarrow> string \<Rightarrow> dispute_id" where
  "dispute_id_from_parts finish created_at nm claims summary salt =
     Ident (derive_id_string finish dispute_prefix created_at salt (dispute_payload nm claims summary))"

section \<open>Facts about hexadecimal suffixes\<close>

lemma lower_hex_iff:
  "is_ascii_hexdigit c \<and> \<not> is_ascii_uppercase c \<longleftrightarrow> c \<in> set hex_chars"
proof -
  have eq: "(c = d) = ((of_char c :: nat) = of_char d)" for d
    by (metis char_of_char)
  show ?thesis
    unfolding is_ascii_hexdigit_def is_ascii_uppercase_def is_ascii_digit_def less_eq_char_def hex_chars_def
    by (simp add: eq) arith
qed

lemma hex8_suffix_iff: "hex8_suffix s \<longleftrightarrow> length s = 8 \<and> set s \<subseteq> set hex_chars"
  unfolding hex8_suffix_def by (auto simp only: lower_hex_iff)

lemma length_hex_chars [simp]: "length hex_chars = 16"
  by (simp add: hex_chars_def)

lemma distinct_hex_chars [simp]: "distinct hex_chars"
  by (simp add: hex_chars_def)

lemma hex_digit_mem: "n < 16 \<Longrightarrow> hex_digit n \<in> set hex_chars"
  unfolding hex_digit_def by (rule nth_mem) simp

lemma hex_digit_inj: "m < 16 \<Longrightarrow> n < 16 \<Longrightarrow> hex_digit m = hex_digit n \<longleftrightarrow> m = n"
  unfolding hex_digit_def by (rule nth_eq_iff_index_eq) (auto)

lemma hex_digit_surj: "c \<in> set hex_chars \<Longrightarrow> \<exists>n<16. hex_digit n = c"
  unfolding hex_digit_def by (auto simp: in_set_conv_nth)

lemma length_hex_be [simp]: "length (hex_be k v) = k"
  by (induction k arbitrary: v) auto

lemma set_hex_be: "set (hex_be k v) \<subseteq> set hex_chars"
proof (induction k arbitrary: v)
  case (Suc k)
  have "hex_digit (v mod 16) \<in> set hex_chars" by (rule hex_digit_mem) simp
  with Suc.IH [of "v div 16"] show ?case by simp
qed simp

lemma hex_be_inj: "u < 16 ^ k \<Longrightarrow> v < 16 ^ k \<Longrightarrow> hex_be k u = hex_be k v \<longleftrightarrow> u = v"
proof (induction k arbitrary: u v)
  case (Suc k)
  then have "u div 16 < 16 ^ k" "v div 16 < 16 ^ k"
    by (auto simp: less_mult_imp_div_less mult.commute)
  with Suc.IH have "hex_be (Suc k) u = hex_be (Suc k) v \<longleftrightarrow> u div 16 = v div 16 \<and> u mod 16 = v mod 16"
    by (auto simp: hex_digit_inj)
  then show ?case by (metis div_mult_mod_eq)
qed simp

lemma hex_be_surj:
  "length s = k \<Longrightarrow> set s \<subseteq> set hex_chars \<Longrightarrow> \<exists>v<16 ^ k. hex_be k v = s"
proof (induction k arbitrary: s)
  case (Suc k)
  then obtain t c where s: "s = t @ [c]" by (metis length_Suc_conv_rev)
  with Suc obtain v where v: "v < 16 ^ k" "hex_be k v = t" by fastforce
  from s Suc.prems(2) obtain n where n: "n < 16" "hex_digit n = c"
    using hex_digit_surj [of c] by auto
  have "hex_be (Suc k) (16 * v + n) = s" using s v n by simp
  moreover have "16 * v + n < 16 ^ Suc k" using v n by simp
  ultimately show ?case by blast
qed simp

lemma unat_less_16_8: "unat (r :: 32 word) < 16 ^ 8"
  using unsigned_less [of r] by simp

lemma hex8_suffix_hex_be [simp]: "hex8_suffix (hex_be 8 v)"
  unfolding hex8_suffix_iff using set_hex_be by simp

lemma random_hex8_inj [simp]: "random_hex8 r = random_hex8 r' \<longleftrightarrow> r = r'"
  using hex_be_inj [OF unat_less_16_8 unat_less_16_8, of r r'] by (simp add: random_hex8_def word_unat_eq_iff)

lemma hex8_suffix_ex: "hex8_suffix s \<longleftrightarrow> (\<exists>r. s = random_hex8 r)"
proof
  assume "hex8_suffix s"
  then obtain v where v: "v < 16 ^ 8" "hex_be 8 v = s"
    unfolding hex8_suffix_iff using hex_be_surj by blast
  then have "random_hex8 (word_of_nat v) = s"
    by (simp add: random_hex8_def unat_of_nat)
  then show "\<exists>r. s = random_hex8 r" by auto
qed (auto simp: random_hex8_def)

section \<open>Facts about identifiers\<close>

lemma id_from_str_Inr_iff:
  "id_from_str prefix s = Inr i \<longleftrightarrow> i = Ident s \<and> (\<exists>r. s = prefix @ random_hex8 r)"
  by (auto simp: id_from_str_def hex8_suffix_ex strip_prefix_Some_iff split: option.splits if_splits)

lemma random_id_parses [simp]: "id_from_str prefix (as_str (random_id prefix r)) = Inr (random_id prefix r)"
  by (auto simp: id_from_str_Inr_iff random_id_def)

lemma random_id_inj [simp]: "random_id p r = random_id p r' \<longleftrightarrow> r = r'"
  by (simp add: random_id_def)

lemma derive_id_string_valid: "\<exists>r. derive_id_string finish prefix t salt pl = prefix @ random_hex8 r"
  by (auto simp: derive_id_string_def random_hex8_def)

lemma as_str_inject: "as_str a = as_str b \<longleftrightarrow> a = b"
  by (metis ident.expand)

text \<open>The bytes the hasher consumes.\<close>

fun write_bytes :: "hash_write \<Rightarrow> nat list" where
  "write_bytes (HashI64 n) = map (\<lambda>k. unat (drop_bit (8 * k) n) mod 256) [0..<8]"
| "write_bytes (HashU8 b) = [unat b]"
| "write_bytes (HashStr s) = map of_char s @ [255]"

definition hash_bytes :: "hash_write list \<Rightarrow> nat list" where
  "hash_bytes ws = concat (map write_bytes ws)"

text \<open>The byte \<open>0xff\<close> occurs in no UTF-8 text.\<close>

definition utf8_text :: "string \<Rightarrow> bool" where
  "utf8_text s \<longleftrightarrow> CHR 0xFF \<notin> set s"

lemma hash_bytes_simps [simp]:
  "hash_bytes [] = []"
  "hash_bytes (w # ws) = write_bytes w @ hash_bytes ws"
  "hash_bytes (ws @ ws') = hash_bytes ws @ hash_bytes ws'"
  by (auto simp: hash_bytes_def)

lemma of_char_nat_inj: "(of_char c :: nat) = of_char d \<longleftrightarrow> c = d"
  by (metis char_of_char)

lemma of_char_eq_255: "(of_char c :: nat) = 255 \<longleftrightarrow> c = CHR 0xFF"
proof -
  have "(255 :: nat) = of_char (CHR 0xFF)" by simp
  then show ?thesis by (metis of_char_nat_inj)
qed

lemma of_char_eq_0: "(of_char c :: nat) = 0 \<longleftrightarrow> c = CHR 0x00"
proof -
  have "(0 :: nat) = of_char (CHR 0x00)" by simp
  then show ?thesis by (metis of_char_nat_inj)
qed

lemma split_at_255:
  "255 \<notin> set a \<Longrightarrow> 255 \<notin> set a' \<Longrightarrow> a @ (255 :: nat) # b = a' @ 255 # b' \<longleftrightarrow> a = a' \<and> b = b'"
proof (induction a arbitrary: a')
  case Nil
  then show ?case by (cases a') auto
next
  case (Cons x xs)
  then show ?case by (cases a') auto
qed

lemma utf8_text_bytes: "utf8_text t \<Longrightarrow> 255 \<notin> set (map of_char t :: nat list)"
proof
  assume t: "utf8_text t" and "255 \<in> set (map of_char t :: nat list)"
  then obtain c where "c \<in> set t" "(of_char c :: nat) = 255" by (metis image_iff list.set_map)
  with t show False by (simp only: of_char_eq_255 utf8_text_def)
qed

lemma map_of_char_inj: "(map of_char s :: nat list) = map of_char s' \<longleftrightarrow> s = s'"
  by (rule inj_map_eq_map) (auto simp: inj_on_def of_char_nat_inj)

lemma hash_str_split:
  assumes "utf8_text s" "utf8_text s'"
  shows "write_bytes (HashStr s) @ b = write_bytes (HashStr s') @ b' \<longleftrightarrow> s = s' \<and> b = b'"
  using split_at_255 [OF assms [THEN utf8_text_bytes]] by (simp add: map_of_char_inj)

lemma hash_i64_inj:
  assumes "write_bytes (HashI64 m) = write_bytes (HashI64 n)"
  shows "m = n"
proof (rule bit_word_eqI)
  fix i assume "i < LENGTH(64)"
  then have "i div 8 < 8" by simp
  with assms have "unat (drop_bit (8 * (i div 8)) m) mod 2 ^ 8 = unat (drop_bit (8 * (i div 8)) n) mod 2 ^ 8"
    by simp
  then have "bit (take_bit 8 (unat (drop_bit (8 * (i div 8)) m))) (i mod 8)
           = bit (take_bit 8 (unat (drop_bit (8 * (i div 8)) n))) (i mod 8)"
    by (simp add: take_bit_eq_mod)
  then show "bit m i = bit n i"
    by (simp add: bit_take_bit_iff bit_unsigned_iff bit_drop_bit_eq)
qed

lemma hash_strs_inj:
  assumes "\<forall>s \<in> set xs. utf8_text s" "\<forall>s \<in> set ys. utf8_text s"
    and "hash_bytes (map HashStr xs) = hash_bytes (map HashStr ys)"
  shows "xs = ys"
  using assms
proof (induction xs arbitrary: ys)
  case Nil
  then show ?case by (cases ys) auto
next
  case (Cons x xs)
  then obtain y ys' where ys: "ys = y # ys'" by (cases ys) auto
  with Cons.prems have "x = y \<and> hash_bytes (map HashStr xs) = hash_bytes (map HashStr ys')"
    by (simp only: hash_str_split list.map hash_bytes_simps list.set_intros)
  with Cons.IH [of ys'] Cons.prems ys show ?case by simp
qed

text \<open>Strings that can stand before the separator byte: no text of theirs starts with it.\<close>

definition sep_free :: "string \<Rightarrow> bool" where
  "sep_free s \<longleftrightarrow> utf8_text s \<and> s \<noteq> [] \<and> hd s \<noteq> CHR 0x00"

lemma hash_strs_sep_inj:
  assumes "\<forall>s \<in> set xs. sep_free s" "\<forall>s \<in> set ys. sep_free s"
    and "hash_bytes (map HashStr xs) @ 0 # r = hash_bytes (map HashStr ys) @ 0 # r'"
  shows "xs = ys \<and> r = r'"
  using assms
proof (induction xs arbitrary: ys)
  case Nil
  then show ?case by (cases ys) (auto simp: sep_free_def neq_Nil_conv of_char_eq_0)
next
  case (Cons x xs)
  show ?case
  proof (cases ys)
    case Nil
    with Cons.prems show ?thesis by (auto simp: sep_free_def neq_Nil_conv of_char_eq_0)
  next
    case (Cons y ys')
    with Cons.prems have "x = y \<and> hash_bytes (map HashStr xs) @ 0 # r = hash_bytes (map HashStr ys') @ 0 # r'"
      by (simp only: hash_str_split list.map hash_bytes_simps list.set_intros sep_free_def append_assoc)
    with Cons.IH [of ys'] Cons.prems Cons show ?thesis by simp
  qed
qed

definition valid_id :: "string \<Rightarrow> 'k ident \<Rightarrow> bool" where
  "valid_id prefix i \<longleftrightarrow> (\<exists>r. i = random_id prefix r)"

fun valid_source :: "source_id \<Rightarrow> bool" where
  "valid_source (SourceClaim c) = valid_id claim_prefix c"
| "valid_source (SourcePolicy p) = valid_id policy_prefix p"

lemma hex_utf8: "CHR 0xFF \<notin> set (random_hex8 r)"
proof -
  have "CHR 0xFF \<notin> set hex_chars" by (simp add: hex_chars_def)
  with set_hex_be show ?thesis unfolding random_hex8_def by blast
qed

lemma sep_free_valid_id: "valid_id p i \<Longrightarrow> sep_free p \<Longrightarrow> sep_free (as_str i)"
  using hex_utf8 by (auto simp: valid_id_def sep_free_def utf8_text_def random_id_def)

lemma sep_free_prefixes: "sep_free claim_prefix" "sep_free policy_prefix"
  by (simp_all add: sep_free_def utf8_text_def prefix_defs)

lemma sep_free_source: "valid_source x \<Longrightarrow> sep_free (source_as_str x)"
  by (cases x) (auto intro: sep_free_valid_id sep_free_prefixes)

lemma source_as_str_inj:
  "valid_source x \<Longrightarrow> valid_source y \<Longrightarrow> source_as_str x = source_as_str y \<Longrightarrow> x = y"
  by (cases x; cases y) (auto simp: valid_id_def random_id_def prefix_defs as_str_inject)

section \<open>Properties\<close>

text \<open>
  Property C9.  Parsing accepts a string exactly when it is the text of one id the generator can draw:
  the accepted ids of a prefix are in bijection with the 32-bit values, and printing a parsed id
  gives the string back.
\<close>

theorem prefixed_id_roundtrip:
  "id_from_str prefix s = Inr i \<longleftrightarrow> s = as_str i \<and> (\<exists>!r. i = random_id prefix r)"
  by (auto simp: id_from_str_Inr_iff random_id_def)

text \<open>
  A source id is accepted exactly when it is the text of a valid claim id or of a valid
  policy id, and it is dispatched to that variant; no other string enters a source list.
\<close>

theorem source_id_dispatch:
  "source_from_str s = Inr x \<longleftrightarrow> s = source_as_str x \<and> valid_source x"
proof -
  have differ: "claim_prefix @ t \<noteq> policy_prefix @ u" for t u
    by (simp add: prefix_defs)
  have parsed: "id_from_str p (p @ random_hex8 r) = Inr (Ident (p @ random_hex8 r))" for p r
    by (auto simp: id_from_str_Inr_iff)
  show ?thesis
    by (cases x)
       (auto simp: source_from_str_def id_from_str_Inr_iff valid_id_def random_id_def parsed
          str_starts_with_iff differ differ [symmetric] map_sum_def split: sum.splits if_splits)
qed

text \<open>
  The bytes a derived trace id hashes determine its timestamp, its name, its input
  sources, its output claims and its salt: the separator byte between the two id lists and the
  terminator of every string leave no two different traces with the same hash input.
\<close>

theorem trace_hash_input_unambiguous:
  assumes "utf8_text nm" "utf8_text nm'" "utf8_text salt" "utf8_text salt'"
    and "\<forall>x \<in> set ins \<union> set ins'. valid_source x"
    and "\<forall>c \<in> set outs \<union> set outs'. valid_id claim_prefix c"
    and eq: "hash_bytes ([HashI64 t] @ trace_payload nm ins outs @ [HashStr salt])
           = hash_bytes ([HashI64 t'] @ trace_payload nm' ins' outs' @ [HashStr salt'])"
  shows "t = t' \<and> nm = nm' \<and> ins = ins' \<and> outs = outs' \<and> salt = salt'"
proof -
  define enc where "enc n i o' s = hash_bytes (trace_payload n i o' @ [HashStr s])" for n i o' s
  have enc: "enc n i o' s = write_bytes (HashStr n) @ hash_bytes (map HashStr (map source_as_str i))
      @ 0 # hash_bytes (map HashStr (map as_str o' @ [s]))" for n i o' s
    by (simp add: enc_def trace_payload_def comp_def)
  have len: "length (write_bytes (HashI64 t)) = length (write_bytes (HashI64 t'))" by simp
  from eq have "write_bytes (HashI64 t) @ enc nm ins outs salt = write_bytes (HashI64 t') @ enc nm' ins' outs' salt'"
    by (simp only: enc_def hash_bytes_simps append_Nil append_Cons append_assoc)
  with len have t: "t = t'" and e: "enc nm ins outs salt = enc nm' ins' outs' salt'"
    using hash_i64_inj by (metis append_eq_append_conv)+
  from e assms(1,2) have nm: "nm = nm'" and mid:
    "hash_bytes (map HashStr (map source_as_str ins)) @ 0 # hash_bytes (map HashStr (map as_str outs @ [salt]))
     = hash_bytes (map HashStr (map source_as_str ins')) @ 0 # hash_bytes (map HashStr (map as_str outs' @ [salt']))"
    by (simp_all only: enc hash_str_split)
  have sep: "sep_free s" if "s \<in> set (map source_as_str ins) \<union> set (map source_as_str ins')" for s
    using that assms(5) sep_free_source by (auto simp del: valid_source.simps)
  have "map source_as_str ins = map source_as_str ins' \<and>
    hash_bytes (map HashStr (map as_str outs @ [salt])) = hash_bytes (map HashStr (map as_str outs' @ [salt']))"
    by (rule hash_strs_sep_inj [OF _ _ mid]) (use sep in blast)+
  then have src: "map source_as_str ins = map source_as_str ins'"
    and tail: "hash_bytes (map HashStr (map as_str outs @ [salt])) = hash_bytes (map HashStr (map as_str outs' @ [salt']))"
    by blast+
  have utf8: "utf8_text s" if "s \<in> set (map as_str outs @ [salt]) \<union> set (map as_str outs' @ [salt'])" for s
    using that assms(3,4,6) sep_free_valid_id [OF _ sep_free_prefixes(1)] by (auto simp: sep_free_def)
  have "map as_str outs @ [salt] = map as_str outs' @ [salt']"
    by (rule hash_strs_inj [OF _ _ tail]) (use utf8 in blast)+
  moreover have "ins = ins'"
    using src assms(5) source_as_str_inj by (intro map_inj_on [OF src]) (auto simp: inj_on_def)
  ultimately show ?thesis
    using t nm by (auto dest!: map_injective simp: inj_on_def as_str_inject)
qed

theorem trace_hash_input_unambiguous_witness:
  "(1 :: 64 word) = 1 \<and> ''t'' = ''t''
   \<and> [SourcePolicy (random_id policy_prefix 7)] = [SourcePolicy (random_id policy_prefix 7)]
   \<and> [random_id claim_prefix 9 :: claim_id] = [random_id claim_prefix 9] \<and> ''00ff'' = ''00ff''"
  by (rule trace_hash_input_unambiguous) (auto simp: utf8_text_def valid_id_def)

end
