(* ===== verification/Claim_Types.thy ===== *)
theory Claim_Types
  imports Claim_Ids
begin

text \<open>
  The entities of \<open>src/claim/\<close>: claims, policies, disputes, resolutions, inbox messages, outbox
  entries and traces, with their small methods, and the time helpers of \<open>src/time.rs\<close>.  A
  \<open>DateTime<Utc>\<close> is the \<^typ>\<open>int\<close> number of nanoseconds since the epoch and a \<open>Duration\<close> is a
  number of nanoseconds.
\<close>

type_synonym time = int
type_synonym duration = int

section \<open>Time\<close>

definition nanos_per_sec :: int where "nanos_per_sec = 1000000000"

definition truncate_to_second :: "time \<Rightarrow> time" where
  "truncate_to_second t = (t div nanos_per_sec) * nanos_per_sec"

definition next_claim_update_at :: "time \<Rightarrow> time \<Rightarrow> time" where
  "next_claim_update_at now previous = max (truncate_to_second now) (previous + nanos_per_sec)"

section \<open>Claims\<close>

datatype confidence = High | Medium | Low

datatype claim_status = Active | Stale | Deprecated

record claim =
  claim_id :: claim_id
  claim_name :: string
  claim_statement :: string
  claim_scope :: string
  claim_holder :: agent_id
  claim_confidence :: confidence
  claim_status :: claim_status
  claim_created_at :: time
  claim_updated_at :: "time option"
  source_claim_ids :: "source_id list"
  evidence_summary :: string

definition effective_updated_at :: "claim \<Rightarrow> time" where
  "effective_updated_at c = (case claim_updated_at c of Some t \<Rightarrow> t | None \<Rightarrow> claim_created_at c)"

section \<open>Disputes\<close>

datatype dispute_status = Open | Resolved

datatype dispute_report_validation_error = InvalidLifecycleState

record dispute =
  dispute_id :: dispute_id
  dispute_name :: string
  reporter_agent_id :: agent_id
  dispute_claims :: "claim_id list"
  dispute_summary :: string
  dispute_status :: dispute_status
  dispute_created_at :: time
  dispute_resolved_at :: "time option"

definition validate_agent_report :: "dispute \<Rightarrow> dispute_report_validation_error + unit" where
  "validate_agent_report d =
     (if dispute_status d \<noteq> Open \<or> dispute_resolved_at d \<noteq> None then Inl InvalidLifecycleState else Inr ())"

section \<open>Policies\<close>

datatype policy_message_type = PolicyUpdateType | ClaimAttributeUpdateType

datatype policy_status = PolicyActive | PolicyDeprecated

record policy =
  policy_id :: policy_id
  policy_message_type :: policy_message_type
  policy_name :: string
  policy_statement :: string
  policy_scope :: string
  policy_status :: policy_status
  policy_created_at :: time
  policy_updated_at :: "time option"
  target_agents :: "agent_id list option"

section \<open>Resolutions\<close>

datatype resolution_type = Coexist | LifecycleUpdate | ConflictResolved | Unresolved

definition is_resolved :: "resolution_type \<Rightarrow> bool" where
  "is_resolved r = (case r of Unresolved \<Rightarrow> False | _ \<Rightarrow> True)"

datatype resolution_basis = DirectAnalysis | PriorResolution | PolicyBasis | Evidence | InsufficientEvidence

datatype resolved_by = Automatic | Human

record claim_assessment =
  assessed_claim_id :: claim_id
  recommended_status :: claim_status
  assessment :: string
  recommended_scope :: "string option"
  recommended_statement :: "string option"
  assessment_reason :: string

record dispute_resolution =
  resolution_id :: arbitration_resolution_id
  resolved_by :: resolved_by
  resolution_resolved_at :: time
  resolution_type :: "resolution_type option"
  resolution_basis :: "resolution_basis option"
  conclusion :: string
  claim_assessments :: "claim_assessment list"
  rejection_reason :: "string option"

record arbitration_resolution_context =
  context_dispute_id :: dispute_id
  context_resolution :: dispute_resolution
  context_snapshot_hash :: "string option"
  dispute_snapshot :: dispute
  direct_claim_snapshots :: "claim list"
  snapshot_source_resolution_id :: "arbitration_resolution_id option"

section \<open>Inbox messages\<close>

datatype inbox_message_kind =
    PolicyUpdate policy
  | ClaimAttributeUpdate policy "arbitration_resolution_context option"

record inbox_message =
  message_id :: inbox_id
  message_kind :: inbox_message_kind
  handled_at :: "time option"

definition message_policy :: "inbox_message \<Rightarrow> policy" where
  "message_policy m = (case message_kind m of PolicyUpdate p \<Rightarrow> p | ClaimAttributeUpdate p _ \<Rightarrow> p)"

definition event_at :: "inbox_message \<Rightarrow> time" where
  "event_at m = (case policy_updated_at (message_policy m) of
                   Some t \<Rightarrow> t | None \<Rightarrow> policy_created_at (message_policy m))"

definition message_policy_id :: "inbox_message \<Rightarrow> policy_id" where
  "message_policy_id m = policy_id (message_policy m)"

definition message_type :: "inbox_message \<Rightarrow> policy_message_type" where
  "message_type m = (case message_kind m of
                       PolicyUpdate _ \<Rightarrow> PolicyUpdateType
                     | ClaimAttributeUpdate _ _ \<Rightarrow> ClaimAttributeUpdateType)"

section \<open>Outbox entries\<close>

record sweep_notification_item =
  item_claim_id :: claim_id
  item_effective_updated_at :: time
  suggested_status :: claim_status

record offered_mark =
  offered_agent :: agent_id
  first_offered_at :: time
  last_offered_at :: time
  attempts :: "64 word"

datatype outbox_target = Broadcast | Targeted agent_id

record delivered_mark =
  delivered_agent :: agent_id
  sent_at :: time

record outbox_entry =
  entry_inbox_id :: inbox_id
  maintainer_action_id :: maintainer_action_id
  entry_target :: outbox_target
  entry_created_at :: time
  offered_to :: "offered_mark list"
  delivered_to :: "delivered_mark list"
  sweep_items :: "sweep_notification_item list"
  entry_message :: inbox_message

section \<open>Traces\<close>

record trace =
  trace_id :: trace_id
  trace_name :: string
  trace_task :: string
  trace_agent :: agent_id
  input_claims :: "source_id list"
  output_claims :: "claim_id list"
  trace_created_at :: time

section \<open>Facts\<close>

lemma truncate_to_second_le: "truncate_to_second t \<le> t" "t < truncate_to_second t + nanos_per_sec"
  by (simp_all add: truncate_to_second_def nanos_per_sec_def)

lemma truncate_to_second_idem [simp]: "truncate_to_second (truncate_to_second t) = truncate_to_second t"
  by (simp add: truncate_to_second_def nanos_per_sec_def)

lemma next_claim_update_at_later: "previous < next_claim_update_at now previous"
  by (simp add: next_claim_update_at_def nanos_per_sec_def)

end
