(* ===== verification/Team_Store.thy ===== *)
theory Team_Store
  imports Claim_Types "HOL-Library.AList"
begin

text \<open>
  The team store: the directories the Maintainer keeps, as lists of named files in the order a
  directory scan meets them, the storage primitives of \<open>src/storage/\<close> and the outbox file operations
  of \<open>src/maintainer/outbox_io.rs\<close>.  Every call of the operating system asks the state's fault
  schedule whether it fails, so an operation that returns an error part of the way leaves behind what
  it had already written.  The random generator is a field of the state: a stream of 32-bit draws
  and a position.  File names are UTF-8 (readers skip the others), files of these directories are
  regular files, and the temporary sibling of an atomic write is not a file of the model because every
  reader skips such names.
\<close>

section \<open>The state\<close>

text \<open>A file is empty (a reserved id), a document that decodes, or anything else.\<close>

datatype 'a yaml_file = EmptyFile | Document 'a | Malformed

type_synonym 'a dir = "(string \<times> 'a yaml_file) list"

text \<open>An entry of \<open>agents/\<close>: a plain file, or a directory with or without \<open>claims/\<close> in it.\<close>

datatype agent_node = AgentFile | AgentDir "claim dir option"

record maintainer_dispute_record =
  record_dispute :: dispute
  record_resolution :: "dispute_resolution option"

record team_store =
  io_faults :: "bool list"
  rng :: "nat \<Rightarrow> 32 word"
  rng_pos :: nat
  policies :: "policy dir"
  outbox :: "outbox_entry dir"
  agents :: "(string \<times> agent_node) list"
  disputes :: "maintainer_dispute_record dir"

datatype team_error =
    IoError
  | NotFound string
  | DecodeError string
  | MintNoAttempts
  | MintCollision
  | ReportInvalid dispute_report_validation_error
  | AnalysisConflict
  | RecordInvalid

type_synonym 'a team_io = "(team_store, team_error, 'a) io"

section \<open>Storage primitives\<close>

definition io_call :: "unit team_io" where
  "io_call w = (case io_faults w of
                  [] \<Rightarrow> (Inr (), w)
                | f # fs \<Rightarrow> (if f then Inl IoError else Inr (), w\<lparr>io_faults := fs\<rparr>))"

text \<open>A call whose failure the code reads as \<open>false\<close> (\<open>unwrap_or(false)\<close>).\<close>

definition io_ok :: "bool team_io" where
  "io_ok = bind_io (attempt_io io_call) (\<lambda>r. return_io (case r of Inl _ \<Rightarrow> False | Inr _ \<Rightarrow> True))"

definition yaml_name :: "'k ident \<Rightarrow> string" where
  "yaml_name i = as_str i @ ''.yaml''"

definition lift_sum :: "'e + 'a \<Rightarrow> ('w, 'e, 'a) io" where
  "lift_sum r = (case r of Inl e \<Rightarrow> throw_io e | Inr x \<Rightarrow> return_io x)"

definition decode_file :: "string \<Rightarrow> 'a yaml_file option \<Rightarrow> team_error + 'a" where
  "decode_file name f = (case f of
       None \<Rightarrow> Inl (NotFound name)
     | Some (Document x) \<Rightarrow> Inr x
     | Some _ \<Rightarrow> Inl (DecodeError name))"

definition read_yaml :: "(team_store \<Rightarrow> 'a dir) \<Rightarrow> string \<Rightarrow> 'a team_io" where
  "read_yaml get name = bind_io io_call (\<lambda>_.
     bind_io (get_io (\<lambda>w. decode_file name (map_of (get w) name))) lift_sum)"

definition write_yaml_atomic ::
  "(('a dir \<Rightarrow> 'a dir) \<Rightarrow> team_store \<Rightarrow> team_store) \<Rightarrow> string \<Rightarrow> 'a \<Rightarrow> unit team_io" where
  "write_yaml_atomic upd name x =
     bind_io io_call (\<lambda>_. modify_io (upd (AList.update name (Document x))))"

definition draw :: "32 word team_io" where
  "draw = bind_io (get_io (\<lambda>w. rng w (rng_pos w))) (\<lambda>r.
          bind_io (modify_io (\<lambda>w. w\<lparr>rng_pos := Suc (rng_pos w)\<rparr>)) (\<lambda>_. return_io r))"

fun mint_loop ::
  "(team_store \<Rightarrow> 'a dir) \<Rightarrow> (('a dir \<Rightarrow> 'a dir) \<Rightarrow> team_store \<Rightarrow> team_store) \<Rightarrow> string \<Rightarrow> nat
   \<Rightarrow> 'k ident team_io" where
  "mint_loop get upd prefix 0 = throw_io MintCollision"
| "mint_loop get upd prefix (Suc n) =
     bind_io draw (\<lambda>r. let candidate = random_id prefix r in
     bind_io io_call (\<lambda>_.
     bind_io (get_io (\<lambda>w. map_of (get w) (yaml_name candidate) \<noteq> None)) (\<lambda>exists.
       if exists then mint_loop get upd prefix n
       else bind_io (modify_io (upd (\<lambda>d. d @ [(yaml_name candidate, EmptyFile)]))) (\<lambda>_.
            return_io candidate))))"

definition mint_unique_id_in_dir ::
  "(team_store \<Rightarrow> 'a dir) \<Rightarrow> (('a dir \<Rightarrow> 'a dir) \<Rightarrow> team_store \<Rightarrow> team_store) \<Rightarrow> string \<Rightarrow> nat
   \<Rightarrow> 'k ident team_io" where
  "mint_unique_id_in_dir get upd prefix max_attempts =
     (if max_attempts = 0 then throw_io MintNoAttempts
      else bind_io io_call (\<lambda>_. mint_loop get upd prefix max_attempts))"

section \<open>Directory scans\<close>

definition is_yaml_file_name :: "string \<Rightarrow> bool" where
  "is_yaml_file_name n \<longleftrightarrow> str_ends_with n ''.yaml'' \<and> \<not> str_contains n ''.tmp.''"

text \<open>An empty file whose name is a valid id is a reservation left by a crashed writer.\<close>

definition is_reservation :: "string \<Rightarrow> string \<Rightarrow> 'a yaml_file \<Rightarrow> bool" where
  "is_reservation prefix n f \<longleftrightarrow>
     (case strip_suffix ''.yaml'' n of
        None \<Rightarrow> False
      | Some stem \<Rightarrow> (case (id_from_str prefix stem :: id_error + unit ident) of Inl _ \<Rightarrow> False | Inr _ \<Rightarrow> True))
     \<and> (case f of EmptyFile \<Rightarrow> True | _ \<Rightarrow> False)"

fun decode_dir :: "(string \<Rightarrow> 'a yaml_file \<Rightarrow> bool) \<Rightarrow> 'a dir \<Rightarrow> team_error + 'a list" where
  "decode_dir skip [] = Inr []"
| "decode_dir skip ((n, f) # fs) =
     (if \<not> is_yaml_file_name n \<or> skip n f then decode_dir skip fs
      else case f of
             Document x \<Rightarrow> (case decode_dir skip fs of Inl e \<Rightarrow> Inl e | Inr xs \<Rightarrow> Inr (x # xs))
           | _ \<Rightarrow> Inl (DecodeError n))"

section \<open>Outbox files\<close>

definition outbox_list :: "outbox_entry list team_io" where
  "outbox_list = bind_io io_call (\<lambda>_. bind_io (get_io outbox) (\<lambda>d.
     lift_sum (decode_dir (is_reservation inbox_prefix) d)))"

definition outbox_write :: "outbox_entry \<Rightarrow> unit team_io" where
  "outbox_write entry = write_yaml_atomic outbox_update (yaml_name (entry_inbox_id entry)) entry"

definition saturating_add64 :: "64 word \<Rightarrow> 64 word \<Rightarrow> 64 word" where
  "saturating_add64 a b = (if 2 ^ 64 \<le> unat a + unat b then - 1 else a + b)"

text \<open>\<open>iter_mut().find\<close>: the first mark of the agent is updated, or a new mark is pushed.\<close>

fun offer_mark :: "agent_id \<Rightarrow> time \<Rightarrow> offered_mark list \<Rightarrow> offered_mark list" where
  "offer_mark a t [] = [\<lparr>offered_agent = a, first_offered_at = t, last_offered_at = t, attempts = 1\<rparr>]"
| "offer_mark a t (m # ms) =
     (if offered_agent m = a
      then m\<lparr>last_offered_at := t, attempts := saturating_add64 (attempts m) 1\<rparr> # ms
      else m # offer_mark a t ms)"

definition record_offered :: "inbox_id \<Rightarrow> agent_id \<Rightarrow> time \<Rightarrow> unit team_io" where
  "record_offered i a t =
     bind_io (read_yaml outbox (yaml_name i)) (\<lambda>entry.
       write_yaml_atomic outbox_update (yaml_name i) (entry\<lparr>offered_to := offer_mark a t (offered_to entry)\<rparr>))"

definition delivered_to_agent :: "outbox_entry \<Rightarrow> agent_id \<Rightarrow> bool" where
  "delivered_to_agent e a \<longleftrightarrow> list_ex (\<lambda>m. delivered_agent m = a) (delivered_to e)"

definition offered_to_agent :: "outbox_entry \<Rightarrow> agent_id \<Rightarrow> bool" where
  "offered_to_agent e a \<longleftrightarrow> list_ex (\<lambda>m. offered_agent m = a) (offered_to e)"

definition append_delivered :: "inbox_id \<Rightarrow> agent_id \<Rightarrow> time \<Rightarrow> unit team_io" where
  "append_delivered i a t =
     bind_io (read_yaml outbox (yaml_name i)) (\<lambda>entry.
       if delivered_to_agent entry a then return_io ()
       else write_yaml_atomic outbox_update (yaml_name i)
              (entry\<lparr>delivered_to := delivered_to entry @ [\<lparr>delivered_agent = a, sent_at = t\<rparr>]\<rparr>))"

section \<open>Contracts of the storage primitives\<close>

lemma lift_sum_eq [simp]: "lift_sum s w = (r, w') \<longleftrightarrow> r = s \<and> w' = w"
  by (auto simp: lift_sum_def split: sum.splits)

lemma decode_file_Inr_iff: "decode_file n f = Inr x \<longleftrightarrow> f = Some (Document x)"
  by (auto simp: decode_file_def split: option.splits yaml_file.splits)

lemmas decode_file_ok = decode_file_Inr_iff decode_file_Inr_iff [THEN trans [OF eq_commute]]

text \<open>
  An observation of the store that neither the fault schedule nor the generator changes, and an
  update that leaves an observation alone.
\<close>

locale observation =
  fixes obs :: "team_store \<Rightarrow> 'b"
  assumes obs_faults: "obs (w\<lparr>io_faults := fs\<rparr>) = obs w"
    and obs_rng: "obs (w\<lparr>rng_pos := n\<rparr>) = obs w"
begin

lemma within_io_call: "within (same obs) io_call"
  by (rule withinI) (auto simp: io_call_def same_def obs_faults split: list.splits)

lemma within_draw: "within (same obs) draw"
  unfolding draw_def by (intro same.within_intros same.within_modify) (auto simp: same_def obs_rng)

lemma within_io_ok: "within (same obs) io_ok"
  unfolding io_ok_def by (intro same.within_intros within_io_call)

lemma within_read_yaml: "within (same obs) (read_yaml get n)"
  unfolding read_yaml_def lift_sum_def by (intro same.within_intros within_io_call)

lemma within_lift_sum: "within (same obs) (lift_sum r)"
  unfolding lift_sum_def by (intro same.within_intros)

lemma within_outbox_list: "within (same obs) outbox_list"
  unfolding outbox_list_def by (intro same.within_intros within_io_call within_lift_sum)

lemma obs_io_call: "io_call w = (r, w') \<Longrightarrow> obs w' = obs w"
  using within_io_call by (auto dest: withinD simp: same_def)

lemmas within_reads = within_io_call within_draw within_io_ok within_read_yaml within_lift_sum
  within_outbox_list

end

locale untouched = observation +
  fixes upd :: "('a dir \<Rightarrow> 'a dir) \<Rightarrow> team_store \<Rightarrow> team_store"
  assumes obs_upd: "obs (upd f w) = obs w"
begin

lemma within_upd: "within (same obs) (modify_io (upd f))"
  by (rule same.within_modify) (simp add: same_def obs_upd)

lemma within_write: "within (same obs) (write_yaml_atomic upd n x)"
  unfolding write_yaml_atomic_def by (intro same.within_intros within_upd within_io_call)

lemma within_mint_loop: "within (same obs) (mint_loop get upd p k)"
  by (induction k)
     (simp_all add: Let_def same.within_intros within_upd within_io_call within_draw)

lemma within_mint: "within (same obs) (mint_unique_id_in_dir get upd p k)"
  unfolding mint_unique_id_in_dir_def by (intro same.within_intros within_io_call within_mint_loop)

end

text \<open>A directory of the store: its contents and the update that writes it.\<close>

locale directory = observation get for get :: "team_store \<Rightarrow> 'a dir" +
  fixes upd :: "('a dir \<Rightarrow> 'a dir) \<Rightarrow> team_store \<Rightarrow> team_store"
  assumes get_upd: "get (upd f w) = f (get w)"
begin

lemma read_yaml_ok:
  "read_yaml get n w = (Inr x, w') \<Longrightarrow> map_of (get w) n = Some (Document x) \<and> get w' = get w"
  by (auto simp: read_yaml_def io_iffs decode_file_ok dest!: obs_io_call)

lemma read_yaml_frame: "read_yaml get n w = (r, w') \<Longrightarrow> get w' = get w"
  using within_read_yaml [of get n] by (auto simp: same_def dest: withinD)

lemma write_yaml_atomic_ok:
  "write_yaml_atomic upd n x w = (Inr u, w') \<Longrightarrow> get w' = AList.update n (Document x) (get w)"
  by (auto simp: write_yaml_atomic_def io_iffs get_upd dest!: obs_io_call)

lemma write_yaml_atomic_err: "write_yaml_atomic upd n x w = (Inl e, w') \<Longrightarrow> get w' = get w"
  by (auto simp: write_yaml_atomic_def io_iffs get_upd dest!: obs_io_call)

lemma write_yaml_atomic_cases:
  assumes "write_yaml_atomic upd n x w = (r, w')"
  obtains (failed) e where "r = Inl e" "get w' = get w"
  | (written) "r = Inr ()" "get w' = AList.update n (Document x) (get w)"
  using assms write_yaml_atomic_ok write_yaml_atomic_err by (cases r) auto

lemma read_modify_cases:
  assumes "bind_io (read_yaml get n) k w = (r, w')"
  obtains (failed) e where "r = Inl e" "get w' = get w"
  | (found) x w1 where "map_of (get w) n = Some (Document x)" "get w1 = get w" "k x w1 = (r, w')"
proof -
  obtain q w1 where q: "read_yaml get n w = (q, w1)" by fastforce
  show ?thesis
  proof (cases q)
    case (Inl e)
    with q assms failed read_yaml_frame show ?thesis by (auto simp: bind_io_def)
  next
    case (Inr x)
    with q assms found [of x w1] read_yaml_ok [of n w x w1] show ?thesis by (simp add: bind_io_def)
  qed
qed

lemma mint_loop_cases:
  fixes r :: "team_error + 'k ident"
  assumes "mint_loop get upd p k w = (r, w')"
  shows "(\<exists>e. r = Inl e \<and> get w' = get w) \<or>
    (\<exists>(i :: 'k ident) c. r = Inr i \<and> i = random_id p c \<and> map_of (get w) (yaml_name i) = None
         \<and> get w' = get w @ [(yaml_name i, EmptyFile)])"
  using assms
proof (induction k arbitrary: w)
  case (Suc k)
  obtain c w1 where d: "draw w = (Inr c, w1)"
    by (auto simp: draw_def io_defs)
  then have g1: "get w1 = get w"
    using within_draw by (auto simp: same_def dest: withinD)
  obtain q w2 where c: "io_call w1 = (q, w2)" by fastforce
  then have g2: "get w2 = get w" using g1 obs_io_call by simp
  let ?taken = "map_of (get w2) (yaml_name (random_id p c :: 'k ident)) \<noteq> None"
  have run: "mint_loop get upd p (Suc k) w =
      (case q of Inl e \<Rightarrow> (Inl e, w2)
       | Inr _ \<Rightarrow> if ?taken then mint_loop get upd p k w2
                 else (Inr (random_id p c :: 'k ident), upd (\<lambda>d. d @ [(yaml_name (random_id p c :: 'k ident), EmptyFile)]) w2))"
    by (auto simp: bind_io_def d c get_io_def modify_io_def return_io_def Let_def split: sum.split)
  show ?case
  proof (cases q)
    case Inl
    with run Suc.prems g2 show ?thesis by auto
  next
    case q: (Inr u)
    show ?thesis
    proof (cases ?taken)
      case True
      with run q Suc.prems have "mint_loop get upd p k w2 = (r, w')" by simp
      from Suc.IH [OF this] g2 show ?thesis by simp
    next
      case False
      with run q Suc.prems g2 show ?thesis by (auto simp: get_upd)
    qed
  qed
qed auto

lemma mint_cases:
  fixes r :: "team_error + 'k ident"
  assumes "mint_unique_id_in_dir get upd p k w = (r, w')"
  obtains (err) e where "r = Inl e" "get w' = get w"
  | (minted) i c where "r = Inr i" "i = random_id p c" "map_of (get w) (yaml_name i) = None"
      "get w' = get w @ [(yaml_name i, EmptyFile)]"
  using assms unfolding mint_unique_id_in_dir_def
  by (cases r) (auto simp: io_iffs dest!: obs_io_call mint_loop_cases split: if_splits)

end

interpretation outbox_dir: directory outbox outbox_update
  by unfold_locales auto

interpretation policies_dir: directory policies policies_update
  by unfold_locales auto

interpretation disputes_dir: directory disputes disputes_update
  by unfold_locales auto

interpretation outbox_by_policies: untouched outbox policies_update
  by unfold_locales auto

interpretation policies_by_outbox: untouched policies outbox_update
  by unfold_locales auto

interpretation agents_by_outbox: untouched agents outbox_update
  by unfold_locales auto

interpretation agents_by_policies: untouched agents policies_update
  by unfold_locales auto

interpretation outbox_by_disputes: untouched outbox disputes_update
  by unfold_locales auto

interpretation policies_by_disputes: untouched policies disputes_update
  by unfold_locales auto

end
