(* ===== verification/Maintainer.thy ===== *)
theory Maintainer
  imports Team_Store
begin

text \<open>
  The Maintainer of \<open>src/maintainer.rs\<close>: publication and deprecation of policies, the expansion of
  an action into outbox entries, the delivery protocol (pull offers, ACK confirms), claim mirrors and
  dispute reports.  Each handler holds the outbox locks from its first to its last step, so a handler
  is one atomic transition of the team store; the calls inside it may fail one by one.  \<open>Utc::now()\<close>
  inside a handler is the argument \<open>now\<close>.
\<close>

record maintainer_config =
  stale_after :: duration
  deprecate_after :: duration
  id_mint_max_attempts :: nat

definition claim_attribute_policy_name :: string where
  "claim_attribute_policy_name = ''claim_attribute_update_suggestion''"

definition claim_attribute_policy_scope :: string where
  "claim_attribute_policy_scope = ''maintainer / claim-attribute-update''"

section \<open>Listing\<close>

text \<open>\<open>list_policies\<close> reads a failing existence check as an absent directory.\<close>

definition list_policies :: "policy list team_io" where
  "list_policies = bind_io io_ok (\<lambda>found.
     if \<not> found then return_io []
     else bind_io io_call (\<lambda>_. bind_io (get_io policies) (\<lambda>d.
            lift_sum (decode_dir (is_reservation policy_prefix) d))))"

definition active_policy_id_set :: "policy_id list team_io" where
  "active_policy_id_set = bind_io list_policies (\<lambda>ps.
     return_io (map policy_id (filter (\<lambda>p. policy_status p = PolicyActive) ps)))"

section \<open>Minting\<close>

definition mint_policy_id :: "maintainer_config \<Rightarrow> policy_id team_io" where
  "mint_policy_id cfg = mint_unique_id_in_dir policies policies_update policy_prefix (id_mint_max_attempts cfg)"

definition mint_inbox_id_for_outbox :: "maintainer_config \<Rightarrow> inbox_id team_io" where
  "mint_inbox_id_for_outbox cfg = mint_unique_id_in_dir outbox outbox_update inbox_prefix (id_mint_max_attempts cfg)"

fun mint_action_loop :: "maintainer_action_id list \<Rightarrow> nat \<Rightarrow> maintainer_action_id team_io" where
  "mint_action_loop used 0 = throw_io MintCollision"
| "mint_action_loop used (Suc n) =
     bind_io draw (\<lambda>r. let candidate = random_id action_prefix r in
       if candidate \<notin> set used then return_io candidate else mint_action_loop used n)"

definition mint_action_id_for_outbox :: "maintainer_config \<Rightarrow> maintainer_action_id team_io" where
  "mint_action_id_for_outbox cfg =
     (if id_mint_max_attempts cfg = 0 then throw_io MintNoAttempts
      else bind_io outbox_list (\<lambda>entries.
             mint_action_loop (map maintainer_action_id entries) (id_mint_max_attempts cfg)))"

section \<open>Publishing\<close>

definition normalize_target_agents :: "agent_id list option \<Rightarrow> agent_id list option" where
  "normalize_target_agents ts =
     (let unique = dedup (case ts of None \<Rightarrow> [] | Some l \<Rightarrow> l)
      in if unique = [] then None else Some unique)"

fun policy_inbox_kind_for_policy :: "policy \<Rightarrow> inbox_message_kind" where
  "policy_inbox_kind_for_policy p =
     (case policy_message_type p of
        PolicyUpdateType \<Rightarrow> PolicyUpdate p
      | ClaimAttributeUpdateType \<Rightarrow> ClaimAttributeUpdate p None)"

definition outbox_targets :: "policy \<Rightarrow> outbox_target list" where
  "outbox_targets p = (case target_agents p of
       Some l \<Rightarrow> if l \<noteq> [] then map Targeted l else [Broadcast]
     | None \<Rightarrow> [Broadcast])"

definition new_outbox_entry ::
  "policy \<Rightarrow> maintainer_action_id \<Rightarrow> time \<Rightarrow> sweep_notification_item list \<Rightarrow> outbox_target \<Rightarrow> inbox_id \<Rightarrow> outbox_entry" where
  "new_outbox_entry p action now items target i =
     \<lparr>entry_inbox_id = i, maintainer_action_id = action, entry_target = target, entry_created_at = now,
      offered_to = [], delivered_to = [], sweep_items = items,
      entry_message = \<lparr>message_id = i, message_kind = policy_inbox_kind_for_policy p, handled_at = None\<rparr>\<rparr>"

definition create_outbox_entries ::
  "maintainer_config \<Rightarrow> policy \<Rightarrow> maintainer_action_id \<Rightarrow> time \<Rightarrow> sweep_notification_item list \<Rightarrow> nat team_io" where
  "create_outbox_entries cfg p action now items =
     fold_io (\<lambda>target count.
         bind_io (mint_inbox_id_for_outbox cfg) (\<lambda>i.
         bind_io (outbox_write (new_outbox_entry p action now items target i)) (\<lambda>_.
         return_io (Suc count))))
       (outbox_targets p) 0"

definition write_policy :: "policy \<Rightarrow> unit team_io" where
  "write_policy p = write_yaml_atomic policies_update (yaml_name (policy_id p)) p"

definition lock_outbox_file :: "unit team_io" where
  "lock_outbox_file = io_call"

definition publish_new_policy ::
  "maintainer_config \<Rightarrow> string \<Rightarrow> string \<Rightarrow> string \<Rightarrow> time \<Rightarrow> agent_id list option \<Rightarrow> (policy_id \<times> nat) team_io" where
  "publish_new_policy cfg nm st sc now targets =
     bind_io lock_outbox_file (\<lambda>_.
     bind_io (mint_action_id_for_outbox cfg) (\<lambda>action.
     bind_io (mint_policy_id cfg) (\<lambda>i.
     let p = \<lparr>policy_id = i, policy_message_type = PolicyUpdateType, policy_name = nm, policy_statement = st,
              policy_scope = sc, policy_status = PolicyActive, policy_created_at = now,
              policy_updated_at = None, target_agents = normalize_target_agents targets\<rparr> in
     bind_io (write_policy p) (\<lambda>_.
     bind_io (create_outbox_entries cfg p action now []) (\<lambda>pushed.
     return_io (i, pushed))))))"

definition deprecate_policy :: "maintainer_config \<Rightarrow> policy_id \<Rightarrow> time \<Rightarrow> nat team_io" where
  "deprecate_policy cfg i now =
     bind_io lock_outbox_file (\<lambda>_.
     bind_io (read_yaml policies (yaml_name i)) (\<lambda>p0.
     let p = p0\<lparr>policy_status := PolicyDeprecated, policy_updated_at := Some now,
                target_agents := normalize_target_agents (target_agents p0)\<rparr> in
     bind_io (mint_action_id_for_outbox cfg) (\<lambda>action.
     bind_io (write_yaml_atomic policies_update (yaml_name i) p) (\<lambda>_.
     create_outbox_entries cfg p action now []))))"

definition claim_update_suggestion_locked ::
  "maintainer_config \<Rightarrow> string \<Rightarrow> time \<Rightarrow> agent_id list option \<Rightarrow> sweep_notification_item list
   \<Rightarrow> (policy_id \<times> nat) team_io" where
  "claim_update_suggestion_locked cfg st now targets items =
     bind_io (mint_action_id_for_outbox cfg) (\<lambda>action.
     bind_io (mint_policy_id cfg) (\<lambda>i.
     let p = \<lparr>policy_id = i, policy_message_type = ClaimAttributeUpdateType,
              policy_name = claim_attribute_policy_name, policy_statement = st,
              policy_scope = claim_attribute_policy_scope, policy_status = PolicyActive,
              policy_created_at = now, policy_updated_at = None,
              target_agents = normalize_target_agents targets\<rparr> in
     bind_io (write_policy p) (\<lambda>_.
     bind_io (create_outbox_entries cfg p action now items) (\<lambda>pushed.
     return_io (i, pushed)))))"

definition claim_update_suggestion ::
  "maintainer_config \<Rightarrow> string \<Rightarrow> time \<Rightarrow> agent_id list option \<Rightarrow> (policy_id \<times> nat) team_io" where
  "claim_update_suggestion cfg st now targets =
     bind_io lock_outbox_file (\<lambda>_. claim_update_suggestion_locked cfg st now targets [])"

section \<open>Delivery\<close>

definition claims_dir_of :: "agent_node option \<Rightarrow> claim dir" where
  "claims_dir_of n = (case n of Some (AgentDir (Some d)) \<Rightarrow> d | _ \<Rightarrow> [])"

text \<open>
  \<open>create_dir_all\<close> of the agent's \<open>claims/\<close>: it fails where a plain file has the agent's name.
\<close>

definition ensure_agent_registered :: "agent_id \<Rightarrow> unit team_io" where
  "ensure_agent_registered a =
     bind_io io_call (\<lambda>_. bind_io (get_io (\<lambda>w. map_of (agents w) (as_str a))) (\<lambda>n.
       case n of
         Some AgentFile \<Rightarrow> throw_io IoError
       | Some (AgentDir (Some _)) \<Rightarrow> return_io ()
       | _ \<Rightarrow> modify_io (agents_update (AList.update (as_str a) (AgentDir (Some []))))))"

definition seen_policy_ids :: "agent_id \<Rightarrow> outbox_entry list \<Rightarrow> policy_id list" where
  "seen_policy_ids a entries =
     map (message_policy_id \<circ> entry_message)
       (filter (\<lambda>e. offered_to_agent e a \<or> delivered_to_agent e a) entries)"

definition pull_selects :: "agent_id \<Rightarrow> policy_id list \<Rightarrow> policy_id list \<Rightarrow> outbox_entry \<Rightarrow> bool" where
  "pull_selects a active seen e =
     (if delivered_to_agent e a then False
      else case entry_target e of
             Targeted target \<Rightarrow> target = a
           | Broadcast \<Rightarrow>
               (let p = message_policy (entry_message e) in
                if policy_status p = PolicyDeprecated then policy_id p \<in> set seen
                else policy_id p \<in> set active \<or> offered_to_agent e a))"

definition pull_order :: "outbox_entry \<Rightarrow> outbox_entry \<Rightarrow> bool" where
  "pull_order = then_with (cmp_key (event_at \<circ> entry_message))
                  (then_with (cmp_key entry_created_at) (cmp_key (as_str \<circ> entry_inbox_id)))"

definition pull_chosen :: "agent_id \<Rightarrow> policy_id list \<Rightarrow> outbox_entry list \<Rightarrow> outbox_entry list" where
  "pull_chosen a active entries =
     sort_by pull_order (filter (pull_selects a active (seen_policy_ids a entries)) entries)"

definition pull_inbox :: "agent_id \<Rightarrow> time \<Rightarrow> inbox_message list team_io" where
  "pull_inbox a now =
     bind_io lock_outbox_file (\<lambda>_.
     bind_io (ensure_agent_registered a) (\<lambda>_.
     bind_io active_policy_id_set (\<lambda>active.
     bind_io outbox_list (\<lambda>entries.
       fold_io (\<lambda>e out. bind_io (record_offered (entry_inbox_id e) a now) (\<lambda>_.
                           return_io (out @ [entry_message e])))
         (pull_chosen a active entries) []))))"

datatype inbox_ack_error =
    UnknownInbox inbox_id
  | TargetMismatch agent_id inbox_id
  | NotOffered agent_id inbox_id
  | ReadOutbox team_error
  | LockOutbox team_error
  | PersistAck inbox_id team_error

fun validate_ack :: "agent_id \<Rightarrow> outbox_entry list \<Rightarrow> inbox_id list \<Rightarrow> inbox_ack_error + unit" where
  "validate_ack a entries [] = Inr ()"
| "validate_ack a entries (i # is) =
     (case find (\<lambda>e. entry_inbox_id e = i) entries of
        None \<Rightarrow> Inl (UnknownInbox i)
      | Some e \<Rightarrow>
          if (case entry_target e of Targeted target \<Rightarrow> target \<noteq> a | Broadcast \<Rightarrow> False)
          then Inl (TargetMismatch a i)
          else if \<not> offered_to_agent e a \<and> \<not> delivered_to_agent e a then Inl (NotOffered a i)
          else validate_ack a entries is)"

definition ack_inbox :: "agent_id \<Rightarrow> inbox_id list \<Rightarrow> time \<Rightarrow> (team_store, inbox_ack_error, unit) io" where
  "ack_inbox a ids now =
     bind_io (map_err_io LockOutbox lock_outbox_file) (\<lambda>_.
     bind_io (map_err_io ReadOutbox outbox_list) (\<lambda>entries.
     let unique_ids = dedup ids in
     bind_io (lift_sum (validate_ack a entries unique_ids)) (\<lambda>_.
       for_io (\<lambda>i. map_err_io (PersistAck i) (append_delivered i a now)) unique_ids)))"

end
