(* ===== verification/Dir_Facts.thy ===== *)
theory Dir_Facts
  imports Team_Store
begin

text \<open>
  Directories that hold only what the program writes: one file per id, named after the id, either
  a reservation or a document that carries the same id.  On such a directory a scan succeeds and
  returns its documents, and a lookup by id is a lookup by file name.
\<close>

definition docs :: "'a dir \<Rightarrow> 'a list" where
  "docs d = List.map_filter (\<lambda>(n, f). case f of Document x \<Rightarrow> Some x | _ \<Rightarrow> None) d"

definition dir_wf :: "string \<Rightarrow> ('a \<Rightarrow> 'k ident) \<Rightarrow> 'a dir \<Rightarrow> bool" where
  "dir_wf prefix key d \<longleftrightarrow>
     distinct (map fst d) \<and>
     (\<forall>(n, f) \<in> set d. f \<noteq> Malformed \<and> (\<exists>r. n = yaml_name (random_id prefix r :: 'k ident))
        \<and> (\<forall>x. f = Document x \<longrightarrow> n = yaml_name (key x)))"

lemma docs_simps [simp]:
  "docs [] = []"
  "docs ((n, f) # d) = (case f of Document x \<Rightarrow> x # docs d | _ \<Rightarrow> docs d)"
  "docs (d @ d') = docs d @ docs d'"
  by (auto simp: docs_def map_filter_def split: yaml_file.split)

lemma docs_mem: "x \<in> set (docs d) \<longleftrightarrow> (\<exists>n. (n, Document x) \<in> set d)"
  by (induction d) (auto split: yaml_file.splits)

lemma yaml_name_inj [simp]: "yaml_name i = yaml_name j \<longleftrightarrow> i = j"
  by (simp add: yaml_name_def as_str_inject)

subsection \<open>File names of ids\<close>

lemma count_dots_hex [simp]: "count_list (random_hex8 r) CHR ''.'' = 0"
proof -
  have "CHR ''.'' \<notin> set hex_chars" by (simp add: hex_chars_def)
  with set_hex_be have "CHR ''.'' \<notin> set (random_hex8 r)" unfolding random_hex8_def by blast
  then show ?thesis by (simp add: count_list_0_iff)
qed

lemma yaml_name_is_yaml:
  assumes "CHR ''.'' \<notin> set prefix"
  shows "is_yaml_file_name (yaml_name (random_id prefix r :: 'k ident))"
proof -
  have "\<not> str_contains (yaml_name (random_id prefix r :: 'k ident)) ''.tmp.''"
  proof
    assume "str_contains (yaml_name (random_id prefix r :: 'k ident)) ''.tmp.''"
    then obtain a b where eq: "yaml_name (random_id prefix r :: 'k ident) = a @ ''.tmp.'' @ b"
      unfolding str_contains_iff by blast
    have "count_list (a @ ''.tmp.'' @ b) CHR ''.'' \<ge> 2" by simp
    moreover have "count_list (yaml_name (random_id prefix r :: 'k ident)) CHR ''.'' = 1"
      using assms by (simp add: yaml_name_def random_id_def count_list_0_iff)
    ultimately show False using eq by simp
  qed
  then show ?thesis
    by (simp add: is_yaml_file_name_def yaml_name_def str_ends_with_iff)
qed

lemma reservation_of_id:
  "is_reservation prefix (yaml_name (random_id prefix r :: 'k ident)) f \<longleftrightarrow> f = EmptyFile"
proof -
  have "strip_suffix ''.yaml'' (yaml_name (random_id prefix r :: 'k ident)) = Some (prefix @ random_hex8 r)"
    by (simp add: strip_suffix_Some_iff yaml_name_def random_id_def)
  moreover have "(id_from_str prefix (prefix @ random_hex8 r) :: id_error + unit ident) = Inr (Ident (prefix @ random_hex8 r))"
    by (auto simp: id_from_str_Inr_iff)
  ultimately show ?thesis
    by (auto simp: is_reservation_def split: yaml_file.splits)
qed

subsection \<open>Well-formed directories\<close>

lemma dir_wf_Nil [simp]: "dir_wf prefix key []"
  by (simp add: dir_wf_def)

lemma dir_wf_ConsD: "dir_wf prefix key (x # d) \<Longrightarrow> dir_wf prefix key d"
  by (auto simp: dir_wf_def)

lemma dir_wf_key: "dir_wf prefix key d \<Longrightarrow> map_of d n = Some (Document x) \<Longrightarrow> n = yaml_name (key x)"
  by (auto simp: dir_wf_def dest!: map_of_SomeD)

lemma dir_wf_not_malformed: "dir_wf prefix key d \<Longrightarrow> map_of d n \<noteq> Some Malformed"
  by (auto simp: dir_wf_def dest!: map_of_SomeD)

lemma dir_wf_docs_iff:
  "dir_wf prefix key d \<Longrightarrow> x \<in> set (docs d) \<longleftrightarrow> map_of d (yaml_name (key x)) = Some (Document x)"
proof -
  assume wf: "dir_wf prefix key d"
  then have "distinct (map fst d)" by (simp add: dir_wf_def)
  then have "map_of d (yaml_name (key x)) = Some (Document x) \<longleftrightarrow> (yaml_name (key x), Document x) \<in> set d"
    by (simp add: map_of_eq_Some_iff)
  moreover have "(n, Document x) \<in> set d \<Longrightarrow> n = yaml_name (key x)" for n
    using wf by (auto simp: dir_wf_def)
  ultimately show ?thesis by (auto simp: docs_mem)
qed

lemma decode_dir_wf:
  assumes "CHR ''.'' \<notin> set prefix" "dir_wf prefix (key :: 'a \<Rightarrow> 'k ident) d"
  shows "decode_dir (is_reservation prefix) d = Inr (docs d)"
  using assms(2)
proof (induction d)
  case (Cons p d)
  obtain n f where p: "p = (n, f)" by fastforce
  with Cons.prems obtain r where n: "n = yaml_name (random_id prefix r :: 'k ident)" and "f \<noteq> Malformed"
    by (auto simp: dir_wf_def)
  with Cons.IH [OF dir_wf_ConsD [OF Cons.prems]] p assms(1) show ?case
    by (auto simp: yaml_name_is_yaml reservation_of_id split: yaml_file.split)
qed simp

lemma distinct_keys_docs: "dir_wf prefix key d \<Longrightarrow> distinct (map key (docs d))"
proof (induction d)
  case (Cons p d)
  obtain n f where p: "p = (n, f)" by fastforce
  from Cons.prems have wf: "dir_wf prefix key d" by (rule dir_wf_ConsD)
  have "key x \<notin> key ` set (docs d)" if "f = Document x" for x
  proof
    assume "key x \<in> key ` set (docs d)"
    then obtain y where y: "y \<in> set (docs d)" "key y = key x" by auto
    then have "yaml_name (key x) \<in> fst ` set d"
      using dir_wf_docs_iff [OF wf, of y] by (metis map_of_SomeD fst_conv image_eqI)
    with Cons.prems p that show False by (auto simp: dir_wf_def rev_image_eqI)
  qed
  with Cons.IH [OF wf] p show ?case by (auto split: yaml_file.split)
qed simp

lemma find_docs:
  assumes "dir_wf prefix key d"
  shows "find (\<lambda>x. key x = i) (docs d) = Some x \<longleftrightarrow> map_of d (yaml_name i) = Some (Document x)"
proof
  assume "find (\<lambda>x. key x = i) (docs d) = Some x"
  then show "map_of d (yaml_name i) = Some (Document x)"
    using dir_wf_docs_iff [OF assms] by (auto dest: find_SomeD)
next
  assume m: "map_of d (yaml_name i) = Some (Document x)"
  then have key: "key x = i" using dir_wf_key [OF assms] by force
  with m have mem: "x \<in> set (docs d)" using dir_wf_docs_iff [OF assms] by simp
  then obtain y where y: "find (\<lambda>x. key x = i) (docs d) = Some y"
    using key by (cases "find (\<lambda>x. key x = i) (docs d)") (auto simp: find_None_iff)
  then have "y \<in> set (docs d)" "key y = key x" using key by (auto dest: find_SomeD)
  with mem distinct_keys_docs [OF assms] have "y = x"
    by (metis distinct_map inj_onD)
  with y show "find (\<lambda>x. key x = i) (docs d) = Some x" by simp
qed

lemma find_docs_None:
  assumes "dir_wf prefix key d" "find (\<lambda>x. key x = i) (docs d) = None"
  shows "map_of d (yaml_name i) \<noteq> Some (Document x)"
  using find_docs [OF assms(1), of i x] assms(2) by simp

lemma dir_wf_reserve:
  assumes "dir_wf prefix key d" "map_of d (yaml_name (random_id prefix r :: 'k ident)) = None"
  shows "dir_wf prefix (key :: 'a \<Rightarrow> 'k ident) (d @ [(yaml_name (random_id prefix r :: 'k ident), EmptyFile)])"
  using assms by (auto simp: dir_wf_def map_of_eq_None_iff)

lemma dir_wf_update:
  assumes wf: "dir_wf prefix key d" and "map_of d (yaml_name (key x)) \<noteq> None"
  shows "dir_wf prefix key (AList.update (yaml_name (key x)) (Document x) d)"
proof -
  from assms obtain f where f: "(yaml_name (key x), f) \<in> set d" by (auto dest: map_of_SomeD)
  have keys: "fst ` set d = insert (yaml_name (key x)) (fst ` set d)" using f by force
  have set: "set (AList.update n v d) = insert (n, v) {p \<in> set d. fst p \<noteq> n}" if "distinct (map fst d)" for n v and d :: "'a dir"
    using that by (induction d) (auto simp: rev_image_eqI)
  from wf have d: "distinct (map fst d)" by (simp add: dir_wf_def)
  show ?thesis
    unfolding dir_wf_def set [OF d]
    using wf f d by (auto simp: dir_wf_def distinct_update)
qed

lemma update_reserved:
  "map_of d n = None \<Longrightarrow> AList.update n v (d @ [(n, f)]) = d @ [(n, v)]"
  by (induction d) (auto split: if_splits)

lemma map_of_update [simp]: "map_of (AList.update n v d) = (map_of d)(n \<mapsto> v)"
  by (simp add: update_conv')

end
