(* ===== verification/Delivery.thy ===== *)
theory Delivery
  imports Maintainer Dir_Facts
begin

text \<open>
  The delivery protocol of the Maintainer: what its handlers never lose (an order on outboxes that
  every handler respects), the well-formedness invariant of the team store, and the facts about
  \<open>pull_inbox\<close> and \<open>ack_inbox\<close> that the properties state.
\<close>

section \<open>What an outbox entry keeps\<close>

definition entry_le :: "outbox_entry \<Rightarrow> outbox_entry \<Rightarrow> bool" where
  "entry_le e e' \<longleftrightarrow>
     entry_inbox_id e' = entry_inbox_id e \<and> maintainer_action_id e' = maintainer_action_id e
     \<and> entry_target e' = entry_target e \<and> entry_created_at e' = entry_created_at e
     \<and> sweep_items e' = sweep_items e \<and> entry_message e' = entry_message e
     \<and> (\<exists>ms. delivered_to e' = delivered_to e @ ms)
     \<and> (\<forall>a. offered_to_agent e a \<longrightarrow> offered_to_agent e' a)"

definition outbox_le :: "team_store \<Rightarrow> team_store \<Rightarrow> bool" where
  "outbox_le w w' \<longleftrightarrow>
     (\<forall>n e. map_of (outbox w) n = Some (Document e) \<longrightarrow>
        (\<exists>e'. map_of (outbox w') n = Some (Document e') \<and> entry_le e e'))"

lemma entry_le_refl [simp]: "entry_le e e"
  by (simp add: entry_le_def)

lemma entry_le_trans: "entry_le e e' \<Longrightarrow> entry_le e' e'' \<Longrightarrow> entry_le e e''"
  by (auto simp: entry_le_def)

interpretation outbox_le: io_frame outbox_le
  by unfold_locales (auto simp: outbox_le_def dest: entry_le_trans, meson entry_le_trans)

lemma outbox_leD:
  "outbox_le w w' \<Longrightarrow> map_of (outbox w) n = Some (Document e) \<Longrightarrow>
     \<exists>e'. map_of (outbox w') n = Some (Document e') \<and> entry_le e e'"
  by (simp add: outbox_le_def)

lemma same_outbox_le: "outbox w' = outbox w \<Longrightarrow> outbox_le w w'"
  by (auto simp: outbox_le_def)

lemma within_same_outbox: "within (same outbox) m \<Longrightarrow> within outbox_le m"
  by (auto simp: within_def same_def intro: same_outbox_le)

lemma delivered_mono: "entry_le e e' \<Longrightarrow> delivered_to_agent e a \<Longrightarrow> delivered_to_agent e' a"
  by (auto simp: entry_le_def delivered_to_agent_def)

lemma offered_mono: "entry_le e e' \<Longrightarrow> offered_to_agent e a \<Longrightarrow> offered_to_agent e' a"
  by (simp add: entry_le_def)

subsection \<open>Marks\<close>

lemma offer_mark_agents: "offered_agent ` set (offer_mark a t ms) = insert a (offered_agent ` set ms)"
  by (induction ms) auto

lemma offered_to_agent_iff: "offered_to_agent e a \<longleftrightarrow> a \<in> offered_agent ` set (offered_to e)"
  by (auto simp: offered_to_agent_def list_ex_iff)

lemma delivered_to_agent_iff: "delivered_to_agent e a \<longleftrightarrow> a \<in> delivered_agent ` set (delivered_to e)"
  by (auto simp: delivered_to_agent_def list_ex_iff)

lemma distinct_offer_mark:
  "distinct (map offered_agent ms) \<Longrightarrow> distinct (map offered_agent (offer_mark a t ms))"
proof (induction ms)
  case (Cons m ms)
  then show ?case using offer_mark_agents [of a t ms] by auto
qed simp

section \<open>Which operations write the outbox\<close>

lemma record_offered_cases:
  assumes "record_offered i a t w = (r, w')"
  obtains (none) e where "r = Inl e" "outbox w' = outbox w"
  | (offered) entry where "r = Inr ()" "map_of (outbox w) (yaml_name i) = Some (Document entry)"
      "outbox w' = AList.update (yaml_name i) (Document (entry\<lparr>offered_to := offer_mark a t (offered_to entry)\<rparr>)) (outbox w)"
  using assms unfolding record_offered_def
  by (elim outbox_dir.read_modify_cases outbox_dir.write_yaml_atomic_cases) auto

lemma append_delivered_cases:
  assumes "append_delivered i a t w = (r, w')"
  obtains (none) e where "r = Inl e" "outbox w' = outbox w"
  | (again) entry where "r = Inr ()" "map_of (outbox w) (yaml_name i) = Some (Document entry)"
      "delivered_to_agent entry a" "outbox w' = outbox w"
  | (delivered) entry where "r = Inr ()" "map_of (outbox w) (yaml_name i) = Some (Document entry)"
      "\<not> delivered_to_agent entry a"
      "outbox w' = AList.update (yaml_name i)
         (Document (entry\<lparr>delivered_to := delivered_to entry @ [\<lparr>delivered_agent = a, sent_at = t\<rparr>]\<rparr>)) (outbox w)"
  using assms unfolding append_delivered_def
  by (elim outbox_dir.read_modify_cases)
     (auto split: if_splits elim!: outbox_dir.write_yaml_atomic_cases)

lemma offer_entry_le: "entry_le e (e\<lparr>offered_to := offer_mark a t (offered_to e)\<rparr>)"
  by (auto simp: entry_le_def offered_to_agent_iff offer_mark_agents)

lemma deliver_entry_le: "entry_le e (e\<lparr>delivered_to := delivered_to e @ [m]\<rparr>)"
  by (auto simp: entry_le_def offered_to_agent_iff)

lemma update_outbox_le:
  "map_of (outbox w) n = Some (Document e) \<Longrightarrow> entry_le e e' \<Longrightarrow>
   outbox w' = AList.update n (Document e') (outbox w) \<Longrightarrow> outbox_le w w'"
  by (auto simp: outbox_le_def)

lemma record_offered_le: "within outbox_le (record_offered i a t)"
  by (rule withinI, erule record_offered_cases)
     (auto intro: same_outbox_le update_outbox_le offer_entry_le)

lemma append_delivered_le: "within outbox_le (append_delivered i a t)"
  by (rule withinI, erule append_delivered_cases)
     (auto intro: same_outbox_le update_outbox_le deliver_entry_le)

text \<open>Writing an entry under the id that was just minted never replaces another entry.\<close>

lemma create_entry_cases:
  assumes "bind_io (mint_inbox_id_for_outbox cfg) (\<lambda>i.
             bind_io (outbox_write (new_outbox_entry p action now items target i)) (\<lambda>_. return_io (Suc n))) w = (r, w')"
  obtains (none) e where "r = Inl e" "outbox w' = outbox w"
  | (reserved) e c where "r = Inl e" "map_of (outbox w) (yaml_name (random_id inbox_prefix c :: inbox_id)) = None"
      "outbox w' = outbox w @ [(yaml_name (random_id inbox_prefix c :: inbox_id), EmptyFile)]"
  | (created) c where "r = Inr (Suc n)" "map_of (outbox w) (yaml_name (random_id inbox_prefix c :: inbox_id)) = None"
      "outbox w' = outbox w @ [(yaml_name (random_id inbox_prefix c :: inbox_id),
          Document (new_outbox_entry p action now items target (random_id inbox_prefix c)))]"
proof -
  obtain q w1 where m: "mint_inbox_id_for_outbox cfg w = (q, w1)" by fastforce
  from m [unfolded mint_inbox_id_for_outbox_def] show ?thesis
  proof (cases rule: outbox_dir.mint_cases)
    case (err e)
    with m assms show ?thesis by (auto simp: bind_io_def intro: none)
  next
    case (minted i c)
    let ?e = "new_outbox_entry p action now items target i"
    from m minted(1) assms have "bind_io (outbox_write ?e) (\<lambda>_. return_io (Suc n)) w1 = (r, w')"
      by (simp add: bind_io_def)
    moreover have "entry_inbox_id ?e = i" by (simp add: new_outbox_entry_def)
    ultimately show ?thesis using minted reserved created unfolding outbox_write_def
      by (cases r) (auto simp: io_iffs update_reserved dest!: outbox_dir.write_yaml_atomic_ok
        outbox_dir.write_yaml_atomic_err)
  qed
qed

lemma append_outbox_le:
  "map_of (outbox w) n = None \<Longrightarrow> outbox w' = outbox w @ [(n, f)] \<Longrightarrow> outbox_le w w'"
  by (auto simp: outbox_le_def map_add_def split: option.splits)

lemma create_outbox_entries_le: "within outbox_le (create_outbox_entries cfg p action now items)"
  unfolding create_outbox_entries_def
  by (intro outbox_le.within_fold withinI, elim create_entry_cases)
     (auto intro: same_outbox_le append_outbox_le)

subsection \<open>Every handler respects the order\<close>

lemmas outbox_reads = outbox_dir.within_reads [THEN within_same_outbox]

lemma mint_action_loop_same: "within (same f) draw \<Longrightarrow> within (same f) (mint_action_loop used n)"
  by (induction n) (simp_all add: Let_def same.within_intros)

lemma mint_action_le: "within outbox_le (mint_action_id_for_outbox cfg)"
  unfolding mint_action_id_for_outbox_def
  by (intro outbox_le.within_intros outbox_reads within_same_outbox mint_action_loop_same
      outbox_dir.within_draw)

lemma write_policies_le: "within outbox_le (write_yaml_atomic policies_update n x)"
  by (rule within_same_outbox) (rule outbox_by_policies.within_write)

lemma mint_policy_le: "within outbox_le (mint_policy_id cfg)"
  unfolding mint_policy_id_def by (rule within_same_outbox) (rule outbox_by_policies.within_mint)

lemma ensure_agent_registered_same:
  assumes "within (same f) io_call" and "\<And>g w. f (agents_update g w) = f w"
  shows "within (same f) (ensure_agent_registered a)"
  unfolding ensure_agent_registered_def
  by (intro same.within_bind same.within_get assms(1))
     (auto split: option.split agent_node.split simp: assms(2) same_def
        intro!: same.within_throw same.within_return same.within_modify)

lemma list_policies_same: "within (same outbox) list_policies"
  unfolding list_policies_def by (intro same.within_intros outbox_dir.within_reads)

lemma pull_inbox_le: "within outbox_le (pull_inbox a now)"
  unfolding pull_inbox_def lock_outbox_file_def active_policy_id_set_def
  by (intro outbox_le.within_bind outbox_le.within_fold outbox_le.within_return outbox_reads
      record_offered_le list_policies_same [THEN within_same_outbox]
      ensure_agent_registered_same [THEN within_same_outbox] outbox_dir.within_io_call) simp

lemma within_append_ack: "within outbox_le (map_err_io f (append_delivered i a t))"
  by (intro outbox_le.within_map_err append_delivered_le)

lemma ack_inbox_le: "within outbox_le (ack_inbox a ids now)"
  unfolding ack_inbox_def lock_outbox_file_def Let_def lift_sum_def
  by (intro outbox_le.within_intros outbox_reads within_append_ack append_delivered_le)

lemma publish_new_policy_le: "within outbox_le (publish_new_policy cfg nm st sc now ts)"
  unfolding publish_new_policy_def lock_outbox_file_def Let_def write_policy_def
  by (intro outbox_le.within_intros outbox_reads mint_action_le mint_policy_le write_policies_le
      create_outbox_entries_le)

lemma deprecate_policy_le: "within outbox_le (deprecate_policy cfg i now)"
  unfolding deprecate_policy_def lock_outbox_file_def Let_def
  by (intro outbox_le.within_intros outbox_reads mint_action_le mint_policy_le write_policies_le
      create_outbox_entries_le)

lemma claim_update_suggestion_locked_le:
  "within outbox_le (claim_update_suggestion_locked cfg st now ts items)"
  unfolding claim_update_suggestion_locked_def Let_def write_policy_def
  by (intro outbox_le.within_intros outbox_reads mint_action_le mint_policy_le write_policies_le
      create_outbox_entries_le)

lemma claim_update_suggestion_le: "within outbox_le (claim_update_suggestion cfg st now ts)"
  unfolding claim_update_suggestion_def lock_outbox_file_def
  by (intro outbox_le.within_intros outbox_reads claim_update_suggestion_locked_le)

section \<open>The invariant of the store\<close>

definition entry_wf :: "outbox_entry \<Rightarrow> bool" where
  "entry_wf e \<longleftrightarrow>
     message_id (entry_message e) = entry_inbox_id e
     \<and> distinct (map offered_agent (offered_to e)) \<and> distinct (map delivered_agent (delivered_to e))
     \<and> delivered_agent ` set (delivered_to e) \<subseteq> offered_agent ` set (offered_to e)
     \<and> (case entry_target e of
          Broadcast \<Rightarrow> True
        | Targeted a \<Rightarrow> offered_agent ` set (offered_to e) \<subseteq> {a})"

definition outbox_wf :: "team_store \<Rightarrow> bool" where
  "outbox_wf w \<longleftrightarrow> dir_wf inbox_prefix entry_inbox_id (outbox w) \<and> (\<forall>e \<in> set (docs (outbox w)). entry_wf e)"

definition policies_wf :: "team_store \<Rightarrow> bool" where
  "policies_wf w \<longleftrightarrow> dir_wf policy_prefix policy_id (policies w)"

definition store_wf :: "team_store \<Rightarrow> bool" where
  "store_wf w \<longleftrightarrow> outbox_wf w \<and> policies_wf w"

lemma outbox_wf_same: "outbox w' = outbox w \<Longrightarrow> outbox_wf w \<Longrightarrow> outbox_wf w'"
  by (simp add: outbox_wf_def)

lemma outbox_wf_entry:
  "outbox_wf w \<Longrightarrow> map_of (outbox w) (yaml_name i) = Some (Document e) \<Longrightarrow> entry_inbox_id e = i \<and> entry_wf e"
  unfolding outbox_wf_def using dir_wf_key dir_wf_docs_iff by (metis yaml_name_inj)

lemma outbox_wf_list:
  assumes "outbox_wf w"
  shows "decode_dir (is_reservation inbox_prefix) (outbox w) = Inr (docs (outbox w))"
  using assms decode_dir_wf [of inbox_prefix entry_inbox_id "outbox w"]
  by (simp add: outbox_wf_def inbox_prefix_def)

lemma policies_wf_list:
  assumes "policies_wf w"
  shows "decode_dir (is_reservation policy_prefix) (policies w) = Inr (docs (policies w))"
  using assms decode_dir_wf [of policy_prefix policy_id "policies w"]
  by (simp add: policies_wf_def policy_prefix_def)

lemma docs_update_subset: "set (docs (AList.update n (Document x) d)) \<subseteq> insert x (set (docs d))"
  by (induction d) (auto split: yaml_file.splits)

lemma outbox_wf_update:
  assumes "outbox_wf w" "map_of (outbox w) (yaml_name (entry_inbox_id e)) \<noteq> None" "entry_wf e"
    "outbox w' = AList.update (yaml_name (entry_inbox_id e)) (Document e) (outbox w)"
  shows "outbox_wf w'"
  using assms docs_update_subset [of "yaml_name (entry_inbox_id e)" e "outbox w"]
  by (auto simp: outbox_wf_def intro: dir_wf_update)

lemma dir_wf_append:
  assumes "dir_wf prefix key d" "map_of d (yaml_name (random_id prefix c :: 'k ident)) = None"
    and "\<And>x. f = Document x \<Longrightarrow> key x = random_id prefix c" "f \<noteq> Malformed"
  shows "dir_wf prefix (key :: 'a \<Rightarrow> 'k ident) (d @ [(yaml_name (random_id prefix c :: 'k ident), f)])"
  using assms by (auto simp: dir_wf_def map_of_eq_None_iff)

lemma new_entry_wf: "entry_wf (new_outbox_entry p action now items target i)"
  by (auto simp: entry_wf_def new_outbox_entry_def split: outbox_target.split)

lemma create_outbox_entries_wf: "within (keeps outbox_wf) (create_outbox_entries cfg p action now items)"
  unfolding create_outbox_entries_def
  by (intro keeps.within_fold withinI, elim create_entry_cases)
     (auto simp: keeps_def outbox_wf_def new_entry_wf intro!: dir_wf_append, auto simp: new_outbox_entry_def)

lemma within_outbox_wf: "within (same outbox) m \<Longrightarrow> within (keeps outbox_wf) m"
  by (auto simp: within_def same_def keeps_def outbox_wf_def)

lemma within_policies_wf: "within (same policies) m \<Longrightarrow> within (keeps policies_wf) m"
  by (auto simp: within_def same_def keeps_def policies_wf_def)

lemma within_store_wf:
  "within (keeps outbox_wf) m \<Longrightarrow> within (keeps policies_wf) m \<Longrightarrow> within (keeps store_wf) m"
  by (auto simp: within_def keeps_def store_wf_def)

subsection \<open>Offers and ACKs keep it\<close>

definition targets_agent :: "outbox_entry \<Rightarrow> agent_id \<Rightarrow> bool" where
  "targets_agent e a \<longleftrightarrow> (case entry_target e of Broadcast \<Rightarrow> True | Targeted t \<Rightarrow> t = a)"

definition offerable :: "agent_id \<Rightarrow> inbox_id \<Rightarrow> team_store \<Rightarrow> bool" where
  "offerable a i w \<longleftrightarrow> (\<exists>e. map_of (outbox w) (yaml_name i) = Some (Document e) \<and> targets_agent e a)"

definition ackable :: "agent_id \<Rightarrow> inbox_id \<Rightarrow> team_store \<Rightarrow> bool" where
  "ackable a i w \<longleftrightarrow>
     (\<exists>e. map_of (outbox w) (yaml_name i) = Some (Document e) \<and> targets_agent e a \<and> offered_to_agent e a)"

definition delivered_at :: "agent_id \<Rightarrow> inbox_id \<Rightarrow> team_store \<Rightarrow> bool" where
  "delivered_at a i w \<longleftrightarrow>
     (\<exists>e. map_of (outbox w) (yaml_name i) = Some (Document e) \<and> delivered_to_agent e a)"

definition offered_at :: "agent_id \<Rightarrow> inbox_id \<Rightarrow> team_store \<Rightarrow> bool" where
  "offered_at a i w \<longleftrightarrow>
     (\<exists>e. map_of (outbox w) (yaml_name i) = Some (Document e) \<and> offered_to_agent e a)"

lemma targets_agent_mono: "entry_le e e' \<Longrightarrow> targets_agent e' a = targets_agent e a"
  by (auto simp: targets_agent_def entry_le_def)

lemma marks_mono:
  assumes "outbox_le w w'"
  shows "offerable a i w \<Longrightarrow> offerable a i w'" "ackable a i w \<Longrightarrow> ackable a i w'"
    "delivered_at a i w \<Longrightarrow> delivered_at a i w'" "offered_at a i w \<Longrightarrow> offered_at a i w'"
  unfolding offerable_def ackable_def delivered_at_def offered_at_def
  using outbox_leD [OF assms] targets_agent_mono delivered_mono offered_mono by blast+

lemma entry_wf_offer:
  "entry_wf e \<Longrightarrow> targets_agent e a \<Longrightarrow> entry_wf (e\<lparr>offered_to := offer_mark a t (offered_to e)\<rparr>)"
  by (auto simp: entry_wf_def targets_agent_def offer_mark_agents distinct_offer_mark split: outbox_target.splits)

lemma entry_wf_deliver:
  "entry_wf e \<Longrightarrow> offered_to_agent e a \<Longrightarrow> \<not> delivered_to_agent e a \<Longrightarrow>
   entry_wf (e\<lparr>delivered_to := delivered_to e @ [\<lparr>delivered_agent = a, sent_at = t\<rparr>]\<rparr>)"
  by (auto simp: entry_wf_def offered_to_agent_iff delivered_to_agent_iff split: outbox_target.splits)

lemma record_offered_wf:
  assumes run: "record_offered i a t w = (r, w')" and "offerable a i w" and wf: "outbox_wf w"
  shows "outbox_wf w'"
  using run
proof (cases rule: record_offered_cases)
  case none
  with wf show ?thesis by (simp add: outbox_wf_same)
next
  case (offered e)
  with assms have e: "entry_inbox_id e = i" "entry_wf e" "targets_agent e a"
    using outbox_wf_entry by (auto simp: offerable_def)
  let ?e' = "e\<lparr>offered_to := offer_mark a t (offered_to e)\<rparr>"
  have "map_of (outbox w) (yaml_name (entry_inbox_id ?e')) \<noteq> None" using offered e by simp
  moreover have "outbox w' = AList.update (yaml_name (entry_inbox_id ?e')) (Document ?e') (outbox w)"
    using offered e by simp
  ultimately show ?thesis using outbox_wf_update [OF wf] entry_wf_offer e by blast
qed

lemma append_delivered_wf:
  assumes run: "append_delivered i a t w = (r, w')" and "ackable a i w" and wf: "outbox_wf w"
  shows "outbox_wf w'"
  using run
proof (cases rule: append_delivered_cases)
  case (delivered e)
  with assms have e: "entry_inbox_id e = i" "entry_wf e" "offered_to_agent e a"
    using outbox_wf_entry by (auto simp: ackable_def)
  let ?e' = "e\<lparr>delivered_to := delivered_to e @ [\<lparr>delivered_agent = a, sent_at = t\<rparr>]\<rparr>"
  have "map_of (outbox w) (yaml_name (entry_inbox_id ?e')) \<noteq> None" using delivered e by simp
  moreover have "outbox w' = AList.update (yaml_name (entry_inbox_id ?e')) (Document ?e') (outbox w)"
    using delivered e by simp
  ultimately show ?thesis using outbox_wf_update [OF wf] entry_wf_deliver e delivered by blast
qed (use wf in \<open>simp_all add: outbox_wf_same\<close>)

lemma pull_selects_targets: "pull_selects a active seen e \<Longrightarrow> targets_agent e a \<and> \<not> delivered_to_agent e a"
  by (auto simp: pull_selects_def targets_agent_def split: if_splits outbox_target.splits)

lemma pull_chosen_mem:
  "e \<in> set (pull_chosen a active entries) \<longleftrightarrow>
     e \<in> set entries \<and> pull_selects a active (seen_policy_ids a entries) e"
  by (auto simp: pull_chosen_def)

text \<open>What a pull does once its reads are over.\<close>

definition active_ids :: "team_store \<Rightarrow> policy_id list" where
  "active_ids w = map policy_id (filter (\<lambda>p. policy_status p = PolicyActive) (docs (policies w)))"

definition offer_loop :: "agent_id \<Rightarrow> time \<Rightarrow> outbox_entry list \<Rightarrow> inbox_message list team_io" where
  "offer_loop a now es =
     fold_io (\<lambda>e out. bind_io (record_offered (entry_inbox_id e) a now) (\<lambda>_. return_io (out @ [entry_message e]))) es []"

definition mail :: "team_store \<Rightarrow> outbox_entry dir \<times> policy dir" where
  "mail w = (outbox w, policies w)"

interpretation mail: observation mail
  by unfold_locales (auto simp: mail_def)

lemma mail_eq: "mail w' = mail w \<longleftrightarrow> outbox w' = outbox w \<and> policies w' = policies w"
  by (auto simp: mail_def)

lemma active_policy_id_set_same: "within (same mail) active_policy_id_set"
  unfolding active_policy_id_set_def list_policies_def
  by (intro same.within_intros mail.within_reads)

lemma io_ok_Inr: "io_ok w = (Inr b, w') \<Longrightarrow> mail w' = mail w"
  using mail.within_io_ok by (auto dest: withinD simp: same_def)

lemma active_policy_id_set_ok:
  assumes "policies_wf w" "active_policy_id_set w = (Inr active, w')"
  shows "active = [] \<or> active = active_ids w"
proof -
  from assms(2) obtain b ps w1 where b: "io_ok w = (Inr b, w1)"
    and ps: "(if \<not> b then return_io [] else bind_io io_call (\<lambda>_. bind_io (get_io policies) (\<lambda>d.
               lift_sum (decode_dir (is_reservation policy_prefix) d)))) w1 = (Inr ps, w')"
    and active: "active = map policy_id (filter (\<lambda>p. policy_status p = PolicyActive) ps)"
    by (auto simp: active_policy_id_set_def list_policies_def bind_io_Inr_iff)
  have "policies w1 = policies w" using io_ok_Inr [OF b] by (simp add: mail_eq)
  then have "ps = [] \<or> ps = docs (policies w)"
    using ps policies_wf_list [OF assms(1)] policies_dir.obs_io_call
    by (cases b) (auto simp: bind_io_Inr_iff)
  with active show ?thesis by (auto simp: active_ids_def)
qed

lemma outbox_list_ok:
  "outbox_wf w \<Longrightarrow> outbox_list w = (Inr es, w') \<Longrightarrow> es = docs (outbox w) \<and> mail w' = mail w"
  using outbox_wf_list
  by (auto simp: outbox_list_def io_iffs mail_eq dest!: mail.obs_io_call)

lemma pull_inbox_cases:
  assumes run: "pull_inbox a now w = (r, w')" and wf: "store_wf w"
  obtains (early) e where "r = Inl e" "mail w' = mail w"
  | (offers) active w1 where "mail w1 = mail w" "active = [] \<or> active = active_ids w"
      "offer_loop a now (pull_chosen a active (docs (outbox w))) w1 = (r, w')"
proof -
  have reg: "within (same mail) (ensure_agent_registered a)"
    by (rule ensure_agent_registered_same [OF mail.within_io_call]) (simp add: mail_def)
  note steps = run [unfolded pull_inbox_def lock_outbox_file_def offer_loop_def [symmetric]]
  from steps mail.within_io_call show ?thesis
  proof (cases rule: bind_same_cases)
    case c1: (continued u1 w1)
    from c1(3) reg show ?thesis
    proof (cases rule: bind_same_cases)
      case c2: (continued u2 w2)
      from c2(3) active_policy_id_set_same show ?thesis
      proof (cases rule: bind_same_cases)
        case c3: (continued active w3)
        from c3(3) mail.within_outbox_list show ?thesis
        proof (cases rule: bind_same_cases)
          case c4: (continued es w4)
          have w2: "mail w2 = mail w" "mail w3 = mail w" "mail w4 = mail w"
            using c1 c2 c3 c4 by simp_all
          have "active = [] \<or> active = active_ids w"
            using active_policy_id_set_ok [OF _ c3(1)] wf w2
            by (simp add: store_wf_def policies_wf_def active_ids_def mail_eq)
          moreover have "es = docs (outbox w)"
            using outbox_list_ok [OF _ c4(1)] wf w2 by (simp add: store_wf_def outbox_wf_def mail_eq)
          ultimately show ?thesis using c4(3) w2 offers by (simp add: offer_loop_def)
        qed (use c1 c2 c3 early in simp)
      qed (use c1 c2 early in simp)
    qed (use c1 early in simp)
  qed (use early in simp)
qed

lemma offer_step_le: "within outbox_le (bind_io (record_offered i a now) (\<lambda>_. return_io x))"
  by (intro outbox_le.within_intros record_offered_le)

lemma offer_step_run:
  "bind_io (record_offered i a now) (\<lambda>_. return_io x) w = (r, w') \<Longrightarrow> \<exists>q. record_offered i a now w = (q, w')"
  by (cases r) (auto simp: io_iffs)

lemma offer_loop_le: "within outbox_le (offer_loop a now es)"
  unfolding offer_loop_def by (intro outbox_le.within_fold offer_step_le)

lemma offer_loop_wf:
  assumes "offer_loop a now es w = (r, w')" "outbox_wf w" "\<forall>e \<in> set es. offerable a (entry_inbox_id e) w"
  shows "outbox_wf w'"
  by (rule fold_io_keeps [where P = outbox_wf and Q = "\<lambda>e w. offerable a (entry_inbox_id e) w",
        OF assms(1) [unfolded offer_loop_def] assms(2,3)])
     (auto dest!: offer_step_run intro: record_offered_wf
        marks_mono(1) [OF withinD [OF record_offered_le]])

lemma record_offered_marks: "record_offered i a t w = (Inr u, w') \<Longrightarrow> offered_at a i w'"
  by (erule record_offered_cases) (auto simp: offered_at_def offered_to_agent_iff offer_mark_agents)

lemma offer_loop_ok:
  assumes run: "offer_loop a now es w = (Inr msgs, w')"
  shows "msgs = map entry_message es" and "e \<in> set es \<Longrightarrow> offered_at a (entry_inbox_id e) w'"
proof -
  show "msgs = map entry_message es"
    using fold_io_collect [OF run [unfolded offer_loop_def]] by simp
  assume e: "e \<in> set es"
  show "offered_at a (entry_inbox_id e) w'"
    by (rule fold_io_establishes [OF run [unfolded offer_loop_def] e])
       (auto simp: io_iffs dest: record_offered_marks
          intro: marks_mono(4) [OF withinD [OF offer_step_le]])
qed

lemma docs_offerable:
  "outbox_wf w \<Longrightarrow> e \<in> set (docs (outbox w)) \<Longrightarrow> targets_agent e a \<Longrightarrow> offerable a (entry_inbox_id e) w"
  using dir_wf_docs_iff [of inbox_prefix entry_inbox_id "outbox w" e]
  by (auto simp: outbox_wf_def offerable_def)

lemma chosen_offerable:
  "outbox_wf w \<Longrightarrow> e \<in> set (pull_chosen a active (docs (outbox w))) \<Longrightarrow> offerable a (entry_inbox_id e) w"
  by (auto simp: pull_chosen_mem intro!: docs_offerable dest: pull_selects_targets)

lemma outbox_wf_mail: "mail w' = mail w \<Longrightarrow> outbox_wf w' = outbox_wf w"
  by (simp add: outbox_wf_def mail_eq)

lemma offerable_mail: "mail w' = mail w \<Longrightarrow> offerable a i w' = offerable a i w"
  by (simp add: offerable_def mail_eq)

lemma record_offered_policies: "within (same policies) (record_offered i a t)"
  unfolding record_offered_def
  by (intro same.within_bind policies_dir.within_read_yaml policies_by_outbox.within_write)

lemma append_delivered_policies: "within (same policies) (append_delivered i a t)"
  unfolding append_delivered_def
  by (intro same.within_bind same.within_if same.within_return policies_dir.within_read_yaml
      policies_by_outbox.within_write)

lemma within_same_fst: "within (same mail) m \<Longrightarrow> within (same policies) m"
  by (auto simp: within_def same_def mail_def)

lemma pull_inbox_policies: "within (same policies) (pull_inbox a now)"
proof -
  have reg: "within (same policies) (ensure_agent_registered a)"
    by (rule ensure_agent_registered_same [OF policies_dir.within_io_call]) simp
  show ?thesis
    unfolding pull_inbox_def lock_outbox_file_def
    by (intro same.within_bind same.within_fold same.within_return reg record_offered_policies
        policies_dir.within_io_call policies_dir.within_outbox_list
        active_policy_id_set_same [THEN within_same_fst])
qed

lemma pull_inbox_wf: "within (keeps store_wf) (pull_inbox a now)"
proof (rule withinI, unfold keeps_def, rule impI)
  fix w r w'
  assume run: "pull_inbox a now w = (r, w')" and wf: "store_wf w"
  have "policies w' = policies w"
    using pull_inbox_policies run by (rule within_sameD)
  moreover have "outbox_wf w'"
    using run wf
  proof (cases rule: pull_inbox_cases)
    case (offers active w1)
    have "\<forall>e \<in> set (pull_chosen a active (docs (outbox w))). offerable a (entry_inbox_id e) w1"
      using wf by (auto simp: store_wf_def offerable_mail [OF offers(1)] intro: chosen_offerable)
    with offer_loop_wf [OF offers(3)] show ?thesis
      using wf by (simp add: store_wf_def outbox_wf_mail [OF offers(1)])
  next
    case (early e)
    with wf show ?thesis by (simp add: store_wf_def outbox_wf_mail [OF early(2)])
  qed
  ultimately show "store_wf w'" using wf by (simp add: store_wf_def policies_wf_def)
qed

subsection \<open>ACK validation\<close>

lemma validate_ack_ok_iff:
  "validate_ack a entries ids = Inr () \<longleftrightarrow>
     (\<forall>i \<in> set ids. \<exists>e. find (\<lambda>e. entry_inbox_id e = i) entries = Some e \<and> targets_agent e a
        \<and> (offered_to_agent e a \<or> delivered_to_agent e a))"
  by (induction ids) (auto simp: targets_agent_def split: option.splits if_splits outbox_target.splits)

lemma validate_ack_ackable:
  assumes wf: "outbox_wf w" and ok: "validate_ack a (docs (outbox w)) ids = Inr ()" and i: "i \<in> set ids"
  shows "ackable a i w"
proof -
  from ok i obtain e where e: "find (\<lambda>e. entry_inbox_id e = i) (docs (outbox w)) = Some e" "targets_agent e a"
      "offered_to_agent e a \<or> delivered_to_agent e a"
    unfolding validate_ack_ok_iff by blast
  then have m: "map_of (outbox w) (yaml_name i) = Some (Document e)"
    using wf find_docs [of inbox_prefix entry_inbox_id "outbox w" i e] by (simp add: outbox_wf_def)
  with wf have "entry_wf e" using outbox_wf_entry by blast
  with e have "offered_to_agent e a" by (auto simp: entry_wf_def offered_to_agent_iff delivered_to_agent_iff)
  with m e show ?thesis by (auto simp: ackable_def)
qed

definition ack_loop :: "agent_id \<Rightarrow> time \<Rightarrow> inbox_id list \<Rightarrow> (team_store, inbox_ack_error, unit) io" where
  "ack_loop a now ids = for_io (\<lambda>i. map_err_io (PersistAck i) (append_delivered i a now)) ids"

lemma ack_inbox_cases:
  assumes run: "ack_inbox a ids now w = (r, w')" and wf: "store_wf w"
  obtains (unread) e where "r = Inl (LockOutbox e) \<or> r = Inl (ReadOutbox e)" "mail w' = mail w"
  | (invalid) e where "validate_ack a (docs (outbox w)) (dedup ids) = Inl e" "r = Inl e" "mail w' = mail w"
  | (valid) w1 where "mail w1 = mail w" "validate_ack a (docs (outbox w)) (dedup ids) = Inr ()"
      "ack_loop a now (dedup ids) w1 = (r, w')"
proof -
  note steps = run [unfolded ack_inbox_def lock_outbox_file_def Let_def ack_loop_def [symmetric]]
  have m1: "within (same mail) (map_err_io LockOutbox io_call)"
    by (intro same.within_intros mail.within_io_call)
  have m2: "within (same mail) (map_err_io ReadOutbox outbox_list)"
    by (intro same.within_intros mail.within_outbox_list)
  from steps m1 show ?thesis
  proof (cases rule: bind_same_cases)
    case c1: (continued u w1)
    from c1(3) m2 show ?thesis
    proof (cases rule: bind_same_cases)
      case c2: (continued es w2)
      have "es = docs (outbox w)"
        using outbox_list_ok [of w1 es w2] c1 c2 wf by (simp add: store_wf_def outbox_wf_def mail_eq)
      with c1 c2 invalid valid show ?thesis
        by (cases r; cases "validate_ack a es (dedup ids)") (auto simp: io_iffs)
    qed (use c1 unread in \<open>auto simp: map_err_io_Inl_iff\<close>)
  qed (use unread in \<open>auto simp: map_err_io_Inl_iff\<close>)
qed

lemma ack_step_run:
  "map_err_io f (append_delivered i a t) w = (r, w') \<Longrightarrow> \<exists>q. append_delivered i a t w = (q, w')"
  by (cases r) (auto simp: map_err_io_Inl_iff)

lemma ack_loop_le: "within outbox_le (ack_loop a now ids)"
  unfolding ack_loop_def by (intro outbox_le.within_for within_append_ack)

lemma ack_loop_wf:
  assumes "ack_loop a now ids w = (r, w')" "outbox_wf w" "\<forall>i \<in> set ids. ackable a i w"
  shows "outbox_wf w'"
  by (rule fold_io_keeps [where P = outbox_wf and Q = "\<lambda>i w. ackable a i w",
        OF assms(1) [unfolded ack_loop_def for_io_fold] assms(2,3)])
     (auto dest!: ack_step_run intro: append_delivered_wf
        marks_mono(2) [OF withinD [OF append_delivered_le]])

lemma append_delivered_marks: "append_delivered i a t w = (Inr u, w') \<Longrightarrow> delivered_at a i w'"
  by (erule append_delivered_cases) (auto simp: delivered_at_def delivered_to_agent_iff)

lemma ack_loop_ok:
  assumes run: "ack_loop a now ids w = (Inr u, w')" and i: "i \<in> set ids"
  shows "delivered_at a i w'"
  by (rule fold_io_establishes [OF run [unfolded ack_loop_def for_io_fold] i])
     (auto dest: append_delivered_marks intro: marks_mono(3) [OF withinD [OF within_append_ack]])

lemma ack_loop_err:
  "ack_loop a now ids w = (Inl e, w') \<Longrightarrow> \<exists>i \<in> set ids. \<exists>e'. e = PersistAck i e'"
proof (induction ids arbitrary: w)
  case (Cons i ids)
  then show ?case unfolding ack_loop_def by (auto simp: io_iffs)
qed (simp add: ack_loop_def)

lemma ack_loop_policies: "within (same policies) (ack_loop a now ids)"
  unfolding ack_loop_def by (intro same.within_for same.within_map_err append_delivered_policies)

lemma ackable_mail: "mail w' = mail w \<Longrightarrow> ackable a i w' \<Longrightarrow> ackable a i w"
  by (simp add: ackable_def mail_eq)

lemma ack_valid_ackable:
  assumes "store_wf w" "validate_ack a (docs (outbox w)) (dedup ids) = Inr ()" "mail w1 = mail w"
  shows "\<forall>i \<in> set (dedup ids). ackable a i w1"
  using assms validate_ack_ackable ackable_mail [OF assms(3) [symmetric]] by (auto simp: store_wf_def)

lemma ack_inbox_wf: "within (keeps store_wf) (ack_inbox a ids now)"
proof (rule withinI, unfold keeps_def, rule impI)
  fix w r w'
  assume run: "ack_inbox a ids now w = (r, w')" and wf: "store_wf w"
  have same: "store_wf w'" if "mail w' = mail w"
    using wf that by (simp add: store_wf_def outbox_wf_def policies_wf_def mail_eq)
  from run wf show "store_wf w'"
  proof (cases rule: ack_inbox_cases)
    case (valid w1)
    have "outbox_wf w'"
      using ack_loop_wf [OF valid(3) _ ack_valid_ackable [OF wf valid(2,1)]] wf
      by (simp add: store_wf_def outbox_wf_mail [OF valid(1)])
    moreover have "policies w' = policies w1" using ack_loop_policies valid(3) by (rule within_sameD)
    ultimately show ?thesis using wf valid(1) by (simp add: store_wf_def policies_wf_def mail_eq)
  qed (use same in simp_all)
qed

section \<open>Publishing keeps the invariant\<close>

lemma mint_write_policy_wf:
  assumes id: "\<And>i. policy_id (P i) = i" and k: "\<And>i. within (keeps policies_wf) (K i)"
  shows "within (keeps policies_wf) (bind_io (mint_policy_id cfg) (\<lambda>i. bind_io (write_policy (P i)) (\<lambda>_. K i)))"
proof (rule withinI, unfold keeps_def, rule impI)
  fix w r w'
  assume run: "bind_io (mint_policy_id cfg) (\<lambda>i. bind_io (write_policy (P i)) (\<lambda>_. K i)) w = (r, w')"
    and wf: "policies_wf w"
  obtain q w1 where m: "mint_policy_id cfg w = (q, w1)" by fastforce
  from m [unfolded mint_policy_id_def] show "policies_wf w'"
  proof (cases rule: policies_dir.mint_cases)
    case (err e)
    with m run wf show ?thesis by (auto simp: bind_io_def policies_wf_def)
  next
    case (minted i c)
    obtain q2 w2 where wr: "write_policy (P i) w1 = (q2, w2)" by fastforce
    have reserved: "policies_wf w1"
      using wf minted dir_wf_append [of policy_prefix policy_id "policies w" c EmptyFile] by (simp add: policies_wf_def)
    from wr [unfolded write_policy_def] have w2: "policies_wf w2"
    proof (cases rule: policies_dir.write_yaml_atomic_cases)
      case written
      moreover have "map_of (policies w1) (yaml_name (policy_id (P i))) \<noteq> None" using minted id by simp
      ultimately show ?thesis using reserved dir_wf_update by (simp add: policies_wf_def)
    qed (use reserved in \<open>simp add: policies_wf_def\<close>)
    show ?thesis
    proof (cases q2)
      case (Inl e)
      with m minted wr run w2 show ?thesis by (simp add: bind_io_def)
    next
      case (Inr u)
      with m minted wr run have "K i w2 = (r, w')" by (simp add: bind_io_def)
      from k [of i] this w2 show ?thesis by (rule within_keepsD)
    qed
  qed
qed

lemma create_entry_policies: "within (same policies) (create_outbox_entries cfg p action now items)"
  unfolding create_outbox_entries_def mint_inbox_id_for_outbox_def outbox_write_def
  by (intro same.within_fold same.within_bind same.within_return policies_by_outbox.within_mint
      policies_by_outbox.within_write)

lemma mint_action_policies: "within (same policies) (mint_action_id_for_outbox cfg)"
  unfolding mint_action_id_for_outbox_def
  by (intro same.within_intros policies_dir.within_reads mint_action_loop_same)

lemma mint_action_outbox: "within (same outbox) (mint_action_id_for_outbox cfg)"
  unfolding mint_action_id_for_outbox_def
  by (intro same.within_intros outbox_dir.within_reads mint_action_loop_same)

lemmas wf_parts = mint_action_policies [THEN within_policies_wf] mint_action_outbox [THEN within_outbox_wf]
  policies_dir.within_io_call [THEN within_policies_wf] outbox_dir.within_io_call [THEN within_outbox_wf]
  create_entry_policies [THEN within_policies_wf] create_outbox_entries_wf
  outbox_by_policies.within_mint [THEN within_outbox_wf] outbox_by_policies.within_write [THEN within_outbox_wf]
  outbox_dir.within_read_yaml [THEN within_outbox_wf]

lemma publish_new_policy_wf: "within (keeps store_wf) (publish_new_policy cfg nm st sc now ts)"
proof (rule within_store_wf)
  show "within (keeps outbox_wf) (publish_new_policy cfg nm st sc now ts)"
    unfolding publish_new_policy_def lock_outbox_file_def Let_def write_policy_def mint_policy_id_def
    by (intro keeps.within_bind keeps.within_return wf_parts)
  show "within (keeps policies_wf) (publish_new_policy cfg nm st sc now ts)"
    unfolding publish_new_policy_def lock_outbox_file_def Let_def
    by (intro keeps.within_bind wf_parts mint_write_policy_wf keeps.within_return) simp
qed

lemma suggestion_locked_wf: "within (keeps store_wf) (claim_update_suggestion_locked cfg st now ts items)"
proof (rule within_store_wf)
  show "within (keeps outbox_wf) (claim_update_suggestion_locked cfg st now ts items)"
    unfolding claim_update_suggestion_locked_def Let_def write_policy_def mint_policy_id_def
    by (intro keeps.within_bind keeps.within_return wf_parts)
  show "within (keeps policies_wf) (claim_update_suggestion_locked cfg st now ts items)"
    unfolding claim_update_suggestion_locked_def Let_def
    by (intro keeps.within_bind wf_parts mint_write_policy_wf keeps.within_return) simp
qed

lemma claim_update_suggestion_wf: "within (keeps store_wf) (claim_update_suggestion cfg st now ts)"
  unfolding claim_update_suggestion_def lock_outbox_file_def
  by (intro keeps.within_bind suggestion_locked_wf within_store_wf wf_parts)

lemma deprecate_policy_wf: "within (keeps store_wf) (deprecate_policy cfg i now)"
proof (rule within_store_wf)
  show "within (keeps outbox_wf) (deprecate_policy cfg i now)"
    unfolding deprecate_policy_def lock_outbox_file_def Let_def
    by (intro keeps.within_bind wf_parts)
  show "within (keeps policies_wf) (deprecate_policy cfg i now)"
  proof (rule withinI, unfold keeps_def, rule impI)
    fix w r w'
    assume run: "deprecate_policy cfg i now w = (r, w')" and wf: "policies_wf w"
    from run [unfolded deprecate_policy_def lock_outbox_file_def Let_def] policies_dir.within_io_call
    show "policies_wf w'"
    proof (cases rule: bind_same_cases)
      case c1: (continued u w1)
      from c1(3) show ?thesis
      proof (cases rule: policies_dir.read_modify_cases)
        case c2: (found p0 w2)
        have p0: "policy_id p0 = i" "map_of (policies w2) (yaml_name i) \<noteq> None" "policies_wf w2"
          using c1(2) c2 wf dir_wf_key [of policy_prefix policy_id "policies w" "yaml_name i" p0]
          by (auto simp: policies_wf_def)
        let ?p = "p0\<lparr>policy_status := PolicyDeprecated, policy_updated_at := Some now,
                     target_agents := normalize_target_agents (target_agents p0)\<rparr>"
        from c2(3) mint_action_policies show ?thesis
        proof (cases rule: bind_same_cases)
          case c3: (continued action w3)
          have "policies_wf w4" if "write_yaml_atomic policies_update (yaml_name i) ?p w3 = (q, w4)" for q w4
            using that
          proof (cases rule: policies_dir.write_yaml_atomic_cases)
            case written
            then show ?thesis
              using c3(2) p0 dir_wf_update [of policy_prefix policy_id "policies w2" ?p] by (simp add: policies_wf_def)
          qed (use c3(2) p0 in \<open>simp add: policies_wf_def\<close>)
          then show ?thesis
            using c3(3) within_keepsD [OF create_entry_policies [THEN within_policies_wf]]
            by (cases r) (auto simp: io_iffs)
        qed (use p0 in \<open>simp add: policies_wf_def\<close>)
      qed (use c1(2) wf in \<open>simp add: policies_wf_def\<close>)
    qed (use wf in \<open>simp add: policies_wf_def\<close>)
  qed
qed

end
