(* ===== verification/Mirrors.thy ===== *)
theory Mirrors
  imports Maintainer
begin

text \<open>
  The claim mirrors and the dispute reports of \<open>src/maintainer.rs\<close>, with the team scan of
  \<open>src/maintainer/arbitration/context.rs\<close> and the record check of
  \<open>src/maintainer/arbitration/store.rs\<close>.  A mirror lives in \<open>agents/<holder>/claims/<claim id>.yaml\<close>.
\<close>

section \<open>Registered agents\<close>

definition registered_node :: "agent_node \<Rightarrow> bool" where
  "registered_node n = (case n of AgentDir (Some _) \<Rightarrow> True | _ \<Rightarrow> False)"

text \<open>
  The scan keeps the directories whose name is an agent id and that hold \<open>claims/\<close>, and sorts the
  ids; any call of the operating system that fails ends it with the error.
\<close>

definition scan_agent_ids :: "(string \<times> agent_node) list \<Rightarrow> agent_id list" where
  "scan_agent_ids ns =
     sort_by (cmp_key as_str)
       (List.map_filter (\<lambda>(n, node). case agent_id_new n of
            Inl _ \<Rightarrow> None
          | Inr a \<Rightarrow> if registered_node node then Some a else None) ns)"

definition list_agent_ids :: "agent_id list team_io" where
  "list_agent_ids = bind_io io_call (\<lambda>_. get_io (\<lambda>w. scan_agent_ids (agents w)))"

fun collect_claims :: "agent_id list \<Rightarrow> (agent_id \<times> claim) list \<Rightarrow> (agent_id \<times> claim) list team_io" where
  "collect_claims [] out = return_io out"
| "collect_claims (a # as) out =
     bind_io io_call (\<lambda>_.
     bind_io (get_io (\<lambda>w. decode_dir (\<lambda>_ _. False) (claims_dir_of (map_of (agents w) (as_str a))))) (\<lambda>r.
     bind_io (lift_sum r) (\<lambda>cs. collect_claims as (out @ map (\<lambda>c. (a, c)) cs))))"

definition list_all_claims :: "(agent_id \<times> claim) list team_io" where
  "list_all_claims = bind_io list_agent_ids (\<lambda>as. collect_claims as [])"

section \<open>Mirror uploads\<close>

text \<open>
  The mirror lock is a file under \<open>claims/.locks\<close>, so taking it creates the agent's directory; the
  write replaces the mirror of that claim.
\<close>

definition put_mirror :: "claim \<Rightarrow> (string \<times> agent_node) list \<Rightarrow> (string \<times> agent_node) list" where
  "put_mirror c ns =
     AList.update (as_str (claim_holder c))
       (AgentDir (Some (AList.update (yaml_name (claim_id c)) (Document c)
          (claims_dir_of (map_of ns (as_str (claim_holder c))))))) ns"

definition upload_claim :: "claim \<Rightarrow> unit team_io" where
  "upload_claim c =
     bind_io (ensure_agent_registered (claim_holder c)) (\<lambda>_.
     bind_io io_call (\<lambda>_. modify_io (agents_update (put_mirror c))))"

section \<open>Dispute reports\<close>

definition same_report_payload :: "dispute \<Rightarrow> dispute \<Rightarrow> bool" where
  "same_report_payload existing incoming \<longleftrightarrow>
     dispute_id existing = dispute_id incoming \<and> dispute_name existing = dispute_name incoming
     \<and> reporter_agent_id existing = reporter_agent_id incoming
     \<and> dispute_claims existing = dispute_claims incoming
     \<and> dispute_summary existing = dispute_summary incoming
     \<and> dispute_created_at existing = dispute_created_at incoming"

text \<open>
  \<open>load_team_claims\<close> reads a failing existence check as an absent directory, for the root and for
  each agent, and sorts by claim id and then by agent.
\<close>

fun collect_team_claims ::
  "(string \<times> agent_node) list \<Rightarrow> (agent_id \<times> claim) list \<Rightarrow> (agent_id \<times> claim) list team_io" where
  "collect_team_claims [] out = return_io out"
| "collect_team_claims ((n, node) # ns) out =
     (case node of
        AgentFile \<Rightarrow> collect_team_claims ns out
      | AgentDir claims \<Rightarrow>
          (case agent_id_new n of
             Inl _ \<Rightarrow> collect_team_claims ns out
           | Inr a \<Rightarrow> bind_io io_ok (\<lambda>found.
               case (if found then claims else None) of
                 None \<Rightarrow> collect_team_claims ns out
               | Some d \<Rightarrow> bind_io io_call (\<lambda>_.
                   bind_io (lift_sum (decode_dir (\<lambda>_ _. False) d)) (\<lambda>cs.
                     collect_team_claims ns (out @ map (\<lambda>c. (a, c)) cs))))))"

definition team_claim_order :: "agent_id \<times> claim \<Rightarrow> agent_id \<times> claim \<Rightarrow> bool" where
  "team_claim_order = then_with (cmp_key (claim_id \<circ> snd)) (cmp_key (as_str \<circ> fst))"

definition load_team_claims :: "(agent_id \<times> claim) list team_io" where
  "load_team_claims = bind_io io_ok (\<lambda>found.
     if \<not> found then return_io []
     else bind_io io_call (\<lambda>_. bind_io (get_io agents) (\<lambda>ns.
            bind_io (collect_team_claims ns []) (\<lambda>cs. return_io (sort_by team_claim_order cs)))))"

definition validate_new_dispute_direct_claims :: "dispute \<Rightarrow> unit team_io" where
  "validate_new_dispute_direct_claims d = bind_io load_team_claims (\<lambda>mirrors.
     if filter (\<lambda>(_, c). claim_status c = Deprecated \<and> claim_id c \<in> set (dispute_claims d)) mirrors = []
     then return_io () else throw_io AnalysisConflict)"

definition validate_dispute_record :: "maintainer_dispute_record \<Rightarrow> bool" where
  "validate_dispute_record r =
     (case dispute_status (record_dispute r) of
        Open \<Rightarrow> dispute_resolved_at (record_dispute r) = None \<and> record_resolution r = None
      | Resolved \<Rightarrow>
          dispute_resolved_at (record_dispute r) \<noteq> None
          \<and> (case record_resolution r of
               None \<Rightarrow> True
             | Some s \<Rightarrow>
                 (case resolution_type s of None \<Rightarrow> True | Some k \<Rightarrow> is_resolved k)
                 \<and> resolution_basis s \<noteq> Some InsufficientEvidence
                 \<and> str_trim (conclusion s) \<noteq> []))"

definition write_dispute :: "maintainer_dispute_record \<Rightarrow> unit team_io" where
  "write_dispute r =
     (if \<not> validate_dispute_record r then throw_io RecordInvalid
      else write_yaml_atomic disputes_update (yaml_name (dispute_id (record_dispute r))) r)"

definition read_dispute :: "dispute_id \<Rightarrow> maintainer_dispute_record team_io" where
  "read_dispute i = read_yaml disputes (yaml_name i)"

definition report_dispute :: "dispute \<Rightarrow> unit team_io" where
  "report_dispute d =
     (case validate_agent_report d of
        Inl e \<Rightarrow> throw_io (ReportInvalid e)
      | Inr _ \<Rightarrow>
          bind_io io_call (\<lambda>_.
          bind_io (attempt_io (read_dispute (dispute_id d))) (\<lambda>r.
            case r of
              Inr existing \<Rightarrow>
                if \<not> same_report_payload (record_dispute existing) d then throw_io AnalysisConflict
                else return_io ()
            | Inl (NotFound _) \<Rightarrow>
                bind_io (validate_new_dispute_direct_claims d) (\<lambda>_.
                  write_dispute \<lparr>record_dispute = d, record_resolution = None\<rparr>)
            | Inl e \<Rightarrow> throw_io e)))"

end
