(* ===== verification/Sweep.thy ===== *)
theory Sweep
  imports Mirrors
begin

text \<open>
  The stale sweep of \<open>src/maintainer/sweep.rs\<close>: it compares the age of every mirrored claim with the
  two thresholds, groups the suggestions per holder, drops those an outbox entry already carries and
  sends each holder one message.
\<close>

section \<open>Reports\<close>

record sweep_notification =
  notified_agent :: agent_id
  notified_stale :: "claim_id list"
  notified_deprecated :: "claim_id list"
  notified_policy :: policy_id
  notified_pushed :: nat

record sweep_notification_error =
  failed_agent :: agent_id
  failed_stale :: "claim_id list"
  failed_deprecated :: "claim_id list"
  failed_error :: team_error

record claim_sweep_report =
  stale_claims :: "(agent_id \<times> claim_id) list"
  deprecated_claims :: "(agent_id \<times> claim_id) list"
  notifications :: "sweep_notification list"
  notification_errors :: "sweep_notification_error list"

definition empty_report :: claim_sweep_report where
  "empty_report = \<lparr>stale_claims = [], deprecated_claims = [], notifications = [], notification_errors = []\<rparr>"

section \<open>Candidates\<close>

definition sweep_suggestion :: "maintainer_config \<Rightarrow> time \<Rightarrow> claim \<Rightarrow> claim_status option" where
  "sweep_suggestion cfg now c =
     (let age = now - effective_updated_at c in
      case claim_status c of
        Active \<Rightarrow> if stale_after cfg \<le> age then Some Stale else None
      | Stale \<Rightarrow> if deprecate_after cfg \<le> age then Some Deprecated else None
      | Deprecated \<Rightarrow> None)"

text \<open>
  \<open>groups\<close> is a \<open>BTreeMap\<close> from the agent to its items: an association list kept in key order.
\<close>

fun btree_push :: "'k::linorder \<Rightarrow> 'v \<Rightarrow> ('k \<times> 'v list) list \<Rightarrow> ('k \<times> 'v list) list" where
  "btree_push k v [] = [(k, [v])]"
| "btree_push k v ((k', vs) # m) =
     (if k = k' then (k', vs @ [v]) # m
      else if k < k' then (k, [v]) # (k', vs) # m
      else (k', vs) # btree_push k v m)"

type_synonym sweep_groups = "(agent_id \<times> sweep_notification_item list) list"

definition sweep_claim ::
  "maintainer_config \<Rightarrow> time \<Rightarrow> agent_id \<times> claim \<Rightarrow> claim_sweep_report \<times> sweep_groups \<Rightarrow> claim_sweep_report \<times> sweep_groups"
  where
  "sweep_claim cfg now ac rg =
     (case ac of (a, c) \<Rightarrow> case rg of (report, groups) \<Rightarrow>
      case sweep_suggestion cfg now c of
        None \<Rightarrow> (report, groups)
      | Some st \<Rightarrow>
          ((if st = Stale then report\<lparr>stale_claims := stale_claims report @ [(a, claim_id c)]\<rparr>
            else report\<lparr>deprecated_claims := deprecated_claims report @ [(a, claim_id c)]\<rparr>),
           btree_push a \<lparr>item_claim_id = claim_id c, item_effective_updated_at = effective_updated_at c,
                         suggested_status = st\<rparr> groups))"

fun sweep_claims ::
  "maintainer_config \<Rightarrow> time \<Rightarrow> (agent_id \<times> claim) list \<Rightarrow> claim_sweep_report \<times> sweep_groups \<Rightarrow> claim_sweep_report \<times> sweep_groups"
  where
  "sweep_claims cfg now [] rg = rg"
| "sweep_claims cfg now (ac # acs) rg = sweep_claims cfg now acs (sweep_claim cfg now ac rg)"

section \<open>The message\<close>

definition sweep_text_agent :: string where
  "sweep_text_agent = map char_of
     [230, 157, 165, 232, 135, 170, 32, 65, 67, 78, 32, 229, 155, 162, 233, 152, 159, 32, 77,
      97, 105, 110, 116, 97, 105, 110, 101, 114, 32, 231, 154, 132, 233, 128, 154, 231, 159,
      165, 239, 188, 154, 10, 97, 103, 101, 110, 116, 239, 188, 154 :: nat]"

definition sweep_text_stale :: string where
  "sweep_text_stale = map char_of
     [10, 10, 230, 160, 185, 230, 141, 174, 32, 109, 97, 105, 110, 116, 97, 105, 110, 101, 114,
      32, 231, 154, 132, 229, 174, 154, 230, 156, 159, 32, 99, 108, 97, 105, 109, 32, 115, 119,
      101, 101, 112, 32, 230, 156, 186, 229, 136, 182, 239, 188, 140, 230, 130, 168, 230, 156,
      137, 229, 166, 130, 228, 184, 139, 32, 108, 111, 99, 97, 108, 32, 99, 108, 97, 105, 109,
      115, 32, 229, 187, 186, 232, 174, 174, 232, 176, 131, 230, 149, 180, 32, 115, 116, 97,
      116, 117, 115, 32, 229, 173, 151, 230, 174, 181, 227, 128, 130, 10, 10, 229, 187, 186,
      232, 174, 174, 232, 176, 131, 230, 149, 180, 32, 115, 116, 97, 116, 117, 115, 32, 228,
      184, 186, 32, 115, 116, 97, 108, 101, 32, 231, 154, 132, 32, 99, 108, 97, 105, 109, 239,
      188, 154 :: nat]"

definition sweep_text_deprecated :: string where
  "sweep_text_deprecated = map char_of
     [10, 229, 187, 186, 232, 174, 174, 232, 176, 131, 230, 149, 180, 32, 115, 116, 97, 116,
      117, 115, 32, 228, 184, 186, 32, 100, 101, 112, 114, 101, 99, 97, 116, 101, 100, 32, 231,
      154, 132, 32, 99, 108, 97, 105, 109, 239, 188, 154 :: nat]"

definition sweep_text_note :: string where
  "sweep_text_note = map char_of
     [10, 10, 230, 179, 168, 239, 188, 154, 230, 156, 172, 230, 172, 161, 232, 176, 131, 230,
      149, 180, 228, 184, 186, 229, 155, 162, 233, 152, 159, 229, 187, 186, 232, 174, 174, 239,
      188, 140, 229, 133, 183, 228, 189, 147, 229, 164, 132, 231, 144, 134, 229, 138, 158, 230,
      179, 149, 232, 175, 183, 231, 187, 147, 229, 144, 136, 230, 156, 172, 32, 97, 103, 101,
      110, 116, 32, 231, 154, 132, 232, 135, 170, 232, 186, 171, 230, 131, 133, 229, 134, 181,
      229, 134, 179, 229, 174, 154, 227, 128, 130 :: nat]"

fun join_comma :: "string list \<Rightarrow> string" where
  "join_comma [] = []"
| "join_comma [x] = x"
| "join_comma (x # y # xs) = x @ '', '' @ join_comma (y # xs)"

definition format_claim_id_list :: "claim_id list \<Rightarrow> string" where
  "format_claim_id_list ids =
     (if ids = [] then ''[]''
      else ''['' @ join_comma (map (\<lambda>i. [CHR 0x27] @ as_str i @ [CHR 0x27]) ids) @ '']'')"

definition claim_sweep_notification_statement :: "agent_id \<Rightarrow> claim_id list \<Rightarrow> claim_id list \<Rightarrow> string" where
  "claim_sweep_notification_statement a stale deprecated =
     sweep_text_agent @ as_str a @ sweep_text_stale @ format_claim_id_list stale
     @ sweep_text_deprecated @ format_claim_id_list deprecated @ sweep_text_note"

definition suggested_claim_ids :: "sweep_notification_item list \<Rightarrow> claim_status \<Rightarrow> claim_id list" where
  "suggested_claim_ids items st = map item_claim_id (filter (\<lambda>i. suggested_status i = st) items)"

section \<open>Sending\<close>

definition scheduled_items :: "outbox_entry list \<Rightarrow> (agent_id \<times> sweep_notification_item) list" where
  "scheduled_items entries =
     concat (map (\<lambda>e. case entry_target e of
                        Targeted a \<Rightarrow> map (\<lambda>i. (a, i)) (sweep_items e)
                      | Broadcast \<Rightarrow> []) entries)"

definition send_group ::
  "maintainer_config \<Rightarrow> time \<Rightarrow> (agent_id \<times> sweep_notification_item) list
   \<Rightarrow> agent_id \<times> sweep_notification_item list \<Rightarrow> claim_sweep_report \<Rightarrow> claim_sweep_report team_io" where
  "send_group cfg now scheduled g report =
     (case g of (a, items0) \<Rightarrow>
      let kept = filter (\<lambda>i. (a, i) \<notin> set scheduled) items0 in
      if kept = [] then return_io report
      else
        let items = sort_by (cmp_key item_claim_id) kept;
            stale = suggested_claim_ids items Stale;
            deprecated = suggested_claim_ids items Deprecated in
        bind_io (attempt_io (claim_update_suggestion_locked cfg
            (claim_sweep_notification_statement a stale deprecated) now (Some [a]) items)) (\<lambda>r.
          return_io (case r of
            Inr (pid, pushed) \<Rightarrow>
              report\<lparr>notifications := notifications report @
                [\<lparr>notified_agent = a, notified_stale = stale, notified_deprecated = deprecated,
                  notified_policy = pid, notified_pushed = pushed\<rparr>]\<rparr>
          | Inl e \<Rightarrow>
              report\<lparr>notification_errors := notification_errors report @
                [\<lparr>failed_agent = a, failed_stale = stale, failed_deprecated = deprecated, failed_error = e\<rparr>]\<rparr>)))"

definition send_sweep_notifications ::
  "maintainer_config \<Rightarrow> time \<Rightarrow> sweep_groups \<Rightarrow> claim_sweep_report \<Rightarrow> claim_sweep_report team_io" where
  "send_sweep_notifications cfg now groups report =
     bind_io lock_outbox_file (\<lambda>_.
     bind_io outbox_list (\<lambda>entries.
       fold_io (send_group cfg now (scheduled_items entries)) groups report))"

definition run_stale_sweep :: "maintainer_config \<Rightarrow> time \<Rightarrow> claim_sweep_report team_io" where
  "run_stale_sweep cfg now =
     bind_io list_all_claims (\<lambda>claims.
     case sweep_claims cfg now claims (empty_report, []) of (report, groups) \<Rightarrow>
       if groups = [] then return_io report
       else send_sweep_notifications cfg now groups report)"

end
