(* ===== verification/Maintainer_Steps.thy ===== *)
theory Maintainer_Steps
  imports Delivery Sweep
begin

text \<open>
  The Maintainer as a transition system: one step per handler call, whatever its outcome, and one for
  the environment, which chooses the faults the next calls meet.  Every step respects the outbox
  order, keeps the store well formed, never takes a policy back from \<open>deprecated\<close> and never turns
  an agent's directory into something else.
\<close>

section \<open>Steps\<close>

inductive maintainer_step :: "maintainer_config \<Rightarrow> team_store \<Rightarrow> team_store \<Rightarrow> bool" for cfg where
  publish: "publish_new_policy cfg nm st sc now ts w = (r, w') \<Longrightarrow> maintainer_step cfg w w'"
| deprecate: "deprecate_policy cfg i now w = (r', w') \<Longrightarrow> maintainer_step cfg w w'"
| suggest: "claim_update_suggestion cfg st now ts w = (r, w') \<Longrightarrow> maintainer_step cfg w w'"
| pull: "pull_inbox a now w = (r'', w') \<Longrightarrow> maintainer_step cfg w w'"
| ack: "ack_inbox a ids now w = (r''', w') \<Longrightarrow> maintainer_step cfg w w'"
| sweep: "run_stale_sweep cfg now w = (r4, w') \<Longrightarrow> maintainer_step cfg w w'"
| upload: "upload_claim c w = (r5, w') \<Longrightarrow> maintainer_step cfg w w'"
| report: "report_dispute d w = (r5, w') \<Longrightarrow> maintainer_step cfg w w'"
| environment: "maintainer_step cfg w (w\<lparr>io_faults := fs\<rparr>)"

inductive maintainer_reach :: "maintainer_config \<Rightarrow> team_store \<Rightarrow> team_store \<Rightarrow> bool" for cfg where
  reach_refl: "maintainer_reach cfg w w"
| reach_step: "maintainer_reach cfg u v \<Longrightarrow> maintainer_step cfg v w \<Longrightarrow> maintainer_reach cfg u w"

inductive_cases maintainer_stepE: "maintainer_step cfg w w'"

definition empty_store :: "(nat \<Rightarrow> 32 word) \<Rightarrow> team_store" where
  "empty_store rng0 = \<lparr>io_faults = [], rng = rng0, rng_pos = 0, policies = [], outbox = [], agents = [], disputes = []\<rparr>"

lemma reach_frame:
  assumes "io_frame R" and "\<And>w w'. maintainer_step cfg w w' \<Longrightarrow> R w w'"
    and "maintainer_reach cfg w w'"
  shows "R w w'"
  using assms(3)
proof (induction rule: maintainer_reach.induct)
  case (reach_refl w)
  show ?case using assms(1) by (rule io_frame.frame_refl)
next
  case (reach_step u v w)
  with assms(1,2) show ?case by (meson io_frame.frame_trans)
qed

section \<open>The reading parts of the other handlers\<close>

context observation
begin

lemma within_list_agent_ids: "within (same obs) list_agent_ids"
  unfolding list_agent_ids_def by (intro same.within_intros within_io_call)

lemma within_collect_claims: "within (same obs) (collect_claims as out)"
  by (induction as arbitrary: out)
     (auto intro!: same.within_bind same.within_get same.within_return within_io_call within_lift_sum)

lemma within_list_all_claims: "within (same obs) list_all_claims"
  unfolding list_all_claims_def
  by (intro same.within_intros within_list_agent_ids within_collect_claims)

lemma within_collect_team: "within (same obs) (collect_team_claims ns out)"
  by (induction ns arbitrary: out)
     (auto split: agent_node.split sum.split option.split
        intro!: same.within_bind same.within_return within_io_call within_io_ok within_lift_sum)

lemma within_validate_claims: "within (same obs) (validate_new_dispute_direct_claims d)"
  unfolding validate_new_dispute_direct_claims_def load_team_claims_def
  by (intro same.within_intros within_io_ok within_io_call within_collect_team)

end

lemma within_report:
  assumes "untouched obs disputes_update"
  shows "within (same obs) (report_dispute d)"
proof -
  have obs: "observation obs" using assms by (simp add: untouched_def)
  have fresh: "within (same obs) (bind_io (validate_new_dispute_direct_claims d) (\<lambda>_.
      write_dispute \<lparr>record_dispute = d, record_resolution = None\<rparr>))"
    unfolding write_dispute_def
    by (intro same.within_bind same.within_if same.within_throw untouched.within_write [OF assms]
        observation.within_validate_claims [OF obs])
  show ?thesis
    unfolding report_dispute_def read_dispute_def
    by (auto split: sum.split team_error.split
        intro!: same.within_bind same.within_throw same.within_return same.within_attempt fresh
          observation.within_io_call [OF obs] observation.within_read_yaml [OF obs])
qed

lemma within_upload:
  assumes "observation obs" and "\<And>g w. obs (agents_update g w) = obs w"
  shows "within (same obs) (upload_claim c)"
  unfolding upload_claim_def
  by (intro same.within_bind same.within_modify ensure_agent_registered_same
      observation.within_io_call [OF assms(1)]) (auto simp: same_def assms(2))

lemma within_sweep:
  assumes "io_frame R"
    and "within R lock_outbox_file" "within R outbox_list" "within R list_all_claims"
    and "\<And>st now ts items. within R (claim_update_suggestion_locked cfg st now ts items)"
  shows "within R (run_stale_sweep cfg now)"
proof -
  have "within R (send_group cfg now sched g report)" for sched g report
    unfolding send_group_def Let_def
    using assms(5) by (intro io_frame.within_intros [OF assms(1)])
  then show ?thesis
    unfolding run_stale_sweep_def send_sweep_notifications_def
    using assms by (intro io_frame.within_intros [OF assms(1)])
qed

section \<open>What lies outside the mailboxes\<close>

text \<open>An observation that no write of a policy or an outbox file changes.\<close>

locale outside_mail = observation +
  assumes obs_outbox: "obs (outbox_update f w) = obs w"
    and obs_policies: "obs (policies_update g w) = obs w"
begin

lemma by_outbox: "untouched obs outbox_update"
  using obs_outbox by unfold_locales auto

lemma by_policies: "untouched obs policies_update"
  using obs_policies by unfold_locales auto

lemma within_create: "within (same obs) (create_outbox_entries cfg p action now items)"
  unfolding create_outbox_entries_def mint_inbox_id_for_outbox_def outbox_write_def
  by (intro same.within_fold same.within_bind same.within_return untouched.within_mint [OF by_outbox]
      untouched.within_write [OF by_outbox])

lemma within_mint_action: "within (same obs) (mint_action_id_for_outbox cfg)"
  unfolding mint_action_id_for_outbox_def
  by (intro same.within_intros within_reads mint_action_loop_same)

lemmas within_parts = within_mint_action within_create within_reads untouched.within_mint [OF by_policies]
  untouched.within_write [OF by_policies] untouched.within_write [OF by_outbox]

lemma within_publish: "within (same obs) (publish_new_policy cfg nm st sc now ts)"
  unfolding publish_new_policy_def lock_outbox_file_def Let_def write_policy_def mint_policy_id_def
  by (intro same.within_bind same.within_return within_parts)

lemma within_deprecate: "within (same obs) (deprecate_policy cfg i now)"
  unfolding deprecate_policy_def lock_outbox_file_def Let_def
  by (intro same.within_bind within_parts)

lemma within_suggestion_locked: "within (same obs) (claim_update_suggestion_locked cfg st now ts items)"
  unfolding claim_update_suggestion_locked_def Let_def write_policy_def mint_policy_id_def
  by (intro same.within_bind same.within_return within_parts)

lemma within_suggestion: "within (same obs) (claim_update_suggestion cfg st now ts)"
  unfolding claim_update_suggestion_def lock_outbox_file_def
  by (intro same.within_bind within_parts within_suggestion_locked)

lemma within_ack: "within (same obs) (ack_inbox a ids now)"
  unfolding ack_inbox_def lock_outbox_file_def Let_def append_delivered_def lift_sum_def
  by (intro same.within_intros within_parts)

lemma within_stale_sweep: "within (same obs) (run_stale_sweep cfg now)"
  by (rule within_sweep [OF same.io_frame_axioms])
     (auto simp: lock_outbox_file_def intro: within_parts within_suggestion_locked within_list_all_claims)

end

text \<open>An observation that the registration of agents and their mirrors do not change either.\<close>

locale outside_agents_too = outside_mail +
  assumes obs_agents: "obs (agents_update h w) = obs w"
begin

lemma within_pull: "within (same obs) (pull_inbox a now)"
  unfolding pull_inbox_def lock_outbox_file_def active_policy_id_set_def list_policies_def record_offered_def
  by (intro same.within_intros within_parts ensure_agent_registered_same obs_agents)

lemma within_upload_claim: "within (same obs) (upload_claim c)"
  by (rule within_upload [OF observation_axioms obs_agents])

end

interpretation outside_agents: outside_mail agents
  by unfold_locales auto

interpretation outside_disputes: outside_agents_too disputes
  by unfold_locales auto

interpretation agents_by_disputes: untouched agents disputes_update
  by unfold_locales auto

section \<open>Steps respect the outbox order and the invariant\<close>

lemma mail_disputes: "untouched mail disputes_update"
  by unfold_locales (auto simp: mail_def)

lemma within_mail_le: "within (same mail) m \<Longrightarrow> within outbox_le m"
  by (auto simp: within_def same_def mail_def intro: same_outbox_le)

lemma within_mail_wf: "within (same mail) m \<Longrightarrow> within (keeps store_wf) m"
  by (auto simp: within_def same_def mail_def keeps_def store_wf_def outbox_wf_def policies_wf_def)

lemmas mail_reads = mail.within_io_call mail.within_outbox_list mail.within_list_all_claims

lemma run_stale_sweep_le: "within outbox_le (run_stale_sweep cfg now)"
  by (rule within_sweep [OF outbox_le.io_frame_axioms])
     (auto simp: lock_outbox_file_def intro: within_mail_le mail_reads claim_update_suggestion_locked_le)

lemma run_stale_sweep_wf: "within (keeps store_wf) (run_stale_sweep cfg now)"
  by (rule within_sweep [OF keeps.io_frame_axioms])
     (auto simp: lock_outbox_file_def intro: within_mail_wf mail_reads suggestion_locked_wf)

lemma upload_mail: "within (same mail) (upload_claim c)"
  by (rule within_upload [OF mail.observation_axioms]) (simp add: mail_def)

lemma step_outbox_le: "maintainer_step cfg w w' \<Longrightarrow> outbox_le w w'"
  by (erule maintainer_stepE)
     (auto dest: withinD [OF publish_new_policy_le] withinD [OF deprecate_policy_le]
        withinD [OF claim_update_suggestion_le] withinD [OF pull_inbox_le] withinD [OF ack_inbox_le]
        withinD [OF run_stale_sweep_le] withinD [OF within_mail_le [OF upload_mail]]
        withinD [OF within_mail_le [OF within_report [OF mail_disputes]]] intro: same_outbox_le)

lemma step_store_wf: "maintainer_step cfg w w' \<Longrightarrow> store_wf w \<Longrightarrow> store_wf w'"
  by (erule maintainer_stepE)
     (auto dest: within_keepsD [OF publish_new_policy_wf] within_keepsD [OF deprecate_policy_wf]
        within_keepsD [OF claim_update_suggestion_wf] within_keepsD [OF pull_inbox_wf]
        within_keepsD [OF ack_inbox_wf] within_keepsD [OF run_stale_sweep_wf]
        within_keepsD [OF within_mail_wf [OF upload_mail]]
        within_keepsD [OF within_mail_wf [OF within_report [OF mail_disputes]]]
        simp: store_wf_def outbox_wf_def policies_wf_def)

lemma reach_outbox_le: "maintainer_reach cfg w w' \<Longrightarrow> outbox_le w w'"
  using reach_frame [OF outbox_le.io_frame_axioms, of cfg w w'] step_outbox_le by blast

lemma reach_store_wf: "maintainer_reach cfg w w' \<Longrightarrow> store_wf w \<Longrightarrow> store_wf w'"
  using reach_frame [OF keeps.io_frame_axioms, of cfg store_wf w w'] step_store_wf by (auto simp: keeps_def)

lemma empty_store_wf: "store_wf (empty_store rng0)"
  by (simp add: store_wf_def outbox_wf_def policies_wf_def empty_store_def)

end
