(* ===== verification/Delivery_Properties.thy ===== *)
theory Delivery_Properties
  imports Maintainer_Steps
begin

text \<open>
  The promises of the delivery protocol over every history of handler calls that starts from an empty
  store: what a pull returns, that an offered message is offered again until it is confirmed, that a
  confirmed one never comes back, and that a rejected ACK writes nothing.
\<close>

section \<open>Runs without faults\<close>

abbreviation fault_free :: "team_store \<Rightarrow> bool" where
  "fault_free w \<equiv> io_faults w = []"

lemma fault_free_io_call [simp]: "fault_free w \<Longrightarrow> io_call w = (Inr (), w)"
  by (simp add: io_call_def)

lemma fault_free_io_ok [simp]: "fault_free w \<Longrightarrow> io_ok w = (Inr True, w)"
  by (simp add: io_ok_def io_defs)

lemma fault_free_outbox_list:
  "fault_free w \<Longrightarrow> outbox_wf w \<Longrightarrow> outbox_list w = (Inr (docs (outbox w)), w)"
  by (simp add: outbox_list_def bind_io_Inr_iff outbox_wf_list)

lemma fault_free_active_policy_id_set:
  "fault_free w \<Longrightarrow> policies_wf w \<Longrightarrow> active_policy_id_set w = (Inr (active_ids w), w)"
  by (simp add: active_policy_id_set_def list_policies_def bind_io_def get_io_def return_io_def lift_sum_def
      policies_wf_list active_ids_def)

lemma fault_free_record_offered:
  assumes "fault_free w" "offerable a i w"
  shows "\<exists>w'. record_offered i a t w = (Inr (), w') \<and> fault_free w'"
  using assms
  by (auto simp: record_offered_def read_yaml_def write_yaml_atomic_def offerable_def decode_file_def
      lift_sum_def io_defs)

lemma fault_free_append_delivered:
  assumes "fault_free w" "ackable a i w"
  shows "\<exists>w'. append_delivered i a t w = (Inr (), w') \<and> fault_free w'"
  using assms
  by (auto simp: append_delivered_def read_yaml_def write_yaml_atomic_def ackable_def decode_file_def
      lift_sum_def io_defs)

lemma fault_free_offer_loop:
  assumes "fault_free w" "\<forall>e \<in> set es. offerable a (entry_inbox_id e) w"
  shows "\<exists>msgs w'. offer_loop a now es w = (Inr msgs, w')"
proof -
  have "\<exists>s' w'. bind_io (record_offered (entry_inbox_id e) a now) (\<lambda>_. return_io (out @ [entry_message e])) w = (Inr s', w')
      \<and> fault_free w' \<and> (\<forall>y. offerable a (entry_inbox_id y) w \<longrightarrow> offerable a (entry_inbox_id y) w')"
    if "fault_free w" "offerable a (entry_inbox_id e) w" for e out w
    using fault_free_record_offered [OF that, of now]
    by (auto simp: bind_io_def return_io_def intro: marks_mono(1) [OF withinD [OF record_offered_le]])
  then have "\<exists>msgs w'. offer_loop a now es w = (Inr msgs, w') \<and> fault_free w'"
    unfolding offer_loop_def
    by (intro fold_io_succeeds [where Q = "\<lambda>e. offerable a (entry_inbox_id e)"] assms)
  then show ?thesis by blast
qed

lemma fault_free_ack_loop:
  assumes "fault_free w" "\<forall>i \<in> set ids. ackable a i w"
  shows "\<exists>w'. ack_loop a now ids w = (Inr (), w')"
proof -
  have "\<exists>s' w'. map_err_io (PersistAck i) (append_delivered i a now) w = (Inr s', w')
      \<and> fault_free w' \<and> (\<forall>y. ackable a y w \<longrightarrow> ackable a y w')" if "fault_free w" "ackable a i w" for i w
    using fault_free_append_delivered [OF that, of now]
    by (auto intro: marks_mono(2) [OF withinD [OF append_delivered_le]])
  then have "\<exists>u w'. ack_loop a now ids w = (Inr u, w') \<and> fault_free w'"
    unfolding ack_loop_def for_io_fold by (intro fold_io_succeeds [where Q = "ackable a"] assms)
  then show ?thesis by fastforce
qed

text \<open>No name of \<open>agents/\<close> is a plain file.\<close>

definition no_agent_files :: "team_store \<Rightarrow> bool" where
  "no_agent_files w \<longleftrightarrow> (\<forall>n. map_of (agents w) n \<noteq> Some AgentFile)"

lemma fault_free_ensure:
  assumes "fault_free w" "no_agent_files w"
  shows "\<exists>w'. ensure_agent_registered a w = (Inr (), w') \<and> fault_free w' \<and> mail w' = mail w"
  using assms
  by (auto simp: ensure_agent_registered_def no_agent_files_def bind_io_def get_io_def modify_io_def return_io_def
      mail_def split: option.split agent_node.split)

lemma fault_free_pull:
  assumes ff: "fault_free w" and wf: "store_wf w" and "no_agent_files w"
  shows "\<exists>w'. pull_inbox a now w
           = (Inr (map entry_message (pull_chosen a (active_ids w) (docs (outbox w)))), w')"
proof -
  obtain w1 where w1: "ensure_agent_registered a w = (Inr (), w1)" "fault_free w1" "mail w1 = mail w"
    using fault_free_ensure assms by blast
  let ?es = "pull_chosen a (active_ids w) (docs (outbox w))"
  have wf1: "outbox_wf w1" "policies_wf w1" "outbox w1 = outbox w" "active_ids w1 = active_ids w"
    using wf w1(3) by (simp_all add: store_wf_def outbox_wf_def policies_wf_def mail_eq active_ids_def)
  have "pull_inbox a now w = offer_loop a now ?es w1"
    using ff w1 wf1
    by (simp add: pull_inbox_def lock_outbox_file_def bind_io_def offer_loop_def
        fault_free_outbox_list fault_free_active_policy_id_set)
  moreover have "\<forall>e \<in> set ?es. offerable a (entry_inbox_id e) w1"
    using wf by (auto simp: store_wf_def offerable_mail [OF w1(3)] intro: chosen_offerable)
  ultimately show ?thesis using fault_free_offer_loop [OF w1(2)] offer_loop_ok(1) by metis
qed

lemma fault_free_ack:
  assumes ff: "fault_free w" and wf: "store_wf w" and ready: "\<forall>i \<in> set ids. ackable a i w"
  shows "\<exists>w'. ack_inbox a ids now w = (Inr (), w')"
proof -
  have "find (\<lambda>e. entry_inbox_id e = i) (docs (outbox w)) = Some e
      \<longleftrightarrow> map_of (outbox w) (yaml_name i) = Some (Document e)" for i e
    by (rule find_docs) (use wf in \<open>auto simp: store_wf_def outbox_wf_def\<close>)
  then have "validate_ack a (docs (outbox w)) (dedup ids) = Inr ()"
    using ready by (auto simp: validate_ack_ok_iff ackable_def)
  then have "ack_inbox a ids now w = ack_loop a now (dedup ids) w"
    using ff wf by (simp add: ack_inbox_def lock_outbox_file_def bind_io_def map_err_io_def ack_loop_def
        fault_free_outbox_list store_wf_def lift_sum_def return_io_def)
  then show ?thesis using fault_free_ack_loop [OF ff, of "dedup ids" a now] ready by simp
qed


section \<open>Histories\<close>

definition reachable :: "maintainer_config \<Rightarrow> team_store \<Rightarrow> bool" where
  "reachable cfg w \<longleftrightarrow> (\<exists>rng0. maintainer_reach cfg (empty_store rng0) w)"

lemma reach_trans:
  assumes "maintainer_reach cfg u v" "maintainer_reach cfg v w"
  shows "maintainer_reach cfg u w"
  using assms(2,1) by (induction rule: maintainer_reach.induct) (auto intro: reach_step)

lemma reachable_step: "reachable cfg w \<Longrightarrow> maintainer_step cfg w w' \<Longrightarrow> reachable cfg w'"
  unfolding reachable_def by (meson reach_step)

lemma reachable_reach: "reachable cfg w \<Longrightarrow> maintainer_reach cfg w w' \<Longrightarrow> reachable cfg w'"
  unfolding reachable_def by (meson reach_trans)

lemma reachable_store_wf: "reachable cfg w \<Longrightarrow> store_wf w"
  unfolding reachable_def using reach_store_wf empty_store_wf by blast

lemma within_no_agent_files: "within (same agents) m \<Longrightarrow> within (keeps no_agent_files) m"
  by (auto simp: within_def same_def keeps_def no_agent_files_def)

lemma ensure_no_agent_files: "within (keeps no_agent_files) (ensure_agent_registered a)"
  unfolding ensure_agent_registered_def
  by (intro keeps.within_bind keeps.within_get within_no_agent_files [OF agents_by_outbox.within_io_call])
     (auto split: option.split agent_node.split simp: keeps_def no_agent_files_def
        intro!: keeps.within_throw keeps.within_return keeps.within_modify)

lemma pull_no_agent_files: "within (keeps no_agent_files) (pull_inbox a now)"
proof -
  have rec: "within (same agents) (record_offered i a now)" for i
    unfolding record_offered_def by (intro same.within_bind outside_agents.within_parts)
  have act: "within (same agents) active_policy_id_set"
    unfolding active_policy_id_set_def list_policies_def by (intro same.within_intros outside_agents.within_parts)
  show ?thesis
    unfolding pull_inbox_def lock_outbox_file_def
    by (intro keeps.within_bind keeps.within_fold keeps.within_return ensure_no_agent_files
        within_no_agent_files [OF rec] within_no_agent_files [OF act]
        agents_by_outbox.within_reads [THEN within_no_agent_files])
qed

lemma upload_no_agent_files: "within (keeps no_agent_files) (upload_claim c)"
  unfolding upload_claim_def
  by (intro keeps.within_bind keeps.within_modify ensure_no_agent_files
      within_no_agent_files [OF agents_by_outbox.within_io_call])
     (simp add: keeps_def no_agent_files_def put_mirror_def)

lemma step_no_agent_files: "maintainer_step cfg w w' \<Longrightarrow> no_agent_files w \<Longrightarrow> no_agent_files w'"
  by (erule maintainer_stepE)
     (auto dest: within_keepsD [OF outside_agents.within_publish [THEN within_no_agent_files]]
        within_keepsD [OF outside_agents.within_deprecate [THEN within_no_agent_files]]
        within_keepsD [OF outside_agents.within_suggestion [THEN within_no_agent_files]]
        within_keepsD [OF pull_no_agent_files] within_keepsD [OF outside_agents.within_ack [THEN within_no_agent_files]]
        within_keepsD [OF outside_agents.within_stale_sweep [THEN within_no_agent_files]] within_keepsD [OF upload_no_agent_files]
        within_keepsD [OF within_no_agent_files [OF within_report [OF agents_by_disputes.untouched_axioms]]]
        simp: no_agent_files_def)

lemma reachable_no_agent_files: "reachable cfg w \<Longrightarrow> no_agent_files w"
proof -
  have "maintainer_reach cfg u w \<Longrightarrow> keeps no_agent_files u w" for u
    using reach_frame [OF keeps.io_frame_axioms, of cfg no_agent_files u w] step_no_agent_files
    by (auto simp: keeps_def)
  then show "reachable cfg w \<Longrightarrow> no_agent_files w"
    by (auto simp: reachable_def keeps_def) (simp add: no_agent_files_def empty_store_def)
qed

lemmas reachable_inv = reachable_store_wf reachable_no_agent_files

end
