(* ===== verification/Delivery_Protocol.thy ===== *)
theory Delivery_Protocol
  imports Delivery_Properties
begin

text \<open>
  The delivery theorems.  Each one ranges over every history of the Maintainer: any sequence of
  handler calls and faults from an empty store to the state where the theorem starts, and any
  sequence after it.
\<close>

section \<open>Lemmas shared by the theorems\<close>

interpretation pull_order: comparison pull_order
  unfolding pull_order_def by (intro comparison_then_with comparison_key)

lemma docs_outbox_iff:
  "outbox_wf w \<Longrightarrow> e \<in> set (docs (outbox w)) \<longleftrightarrow> map_of (outbox w) (yaml_name (entry_inbox_id e)) = Some (Document e)"
  by (rule dir_wf_docs_iff [of inbox_prefix]) (simp add: outbox_wf_def)

lemma pulled_message:
  assumes wf: "store_wf w" and run: "pull_inbox a now w = (Inr msgs, w')" and m: "m \<in> set msgs"
  obtains e where "m = entry_message e" "map_of (outbox w) (yaml_name (entry_inbox_id e)) = Some (Document e)"
    "targets_agent e a" "\<not> delivered_to_agent e a" "offered_at a (entry_inbox_id e) w'"
    "message_id m = entry_inbox_id e"
  using run wf
proof (cases rule: pull_inbox_cases)
  case (offers active w1)
  from m offer_loop_ok [OF offers(3)] obtain e where e: "m = entry_message e"
    "e \<in> set (pull_chosen a active (docs (outbox w)))" "offered_at a (entry_inbox_id e) w'"
    by auto
  from wf have ow: "outbox_wf w" by (simp add: store_wf_def)
  from e(2) have sel: "e \<in> set (docs (outbox w))" "targets_agent e a" "\<not> delivered_to_agent e a"
    using pull_selects_targets by (auto simp: pull_chosen_mem)
  then have "map_of (outbox w) (yaml_name (entry_inbox_id e)) = Some (Document e)"
    using docs_outbox_iff [OF ow] by blast
  moreover from this have "message_id m = entry_inbox_id e"
    using outbox_wf_entry [OF ow] e(1) entry_wf_def by blast
  ultimately show ?thesis by (rule that [OF e(1) _ sel(2,3) e(3)])
qed simp

text \<open>An entry a pull of the agent would return: it is its own, unconfirmed, and already offered.\<close>

lemma selects_offered:
  assumes "e \<in> set entries" "targets_agent e a" "offered_to_agent e a" "\<not> delivered_to_agent e a"
  shows "pull_selects a active (seen_policy_ids a entries) e"
proof -
  have "policy_id (message_policy (entry_message e)) \<in> set (seen_policy_ids a entries)"
    using assms by (auto simp: seen_policy_ids_def message_policy_id_def)
  with assms show ?thesis by (auto simp: pull_selects_def targets_agent_def Let_def split: outbox_target.splits)
qed

lemma selects_targeted:
  "entry_target e = Targeted a \<Longrightarrow> \<not> delivered_to_agent e a \<Longrightarrow> pull_selects a active seen e"
  by (simp add: pull_selects_def)

lemma fault_free_pull_returns:
  fixes i :: inbox_id
  assumes "reachable cfg w" "fault_free w" "map_of (outbox w) (yaml_name i) = Some (Document e)"
    and "pull_selects a (active_ids w) (seen_policy_ids a (docs (outbox w))) e"
  shows "\<exists>msgs w'. pull_inbox a now w = (Inr msgs, w') \<and> entry_message e \<in> set msgs"
proof -
  have wf: "store_wf w" "no_agent_files w" using assms(1) by (simp_all add: reachable_inv)
  then have ow: "outbox_wf w" by (simp add: store_wf_def)
  have "entry_inbox_id e = i" using outbox_wf_entry [OF ow assms(3)] by simp
  then have "e \<in> set (docs (outbox w))" using assms(3) by (simp add: docs_outbox_iff [OF ow])
  with assms(4) have "e \<in> set (pull_chosen a (active_ids w) (docs (outbox w)))" by (simp add: pull_chosen_mem)
  moreover obtain w' where
    "pull_inbox a now w = (Inr (map entry_message (pull_chosen a (active_ids w) (docs (outbox w)))), w')"
    using fault_free_pull [OF assms(2) wf] by blast
  ultimately show ?thesis by auto
qed

lemma pull_reach: "pull_inbox a now w = (r, w') \<Longrightarrow> maintainer_reach cfg w w'"
  by (meson maintainer_step.pull reach_refl reach_step)

lemma ack_reach: "ack_inbox a ids now w = (r, w') \<Longrightarrow> maintainer_reach cfg w w'"
  by (meson maintainer_step.ack reach_refl reach_step)

lemma publish_reach: "publish_new_policy cfg nm st sc now ts w = (r, w') \<Longrightarrow> maintainer_reach cfg w w'"
  by (meson maintainer_step.publish reach_refl reach_step)

lemma ack_inbox_ok:
  assumes "store_wf w" "ack_inbox a ids now w = (Inr u, w')" "i \<in> set ids"
  shows "delivered_at a i w'"
  using assms(2,1)
proof (cases rule: ack_inbox_cases)
  case (valid w1)
  then show ?thesis using ack_loop_ok assms(3) by simp
qed auto

lemma validate_ack_error:
  assumes wf: "outbox_wf w" and err: "validate_ack a (docs (outbox w)) ids = Inl e"
  shows "\<exists>i \<in> set ids.
       e = UnknownInbox i \<and> (\<forall>x. map_of (outbox w) (yaml_name i) \<noteq> Some (Document x))
     \<or> e = TargetMismatch a i \<and> \<not> offerable a i w
     \<or> e = NotOffered a i \<and> \<not> offered_at a i w"
  using err
proof (induction ids)
  case (Cons i ids)
  have look: "find (\<lambda>e. entry_inbox_id e = i) (docs (outbox w)) = Some x
      \<longleftrightarrow> map_of (outbox w) (yaml_name i) = Some (Document x)" for x
    by (rule find_docs [of inbox_prefix]) (use wf in \<open>simp add: outbox_wf_def\<close>)
  show ?case
  proof (cases "find (\<lambda>e. entry_inbox_id e = i) (docs (outbox w))")
    case None
    with Cons look show ?thesis by auto
  next
    case (Some x)
    then have x: "map_of (outbox w) (yaml_name i) = Some (Document x)" using look by blast
    with Some Cons show ?thesis
      by (auto simp: offerable_def offered_at_def targets_agent_def split: if_splits outbox_target.splits)
  qed
qed simp

section \<open>What a pull returns\<close>

text \<open>
  The answer of a pull: the chosen entries, all offered when it returns.  Under faults the list of active policies may
  come out empty, without faults it is the stored one.
\<close>

lemma pull_inbox_answer:
  assumes run: "pull_inbox a now w = (Inr msgs, w')" and wf: "store_wf w" "no_agent_files w"
  obtains active where "msgs = map entry_message (pull_chosen a active (docs (outbox w)))"
    "\<forall>e \<in> set (pull_chosen a active (docs (outbox w))). offered_at a (entry_inbox_id e) w'"
    "fault_free w \<Longrightarrow> active = active_ids w"
proof (cases "fault_free w")
  case True
  let ?es = "pull_chosen a (active_ids w) (docs (outbox w))"
  have msgs: "msgs = map entry_message ?es" using fault_free_pull [OF True wf, of a now] run by auto
  have ow: "outbox_wf w" using wf by (simp add: store_wf_def)
  have "offered_at a (entry_inbox_id e) w'" if "e \<in> set ?es" for e
  proof -
    have "map_of (outbox w) (yaml_name (entry_inbox_id e)) = Some (Document e)"
      using that docs_outbox_iff [OF ow] by (auto simp: pull_chosen_mem)
    then have "message_id (entry_message e) = entry_inbox_id e" using outbox_wf_entry [OF ow] entry_wf_def by blast
    moreover have "entry_message e \<in> set msgs" using that msgs by simp
    ultimately show ?thesis using pulled_message [OF wf(1) run] by metis
  qed
  with that msgs show ?thesis by blast
next
  case False
  from run wf(1) show ?thesis
  proof (cases rule: pull_inbox_cases)
    case (offers active w1)
    from that False offer_loop_ok [OF offers(3)] show ?thesis by blast
  qed simp
qed

text \<open>The order of the answer and the broadcasts in it, written out over the stored files.\<close>

lemma pull_order_event:
  "pull_order x y \<longleftrightarrow>
     event_at (entry_message x) < event_at (entry_message y)
     \<or> event_at (entry_message x) = event_at (entry_message y)
       \<and> (entry_created_at x < entry_created_at y
          \<or> entry_created_at x = entry_created_at y \<and> as_str (entry_inbox_id x) \<le> as_str (entry_inbox_id y))"
  by (auto simp: pull_order_def then_with_def cmp_key_def)

lemma outbox_docs_stored:
  fixes i :: inbox_id
  assumes "outbox_wf w" "map_of (outbox w) (yaml_name i) = Some (Document e)"
  shows "e \<in> set (docs (outbox w))"
  using assms outbox_wf_entry [OF assms] by (simp add: docs_outbox_iff)

lemma active_ids_stored:
  "policies_wf w \<Longrightarrow> i \<in> set (active_ids w) \<longleftrightarrow>
     (\<exists>p. map_of (policies w) (yaml_name i) = Some (Document p) \<and> policy_status p = PolicyActive)"
  using dir_wf_docs_iff [of policy_prefix policy_id "policies w"] dir_wf_key
  by (fastforce simp: active_ids_def policies_wf_def)

lemma seen_policy_ids_stored:
  "outbox_wf w \<Longrightarrow> k \<in> set (seen_policy_ids a (docs (outbox w))) \<longleftrightarrow>
     (\<exists>(i :: inbox_id) x. map_of (outbox w) (yaml_name i) = Some (Document x)
        \<and> message_policy_id (entry_message x) = k \<and> (offered_to_agent x a \<or> delivered_to_agent x a))"
  using docs_outbox_iff outbox_docs_stored by (fastforce simp: seen_policy_ids_def)

text \<open>
  Property C5.  In every reachable store, a pull that succeeds returns the messages of distinct outbox entries, ordered by
  the time of the event (then by creation time, then by id), each addressed to the agent or broadcast, none of them
  confirmed by it, and each of them is marked as offered to the agent when the call returns.  It leaves none out: every
  stored, unconfirmed entry addressed to the agent is among them, and so is every unconfirmed broadcast offered to it
  before; and without faults an unconfirmed broadcast is among them exactly when the agent should hear of it, that is
  when it announces the deprecation of a policy the agent has been told of, or when its policy is still active or the
  entry has been offered to the agent.
\<close>

theorem pull_returns_pending_mail:
  assumes "reachable cfg w" and "pull_inbox a now w = (Inr msgs, w')"
  shows "\<exists>es. msgs = map entry_message es \<and> distinct (map entry_inbox_id es)
     \<and> sorted_wrt (\<lambda>x y. event_at (entry_message x) < event_at (entry_message y)
          \<or> event_at (entry_message x) = event_at (entry_message y)
            \<and> (entry_created_at x < entry_created_at y
               \<or> entry_created_at x = entry_created_at y \<and> as_str (entry_inbox_id x) \<le> as_str (entry_inbox_id y))) es
     \<and> (\<forall>e \<in> set es. map_of (outbox w) (yaml_name (entry_inbox_id e)) = Some (Document e)
          \<and> targets_agent e a \<and> \<not> delivered_to_agent e a \<and> offered_at a (entry_inbox_id e) w')
     \<and> (\<forall>(i :: inbox_id) e. map_of (outbox w) (yaml_name i) = Some (Document e) \<and> \<not> delivered_to_agent e a
          \<and> (entry_target e = Targeted a \<or> entry_target e = Broadcast \<and> offered_to_agent e a) \<longrightarrow> e \<in> set es)
     \<and> (fault_free w \<longrightarrow> (\<forall>(i :: inbox_id) e. map_of (outbox w) (yaml_name i) = Some (Document e)
          \<and> \<not> delivered_to_agent e a \<and> entry_target e = Broadcast \<longrightarrow>
          (e \<in> set es \<longleftrightarrow>
             (let p = message_policy (entry_message e) in
              if policy_status p = PolicyDeprecated
              then \<exists>(j :: inbox_id) x. map_of (outbox w) (yaml_name j) = Some (Document x)
                     \<and> message_policy_id (entry_message x) = policy_id p \<and> (offered_to_agent x a \<or> delivered_to_agent x a)
              else (\<exists>q. map_of (policies w) (yaml_name (policy_id p)) = Some (Document q) \<and> policy_status q = PolicyActive)
                   \<or> offered_to_agent e a))))"
proof -
  have wf: "store_wf w" "no_agent_files w" using assms(1) by (simp_all add: reachable_inv)
  then have ow: "outbox_wf w" and pw: "policies_wf w" and d: "distinct (map entry_inbox_id (docs (outbox w)))"
    using distinct_keys_docs by (auto simp: store_wf_def outbox_wf_def)
  obtain active where offered: "msgs = map entry_message (pull_chosen a active (docs (outbox w)))"
      "\<forall>e \<in> set (pull_chosen a active (docs (outbox w))). offered_at a (entry_inbox_id e) w'"
    and calm: "fault_free w \<Longrightarrow> active = active_ids w"
    using pull_inbox_answer [OF assms(2) wf] by blast
  let ?es = "pull_chosen a active (docs (outbox w))"
  have order: "sorted_wrt pull_order ?es" unfolding pull_chosen_def by (rule pull_order.sorted_wrt_sort_by)
  have dist: "distinct (map entry_inbox_id ?es)"
    using d by (auto simp: pull_chosen_def distinct_map intro: inj_on_subset)
  have sound: "\<forall>e \<in> set ?es. map_of (outbox w) (yaml_name (entry_inbox_id e)) = Some (Document e)
      \<and> targets_agent e a \<and> \<not> delivered_to_agent e a"
    using pull_selects_targets docs_outbox_iff [OF ow] by (auto simp: pull_chosen_mem)
  have own: "e \<in> set ?es" if "map_of (outbox w) (yaml_name i) = Some (Document e)" "\<not> delivered_to_agent e a"
      "entry_target e = Targeted a \<or> entry_target e = Broadcast \<and> offered_to_agent e a" for e and i :: inbox_id
    using that outbox_docs_stored [OF ow that(1)] selects_targeted selects_offered
    by (auto simp: pull_chosen_mem targets_agent_def)
  have all: "e \<in> set ?es \<longleftrightarrow>
        (let p = message_policy (entry_message e) in
         if policy_status p = PolicyDeprecated
         then \<exists>(j :: inbox_id) x. map_of (outbox w) (yaml_name j) = Some (Document x)
                \<and> message_policy_id (entry_message x) = policy_id p \<and> (offered_to_agent x a \<or> delivered_to_agent x a)
         else (\<exists>q. map_of (policies w) (yaml_name (policy_id p)) = Some (Document q) \<and> policy_status q = PolicyActive)
              \<or> offered_to_agent e a)"
    if "fault_free w" "map_of (outbox w) (yaml_name i) = Some (Document e)" "\<not> delivered_to_agent e a"
      "entry_target e = Broadcast" for e and i :: inbox_id
    using that calm [OF that(1)] outbox_docs_stored [OF ow that(2)]
    by (simp add: pull_chosen_mem pull_selects_def Let_def active_ids_stored [OF pw] seen_policy_ids_stored [OF ow])
  from offered dist order sound own all show ?thesis
    unfolding pull_order_event [abs_def] by (intro exI [of _ ?es] conjI allI impI ballI) blast+
qed

section \<open>At least once, until confirmed\<close>

text \<open>
  Property C1.  A message that a pull returned is returned by every later pull of the same agent that
  meets no fault, as long as the agent has not confirmed it: whatever happened in between, a crash in
  the middle of a handler or the deprecation of its policy included.
\<close>

theorem unconfirmed_message_is_offered_again:
  assumes "reachable cfg w" and "pull_inbox a now w = (Inr msgs, w1)" and "m \<in> set msgs"
    and "maintainer_reach cfg w1 w2" and "fault_free w2" and "\<not> delivered_at a (message_id m) w2"
  shows "\<exists>msgs' w3. pull_inbox a now' w2 = (Inr msgs', w3) \<and> m \<in> set msgs'"
proof -
  have wf: "store_wf w" using assms(1) by (rule reachable_inv)
  have reach: "maintainer_reach cfg w w2" using pull_reach [OF assms(2)] assms(4) by (rule reach_trans)
  obtain e where e: "m = entry_message e" "map_of (outbox w) (yaml_name (entry_inbox_id e)) = Some (Document e)"
      "targets_agent e a" "offered_at a (entry_inbox_id e) w1" "message_id m = entry_inbox_id e"
    using pulled_message [OF wf assms(2,3)] by metis
  obtain e2 where e2: "map_of (outbox w2) (yaml_name (entry_inbox_id e)) = Some (Document e2)" "entry_le e e2"
    using outbox_leD [OF reach_outbox_le [OF reach] e(2)] by blast
  have "offered_to_agent e2 a"
    using marks_mono(4) [OF reach_outbox_le [OF assms(4)] e(4)] e2 by (simp add: offered_at_def)
  moreover have "\<not> delivered_to_agent e2 a" using assms(6) e2 e(5) by (simp add: delivered_at_def)
  moreover have "targets_agent e2 a" using e(3) targets_agent_mono [OF e2(2)] by simp
  moreover have ow: "outbox_wf w2" and r: "reachable cfg w2"
    using reachable_reach [OF assms(1) reach] reachable_inv by (auto simp: store_wf_def)
  moreover have "e2 \<in> set (docs (outbox w2))"
    using e2 docs_outbox_iff [OF ow, of e2] by (simp add: entry_le_def)
  ultimately have "pull_selects a (active_ids w2) (seen_policy_ids a (docs (outbox w2))) e2"
    by (simp add: selects_offered)
  from fault_free_pull_returns [OF r assms(5) e2(1) this, of now'] show ?thesis
    using e(1) e2(2) by (simp add: entry_le_def)
qed

section \<open>Never after a confirmation\<close>

text \<open>
  Property C2.  Once an ACK of some ids has succeeded, no later pull of that agent, in any state the
  Maintainer can reach afterwards, returns a message with one of those ids.
\<close>

theorem confirmed_message_never_returns:
  assumes "reachable cfg w" and "ack_inbox a ids now w = (Inr (), w1)"
    and "maintainer_reach cfg w1 w2" and "pull_inbox a now' w2 = (Inr msgs, w3)" and "m \<in> set msgs"
  shows "message_id m \<notin> set ids"
proof
  assume i: "message_id m \<in> set ids"
  have wf: "store_wf w" "store_wf w2"
    using reachable_reach [OF reachable_reach [OF assms(1) ack_reach [OF assms(2)]] assms(3)] assms(1) reachable_inv
    by auto
  have "delivered_at a (message_id m) w2"
    using marks_mono(3) [OF reach_outbox_le [OF assms(3)]] ack_inbox_ok [OF wf(1) assms(2) i] by blast
  then show False
    using pulled_message [OF wf(2) assms(4,5)] by (metis delivered_at_def yaml_file.inject option.inject)
qed

section \<open>ACK requests\<close>

text \<open>
  Property C3.  Without faults an ACK is all or nothing.  If every id names an entry addressed
  to the agent and offered to it, the call succeeds and all of them are confirmed.  Otherwise
  it writes nothing, and the error names an id of the request and says truly what is wrong with it.
\<close>

theorem ack_all_or_nothing:
  assumes "reachable cfg w" and "fault_free w" and "ack_inbox a ids now w = (r, w')"
  shows "if \<forall>i \<in> set ids. ackable a i w
         then r = Inr () \<and> (\<forall>i \<in> set ids. delivered_at a i w')
         else mail w' = mail w \<and> (\<exists>i \<in> set ids.
            r = Inl (UnknownInbox i) \<and> (\<forall>e. map_of (outbox w) (yaml_name i) \<noteq> Some (Document e))
          \<or> r = Inl (TargetMismatch a i) \<and> \<not> offerable a i w
          \<or> r = Inl (NotOffered a i) \<and> \<not> offered_at a i w)"
proof (cases "\<forall>i \<in> set ids. ackable a i w")
  case True
  have wf: "store_wf w" using assms(1) by (rule reachable_inv)
  with True have "r = Inr ()" using fault_free_ack [OF assms(2) wf, of ids a now] assms(3) by auto
  with True show ?thesis using ack_inbox_ok [OF wf] assms(3) by simp
next
  case False
  have wf: "store_wf w" using assms(1) by (rule reachable_inv)
  then have ow: "outbox_wf w" by (simp add: store_wf_def)
  have valid: "validate_ack a (docs (outbox w)) (dedup ids) \<noteq> Inr ()"
    using False validate_ack_ackable [OF ow, of a "dedup ids"] by auto
  then obtain e where e: "validate_ack a (docs (outbox w)) (dedup ids) = Inl e"
    by (cases "validate_ack a (docs (outbox w)) (dedup ids)") auto
  have run: "ack_inbox a ids now w = (Inl e, w)"
    using e ow assms(2)
    by (simp add: ack_inbox_def lock_outbox_file_def bind_io_def map_err_io_def fault_free_outbox_list
        lift_sum_def throw_io_def)
  moreover have "set (dedup ids) = set ids" by simp
  ultimately show ?thesis
    using False assms(3) validate_ack_error [OF ow e] by auto
qed

text \<open>
  An ACK that stopped in the middle because a write failed can be repeated: the same
  request, in any later state and without faults, succeeds and confirms every id.
\<close>

theorem ack_retry_completes:
  assumes "reachable cfg w" and "ack_inbox a ids now w = (Inl (PersistAck i err), w1)"
    and "maintainer_reach cfg w1 w2" and "fault_free w2"
  shows "\<exists>w3. ack_inbox a ids now' w2 = (Inr (), w3) \<and> (\<forall>j \<in> set ids. delivered_at a j w3)"
proof -
  have wf: "store_wf w" using assms(1) by (rule reachable_inv)
  have reach: "maintainer_reach cfg w w2" using ack_reach [OF assms(2)] assms(3) by (rule reach_trans)
  have wf2: "store_wf w2" using reachable_inv(1) [OF reachable_reach [OF assms(1) reach]] .
  from assms(2) wf have "\<forall>j \<in> set ids. ackable a j w"
  proof (cases rule: ack_inbox_cases)
    case (invalid e)
    then show ?thesis using validate_ack_error [OF _ invalid(1)] wf by (auto simp: store_wf_def)
  next
    case (valid w')
    then show ?thesis using ack_valid_ackable [OF wf valid(2), of w] by simp
  qed auto
  then have "\<forall>j \<in> set ids. ackable a j w2" using marks_mono(2) [OF reach_outbox_le [OF reach]] by blast
  from fault_free_ack [OF assms(4) wf2 this] show ?thesis using ack_inbox_ok [OF wf2] by blast
qed

section \<open>The marks of an entry\<close>

text \<open>
  Property C4.  In every reachable store each outbox file is a reservation or a well-formed entry: it
  is named after the id that both the entry and its message carry, no agent has two offer marks or
  two confirmations, every agent that confirmed was offered the message, and a targeted entry was only
  ever offered to its target.
\<close>

theorem outbox_marks_consistent:
  assumes "reachable cfg w" and "map_of (outbox w) n = Some f"
  shows "f = EmptyFile \<or> (\<exists>e. f = Document e
     \<and> n = yaml_name (entry_inbox_id e) \<and> message_id (entry_message e) = entry_inbox_id e
     \<and> distinct (map offered_agent (offered_to e)) \<and> distinct (map delivered_agent (delivered_to e))
     \<and> (\<forall>a. delivered_to_agent e a \<longrightarrow> offered_to_agent e a)
     \<and> (\<forall>a b. entry_target e = Targeted a \<longrightarrow> offered_to_agent e b \<longrightarrow> b = a))"
proof (cases f)
  case (Document e)
  have wf: "outbox_wf w" using reachable_inv(1) [OF assms(1)] by (simp add: store_wf_def)
  then have n: "n = yaml_name (entry_inbox_id e)"
    using assms(2) Document dir_wf_key by (auto simp: outbox_wf_def)
  with wf assms(2) Document have "entry_wf e" using outbox_wf_entry by blast
  with n Document show ?thesis
    by (auto simp: entry_wf_def offered_to_agent_iff delivered_to_agent_iff image_subset_iff)
next
  case Malformed
  then show ?thesis
    using reachable_inv(1) [OF assms(1)] assms(2) dir_wf_not_malformed [of inbox_prefix entry_inbox_id "outbox w" n]
    by (auto simp: store_wf_def outbox_wf_def)
qed simp

text \<open>
  Property C6.  No handler, whatever its outcome, loses or rewrites an outbox entry: at any later
  time the entry is there with the same id, action, target, message and sweep items, its
  confirmations are the earlier ones followed by new ones, and no agent's offer is forgotten.
\<close>

theorem outbox_entries_persist:
  assumes "maintainer_reach cfg w w'" and "map_of (outbox w) n = Some (Document e)"
  shows "\<exists>e'. map_of (outbox w') n = Some (Document e') \<and> entry_le e e'"
  using outbox_leD [OF reach_outbox_le [OF assms(1)] assms(2)] .

end
