(* ===== verification/Publishing.thy ===== *)
theory Publishing
  imports Delivery_Protocol
begin

text \<open>
  Publication and deprecation of policies: what a successful call appends to the store, that no
  identifier is reused, and whom the resulting entries reach.
\<close>

section \<open>Minting\<close>

lemma mint_action_loop_fresh:
  "mint_action_loop used n w = (Inr action, w') \<Longrightarrow> action \<notin> set used"
  by (induction used n arbitrary: w rule: mint_action_loop.induct) (auto simp: io_iffs Let_def split: if_splits)

lemma mint_action_ok:
  assumes "mint_action_id_for_outbox cfg w = (Inr action, w')" and "outbox_wf w"
  shows "action \<notin> maintainer_action_id ` set (docs (outbox w)) \<and> mail w' = mail w"
proof -
  from assms(1) obtain es w1 where es: "outbox_list w = (Inr es, w1)"
      "mint_action_loop (map maintainer_action_id es) (id_mint_max_attempts cfg) w1 = (Inr action, w')"
    by (auto simp: mint_action_id_for_outbox_def io_iffs split: if_splits)
  have "mail w' = mail w1"
    using within_sameD [OF mint_action_loop_same [OF mail.within_draw] es(2)] .
  then show ?thesis
    using outbox_list_ok [OF assms(2) es(1)] mint_action_loop_fresh [OF es(2)] by auto
qed

lemma mint_write_policy_ok:
  assumes "mint_policy_id cfg w = (Inr i, w1)" and "write_policy p w1 = (Inr u, w2)" and "policy_id p = i"
  shows "map_of (policies w) (yaml_name i) = None \<and> policies w2 = policies w @ [(yaml_name i, Document p)]
     \<and> outbox w2 = outbox w"
proof -
  have "outbox w1 = outbox w" "outbox w2 = outbox w1"
    using within_sameD [OF outbox_by_policies.within_mint assms(1) [unfolded mint_policy_id_def]]
      within_sameD [OF outbox_by_policies.within_write assms(2) [unfolded write_policy_def]] by simp_all
  moreover from assms(1) [unfolded mint_policy_id_def]
  have "map_of (policies w) (yaml_name i) = None" "policies w1 = policies w @ [(yaml_name i, EmptyFile)]"
    by (cases rule: policies_dir.mint_cases; auto)+
  moreover have "policies w2 = AList.update (yaml_name i) (Document p) (policies w1)"
    using policies_dir.write_yaml_atomic_ok assms(2,3) unfolding write_policy_def by blast
  ultimately show ?thesis by (simp add: update_reserved)
qed

text \<open>The files a successful expansion appends, one per target and in the order of the targets.\<close>

definition outbox_files ::
  "policy \<Rightarrow> maintainer_action_id \<Rightarrow> time \<Rightarrow> sweep_notification_item list \<Rightarrow> outbox_target list \<Rightarrow> inbox_id list \<Rightarrow> outbox_entry dir" where
  "outbox_files p action now items ts ids =
     map (\<lambda>(t, i). (yaml_name i, Document (new_outbox_entry p action now items t i))) (zip ts ids)"

lemma create_fold_ok:
  assumes "fold_io (\<lambda>target count.
         bind_io (mint_inbox_id_for_outbox cfg) (\<lambda>i.
         bind_io (outbox_write (new_outbox_entry p action now items target i)) (\<lambda>_.
         return_io (Suc count)))) ts c w = (Inr n, w')"
  shows "n = c + length ts \<and>
    (\<exists>ids. length ids = length ts \<and> outbox w' = outbox w @ outbox_files p action now items ts ids)"
  using assms
proof (induction ts arbitrary: c w)
  case (Cons t ts)
  from Cons.prems [unfolded fold_io.simps bind_io_Inr_iff [of _ "\<lambda>s'. fold_io _ ts s'"]]
  obtain c1 w1 where t: "bind_io (mint_inbox_id_for_outbox cfg) (\<lambda>i.
         bind_io (outbox_write (new_outbox_entry p action now items t i)) (\<lambda>_. return_io (Suc c))) w = (Inr c1, w1)"
    and ts: "fold_io (\<lambda>target count.
         bind_io (mint_inbox_id_for_outbox cfg) (\<lambda>i.
         bind_io (outbox_write (new_outbox_entry p action now items target i)) (\<lambda>_.
         return_io (Suc count)))) ts c1 w1 = (Inr n, w')"
    by blast
  from t obtain i where i: "c1 = Suc c"
      "outbox w1 = outbox w @ [(yaml_name i, Document (new_outbox_entry p action now items t i))]"
    by (cases rule: create_entry_cases) auto
  from Cons.IH [OF ts] obtain ids where "n = c1 + length ts" "length ids = length ts"
      "outbox w' = outbox w1 @ outbox_files p action now items ts ids" by blast
  with i show ?case by (auto simp: outbox_files_def intro!: exI [of _ "i # ids"])
qed (simp add: outbox_files_def)

lemma create_outbox_entries_ok:
  assumes "create_outbox_entries cfg p action now items w = (Inr n, w')"
  shows "n = length (outbox_targets p) \<and> (\<exists>ids. length ids = n
     \<and> outbox w' = outbox w @ outbox_files p action now items (outbox_targets p) ids)"
  using create_fold_ok [OF assms [unfolded create_outbox_entries_def]] by auto

section \<open>What a publication writes\<close>

abbreviation published_policy :: "string \<Rightarrow> string \<Rightarrow> string \<Rightarrow> time \<Rightarrow> agent_id list option \<Rightarrow> policy_id \<Rightarrow> policy" where
  "published_policy nm st sc now ts i \<equiv>
     \<lparr>policy_id = i, policy_message_type = PolicyUpdateType, policy_name = nm, policy_statement = st,
      policy_scope = sc, policy_status = PolicyActive, policy_created_at = now,
      policy_updated_at = None, target_agents = normalize_target_agents ts\<rparr>"

lemma publish_ok:
  assumes wf: "store_wf w" and run: "publish_new_policy cfg nm st sc now ts w = (Inr (i, n), w')"
  obtains action ids where
    "map_of (policies w) (yaml_name i) = None"
    "policies w' = policies w @ [(yaml_name i, Document (published_policy nm st sc now ts i))]"
    "action \<notin> maintainer_action_id ` set (docs (outbox w))"
    "n = length (outbox_targets (published_policy nm st sc now ts i))" "length ids = n"
    "outbox w' = outbox w @ outbox_files (published_policy nm st sc now ts i) action now []
       (outbox_targets (published_policy nm st sc now ts i)) ids"
proof -
  let ?p = "published_policy nm st sc now ts i"
  from run obtain w1 action w2 w3 w4 u where
    s: "io_call w = (Inr (), w1)" "mint_action_id_for_outbox cfg w1 = (Inr action, w2)"
       "mint_policy_id cfg w2 = (Inr i, w3)" "write_policy ?p w3 = (Inr u, w4)"
       "create_outbox_entries cfg ?p action now [] w4 = (Inr n, w')"
    by (auto simp: publish_new_policy_def lock_outbox_file_def io_iffs Let_def)
  have m1: "mail w1 = mail w" by (rule mail.obs_io_call [OF s(1)])
  have m2: "action \<notin> maintainer_action_id ` set (docs (outbox w))" "mail w2 = mail w"
    using mint_action_ok [OF s(2)] wf m1 by (simp_all add: store_wf_def outbox_wf_def mail_eq)
  have p: "map_of (policies w) (yaml_name i) = None" "policies w4 = policies w @ [(yaml_name i, Document ?p)]"
      "outbox w4 = outbox w"
    using mint_write_policy_ok [OF s(3,4)] m2 by (simp_all add: mail_eq)
  moreover have "policies w' = policies w4" by (rule within_sameD [OF create_entry_policies s(5)])
  ultimately show ?thesis
    using that m2(1) create_outbox_entries_ok [OF s(5)] by auto
qed


lemma normalize_target_agents_Some:
  "normalize_target_agents ts = Some l \<longleftrightarrow> (\<exists>l0. ts = Some l0 \<and> l0 \<noteq> [] \<and> l = dedup l0)"
  by (auto simp: normalize_target_agents_def Let_def split: option.splits)

lemma outbox_targets_normalized:
  "target_agents p = normalize_target_agents ts \<Longrightarrow>
   outbox_targets p = (case ts of Some l \<Rightarrow> if l = [] then [Broadcast] else map Targeted (dedup l) | None \<Rightarrow> [Broadcast])"
  by (auto simp: outbox_targets_def normalize_target_agents_def Let_def split: option.splits)

lemma outbox_files_new:
  assumes "(n, f) \<in> set (outbox_files p action now items ts ids)" "outbox w' = d @ outbox_files p action now items ts ids" "outbox_wf w'"
  shows "map_of d n = None"
proof -
  have "fst ` set d \<inter> fst ` set (outbox_files p action now items ts ids) = {}"
    using assms(2,3) by (auto simp: outbox_wf_def dir_wf_def distinct_map)
  then show ?thesis using assms(1) by (force simp: map_of_eq_None_iff)
qed

text \<open>A message a call posted: its file is new, holds the message for the given target, and nobody has confirmed it yet.\<close>

definition newly_posted :: "outbox_target \<Rightarrow> team_store \<Rightarrow> team_store \<Rightarrow> inbox_message \<Rightarrow> bool" where
  "newly_posted t w w' m \<longleftrightarrow> map_of (outbox w) (yaml_name (message_id m)) = None
     \<and> (\<exists>e. map_of (outbox w') (yaml_name (message_id m)) = Some (Document e)
          \<and> entry_message e = m \<and> entry_target e = t \<and> delivered_to e = [])"

text \<open>
  An appended entry is found, with its target and message, in every later state; and an entry that
  a pull would select is confirmed already or returned.
\<close>

lemma appended_entry_later:
  assumes "t \<in> set (outbox_targets p)" "length ids = length (outbox_targets p)" "outbox_wf w1"
    and "outbox w1 = outbox w @ outbox_files p action now items (outbox_targets p) ids" "maintainer_reach cfg w1 w2"
  obtains e k where "map_of (outbox w2) (yaml_name k) = Some (Document e)" "entry_target e = t"
    "message_kind (entry_message e) = policy_inbox_kind_for_policy p" "message_id (entry_message e) = k"
    "newly_posted t w w1 (entry_message e)"
proof -
  obtain k where k: "(yaml_name k, Document (new_outbox_entry p action now items t k)) \<in> set (outbox_files p action now items (outbox_targets p) ids)"
  proof -
    from assms(1,2) obtain k where "(t, k) \<in> set (zip (outbox_targets p) ids)"
      by (metis in_set_impl_in_set_zip1)
    with that show ?thesis by (force simp: outbox_files_def)
  qed
  then have "(yaml_name k, Document (new_outbox_entry p action now items t k)) \<in> set (outbox w1)" using assms(4) by simp
  then have k1: "map_of (outbox w1) (yaml_name k) = Some (Document (new_outbox_entry p action now items t k))"
    using assms(3) by (simp add: outbox_wf_def dir_wf_def map_of_eq_Some_iff)
  obtain e where e: "map_of (outbox w2) (yaml_name k) = Some (Document e)"
      "entry_le (new_outbox_entry p action now items t k) e"
    using outbox_leD [OF reach_outbox_le [OF assms(5)] k1] by blast
  moreover have "newly_posted t w w1 (entry_message e)"
    using outbox_files_new [OF k assms(4,3)] k1 e(2) by (simp add: newly_posted_def entry_le_def new_outbox_entry_def)
  ultimately show ?thesis using that by (simp add: entry_le_def new_outbox_entry_def)
qed

lemma confirmed_or_pulled:
  fixes k :: inbox_id
  assumes "reachable cfg w" "fault_free w" "map_of (outbox w) (yaml_name k) = Some (Document e)"
    and "message_id (entry_message e) = k"
    and "\<not> delivered_to_agent e a \<Longrightarrow> pull_selects a (active_ids w) (seen_policy_ids a (docs (outbox w))) e"
  shows "delivered_at a (message_id (entry_message e)) w
     \<or> (\<exists>msgs w'. pull_inbox a now w = (Inr msgs, w') \<and> entry_message e \<in> set msgs)"
proof (cases "delivered_to_agent e a")
  case True
  with assms(3,4) show ?thesis by (auto simp: delivered_at_def)
next
  case False
  from fault_free_pull_returns [OF assms(1-3) assms(5) [OF this]] show ?thesis by blast
qed

text \<open>
  A successful publication creates exactly one policy, under an id no policy had, and
  appends exactly one outbox entry per target (one per distinct target agent, or a single broadcast
  when the request names none): all new, all under an action id no entry carried, all with the
  published policy as their message.  Nothing that was in the store is changed.
\<close>

theorem publish_appends_policy_and_entries:
  assumes "reachable cfg w" and "publish_new_policy cfg nm st sc now ts w = (Inr (i, n), w')"
  shows "map_of (policies w) (yaml_name i) = None
     \<and> policies w' = policies w @ [(yaml_name i, Document (published_policy nm st sc now ts i))]
     \<and> (\<exists>action ids targets.
          targets = (case ts of Some l \<Rightarrow> if l = [] then [Broadcast] else map Targeted (dedup l) | None \<Rightarrow> [Broadcast])
        \<and> action \<notin> maintainer_action_id ` set (docs (outbox w))
        \<and> n = length targets \<and> length ids = n \<and> distinct ids
        \<and> (\<forall>k \<in> set ids. map_of (outbox w) (yaml_name k) = None)
        \<and> outbox w' = outbox w @ outbox_files (published_policy nm st sc now ts i) action now [] targets ids)"
proof -
  have wf: "store_wf w" using assms(1) by (rule reachable_inv)
  let ?p = "published_policy nm st sc now ts i"
  obtain action ids where a: "map_of (policies w) (yaml_name i) = None"
    "policies w' = policies w @ [(yaml_name i, Document ?p)]"
    "action \<notin> maintainer_action_id ` set (docs (outbox w))" "n = length (outbox_targets ?p)" "length ids = n"
    "outbox w' = outbox w @ outbox_files ?p action now [] (outbox_targets ?p) ids"
    using publish_ok [OF wf assms(2)] by metis
  have "outbox_wf w'"
    using reachable_inv(1) [OF reachable_reach [OF assms(1) publish_reach [OF assms(2)]]] by (simp add: store_wf_def)
  then have "distinct (map fst (outbox w @ outbox_files ?p action now [] (outbox_targets ?p) ids))"
    using a(6) by (simp add: outbox_wf_def dir_wf_def)
  moreover have "map fst (outbox_files ?p action now [] (outbox_targets ?p) ids) = map yaml_name ids"
    using a(4,5) by (simp add: outbox_files_def split_def comp_def flip: map_map [of yaml_name snd, unfolded comp_def])
  ultimately have "distinct ids" "\<forall>k \<in> set ids. map_of (outbox w) (yaml_name k) = None"
    by (auto simp: distinct_map map_of_eq_None_iff)
  with a show ?thesis using outbox_targets_normalized [of ?p ts] by auto
qed

text \<open>
  Property C7.  A policy published for named agents reaches each of them: the publication posts a new message with the
  policy for the agent, which nobody has confirmed yet, and in every later state either the agent has confirmed this
  very message, or its next pull without faults returns it.
\<close>

theorem published_policy_reaches_targets:
  assumes "reachable cfg w" and "publish_new_policy cfg nm st sc now (Some ts) w = (Inr (i, n), w1)"
    and "a \<in> set ts" and "maintainer_reach cfg w1 w2" and "fault_free w2"
  shows "\<exists>m. newly_posted (Targeted a) w w1 m \<and> message_kind m = PolicyUpdate (published_policy nm st sc now (Some ts) i)
     \<and> (delivered_at a (message_id m) w2
        \<or> (\<exists>msgs w3. pull_inbox a now' w2 = (Inr msgs, w3) \<and> m \<in> set msgs))"
proof -
  let ?p = "published_policy nm st sc now (Some ts) i"
  have r1: "reachable cfg w1" using reachable_reach [OF assms(1) publish_reach [OF assms(2)]] .
  then have ow: "outbox_wf w1" using reachable_inv(1) by (simp add: store_wf_def)
  have t: "Targeted a \<in> set (outbox_targets ?p)"
    using assms(3) outbox_targets_normalized [of ?p "Some ts"] by auto
  obtain e k where e: "map_of (outbox w2) (yaml_name k) = Some (Document e)" "entry_target e = Targeted a"
      "message_kind (entry_message e) = policy_inbox_kind_for_policy ?p" "message_id (entry_message e) = k"
      "newly_posted (Targeted a) w w1 (entry_message e)"
    using publish_ok [OF reachable_inv(1) [OF assms(1)] assms(2)] appended_entry_later [OF t _ ow _ assms(4)]
    by metis
  have "delivered_at a (message_id (entry_message e)) w2
     \<or> (\<exists>msgs w3. pull_inbox a now' w2 = (Inr msgs, w3) \<and> entry_message e \<in> set msgs)"
    by (rule confirmed_or_pulled [OF reachable_reach [OF r1 assms(4)] assms(5) e(1,4) selects_targeted [OF e(2)]])
  then show ?thesis using e(3,5) by (auto intro!: exI [of _ "entry_message e"])
qed
text \<open>
  A policy published for everybody reaches every agent that asks while the policy is
  active: in every later state where it is, either the agent has confirmed its message or its next pull
  without faults returns it.
\<close>

theorem broadcast_policy_reaches_everyone:
  assumes "reachable cfg w" and "publish_new_policy cfg nm st sc now None w = (Inr (i, n), w1)"
    and "maintainer_reach cfg w1 w2" and "fault_free w2" and "i \<in> set (active_ids w2)"
  shows "\<exists>m. newly_posted Broadcast w w1 m \<and> message_kind m = PolicyUpdate (published_policy nm st sc now None i)
     \<and> (delivered_at a (message_id m) w2
        \<or> (\<exists>msgs w3. pull_inbox a now' w2 = (Inr msgs, w3) \<and> m \<in> set msgs))"
proof -
  let ?p = "published_policy nm st sc now None i"
  have r1: "reachable cfg w1" using reachable_reach [OF assms(1) publish_reach [OF assms(2)]] .
  then have ow: "outbox_wf w1" using reachable_inv(1) by (simp add: store_wf_def)
  have t: "Broadcast \<in> set (outbox_targets ?p)" using outbox_targets_normalized [of ?p None] by simp
  obtain e k where e: "map_of (outbox w2) (yaml_name k) = Some (Document e)" "entry_target e = Broadcast"
      "message_kind (entry_message e) = policy_inbox_kind_for_policy ?p" "message_id (entry_message e) = k"
      "newly_posted Broadcast w w1 (entry_message e)"
    using publish_ok [OF reachable_inv(1) [OF assms(1)] assms(2)] appended_entry_later [OF t _ ow _ assms(3)]
    by metis
  have "delivered_at a (message_id (entry_message e)) w2
     \<or> (\<exists>msgs w3. pull_inbox a now' w2 = (Inr msgs, w3) \<and> entry_message e \<in> set msgs)"
    by (rule confirmed_or_pulled [OF reachable_reach [OF r1 assms(3)] assms(4) e(1,4)])
       (use e assms(5) in \<open>simp add: pull_selects_def message_policy_def\<close>)
  then show ?thesis using e(3,5) by (auto intro!: exI [of _ "entry_message e"])
qed
section \<open>Deprecation\<close>

text \<open>
  A broadcast policy that is deprecated stays invisible to an agent that never saw it:
  no pull of that agent returns a broadcast message about the policy, neither its publication nor
  its deprecation.
\<close>

theorem deprecated_policy_hidden_from_new_agents:
  assumes "reachable cfg w" and "map_of (policies w) (yaml_name i) = Some (Document p)"
    and "policy_status p = PolicyDeprecated"
    and "\<forall>e \<in> set (docs (outbox w)). message_policy_id (entry_message e) = i \<longrightarrow>
           entry_target e = Broadcast \<and> \<not> offered_to_agent e a"
    and "pull_inbox a now w = (Inr msgs, w')" and "m \<in> set msgs"
  shows "message_policy_id m \<noteq> i"
proof
  assume m: "message_policy_id m = i"
  have wf: "store_wf w" using assms(1) by (rule reachable_inv)
  then have ow: "outbox_wf w" and pw: "policies_wf w" by (simp_all add: store_wf_def)
  have inactive: "i \<notin> set (active_ids w)"
  proof
    assume "i \<in> set (active_ids w)"
    then obtain q where q: "q \<in> set (docs (policies w))" "policy_status q = PolicyActive" "policy_id q = i"
      by (auto simp: active_ids_def)
    then have "map_of (policies w) (yaml_name i) = Some (Document q)"
      using dir_wf_docs_iff [of policy_prefix policy_id "policies w" q] pw by (simp add: policies_wf_def)
    with assms(2,3) q show False by simp
  qed
  have unseen: "i \<notin> set (seen_policy_ids a (docs (outbox w)))"
  proof -
    have "delivered_to_agent e a \<Longrightarrow> offered_to_agent e a" if "e \<in> set (docs (outbox w))" for e
      using that ow by (auto simp: outbox_wf_def entry_wf_def offered_to_agent_iff delivered_to_agent_iff)
    with assms(4) show ?thesis by (auto simp: seen_policy_ids_def)
  qed
  from assms(5) wf show False
  proof (cases rule: pull_inbox_cases)
    case (offers active w1)
    from assms(6) offer_loop_ok(1) [OF offers(3)] obtain e where e: "m = entry_message e"
      "e \<in> set (docs (outbox w))" "pull_selects a active (seen_policy_ids a (docs (outbox w))) e"
      by (auto simp: pull_chosen_mem)
    with assms(4) m have "entry_target e = Broadcast" "\<not> offered_to_agent e a" by auto
    with e m unseen inactive offers(2) show False
      by (auto simp: pull_selects_def message_policy_id_def Let_def split: if_splits)
  qed simp
qed


abbreviation deprecated_policy :: "time \<Rightarrow> policy \<Rightarrow> policy" where
  "deprecated_policy now p \<equiv> p\<lparr>policy_status := PolicyDeprecated, policy_updated_at := Some now,
     target_agents := normalize_target_agents (target_agents p)\<rparr>"

lemma deprecate_ok:
  assumes wf: "store_wf w" and run: "deprecate_policy cfg i now w = (Inr n, w')"
  obtains p action ids where
    "map_of (policies w) (yaml_name i) = Some (Document p)" "policy_id p = i"
    "policies w' = AList.update (yaml_name i) (Document (deprecated_policy now p)) (policies w)"
    "action \<notin> maintainer_action_id ` set (docs (outbox w))"
    "n = length (outbox_targets (deprecated_policy now p))" "length ids = n"
    "outbox w' = outbox w @ outbox_files (deprecated_policy now p) action now []
       (outbox_targets (deprecated_policy now p)) ids"
proof -
  from run obtain w1 p w2 action w3 u w4 where
    s: "io_call w = (Inr (), w1)" "read_yaml policies (yaml_name i) w1 = (Inr p, w2)"
       "mint_action_id_for_outbox cfg w2 = (Inr action, w3)"
       "write_yaml_atomic policies_update (yaml_name i) (deprecated_policy now p) w3 = (Inr u, w4)"
       "create_outbox_entries cfg (deprecated_policy now p) action now [] w4 = (Inr n, w')"
    by (auto simp: deprecate_policy_def lock_outbox_file_def io_iffs Let_def)
  have m1: "mail w1 = mail w" by (rule mail.obs_io_call [OF s(1)])
  have m2: "mail w2 = mail w" using within_sameD [OF mail.within_read_yaml s(2)] m1 by simp
  have p: "map_of (policies w) (yaml_name i) = Some (Document p)"
    using policies_dir.read_yaml_ok [OF s(2)] m1 by (simp add: mail_eq)
  then have "policy_id p = i"
    using wf dir_wf_key [of policy_prefix policy_id "policies w" "yaml_name i" p]
    by (simp add: store_wf_def policies_wf_def)
  moreover have m3: "action \<notin> maintainer_action_id ` set (docs (outbox w))" "mail w3 = mail w"
    using mint_action_ok [OF s(3)] wf m2 by (simp_all add: store_wf_def outbox_wf_def mail_eq)
  moreover have "policies w4 = AList.update (yaml_name i) (Document (deprecated_policy now p)) (policies w)"
    using policies_dir.write_yaml_atomic_ok [OF s(4)] m3(2) by (simp add: mail_eq)
  moreover have "outbox w4 = outbox w"
    using within_sameD [OF outbox_by_policies.within_write s(4)] m3(2) by (simp add: mail_eq)
  moreover have "policies w' = policies w4" by (rule within_sameD [OF create_entry_policies s(5)])
  ultimately show ?thesis using that p create_outbox_entries_ok [OF s(5)] by auto
qed

text \<open>
  Property C8.  The deprecation of a broadcast policy reaches every agent that had been offered a
  message about it: the deprecation posts a new message, which nobody has confirmed yet, and in every later state either
  the agent has confirmed this very message or its next pull without faults returns it.
\<close>

theorem deprecation_reaches_who_saw_the_policy:
  fixes k0 :: inbox_id
  assumes "reachable cfg w" and "deprecate_policy cfg i now w = (Inr n, w1)"
    and "map_of (policies w) (yaml_name i) = Some (Document p)" and "target_agents p = None"
    and "map_of (outbox w) (yaml_name k0) = Some (Document e0)" and "message_policy_id (entry_message e0) = i"
    and "offered_to_agent e0 a" and "maintainer_reach cfg w1 w2" and "fault_free w2"
  shows "\<exists>m. newly_posted Broadcast w w1 m \<and> message_policy m = deprecated_policy now p
     \<and> (delivered_at a (message_id m) w2
        \<or> (\<exists>msgs w3. pull_inbox a now' w2 = (Inr msgs, w3) \<and> m \<in> set msgs))"
proof -
  have dep: "maintainer_reach cfg w w1"
    by (meson assms(2) maintainer_step.deprecate reach_refl reach_step)
  have r1: "reachable cfg w1" using reachable_reach [OF assms(1) dep] .
  then have ow: "outbox_wf w1" using reachable_inv(1) by (simp add: store_wf_def)
  have r2: "reachable cfg w2" using reachable_reach [OF r1 assms(8)] .
  then have ow2: "outbox_wf w2" using reachable_inv(1) by (simp add: store_wf_def)
  have t: "Broadcast \<in> set (outbox_targets (deprecated_policy now p))"
    using outbox_targets_normalized [of "deprecated_policy now p" None] assms(4) by simp
  obtain action ids where d: "policy_id p = i" "length ids = length (outbox_targets (deprecated_policy now p))"
      "outbox w1 = outbox w @ outbox_files (deprecated_policy now p) action now [] (outbox_targets (deprecated_policy now p)) ids"
  proof (rule deprecate_ok [OF reachable_inv(1) [OF assms(1)] assms(2)])
    fix p' action ids
    assume "map_of (policies w) (yaml_name i) = Some (Document p')" "policy_id p' = i"
      "n = length (outbox_targets (deprecated_policy now p'))" "length ids = n"
      "outbox w1 = outbox w @ outbox_files (deprecated_policy now p') action now [] (outbox_targets (deprecated_policy now p')) ids"
    with assms(3) that show thesis by auto
  qed
  obtain e k where e: "map_of (outbox w2) (yaml_name k) = Some (Document e)" "entry_target e = Broadcast"
      "message_kind (entry_message e) = policy_inbox_kind_for_policy (deprecated_policy now p)"
      "message_id (entry_message e) = k" "newly_posted Broadcast w w1 (entry_message e)"
    using appended_entry_later [OF t d(2) ow d(3) assms(8)] .
  have msg: "message_policy (entry_message e) = deprecated_policy now p"
    using e(3) by (simp add: message_policy_def split: policy_message_type.splits)
  obtain e1 where e1: "map_of (outbox w2) (yaml_name k0) = Some (Document e1)" "entry_le e0 e1"
    using outbox_leD [OF reach_outbox_le [OF reach_trans [OF dep assms(8)]] assms(5)] by blast
  then have "entry_inbox_id e1 = k0" using outbox_wf_entry [OF ow2] by blast
  then have "e1 \<in> set (docs (outbox w2))" using e1 docs_outbox_iff [OF ow2] by simp
  then have seen: "i \<in> set (seen_policy_ids a (docs (outbox w2)))"
    using e1(2) assms(6,7) by (auto simp: seen_policy_ids_def entry_le_def image_iff intro!: bexI [of _ e1])
  have "delivered_at a (message_id (entry_message e)) w2
     \<or> (\<exists>msgs w3. pull_inbox a now' w2 = (Inr msgs, w3) \<and> entry_message e \<in> set msgs)"
    by (rule confirmed_or_pulled [OF r2 assms(9) e(1,4)])
       (use e msg seen d(1) in \<open>simp add: pull_selects_def\<close>)
  then show ?thesis using msg e(5) by blast
qed

end
