(* ===== verification/Demo.thy ===== *)
theory Demo
  imports Publishing
begin

text \<open>
  A concrete history of the Maintainer, on which the delivery theorems are applied: one policy is
  published for the agent \<open>ann\<close> and one for everybody, \<open>ann\<close> pulls both and confirms the
  first, and the second is deprecated.  The generator of the example counts upwards.  Each lemma
  evaluates one handler on one store.
\<close>

definition demo_cfg :: maintainer_config where
  "demo_cfg = \<lparr>stale_after = 100, deprecate_after = 200, id_mint_max_attempts = 3\<rparr>"

definition demo_ann :: agent_id where
  "demo_ann = Ident ''ann''"

definition demo_bob :: agent_id where
  "demo_bob = Ident ''bob''"

definition demo_naming :: policy where
  "demo_naming = published_policy ''naming'' ''s'' ''x'' 10 (Some [demo_ann]) (random_id policy_prefix 1)"

definition demo_tests :: policy where
  "demo_tests = published_policy ''tests'' ''t'' ''y'' 11 None (random_id policy_prefix 4)"

abbreviation demo_mark :: "time \<Rightarrow> offered_mark" where
  "demo_mark t \<equiv> \<lparr>offered_agent = demo_ann, first_offered_at = t, last_offered_at = t, attempts = 1\<rparr>"

definition demo_first :: "offered_mark list \<Rightarrow> delivered_mark list \<Rightarrow> outbox_entry" where
  "demo_first offers confirms =
     (new_outbox_entry demo_naming (random_id action_prefix 0) 10 [] (Targeted demo_ann) (random_id inbox_prefix 2))
       \<lparr>offered_to := offers, delivered_to := confirms\<rparr>"

definition demo_second :: "offered_mark list \<Rightarrow> delivered_mark list \<Rightarrow> outbox_entry" where
  "demo_second offers confirms =
     (new_outbox_entry demo_tests (random_id action_prefix 3) 11 [] Broadcast (random_id inbox_prefix 5))
       \<lparr>offered_to := offers, delivered_to := confirms\<rparr>"

definition demo_store :: "nat \<Rightarrow> policy list \<Rightarrow> outbox_entry list \<Rightarrow> (string \<times> agent_node) list \<Rightarrow> team_store" where
  "demo_store pos ps es as =
     \<lparr>io_faults = [], rng = of_nat, rng_pos = pos,
      policies = map (\<lambda>p. (yaml_name (policy_id p), Document p)) ps,
      outbox = map (\<lambda>e. (yaml_name (entry_inbox_id e), Document e)) es, agents = as, disputes = []\<rparr>"

definition demo_empty :: team_store where
  "demo_empty = demo_store 0 [] [] []"

definition demo_published :: team_store where
  "demo_published = demo_store 3 [demo_naming] [demo_first [] []] []"

definition demo_broadcast :: team_store where
  "demo_broadcast = demo_store 6 [demo_naming, demo_tests] [demo_first [] [], demo_second [] []] []"

definition demo_pulled :: team_store where
  "demo_pulled = demo_store 6 [demo_naming, demo_tests]
     [demo_first [demo_mark 20] [], demo_second [demo_mark 20] []] [(''ann'', AgentDir (Some []))]"

definition demo_acked :: team_store where
  "demo_acked = demo_store 6 [demo_naming, demo_tests]
     [demo_first [demo_mark 20] [\<lparr>delivered_agent = demo_ann, sent_at = 30\<rparr>], demo_second [demo_mark 20] []]
     [(''ann'', AgentDir (Some []))]"

text \<open>The deprecation of the second policy, and the notice it sends.\<close>

definition demo_notice :: outbox_entry where
  "demo_notice = new_outbox_entry (deprecated_policy 40 demo_tests) (random_id action_prefix 6) 40 [] Broadcast
     (random_id inbox_prefix 7)"

definition demo_deprecated :: team_store where
  "demo_deprecated = demo_store 8 [demo_naming, deprecated_policy 40 demo_tests]
     [demo_first [demo_mark 20] [\<lparr>delivered_agent = demo_ann, sent_at = 30\<rparr>], demo_second [demo_mark 20] [], demo_notice]
     [(''ann'', AgentDir (Some []))]"

text \<open>The third write of an ACK fails, so it confirms the first id only.\<close>

definition demo_faulty :: team_store where
  "demo_faulty = demo_pulled\<lparr>io_faults := [False, False, False, False, False, True]\<rparr>"

lemmas demo_stores = demo_notice_def demo_deprecated_def demo_faulty_def demo_empty_def demo_published_def demo_broadcast_def demo_pulled_def demo_acked_def
  demo_store_def demo_first_def demo_second_def new_outbox_entry_def demo_naming_def demo_tests_def demo_cfg_def

lemmas run_io = lock_outbox_file_def io_call_def bind_io_def return_io_def get_io_def modify_io_def
  throw_io_def lift_sum_def map_err_io_def draw_def Let_def numeral_3_eq_3

lemmas run_publish = publish_new_policy_def mint_action_id_for_outbox_def outbox_list_def mint_policy_id_def
  mint_unique_id_in_dir_def write_policy_def write_yaml_atomic_def create_outbox_entries_def
  normalize_target_agents_def outbox_targets_def mint_inbox_id_for_outbox_def outbox_write_def

lemmas run_scan = yaml_name_is_yaml reservation_of_id inbox_prefix_def [THEN arg_cong [where f = set]]
  policy_prefix_def [THEN arg_cong [where f = set]]

lemma demo_publish:
  "publish_new_policy demo_cfg ''naming'' ''s'' ''x'' 10 (Some [demo_ann]) demo_empty
     = (Inr (random_id policy_prefix 1, 1), demo_published)"
  by (simp add: demo_stores run_io run_publish)

lemma demo_publish_all:
  "publish_new_policy demo_cfg ''tests'' ''t'' ''y'' 11 None demo_published
     = (Inr (random_id policy_prefix 4, 1), demo_broadcast)"
  by (simp add: demo_stores run_io run_publish run_scan)


lemmas run_pull = pull_inbox_def ensure_agent_registered_def active_policy_id_set_def list_policies_def io_ok_def
  attempt_io_def outbox_list_def pull_chosen_def pull_selects_def seen_policy_ids_def pull_order_def
  record_offered_def read_yaml_def write_yaml_atomic_def decode_file_def message_policy_def message_policy_id_def
  event_at_def offered_to_agent_def delivered_to_agent_def then_with_def cmp_key_def

lemmas run_ack = ack_inbox_def append_delivered_def outbox_list_def read_yaml_def write_yaml_atomic_def decode_file_def
  offered_to_agent_def delivered_to_agent_def

lemma demo_pull:
  "pull_inbox demo_ann 20 demo_broadcast
     = (Inr [entry_message (demo_first [] []), entry_message (demo_second [] [])], demo_pulled)"
  by (simp add: demo_stores run_io run_pull run_scan normalize_target_agents_def demo_ann_def)

lemma demo_ack: "ack_inbox demo_ann [random_id inbox_prefix 2] 30 demo_pulled = (Inr (), demo_acked)"
  by (simp add: demo_stores run_io run_ack run_scan)

lemma demo_torn_ack:
  "fst (ack_inbox demo_ann [random_id inbox_prefix 2, random_id inbox_prefix 5] 30 demo_faulty)
     = Inl (PersistAck (random_id inbox_prefix 5) IoError)"
  by (simp add: demo_stores run_io run_ack run_scan)

lemma demo_pull_again:
  "fst (pull_inbox demo_ann 35 demo_acked) = Inr [entry_message (demo_second [] [])]"
  by (simp add: demo_stores run_io run_pull run_scan normalize_target_agents_def demo_ann_def)

lemma demo_deprecate:
  "deprecate_policy demo_cfg (random_id policy_prefix 4) 40 demo_acked = (Inr 1, demo_deprecated)"
  by (simp add: demo_stores run_io run_publish run_scan deprecate_policy_def read_yaml_def decode_file_def)

lemma demo_pull_hidden: "fst (pull_inbox demo_bob 50 demo_deprecated) = Inr []"
  by (simp add: demo_stores run_io run_pull run_scan normalize_target_agents_def demo_ann_def demo_bob_def)

lemma demo_reachable:
  "reachable demo_cfg demo_empty" "reachable demo_cfg demo_published" "reachable demo_cfg demo_broadcast"
  "reachable demo_cfg demo_pulled" "reachable demo_cfg demo_acked" "reachable demo_cfg demo_deprecated"
  "reachable demo_cfg demo_faulty"
proof -
  have "demo_empty = empty_store of_nat" by (simp add: demo_empty_def demo_store_def empty_store_def)
  then show e: "reachable demo_cfg demo_empty" unfolding reachable_def by (metis reach_refl)
  show p: "reachable demo_cfg demo_published" by (rule reachable_step [OF e maintainer_step.publish [OF demo_publish]])
  show b: "reachable demo_cfg demo_broadcast" by (rule reachable_step [OF p maintainer_step.publish [OF demo_publish_all]])
  show q: "reachable demo_cfg demo_pulled" by (rule reachable_step [OF b maintainer_step.pull [OF demo_pull]])
  show a: "reachable demo_cfg demo_acked" by (rule reachable_step [OF q maintainer_step.ack [OF demo_ack]])
  show "reachable demo_cfg demo_deprecated" by (rule reachable_step [OF a maintainer_step.deprecate [OF demo_deprecate]])
  show "reachable demo_cfg demo_faulty"
    unfolding demo_faulty_def by (rule reachable_step [OF q maintainer_step.environment])
qed


lemma demo_fault_free: "fault_free demo_broadcast" "fault_free demo_pulled" "fault_free demo_acked" "fault_free demo_deprecated"
  by (simp_all add: demo_stores)

lemma demo_reach:
  "maintainer_reach demo_cfg demo_published demo_broadcast" "maintainer_reach demo_cfg demo_pulled demo_acked"
  "maintainer_reach demo_cfg demo_acked demo_deprecated"
  by (meson reach_refl reach_step maintainer_step.publish [OF demo_publish_all] maintainer_step.ack [OF demo_ack]
      maintainer_step.deprecate [OF demo_deprecate])+

lemma demo_message_ids:
  "message_id (entry_message (demo_first os ds)) = random_id inbox_prefix 2"
  "message_id (entry_message (demo_second os ds)) = random_id inbox_prefix 5"
  by (simp_all add: demo_first_def demo_second_def new_outbox_entry_def)

section \<open>The theorems on this history\<close>

theorem pull_returns_pending_mail_witness:
  "\<exists>es. [entry_message (demo_first [] []), entry_message (demo_second [] [])] = map entry_message es
     \<and> sorted_wrt (\<lambda>x y. event_at (entry_message x) \<le> event_at (entry_message y)) es \<and> demo_second [] [] \<in> set es
     \<and> list_all (\<lambda>e. \<not> delivered_to_agent e demo_ann \<and> offered_at demo_ann (entry_inbox_id e) demo_pulled) es"
proof -
  let ?e = "demo_second [] []"
  have e: "map_of (outbox demo_broadcast) (yaml_name (random_id inbox_prefix 5 :: inbox_id)) = Some (Document ?e)"
    "\<not> delivered_to_agent ?e demo_ann \<and> entry_target ?e = Broadcast"
    "policy_status (message_policy (entry_message ?e)) \<noteq> PolicyDeprecated"
    "\<exists>q. map_of (policies demo_broadcast) (yaml_name (policy_id (message_policy (entry_message ?e)))) = Some (Document q)
        \<and> policy_status q = PolicyActive"
    by (simp_all add: demo_stores message_policy_def delivered_to_agent_def)
  obtain es where es: "[entry_message (demo_first [] []), entry_message ?e] = map entry_message es"
      "sorted_wrt (\<lambda>x y. event_at (entry_message x) < event_at (entry_message y)
          \<or> event_at (entry_message x) = event_at (entry_message y)
            \<and> (entry_created_at x < entry_created_at y
               \<or> entry_created_at x = entry_created_at y \<and> as_str (entry_inbox_id x) \<le> as_str (entry_inbox_id y))) es"
      "\<forall>e \<in> set es. \<not> delivered_to_agent e demo_ann \<and> offered_at demo_ann (entry_inbox_id e) demo_pulled"
      "?e \<in> set es"
    using pull_returns_pending_mail [OF demo_reachable(3) demo_pull] demo_fault_free(1) e unfolding Let_def by meson
  from es(2) have "sorted_wrt (\<lambda>x y. event_at (entry_message x) \<le> event_at (entry_message y)) es"
    by (rule sorted_wrt_mono_rel [rotated]) auto
  with es show ?thesis by (auto simp: list_all_iff)
qed

theorem unconfirmed_message_is_offered_again_witness:
  "\<exists>msgs w. pull_inbox demo_ann 60 demo_acked = (Inr msgs, w) \<and> entry_message (demo_second [] []) \<in> set msgs"
proof (rule unconfirmed_message_is_offered_again [OF demo_reachable(3) demo_pull _ demo_reach(2) demo_fault_free(3)])
  show "\<not> delivered_at demo_ann (message_id (entry_message (demo_second [] []))) demo_acked"
    by (simp add: delivered_at_def demo_stores delivered_to_agent_def)
qed simp

theorem confirmed_message_never_returns_witness:
  "\<exists>m. fst (pull_inbox demo_ann 35 demo_acked) = Inr [m] \<and> message_id m \<notin> set [random_id inbox_prefix 2]"
proof -
  obtain w where "pull_inbox demo_ann 35 demo_acked = (Inr [entry_message (demo_second [] [])], w)"
    using demo_pull_again by (metis prod.collapse)
  from confirmed_message_never_returns [OF demo_reachable(4) demo_ack reach_refl this] demo_pull_again
  show ?thesis by auto
qed

theorem ack_all_or_nothing_witness:
  "(\<exists>w. ack_inbox demo_ann [random_id inbox_prefix 2] 30 demo_pulled = (Inr (), w)
      \<and> delivered_at demo_ann (random_id inbox_prefix 2) w)
   \<and> (\<exists>i w. ack_inbox demo_bob [random_id inbox_prefix 2] 30 demo_pulled = (Inl (TargetMismatch demo_bob i), w)
      \<and> mail w = mail demo_pulled)"
proof -
  have ok: "\<forall>i \<in> set [random_id inbox_prefix 2]. ackable demo_ann i demo_pulled"
    and bad: "\<not> (\<forall>i \<in> set [random_id inbox_prefix 2]. ackable demo_bob i demo_pulled)"
    by (simp_all add: ackable_def targets_agent_def offered_to_agent_def demo_stores demo_ann_def demo_bob_def)
  obtain r w where bob: "ack_inbox demo_bob [random_id inbox_prefix 2] 30 demo_pulled = (r, w)" by fastforce
  moreover have "fst (ack_inbox demo_bob [random_id inbox_prefix 2] 30 demo_pulled)
      = Inl (TargetMismatch demo_bob (random_id inbox_prefix 2))"
    by (simp add: demo_stores run_io run_ack run_scan demo_ann_def demo_bob_def)
  ultimately show ?thesis
    using ok bad ack_all_or_nothing [OF demo_reachable(4) demo_fault_free(2) demo_ack]
      ack_all_or_nothing [OF demo_reachable(4) demo_fault_free(2) bob] demo_ack by auto
qed

theorem ack_retry_completes_witness:
  "\<exists>w. ack_inbox demo_ann [random_id inbox_prefix 2, random_id inbox_prefix 5] 60
         (snd (ack_inbox demo_ann [random_id inbox_prefix 2, random_id inbox_prefix 5] 30 demo_faulty)\<lparr>io_faults := []\<rparr>)
       = (Inr (), w)
     \<and> (\<forall>j \<in> set [random_id inbox_prefix 2, random_id inbox_prefix 5]. delivered_at demo_ann j w)"
proof (rule ack_retry_completes [OF demo_reachable(7)])
  let ?w = "snd (ack_inbox demo_ann [random_id inbox_prefix 2, random_id inbox_prefix 5] 30 demo_faulty)"
  show "ack_inbox demo_ann [random_id inbox_prefix 2, random_id inbox_prefix 5] 30 demo_faulty
      = (Inl (PersistAck (random_id inbox_prefix 5) IoError), ?w)"
    using demo_torn_ack by (metis prod.collapse)
  show "maintainer_reach demo_cfg ?w (?w\<lparr>io_faults := []\<rparr>)"
    by (rule reach_step [OF reach_refl maintainer_step.environment])
qed simp

theorem outbox_marks_consistent_witness:
  "distinct (map offered_agent (offered_to (demo_first [demo_mark 20] [\<lparr>delivered_agent = demo_ann, sent_at = 30\<rparr>])))
   \<and> offered_to_agent (demo_first [demo_mark 20] [\<lparr>delivered_agent = demo_ann, sent_at = 30\<rparr>]) demo_ann"
proof -
  let ?e = "demo_first [demo_mark 20] [\<lparr>delivered_agent = demo_ann, sent_at = 30\<rparr>]"
  have "map_of (outbox demo_acked) (yaml_name (entry_inbox_id ?e)) = Some (Document ?e)"
    by (simp add: demo_acked_def demo_store_def)
  moreover have "delivered_to_agent ?e demo_ann" by (simp add: delivered_to_agent_def demo_first_def)
  ultimately show ?thesis using outbox_marks_consistent [OF demo_reachable(5)] by force
qed

theorem outbox_entries_persist_witness:
  "\<exists>e'. map_of (outbox demo_deprecated) (yaml_name (random_id inbox_prefix 5 :: inbox_id)) = Some (Document e')
     \<and> entry_le (demo_second [demo_mark 20] []) e'"
  by (rule outbox_entries_persist [OF demo_reach(3)]) (simp add: demo_stores)

theorem publish_appends_policy_and_entries_witness:
  "map_of (policies demo_published) (yaml_name (random_id policy_prefix 4 :: policy_id)) = None
   \<and> (\<exists>ids. outbox demo_broadcast = outbox demo_published @
        outbox_files demo_tests (random_id action_prefix 3) 11 [] [Broadcast] ids)"
  using publish_appends_policy_and_entries [OF demo_reachable(2) demo_publish_all]
  by (auto simp: demo_stores outbox_files_def intro!: exI [of _ "[random_id inbox_prefix 5]"])

theorem published_policy_reaches_targets_witness:
  "\<exists>m. newly_posted (Targeted demo_ann) demo_empty demo_published m \<and> message_kind m = PolicyUpdate demo_naming
     \<and> (delivered_at demo_ann (message_id m) demo_broadcast
        \<or> (\<exists>msgs w. pull_inbox demo_ann 20 demo_broadcast = (Inr msgs, w) \<and> m \<in> set msgs))"
  using published_policy_reaches_targets [OF demo_reachable(1) demo_publish _ demo_reach(1) demo_fault_free(1), of demo_ann 20]
  by (simp add: demo_naming_def)

theorem broadcast_policy_reaches_everyone_witness:
  "\<exists>m. newly_posted Broadcast demo_published demo_broadcast m \<and> message_kind m = PolicyUpdate demo_tests
     \<and> (delivered_at demo_bob (message_id m) demo_broadcast
        \<or> (\<exists>msgs w. pull_inbox demo_bob 20 demo_broadcast = (Inr msgs, w) \<and> m \<in> set msgs))"
proof -
  have "random_id policy_prefix 4 \<in> set (active_ids demo_broadcast)"
    by (simp add: active_ids_def demo_stores)
  from broadcast_policy_reaches_everyone [OF demo_reachable(2) demo_publish_all reach_refl demo_fault_free(1) this, of demo_bob 20]
  show ?thesis by (simp add: demo_tests_def)
qed

theorem deprecated_policy_hidden_from_new_agents_witness:
  "\<exists>m w. pull_inbox demo_ann 50 demo_deprecated = (Inr [entry_message (demo_second [] []), m], w)
     \<and> (\<forall>msgs w'. pull_inbox demo_bob 50 demo_deprecated = (Inr msgs, w') \<longrightarrow>
          random_id policy_prefix 4 \<notin> message_policy_id ` set msgs)
     \<and> fst (pull_inbox demo_bob 50 demo_deprecated) = Inr []"
proof -
  have ann: "fst (pull_inbox demo_ann 50 demo_deprecated) = Inr [entry_message (demo_second [] []), entry_message demo_notice]"
    by (simp add: demo_stores run_io run_pull run_scan normalize_target_agents_def demo_ann_def)
  have p: "map_of (policies demo_deprecated) (yaml_name (random_id policy_prefix 4 :: policy_id))
      = Some (Document (deprecated_policy 40 demo_tests))"
    by (simp add: demo_stores)
  have unseen: "\<forall>e \<in> set (docs (outbox demo_deprecated)). message_policy_id (entry_message e) = random_id policy_prefix 4 \<longrightarrow>
      entry_target e = Broadcast \<and> \<not> offered_to_agent e demo_bob"
    by (simp add: demo_stores message_policy_id_def message_policy_def offered_to_agent_def demo_ann_def demo_bob_def)
  show ?thesis
    using ann demo_pull_hidden deprecated_policy_hidden_from_new_agents [OF demo_reachable(6) p _ unseen]
    by (auto simp: prod_eq_iff)
qed

theorem deprecation_reaches_who_saw_the_policy_witness:
  "\<exists>m. newly_posted Broadcast demo_acked demo_deprecated m \<and> message_policy m = deprecated_policy 40 demo_tests
     \<and> (delivered_at demo_ann (message_id m) demo_deprecated
        \<or> (\<exists>msgs w. pull_inbox demo_ann 50 demo_deprecated = (Inr msgs, w) \<and> m \<in> set msgs))"
proof (rule deprecation_reaches_who_saw_the_policy [OF demo_reachable(5) demo_deprecate _ _ _ _ _ reach_refl demo_fault_free(4)])
  show "map_of (policies demo_acked) (yaml_name (random_id policy_prefix 4 :: policy_id)) = Some (Document demo_tests)"
    "target_agents demo_tests = None"
    "map_of (outbox demo_acked) (yaml_name (random_id inbox_prefix 5 :: inbox_id)) = Some (Document (demo_second [demo_mark 20] []))"
    "message_policy_id (entry_message (demo_second [demo_mark 20] [])) = random_id policy_prefix 4"
    "offered_to_agent (demo_second [demo_mark 20] []) demo_ann"
    by (simp_all add: demo_stores message_policy_id_def message_policy_def offered_to_agent_def normalize_target_agents_def)
qed

end
