(* ===== verification/Sweep_Properties.thy ===== *)
theory Sweep_Properties
  imports Demo
begin

text \<open>
  The stale sweep: its report lists exactly the claims past their thresholds, and a suggestion that
  has been sent once is not sent again while the mirror it is about is unchanged.
\<close>

section \<open>Candidates\<close>

definition past_stale :: "maintainer_config \<Rightarrow> time \<Rightarrow> agent_id \<times> claim \<Rightarrow> bool" where
  "past_stale cfg now ac \<longleftrightarrow>
     claim_status (snd ac) = Active \<and> stale_after cfg \<le> now - effective_updated_at (snd ac)"

definition past_deprecate :: "maintainer_config \<Rightarrow> time \<Rightarrow> agent_id \<times> claim \<Rightarrow> bool" where
  "past_deprecate cfg now ac \<longleftrightarrow>
     claim_status (snd ac) = Stale \<and> deprecate_after cfg \<le> now - effective_updated_at (snd ac)"

lemma sweep_claims_report:
  assumes "sweep_claims cfg now acs (rep, groups) = (rep', groups')"
  shows "stale_claims rep' = stale_claims rep @ map (\<lambda>(a, c). (a, claim_id c)) (filter (past_stale cfg now) acs)
     \<and> deprecated_claims rep' = deprecated_claims rep @ map (\<lambda>(a, c). (a, claim_id c)) (filter (past_deprecate cfg now) acs)
     \<and> notifications rep' = notifications rep \<and> notification_errors rep' = notification_errors rep"
  using assms
proof (induction acs arbitrary: rep groups)
  case (Cons ac acs)
  obtain a c where ac: "ac = (a, c)" by fastforce
  obtain rep1 groups1 where 1: "sweep_claim cfg now ac (rep, groups) = (rep1, groups1)" by fastforce
  with Cons.prems have "sweep_claims cfg now acs (rep1, groups1) = (rep', groups')" by simp
  from Cons.IH [OF this] 1 ac show ?case
    by (auto simp: sweep_claim_def sweep_suggestion_def past_stale_def past_deprecate_def Let_def
        split: claim_status.splits if_splits)
qed simp

text \<open>A group is skipped, sent, or its failure is recorded; the loop itself never fails.\<close>

lemma send_group_cases:
  assumes "send_group cfg now sched (a, items) rep w = (r, w')"
  obtains (skipped) "\<forall>i \<in> set items. (a, i) \<in> set sched" "r = Inr rep" "w' = w"
  | (sent) st res n where "r = Inr (rep\<lparr>notifications := notifications rep @ [n]\<rparr>)"
      "claim_update_suggestion_locked cfg st now (Some [a])
         (sort_by (cmp_key item_claim_id) (filter (\<lambda>i. (a, i) \<notin> set sched) items)) w = (Inr res, w')"
  | (failed) e where "r = Inr (rep\<lparr>notification_errors := notification_errors rep @ [e]\<rparr>)"
proof -
  let ?kept = "filter (\<lambda>i. (a, i) \<notin> set sched) items"
  let ?items = "sort_by (cmp_key item_claim_id) ?kept"
  show ?thesis
  proof (cases "?kept = []")
    case True
    with assms skipped show ?thesis by (auto simp: send_group_def filter_empty_conv)
  next
    case False
    obtain q w1 where call: "claim_update_suggestion_locked cfg (claim_sweep_notification_statement a
        (suggested_claim_ids ?items Stale) (suggested_claim_ids ?items Deprecated)) now (Some [a]) ?items w = (q, w1)"
      by fastforce
    then show ?thesis
      using assms False sent failed
      by (cases q) (auto simp: send_group_def Let_def bind_io_def attempt_io_def return_io_def)
  qed
qed

lemma send_group_lists:
  "send_group cfg now sched g rep w = (Inr rep', w') \<Longrightarrow>
   stale_claims rep' = stale_claims rep \<and> deprecated_claims rep' = deprecated_claims rep"
  by (cases g) (auto elim: send_group_cases)

lemma send_groups_lists:
  assumes "fold_io (send_group cfg now sched) gs rep w = (Inr rep', w')"
  shows "stale_claims rep' = stale_claims rep \<and> deprecated_claims rep' = deprecated_claims rep"
  using assms
proof (induction gs arbitrary: rep w)
  case (Cons g gs)
  then obtain rep1 w1 where "send_group cfg now sched g rep w = (Inr rep1, w1)"
      "fold_io (send_group cfg now sched) gs rep1 w1 = (Inr rep', w')"
    by (auto simp: io_iffs)
  with Cons.IH send_group_lists show ?case by metis
qed simp

section \<open>What a successful listing returns\<close>

text \<open>The result of a listing depends on the mirrors alone: a fault can only make it fail.\<close>

lemma collect_claims_Cons:
  assumes "collect_claims (a # as) out w = (Inr r, w1)"
  obtains w2 cs where "agents w2 = agents w"
    "decode_dir (\<lambda>_ _. False) (claims_dir_of (map_of (agents w) (as_str a))) = Inr cs"
    "collect_claims as (out @ map (\<lambda>c. (a, c)) cs) w2 = (Inr r, w1)"
proof -
  from assms obtain w2 cs where "io_call w = (Inr (), w2)"
      "decode_dir (\<lambda>_ _. False) (claims_dir_of (map_of (agents w2) (as_str a))) = Inr cs"
      "collect_claims as (out @ map (\<lambda>c. (a, c)) cs) w2 = (Inr r, w1)"
    by (auto simp: bind_io_Inr_iff dest!: sym [where s = "Inr _"])
  moreover from this(1) have "agents w2 = agents w" by (rule agents_by_outbox.obs_io_call)
  ultimately show ?thesis using that [of w2 cs] by simp
qed

lemma collect_claims_determined:
  assumes "collect_claims as out w = (Inr r, w1)" "collect_claims as out v = (Inr s, v1)" "agents v = agents w"
  shows "s = r"
  using assms
proof (induction as arbitrary: out w v)
  case (Cons a as)
  from Cons.prems(1) show ?case
  proof (rule collect_claims_Cons)
    fix w2 cs
    assume w: "agents w2 = agents w"
      "decode_dir (\<lambda>_ _. False) (claims_dir_of (map_of (agents w) (as_str a))) = Inr cs"
      "collect_claims as (out @ map (\<lambda>c. (a, c)) cs) w2 = (Inr r, w1)"
    from Cons.prems(2) show ?case
      by (rule collect_claims_Cons) (use w Cons.IH [OF w(3)] Cons.prems(3) in auto)
  qed
qed simp

lemma list_all_claims_determined:
  assumes "list_all_claims w = (Inr r, w1)" "list_all_claims v = (Inr s, v1)" "agents v = agents w"
  shows "s = r"
proof -
  have eq: "as = as'" if "list_agent_ids w = (Inr as, w2)" "list_agent_ids v = (Inr as', v2)" for as as' w2 v2
    using that assms(3) by (auto simp: list_agent_ids_def io_iffs dest!: agents_by_outbox.obs_io_call)
  obtain as w2 as' v2 where a: "list_agent_ids w = (Inr as, w2)" "collect_claims as [] w2 = (Inr r, w1)"
      "list_agent_ids v = (Inr as', v2)" "collect_claims as' [] v2 = (Inr s, v1)"
    using assms(1,2) by (auto simp: list_all_claims_def io_iffs)
  have "agents w2 = agents w" "agents v2 = agents v"
    using within_sameD [OF agents_by_outbox.within_list_agent_ids] a(1,3) by blast+
  with a eq [OF a(1,3)] assms(3) show ?thesis using collect_claims_determined by metis
qed


section \<open>Scheduled suggestions\<close>

definition scheduled_in :: "team_store \<Rightarrow> agent_id \<Rightarrow> sweep_notification_item \<Rightarrow> bool" where
  "scheduled_in w a i \<longleftrightarrow> (a, i) \<in> set (scheduled_items (docs (outbox w)))"

lemma scheduled_in_iff:
  "scheduled_in w a i \<longleftrightarrow> (\<exists>e \<in> set (docs (outbox w)). entry_target e = Targeted a \<and> i \<in> set (sweep_items e))"
  by (auto simp: scheduled_in_def scheduled_items_def split: outbox_target.splits)
     (metis (mono_tags, lifting) imageI outbox_target.simps(6) set_map)

lemma scheduled_mono:
  assumes "outbox_le w w'" "outbox_wf w" "outbox_wf w'" "scheduled_in w a i"
  shows "scheduled_in w' a i"
proof -
  from assms(4) obtain e where e: "e \<in> set (docs (outbox w))" "entry_target e = Targeted a" "i \<in> set (sweep_items e)"
    by (auto simp: scheduled_in_iff)
  then obtain e' where e': "map_of (outbox w') (yaml_name (entry_inbox_id e)) = Some (Document e')" "entry_le e e'"
    using outbox_leD [OF assms(1)] docs_outbox_iff [OF assms(2)] by blast
  then have "e' \<in> set (docs (outbox w'))" by (simp add: docs_outbox_iff [OF assms(3)] entry_le_def)
  with e e' show ?thesis by (auto simp: scheduled_in_iff entry_le_def)
qed

lemma suggestion_schedules:
  assumes wf: "store_wf w" and run: "claim_update_suggestion_locked cfg st now (Some [a]) items w = (Inr res, w')"
    and i: "i \<in> set items"
  shows "scheduled_in w' a i"
proof -
  from run obtain action pid w2 n where
    call: "create_outbox_entries cfg
      \<lparr>policy_id = pid, policy_message_type = ClaimAttributeUpdateType, policy_name = claim_attribute_policy_name,
       policy_statement = st, policy_scope = claim_attribute_policy_scope, policy_status = PolicyActive,
       policy_created_at = now, policy_updated_at = None, target_agents = normalize_target_agents (Some [a])\<rparr>
      action now items w2 = (Inr n, w')"
    by (auto simp: claim_update_suggestion_locked_def io_iffs Let_def)
  obtain p where s: "target_agents p = normalize_target_agents (Some [a])"
      "create_outbox_entries cfg p action now items w2 = (Inr n, w')"
    by (rule that [OF _ call]) simp
  obtain ids where ids: "length ids = length (outbox_targets p)"
      "outbox w' = outbox w2 @ outbox_files p action now items (outbox_targets p) ids"
    using create_outbox_entries_ok [OF s(2)] by auto
  have "outbox_targets p = [Targeted a]" using outbox_targets_normalized [OF s(1)] by simp
  with ids obtain k where "new_outbox_entry p action now items (Targeted a) k \<in> set (docs (outbox w'))"
    by (cases ids) (auto simp: outbox_files_def)
  then show ?thesis using i by (force simp: scheduled_in_iff new_outbox_entry_def)
qed

lemma send_group_schedules:
  assumes wf: "store_wf w" and sched: "\<forall>(a, i) \<in> set sched. scheduled_in w a i"
    and run: "send_group cfg now sched (a, items) rep w = (Inr rep', w')"
    and ok: "notification_errors rep' = notification_errors rep"
  shows "\<forall>i \<in> set items. scheduled_in w' a i"
  using run
proof (cases rule: send_group_cases)
  case skipped
  with sched show ?thesis by auto
next
  case (failed e)
  with ok show ?thesis by simp
next
  case (sent st res n)
  have "outbox_le w w'" by (rule withinD [OF claim_update_suggestion_locked_le sent(2)])
  moreover have "store_wf w'" by (rule within_keepsD [OF suggestion_locked_wf sent(2) wf])
  ultimately have "scheduled_in w' a i" if "(a, i) \<in> set sched" for i
    using that sched scheduled_mono [of w w' a i] wf by (auto simp: store_wf_def)
  moreover have "scheduled_in w' a i" if "i \<in> set items" "(a, i) \<notin> set sched" for i
    using suggestion_schedules [OF wf sent(2)] that by auto
  ultimately show ?thesis by blast
qed

lemma send_group_frame:
  assumes "send_group cfg now sched g rep w = (r, w')" "store_wf w"
  shows "outbox_le w w' \<and> store_wf w' \<and> (\<forall>rep'. r = Inr rep' \<longrightarrow> (\<exists>es. notification_errors rep' = notification_errors rep @ es))"
proof -
  have "within outbox_le (send_group cfg now sched g rep)"
    unfolding send_group_def Let_def by (intro outbox_le.within_intros claim_update_suggestion_locked_le)
  then have "outbox_le w w'" using assms(1) by (rule withinD)
  moreover have "within (keeps store_wf) (send_group cfg now sched g rep)"
    unfolding send_group_def Let_def by (intro keeps.within_intros suggestion_locked_wf)
  then have "store_wf w'" using assms by (rule within_keepsD)
  moreover have "\<exists>es. notification_errors rep' = notification_errors rep @ es" if "r = Inr rep'" for rep'
    using assms(1) that by (cases g) (auto elim: send_group_cases)
  ultimately show ?thesis by blast
qed

lemma send_groups_schedule:
  assumes "fold_io (send_group cfg now sched) gs rep w = (Inr rep', w')" "store_wf w"
    and "\<forall>(a, i) \<in> set sched. scheduled_in w a i" and "notification_errors rep' = []"
  shows "outbox_le w w' \<and> store_wf w' \<and> notification_errors rep = [] \<and>
         (\<forall>(a, items) \<in> set gs. \<forall>i \<in> set items. scheduled_in w' a i)"
  using assms
proof (induction gs arbitrary: rep w)
  case (Cons g gs)
  then obtain rep1 w1 where 1: "send_group cfg now sched g rep w = (Inr rep1, w1)"
      and 2: "fold_io (send_group cfg now sched) gs rep1 w1 = (Inr rep', w')"
    by (auto simp: io_iffs)
  from send_group_frame [OF 1] Cons.prems(2)
  obtain es where f: "outbox_le w w1" "store_wf w1" "notification_errors rep1 = notification_errors rep @ es" by auto
  have sched1: "\<forall>(a, i) \<in> set sched. scheduled_in w1 a i"
    using Cons.prems(2,3) f scheduled_mono by (fastforce simp: store_wf_def)
  note IH = Cons.IH [OF 2 f(2) sched1 Cons.prems(4)]
  then have w': "outbox_le w1 w'" "store_wf w'" "notification_errors rep1 = []" by blast+
  obtain a items where g: "g = (a, items)" by fastforce
  have "\<forall>i \<in> set items. scheduled_in w1 a i"
    using send_group_schedules [OF Cons.prems(2,3) 1 [unfolded g]] f(3) w'(3) by simp
  then have "\<forall>i \<in> set items. scheduled_in w' a i"
    using scheduled_mono [OF w'(1)] f(2) w'(2) by (auto simp: store_wf_def)
  moreover have "outbox_le w w'" using f(1) w'(1) by (rule outbox_le.frame_trans)
  ultimately show ?case using IH g f(3) by auto
qed (auto simp: outbox_le.frame_refl)

lemma send_groups_nothing:
  assumes "\<forall>(a, items) \<in> set gs. \<forall>i \<in> set items. (a, i) \<in> set sched"
  shows "fold_io (send_group cfg now sched) gs rep w = (Inr rep, w)"
  using assms
proof (induction gs)
  case (Cons g gs)
  obtain a items where g: "g = (a, items)" by fastforce
  with Cons.prems have "filter (\<lambda>i. (a, i) \<notin> set sched) items = []" by (auto simp: filter_empty_conv)
  with g Cons show ?case by (simp add: send_group_def bind_io_def return_io_def)
qed (simp add: return_io_def)

section \<open>The sweep\<close>

lemma run_stale_sweep_ok:
  assumes run: "run_stale_sweep cfg now w = (Inr rep, w')" and wf: "store_wf w"
  obtains claims w0 rep0 groups where "list_all_claims w = (Inr claims, w0)"
    "sweep_claims cfg now claims (empty_report, []) = (rep0, groups)"
    "groups = [] \<Longrightarrow> rep = rep0 \<and> mail w' = mail w"
    "groups \<noteq> [] \<Longrightarrow> \<exists>w1. mail w1 = mail w \<and>
       fold_io (send_group cfg now (scheduled_items (docs (outbox w)))) groups rep0 w1 = (Inr rep, w')"
proof -
  from run obtain claims w0 where 1: "list_all_claims w = (Inr claims, w0)"
      "(case sweep_claims cfg now claims (empty_report, []) of (report, groups) \<Rightarrow>
          if groups = [] then return_io report else send_sweep_notifications cfg now groups report) w0 = (Inr rep, w')"
    by (auto simp: run_stale_sweep_def bind_io_Inr_iff)
  have m0: "mail w0 = mail w" using within_sameD [OF mail.within_list_all_claims 1(1)] .
  obtain rep0 groups where 2: "sweep_claims cfg now claims (empty_report, []) = (rep0, groups)" by fastforce
  have "\<exists>w1. mail w1 = mail w \<and>
      fold_io (send_group cfg now (scheduled_items (docs (outbox w)))) groups rep0 w1 = (Inr rep, w')" if "groups \<noteq> []"
  proof -
    from 1(2) 2 that obtain u w1 es w2 where s: "io_call w0 = (Inr u, w1)" "outbox_list w1 = (Inr es, w2)"
        "fold_io (send_group cfg now (scheduled_items es)) groups rep0 w2 = (Inr rep, w')"
      by (auto simp: send_sweep_notifications_def lock_outbox_file_def bind_io_Inr_iff)
    have m1: "mail w1 = mail w" using mail.obs_io_call [OF s(1)] m0 by simp
    then have "outbox_wf w1" using wf by (simp add: store_wf_def outbox_wf_def mail_eq)
    from outbox_list_ok [OF this s(2)] m1 s(3) show ?thesis by (auto simp: mail_eq)
  qed
  with that [OF 1(1) 2] 1(2) 2 m0 show ?thesis by (cases "groups = []") auto
qed

text \<open>
  A sweep that succeeds reports exactly the mirrored claims past their threshold, in the
  order of the listing: the active ones not touched for \<open>stale_after\<close>, and the stale ones not touched
  for \<open>deprecate_after\<close>.
\<close>

theorem sweep_reports_exactly_the_overdue_claims:
  assumes "reachable cfg w" and "list_all_claims w = (Inr claims, w0)" and "run_stale_sweep cfg now w = (Inr rep, w')"
  shows "stale_claims rep = map (\<lambda>(a, c). (a, claim_id c)) (filter (past_stale cfg now) claims)
     \<and> deprecated_claims rep = map (\<lambda>(a, c). (a, claim_id c)) (filter (past_deprecate cfg now) claims)"
  using assms(3) reachable_inv(1) [OF assms(1)]
proof (rule run_stale_sweep_ok)
  fix claims' w1 rep0 groups
  assume s: "list_all_claims w = (Inr claims', w1)" "sweep_claims cfg now claims' (empty_report, []) = (rep0, groups)"
    "groups = [] \<Longrightarrow> rep = rep0 \<and> mail w' = mail w"
    "groups \<noteq> [] \<Longrightarrow> \<exists>w1. mail w1 = mail w \<and>
       fold_io (send_group cfg now (scheduled_items (docs (outbox w)))) groups rep0 w1 = (Inr rep, w')"
  have "stale_claims rep = stale_claims rep0 \<and> deprecated_claims rep = deprecated_claims rep0"
    using s(3,4) send_groups_lists by (cases "groups = []") blast+
  with sweep_claims_report [OF s(2)] s(1) assms(2) show ?thesis by (simp add: empty_report_def)
qed

text \<open>
  Property C10.  A sweep does not repeat itself.  After a sweep that sent everything it had to, a
  second one for the same instant over unchanged mirrors writes nothing and notifies nobody, whatever
  the Maintainer did in between: pulls, confirmations and other publications included.
\<close>

theorem sweep_never_repeats_a_suggestion:
  assumes "reachable cfg w" and "run_stale_sweep cfg now w = (Inr rep, w1)" and "notification_errors rep = []"
    and "maintainer_reach cfg w1 w2" and "agents w2 = agents w" and "run_stale_sweep cfg now w2 = (Inr rep2, w3)"
  shows "mail w3 = mail w2 \<and> notifications rep2 = []"
proof -
  have wf: "store_wf w" by (rule reachable_inv(1) [OF assms(1)])
  have wf1: "store_wf w1" by (rule within_keepsD [OF run_stale_sweep_wf assms(2) wf])
  have wf2: "store_wf w2" by (rule reach_store_wf [OF assms(4) wf1])
  obtain claims w0 rep0 groups where 1: "list_all_claims w = (Inr claims, w0)"
      "sweep_claims cfg now claims (empty_report, []) = (rep0, groups)"
      "groups \<noteq> [] \<Longrightarrow> \<exists>v. mail v = mail w \<and>
         fold_io (send_group cfg now (scheduled_items (docs (outbox w)))) groups rep0 v = (Inr rep, w1)"
    using run_stale_sweep_ok [OF assms(2) wf] by metis
  obtain claims2 v0 rep0' groups' where 2: "list_all_claims w2 = (Inr claims2, v0)"
      "sweep_claims cfg now claims2 (empty_report, []) = (rep0', groups')"
      "groups' = [] \<Longrightarrow> rep2 = rep0' \<and> mail w3 = mail w2"
      "groups' \<noteq> [] \<Longrightarrow> \<exists>v. mail v = mail w2 \<and>
         fold_io (send_group cfg now (scheduled_items (docs (outbox w2)))) groups' rep0' v = (Inr rep2, w3)"
    using run_stale_sweep_ok [OF assms(6) wf2] by metis
  have same: "rep0' = rep0" "groups' = groups"
    using list_all_claims_determined [OF 1(1) 2(1) assms(5)] 1(2) 2(2) by simp_all
  have none: "notifications rep0 = []" using sweep_claims_report [OF 1(2)] by (simp add: empty_report_def)
  show ?thesis
  proof (cases "groups = []")
    case True
    with 2(3) same none show ?thesis by simp
  next
    case False
    then obtain v where v: "mail v = mail w"
        "fold_io (send_group cfg now (scheduled_items (docs (outbox w)))) groups rep0 v = (Inr rep, w1)" using 1(3) by blast
    have "store_wf v" using wf v(1) by (simp add: store_wf_def outbox_wf_def policies_wf_def mail_eq)
    moreover have "\<forall>(a, i) \<in> set (scheduled_items (docs (outbox w))). scheduled_in v a i"
      using v(1) by (auto simp: scheduled_in_def mail_eq)
    ultimately have "\<forall>(a, items) \<in> set groups. \<forall>i \<in> set items. scheduled_in w1 a i"
      using send_groups_schedule [OF v(2)] assms(3) by blast
    then have "\<forall>(a, items) \<in> set groups. \<forall>i \<in> set items. scheduled_in w2 a i"
      using scheduled_mono [OF reach_outbox_le [OF assms(4)]] wf1 wf2 by (auto simp: store_wf_def)
    then have "fold_io (send_group cfg now (scheduled_items (docs (outbox w2)))) groups rep0 u = (Inr rep0, u)" for u
      by (intro send_groups_nothing) (auto simp: scheduled_in_def)
    with 2(4) same False none show ?thesis by auto
  qed
qed

section \<open>A concrete sweep\<close>

definition demo_claim :: claim where
  "demo_claim = \<lparr>claim_id = random_id claim_prefix 9, claim_name = ''c'', claim_statement = ''s'', claim_scope = ''x'',
     claim_holder = demo_ann, claim_confidence = High, claim_status = Active, claim_created_at = 0,
     claim_updated_at = None, source_claim_ids = [], evidence_summary = ''e''\<rparr>"

definition demo_mirrors :: "(string \<times> agent_node) list" where
  "demo_mirrors = [(''ann'', AgentDir (Some [(yaml_name (random_id claim_prefix 9 :: claim_id), Document demo_claim)]))]"

definition demo_uploaded :: team_store where
  "demo_uploaded = demo_store 0 [] [] demo_mirrors"

definition demo_item :: sweep_notification_item where
  "demo_item = \<lparr>item_claim_id = random_id claim_prefix 9, item_effective_updated_at = 0, suggested_status = Stale\<rparr>"

definition demo_advice :: policy where
  "demo_advice = \<lparr>policy_id = random_id policy_prefix 1, policy_message_type = ClaimAttributeUpdateType,
     policy_name = claim_attribute_policy_name,
     policy_statement = claim_sweep_notification_statement demo_ann [random_id claim_prefix 9] [],
     policy_scope = claim_attribute_policy_scope, policy_status = PolicyActive,
     policy_created_at = 150, policy_updated_at = None, target_agents = Some [demo_ann]\<rparr>"

definition demo_swept :: team_store where
  "demo_swept = demo_store 3 [demo_advice]
     [new_outbox_entry demo_advice (random_id action_prefix 0) 150 [demo_item] (Targeted demo_ann) (random_id inbox_prefix 2)]
     demo_mirrors"

definition demo_report :: claim_sweep_report where
  "demo_report = \<lparr>stale_claims = [(demo_ann, random_id claim_prefix 9)], deprecated_claims = [],
     notifications = [\<lparr>notified_agent = demo_ann, notified_stale = [random_id claim_prefix 9], notified_deprecated = [],
       notified_policy = random_id policy_prefix 1, notified_pushed = 1\<rparr>], notification_errors = []\<rparr>"

lemmas sweep_stores = demo_uploaded_def demo_swept_def demo_advice_def demo_item_def demo_report_def demo_mirrors_def
  demo_claim_def demo_store_def new_outbox_entry_def demo_cfg_def demo_ann_def

lemmas run_sweep = run_stale_sweep_def list_all_claims_def list_agent_ids_def scan_agent_ids_def
  sweep_claim_def sweep_suggestion_def send_sweep_notifications_def send_group_def scheduled_items_def
  claim_update_suggestion_locked_def claims_dir_of_def registered_node_def agent_id_new_def agent_char_def
  effective_updated_at_def attempt_io_def map_filter_def is_ascii_lowercase_def is_ascii_digit_def
  suggested_claim_ids_def empty_report_def claim_prefix_def [THEN arg_cong [where f = set]]

lemma demo_upload: "upload_claim demo_claim demo_empty = (Inr (), demo_uploaded)"
  by (simp add: sweep_stores demo_empty_def run_io upload_claim_def ensure_agent_registered_def put_mirror_def claims_dir_of_def)

lemma demo_list: "list_all_claims demo_uploaded = (Inr [(demo_ann, demo_claim)], demo_uploaded)"
  by (simp add: sweep_stores run_io run_scan run_sweep)

lemma demo_sweep: "run_stale_sweep demo_cfg 150 demo_uploaded = (Inr demo_report, demo_swept)"
  by (simp add: sweep_stores run_io run_publish run_scan run_sweep)

lemma demo_sweep_again:
  "run_stale_sweep demo_cfg 150 demo_swept = (Inr (demo_report\<lparr>notifications := []\<rparr>), demo_swept)"
  by (simp add: sweep_stores run_io run_publish run_scan run_sweep)

lemma demo_uploaded_reachable: "reachable demo_cfg demo_uploaded"
  by (rule reachable_step [OF demo_reachable(1) maintainer_step.upload [OF demo_upload]])

theorem sweep_reports_exactly_the_overdue_claims_witness:
  "stale_claims demo_report = map (\<lambda>(a, c). (a, claim_id c)) (filter (past_stale demo_cfg 150) [(demo_ann, demo_claim)])
   \<and> deprecated_claims demo_report = map (\<lambda>(a, c). (a, claim_id c)) (filter (past_deprecate demo_cfg 150) [(demo_ann, demo_claim)])"
  by (rule sweep_reports_exactly_the_overdue_claims [OF demo_uploaded_reachable demo_list demo_sweep])

theorem sweep_never_repeats_a_suggestion_witness:
  "\<exists>rep w. run_stale_sweep demo_cfg 150 demo_swept = (Inr rep, w) \<and> mail w = mail demo_swept \<and> notifications rep = []"
proof -
  have "notification_errors demo_report = []" "agents demo_swept = agents demo_uploaded"
    by (simp_all add: sweep_stores)
  from sweep_never_repeats_a_suggestion [OF demo_uploaded_reachable demo_sweep this(1) reach_refl this(2) demo_sweep_again]
  show ?thesis using demo_sweep_again by blast
qed

end
