(* ===== verification/Dispute_Reports.thy ===== *)
theory Dispute_Reports
  imports Sweep_Properties
begin

text \<open>
  Dispute reports: the record of a dispute is written once, by the first report that passes the
  checks; repeating that report changes nothing and a different report under the same id is refused.
\<close>

section \<open>What a report writes\<close>

text \<open>The directory only ever gains files, and a record never changes.\<close>

definition disputes_grow :: "team_store \<Rightarrow> team_store \<Rightarrow> bool" where
  "disputes_grow w w' \<longleftrightarrow> map_of (disputes w) \<subseteq>\<^sub>m map_of (disputes w')"

interpretation disputes_grow: io_frame disputes_grow
  by unfold_locales (auto simp: disputes_grow_def intro: map_le_trans)

lemma same_disputes_grow: "within (same disputes) m \<Longrightarrow> within disputes_grow m"
  by (auto simp: within_def same_def disputes_grow_def)

lemma validate_claims_disputes: "within (same disputes) (validate_new_dispute_direct_claims d)"
  by (rule disputes_dir.within_validate_claims)

lemma read_dispute_outcome:
  assumes "read_dispute i w = (r, w')"
  shows "disputes w' = disputes w" "r = Inr x \<Longrightarrow> map_of (disputes w) (yaml_name i) = Some (Document x)"
    "r = Inl (NotFound n) \<Longrightarrow> map_of (disputes w) (yaml_name i) = None"
proof -
  show d: "disputes w' = disputes w" using assms disputes_dir.read_yaml_frame by (simp add: read_dispute_def)
  show "r = Inr x \<Longrightarrow> map_of (disputes w) (yaml_name i) = Some (Document x)"
    using assms disputes_dir.read_yaml_ok by (auto simp: read_dispute_def)
  show "r = Inl (NotFound n) \<Longrightarrow> map_of (disputes w) (yaml_name i) = None"
    using assms d by (auto simp: read_dispute_def read_yaml_def io_iffs decode_file_def io_call_def
        split: option.splits yaml_file.splits list.splits if_splits)
qed

lemma record_new_dispute:
  assumes run: "bind_io (validate_new_dispute_direct_claims d) (\<lambda>_.
        write_dispute \<lparr>record_dispute = d, record_resolution = None\<rparr>) w = (r, w')"
    and none: "map_of (disputes w) (yaml_name (dispute_id d)) = None"
    and ok: "validate_agent_report d = Inr ()"
  shows "(\<exists>e. r = Inl e \<and> disputes w' = disputes w) \<or> (r = Inr () \<and> disputes w'
      = disputes w @ [(yaml_name (dispute_id d), Document \<lparr>record_dispute = d, record_resolution = None\<rparr>)])"
  using run validate_claims_disputes
proof (cases rule: bind_same_cases)
  case (continued u w1)
  let ?rec = "\<lparr>record_dispute = d, record_resolution = None\<rparr>"
  have "validate_dispute_record ?rec"
    using ok by (auto simp: validate_dispute_record_def validate_agent_report_def split: if_splits dispute_status.splits)
  with continued(3) have "write_yaml_atomic disputes_update (yaml_name (dispute_id d)) ?rec w1 = (r, w')"
    by (simp add: write_dispute_def)
  then show ?thesis
  proof (cases rule: disputes_dir.write_yaml_atomic_cases)
    case written
    moreover have "AList.update n v d = d @ [(n, v)]" if "map_of d n = None" for n v and d :: "maintainer_dispute_record dir"
      using that by (induction d) (auto split: if_splits)
    ultimately show ?thesis using continued(2) none by simp
  qed (use continued(2) in simp)
qed simp

text \<open>A report fails without a trace, repeats a known one, or writes a new open record.\<close>

lemma report_dispute_cases:
  assumes run: "report_dispute d w = (r, w')"
  obtains (refused) e where "r = Inl e" "disputes w' = disputes w"
  | (known) x where "r = Inr ()" "disputes w' = disputes w"
      "map_of (disputes w) (yaml_name (dispute_id d)) = Some (Document x)" "same_report_payload (record_dispute x) d"
  | (recorded) "r = Inr ()" "map_of (disputes w) (yaml_name (dispute_id d)) = None" "validate_agent_report d = Inr ()"
      "disputes w' = disputes w @ [(yaml_name (dispute_id d), Document \<lparr>record_dispute = d, record_resolution = None\<rparr>)]"
proof (cases "validate_agent_report d")
  case (Inl e)
  with run refused show ?thesis by (auto simp: report_dispute_def throw_io_def)
next
  case ok: (Inr u)
  from run [unfolded report_dispute_def] ok obtain k where run1: "bind_io io_call (\<lambda>_. bind_io (attempt_io (read_dispute (dispute_id d))) k) w = (r, w')"
    and k: "k = (\<lambda>q. case q of
              Inr existing \<Rightarrow>
                if \<not> same_report_payload (record_dispute existing) d then throw_io AnalysisConflict else return_io ()
            | Inl (NotFound _) \<Rightarrow>
                bind_io (validate_new_dispute_direct_claims d) (\<lambda>_.
                  write_dispute \<lparr>record_dispute = d, record_resolution = None\<rparr>)
            | Inl e \<Rightarrow> throw_io e)"
    by simp
  from run1 disputes_dir.within_io_call show ?thesis
  proof (cases rule: bind_same_cases)
    case c1: (continued u1 w1)
    then obtain q w2 where q: "read_dispute (dispute_id d) w1 = (q, w2)" "k q w2 = (r, w')"
      by (auto simp: bind_io_def attempt_io_def split: prod.splits)
    note out = read_dispute_outcome [OF q(1)]
    show ?thesis
    proof (cases q)
      case (Inr x)
      with q(2) out(1,2) c1(2) show ?thesis
        by (cases "same_report_payload (record_dispute x) d") (auto simp: k intro: refused known)
    next
      case (Inl e)
      show ?thesis
      proof (cases "\<exists>n. e = NotFound n")
        case True
        with Inl out(3) c1(2) have none: "map_of (disputes w2) (yaml_name (dispute_id d)) = None" using out(1) by auto
        from True Inl q(2) record_new_dispute [OF _ none] ok out(1) c1(2) none show ?thesis
          by (auto simp: k intro: refused recorded)
      next
        case False
        with Inl q(2) out(1) c1(2) show ?thesis by (auto simp: k intro: refused split: team_error.splits)
      qed
    qed
  qed (use refused in simp)
qed

section \<open>Records over time\<close>

lemma report_disputes_grow: "within disputes_grow (report_dispute d)"
  by (rule withinI, erule report_dispute_cases)
     (auto simp: disputes_grow_def map_le_def map_add_def split: option.splits)

lemma environment_disputes_grow: "disputes_grow w (w\<lparr>io_faults := fs\<rparr>)"
  by (simp add: disputes_grow_def)

lemmas disputes_kept = outside_disputes.within_publish outside_disputes.within_deprecate
  outside_disputes.within_suggestion outside_disputes.within_pull outside_disputes.within_ack
  outside_disputes.within_stale_sweep outside_disputes.within_upload_claim

lemma step_disputes_grow: "maintainer_step cfg w w' \<Longrightarrow> disputes_grow w w'"
  by (erule maintainer_stepE)
     (auto dest: withinD [OF report_disputes_grow] disputes_kept [THEN same_disputes_grow, THEN withinD]
        intro: environment_disputes_grow)

lemma reach_disputes_grow: "maintainer_reach cfg w w' \<Longrightarrow> disputes_grow w w'"
  using reach_frame [OF disputes_grow.io_frame_axioms, of cfg w w'] step_disputes_grow by blast

lemma report_validates: "report_dispute d w = (Inr u, w') \<Longrightarrow> validate_agent_report d = Inr ()"
  by (auto simp: report_dispute_def split: sum.splits)

lemma reported:
  assumes "report_dispute d w = (Inr u, w')"
  obtains x where "map_of (disputes w') (yaml_name (dispute_id d)) = Some (Document x)" "same_report_payload (record_dispute x) d"
  using assms
proof (cases rule: report_dispute_cases)
  case recorded
  then have "map_of (disputes w') (yaml_name (dispute_id d)) = Some (Document \<lparr>record_dispute = d, record_resolution = None\<rparr>)"
    by (simp add: map_add_def)
  then show ?thesis by (rule that) (simp add: same_report_payload_def)
qed (use that in auto)

text \<open>
  Property C11.  The first accepted report of a dispute stands.  In every later state its record is
  there with the reported content; a report under the same id, whatever it says and whatever fails,
  leaves the records as they are and is accepted only if it says the same; and repeating the original
  report without faults succeeds.
\<close>

theorem first_dispute_report_stands:
  assumes "report_dispute d w = (Inr (), w1)" and "maintainer_reach cfg w1 w2"
  shows "\<exists>x. map_of (disputes w2) (yaml_name (dispute_id d)) = Some (Document x) \<and> same_report_payload (record_dispute x) d
     \<and> (\<forall>d' r w3. dispute_id d' = dispute_id d \<longrightarrow> report_dispute d' w2 = (r, w3) \<longrightarrow>
           disputes w3 = disputes w2 \<and> (r = Inr () \<longrightarrow> same_report_payload d d'))
     \<and> (fault_free w2 \<longrightarrow> report_dispute d w2 = (Inr (), w2))"
proof -
  obtain x where x1: "map_of (disputes w1) (yaml_name (dispute_id d)) = Some (Document x)"
      and pay: "same_report_payload (record_dispute x) d"
    using reported [OF assms(1)] .
  then have x2: "map_of (disputes w2) (yaml_name (dispute_id d)) = Some (Document x)"
    using reach_disputes_grow [OF assms(2)] by (auto simp: disputes_grow_def map_le_def dom_def)
  have "disputes w3 = disputes w2 \<and> (r = Inr () \<longrightarrow> same_report_payload d d')"
    if "dispute_id d' = dispute_id d" "report_dispute d' w2 = (r, w3)" for d' r w3
    using that(2) by (cases rule: report_dispute_cases) (use that(1) x2 pay in \<open>auto simp: same_report_payload_def\<close>)
  moreover have "report_dispute d w2 = (Inr (), w2)" if "fault_free w2"
    using that x2 pay report_validates [OF assms(1)]
    by (simp add: report_dispute_def read_dispute_def read_yaml_def decode_file_def bind_io_def attempt_io_def
        get_io_def lift_sum_def return_io_def)
  ultimately show ?thesis using x2 pay by blast
qed

section \<open>Deprecated claims\<close>

lemma decode_dir_mem:
  "decode_dir (\<lambda>_ _. False) d = Inr xs \<Longrightarrow> (n, Document x) \<in> set d \<Longrightarrow> is_yaml_file_name n \<Longrightarrow> x \<in> set xs"
  by (induction d arbitrary: xs) (auto split: if_splits yaml_file.splits sum.splits)

lemma fault_free_collect:
  assumes "fault_free w"
  shows "collect_team_claims ((n, node) # ns) out w =
     (case node of
        AgentDir (Some d) \<Rightarrow>
          (case agent_id_new n of
             Inl _ \<Rightarrow> collect_team_claims ns out w
           | Inr a \<Rightarrow> (case decode_dir (\<lambda>_ _. False) d of
                Inl e \<Rightarrow> (Inl e, w)
              | Inr cs \<Rightarrow> collect_team_claims ns (out @ map (\<lambda>c. (a, c)) cs) w))
      | _ \<Rightarrow> collect_team_claims ns out w)"
  using assms
  by (auto simp: bind_io_def lift_sum_def throw_io_def return_io_def split: agent_node.split option.split sum.split)

lemma collect_team_claims_mem:
  assumes "collect_team_claims ns out w = (Inr cs, w')" "fault_free w"
  shows "set out \<subseteq> set cs" "(n, AgentDir (Some dir)) \<in> set ns \<Longrightarrow> agent_id_new n = Inr a \<Longrightarrow>
           (m, Document c) \<in> set dir \<Longrightarrow> is_yaml_file_name m \<Longrightarrow> (a, c) \<in> set cs"
proof -
  have "set out \<subseteq> set cs \<and> ((n, AgentDir (Some dir)) \<in> set ns \<longrightarrow> agent_id_new n = Inr a \<longrightarrow>
           (m, Document c) \<in> set dir \<longrightarrow> is_yaml_file_name m \<longrightarrow> (a, c) \<in> set cs)"
    using assms
  proof (induction ns arbitrary: out)
    case (Cons x ns)
    obtain n' node where x: "x = (n', node)" by fastforce
    note step = Cons.prems(1) [unfolded x fault_free_collect [OF Cons.prems(2)]]
    show ?case
    proof (cases "\<exists>b d. agent_id_new n' = Inr b \<and> node = AgentDir (Some d)")
      case True
      then obtain b d where bd: "agent_id_new n' = Inr b" "node = AgentDir (Some d)" by blast
      with step obtain xs where xs: "decode_dir (\<lambda>_ _. False) d = Inr xs"
          "collect_team_claims ns (out @ map (\<lambda>c. (b, c)) xs) w = (Inr cs, w')"
        by (cases "decode_dir (\<lambda>_ _. False) d") auto
      from Cons.IH [OF xs(2) Cons.prems(2)] bd x decode_dir_mem [OF xs(1), of m c] show ?thesis by auto
    next
      case False
      with step have "collect_team_claims ns out w = (Inr cs, w')"
        by (auto split: agent_node.splits option.splits sum.splits)
      from Cons.IH [OF this Cons.prems(2)] False x show ?thesis by auto
    qed
  qed simp
  then show "set out \<subseteq> set cs" "(n, AgentDir (Some dir)) \<in> set ns \<Longrightarrow> agent_id_new n = Inr a \<Longrightarrow>
           (m, Document c) \<in> set dir \<Longrightarrow> is_yaml_file_name m \<Longrightarrow> (a, c) \<in> set cs"
    by blast+
qed

lemma fault_free_load:
  "fault_free w \<Longrightarrow> load_team_claims w = bind_io (collect_team_claims (agents w) []) (\<lambda>cs. return_io (sort_by team_claim_order cs)) w"
  by (simp add: load_team_claims_def bind_io_def get_io_def)

text \<open>
  A new dispute never lists a claim that is already deprecated: when no fault interferes
  and a report is accepted for an id without a record, no mirror of any registered agent shows one
  of its claims as deprecated.
\<close>

theorem new_dispute_has_no_deprecated_claim:
  assumes "fault_free w" and "report_dispute d w = (Inr (), w')"
    and "map_of (disputes w) (yaml_name (dispute_id d)) = None"
    and "(n, AgentDir (Some dir)) \<in> set (agents w)" and "agent_id_new n = Inr a"
    and "(m, Document c) \<in> set dir" and "is_yaml_file_name m" and "claim_id c \<in> set (dispute_claims d)"
  shows "claim_status c \<noteq> Deprecated"
proof -
  have "bind_io (validate_new_dispute_direct_claims d) (\<lambda>_.
      write_dispute \<lparr>record_dispute = d, record_resolution = None\<rparr>) w = (Inr (), w')"
    using assms(1-3) report_validates [OF assms(2)]
    by (simp add: report_dispute_def read_dispute_def read_yaml_def decode_file_def bind_io_def attempt_io_def
        get_io_def lift_sum_def throw_io_def)
  then obtain mirrors w1 w2 where v: "load_team_claims w = (Inr mirrors, w1)"
      "(if filter (\<lambda>(_, c). claim_status c = Deprecated \<and> claim_id c \<in> set (dispute_claims d)) mirrors = []
        then return_io () else throw_io AnalysisConflict) w1 = (Inr (), w2)"
    by (auto simp: validate_new_dispute_direct_claims_def bind_io_Inr_iff)
  then have clean: "\<forall>(b, x) \<in> set mirrors. \<not> (claim_status x = Deprecated \<and> claim_id x \<in> set (dispute_claims d))"
    by (auto simp: filter_empty_conv split: if_splits)
  from v(1) obtain cs w3 where "collect_team_claims (agents w) [] w = (Inr cs, w3)" "set mirrors = set cs"
    by (auto simp: fault_free_load [OF assms(1)] bind_io_Inr_iff)
  with collect_team_claims_mem(2) [OF _ assms(1,4-7)] have "(a, c) \<in> set mirrors" by blast
  with clean assms(8) show ?thesis by blast
qed

section \<open>A concrete report\<close>

definition demo_dispute :: dispute where
  "demo_dispute = \<lparr>dispute_id = random_id dispute_prefix 7, dispute_name = ''n'', reporter_agent_id = demo_bob,
     dispute_claims = [random_id claim_prefix 9], dispute_summary = ''s'', dispute_status = Open, dispute_created_at = 160,
     dispute_resolved_at = None\<rparr>"

definition demo_disputed :: team_store where
  "demo_disputed = demo_uploaded\<lparr>disputes :=
     [(yaml_name (random_id dispute_prefix 7 :: dispute_id), Document \<lparr>record_dispute = demo_dispute, record_resolution = None\<rparr>)]\<rparr>"

lemma demo_report_dispute: "report_dispute demo_dispute demo_uploaded = (Inr (), demo_disputed)"
  by (simp add: demo_disputed_def demo_dispute_def sweep_stores run_io run_scan run_sweep report_dispute_def
      validate_agent_report_def read_dispute_def read_yaml_def decode_file_def validate_new_dispute_direct_claims_def
      load_team_claims_def io_ok_def write_dispute_def validate_dispute_record_def write_yaml_atomic_def)

theorem first_dispute_report_stands_witness:
  "report_dispute demo_dispute demo_disputed = (Inr (), demo_disputed)
   \<and> (\<exists>r w. report_dispute (demo_dispute\<lparr>dispute_summary := ''other''\<rparr>) demo_disputed = (r, w)
        \<and> disputes w = disputes demo_disputed \<and> r \<noteq> Inr ())"
proof -
  note stands = first_dispute_report_stands [OF demo_report_dispute reach_refl]
  have "fault_free demo_disputed" by (simp add: demo_disputed_def sweep_stores)
  with stands have again: "report_dispute demo_dispute demo_disputed = (Inr (), demo_disputed)" by blast
  obtain r w where other: "report_dispute (demo_dispute\<lparr>dispute_summary := ''other''\<rparr>) demo_disputed = (r, w)" by fastforce
  have "dispute_id (demo_dispute\<lparr>dispute_summary := ''other''\<rparr>) = dispute_id demo_dispute"
    "\<not> same_report_payload demo_dispute (demo_dispute\<lparr>dispute_summary := ''other''\<rparr>)"
    by (simp_all add: demo_dispute_def same_report_payload_def)
  with stands other have "disputes w = disputes demo_disputed \<and> r \<noteq> Inr ()" by blast
  with again other show ?thesis by blast
qed

theorem new_dispute_has_no_deprecated_claim_witness:
  "claim_status demo_claim \<noteq> Deprecated"
proof (rule new_dispute_has_no_deprecated_claim [OF _ demo_report_dispute])
  show "fault_free demo_uploaded" by (simp add: sweep_stores)
  show "map_of (disputes demo_uploaded) (yaml_name (dispute_id demo_dispute)) = None" by (simp add: sweep_stores)
  show "(''ann'', AgentDir (Some [(yaml_name (random_id claim_prefix 9 :: claim_id), Document demo_claim)])) \<in> set (agents demo_uploaded)"
    by (simp add: demo_uploaded_def demo_store_def demo_mirrors_def)
  show "agent_id_new ''ann'' = Inr demo_ann"
    by (simp add: demo_ann_def agent_id_new_def agent_char_def is_ascii_lowercase_def)
  show "is_yaml_file_name (yaml_name (random_id claim_prefix 9 :: claim_id))"
    by (simp add: yaml_name_is_yaml claim_prefix_def [THEN arg_cong [where f = set]])
  show "claim_id demo_claim \<in> set (dispute_claims demo_dispute)" by (simp add: demo_claim_def demo_dispute_def)
qed simp

end
