(* ===== verification/Views.thy ===== *)
theory Views
  imports Dispute_Reports
begin

text \<open>
  The read-only views of the Maintainer (\<open>src/maintainer.rs\<close>): the list of outbox entries with its
  open filter, the rows per action, the send log and the status snapshot.  They are computed from the
  entries a scan returns, so they are functions of the entry list; the listing calls are programs.
\<close>

section \<open>Ordered maps\<close>

text \<open>\<open>entry(k).or_default().extend(vs)\<close> on a \<open>BTreeMap\<close> of sets, kept in key order.\<close>

fun btree_extend :: "'k::linorder \<Rightarrow> 'v list \<Rightarrow> ('k \<times> 'v list) list \<Rightarrow> ('k \<times> 'v list) list" where
  "btree_extend k vs [] = [(k, vs)]"
| "btree_extend k vs ((k', us) # m) =
     (if k = k' then (k', us @ vs) # m
      else if k < k' then (k, vs) # (k', us) # m
      else (k', us) # btree_extend k vs m)"

section \<open>Rows\<close>

record send_log_row =
  row_sent_at :: time
  row_agent :: agent_id
  row_inbox :: inbox_id
  row_action :: maintainer_action_id
  row_policy :: policy_id
  row_type :: policy_message_type

record maintainer_action_row =
  act_created_at :: time
  act_id :: maintainer_action_id
  act_type :: policy_message_type
  act_policy_id :: policy_id
  act_policy_name :: string
  act_policy_scope :: string
  act_policy_status :: policy_status
  act_target_kind :: string
  act_inbox_ids :: "inbox_id list"
  act_target_agents :: "agent_id list"
  act_delivered_agents :: "agent_id list"
  act_entries :: nat
  act_send_events :: nat

definition group_by_action :: "outbox_entry list \<Rightarrow> (maintainer_action_id \<times> outbox_entry list) list" where
  "group_by_action entries = fold (\<lambda>e m. btree_push (maintainer_action_id e) e m) entries []"

definition group_order :: "outbox_entry \<Rightarrow> outbox_entry \<Rightarrow> bool" where
  "group_order = then_with (cmp_key entry_created_at) (cmp_key (as_str \<circ> entry_inbox_id))"

text \<open>\<open>sort_by(as_str)\<close> followed by \<open>dedup()\<close>, which removes consecutive repetitions.\<close>

definition sorted_unique :: "'k ident list \<Rightarrow> 'k ident list" where
  "sorted_unique xs = remdups_adj (sort_by (cmp_key as_str) xs)"

definition action_target_kind :: "outbox_entry list \<Rightarrow> string" where
  "action_target_kind es =
     (let broadcast = list_ex (\<lambda>e. entry_target e = Broadcast) es;
          targeted = list_ex (\<lambda>e. entry_target e \<noteq> Broadcast) es in
      if broadcast \<and> \<not> targeted then ''broadcast''
      else if \<not> broadcast \<and> targeted then ''targeted''
      else if broadcast \<and> targeted then ''mixed'' else ''unknown'')"

definition action_row :: "maintainer_action_id \<times> outbox_entry list \<Rightarrow> maintainer_action_row option" where
  "action_row g = (case g of (action, es0) \<Rightarrow>
     let es = sort_by group_order es0 in
     case es of
       [] \<Rightarrow> None
     | first # _ \<Rightarrow>
         (let p = message_policy (entry_message first) in
          Some \<lparr>act_created_at = entry_created_at first, act_id = action,
            act_type = message_type (entry_message first), act_policy_id = policy_id p,
            act_policy_name = policy_name p, act_policy_scope = policy_scope p, act_policy_status = policy_status p,
            act_target_kind = action_target_kind es,
            act_inbox_ids = sorted_unique (map entry_inbox_id es),
            act_target_agents = sorted_unique (List.map_filter (\<lambda>e. case entry_target e of
                Targeted a \<Rightarrow> Some a | Broadcast \<Rightarrow> None) es),
            act_delivered_agents = sorted_unique (concat (map (\<lambda>e. map delivered_agent (delivered_to e)) es)),
            act_entries = length es,
            act_send_events = sum_list (map (\<lambda>e. length (delivered_to e)) es)\<rparr>))"

definition action_order :: "maintainer_action_row \<Rightarrow> maintainer_action_row \<Rightarrow> bool" where
  "action_order = then_with (cmp_key_desc act_created_at) (cmp_key (as_str \<circ> act_id))"

definition build_action_rows_from_entries :: "outbox_entry list \<Rightarrow> maintainer_action_row list" where
  "build_action_rows_from_entries entries =
     sort_by action_order (List.map_filter action_row (group_by_action entries))"

definition send_log_rows :: "outbox_entry \<Rightarrow> send_log_row list" where
  "send_log_rows e = map (\<lambda>d. \<lparr>row_sent_at = sent_at d, row_agent = delivered_agent d, row_inbox = entry_inbox_id e,
     row_action = maintainer_action_id e, row_policy = message_policy_id (entry_message e),
     row_type = message_type (entry_message e)\<rparr>) (delivered_to e)"

definition send_log_order :: "send_log_row \<Rightarrow> send_log_row \<Rightarrow> bool" where
  "send_log_order = then_with (cmp_key row_sent_at) (cmp_key (as_str \<circ> row_agent))"

definition build_send_log_from_entries :: "outbox_entry list \<Rightarrow> send_log_row list" where
  "build_send_log_from_entries entries = sort_by send_log_order (concat (map send_log_rows entries))"

section \<open>Open entries\<close>

definition active_broadcast_deliveries_by_policy :: "outbox_entry list \<Rightarrow> (policy_id \<times> agent_id list) list" where
  "active_broadcast_deliveries_by_policy entries =
     fold (\<lambda>e m. if entry_target e \<noteq> Broadcast \<or> policy_status (message_policy (entry_message e)) \<noteq> PolicyActive then m
                 else btree_extend (message_policy_id (entry_message e))
                        (map offered_agent (offered_to e) @ map delivered_agent (delivered_to e)) m)
       entries []"

definition outbox_entry_is_open ::
  "outbox_entry \<Rightarrow> policy_id list \<Rightarrow> (policy_id \<times> agent_id list) list \<Rightarrow> bool" where
  "outbox_entry_is_open e active deliveries =
     (case entry_target e of
        Targeted a \<Rightarrow> \<not> delivered_to_agent e a
      | Broadcast \<Rightarrow>
          (let p = message_policy (entry_message e) in
           if policy_status p = PolicyActive then policy_id p \<in> set active
           else case map_of deliveries (policy_id p) of
                  None \<Rightarrow> False
                | Some eligible \<Rightarrow> list_ex (\<lambda>a. \<not> delivered_to_agent e a) eligible))"

definition listing_order :: "outbox_entry \<Rightarrow> outbox_entry \<Rightarrow> bool" where
  "listing_order = then_with (cmp_key_desc entry_created_at) (cmp_key_desc (as_str \<circ> entry_inbox_id))"

definition list_outbox_entries :: "nat option \<Rightarrow> bool option \<Rightarrow> outbox_entry list team_io" where
  "list_outbox_entries limit is_open =
     bind_io active_policy_id_set (\<lambda>active.
     bind_io outbox_list (\<lambda>entries.
       let deliveries = active_broadcast_deliveries_by_policy entries;
           kept = filter (\<lambda>e. case is_open of None \<Rightarrow> True
                              | Some expected \<Rightarrow> outbox_entry_is_open e active deliveries = expected) entries;
           sorted = sort_by listing_order kept in
       return_io (case limit of None \<Rightarrow> sorted | Some n \<Rightarrow> take n sorted)))"

definition list_actions :: "maintainer_action_row list team_io" where
  "list_actions = bind_io outbox_list (\<lambda>entries. return_io (build_action_rows_from_entries entries))"

definition list_send_log :: "send_log_row list team_io" where
  "list_send_log = bind_io outbox_list (\<lambda>entries. return_io (build_send_log_from_entries entries))"

section \<open>The status snapshot\<close>

record agent_status_summary =
  summary_agent :: agent_id
  mirror_claims :: nat
  summary_active :: nat
  summary_stale :: nat
  summary_deprecated :: nat

record maintainer_status_counts =
  count_agents :: nat
  count_claims :: nat
  count_active_claims :: nat
  count_stale_claims :: nat
  count_deprecated_claims :: nat
  count_active_policies :: nat
  count_deprecated_policies :: nat
  count_open_disputes :: nat
  count_resolved_disputes :: nat
  count_outbox_entries :: nat
  count_send_events :: nat

record maintainer_status_snapshot =
  generated_at :: time
  counts :: maintainer_status_counts
  snapshot_agents :: "agent_status_summary list"
  snapshot_policies :: "policy list"
  snapshot_disputes :: "dispute list"
  snapshot_actions :: "maintainer_action_row list"
  snapshot_send_log :: "send_log_row list"

text \<open>\<open>list_disputes\<close> decodes the dispute part of each record.\<close>

definition list_disputes :: "dispute list team_io" where
  "list_disputes = bind_io io_ok (\<lambda>found.
     if \<not> found then return_io []
     else bind_io io_call (\<lambda>_. bind_io (get_io disputes) (\<lambda>d.
            bind_io (lift_sum (decode_dir (\<lambda>_ _. False) d)) (\<lambda>rs. return_io (map record_dispute rs)))))"

definition agent_status :: "(agent_id \<times> claim) list \<Rightarrow> agent_id \<Rightarrow> agent_status_summary" where
  "agent_status claims a =
     (let own = map snd (filter (\<lambda>(holder, _). holder = a) claims);
          number = (\<lambda>st. length (filter (\<lambda>c. claim_status c = st) own)) in
      \<lparr>summary_agent = a, mirror_claims = length own, summary_active = number Active, summary_stale = number Stale,
       summary_deprecated = number Deprecated\<rparr>)"

definition build_agent_statuses :: "(agent_id \<times> claim) list \<Rightarrow> agent_status_summary list team_io" where
  "build_agent_statuses claims = bind_io list_agent_ids (\<lambda>as. return_io (map (agent_status claims) as))"

fun dispute_status_rank :: "dispute_status \<Rightarrow> nat" where
  "dispute_status_rank Open = 2"
| "dispute_status_rank Resolved = 1"

definition dispute_order :: "dispute \<Rightarrow> dispute \<Rightarrow> bool" where
  "dispute_order = then_with (cmp_key_desc (dispute_status_rank \<circ> dispute_status)) (cmp_key_desc dispute_created_at)"

definition status_snapshot :: "time \<Rightarrow> maintainer_status_snapshot team_io" where
  "status_snapshot now =
     bind_io list_policies (\<lambda>ps0. let ps = sort_by (cmp_key_desc policy_created_at) ps0 in
     bind_io list_disputes (\<lambda>ds0. let ds = sort_by dispute_order ds0 in
     bind_io outbox_list (\<lambda>entries.
     let actions = build_action_rows_from_entries entries;
         send_log = sort_by (cmp_key_desc row_sent_at) (build_send_log_from_entries entries) in
     bind_io list_all_claims (\<lambda>claims.
     bind_io (build_agent_statuses claims) (\<lambda>as.
     return_io
       \<lparr>generated_at = now,
        counts =
          \<lparr>count_agents = length as, count_claims = length claims,
           count_active_claims = length (filter (\<lambda>(_, c). claim_status c = Active) claims),
           count_stale_claims = length (filter (\<lambda>(_, c). claim_status c = Stale) claims),
           count_deprecated_claims = length (filter (\<lambda>(_, c). claim_status c = Deprecated) claims),
           count_active_policies = length (filter (\<lambda>p. policy_status p = PolicyActive) ps),
           count_deprecated_policies = length (filter (\<lambda>p. policy_status p = PolicyDeprecated) ps),
           count_open_disputes = length (filter (\<lambda>d. dispute_status d = Open) ds),
           count_resolved_disputes = length (filter (\<lambda>d. dispute_status d = Resolved) ds),
           count_outbox_entries = length entries,
           count_send_events = sum_list (map (\<lambda>e. length (delivered_to e)) entries)\<rparr>,
        snapshot_agents = as, snapshot_policies = ps, snapshot_disputes = ds, snapshot_actions = actions,
        snapshot_send_log = send_log\<rparr>)))))"

section \<open>Facts about ordered maps\<close>

lemma btree_extend_mem:
  "(k', us) \<in> set (btree_extend k vs m) \<Longrightarrow> a \<in> set us \<Longrightarrow>
     (k' = k \<and> a \<in> set vs) \<or> (\<exists>us'. (k', us') \<in> set m \<and> a \<in> set us')"
  by (induction k vs m rule: btree_extend.induct) (auto split: if_splits)

lemma btree_push_keys: "fst ` set (btree_push k v m) = insert k (fst ` set m)"
  by (induction k v m rule: btree_push.induct) auto

lemma btree_push_sorted:
  "sorted_wrt (<) (map fst m) \<Longrightarrow> sorted_wrt (<) (map fst (btree_push k v m))"
proof (induction k v m rule: btree_push.induct)
  case (2 k v k' vs m)
  have "fst ` set (btree_push k v m) = insert k (fst ` set m)" by (rule btree_push_keys)
  with 2 show ?case by (auto simp: not_less order_le_less dest: order.strict_trans)
qed simp

lemma btree_push_values: "mset (concat (map snd (btree_push k v m))) = add_mset v (mset (concat (map snd m)))"
  by (induction k v m rule: btree_push.induct) auto

lemma btree_push_owner:
  assumes "\<forall>(k, vs) \<in> set m. vs \<noteq> [] \<and> (\<forall>v \<in> set vs. f v = k)"
  shows "\<forall>(k, vs) \<in> set (btree_push (f v) v m). vs \<noteq> [] \<and> (\<forall>v \<in> set vs. f v = k)"
  using assms by (induction "f v" v m rule: btree_push.induct) (auto split: if_splits)

definition groups_of :: "outbox_entry list \<Rightarrow> (maintainer_action_id \<times> outbox_entry list) list \<Rightarrow> bool" where
  "groups_of es m \<longleftrightarrow> sorted_wrt (<) (map fst m) \<and> mset (concat (map snd m)) = mset es
     \<and> (\<forall>(k, vs) \<in> set m. vs \<noteq> [] \<and> (\<forall>e \<in> set vs. maintainer_action_id e = k))"

lemma group_by_action_groups: "groups_of es (group_by_action es)"
proof -
  have "groups_of (ds @ es) (fold (\<lambda>e m. btree_push (maintainer_action_id e) e m) es m)" if "groups_of ds m" for ds m
    using that
  proof (induction es arbitrary: ds m)
    case (Cons e es)
    have "groups_of (ds @ [e]) (btree_push (maintainer_action_id e) e m)"
      using Cons.prems btree_push_owner [where f = maintainer_action_id and v = e and m = m]
      by (simp add: groups_of_def btree_push_sorted btree_push_values)
    from Cons.IH [OF this] show ?case by simp
  qed simp
  from this [of "[]" "[]"] show ?thesis by (simp add: group_by_action_def groups_of_def)
qed

section \<open>The rows add up\<close>

interpretation action_order: comparison action_order
  unfolding action_order_def by (intro comparison_then_with comparison_key comparison_key_desc)

interpretation send_log_order: comparison send_log_order
  unfolding send_log_order_def by (intro comparison_then_with comparison_key)

interpretation listing_order: comparison listing_order
  unfolding listing_order_def by (intro comparison_then_with comparison_key_desc)

lemma sum_list_sort_by [simp]: "sum_list (map (f :: _ \<Rightarrow> nat) (sort_by le xs)) = sum_list (map f xs)"
  by (metis mset_sort_by mset_map sum_mset_sum_list)

lemma action_row_Some:
  assumes "es \<noteq> []"
  shows "\<exists>r. action_row (k, es) = Some r \<and> act_id r = k \<and> act_entries r = length es
           \<and> act_send_events r = sum_list (map (\<lambda>e. length (delivered_to e)) es)"
proof -
  let ?s = "sort_by group_order es"
  have "?s \<noteq> []" using assms by simp
  then obtain first rest where s: "?s = first # rest" by (cases ?s) auto
  have "length (first # rest) = length es" "sum_list (map (\<lambda>e. length (delivered_to e)) (first # rest))
      = sum_list (map (\<lambda>e. length (delivered_to e)) es)"
    using length_sort_by [of group_order es] sum_list_sort_by [of _ group_order es] by (simp_all only: s)
  with s show ?thesis by (simp add: action_row_def Let_def)
qed

lemma action_rows_of_groups:
  assumes "\<forall>(k, es) \<in> set m. es \<noteq> []"
  shows "map act_id (List.map_filter action_row m) = map fst m
     \<and> sum_list (map act_entries (List.map_filter action_row m)) = length (concat (map snd m))
     \<and> sum_list (map act_send_events (List.map_filter action_row m))
         = sum_list (map (\<lambda>e. length (delivered_to e)) (concat (map snd m)))"
  using assms
proof (induction m)
  case (Cons g m)
  obtain k es where g: "g = (k, es)" by fastforce
  from Cons g action_row_Some [of es k] show ?case by (auto simp: map_filter_simps)
qed (simp add: map_filter_simps)

lemma mset_sum_list: "mset xs = mset ys \<Longrightarrow> sum_list (map (f :: _ \<Rightarrow> nat) xs) = sum_list (map f ys)"
  by (metis mset_map sum_mset_sum_list)

text \<open>
  The action view accounts for the outbox exactly: one row per action id that occurs,
  newest first, and the entries and confirmations the rows count add up to all entries and to all rows
  of the send log, which is itself sorted by time and agent.
\<close>

theorem action_rows_account_for_the_outbox:
  "distinct (map act_id (build_action_rows_from_entries es))
   \<and> set (map act_id (build_action_rows_from_entries es)) = maintainer_action_id ` set es
   \<and> sorted_wrt action_order (build_action_rows_from_entries es)
   \<and> sum_list (map act_entries (build_action_rows_from_entries es)) = length es
   \<and> sum_list (map act_send_events (build_action_rows_from_entries es)) = length (build_send_log_from_entries es)
   \<and> sorted_wrt send_log_order (build_send_log_from_entries es)"
proof -
  let ?m = "group_by_action es"
  have g: "sorted_wrt (<) (map fst ?m)" "mset (concat (map snd ?m)) = mset es"
      "\<forall>(k, vs) \<in> set ?m. vs \<noteq> [] \<and> (\<forall>e \<in> set vs. maintainer_action_id e = k)"
    using group_by_action_groups [of es] by (simp_all add: groups_of_def)
  then have rows: "map act_id (List.map_filter action_row ?m) = map fst ?m"
      "sum_list (map act_entries (List.map_filter action_row ?m)) = length (concat (map snd ?m))"
      "sum_list (map act_send_events (List.map_filter action_row ?m))
         = sum_list (map (\<lambda>e. length (delivered_to e)) (concat (map snd ?m)))"
    using action_rows_of_groups [of ?m] by auto
  have perm: "mset (map act_id (build_action_rows_from_entries es)) = mset (map fst ?m)"
    unfolding build_action_rows_from_entries_def by (metis mset_map mset_sort_by rows(1))
  have keys: "fst ` set ?m = maintainer_action_id ` set es"
  proof -
    have "fst ` set ?m = maintainer_action_id ` set (concat (map snd ?m))"
    proof -
      have "maintainer_action_id ` set (snd x) = {fst x}" if "x \<in> set ?m" for x
        using g(3) that by (cases x; cases "snd x") auto
      then have "(\<Union>x \<in> set ?m. maintainer_action_id ` set (snd x)) = (\<Union>x \<in> set ?m. {fst x})" by simp
      then show ?thesis by (simp add: image_UN UNION_singleton_eq_range)
    qed
    also have "set (concat (map snd ?m)) = set es" using g(2) by (metis set_mset_mset)
    finally show ?thesis .
  qed
  have "distinct (map act_id (build_action_rows_from_entries es))"
    using perm g(1) by (metis mset_eq_imp_distinct_iff strict_sorted_iff)
  moreover have "set (map act_id (build_action_rows_from_entries es)) = maintainer_action_id ` set es"
    using perm keys by (metis list.set_map set_mset_mset)
  moreover have "sum_list (map act_entries (build_action_rows_from_entries es)) = length es"
    using rows(2) g(2) by (simp add: build_action_rows_from_entries_def) (metis size_mset length_concat)
  moreover have "sum_list (map act_send_events (build_action_rows_from_entries es)) = length (build_send_log_from_entries es)"
    using rows(3) mset_sum_list [OF g(2)]
    by (simp add: build_action_rows_from_entries_def build_send_log_from_entries_def send_log_rows_def
        length_concat comp_def)
  ultimately show ?thesis
    by (simp add: build_action_rows_from_entries_def build_send_log_from_entries_def
        action_order.sorted_wrt_sort_by send_log_order.sorted_wrt_sort_by)
qed

section \<open>The send log\<close>

lemma send_log_mem:
  "r \<in> set (build_send_log_from_entries es) \<longleftrightarrow> (\<exists>e \<in> set es. r \<in> set (send_log_rows e))"
  by (auto simp: build_send_log_from_entries_def)

text \<open>
  In every reachable store the send log holds exactly the confirmations: an agent and
  an inbox id occur together in it exactly when the agent has confirmed the message, and then once.
\<close>

theorem send_log_lists_each_confirmation_once:
  assumes "reachable cfg w"
  shows "distinct (map (\<lambda>r. (row_agent r, row_inbox r)) (build_send_log_from_entries (docs (outbox w))))
     \<and> (\<forall>a i. delivered_at a i w \<longleftrightarrow>
          (a, i) \<in> set (map (\<lambda>r. (row_agent r, row_inbox r)) (build_send_log_from_entries (docs (outbox w)))))"
proof -
  let ?es = "docs (outbox w)" and ?key = "\<lambda>r. (row_agent r, row_inbox r)"
  have wf: "outbox_wf w" using reachable_inv(1) [OF assms] by (simp add: store_wf_def)
  then have ids: "distinct (map entry_inbox_id ?es)" and marks: "\<forall>e \<in> set ?es. entry_wf e"
    using distinct_keys_docs by (auto simp: outbox_wf_def)
  have keys: "map ?key (send_log_rows e) = map (\<lambda>d. (delivered_agent d, entry_inbox_id e)) (delivered_to e)" for e
    by (simp add: send_log_rows_def)
  have "distinct (concat (map (\<lambda>e. map (\<lambda>d. (delivered_agent d, entry_inbox_id e)) (delivered_to e)) es))"
    if "distinct (map entry_inbox_id es)" "\<forall>e \<in> set es. entry_wf e" for es
    using that
  proof (induction es)
    case (Cons e es)
    have "distinct (map delivered_agent (delivered_to e))" using Cons.prems by (simp add: entry_wf_def)
    then have "distinct (map (\<lambda>d. (delivered_agent d, entry_inbox_id e)) (delivered_to e))"
      by (auto simp: distinct_map inj_on_def)
    with Cons show ?case by (auto simp: image_iff)
  qed simp
  from this [OF ids marks] have "distinct (map ?key (concat (map send_log_rows ?es)))"
    by (simp add: map_concat comp_def keys)
  moreover have "mset (map ?key (build_send_log_from_entries ?es)) = mset (map ?key (concat (map send_log_rows ?es)))"
    unfolding build_send_log_from_entries_def by (metis mset_map mset_sort_by)
  ultimately have "distinct (map ?key (build_send_log_from_entries ?es))" by (metis mset_eq_imp_distinct_iff)
  moreover have "delivered_at a i w \<longleftrightarrow> (a, i) \<in> set (map ?key (build_send_log_from_entries ?es))" for a i
  proof -
    have "delivered_at a i w \<longleftrightarrow> (\<exists>e \<in> set ?es. entry_inbox_id e = i \<and> delivered_to_agent e a)"
    proof
      assume "delivered_at a i w"
      then obtain e where e: "map_of (outbox w) (yaml_name i) = Some (Document e)" "delivered_to_agent e a"
        by (auto simp: delivered_at_def)
      then have "entry_inbox_id e = i" using outbox_wf_entry [OF wf] by blast
      with e show "\<exists>e \<in> set ?es. entry_inbox_id e = i \<and> delivered_to_agent e a"
        using docs_outbox_iff [OF wf, of e] by auto
    qed (use docs_outbox_iff [OF wf] in \<open>auto simp: delivered_at_def\<close>)
    also have "\<dots> \<longleftrightarrow> (a, i) \<in> set (map ?key (build_send_log_from_entries ?es))"
      by (auto simp: build_send_log_from_entries_def send_log_rows_def delivered_to_agent_iff image_iff)
    finally show ?thesis .
  qed
  ultimately show ?thesis by blast
qed

section \<open>Open entries have recipients\<close>

lemma deliveries_mem:
  assumes "(i, as) \<in> set (active_broadcast_deliveries_by_policy es)" "a \<in> set as"
  shows "\<exists>e \<in> set es. message_policy_id (entry_message e) = i \<and> (offered_to_agent e a \<or> delivered_to_agent e a)"
proof -
  let ?f = "\<lambda>e m. if entry_target e \<noteq> Broadcast \<or> policy_status (message_policy (entry_message e)) \<noteq> PolicyActive then m
                 else btree_extend (message_policy_id (entry_message e))
                        (map offered_agent (offered_to e) @ map delivered_agent (delivered_to e)) m"
  let ?seen = "\<lambda>es. \<exists>e \<in> set es. message_policy_id (entry_message e) = i \<and> (offered_to_agent e a \<or> delivered_to_agent e a)"
  have "?seen (ds @ es)" if "\<forall>as. (i, as) \<in> set m \<longrightarrow> a \<in> set as \<longrightarrow> ?seen ds" "(i, as) \<in> set (fold ?f es m)" "a \<in> set as" for ds m as
    using that
  proof (induction es arbitrary: ds m)
    case (Cons e es)
    have "\<forall>as. (i, as) \<in> set (?f e m) \<longrightarrow> a \<in> set as \<longrightarrow> ?seen (ds @ [e])"
      using Cons.prems(1) by (auto dest!: btree_extend_mem simp: offered_to_agent_iff delivered_to_agent_iff)
    with Cons.IH [of "?f e m" "ds @ [e]"] Cons.prems(2,3) show ?case by simp
  qed auto
  from this [of "[]" "[]"] assms show ?thesis by (simp add: active_broadcast_deliveries_by_policy_def)
qed

lemma infinite_agent_ids: "infinite (UNIV :: agent_id set)"
proof
  assume "finite (UNIV :: agent_id set)"
  then have "finite (range (Ident :: string \<Rightarrow> agent_id))" by (rule finite_subset [OF subset_UNIV])
  moreover have "inj (Ident :: string \<Rightarrow> agent_id)" by (simp add: inj_def)
  ultimately have "finite (UNIV :: string set)" by (rule finite_imageD)
  then show False by (simp add: infinite_UNIV_listI)
qed

lemma unconfirmed_agent_exists: "\<exists>a. \<not> delivered_to_agent e a"
proof -
  have "finite (delivered_agent ` set (delivered_to e))" by simp
  from ex_new_if_finite [OF infinite_agent_ids this] show ?thesis unfolding delivered_to_agent_iff .
qed

lemma open_selected:
  assumes "outbox_entry_is_open e active (active_broadcast_deliveries_by_policy entries)"
  shows "\<exists>a. pull_selects a active (seen_policy_ids a entries) e"
proof (cases "entry_target e")
  case (Targeted b)
  with assms have "pull_selects b active (seen_policy_ids b entries) e"
    by (simp add: outbox_entry_is_open_def pull_selects_def)
  then show ?thesis ..
next
  case Broadcast
  let ?p = "message_policy (entry_message e)"
  show ?thesis
  proof (cases "policy_status ?p")
    case PolicyActive
    obtain a where "\<not> delivered_to_agent e a" using unconfirmed_agent_exists by blast
    with PolicyActive Broadcast assms show ?thesis
      by (auto simp: outbox_entry_is_open_def pull_selects_def Let_def intro!: exI [of _ a])
  next
    case PolicyDeprecated
    with Broadcast assms obtain as a where a: "map_of (active_broadcast_deliveries_by_policy entries) (policy_id ?p) = Some as"
        "a \<in> set as" "\<not> delivered_to_agent e a"
      by (auto simp: outbox_entry_is_open_def Let_def list_ex_iff split: option.splits)
    from deliveries_mem [OF map_of_SomeD [OF a(1)] a(2)] have "policy_id ?p \<in> set (seen_policy_ids a entries)"
      by (auto simp: seen_policy_ids_def image_iff)
    with PolicyDeprecated Broadcast a show ?thesis by (auto simp: pull_selects_def Let_def)
  qed
qed

text \<open>
  The open filter never shows an entry as open in vain: for every entry it calls open
  there is an agent whose pull selects that entry.  A targeted entry is open exactly as long as the pull
  of its target selects it.
\<close>

theorem open_entry_has_a_recipient:
  "(outbox_entry_is_open e active (active_broadcast_deliveries_by_policy entries) \<longrightarrow>
      (\<exists>a. pull_selects a active (seen_policy_ids a entries) e))
   \<and> (\<forall>b. entry_target e = Targeted b \<longrightarrow>
        outbox_entry_is_open e active (active_broadcast_deliveries_by_policy entries)
          = pull_selects b active (seen_policy_ids b entries) e)"
  using open_selected by (auto simp: outbox_entry_is_open_def pull_selects_def)

section \<open>The views of the concrete history\<close>

theorem send_log_lists_each_confirmation_once_witness:
  "(demo_ann, random_id inbox_prefix 2)
     \<in> set (map (\<lambda>r. (row_agent r, row_inbox r)) (build_send_log_from_entries (docs (outbox demo_acked))))"
proof -
  have "delivered_at demo_ann (random_id inbox_prefix 2) demo_acked"
    by (simp add: delivered_at_def demo_stores delivered_to_agent_def)
  with send_log_lists_each_confirmation_once [OF demo_reachable(5)] show ?thesis by blast
qed

theorem open_entry_has_a_recipient_witness:
  "\<exists>a. pull_selects a (active_ids demo_deprecated) (seen_policy_ids a (docs (outbox demo_deprecated))) demo_notice"
proof -
  have "outbox_entry_is_open demo_notice (active_ids demo_deprecated)
      (active_broadcast_deliveries_by_policy (docs (outbox demo_deprecated)))"
    by (simp add: outbox_entry_is_open_def active_broadcast_deliveries_by_policy_def demo_stores message_policy_def
        message_policy_id_def delivered_to_agent_def)
  with open_entry_has_a_recipient show ?thesis by blast
qed

end
