(* ===== verification/Bash_Safety.thy ===== *)
theory Bash_Safety
  imports Prelude
begin

text \<open>
  The classifier of \<open>src/tool/concurrency.rs\<close>: it decides whether a shell script may run beside other
  read-only tools, by walking the syntax tree of the script against a whitelist and refusing
  everything it does not know.  The parser is the tree-sitter grammar for Bash, a third-party
  library: it is a parameter, a function from the script to its tree or to nothing.  A node of the tree
  has a kind, says whether it is named, missing or holds an error, has the text it covers (or none,
  when the range is not UTF-8), and children.
\<close>

section \<open>Syntax trees\<close>

datatype bash_node =
  BashNode (node_kind: string) (node_named: bool) (node_missing: bool) (node_error: bool) (node_text: "string option")
    (node_children: "bash_node list")

definition named_children :: "bash_node \<Rightarrow> bash_node list" where
  "named_children n = filter node_named (node_children n)"

datatype option_value_kind = LiteralValue | DecimalValue

section \<open>Literals\<close>

definition is_unquoted_expansion_character :: "char \<Rightarrow> bool" where
  "is_unquoted_expansion_character c \<longleftrightarrow> c \<in> set [CHR ''$'', CHR ''~'', CHR ''*'', CHR ''?'', CHR ''['', CHR '']'',
     CHR 0x7B, CHR 0x7D, CHR 0x60, CHR 0x5C]"

definition quoted_literal :: "bash_node \<Rightarrow> char \<Rightarrow> string option" where
  "quoted_literal n q = (case node_text n of
       None \<Rightarrow> None
     | Some t \<Rightarrow> if length t < 2 \<or> \<not> str_starts_with t [q] \<or> \<not> str_ends_with t [q] then None
                 else Some (take (length t - 1 - 1) (drop 1 t)))"

lemma size_child: "c \<in> set (node_children n) \<Longrightarrow> size c < size n"
  by (cases n) (auto simp: size_list_estimation' dest: size_list_estimation' [where f = size, OF _ order_refl])

function literal_from_node :: "bash_node \<Rightarrow> string option" where
  "literal_from_node n =
     (if node_kind n = ''command_name'' then
        (case named_children n of [c] \<Rightarrow> literal_from_node c | _ \<Rightarrow> None)
      else if node_kind n = ''word'' then
        (if named_children n \<noteq> [] then None
         else case node_text n of
                None \<Rightarrow> None
              | Some t \<Rightarrow> if t = [] \<or> list_ex is_unquoted_expansion_character t then None else Some t)
      else if node_kind n = ''raw_string'' then quoted_literal n (CHR 0x27)
      else if node_kind n = ''string'' then
        (if list_ex (\<lambda>c. node_kind c \<noteq> ''string_content'') (named_children n) then None
         else quoted_literal n (CHR 0x22))
      else if node_kind n = ''number'' then
        (if named_children n \<noteq> [] then None
         else case node_text n of None \<Rightarrow> None | Some t \<Rightarrow> if t = [] then None else Some t)
      else None)"
  by pat_completeness auto
termination
proof (relation "measure size")
  fix n c and cs :: "bash_node list"
  assume "named_children n = c # cs"
  then have "c \<in> set (named_children n)" by simp
  then show "(c, n) \<in> measure size" by (simp add: named_children_def size_child)
qed simp

section \<open>Options\<close>

definition option_value_is_allowed :: "string \<Rightarrow> option_value_kind \<Rightarrow> bool" where
  "option_value_is_allowed v k = (case k of
       LiteralValue \<Rightarrow> v \<noteq> [] \<and> v \<noteq> ''-''
     | DecimalValue \<Rightarrow> v \<noteq> [] \<and> list_all is_ascii_digit v)"

text \<open>The loop over the argument index is the recursion over the arguments from that index on.\<close>

function arguments_allow_options ::
  "string list \<Rightarrow> char list \<Rightarrow> string list \<Rightarrow> (string \<times> option_value_kind) list \<Rightarrow> (string \<times> option_value_kind) list \<Rightarrow> bool" where
  "arguments_allow_options [] flags longs shorts_v longs_v = True"
| "arguments_allow_options (v # rest) flags longs shorts_v longs_v =
     (if v = ''-'' then False
      else case strip_prefix ''--'' v of
        Some opt \<Rightarrow>
          (let full = ''--'' @ opt in
           if full \<in> set longs then arguments_allow_options rest flags longs shorts_v longs_v
           else case map_of longs_v full of
                  None \<Rightarrow> False
                | Some k \<Rightarrow> (case rest of
                      [] \<Rightarrow> False
                    | u # rest' \<Rightarrow> if \<not> option_value_is_allowed u k then False
                                  else arguments_allow_options rest' flags longs shorts_v longs_v))
      | None \<Rightarrow>
          if str_starts_with v ''-'' then
            (case map_of shorts_v v of
               Some k \<Rightarrow> (case rest of
                      [] \<Rightarrow> False
                    | u # rest' \<Rightarrow> if \<not> option_value_is_allowed u k then False
                                  else arguments_allow_options rest' flags longs shorts_v longs_v)
             | None \<Rightarrow> (case strip_prefix ''-'' v of
                   None \<Rightarrow> False
                 | Some cluster \<Rightarrow>
                     if cluster = [] \<or> \<not> list_all (\<lambda>f. f \<in> set flags) cluster then False
                     else arguments_allow_options rest flags longs shorts_v longs_v))
          else arguments_allow_options rest flags longs shorts_v longs_v)"
  by pat_completeness auto
termination by (relation "measure (\<lambda>(as, _). length as)") auto

definition command_arguments_are_allowed :: "string \<Rightarrow> string list \<Rightarrow> bool" where
  "command_arguments_are_allowed command args =
     (if command \<in> set [''pwd'', ''true'', ''false''] then args = []
      else if command = ''ls'' then
        arguments_allow_options args ''aAlh1dR''
          [''--all'', ''--almost-all'', ''--long'', ''--human-readable'', ''--one-per-line'', ''--directory'', ''--recursive'']
          [] []
      else if command = ''rg'' then
        arguments_allow_options args ''niSFwxlc'' [''--files'', ''--hidden'', ''--no-heading'', ''--no-ignore'']
          [(''-A'', DecimalValue), (''-B'', DecimalValue), (''-C'', DecimalValue), (''-g'', LiteralValue)]
          [(''--glob'', LiteralValue), (''--type'', LiteralValue), (''--type-not'', LiteralValue), (''--max-count'', DecimalValue)]
      else if command = ''grep'' then
        arguments_allow_options args ''niEFwxvlcrR'' [] [(''-m'', DecimalValue)]
          [(''--include'', LiteralValue), (''--exclude'', LiteralValue), (''--exclude-dir'', LiteralValue)]
      else if command = ''cat'' then arguments_allow_options args ''nbsET'' [] [] []
      else if command \<in> set [''head'', ''tail''] then
        arguments_allow_options args [] [] [(''-n'', DecimalValue), (''-c'', DecimalValue)] [(''--lines'', DecimalValue)]
      else if command = ''wc'' then arguments_allow_options args ''lwcmL'' [] [] []
      else if command = ''stat'' then arguments_allow_options args [] [] [] []
      else if command = ''file'' then arguments_allow_options args ''b'' [''--brief'', ''--mime'', ''--mime-type''] [] []
      else if command = ''cd'' then
        (case args of [a] \<Rightarrow> a \<noteq> [] \<and> \<not> str_starts_with a ''-'' \<and> \<not> str_starts_with a ''~'' | _ \<Rightarrow> False)
      else False)"

section \<open>Statements\<close>

text \<open>\<open>chars().filter(!is_whitespace)\<close>: no continuation byte starts an encoded white space.\<close>

function remove_whitespace :: "string \<Rightarrow> string" where
  "remove_whitespace s = (case find (str_starts_with s) utf8_whitespace of
       Some w \<Rightarrow> remove_whitespace (drop (length w) s)
     | None \<Rightarrow> (case s of [] \<Rightarrow> [] | c # s' \<Rightarrow> c # remove_whitespace s'))"
  by pat_completeness auto
termination
  by (relation "measure length") (use trim_start_decreases in auto)

declare remove_whitespace.simps [simp del] literal_from_node.simps [simp del]

definition is_safe_redirect :: "bash_node \<Rightarrow> bool" where
  "is_safe_redirect n = (case node_text n of
       None \<Rightarrow> False
     | Some t \<Rightarrow>
         (let compact = remove_whitespace t in
          if compact = ''2>&1'' then True
          else if \<not> str_starts_with compact ''<'' \<or> str_contains compact ''&'' \<or> str_contains compact ''>'' then False
          else case named_children n of [c] \<Rightarrow> literal_from_node c \<noteq> None | _ \<Rightarrow> False))"

text \<open>The loop over the children of a command, with the name and the arguments found so far.\<close>

fun command_words :: "string option \<Rightarrow> string list \<Rightarrow> bash_node list \<Rightarrow> (string \<times> string list) option" where
  "command_words name args [] = map_option (\<lambda>n. (n, args)) name"
| "command_words name args (c # cs) =
     (if \<not> node_named c then None
      else if node_kind c = ''command_name'' then
        (if name \<noteq> None then None
         else case literal_from_node c of None \<Rightarrow> None | Some v \<Rightarrow> command_words (Some v) args cs)
      else if node_kind c = ''file_redirect'' then
        (if \<not> is_safe_redirect c then None else command_words name args cs)
      else case literal_from_node c of None \<Rightarrow> None | Some v \<Rightarrow> command_words name (args @ [v]) cs)"

definition is_safe_command :: "bash_node \<Rightarrow> bool" where
  "is_safe_command n = (case command_words None [] (node_children n) of
       None \<Rightarrow> False
     | Some (name, args) \<Rightarrow> command_arguments_are_allowed name args)"

fun redirected_loop :: "bool \<Rightarrow> bool \<Rightarrow> bash_node list \<Rightarrow> bool" where
  "redirected_loop has_command has_redirect [] = (has_command \<and> has_redirect)"
| "redirected_loop has_command has_redirect (c # cs) =
     (if \<not> node_named c then False
      else if node_kind c = ''command'' \<and> \<not> has_command then
        (if \<not> is_safe_command c then False else redirected_loop True has_redirect cs)
      else if node_kind c = ''file_redirect'' then
        (if \<not> is_safe_redirect c then False else redirected_loop has_command True cs)
      else False)"

definition is_safe_redirected_statement :: "bash_node \<Rightarrow> bool" where
  "is_safe_redirected_statement n = redirected_loop False False (node_children n)"

definition is_safe_pipeline :: "bash_node \<Rightarrow> bool" where
  "is_safe_pipeline n = list_all (\<lambda>c. if node_named c then node_kind c = ''command'' \<and> is_safe_command c
                                      else node_kind c = ''|'') (node_children n)"

function is_safe_script_node :: "bash_node \<Rightarrow> bool"
  and is_safe_program :: "bash_node \<Rightarrow> bool"
  and is_safe_list :: "bash_node \<Rightarrow> bool" where
  "is_safe_script_node n =
     (if node_kind n = ''program'' then is_safe_program n
      else if node_kind n = ''list'' then is_safe_list n
      else if node_kind n = ''pipeline'' then is_safe_pipeline n
      else if node_kind n = ''command'' then is_safe_command n
      else if node_kind n = ''redirected_statement'' then is_safe_redirected_statement n
      else False)"
| "is_safe_program n =
     list_all (\<lambda>c. if node_named c then is_safe_script_node c else node_kind c = '';'') (node_children n)"
| "is_safe_list n =
     list_all (\<lambda>c. if node_named c then is_safe_script_node c else node_kind c \<in> set [''&&'', ''||'']) (node_children n)"
  by pat_completeness auto
termination
  by (relation "measure (case_sum (\<lambda>n. 2 * size n + 1) (case_sum (\<lambda>n. 2 * size n) (\<lambda>n. 2 * size n)))")
     (auto dest: size_child)

declare is_safe_script_node.simps [simp del] is_safe_program.simps [simp del] is_safe_list.simps [simp del]

definition safe_bash_tree :: "(string \<Rightarrow> bash_node option) \<Rightarrow> string \<Rightarrow> bash_node option" where
  "safe_bash_tree parse script = (case parse script of
       None \<Rightarrow> None
     | Some root \<Rightarrow> if \<not> node_error root \<and> \<not> node_missing root \<and> is_safe_script_node root then Some root else None)"

definition bash_script_is_concurrency_safe :: "(string \<Rightarrow> bash_node option) \<Rightarrow> string \<Rightarrow> bool" where
  "bash_script_is_concurrency_safe parse script \<longleftrightarrow> safe_bash_tree parse script \<noteq> None"

function collect_literals :: "bash_node \<Rightarrow> string list" where
  "collect_literals n = (case literal_from_node n of
       Some v \<Rightarrow> [v]
     | None \<Rightarrow> concat (map collect_literals (named_children n)))"
  by pat_completeness auto
termination
  by (relation "measure size") (auto simp: named_children_def dest: size_child)

function collect_commands :: "bash_node \<Rightarrow> string list" where
  "collect_commands n =
     (if node_kind n = ''command_name'' then (case literal_from_node n of Some v \<Rightarrow> [v] | None \<Rightarrow> [])
      else concat (map collect_commands (named_children n)))"
  by pat_completeness auto
termination
  by (relation "measure size") (auto simp: named_children_def dest: size_child)

declare collect_literals.simps [simp del] collect_commands.simps [simp del]

definition safe_bash_literals :: "(string \<Rightarrow> bash_node option) \<Rightarrow> string \<Rightarrow> string list option" where
  "safe_bash_literals parse script = map_option collect_literals (safe_bash_tree parse script)"

definition safe_bash_commands :: "(string \<Rightarrow> bash_node option) \<Rightarrow> string \<Rightarrow> string list option" where
  "safe_bash_commands parse script = map_option (\<lambda>root. remdups_adj (sort (collect_commands root))) (safe_bash_tree parse script)"

section \<open>The grammar of options\<close>

text \<open>
  What an argument list may look like, independently of the loop that checks it: operands, flag
  clusters, long flags, and options followed by one value.
\<close>

inductive option_grammar ::
  "char list \<Rightarrow> string list \<Rightarrow> (string \<times> option_value_kind) list \<Rightarrow> (string \<times> option_value_kind) list \<Rightarrow> string list \<Rightarrow> bool"
  for flags longs shorts_v longs_v where
  no_more: "option_grammar flags longs shorts_v longs_v []"
| operand: "\<not> str_starts_with v ''-'' \<Longrightarrow> option_grammar flags longs shorts_v longs_v rest
    \<Longrightarrow> option_grammar flags longs shorts_v longs_v (v # rest)"
| long_flag: "v \<in> set longs \<Longrightarrow> option_grammar flags longs shorts_v longs_v rest
    \<Longrightarrow> option_grammar flags longs shorts_v longs_v (v # rest)"
| with_value: "map_of shorts_v v = Some k \<or> map_of longs_v v = Some k \<Longrightarrow> option_value_is_allowed u k
    \<Longrightarrow> option_grammar flags longs shorts_v longs_v rest \<Longrightarrow> option_grammar flags longs shorts_v longs_v (v # u # rest)"
| cluster: "cs \<noteq> [] \<Longrightarrow> set cs \<subseteq> set flags \<Longrightarrow> option_grammar flags longs shorts_v longs_v rest
    \<Longrightarrow> option_grammar flags longs shorts_v longs_v ((CHR ''-'' # cs) # rest)"

text \<open>A table of options is unambiguous: no word of it can be read in two ways.\<close>

definition option_table_ok ::
  "char list \<Rightarrow> string list \<Rightarrow> (string \<times> option_value_kind) list \<Rightarrow> (string \<times> option_value_kind) list \<Rightarrow> bool" where
  "option_table_ok flags longs shorts_v longs_v \<longleftrightarrow>
     CHR ''-'' \<notin> set flags
     \<and> list_all (\<lambda>l. str_starts_with l ''--'') longs
     \<and> list_all (\<lambda>(l, _). str_starts_with l ''--'' \<and> l \<notin> set longs) longs_v
     \<and> list_all (\<lambda>(s, _). str_starts_with s ''-'' \<and> \<not> str_starts_with s ''--'' \<and> s \<noteq> ''-''
                          \<and> \<not> set (tl s) \<subseteq> set flags) shorts_v"

lemma allow_options_step:
  assumes "arguments_allow_options (v # rest) flags longs shorts_v longs_v"
  obtains (operand) "\<not> str_starts_with v ''-''" "arguments_allow_options rest flags longs shorts_v longs_v"
  | (long_flag) "v \<in> set longs" "arguments_allow_options rest flags longs shorts_v longs_v"
  | (with_value) k u rest' where "map_of shorts_v v = Some k \<or> map_of longs_v v = Some k" "rest = u # rest'"
      "option_value_is_allowed u k" "arguments_allow_options rest' flags longs shorts_v longs_v"
  | (cluster) cs where "v = CHR ''-'' # cs" "cs \<noteq> []" "set cs \<subseteq> set flags" "arguments_allow_options rest flags longs shorts_v longs_v"
proof (cases "strip_prefix ''--'' v")
  case (Some opt)
  then have v: "''--'' @ opt = v" by (simp add: strip_prefix_Some_iff)
  show ?thesis
  proof (cases "v \<in> set longs")
    case True
    with assms Some v long_flag show ?thesis by (simp add: Let_def split: if_splits)
  next
    case False
    with assms Some v obtain k u rest' where "map_of longs_v v = Some k" "rest = u # rest'" "option_value_is_allowed u k"
        "arguments_allow_options rest' flags longs shorts_v longs_v"
      by (simp add: Let_def split: if_splits option.splits list.splits)
    then show ?thesis by (intro with_value) auto
  qed
next
  case None
  show ?thesis
  proof (cases "str_starts_with v ''-''")
    case False
    with assms None operand show ?thesis by (simp split: if_splits)
  next
    case True
    then obtain cs where cs: "v = CHR ''-'' # cs" by (auto simp: str_starts_with_iff)
    show ?thesis
    proof (cases "map_of shorts_v v")
      case (Some k)
      with assms None True obtain u rest' where "rest = u # rest'" "option_value_is_allowed u k"
          "arguments_allow_options rest' flags longs shorts_v longs_v"
        by (simp split: if_splits list.splits)
      with Some show ?thesis by (intro with_value) auto
    next
      case n: None
      have "strip_prefix ''-'' v = Some cs" by (simp add: cs strip_prefix_Some_iff)
      with assms None True n have "cs \<noteq> []" "set cs \<subseteq> set flags" "arguments_allow_options rest flags longs shorts_v longs_v"
        by (simp_all add: list_all_iff subset_iff split: if_splits)
      with cs cluster show ?thesis by blast
    qed
  qed
qed

lemma allow_options_sound:
  "arguments_allow_options args flags longs shorts_v longs_v \<Longrightarrow> option_grammar flags longs shorts_v longs_v args"
proof (induction args rule: length_induct)
  case (1 args)
  show ?case
  proof (cases args)
    case (Cons v rest)
    from 1(2) [unfolded Cons] show ?thesis
      by (cases rule: allow_options_step) (use 1(1) Cons in \<open>auto intro: option_grammar.intros\<close>)
  qed (simp add: no_more)
qed

lemma allow_options_complete:
  assumes "option_table_ok flags longs shorts_v longs_v" "option_grammar flags longs shorts_v longs_v args"
  shows "arguments_allow_options args flags longs shorts_v longs_v"
  using assms(2)
proof (induction rule: option_grammar.induct)
  case (operand v rest)
  then have "v \<noteq> ''-''" "strip_prefix ''--'' v = None"
    by (auto simp: str_starts_with_iff strip_prefix_def)
  with operand show ?case by simp
next
  case (long_flag v rest)
  then obtain r where "v = ''--'' @ r"
    using assms(1) by (auto simp: option_table_ok_def list_all_iff str_starts_with_iff)
  with long_flag show ?case by (simp add: strip_prefix_def str_starts_with_iff Let_def)
next
  case (with_value v k u rest)
  show ?case
  proof (cases "map_of longs_v v = Some k")
    case True
    then have "(v, k) \<in> set longs_v" by (rule map_of_SomeD)
    then obtain r where "v = ''--'' @ r" "v \<notin> set longs"
      using assms(1) by (fastforce simp: option_table_ok_def list_all_iff str_starts_with_iff)
    with True with_value show ?thesis by (simp add: strip_prefix_def str_starts_with_iff Let_def)
  next
    case False
    with with_value(1) have s: "map_of shorts_v v = Some k" by simp
    then have "(v, k) \<in> set shorts_v" by (rule map_of_SomeD)
    then have "str_starts_with v ''-''" "\<not> str_starts_with v ''--''" "v \<noteq> ''-''"
      using assms(1) by (auto simp: option_table_ok_def list_all_iff)
    with s with_value show ?thesis by (simp add: strip_prefix_def)
  qed
next
  case (cluster cs rest)
  from assms(1) cluster(2) have "CHR ''-'' \<notin> set cs" by (auto simp: option_table_ok_def)
  then have long: "strip_prefix ''--'' (CHR ''-'' # cs) = None" "cs \<noteq> [] \<Longrightarrow> CHR ''-'' # cs \<noteq> ''-''"
    by (auto simp: strip_prefix_def str_starts_with_iff)
  have "map_of shorts_v (CHR ''-'' # cs) = None"
  proof (rule ccontr)
    assume "map_of shorts_v (CHR ''-'' # cs) \<noteq> None"
    then obtain k where "(CHR ''-'' # cs, k) \<in> set shorts_v" by (auto dest: map_of_SomeD)
    with assms(1) cluster(2) show False by (fastforce simp: option_table_ok_def list_all_iff)
  qed
  with long cluster show ?case
    by (auto simp: strip_prefix_def str_starts_with_iff list_all_iff)
qed simp

text \<open>
  On every unambiguous option table the checking loop accepts exactly the argument lists
  of the option grammar; it neither lets an unknown option through nor refuses a known one.
\<close>

theorem options_loop_is_the_grammar:
  assumes "option_table_ok flags longs shorts_v longs_v"
  shows "arguments_allow_options args flags longs shorts_v longs_v \<longleftrightarrow> option_grammar flags longs shorts_v longs_v args"
  using assms allow_options_sound allow_options_complete by blast

theorem options_loop_is_the_grammar_witness:
  "arguments_allow_options [''-n'', ''-A'', ''3'', ''--hidden'', ''needle''] ''niSFwxlc'' [''--files'', ''--hidden'', ''--no-heading'', ''--no-ignore'']
     [(''-A'', DecimalValue), (''-B'', DecimalValue), (''-C'', DecimalValue), (''-g'', LiteralValue)]
     [(''--glob'', LiteralValue), (''--type'', LiteralValue), (''--type-not'', LiteralValue), (''--max-count'', DecimalValue)]
   \<and> option_grammar ''niSFwxlc'' [''--files'', ''--hidden'', ''--no-heading'', ''--no-ignore'']
     [(''-A'', DecimalValue), (''-B'', DecimalValue), (''-C'', DecimalValue), (''-g'', LiteralValue)]
     [(''--glob'', LiteralValue), (''--type'', LiteralValue), (''--type-not'', LiteralValue), (''--max-count'', DecimalValue)]
     [''-n'', ''-A'', ''3'', ''--hidden'', ''needle'']"
proof -
  have table: "option_table_ok ''niSFwxlc'' [''--files'', ''--hidden'', ''--no-heading'', ''--no-ignore'']
     [(''-A'', DecimalValue), (''-B'', DecimalValue), (''-C'', DecimalValue), (''-g'', LiteralValue)]
     [(''--glob'', LiteralValue), (''--type'', LiteralValue), (''--type-not'', LiteralValue), (''--max-count'', DecimalValue)]"
    by (simp add: option_table_ok_def str_starts_with_def)
  have "arguments_allow_options [''-n'', ''-A'', ''3'', ''--hidden'', ''needle''] ''niSFwxlc'' [''--files'', ''--hidden'', ''--no-heading'', ''--no-ignore'']
     [(''-A'', DecimalValue), (''-B'', DecimalValue), (''-C'', DecimalValue), (''-g'', LiteralValue)]
     [(''--glob'', LiteralValue), (''--type'', LiteralValue), (''--type-not'', LiteralValue), (''--max-count'', DecimalValue)]"
    by (simp add: strip_prefix_def str_starts_with_def option_value_is_allowed_def is_ascii_digit_def Let_def)
  with options_loop_is_the_grammar [OF table] show ?thesis by blast
qed

section \<open>What an accepted script consists of\<close>

definition statement_kinds :: "string list" where
  "statement_kinds = [''program'', ''list'', ''pipeline'', ''command'', ''redirected_statement'']"

definition read_only_commands :: "string list" where
  "read_only_commands = [''pwd'', ''true'', ''false'', ''ls'', ''rg'', ''grep'', ''cat'', ''head'', ''tail'', ''wc'', ''stat'', ''file'', ''cd'']"

text \<open>
  The nodes of a script: all below a statement, the named ones below a literal or a redirection.  The inside of single
  quotes and the two descriptors of \<open>2>&1\<close> are not looked at.
\<close>

definition nodes_below :: "bash_node \<Rightarrow> bash_node list" where
  "nodes_below n =
     (if node_kind n \<in> set statement_kinds then node_children n
      else if node_kind n \<in> set [''command_name'', ''word'', ''string'', ''number''] then named_children n
      else if node_kind n = ''file_redirect'' \<and> map_option remove_whitespace (node_text n) \<noteq> Some ''2>&1'' then named_children n
      else [])"

lemma nodes_below_child: "c \<in> set (nodes_below n) \<Longrightarrow> c \<in> set (node_children n)"
  by (auto simp: nodes_below_def named_children_def split: if_splits)

function script_nodes :: "bash_node \<Rightarrow> bash_node list" where
  "script_nodes n = n # concat (map script_nodes (nodes_below n))"
  by pat_completeness auto
termination
  by (relation "measure size") (auto dest: nodes_below_child size_child)

declare script_nodes.simps [simp del]

lemma script_nodes_iff: "m \<in> set (script_nodes n) \<longleftrightarrow> m = n \<or> (\<exists>c \<in> set (nodes_below n). m \<in> set (script_nodes c))"
  by (auto simp: script_nodes.simps [of n])

text \<open>The word a literal stands for: its text, without the quotes.\<close>

function literal_value :: "bash_node \<Rightarrow> string" where
  "literal_value n =
     (if node_kind n = ''command_name'' then (case named_children n of [c] \<Rightarrow> literal_value c | _ \<Rightarrow> [])
      else case node_text n of
             None \<Rightarrow> []
           | Some t \<Rightarrow> if node_kind n \<in> set [''raw_string'', ''string''] then butlast (tl t) else t)"
  by pat_completeness auto
termination
proof (relation "measure size")
  fix n c and cs :: "bash_node list"
  assume "named_children n = c # cs"
  then have "c \<in> set (named_children n)" by simp
  then show "(c, n) \<in> measure size" by (simp add: named_children_def size_child)
qed simp

declare literal_value.simps [simp del]

text \<open>
  Options with which one of these commands does more than read and end: \<open>rg\<close> starts other programs, \<open>file\<close> compiles a
  magic file, \<open>tail\<close> waits for more.  An argument of this form is harmless only as the value of an option of \<open>rg\<close>.
\<close>

definition acting_option :: "string \<Rightarrow> string \<Rightarrow> bool" where
  "acting_option name a \<longleftrightarrow>
     name = ''rg'' \<and> (list_ex (str_starts_with a) [''--pre'', ''--search-zip'', ''--hostname-bin'']
                    \<or> str_starts_with a ''-'' \<and> \<not> str_starts_with a ''--'' \<and> CHR ''z'' \<in> set a)
   \<or> name = ''file'' \<and> (str_starts_with a ''--c'' \<or> str_starts_with a ''-'' \<and> \<not> str_starts_with a ''--'' \<and> CHR ''C'' \<in> set a)
   \<or> name = ''tail'' \<and> (list_ex (str_starts_with a) [''--f'', ''--r'']
                    \<or> str_starts_with a ''-'' \<and> \<not> str_starts_with a ''--'' \<and> (CHR ''f'' \<in> set a \<or> CHR ''F'' \<in> set a))"

fun harmless_arguments :: "string \<Rightarrow> string \<Rightarrow> string list \<Rightarrow> bool" where
  "harmless_arguments name before [] = True"
| "harmless_arguments name before (a # as) \<longleftrightarrow>
     (acting_option name a \<longrightarrow> name = ''rg'' \<and> before \<in> set [''-g'', ''--glob'', ''--type'', ''--type-not''])
     \<and> harmless_arguments name a as"

text \<open>What each node of a script that only reads looks like, whatever the checks of the classifier are.\<close>

definition reads_only :: "bash_node \<Rightarrow> bool" where
  "reads_only m \<longleftrightarrow>
     (if \<not> node_named m then node_kind m \<in> set ['';'', ''&&'', ''||'', ''|'']
      else if node_kind m = ''command'' then
        (\<exists>d. filter (\<lambda>c. node_kind c = ''command_name'') (node_children m) = [d]
           \<and> literal_value d \<in> set read_only_commands
           \<and> (let args = map literal_value (filter (\<lambda>c. node_kind c \<notin> set [''command_name'', ''file_redirect'']) (node_children m))
              in command_words None [] (node_children m) = Some (literal_value d, args)
                 \<and> command_arguments_are_allowed (literal_value d) args \<and> harmless_arguments (literal_value d) [] args))
      else if node_kind m = ''file_redirect'' then
        (\<exists>t. node_text m = Some t \<and> (remove_whitespace t = ''2>&1''
           \<or> str_starts_with (remove_whitespace t) ''<'' \<and> CHR ''>'' \<notin> set (remove_whitespace t) \<and> CHR ''&'' \<notin> set (remove_whitespace t)))
      else if node_kind m = ''word'' then
        (\<exists>t. node_text m = Some t \<and> t \<noteq> []
           \<and> set t \<inter> {CHR ''$'', CHR ''~'', CHR ''*'', CHR ''?'', CHR ''['', CHR '']'', CHR 0x7B, CHR 0x7D, CHR 0x60, CHR 0x5C} = {})
      else if node_kind m = ''raw_string'' then (\<exists>t. node_text m = Some (CHR 0x27 # t @ [CHR 0x27]))
      else if node_kind m = ''string'' then (\<exists>t. node_text m = Some (CHR 0x22 # t @ [CHR 0x22]))
      else node_kind m \<in> set statement_kinds \<union> {''command_name'', ''number'', ''string_content''})"

subsection \<open>Literals\<close>

lemma quoted_literal_text:
  "quoted_literal n q = Some v \<longleftrightarrow> node_text n = Some (q # v @ [q])"
proof
  assume "quoted_literal n q = Some v"
  then obtain t where t: "node_text n = Some t" "length t \<ge> 2" "str_starts_with t [q]" "str_ends_with t [q]"
      "v = take (length t - 1 - 1) (drop 1 t)"
    by (auto simp: quoted_literal_def split: option.splits if_splits)
  from t(3) obtain u where u: "t = q # u" by (auto simp: str_starts_with_iff)
  with t(2,4) have "u \<noteq> []" "last u = q" by (auto simp: str_ends_with_iff Cons_eq_append_conv)
  with u t(1,5) show "node_text n = Some (q # v @ [q])" by (metis One_nat_def append_butlast_last_id butlast_conv_take diff_Suc_1 drop_0 drop_Suc_Cons length_Cons)
next
  assume "node_text n = Some (q # v @ [q])"
  then show "quoted_literal n q = Some v" by (simp add: quoted_literal_def str_starts_with_def str_ends_with_def)
qed

lemma literal_kind:
  "literal_from_node n = Some v \<Longrightarrow> node_kind n \<in> set [''command_name'', ''word'', ''raw_string'', ''string'', ''number'']"
  by (subst (asm) literal_from_node.simps) (auto split: if_splits)

lemma literal_from_node_value: "literal_from_node n = Some v \<Longrightarrow> literal_value n = v"
proof (induction n rule: measure_induct_rule [where f = size])
  case (less n)
  show ?case
  proof (cases "node_kind n = ''command_name''")
    case True
    with less.prems obtain c where c: "named_children n = [c]" "literal_from_node c = Some v"
      by (subst (asm) literal_from_node.simps) (auto split: list.splits)
    then have "c \<in> set (node_children n)" by (auto simp: named_children_def filter_eq_Cons_iff)
    from less.IH [OF size_child [OF this] c(2)] True c(1) show ?thesis by (simp add: literal_value.simps [of n])
  next
    case False
    with less.prems show ?thesis
      by (subst (asm) literal_from_node.simps)
         (auto simp: literal_value.simps [of n] quoted_literal_text split: if_splits option.splits)
  qed
qed

lemma literal_nodes_read_only:
  "literal_from_node n = Some v \<Longrightarrow> node_named n \<Longrightarrow> m \<in> set (script_nodes n) \<Longrightarrow> reads_only m"
proof (induction n arbitrary: v rule: measure_induct_rule [where f = size])
  case (less n)
  have self: "reads_only n"
    using less.prems(1,2)
    by (subst (asm) literal_from_node.simps)
       (auto simp: reads_only_def quoted_literal_text is_unquoted_expansion_character_def list_ex_iff
          split: if_splits option.splits)
  have below: "node_named c \<and> ((\<exists>u. literal_from_node c = Some u) \<or> node_kind c = ''string_content'')" if "c \<in> set (nodes_below n)" for c
  proof -
    have c: "c \<in> set (named_children n)"
      using that literal_kind [OF less.prems(1)] by (auto simp: nodes_below_def statement_kinds_def split: if_splits)
    then have "(\<exists>u. literal_from_node c = Some u) \<or> node_kind c = ''string_content''"
      using that less.prems(1) [unfolded literal_from_node.simps [of n]]
      by (auto simp: nodes_below_def statement_kinds_def list_ex_iff split: if_splits list.splits option.splits)
    with c show ?thesis by (simp add: named_children_def)
  qed
  show ?case
  proof (cases "m = n")
    case False
    with less.prems(3) obtain c where c: "c \<in> set (nodes_below n)" "m \<in> set (script_nodes c)"
      by (auto simp: script_nodes_iff [of m n])
    note small = size_child [OF nodes_below_child [OF c(1)]]
    from below [OF c(1)] show ?thesis
    proof (elim conjE disjE exE)
      assume "node_kind c = ''string_content''" "node_named c"
      moreover from this c(2) have "m = c" by (simp add: script_nodes.simps [of c] nodes_below_def statement_kinds_def)
      ultimately show ?thesis by (simp add: reads_only_def)
    qed (use less.IH [OF small] c(2) in blast)
  qed (use self in simp)
qed

subsection \<open>Commands and redirections\<close>

lemma allowed_command_known: "command_arguments_are_allowed name args \<Longrightarrow> name \<in> set read_only_commands"
  by (auto simp: command_arguments_are_allowed_def read_only_commands_def split: if_splits)

lemma redirect_nodes_read_only:
  assumes "is_safe_redirect n" "node_kind n = ''file_redirect''" "node_named n" "m \<in> set (script_nodes n)"
  shows "reads_only m"
proof (cases "m = n")
  case True
  with assms show ?thesis
    by (auto simp: is_safe_redirect_def reads_only_def Let_def str_contains_iff in_set_conv_decomp split: option.splits if_splits)
next
  case False
  with assms(4) obtain c where c: "c \<in> set (nodes_below n)" "m \<in> set (script_nodes c)"
    by (auto simp: script_nodes_iff [of m n])
  with assms(1,2) have "c \<in> set (named_children n)" "literal_from_node c \<noteq> None"
    by (auto simp: is_safe_redirect_def nodes_below_def statement_kinds_def Let_def split: option.splits if_splits list.splits)
  with c(2) literal_nodes_read_only show ?thesis by (auto simp: named_children_def)
qed

lemma command_words_children:
  "command_words name args cs = Some r \<Longrightarrow> c \<in> set cs \<Longrightarrow>
   node_named c \<and> (node_kind c = ''file_redirect'' \<and> is_safe_redirect c \<or> (\<exists>v. literal_from_node c = Some v))"
  by (induction name args cs rule: command_words.induct) (auto split: if_splits option.splits)

lemma command_words_values:
  "command_words name args cs = Some (nm, args') \<Longrightarrow>
   map Some (map literal_value (filter (\<lambda>c. node_kind c = ''command_name'') cs)) = (if name = None then [Some nm] else [])
   \<and> (name \<noteq> None \<longrightarrow> name = Some nm)
   \<and> args' = args @ map literal_value (filter (\<lambda>c. node_kind c \<notin> set [''command_name'', ''file_redirect'']) cs)"
  by (induction name args cs rule: command_words.induct)
     (auto split: if_splits option.splits dest: literal_from_node_value)

text \<open>No table of allowed options has an option that does more than read.\<close>

lemma decimal_not_acting: "option_value_is_allowed u DecimalValue \<Longrightarrow> \<not> acting_option name u"
  by (cases u) (auto simp: option_value_is_allowed_def acting_option_def str_starts_with_def is_ascii_digit_def)

lemma allowed_options_harmless:
  assumes "arguments_allow_options args flags longs shorts_v longs_v"
    and long: "\<And>v. v \<in> set longs \<Longrightarrow> \<not> acting_option name v"
    and valued: "\<And>v k. (v, k) \<in> set shorts_v \<union> set longs_v \<Longrightarrow>
       \<not> acting_option name v \<and> (k = LiteralValue \<longrightarrow> name = ''rg'' \<and> v \<in> set [''-g'', ''--glob'', ''--type'', ''--type-not''])"
    and flag: "\<And>cs. set cs \<subseteq> set flags \<Longrightarrow> \<not> acting_option name (CHR ''-'' # cs)"
  shows "harmless_arguments name before args"
  using allow_options_sound [OF assms(1)]
proof (induction arbitrary: before rule: option_grammar.induct)
  case (operand v rest)
  then have "\<not> acting_option name v" by (auto simp: acting_option_def str_starts_with_iff)
  with operand show ?case by simp
next
  case (with_value v k u rest)
  then have "(v, k) \<in> set shorts_v \<union> set longs_v" by (auto dest: map_of_SomeD)
  from valued [OF this] with_value(2,4) decimal_not_acting show ?case by (cases k) auto
qed (use long flag in auto)

lemma allowed_arguments_harmless:
  assumes "command_arguments_are_allowed name args"
  shows "harmless_arguments name before args"
proof -
  consider "name = ''rg''" | "name = ''file''" | "name = ''tail''" | "\<And>a. \<not> acting_option name a"
    by (auto simp: acting_option_def)
  then show ?thesis
  proof cases
    case 1
    with assms have "arguments_allow_options args ''niSFwxlc'' [''--files'', ''--hidden'', ''--no-heading'', ''--no-ignore'']
          [(''-A'', DecimalValue), (''-B'', DecimalValue), (''-C'', DecimalValue), (''-g'', LiteralValue)]
          [(''--glob'', LiteralValue), (''--type'', LiteralValue), (''--type-not'', LiteralValue), (''--max-count'', DecimalValue)]"
      by (simp add: command_arguments_are_allowed_def)
    then show ?thesis
      by (rule allowed_options_harmless) (auto simp: 1 acting_option_def str_starts_with_iff)
  next
    case 2
    with assms have "arguments_allow_options args ''b'' [''--brief'', ''--mime'', ''--mime-type''] [] []"
      by (simp add: command_arguments_are_allowed_def)
    then show ?thesis
      by (rule allowed_options_harmless) (auto simp: 2 acting_option_def str_starts_with_iff)
  next
    case 3
    with assms have "arguments_allow_options args [] [] [(''-n'', DecimalValue), (''-c'', DecimalValue)] [(''--lines'', DecimalValue)]"
      by (simp add: command_arguments_are_allowed_def)
    then show ?thesis
      by (rule allowed_options_harmless) (auto simp: 3 acting_option_def str_starts_with_iff)
  next
    case 4
    then have "harmless_arguments name b args" for b by (induction args arbitrary: b) auto
    then show ?thesis .
  qed
qed

lemma redirected_loop_children:
  "redirected_loop hc hr cs \<Longrightarrow> c \<in> set cs \<Longrightarrow>
   node_named c \<and> (node_kind c = ''command'' \<and> is_safe_command c \<or> node_kind c = ''file_redirect'' \<and> is_safe_redirect c)"
  by (induction hc hr cs rule: redirected_loop.induct) (auto split: if_splits)

lemma separator_nodes: "node_kind n \<in> set ['';'', ''&&'', ''||'', ''|''] \<Longrightarrow> script_nodes n = [n]"
  by (auto simp: script_nodes.simps [of n] nodes_below_def statement_kinds_def)

lemma statement_nodes_iff:
  "node_kind n \<in> set statement_kinds \<Longrightarrow>
   m \<in> set (script_nodes n) \<longleftrightarrow> m = n \<or> (\<exists>c \<in> set (node_children n). m \<in> set (script_nodes c))"
  by (auto simp: script_nodes_iff [of m n] nodes_below_def)

lemma safe_command_nodes:
  assumes "is_safe_command n" "node_kind n = ''command''" "m \<in> set (script_nodes n)" "node_named n"
  shows "reads_only m"
proof -
  from assms(1) obtain name args where words: "command_words None [] (node_children n) = Some (name, args)"
      "command_arguments_are_allowed name args"
    by (auto simp: is_safe_command_def split: option.splits)
  from command_words_values [OF words(1)] obtain d where
    d: "filter (\<lambda>c. node_kind c = ''command_name'') (node_children n) = [d]" "literal_value d = name"
      "args = map literal_value (filter (\<lambda>c. node_kind c \<notin> set [''command_name'', ''file_redirect'']) (node_children n))"
    by auto
  have "reads_only n"
    using words assms(2,4) d allowed_command_known allowed_arguments_harmless by (simp add: reads_only_def Let_def)
  moreover have "reads_only m" if "c \<in> set (node_children n)" "m \<in> set (script_nodes c)" for c
    using command_words_children [OF words(1) that(1)] that(2) redirect_nodes_read_only literal_nodes_read_only by blast
  ultimately show ?thesis using assms(2,3) by (auto simp: statement_nodes_iff statement_kinds_def)
qed

lemma safe_redirected_nodes:
  assumes "is_safe_redirected_statement n" "c \<in> set (node_children n)" "m \<in> set (script_nodes c)"
  shows "reads_only m"
  using redirected_loop_children [OF assms(1) [unfolded is_safe_redirected_statement_def] assms(2)] assms(3)
    safe_command_nodes redirect_nodes_read_only
  by blast

lemma safe_pipeline_nodes:
  assumes "is_safe_pipeline n" "c \<in> set (node_children n)" "m \<in> set (script_nodes c)"
  shows "reads_only m"
proof (cases "node_named c")
  case True
  with assms(1,2) have "is_safe_command c" "node_kind c = ''command''" by (auto simp: is_safe_pipeline_def list_all_iff)
  then show ?thesis using assms(3) True by (rule safe_command_nodes)
next
  case False
  with assms(1,2) have "node_kind c = ''|''" by (auto simp: is_safe_pipeline_def list_all_iff)
  with False assms(3) separator_nodes [of c] show ?thesis by (simp add: reads_only_def)
qed

lemma safe_script_nodes:
  "is_safe_script_node n \<Longrightarrow> node_named n \<Longrightarrow> m \<in> set (script_nodes n) \<Longrightarrow> reads_only m"
proof (induction n rule: measure_induct_rule [where f = size])
  case (less n)
  have loop: ?case if sep_ok: "list_all (\<lambda>c. if node_named c then is_safe_script_node c else node_kind c \<in> set ['';'', ''&&'', ''||'']) (node_children n)"
      and kind: "node_kind n \<in> set [''program'', ''list'']"
  proof (cases "m = n")
    case True
    with kind less.prems(2) show ?thesis by (auto simp: reads_only_def statement_kinds_def)
  next
    case False
    with less.prems(3) obtain c where c: "c \<in> set (node_children n)" "m \<in> set (script_nodes c)"
      using kind by (auto simp: statement_nodes_iff statement_kinds_def)
    show ?thesis
    proof (cases "node_named c")
      case True
      with sep_ok c(1) have "is_safe_script_node c" by (auto simp: list_all_iff)
      from less.IH [OF size_child [OF c(1)] this True c(2)] show ?thesis .
    next
      case False
      with sep_ok c(1) have "node_kind c \<in> set ['';'', ''&&'', ''||'']" by (auto simp: list_all_iff)
      with separator_nodes [of c] c(2) False show ?thesis by (auto simp: reads_only_def)
    qed
  qed
  have below: "\<exists>c \<in> set (node_children n). m \<in> set (script_nodes c)"
    if "node_kind n \<in> set [''pipeline'', ''redirected_statement'']" "\<not> reads_only m"
    using that less.prems(2,3) by (auto simp: statement_nodes_iff reads_only_def statement_kinds_def)
  from less.prems(1) consider "node_kind n = ''program''" "is_safe_program n" | "node_kind n = ''list''" "is_safe_list n"
    | "node_kind n = ''pipeline''" "is_safe_pipeline n" | "node_kind n = ''command''" "is_safe_command n"
    | "node_kind n = ''redirected_statement''" "is_safe_redirected_statement n"
    by (auto simp: is_safe_script_node.simps [of n] split: if_splits)
  then show ?case
  proof cases
    case 1
    then show ?thesis by (intro loop) (auto simp: is_safe_program.simps [of n] list_all_iff)
  next
    case 2
    then show ?thesis by (intro loop) (auto simp: is_safe_list.simps [of n] list_all_iff)
  next
    case 3
    with below safe_pipeline_nodes show ?thesis by fastforce
  next
    case 4
    with safe_command_nodes less.prems show ?thesis by blast
  next
    case 5
    with below safe_redirected_nodes show ?thesis by fastforce
  qed
qed

text \<open>
  Property C12.  A script the classifier accepts only reads.  Whatever tree the parser produced, every command in it is
  one of the thirteen read-only commands, named and called with the literal words of its nodes, all of its whitelist and
  none of them an option that starts another program, writes a file or waits; every word is plain text without a
  character the shell expands, every double-quoted string holds only text, every redirection is \<open>2>&1\<close> or reads from a
  literal file, the only separators are \<open>;\<close>, \<open>&&\<close>, \<open>||\<close> and \<open>|\<close>, and nothing else occurs at any depth outside single
  quotes: no background job, subshell, assignment, substitution, expansion or loop.
\<close>

theorem accepted_script_only_reads:
  assumes "bash_script_is_concurrency_safe parse script" and "parse script = Some root" and "node_named root"
  shows "\<forall>m \<in> set (script_nodes root). reads_only m"
proof -
  have "is_safe_script_node root"
    using assms(1,2) by (auto simp: bash_script_is_concurrency_safe_def safe_bash_tree_def split: if_splits)
  with assms(3) safe_script_nodes show ?thesis by blast
qed

section \<open>The commands of a script\<close>

text \<open>The command nodes of the statement part of a tree.\<close>

function statement_nodes :: "bash_node \<Rightarrow> bash_node list" where
  "statement_nodes n =
     n # (if node_kind n \<in> set statement_kinds then concat (map statement_nodes (node_children n)) else [])"
  by pat_completeness auto
termination
  by (relation "measure size") (auto dest: size_child)

declare statement_nodes.simps [simp del]

lemma statement_nodes_below: "set (statement_nodes n) \<subseteq> set (script_nodes n)"
proof (induction n rule: measure_induct_rule [where f = size])
  case (less n)
  then show ?case
    using size_child by (fastforce simp: statement_nodes.simps [of n] script_nodes.simps [of n] nodes_below_def)
qed

definition script_commands :: "bash_node \<Rightarrow> bash_node list" where
  "script_commands root = filter (\<lambda>m. node_named m \<and> node_kind m = ''command'') (statement_nodes root)"

lemma command_words_name:
  "command_words nm args cs = Some (name, args') \<Longrightarrow>
   nm = Some name \<or> (\<exists>c \<in> set cs. node_named c \<and> node_kind c = ''command_name'' \<and> literal_from_node c = Some name)"
  by (induction nm args cs rule: command_words.induct) (auto split: if_splits option.splits)

lemma collect_commands_child:
  "c \<in> set (node_children n) \<Longrightarrow> node_named c \<Longrightarrow> node_kind n \<noteq> ''command_name'' \<Longrightarrow>
   set (collect_commands c) \<subseteq> set (collect_commands n)"
  by (subst (2) collect_commands.simps) (auto simp: named_children_def)

lemma collect_commands_below:
  "m \<in> set (statement_nodes n) \<Longrightarrow> node_named n \<Longrightarrow> (\<forall>x \<in> set (statement_nodes n). reads_only x) \<Longrightarrow> node_named m \<Longrightarrow>
   set (collect_commands m) \<subseteq> set (collect_commands n)"
proof (induction n rule: measure_induct_rule [where f = size])
  case (less n)
  show ?case
  proof (cases "m = n")
    case False
    with less.prems(1) obtain c where c: "node_kind n \<in> set statement_kinds" "c \<in> set (node_children n)" "m \<in> set (statement_nodes c)"
      by (auto simp: statement_nodes.simps [of n] split: if_splits)
    have sub: "set (statement_nodes c) \<subseteq> set (statement_nodes n)" using c by (auto simp: statement_nodes.simps [of n])
    have "node_named c"
    proof (rule ccontr)
      assume u: "\<not> node_named c"
      have "c \<in> set (statement_nodes c)" by (simp add: statement_nodes.simps [of c])
      with sub less.prems(3) have "reads_only c" by blast
      with u have "node_kind c \<notin> set statement_kinds" by (auto simp: reads_only_def statement_kinds_def)
      with c(3) u less.prems(4) show False by (simp add: statement_nodes.simps [of c])
    qed
    moreover have "set (collect_commands c) \<subseteq> set (collect_commands n)"
      using c \<open>node_named c\<close> by (intro collect_commands_child) (auto simp: statement_kinds_def)
    ultimately show ?thesis using less.IH [OF size_child [OF c(2)] c(3)] sub less.prems(3,4) by blast
  qed simp
qed

text \<open>
  The command list used to check the environment of a background script misses none:
  it is sorted and without repetitions, and the name of every command of an accepted script is in it.
\<close>

theorem safe_bash_commands_complete:
  assumes "safe_bash_commands parse script = Some names" and "parse script = Some root" and "node_named root"
  shows "sorted names \<and> distinct names
     \<and> (\<forall>c \<in> set (script_commands root). \<exists>name args. command_words None [] (node_children c) = Some (name, args)
          \<and> name \<in> set names \<and> name \<in> set read_only_commands)"
proof -
  from assms(1,2) have safe: "is_safe_script_node root" and names: "names = remdups_adj (sort (collect_commands root))"
    by (auto simp: safe_bash_commands_def safe_bash_tree_def split: if_splits)
  have all: "\<forall>m \<in> set (statement_nodes root). reads_only m"
    using safe_script_nodes safe assms(3) statement_nodes_below by blast
  have "\<exists>name args. command_words None [] (node_children c) = Some (name, args) \<and> name \<in> set names \<and> name \<in> set read_only_commands"
    if "c \<in> set (script_commands root)" for c
  proof -
    from that have c: "c \<in> set (statement_nodes root)" "node_named c" "node_kind c = ''command''"
      by (auto simp: script_commands_def)
    with all have "reads_only c" by blast
    with c obtain name args where w: "command_words None [] (node_children c) = Some (name, args)" "name \<in> set read_only_commands"
      by (auto simp: reads_only_def Let_def)
    from command_words_name [OF w(1)] obtain d where d: "d \<in> set (node_children c)" "node_named d"
        "node_kind d = ''command_name''" "literal_from_node d = Some name" by auto
    have "name \<in> set (collect_commands d)" using d by (simp add: collect_commands.simps)
    then have "name \<in> set (collect_commands c)" using collect_commands_child [OF d(1,2)] c(3) by auto
    then have "name \<in> set names" using collect_commands_below [OF c(1) assms(3) all c(2)] names by auto
    with w show ?thesis by blast
  qed
  moreover have "sorted names" "distinct names"
    using names by (simp_all add: distinct_remdups_adj_sorted)
  ultimately show ?thesis by blast
qed

section \<open>A concrete script\<close>

text \<open>The tree of the script \<open>ls -l\<close>, and a parser that knows it.\<close>

definition demo_leaf :: "string \<Rightarrow> string \<Rightarrow> bash_node" where
  "demo_leaf k t = BashNode k True False False (Some t) []"

definition demo_ls :: bash_node where
  "demo_ls = BashNode ''command'' True False False (Some ''ls -l'')
     [BashNode ''command_name'' True False False (Some ''ls'') [demo_leaf ''word'' ''ls''], demo_leaf ''word'' ''-l'']"

definition demo_tree :: bash_node where
  "demo_tree = BashNode ''program'' True False False (Some ''ls -l'') [demo_ls]"

definition demo_parse :: "string \<Rightarrow> bash_node option" where
  "demo_parse s = (if s = ''ls -l'' then Some demo_tree else None)"

lemma demo_words: "command_words None [] (node_children demo_ls) = Some (''ls'', [''-l''])"
  by (simp add: demo_ls_def demo_leaf_def literal_from_node.simps named_children_def is_unquoted_expansion_character_def)

lemma demo_tree_safe: "is_safe_script_node demo_tree"
proof -
  have "is_safe_command demo_ls"
    by (simp add: is_safe_command_def demo_words command_arguments_are_allowed_def strip_prefix_def str_starts_with_def)
  moreover have "node_named demo_ls" "node_kind demo_ls = ''command''" by (simp_all add: demo_ls_def)
  ultimately show ?thesis
    by (simp add: demo_tree_def is_safe_script_node.simps is_safe_program.simps)
qed

lemma demo_parse_safe: "demo_parse ''ls -l'' = Some demo_tree" "safe_bash_tree demo_parse ''ls -l'' = Some demo_tree"
    "node_named demo_tree" "demo_ls \<in> set (statement_nodes demo_tree)"
proof -
  show "demo_ls \<in> set (statement_nodes demo_tree)"
    by (simp add: statement_nodes.simps [of demo_tree]) (simp add: demo_tree_def statement_kinds_def statement_nodes.simps [of demo_ls])
qed (use demo_tree_safe in \<open>simp_all add: demo_parse_def safe_bash_tree_def\<close>, simp_all add: demo_tree_def)

theorem accepted_script_only_reads_witness:
  "bash_script_is_concurrency_safe demo_parse ''ls -l'' \<and> demo_ls \<in> set (script_nodes demo_tree) \<and> reads_only demo_ls"
proof -
  have "bash_script_is_concurrency_safe demo_parse ''ls -l''"
    by (simp add: bash_script_is_concurrency_safe_def demo_parse_safe)
  with accepted_script_only_reads [OF this demo_parse_safe(1,3)] demo_parse_safe(4) statement_nodes_below show ?thesis by blast
qed

theorem safe_bash_commands_complete_witness:
  "\<exists>names. safe_bash_commands demo_parse ''ls -l'' = Some names \<and> sorted names \<and> ''ls'' \<in> set names"
proof -
  obtain names where names: "safe_bash_commands demo_parse ''ls -l'' = Some names"
    by (simp add: safe_bash_commands_def demo_parse_safe)
  have "demo_ls \<in> set (script_commands demo_tree)"
    using demo_parse_safe(4) by (simp add: script_commands_def) (simp add: demo_ls_def)
  with safe_bash_commands_complete [OF names demo_parse_safe(1,3)] demo_words names show ?thesis by force
qed

end
