(* ===== verification/Dream_Plan.thy ===== *)
theory Dream_Plan
  imports Claim_Types "HOL-Library.AList"
begin

text \<open>
  The check of a dream plan (\<open>src/agent/session_engine/dream_plan.rs\<close>): a model proposes groups of
  edits to the agent's claims, and nothing is written unless the whole plan passes.  The check reads
  the claims the agent has completely read, the receipts of the tools it ran, and returns the claims
  before and after each group or the first violated rule.
\<close>

section \<open>JSON receipts\<close>

text \<open>What the check reads of a \<open>serde_json::Value\<close>: object members and strings.\<close>

datatype json = JNull | JBool bool | JNumber int | JString string | JArray "json list" | JObject "(string \<times> json) list"

fun json_get :: "json \<Rightarrow> string \<Rightarrow> json option" where
  "json_get (JObject m) k = map_of m k"
| "json_get _ k = None"

fun json_as_str :: "json \<Rightarrow> string option" where
  "json_as_str (JString s) = Some s"
| "json_as_str _ = None"

definition receipt_tool :: "json \<Rightarrow> string option" where
  "receipt_tool r = Option.bind (json_get r ''tool'') json_as_str"

text \<open>\<open>pointer("/output/file_version").is_some()\<close>: neither step is an array index.\<close>

definition has_file_version :: "json \<Rightarrow> bool" where
  "has_file_version r \<longleftrightarrow> Option.bind (json_get r ''output'') (\<lambda>out. json_get out ''file_version'') \<noteq> None"

section \<open>Plans\<close>

datatype dream_kind = KindQuality | KindEvidence | KindConsolidation

record dream_review =
  review_quality :: string
  review_evidence :: string
  review_consolidation :: string

record change_basis =
  basis_claim_id :: claim_id
  removed_or_changed :: string
  basis_added :: string
  basis_justification :: string
  basis_evidence_ids :: "string list"

record dream_coverage =
  coverage_input_id :: claim_id
  coverage_output_ids :: "claim_id list"
  coverage_note :: string

record dream_update =
  update_id :: claim_id
  update_name :: string
  update_statement :: string
  update_scope :: string
  update_confidence :: confidence
  update_status :: claim_status
  update_sources :: "source_id list"
  update_evidence_summary :: string

record operation_group =
  group_kind :: dream_kind
  group_reason :: string
  group_evidence_ids :: "string list"
  group_coverage :: "dream_coverage list"
  group_change_basis :: "change_basis list"
  group_updates :: "dream_update list"

record dream_plan =
  plan_review :: dream_review
  plan_groups :: "operation_group list"

record prepared_group =
  group_before :: "claim list"
  group_after :: "claim list"
  group_completed :: bool
  group_skipped :: bool

datatype plan_error =
    ReviewMissing
  | GroupIncomplete
  | EvidenceNeverRead
  | CommandNeedsFileEvidence
  | RepeatedClaim claim_id
  | NotRead claim_id
  | ForeignOrDeprecated claim_id
  | EmptyField claim_id
  | UnsupportedConfidence claim_id
  | SelfSource claim_id source_id
  | UnsupportedSource claim_id source_id
  | FactualCorrectionBlocked claim_id
  | SummaryUnchanged claim_id
  | NoDirectEvidence claim_id
  | ConsolidationTooSmall
  | CoverageMismatch
  | CoverageIncomplete
  | MissingInput claim_id
  | SourceDropped claim_id source_id
  | MissingOutput claim_id
  | InheritedConfidence claim_id claim_id
  | NothingRewritten
  | SourceCycle claim_id source_id

fun confidence_rank :: "confidence \<Rightarrow> nat" where
  "confidence_rank Low = 0"
| "confidence_rank Medium = 1"
| "confidence_rank High = 2"

type_synonym claim_table = "(claim_id \<times> claim) list"
type_synonym receipt_table = "(string \<times> json) list"

section \<open>One update\<close>

definition ensure :: "bool \<Rightarrow> plan_error \<Rightarrow> plan_error + unit" where
  "ensure b e = (if b then Inr () else Inl e)"

definition check_factual_correction_eligible :: "claim_id \<Rightarrow> bool \<Rightarrow> plan_error + unit" where
  "check_factual_correction_eligible i original_high = ensure (\<not> original_high) (FactualCorrectionBlocked i)"

definition is_versioned_read :: "receipt_table \<Rightarrow> string \<Rightarrow> bool" where
  "is_versioned_read receipts i = (case map_of receipts i of
       None \<Rightarrow> False
     | Some r \<Rightarrow> receipt_tool r = Some ''file_read'' \<and> has_file_version r)"

definition has_direct_evidence :: "operation_group \<Rightarrow> receipt_table \<Rightarrow> claim_id \<Rightarrow> bool" where
  "has_direct_evidence g receipts i =
     list_ex (\<lambda>b. basis_claim_id b = i
       \<and> list_ex (\<lambda>e. e \<in> set (group_evidence_ids g) \<and> is_versioned_read receipts e) (basis_evidence_ids b))
       (group_change_basis g)"

fun check_sources :: "claim_id \<Rightarrow> source_id list \<Rightarrow> source_id list \<Rightarrow> plan_error + unit" where
  "check_sources i allowed [] = Inr ()"
| "check_sources i allowed (s # ss) =
     and_then (ensure (s \<noteq> SourceClaim i) (SelfSource i s)) (\<lambda>_.
     and_then (ensure (s \<in> set allowed) (UnsupportedSource i s)) (\<lambda>_. check_sources i allowed ss))"

definition group_sources :: "operation_group \<Rightarrow> claim_table \<Rightarrow> source_id list" where
  "group_sources g readable =
     concat (map source_claim_ids (List.map_filter (\<lambda>u. map_of readable (update_id u)) (group_updates g)))"

definition updated_claim :: "dream_update \<Rightarrow> claim \<Rightarrow> claim" where
  "updated_claim u original = original\<lparr>claim_name := update_name u, claim_statement := update_statement u,
     claim_scope := update_scope u, claim_confidence := update_confidence u, claim_status := update_status u,
     source_claim_ids := update_sources u, evidence_summary := update_evidence_summary u\<rparr>"

definition check_update ::
  "operation_group \<Rightarrow> claim_table \<Rightarrow> agent_id \<Rightarrow> receipt_table \<Rightarrow> time \<Rightarrow> claim_id list \<Rightarrow> dream_update
   \<Rightarrow> plan_error + (claim \<times> claim)" where
  "check_update g readable owner receipts now used u =
     and_then (ensure (update_id u \<notin> set used) (RepeatedClaim (update_id u))) (\<lambda>_.
     case map_of readable (update_id u) of
       None \<Rightarrow> Inl (NotRead (update_id u))
     | Some original \<Rightarrow>
         let direct = has_direct_evidence g receipts (update_id u);
             raised = confidence_rank (claim_confidence original) < confidence_rank (update_confidence u);
             target = updated_claim u original in
         and_then (ensure (claim_holder original = owner \<and> claim_status original \<noteq> Deprecated) (ForeignOrDeprecated (update_id u))) (\<lambda>_.
         and_then (ensure (list_all (\<lambda>s. str_trim s \<noteq> [])
             [update_name u, update_statement u, update_scope u, update_evidence_summary u]) (EmptyField (update_id u))) (\<lambda>_.
         and_then (ensure (\<not> raised \<or> (direct \<and> str_trim (update_evidence_summary u) \<noteq> str_trim (evidence_summary original)))
             (UnsupportedConfidence (update_id u))) (\<lambda>_.
         and_then (check_sources (update_id u) (group_sources g readable) (update_sources u)) (\<lambda>_.
         if target = original then Inr (original, target)
         else
           and_then (if group_kind g = KindEvidence
                     then check_factual_correction_eligible (update_id u) (claim_confidence original = High)
                     else Inr ()) (\<lambda>_.
           and_then (if group_kind g = KindEvidence
                     then and_then (ensure (str_trim (update_evidence_summary u) \<noteq> str_trim (evidence_summary original))
                                      (SummaryUnchanged (update_id u))) (\<lambda>_.
                          ensure direct (NoDirectEvidence (update_id u)))
                     else Inr ()) (\<lambda>_.
           Inr (original, target\<lparr>claim_updated_at := Some (next_claim_update_at now (effective_updated_at original))\<rparr>))))))))"

fun check_updates ::
  "operation_group \<Rightarrow> claim_table \<Rightarrow> agent_id \<Rightarrow> receipt_table \<Rightarrow> time \<Rightarrow> claim_id list \<Rightarrow> dream_update list
   \<Rightarrow> plan_error + (claim_id list \<times> (claim \<times> claim) list)" where
  "check_updates g readable owner receipts now used [] = Inr (used, [])"
| "check_updates g readable owner receipts now used (u # us) =
     and_then (check_update g readable owner receipts now used u) (\<lambda>ba.
     and_then (check_updates g readable owner receipts now (used @ [update_id u]) us) (\<lambda>(used', bas).
       Inr (used', ba # bas)))"

section \<open>Consolidation\<close>

fun validate_consolidation_sources :: "claim \<Rightarrow> claim list \<Rightarrow> claim_id list \<Rightarrow> source_id list \<Rightarrow> plan_error + unit" where
  "validate_consolidation_sources input after outputs [] = Inr ()"
| "validate_consolidation_sources input after outputs (s # ss) =
     and_then (ensure (list_ex (\<lambda>c. claim_id c \<in> set outputs \<and> claim_status c \<noteq> Deprecated
           \<and> (s \<in> set (source_claim_ids c) \<or> s = SourceClaim (claim_id c))) after) (SourceDropped (claim_id input) s)) (\<lambda>_.
     validate_consolidation_sources input after outputs ss)"

fun check_inherited :: "operation_group \<Rightarrow> claim_table \<Rightarrow> receipt_table \<Rightarrow> claim \<Rightarrow> claim list \<Rightarrow> plan_error + unit" where
  "check_inherited g readable receipts input [] = Inr ()"
| "check_inherited g readable receipts input (c # cs) =
     and_then
       (if confidence_rank (claim_confidence input) < confidence_rank (claim_confidence c)
        then case map_of readable (claim_id c) of
               None \<Rightarrow> Inl (MissingOutput (claim_id c))
             | Some original \<Rightarrow>
                 ensure (has_direct_evidence g receipts (claim_id c) \<and> evidence_summary c \<noteq> evidence_summary original)
                   (InheritedConfidence (claim_id c) (claim_id input))
        else Inr ()) (\<lambda>_.
     check_inherited g readable receipts input cs)"

fun check_coverage ::
  "operation_group \<Rightarrow> claim_table \<Rightarrow> receipt_table \<Rightarrow> claim list \<Rightarrow> claim list \<Rightarrow> dream_coverage list \<Rightarrow> plan_error + unit" where
  "check_coverage g readable receipts before after [] = Inr ()"
| "check_coverage g readable receipts before after (v # vs) =
     (case find (\<lambda>c. claim_id c = coverage_input_id v) before of
        None \<Rightarrow> Inl (MissingInput (coverage_input_id v))
      | Some input \<Rightarrow>
          and_then (validate_consolidation_sources input after (coverage_output_ids v) (source_claim_ids input)) (\<lambda>_.
          and_then (check_inherited g readable receipts input (filter (\<lambda>c. claim_id c \<in> set (coverage_output_ids v)) after)) (\<lambda>_.
          check_coverage g readable receipts before after vs)))"

definition check_consolidation ::
  "operation_group \<Rightarrow> claim_table \<Rightarrow> receipt_table \<Rightarrow> claim list \<Rightarrow> claim list \<Rightarrow> plan_error + unit" where
  "check_consolidation g readable receipts before after =
     (let inputs = dedup (map claim_id before);
          outputs = dedup (map claim_id (filter (\<lambda>c. claim_status c \<noteq> Deprecated) after));
          covered = dedup (map coverage_input_id (group_coverage g)) in
      and_then (ensure (2 \<le> length inputs \<and> outputs \<noteq> []) ConsolidationTooSmall) (\<lambda>_.
      and_then (ensure (length (group_coverage g) = length inputs \<and> set covered = set inputs) CoverageMismatch) (\<lambda>_.
      and_then (ensure (list_all (\<lambda>v. str_trim (coverage_note v) \<noteq> [] \<and> coverage_output_ids v \<noteq> []
          \<and> list_all (\<lambda>i. i \<in> set outputs) (coverage_output_ids v)) (group_coverage g)) CoverageIncomplete) (\<lambda>_.
      and_then (check_coverage g readable receipts before after (group_coverage g)) (\<lambda>_.
      ensure (list_ex (\<lambda>(a, b). claim_status b \<noteq> Deprecated \<and> claim_statement a \<noteq> claim_statement b) (zip before after))
        NothingRewritten)))))"

section \<open>Groups\<close>

definition check_group ::
  "claim_table \<Rightarrow> agent_id \<Rightarrow> receipt_table \<Rightarrow> time \<Rightarrow> claim_id list \<Rightarrow> operation_group
   \<Rightarrow> plan_error + (claim_id list \<times> prepared_group)" where
  "check_group readable owner receipts now used g =
     and_then (ensure (str_trim (group_reason g) \<noteq> [] \<and> group_updates g \<noteq> []) GroupIncomplete) (\<lambda>_.
     and_then (ensure (list_all (\<lambda>i. map_of receipts i \<noteq> None) (group_evidence_ids g)) EvidenceNeverRead) (\<lambda>_.
     let independent = list_ex (is_versioned_read receipts) (group_evidence_ids g);
         command_evidence = list_ex (\<lambda>i. Option.bind (map_of receipts i) receipt_tool = Some ''code_run'') (group_evidence_ids g) in
     and_then (ensure (\<not> command_evidence \<or> independent) CommandNeedsFileEvidence) (\<lambda>_.
     and_then (check_updates g readable owner receipts now used (group_updates g)) (\<lambda>(used', bas).
     let before = map fst bas; after = map snd bas in
     and_then (if group_kind g = KindConsolidation then check_consolidation g readable receipts before after else Inr ()) (\<lambda>_.
     Inr (used', \<lparr>group_before = before, group_after = after, group_completed = False, group_skipped = False\<rparr>))))))"

fun check_groups ::
  "claim_table \<Rightarrow> agent_id \<Rightarrow> receipt_table \<Rightarrow> time \<Rightarrow> claim_id list \<Rightarrow> operation_group list \<Rightarrow> plan_error + prepared_group list" where
  "check_groups readable owner receipts now used [] = Inr []"
| "check_groups readable owner receipts now used (g # gs) =
     and_then (check_group readable owner receipts now used g) (\<lambda>(used', p).
     and_then (check_groups readable owner receipts now used' gs) (\<lambda>ps. Inr (p # ps)))"

section \<open>Source cycles\<close>

text \<open>
  The depth-first search marks the claims it has entered.  Its depth is bounded by the number of
  claims in the graph, so one unit of fuel per level suffices; \<open>None\<close> means out of fuel.
\<close>

function reaches :: "nat \<Rightarrow> claim_id \<Rightarrow> claim_id \<Rightarrow> claim_table \<Rightarrow> claim_id list \<Rightarrow> (bool \<times> claim_id list) option"
  and any_reaches :: "nat \<Rightarrow> source_id list \<Rightarrow> claim_id \<Rightarrow> claim_table \<Rightarrow> claim_id list \<Rightarrow> (bool \<times> claim_id list) option" where
  "reaches 0 i target graph seen = None"
| "reaches (Suc n) i target graph seen =
     (if i = target then Some (True, seen)
      else if i \<in> set seen then Some (False, seen)
      else case map_of graph i of
             None \<Rightarrow> Some (False, i # seen)
           | Some c \<Rightarrow> any_reaches n (source_claim_ids c) target graph (i # seen))"
| "any_reaches n [] target graph seen = Some (False, seen)"
| "any_reaches n (SourceClaim i # ss) target graph seen =
     (case reaches n i target graph seen of
        None \<Rightarrow> None
      | Some (found, seen') \<Rightarrow> if found then Some (True, seen') else any_reaches n ss target graph seen')"
| "any_reaches n (SourcePolicy _ # ss) target graph seen = any_reaches n ss target graph seen"
  by pat_completeness auto
termination
  by (relation "inv_image (less_than <*lex*> less_than)
        (case_sum (\<lambda>(n, _). (n, 0)) (\<lambda>(n, ss, _). (n, Suc (length ss))))") auto

definition reaches_claim :: "claim_id \<Rightarrow> claim_id \<Rightarrow> claim_table \<Rightarrow> bool" where
  "reaches_claim i target graph = (case reaches (Suc (length graph)) i target graph [] of
       Some (found, _) \<Rightarrow> found | None \<Rightarrow> True)"

definition plan_graph :: "claim_table \<Rightarrow> prepared_group list \<Rightarrow> claim_table" where
  "plan_graph readable ps =
     fold (\<lambda>c graph. AList.update (claim_id c) c graph) (concat (map group_after ps)) readable"

fun check_new_sources :: "claim_table \<Rightarrow> claim \<Rightarrow> claim \<Rightarrow> source_id list \<Rightarrow> plan_error + unit" where
  "check_new_sources graph before after [] = Inr ()"
| "check_new_sources graph before after (s # ss) =
     and_then
       (if s \<in> set (source_claim_ids before) then Inr ()
        else case s of
               SourceClaim i \<Rightarrow> ensure (\<not> reaches_claim i (claim_id after) graph) (SourceCycle (claim_id after) s)
             | SourcePolicy _ \<Rightarrow> Inr ()) (\<lambda>_.
     check_new_sources graph before after ss)"

fun check_cycles :: "claim_table \<Rightarrow> (claim \<times> claim) list \<Rightarrow> plan_error + unit" where
  "check_cycles graph [] = Inr ()"
| "check_cycles graph ((before, after) # bas) =
     and_then (check_new_sources graph before after (source_claim_ids after)) (\<lambda>_. check_cycles graph bas)"

definition validate_plan ::
  "dream_plan \<Rightarrow> claim_table \<Rightarrow> agent_id \<Rightarrow> receipt_table \<Rightarrow> time \<Rightarrow> plan_error + prepared_group list" where
  "validate_plan plan readable owner receipts now =
     and_then (ensure (str_trim (review_quality (plan_review plan)) \<noteq> [] \<and> str_trim (review_evidence (plan_review plan)) \<noteq> []
         \<and> str_trim (review_consolidation (plan_review plan)) \<noteq> []) ReviewMissing) (\<lambda>_.
     and_then (check_groups readable owner receipts now [] (plan_groups plan)) (\<lambda>ps.
     and_then (check_cycles (plan_graph readable ps) (concat (map (\<lambda>p. zip (group_before p) (group_after p)) ps))) (\<lambda>_.
     Inr ps)))"

section \<open>Errors as early returns\<close>

lemma ensure_Inr_iff [simp]: "ensure b e = Inr u \<longleftrightarrow> b"
  by (simp add: ensure_def)

lemma check_sources_Inr:
  "check_sources i allowed ss = Inr u \<longleftrightarrow> SourceClaim i \<notin> set ss \<and> set ss \<subseteq> set allowed"
  by (induction ss) (auto simp: and_then_Inr_iff)

section \<open>The search\<close>

definition source_edges :: "claim_table \<Rightarrow> (claim_id \<times> claim_id) set" where
  "source_edges graph = {(x, y). \<exists>c. map_of graph x = Some c \<and> SourceClaim y \<in> set (source_claim_ids c)}"

text \<open>
  A positive answer is a path.  After a negative one the marks have grown by nodes other than the
  target whose successors are all marked.
\<close>

definition marks_closed :: "claim_table \<Rightarrow> claim_id \<Rightarrow> claim_id list \<Rightarrow> claim_id list \<Rightarrow> bool" where
  "marks_closed graph target seen seen' \<longleftrightarrow>
     set seen \<subseteq> set seen' \<and> target \<notin> set seen' - set seen
     \<and> (\<forall>x \<in> set seen' - set seen. \<forall>y. (x, y) \<in> source_edges graph \<longrightarrow> y \<in> set seen')"

lemma marks_closed_refl [simp]: "marks_closed graph target seen seen"
  by (simp add: marks_closed_def)

lemma marks_closed_trans:
  "marks_closed graph target s s' \<Longrightarrow> marks_closed graph target s' s'' \<Longrightarrow> marks_closed graph target s s''"
  unfolding marks_closed_def by blast

lemma search_correct:
  "reaches n i target graph seen = Some (found, seen') \<Longrightarrow>
     (if found then (i, target) \<in> (source_edges graph)\<^sup>* else marks_closed graph target seen seen' \<and> i \<in> set seen' \<and> i \<noteq> target)"
  "any_reaches n ss target graph seen = Some (found, seen') \<Longrightarrow>
     (if found then \<exists>y. SourceClaim y \<in> set ss \<and> (y, target) \<in> (source_edges graph)\<^sup>*
      else marks_closed graph target seen seen' \<and> (\<forall>y. SourceClaim y \<in> set ss \<longrightarrow> y \<in> set seen' \<and> y \<noteq> target))"
proof (induction n i target graph seen and n ss target graph seen arbitrary: found seen' and found seen' rule: reaches_any_reaches.induct)
  case (2 n i target graph seen)
  show ?case
  proof (cases "i = target \<or> i \<in> set seen \<or> map_of graph i = None")
    case True
    with 2(2) show ?thesis
      by (auto simp: marks_closed_def source_edges_def split: if_splits)
  next
    case False
    then obtain c where c: "map_of graph i = Some c" by blast
    with 2(2) False have run: "any_reaches n (source_claim_ids c) target graph (i # seen) = Some (found, seen')" by simp
    from 2(1) [OF _ _ c run] False have IH: "if found then \<exists>y. SourceClaim y \<in> set (source_claim_ids c) \<and> (y, target) \<in> (source_edges graph)\<^sup>*
        else marks_closed graph target (i # seen) seen' \<and> (\<forall>y. SourceClaim y \<in> set (source_claim_ids c) \<longrightarrow> y \<in> set seen' \<and> y \<noteq> target)"
      by simp
    show ?thesis
    proof (cases found)
      case True
      with IH c show ?thesis by (auto simp: source_edges_def intro: converse_rtrancl_into_rtrancl)
    next
      case f: False
      with IH have mc: "marks_closed graph target (i # seen) seen'"
        and succ: "\<forall>y. SourceClaim y \<in> set (source_claim_ids c) \<longrightarrow> y \<in> set seen'" by simp_all
      have "y \<in> set seen'" if "(i, y) \<in> source_edges graph" for y
        using that c succ by (simp add: source_edges_def)
      with mc False have "marks_closed graph target seen seen'" "i \<in> set seen'"
        unfolding marks_closed_def by auto
      with f False show ?thesis by simp
    qed
  qed
next
  case (4 n i ss target graph seen)
  from 4(3) obtain b s1 where r: "reaches n i target graph seen = Some (b, s1)"
    by (auto split: option.splits)
  show ?case
  proof (cases b)
    case True
    with 4(3) r 4(1) [OF r] show ?thesis by auto
  next
    case False
    with 4(3) r have run: "any_reaches n ss target graph s1 = Some (found, seen')" by simp
    from False 4(1) [OF r] have 1: "marks_closed graph target seen s1" "i \<in> set s1" "i \<noteq> target" by simp_all
    from 4(2) [OF r _ _ run] False have 2: "if found then \<exists>y. SourceClaim y \<in> set ss \<and> (y, target) \<in> (source_edges graph)\<^sup>*
        else marks_closed graph target s1 seen' \<and> (\<forall>y. SourceClaim y \<in> set ss \<longrightarrow> y \<in> set seen' \<and> y \<noteq> target)" by simp
    show ?thesis
    proof (cases found)
      case f: False
      with 2 have mc: "marks_closed graph target s1 seen'" by simp
      have "marks_closed graph target seen seen'" by (rule marks_closed_trans [OF 1(1) mc])
      moreover have "set s1 \<subseteq> set seen'" using mc by (simp add: marks_closed_def)
      ultimately show ?thesis using 1(2,3) 2 f by auto
    qed (use 2 in auto)
  qed
qed (auto split: if_splits)

text \<open>One unit of fuel per unmarked claim of the graph, and one more, is enough.\<close>

lemma search_fuel:
  "card (fst ` set graph - set seen) < n \<Longrightarrow> \<exists>r. reaches n i target graph seen = Some r"
  "card (fst ` set graph - set seen) < n \<Longrightarrow> \<exists>r. any_reaches n ss target graph seen = Some r"
proof (induction n i target graph seen and n ss target graph seen rule: reaches_any_reaches.induct)
  case (2 n i target graph seen)
  show ?case
  proof (cases "i = target \<or> i \<in> set seen \<or> map_of graph i = None")
    case False
    then obtain c where c: "map_of graph i = Some c" by blast
    then have mem: "i \<in> fst ` set graph" by (force dest: map_of_SomeD)
    have "card (fst ` set graph - set (i # seen)) < card (fst ` set graph - set seen)"
      using mem False by (intro psubset_card_mono) auto
    with 2(2) have "card (fst ` set graph - set (i # seen)) < n" by simp
    from 2(1) [OF _ _ c this] False c show ?thesis by simp
  qed (auto split: option.splits)
next
  case (4 n i ss target graph seen)
  from 4(1) [OF 4(3)] obtain b s1 where r: "reaches n i target graph seen = Some (b, s1)" by auto
  show ?case
  proof (cases b)
    case False
    from search_correct(1) [OF r] False have "set seen \<subseteq> set s1" by (simp add: marks_closed_def)
    then have "card (fst ` set graph - set s1) \<le> card (fst ` set graph - set seen)"
      by (intro card_mono) auto
    with 4(3) have "card (fst ` set graph - set s1) < n" by simp
    from 4(2) [OF r _ _ this] False r show ?thesis by simp
  next
    case True
    with r have "any_reaches n (SourceClaim i # ss) target graph seen = Some (True, s1)" by simp
    then show ?thesis by blast
  qed
qed auto

lemma reaches_claim_iff: "reaches_claim i target graph \<longleftrightarrow> (i, target) \<in> (source_edges graph)\<^sup>*"
proof -
  have "card (fst ` set graph - set []) \<le> length graph"
    by (metis Diff_empty card_length length_map list.set(1) list.set_map)
  then obtain found seen where r: "reaches (Suc (length graph)) i target graph [] = Some (found, seen)"
    using search_fuel(1) [of graph "[]" "Suc (length graph)" i target] by auto
  show ?thesis
  proof (cases found)
    case True
    with r search_correct(1) [OF r] show ?thesis by (simp add: reaches_claim_def)
  next
    case False
    with search_correct(1) [OF r] have closed: "target \<notin> set seen" "i \<in> set seen"
        "\<forall>x \<in> set seen. \<forall>y. (x, y) \<in> source_edges graph \<longrightarrow> y \<in> set seen"
      by (auto simp: marks_closed_def)
    have "(i, y) \<in> (source_edges graph)\<^sup>* \<Longrightarrow> y \<in> set seen" for y
      by (induction rule: rtrancl_induct) (use closed in auto)
    with closed(1) False r show ?thesis by (auto simp: reaches_claim_def)
  qed
qed

section \<open>What a passed check says\<close>

text \<open>The table of claims is keyed by their ids.\<close>

definition keyed :: "claim_table \<Rightarrow> bool" where
  "keyed t \<longleftrightarrow> (\<forall>i c. map_of t i = Some c \<longrightarrow> claim_id c = i)"

text \<open>What an accepted edit of one claim may be.\<close>

definition edit_allowed ::
  "operation_group \<Rightarrow> claim_table \<Rightarrow> agent_id \<Rightarrow> receipt_table \<Rightarrow> claim \<Rightarrow> claim \<Rightarrow> bool" where
  "edit_allowed g readable owner receipts b a \<longleftrightarrow>
     claim_holder b = owner \<and> claim_status b \<noteq> Deprecated
     \<and> claim_id a = claim_id b \<and> claim_holder a = claim_holder b \<and> claim_created_at a = claim_created_at b
     \<and> (a \<noteq> b \<longrightarrow> effective_updated_at b < effective_updated_at a)
     \<and> (confidence_rank (claim_confidence b) < confidence_rank (claim_confidence a) \<longrightarrow>
          has_direct_evidence g receipts (claim_id b) \<and> str_trim (evidence_summary a) \<noteq> str_trim (evidence_summary b))
     \<and> (group_kind g = KindEvidence \<and> a \<noteq> b \<longrightarrow>
          claim_confidence b \<noteq> High \<and> has_direct_evidence g receipts (claim_id b)
          \<and> str_trim (evidence_summary a) \<noteq> str_trim (evidence_summary b))
     \<and> SourceClaim (claim_id a) \<notin> set (source_claim_ids a)
     \<and> set (source_claim_ids a) \<subseteq> set (group_sources g readable)"

lemma check_update_ok:
  assumes "check_update g readable owner receipts now used u = Inr (b, a)" and "keyed readable"
  shows "update_id u \<notin> set used \<and> map_of readable (update_id u) = Some b \<and> claim_id b = update_id u
     \<and> edit_allowed g readable owner receipts b a"
proof -
  from assms obtain original where o: "map_of readable (update_id u) = Some original" "update_id u \<notin> set used"
    by (auto simp: check_update_def and_then_Inr_iff split: option.splits)
  with assms(2) have i: "claim_id original = update_id u" by (auto simp: keyed_def)
  let ?t = "updated_claim u original"
  have same: "claim_id ?t = claim_id original" "claim_holder ?t = claim_holder original" "claim_created_at ?t = claim_created_at original"
    "claim_confidence ?t = update_confidence u" "source_claim_ids ?t = update_sources u" "evidence_summary ?t = update_evidence_summary u"
    by (simp_all add: updated_claim_def)
  have later: "effective_updated_at original < next_claim_update_at now (effective_updated_at original)"
    by (rule next_claim_update_at_later)
  show ?thesis
  proof (cases "?t = original")
    case True
    with assms(1) o have "b = original" "a = original"
      by (auto simp: check_update_def and_then_Inr_iff Let_def)
    with True assms(1) o i same show ?thesis
      by (auto simp: check_update_def and_then_Inr_iff Let_def edit_allowed_def check_sources_Inr)
  next
    case False
    with assms(1) o have ba: "b = original"
        "a = ?t\<lparr>claim_updated_at := Some (next_claim_update_at now (effective_updated_at original))\<rparr>"
      by (auto simp: check_update_def and_then_Inr_iff Let_def)
    then have "effective_updated_at a = next_claim_update_at now (effective_updated_at original)"
      by (simp add: effective_updated_at_def)
    with False assms(1) o i same later ba show ?thesis
      by (auto simp: check_update_def and_then_Inr_iff Let_def edit_allowed_def check_sources_Inr
          check_factual_correction_eligible_def split: if_splits)
  qed
qed

lemma check_updates_ok:
  assumes "check_updates g readable owner receipts now used us = Inr (used', bas)" and "keyed readable"
  shows "used' = used @ map update_id us \<and> map (claim_id \<circ> fst) bas = map update_id us
     \<and> (distinct used \<longrightarrow> distinct used')
     \<and> (\<forall>(b, a) \<in> set bas. map_of readable (claim_id b) = Some b \<and> edit_allowed g readable owner receipts b a)"
  using assms(1)
proof (induction us arbitrary: used used' bas)
  case (Cons u us)
  then obtain b a bas1 where u: "check_update g readable owner receipts now used u = Inr (b, a)"
      and us: "check_updates g readable owner receipts now (used @ [update_id u]) us = Inr (used', bas1)"
      and bas: "bas = (b, a) # bas1"
    by (auto simp: and_then_Inr_iff)
  note ok = check_update_ok [OF u assms(2)] Cons.IH [OF us]
  have d: "distinct used \<longrightarrow> distinct used'"
  proof
    assume "distinct used"
    with ok(1) have "distinct (used @ [update_id u])" by simp
    with ok(2) show "distinct used'" by blast
  qed
  show ?case by (intro conjI d) (use ok bas in auto)
qed auto

lemma check_groups_ok:
  assumes "check_groups readable owner receipts now used gs = Inr ps" and "keyed readable" and "distinct used"
  shows "distinct (used @ map claim_id (concat (map group_before ps)))
     \<and> (\<forall>p \<in> set ps. length (group_after p) = length (group_before p) \<and>
          (\<exists>g \<in> set gs. \<forall>(b, a) \<in> set (zip (group_before p) (group_after p)).
             map_of readable (claim_id b) = Some b \<and> edit_allowed g readable owner receipts b a))"
  using assms(1,3)
proof (induction gs arbitrary: used ps)
  case (Cons g gs)
  then obtain used' p ps1 where p: "check_group readable owner receipts now used g = Inr (used', p)"
      and ps1: "check_groups readable owner receipts now used' gs = Inr ps1" and ps: "ps = p # ps1"
    by (auto simp: and_then_Inr_iff)
  from p obtain bas where bas: "check_updates g readable owner receipts now used (group_updates g) = Inr (used', bas)"
      "group_before p = map fst bas" "group_after p = map snd bas"
    by (auto simp: check_group_def and_then_Inr_iff Let_def)
  note ok = check_updates_ok [OF bas(1) assms(2)]
  then have d: "distinct used'" using Cons.prems(2) by blast
  have u: "used' = used @ map claim_id (group_before p)" using ok bas(2) by simp
  have z: "zip (group_before p) (group_after p) = bas" using bas(2,3) by (simp add: zip_map_fst_snd)
  from Cons.IH [OF ps1 d] u ps z ok bas(2,3) show ?case by auto
qed simp

section \<open>The graph after the plan\<close>

lemma map_of_fold_update:
  "distinct (map claim_id cs) \<Longrightarrow>
   map_of (fold (\<lambda>c graph. AList.update (claim_id c) c graph) cs graph) i
     = (case find (\<lambda>c. claim_id c = i) cs of Some c \<Rightarrow> Some c | None \<Rightarrow> map_of graph i)"
proof (induction cs arbitrary: graph)
  case (Cons c cs)
  show ?case
  proof (cases "claim_id c = i")
    case True
    with Cons.prems have "find (\<lambda>c. claim_id c = i) cs = None" by (auto simp: find_None_iff image_iff)
    with True Cons show ?thesis by (simp add: update_conv')
  next
    case False
    with Cons show ?thesis by (simp add: update_conv' split: option.split)
  qed
qed simp

lemma check_new_sources_ok:
  "check_new_sources graph b a ss = Inr u \<Longrightarrow> SourceClaim y \<in> set ss \<Longrightarrow> SourceClaim y \<notin> set (source_claim_ids b) \<Longrightarrow>
   (y, claim_id a) \<notin> (source_edges graph)\<^sup>*"
  by (induction graph b a ss rule: check_new_sources.induct)
     (auto simp: and_then_Inr_iff reaches_claim_iff split: if_splits source_id.splits)

lemma check_cycles_ok:
  "check_cycles graph bas = Inr u \<Longrightarrow> (b, a) \<in> set bas \<Longrightarrow> SourceClaim y \<in> set (source_claim_ids a) \<Longrightarrow>
   SourceClaim y \<notin> set (source_claim_ids b) \<Longrightarrow> (y, claim_id a) \<notin> (source_edges graph)\<^sup>*"
  by (induction graph bas rule: check_cycles.induct) (auto simp: and_then_Inr_iff dest: check_new_sources_ok)

text \<open>A cycle that the old edges do not have goes through a new edge.\<close>

lemma acyclic_with_checked_edges:
  assumes "acyclic old" and new: "\<And>x y. (x, y) \<in> E \<Longrightarrow> (x, y) \<notin> old \<Longrightarrow> (y, x) \<notin> E\<^sup>*"
  shows "acyclic E"
proof (rule acyclicI, rule allI, rule notI)
  fix x
  assume cycle: "(x, x) \<in> E\<^sup>+"
  have "(x, y) \<in> E\<^sup>+ \<Longrightarrow> (x, y) \<in> old\<^sup>+ \<or> (\<exists>a b. (x, a) \<in> E\<^sup>* \<and> (a, b) \<in> E - old \<and> (b, y) \<in> E\<^sup>*)" for y
  proof (induction rule: trancl_induct)
    case (base y)
    then show ?case by (cases "(x, y) \<in> old") auto
  next
    case (step y z)
    show ?case
    proof (cases "(y, z) \<in> old")
      case True
      from step.IH show ?thesis
      proof
        assume "(x, y) \<in> old\<^sup>+"
        with True show ?thesis by (meson trancl.trancl_into_trancl)
      next
        assume "\<exists>a b. (x, a) \<in> E\<^sup>* \<and> (a, b) \<in> E - old \<and> (b, y) \<in> E\<^sup>*"
        with step.hyps(2) show ?thesis by (meson rtrancl.rtrancl_into_rtrancl)
      qed
    next
      case False
      with step.hyps show ?thesis by (meson DiffI rtrancl.rtrancl_refl trancl_into_rtrancl)
    qed
  qed
  from this [OF cycle] show False
  proof
    assume "(x, x) \<in> old\<^sup>+"
    with assms(1) show False by (simp add: acyclic_def)
  next
    assume "\<exists>a b. (x, a) \<in> E\<^sup>* \<and> (a, b) \<in> E - old \<and> (b, x) \<in> E\<^sup>*"
    then obtain a b where "(x, a) \<in> E\<^sup>*" "(a, b) \<in> E" "(a, b) \<notin> old" "(b, x) \<in> E\<^sup>*" by blast
    with new [of a b] show False by (meson rtrancl_trans)
  qed
qed

lemma validate_plan_ok:
  assumes "validate_plan plan readable owner receipts now = Inr ps"
  shows "check_groups readable owner receipts now [] (plan_groups plan) = Inr ps"
    "check_cycles (plan_graph readable ps) (concat (map (\<lambda>p. zip (group_before p) (group_after p)) ps)) = Inr ()"
  using assms by (auto simp: validate_plan_def and_then_Inr_iff)

lemma zip_map_eq:
  "length ys = length xs \<Longrightarrow> \<forall>(x, y) \<in> set (zip xs ys). f y = f x \<Longrightarrow> map f ys = map f xs"
  by (induction ys xs rule: list_induct2) auto

lemma prepared_pairs:
  assumes "keyed readable" "check_groups readable owner receipts now [] gs = Inr ps"
  shows "map claim_id (concat (map group_after ps)) = map claim_id (concat (map group_before ps))"
    "a \<in> set (concat (map group_after ps)) \<Longrightarrow> \<exists>b. (b, a) \<in> set (concat (map (\<lambda>p. zip (group_before p) (group_after p)) ps))
       \<and> map_of readable (claim_id a) = Some b"
proof -
  have ok: "\<forall>p \<in> set ps. length (group_after p) = length (group_before p) \<and>
      (\<forall>(b, a) \<in> set (zip (group_before p) (group_after p)). map_of readable (claim_id b) = Some b \<and> claim_id a = claim_id b)"
    using check_groups_ok [OF assms(2,1)] by (fastforce simp: edit_allowed_def)
  have "map claim_id (group_after p) = map claim_id (group_before p)" if "p \<in> set ps" for p
    using ok that by (intro zip_map_eq) auto
  then show "map claim_id (concat (map group_after ps)) = map claim_id (concat (map group_before ps))"
    by (simp add: map_concat cong: map_cong)
  assume "a \<in> set (concat (map group_after ps))"
  then obtain p where p: "p \<in> set ps" "a \<in> set (group_after p)" by auto
  then obtain b where b: "(b, a) \<in> set (zip (group_before p) (group_after p))"
    using ok in_set_impl_in_set_zip2 [of "group_before p" "group_after p" a] by auto
  with p(1) ok have "map_of readable (claim_id b) = Some b" "claim_id a = claim_id b" by blast+
  moreover have "(b, a) \<in> set (concat (map (\<lambda>p. zip (group_before p) (group_after p)) ps))" using b p(1) by auto
  ultimately show "\<exists>b. (b, a) \<in> set (concat (map (\<lambda>p. zip (group_before p) (group_after p)) ps)) \<and> map_of readable (claim_id a) = Some b"
    by auto
qed

text \<open>
  Property C13.  A plan that passes never closes a cycle of sources: if the claims the agent has read
  derive from one another without a cycle, so do they after every edit of the plan is applied.
\<close>

theorem accepted_plan_keeps_sources_acyclic:
  assumes "keyed readable" and "acyclic (source_edges readable)"
    and "validate_plan plan readable owner receipts now = Inr ps"
  shows "acyclic (source_edges (plan_graph readable ps))"
proof (rule acyclic_with_checked_edges [OF assms(2)])
  fix x y
  assume new: "(x, y) \<in> source_edges (plan_graph readable ps)" "(x, y) \<notin> source_edges readable"
  note run = validate_plan_ok [OF assms(3)]
  note pairs = prepared_pairs [OF assms(1) run(1)]
  let ?after = "concat (map group_after ps)"
  have d: "distinct (map claim_id ?after)"
    using check_groups_ok [OF run(1) assms(1)] pairs(1) by simp
  from new(1) obtain c where c: "map_of (plan_graph readable ps) x = Some c" "SourceClaim y \<in> set (source_claim_ids c)"
    by (auto simp: source_edges_def)
  show "(y, x) \<notin> (source_edges (plan_graph readable ps))\<^sup>*"
  proof (cases "find (\<lambda>c. claim_id c = x) ?after")
    case None
    with c new(2) d show ?thesis by (auto simp: plan_graph_def map_of_fold_update source_edges_def)
  next
    case (Some a)
    with c(1) d have a: "a = c" "a \<in> set ?after" "claim_id a = x"
      by (auto simp: plan_graph_def map_of_fold_update dest: find_SomeD)
    obtain b where b: "(b, a) \<in> set (concat (map (\<lambda>p. zip (group_before p) (group_after p)) ps))"
        "map_of readable x = Some b"
      using pairs(2) [OF a(2)] a(3) by auto
    with new(2) have "SourceClaim y \<notin> set (source_claim_ids b)" by (auto simp: source_edges_def)
    with check_cycles_ok [OF run(2) b(1)] c(2) a show ?thesis by blast
  qed
qed

text \<open>
  Property C14.  A plan that passes edits each claim at most once, and only claims the agent has read,
  holds itself and has not deprecated.  Identity, holder and creation time stay; every changed claim
  gets a later time stamp; higher confidence needs a versioned file read of its own and a new evidence
  summary; a factual correction needs the same and never touches a claim of high confidence; sources
  are only inherited from the group's inputs and never the claim itself.
\<close>

theorem accepted_plan_edits_are_allowed:
  assumes "keyed readable" and "validate_plan plan readable owner receipts now = Inr ps"
  shows "distinct (map claim_id (concat (map group_before ps)))
     \<and> (\<forall>p \<in> set ps. \<exists>g \<in> set (plan_groups plan). \<forall>(b, a) \<in> set (zip (group_before p) (group_after p)).
          map_of readable (claim_id b) = Some b \<and> edit_allowed g readable owner receipts b a)"
  using check_groups_ok [OF validate_plan_ok(1) [OF assms(2)] assms(1)] by auto

section \<open>A concrete plan\<close>

text \<open>Three claims, the first derived from the third; the plan makes the second inherit that source.\<close>

definition demo_dreamer :: agent_id where
  "demo_dreamer = Ident ''ann''"

definition demo_known :: "string \<Rightarrow> source_id list \<Rightarrow> claim" where
  "demo_known i ss = \<lparr>claim_id = Ident i, claim_name = ''n'', claim_statement = ''s'', claim_scope = ''x'',
     claim_holder = demo_dreamer, claim_confidence = Medium, claim_status = Active, claim_created_at = 0,
     claim_updated_at = None, source_claim_ids = ss, evidence_summary = ''e''\<rparr>"

definition demo_readable :: claim_table where
  "demo_readable = [(Ident ''c1'', demo_known ''c1'' [SourceClaim (Ident ''c3'')]), (Ident ''c2'', demo_known ''c2'' []),
     (Ident ''c3'', demo_known ''c3'' [])]"

definition demo_update :: "string \<Rightarrow> dream_update" where
  "demo_update i = \<lparr>update_id = Ident i, update_name = ''n'', update_statement = ''s'', update_scope = ''x'',
     update_confidence = Medium, update_status = Active, update_sources = [SourceClaim (Ident ''c3'')],
     update_evidence_summary = ''e''\<rparr>"

definition demo_plan :: dream_plan where
  "demo_plan = \<lparr>plan_review = \<lparr>review_quality = ''a'', review_evidence = ''b'', review_consolidation = ''c''\<rparr>,
     plan_groups = [\<lparr>group_kind = KindQuality, group_reason = ''r'', group_evidence_ids = [], group_coverage = [],
       group_change_basis = [], group_updates = [demo_update ''c1'', demo_update ''c2'']\<rparr>]\<rparr>"

definition demo_prepared :: "prepared_group list" where
  "demo_prepared = [\<lparr>group_before = [demo_known ''c1'' [SourceClaim (Ident ''c3'')], demo_known ''c2'' []],
     group_after = [demo_known ''c1'' [SourceClaim (Ident ''c3'')],
       (demo_known ''c2'' [SourceClaim (Ident ''c3'')])\<lparr>claim_updated_at := Some 1000000000\<rparr>],
     group_completed = False, group_skipped = False\<rparr>]"

lemma demo_plan_passes: "validate_plan demo_plan demo_readable demo_dreamer [] 1000000000 = Inr demo_prepared"
  by code_simp

lemma demo_readable_keyed: "keyed demo_readable"
  by (auto simp: keyed_def demo_readable_def demo_known_def split: if_splits)

lemma demo_readable_edges: "source_edges demo_readable = {(Ident ''c1'', Ident ''c3'')}"
  by (auto simp: source_edges_def demo_readable_def demo_known_def split: if_splits)

theorem accepted_plan_keeps_sources_acyclic_witness:
  "(Ident ''c2'', Ident ''c3'') \<in> source_edges (plan_graph demo_readable demo_prepared)
   \<and> acyclic (source_edges (plan_graph demo_readable demo_prepared))"
proof
  show "(Ident ''c2'', Ident ''c3'') \<in> source_edges (plan_graph demo_readable demo_prepared)"
    by (simp add: source_edges_def plan_graph_def demo_readable_def demo_prepared_def demo_known_def)
  have "acyclic (source_edges demo_readable)"
    unfolding demo_readable_edges by (simp add: acyclic_insert) (simp add: acyclic_def)
  with accepted_plan_keeps_sources_acyclic [OF demo_readable_keyed _ demo_plan_passes]
  show "acyclic (source_edges (plan_graph demo_readable demo_prepared))" by blast
qed

theorem accepted_plan_edits_are_allowed_witness:
  "distinct (map claim_id (concat (map group_before demo_prepared)))
   \<and> (\<exists>g \<in> set (plan_groups demo_plan). edit_allowed g demo_readable demo_dreamer [] (demo_known ''c2'' [])
        ((demo_known ''c2'' [SourceClaim (Ident ''c3'')])\<lparr>claim_updated_at := Some 1000000000\<rparr>))"
  using accepted_plan_edits_are_allowed [OF demo_readable_keyed demo_plan_passes]
  by (auto simp: demo_prepared_def demo_plan_def)

end
