(* ===== verification/Utf8.thy ===== *)
theory Utf8
  imports Prelude
begin

text \<open>
  UTF-8 as the standard library decodes it: one step of \<open>str::from_utf8\<close> with the lengths of its errors,
  the scalars of a valid prefix, the lossy decoding of a byte stream, and its behaviour when the stream
  arrives in pieces.  A scalar is the list of its encoded bytes.
\<close>

section \<open>Decoding\<close>

text \<open>
  One step of \<open>str::from_utf8\<close> at the start of a byte string: a complete scalar of so many bytes, an
  error with its \<open>error_len\<close>, or an end of input inside a scalar (\<open>error_len\<close> is \<open>None\<close>).
\<close>

datatype utf8_step = Scalar nat | Invalid nat | Incomplete

definition byte_in :: "char \<Rightarrow> char \<Rightarrow> char \<Rightarrow> bool" where
  "byte_in lo hi c \<longleftrightarrow> lo \<le> c \<and> c \<le> hi"

fun utf8_tail :: "nat \<Rightarrow> nat \<Rightarrow> string \<Rightarrow> utf8_step" where
  "utf8_tail done 0 s = Scalar done"
| "utf8_tail done (Suc k) [] = Incomplete"
| "utf8_tail done (Suc k) (c # s) = (if byte_in CHR 0x80 CHR 0xBF c then utf8_tail (Suc done) k s else Invalid done)"

definition utf8_second :: "char \<Rightarrow> (char \<times> char \<times> nat) option" where
  "utf8_second c =
     (if byte_in CHR 0xC2 CHR 0xDF c then Some (CHR 0x80, CHR 0xBF, 0)
      else if c = CHR 0xE0 then Some (CHR 0xA0, CHR 0xBF, 1)
      else if c = CHR 0xED then Some (CHR 0x80, CHR 0x9F, 1)
      else if byte_in CHR 0xE1 CHR 0xEF c then Some (CHR 0x80, CHR 0xBF, 1)
      else if c = CHR 0xF0 then Some (CHR 0x90, CHR 0xBF, 2)
      else if byte_in CHR 0xF1 CHR 0xF3 c then Some (CHR 0x80, CHR 0xBF, 2)
      else if c = CHR 0xF4 then Some (CHR 0x80, CHR 0x8F, 2)
      else None)"

fun utf8_next :: "string \<Rightarrow> utf8_step" where
  "utf8_next [] = Incomplete"
| "utf8_next (c # s) =
     (if c \<le> CHR 0x7F then Scalar 1
      else case utf8_second c of
             None \<Rightarrow> Invalid 1
           | Some (lo, hi, k) \<Rightarrow> (case s of
                 [] \<Rightarrow> Incomplete
               | d # s' \<Rightarrow> if byte_in lo hi d then utf8_tail 2 k s' else Invalid 1))"

lemma utf8_tail_bounds:
  "utf8_tail d k s = Scalar n \<Longrightarrow> n = d + k \<and> k \<le> length s"
  "utf8_tail d k s = Invalid n \<Longrightarrow> d \<le> n \<and> n \<le> d + length s"
  by (induction d k s rule: utf8_tail.induct) (auto split: if_splits)

lemma utf8_next_bounds:
  "utf8_next s = Scalar n \<Longrightarrow> 0 < n \<and> n \<le> length s"
  "utf8_next s = Invalid n \<Longrightarrow> 0 < n \<and> n \<le> length s"
  by (cases s; force split: if_splits option.splits list.splits prod.splits dest: utf8_tail_bounds)+

text \<open>\<open>from_utf8\<close> stops at the first position where no scalar is complete.\<close>

function valid_prefix :: "string \<Rightarrow> string list \<times> string" where
  "valid_prefix s = (case utf8_next s of
       Scalar n \<Rightarrow> (case valid_prefix (drop n s) of (cs, rest) \<Rightarrow> (take n s # cs, rest))
     | _ \<Rightarrow> ([], s))"
  by pat_completeness auto
termination by (relation "measure length") (auto dest: utf8_next_bounds)

declare valid_prefix.simps [simp del]

definition utf8_scalar :: "string \<Rightarrow> bool" where
  "utf8_scalar c \<longleftrightarrow> utf8_next c = Scalar (length c)"

lemma utf8_tail_take: "utf8_tail d k s = Scalar n \<Longrightarrow> utf8_tail d k (take k s) = Scalar n"
  by (induction d k s rule: utf8_tail.induct) (auto split: if_splits)

lemma utf8_next_Scalar:
  assumes "utf8_next s = Scalar n"
  obtains (ascii) c t where "s = c # t" "c \<le> CHR 0x7F" "n = 1"
  | (long) c d t lo hi k where "s = c # d # t" "\<not> c \<le> CHR 0x7F" "utf8_second c = Some (lo, hi, k)" "byte_in lo hi d"
      "utf8_tail 2 k t = Scalar n" "n = k + 2" "k \<le> length t"
  using assms by (cases s) (auto split: if_splits option.splits list.splits prod.splits dest: utf8_tail_bounds(1))

lemma utf8_next_take: "utf8_next s = Scalar n \<Longrightarrow> utf8_scalar (take n s)"
  by (erule utf8_next_Scalar) (simp_all add: utf8_scalar_def utf8_tail_take)

lemma valid_prefix_split:
  "valid_prefix s = (cs, rest) \<Longrightarrow> s = concat cs @ rest \<and> (\<forall>c \<in> set cs. utf8_scalar c) \<and> (\<forall>n. utf8_next rest \<noteq> Scalar n)"
proof (induction s arbitrary: cs rest rule: valid_prefix.induct)
  case (1 s)
  show ?case
  proof (cases "utf8_next s")
    case (Scalar n)
    then obtain cs' where cs': "valid_prefix (drop n s) = (cs', rest)" "cs = take n s # cs'"
      using 1(2) by (subst (asm) valid_prefix.simps) (auto split: prod.splits)
    from 1(1) [OF Scalar cs'(1)] have IH: "drop n s = concat cs' @ rest" "\<forall>c \<in> set cs'. utf8_scalar c"
        "\<forall>n. utf8_next rest \<noteq> Scalar n" by blast+
    have "s = concat cs @ rest" unfolding cs'(2) by (simp add: flip: IH(1))
    moreover have "\<forall>c \<in> set cs. utf8_scalar c" unfolding cs'(2) using IH(2) utf8_next_take [OF Scalar] by simp
    ultimately show ?thesis using IH(3) by blast
  qed (use 1(2) in \<open>subst (asm) valid_prefix.simps; auto\<close>)+
qed

lemma utf8_scalar_nonempty: "utf8_scalar c \<Longrightarrow> 0 < length c"
  using utf8_next_bounds(1) by (auto simp: utf8_scalar_def)

definition replacement_character :: string where
  "replacement_character = [CHR 0xEF, CHR 0xBF, CHR 0xBD]"

section \<open>What is decoded\<close>

text \<open>
  The reference reading of a byte stream: the scalars of its lossy decoding and the bytes at the end
  that may still become a scalar.
\<close>

function lossy :: "string \<Rightarrow> string list \<times> string" where
  "lossy s = (case utf8_next s of
       Scalar n \<Rightarrow> (case lossy (drop n s) of (cs, rest) \<Rightarrow> (take n s # cs, rest))
     | Invalid n \<Rightarrow> (case lossy (drop n s) of (cs, rest) \<Rightarrow> (replacement_character # cs, rest))
     | Incomplete \<Rightarrow> ([], s))"
  by pat_completeness auto
termination by (relation "measure length") (auto dest: utf8_next_bounds)

declare lossy.simps [simp del]

lemma utf8_tail_append: "utf8_tail d k s \<noteq> Incomplete \<Longrightarrow> utf8_tail d k (s @ t) = utf8_tail d k s"
  by (induction d k s rule: utf8_tail.induct) (auto split: if_splits)

lemma utf8_next_append: "utf8_next s \<noteq> Incomplete \<Longrightarrow> utf8_next (s @ t) = utf8_next s"
  by (cases s) (auto split: if_splits option.splits list.splits prod.splits simp: utf8_tail_append)

lemma utf8_next_scalar [simp]: "utf8_scalar c \<Longrightarrow> utf8_next (c @ t) = Scalar (length c)"
  by (simp add: utf8_scalar_def utf8_next_append)

lemma utf8_tail_pending: "utf8_tail d k s = Incomplete \<Longrightarrow> length s < k"
  by (induction d k s rule: utf8_tail.induct) (auto split: if_splits)

lemma utf8_second_width: "utf8_second c = Some (lo, hi, k) \<Longrightarrow> k \<le> 2"
  by (auto simp: utf8_second_def split: if_splits)

lemma utf8_next_pending: "utf8_next s = Incomplete \<Longrightarrow> length s \<le> 3"
  by (cases s) (auto split: if_splits option.splits list.splits prod.splits dest!: utf8_tail_pending utf8_second_width)

lemma replacement_is_scalar [simp]: "utf8_scalar replacement_character"
  by (simp add: utf8_scalar_def replacement_character_def utf8_second_def byte_in_def)

lemma lossy_unfold:
  "utf8_next s = Scalar n \<Longrightarrow> lossy s = (take n s # fst (lossy (drop n s)), snd (lossy (drop n s)))"
  "utf8_next s = Invalid n \<Longrightarrow> lossy s = (replacement_character # fst (lossy (drop n s)), snd (lossy (drop n s)))"
  "utf8_next s = Incomplete \<Longrightarrow> lossy s = ([], s)"
  by (subst lossy.simps; simp add: case_prod_unfold)+

lemma lossy_pending: "utf8_next (snd (lossy s)) = Incomplete"
proof (induction s rule: lossy.induct)
  case (1 s)
  then show ?case by (cases "utf8_next s") (simp_all add: lossy_unfold)
qed

lemma lossy_scalars: "\<forall>c \<in> set (fst (lossy s)). utf8_scalar c"
proof (induction s rule: lossy.induct)
  case (1 s)
  then show ?case by (cases "utf8_next s") (simp_all add: lossy_unfold utf8_next_take)
qed

lemma lossy_append: "lossy (s @ t) = (fst (lossy s) @ fst (lossy (snd (lossy s) @ t)), snd (lossy (snd (lossy s) @ t)))"
proof (induction s rule: lossy.induct)
  case (1 s)
  show ?case
  proof (cases "utf8_next s")
    case (Scalar n)
    then have "utf8_next (s @ t) = Scalar n" "n \<le> length s" using utf8_next_append [of s t] utf8_next_bounds by auto
    with Scalar 1(1) [OF Scalar] show ?thesis by (simp add: lossy_unfold)
  next
    case (Invalid n)
    then have "utf8_next (s @ t) = Invalid n" "n \<le> length s" using utf8_next_append [of s t] utf8_next_bounds by auto
    with Invalid 1(2) [OF Invalid] show ?thesis by (simp add: lossy_unfold)
  qed (simp add: lossy_unfold)
qed

lemma lossy_settled: "lossy (snd (lossy s)) = ([], snd (lossy s))"
  by (simp add: lossy_unfold(3) lossy_pending)

lemma lossy_of_scalars: "\<forall>c \<in> set cs. utf8_scalar c \<Longrightarrow> lossy (concat cs @ t) = (cs @ fst (lossy t), snd (lossy t))"
  by (induction cs) (simp_all add: lossy_unfold(1))

lemma valid_prefix_of_scalars: "\<forall>c \<in> set cs. utf8_scalar c \<Longrightarrow> valid_prefix (concat cs) = (cs, [])"
proof (induction cs)
  case Nil
  then show ?case by (subst valid_prefix.simps) simp
next
  case (Cons c cs)
  then show ?case by (subst valid_prefix.simps) simp
qed

section \<open>Characters of a string\<close>

text \<open>\<open>chars()\<close> of a \<open>str\<close>, whose bytes are valid UTF-8.\<close>

definition utf8_chars :: "string \<Rightarrow> string list" where
  "utf8_chars s = fst (valid_prefix s)"

definition valid_utf8 :: "string \<Rightarrow> bool" where
  "valid_utf8 s \<longleftrightarrow> snd (valid_prefix s) = []"

definition take_chars :: "nat \<Rightarrow> string \<Rightarrow> string" where
  "take_chars n s = concat (take n (utf8_chars s))"

lemma utf8_chars_split: "s = concat (utf8_chars s) @ snd (valid_prefix s) \<and> (\<forall>c \<in> set (utf8_chars s). utf8_scalar c)"
proof -
  have "valid_prefix s = (utf8_chars s, snd (valid_prefix s))" by (simp add: utf8_chars_def)
  from valid_prefix_split [OF this] show ?thesis by blast
qed

lemma valid_utf8_chars: "valid_utf8 s \<Longrightarrow> concat (utf8_chars s) = s"
  using utf8_chars_split [of s] by (simp add: valid_utf8_def)

lemmas utf8_chars_scalars = utf8_chars_split [THEN conjunct2]

lemma utf8_chars_concat: "\<forall>c \<in> set cs. utf8_scalar c \<Longrightarrow> utf8_chars (concat cs) = cs"
  by (simp add: utf8_chars_def valid_prefix_of_scalars)

lemma utf8_chars_take: "utf8_chars (take_chars n s) = take n (utf8_chars s)"
  using utf8_chars_scalars [of s] by (auto simp: take_chars_def intro!: utf8_chars_concat dest: in_set_takeD)

end
