(* ===== verification/Process_Output.thy ===== *)
theory Process_Output
  imports Utf8
begin

text \<open>
  The output buffer of a child process (\<open>src/tool/process/output.rs\<close>): it keeps the head of the
  stream and a rolling tail within a byte budget, cuts only at the boundaries of UTF-8 scalars, and
  hands out pages from a caller's cursor.  A scalar is the list of its encoded bytes.  Counters are
  natural numbers that saturate at the top of 64 bits, as \<open>u64\<close> and \<open>usize\<close> do here.
\<close>

section \<open>The buffer\<close>

definition u64_max :: nat where
  "u64_max = 2 ^ 64 - 1"

definition sat_add :: "nat \<Rightarrow> nat \<Rightarrow> nat" where
  "sat_add a b = min (a + b) u64_max"

record bounded_output =
  max_bytes :: nat
  head_limit :: nat
  out_head :: string
  head_sealed :: bool
  out_tail :: string
  head_chars :: nat
  tail_chars :: nat
  pending_utf8 :: string
  out_cursor :: nat
  omitted_bytes :: nat
  out_incomplete :: bool

record process_output =
  page_bytes :: string
  page_cursor :: nat
  page_truncated :: bool
  page_omitted :: nat
  page_contiguous :: bool
  has_more_retained :: bool

definition new_output :: "nat \<Rightarrow> bounded_output" where
  "new_output limit = \<lparr>max_bytes = limit, head_limit = limit div 2, out_head = [], head_sealed = False, out_tail = [],
     head_chars = 0, tail_chars = 0, pending_utf8 = [], out_cursor = 0, omitted_bytes = 0, out_incomplete = False\<rparr>"

definition scalar_width :: "char \<Rightarrow> nat" where
  "scalar_width c =
     (if c \<le> CHR 0x7F then 1
      else if byte_in CHR 0xC2 CHR 0xDF c then 2
      else if byte_in CHR 0xE0 CHR 0xEF c then 3
      else if byte_in CHR 0xF0 CHR 0xF4 c then 4
      else 1)"

fun pop_front_utf8_scalar :: "string \<Rightarrow> nat \<times> string" where
  "pop_front_utf8_scalar [] = (0, [])"
| "pop_front_utf8_scalar (c # s) = (scalar_width c, drop (scalar_width c) (c # s))"

lemma scalar_width_pos: "0 < scalar_width c"
  by (simp add: scalar_width_def)

lemma pop_decreases: "(removed, rest) = pop_front_utf8_scalar t \<Longrightarrow> t \<noteq> [] \<Longrightarrow> length rest < length t"
  using scalar_width_pos by (cases t) (auto simp: diff_less_Suc)

text \<open>
  The eviction loop.  It is entered with a scalar that fits the budget on its own, so it stops at the
  latest with an empty tail.
\<close>

function evict :: "nat \<Rightarrow> nat \<Rightarrow> bounded_output \<Rightarrow> bounded_output" where
  "evict n tail_limit st =
     (if tail_limit < length (out_tail st) + n \<and> out_tail st \<noteq> [] then
        (case pop_front_utf8_scalar (out_tail st) of (removed, rest) \<Rightarrow>
           evict n tail_limit (st\<lparr>out_tail := rest, omitted_bytes := sat_add (omitted_bytes st) removed,
             tail_chars := tail_chars st - 1\<rparr>))
      else st)"
  by pat_completeness auto
termination
  by (relation "measure (\<lambda>(_, _, st). length (out_tail st))") (auto dest: pop_decreases)

declare evict.simps [simp del]

definition append_char :: "string \<Rightarrow> bounded_output \<Rightarrow> bounded_output" where
  "append_char c st0 =
     (let st = st0\<lparr>out_cursor := sat_add (out_cursor st0) 1\<rparr> in
      if \<not> head_sealed st \<and> length (out_head st) + length c \<le> head_limit st
      then st\<lparr>out_head := out_head st @ c, head_chars := sat_add (head_chars st) 1\<rparr>
      else
        let sealed = st\<lparr>head_sealed := True\<rparr>;
            tail_limit = max_bytes st - length (out_head st) in
        if tail_limit < length c
        then sealed\<lparr>omitted_bytes := sat_add (omitted_bytes st) (length (out_tail st) + length c), out_tail := [], tail_chars := 0\<rparr>
        else
          let ev = evict (length c) tail_limit sealed in
          ev\<lparr>out_tail := out_tail ev @ c, tail_chars := sat_add (tail_chars ev) 1\<rparr>)"

lemma drain_whole: "(cs, rest) = valid_prefix p \<Longrightarrow> cs \<noteq> [] \<Longrightarrow> length rest < length p"
  using valid_prefix_split [of p cs rest] utf8_scalar_nonempty by (cases cs) auto

lemma drain_error: "([], rest) = valid_prefix p \<Longrightarrow> utf8_next rest = Invalid n \<Longrightarrow> length rest - n < length p"
  using valid_prefix_split [of p "[]" rest] utf8_next_bounds(2) [of rest n] by auto

text \<open>The loop of \<open>append\<close>: whole scalars are consumed, an error becomes one replacement character.\<close>

function drain_pending :: "string \<Rightarrow> bounded_output \<Rightarrow> bounded_output" where
  "drain_pending pending st =
     (case valid_prefix pending of (cs, rest) \<Rightarrow>
        if rest = [] then (fold append_char cs st)\<lparr>pending_utf8 := []\<rparr>
        else if cs \<noteq> [] then drain_pending rest (fold append_char cs st)
        else (case utf8_next rest of
               Invalid n \<Rightarrow> drain_pending (drop n rest) (append_char replacement_character st)
             | _ \<Rightarrow> st\<lparr>pending_utf8 := rest\<rparr>))"
  by pat_completeness auto
termination
  by (relation "measure (\<lambda>(pending, _). length pending)") (auto dest!: drain_whole drain_error)

declare drain_pending.simps [simp del]

definition append_output :: "string \<Rightarrow> bounded_output \<Rightarrow> bounded_output" where
  "append_output bytes st = drain_pending (pending_utf8 st @ bytes) st"

definition finish_output :: "bounded_output \<Rightarrow> bounded_output" where
  "finish_output st = (if pending_utf8 st = [] then st else append_char replacement_character (st\<lparr>pending_utf8 := []\<rparr>))"

definition mark_incomplete :: "bounded_output \<Rightarrow> bounded_output" where
  "mark_incomplete st = st\<lparr>out_incomplete := True\<rparr>"

section \<open>Pages\<close>

definition render_bytes :: "string \<Rightarrow> string \<Rightarrow> string" where
  "render_bytes h t = h @ t"

definition snapshot :: "bounded_output \<Rightarrow> process_output" where
  "snapshot st = \<lparr>page_bytes = render_bytes (out_head st) (out_tail st), page_cursor = out_cursor st,
     page_truncated = (0 < omitted_bytes st \<or> out_incomplete st), page_omitted = omitted_bytes st,
     page_contiguous = (omitted_bytes st = 0), has_more_retained = False\<rparr>"

text \<open>\<open>chars().skip(n).collect()\<close> of bytes that are UTF-8, and nothing for bytes that are not.\<close>

definition skip_chars :: "nat \<Rightarrow> string \<Rightarrow> string" where
  "skip_chars n s = (case valid_prefix s of (cs, rest) \<Rightarrow> if rest = [] then concat (drop n cs) else [])"

fun tail_byte_offset :: "string \<Rightarrow> nat \<Rightarrow> nat \<Rightarrow> nat option" where
  "tail_byte_offset t 0 b = Some b"
| "tail_byte_offset t (Suc k) b = (if length t \<le> b then None else tail_byte_offset t k (b + scalar_width (t ! b)))"

definition tail_from_char_offset :: "string \<Rightarrow> nat \<Rightarrow> string" where
  "tail_from_char_offset t offset = (case tail_byte_offset t offset 0 of None \<Rightarrow> [] | Some b \<Rightarrow> drop b t)"

definition snapshot_since :: "nat \<Rightarrow> bounded_output \<Rightarrow> process_output" where
  "snapshot_since cursor st =
     (let current = snapshot st in
      if out_cursor st < cursor then
        current\<lparr>page_bytes := [], page_truncated := True, page_contiguous := False\<rparr>
      else if cursor = out_cursor st then current\<lparr>page_bytes := [], page_contiguous := True\<rparr>
      else if omitted_bytes st = 0 then
        current\<lparr>page_bytes := skip_chars cursor (page_bytes current), page_contiguous := True\<rparr>
      else if cursor < head_chars st then
        current\<lparr>page_bytes := skip_chars cursor (out_head st), page_cursor := head_chars st, page_truncated := True,
          page_contiguous := True, has_more_retained := True\<rparr>
      else
        let tail_start = out_cursor st - tail_chars st in
        if cursor < tail_start then
          current\<lparr>page_bytes := [], page_cursor := tail_start, page_truncated := True, page_contiguous := True,
            has_more_retained := (out_tail st \<noteq> [])\<rparr>
        else current\<lparr>page_bytes := tail_from_char_offset (out_tail st) (cursor - tail_start), page_contiguous := True\<rparr>)"

section \<open>What is decoded\<close>

text \<open>The eviction and the appending leave the pending bytes alone; updates of them move outwards.\<close>

lemma pending_last:
  "st\<lparr>pending_utf8 := x, out_tail := t\<rparr> = st\<lparr>out_tail := t, pending_utf8 := x\<rparr>"
  "st\<lparr>pending_utf8 := x, omitted_bytes := n\<rparr> = st\<lparr>omitted_bytes := n, pending_utf8 := x\<rparr>"
  "st\<lparr>pending_utf8 := x, tail_chars := n\<rparr> = st\<lparr>tail_chars := n, pending_utf8 := x\<rparr>"
  "st\<lparr>pending_utf8 := x, out_head := t\<rparr> = st\<lparr>out_head := t, pending_utf8 := x\<rparr>"
  "st\<lparr>pending_utf8 := x, head_chars := n\<rparr> = st\<lparr>head_chars := n, pending_utf8 := x\<rparr>"
  "st\<lparr>pending_utf8 := x, head_sealed := b\<rparr> = st\<lparr>head_sealed := b, pending_utf8 := x\<rparr>"
  "st\<lparr>pending_utf8 := x, out_cursor := n\<rparr> = st\<lparr>out_cursor := n, pending_utf8 := x\<rparr>"
  by simp_all

lemma evict_pending: "evict n l (st\<lparr>pending_utf8 := x\<rparr>) = (evict n l st)\<lparr>pending_utf8 := x\<rparr>"
proof (induction n l st rule: evict.induct)
  case (1 n l st)
  then show ?case
    by (subst (1 2) evict.simps) (simp add: pending_last split: prod.splits)
qed

lemma append_char_pending: "append_char c (st\<lparr>pending_utf8 := x\<rparr>) = (append_char c st)\<lparr>pending_utf8 := x\<rparr>"
  by (simp add: append_char_def Let_def pending_last evict_pending)

lemma fold_append_pending: "fold append_char cs (st\<lparr>pending_utf8 := x\<rparr>) = (fold append_char cs st)\<lparr>pending_utf8 := x\<rparr>"
  by (induction cs arbitrary: st) (simp_all add: append_char_pending)

lemma drain_is_lossy: "drain_pending p st = (fold append_char (fst (lossy p)) st)\<lparr>pending_utf8 := snd (lossy p)\<rparr>"
proof (induction p st rule: drain_pending.induct)
  case (1 p st)
  obtain cs rest where v: "valid_prefix p = (cs, rest)" by fastforce
  from valid_prefix_split [OF v] have split: "p = concat cs @ rest" "\<forall>c \<in> set cs. utf8_scalar c"
    and stop: "\<forall>n. utf8_next rest \<noteq> Scalar n" by auto
  have l: "lossy p = (cs @ fst (lossy rest), snd (lossy rest))" using split by (simp add: lossy_of_scalars)
  consider (all) "rest = []" | (whole) "rest \<noteq> []" "cs \<noteq> []" | (error) n where "rest \<noteq> []" "cs = []" "utf8_next rest = Invalid n"
    | (half) "rest \<noteq> []" "cs = []" "utf8_next rest = Incomplete" using stop by (cases "utf8_next rest") auto
  then show ?case
  proof cases
    case all
    then show ?thesis using v l by (subst drain_pending.simps) (simp add: lossy_unfold(3))
  next
    case whole
    with 1(1) [OF v [symmetric]] v l show ?thesis by (subst drain_pending.simps) simp
  next
    case error
    with 1(2) [OF v [symmetric]] v l show ?thesis by (subst drain_pending.simps) (simp add: lossy_unfold(2))
  next
    case half
    with v l show ?thesis by (subst drain_pending.simps) (simp add: lossy_unfold(3))
  qed
qed

lemma append_is_lossy:
  "append_output bytes st = (fold append_char (fst (lossy (pending_utf8 st @ bytes))) st)
     \<lparr>pending_utf8 := snd (lossy (pending_utf8 st @ bytes))\<rparr>"
  by (simp add: append_output_def drain_is_lossy)

lemma chunks_are_lossy:
  "fold append_output chunks (new_output limit) = (fold append_char (fst (lossy (concat chunks))) (new_output limit))
     \<lparr>pending_utf8 := snd (lossy (concat chunks))\<rparr>"
proof (induction chunks rule: rev_induct)
  case Nil
  then show ?case by (simp add: lossy_unfold(3) new_output_def)
next
  case (snoc c chunks)
  then have "fold append_output (chunks @ [c]) (new_output limit) = append_output c ((fold append_char (fst (lossy (concat chunks))) (new_output limit))
     \<lparr>pending_utf8 := snd (lossy (concat chunks))\<rparr>)" by simp
  also have "\<dots> = (fold append_char (fst (lossy (concat (chunks @ [c])))) (new_output limit))
     \<lparr>pending_utf8 := snd (lossy (concat (chunks @ [c])))\<rparr>"
    by (simp add: append_is_lossy fold_append_pending lossy_append [of "concat chunks" c])
  finally show ?case .
qed

section \<open>What is kept\<close>

text \<open>
  The reference buffer of a sequence of scalars: the longest prefix that fits half of the budget, and of
  the rest the longest suffix that fits what the prefix leaves.
\<close>

abbreviation bytes_of :: "string list \<Rightarrow> nat" where
  "bytes_of cs \<equiv> length (concat cs)"

fun fit_prefix :: "nat \<Rightarrow> string list \<Rightarrow> string list" where
  "fit_prefix b [] = []"
| "fit_prefix b (c # cs) = (if length c \<le> b then c # fit_prefix (b - length c) cs else [])"

definition fit_suffix :: "nat \<Rightarrow> string list \<Rightarrow> string list" where
  "fit_suffix b cs = rev (fit_prefix b (rev cs))"

definition kept_head :: "nat \<Rightarrow> string list \<Rightarrow> string list" where
  "kept_head limit cs = fit_prefix (limit div 2) cs"

definition after_head :: "nat \<Rightarrow> string list \<Rightarrow> string list" where
  "after_head limit cs = drop (length (kept_head limit cs)) cs"

definition kept_tail :: "nat \<Rightarrow> string list \<Rightarrow> string list" where
  "kept_tail limit cs = fit_suffix (limit - bytes_of (kept_head limit cs)) (after_head limit cs)"

definition buffer_of :: "nat \<Rightarrow> string list \<Rightarrow> bounded_output" where
  "buffer_of limit cs = \<lparr>max_bytes = limit, head_limit = limit div 2, out_head = concat (kept_head limit cs),
     head_sealed = (after_head limit cs \<noteq> []), out_tail = concat (kept_tail limit cs),
     head_chars = length (kept_head limit cs), tail_chars = length (kept_tail limit cs), pending_utf8 = [],
     out_cursor = length cs, omitted_bytes = bytes_of (after_head limit cs) - bytes_of (kept_tail limit cs),
     out_incomplete = False\<rparr>"

lemma fit_prefix_bytes: "bytes_of (fit_prefix b cs) \<le> b"
  by (induction b cs rule: fit_prefix.induct) auto

lemma fit_prefix_take: "fit_prefix b cs = take (length (fit_prefix b cs)) cs"
  by (induction b cs rule: fit_prefix.induct) auto

lemma fit_prefix_all: "bytes_of cs \<le> b \<Longrightarrow> fit_prefix b cs = cs"
  by (induction b cs rule: fit_prefix.induct) auto

lemma fit_prefix_snoc:
  "fit_prefix b (cs @ [c]) = (if bytes_of cs + length c \<le> b then cs @ [c] else fit_prefix b cs)"
  by (induction b cs rule: fit_prefix.induct) (auto simp: fit_prefix_all)

lemma fit_prefix_idem: "b \<le> b' \<Longrightarrow> fit_prefix b (fit_prefix b' cs) = fit_prefix b cs"
  by (induction b cs arbitrary: b' rule: fit_prefix.induct) auto

lemma bytes_of_rev [simp]: "bytes_of (rev cs) = bytes_of cs"
  by (induction cs) simp_all

lemma fit_suffix_Cons: "fit_suffix b (c # cs) = (if bytes_of (c # cs) \<le> b then c # cs else fit_suffix b cs)"
  by (simp add: fit_suffix_def fit_prefix_snoc add.commute)

lemma fit_suffix_snoc: "fit_suffix b (cs @ [c]) = (if length c \<le> b then fit_suffix (b - length c) cs @ [c] else [])"
  by (simp add: fit_suffix_def)

lemma fit_suffix_idem: "b \<le> b' \<Longrightarrow> fit_suffix b (fit_suffix b' cs) = fit_suffix b cs"
  by (simp add: fit_suffix_def fit_prefix_idem)

lemma fit_suffix_bytes: "bytes_of (fit_suffix b cs) \<le> b"
  using fit_prefix_bytes [of b "rev cs"] by (simp add: fit_suffix_def)

lemma fit_suffix_all: "bytes_of cs \<le> b \<Longrightarrow> fit_suffix b cs = cs"
  by (simp add: fit_suffix_def fit_prefix_all)

lemma fit_suffix_splits: "\<exists>ms. cs = ms @ fit_suffix b cs"
proof
  have "rev cs = fit_prefix b (rev cs) @ drop (length (fit_prefix b (rev cs))) (rev cs)"
    by (metis append_take_drop_id fit_prefix_take)
  then show "cs = rev (drop (length (fit_prefix b (rev cs))) (rev cs)) @ fit_suffix b cs"
    by (metis fit_suffix_def rev_append rev_rev_ident)
qed

lemma fit_suffix_bytes_le: "bytes_of (fit_suffix b cs) \<le> bytes_of cs"
  by (metis fit_suffix_splits concat_append length_append le_add2)

lemma fit_suffix_subset: "set (fit_suffix b cs) \<subseteq> set cs"
  by (metis fit_suffix_splits set_append Un_upper2)

lemma kept_head_snoc:
  "kept_head limit (cs @ [c]) = (if bytes_of cs + length c \<le> limit div 2 then cs @ [c] else kept_head limit cs)"
  by (simp add: kept_head_def fit_prefix_snoc)

lemma kept_head_splits: "cs = kept_head limit cs @ after_head limit cs"
  by (metis after_head_def append_take_drop_id fit_prefix_take kept_head_def)

lemma kept_head_length: "length (kept_head limit cs) \<le> length cs"
  by (metis kept_head_splits length_append le_add1)

lemma after_head_snoc:
  "after_head limit (cs @ [c]) = (if bytes_of cs + length c \<le> limit div 2 then [] else after_head limit cs @ [c])"
  using kept_head_length [of limit cs] by (simp add: after_head_def kept_head_snoc)

lemma head_takes:
  "after_head limit cs = [] \<and> bytes_of (kept_head limit cs) + n \<le> limit div 2 \<longleftrightarrow> bytes_of cs + n \<le> limit div 2"
proof
  assume "after_head limit cs = [] \<and> bytes_of (kept_head limit cs) + n \<le> limit div 2"
  then show "bytes_of cs + n \<le> limit div 2" using kept_head_splits [of cs limit] by simp
next
  assume "bytes_of cs + n \<le> limit div 2"
  then show "after_head limit cs = [] \<and> bytes_of (kept_head limit cs) + n \<le> limit div 2"
    by (simp add: after_head_def kept_head_def fit_prefix_all)
qed

lemma scalar_width_scalar: "utf8_scalar c \<Longrightarrow> scalar_width (hd c) = length c"
  unfolding utf8_scalar_def
  by (erule utf8_next_Scalar) (auto simp: scalar_width_def utf8_second_def byte_in_def less_eq_char_def split: if_splits)

lemma pop_scalar: "utf8_scalar c \<Longrightarrow> pop_front_utf8_scalar (c @ t) = (length c, t)"
  using scalar_width_scalar [of c] utf8_scalar_nonempty [of c] by (cases c) auto

lemma sat_add_exact: "a + b \<le> u64_max \<Longrightarrow> sat_add a b = a + b"
  by (simp add: sat_add_def)

lemma evict_keeps_suffix:
  assumes "\<forall>c \<in> set ts. utf8_scalar c" "n \<le> l" "omitted_bytes st + bytes_of ts \<le> u64_max" "tail_chars st = length ts"
    "out_tail st = concat ts"
  shows "evict n l st = st\<lparr>out_tail := concat (fit_suffix (l - n) ts),
     omitted_bytes := omitted_bytes st + (bytes_of ts - bytes_of (fit_suffix (l - n) ts)), tail_chars := length (fit_suffix (l - n) ts)\<rparr>"
  using assms
proof (induction ts arbitrary: st)
  case Nil
  then show ?case by (subst evict.simps) (simp add: fit_suffix_def)
next
  case (Cons t ts)
  show ?case
  proof (cases "l < length t + bytes_of ts + n")
    case True
    let ?st = "st\<lparr>out_tail := concat ts, omitted_bytes := omitted_bytes st + length t, tail_chars := length ts\<rparr>"
    have "evict n l st = evict n l ?st" using True Cons.prems utf8_scalar_nonempty [of t]
      by (subst evict.simps) (simp add: pop_scalar sat_add_exact)
    moreover have "bytes_of (fit_suffix (l - n) ts) \<le> bytes_of ts" by (rule fit_suffix_bytes_le)
    ultimately show ?thesis using Cons.IH [of ?st] Cons.prems True by (simp add: fit_suffix_Cons)
  next
    case False
    with Cons.prems show ?thesis by (subst evict.simps) (simp add: fit_suffix_Cons)
  qed
qed

lemma kept_tail_snoc:
  assumes "\<not> bytes_of cs + length c \<le> limit div 2"
  shows "kept_tail limit (cs @ [c]) =
     (if length c \<le> limit - bytes_of (kept_head limit cs)
      then fit_suffix (limit - bytes_of (kept_head limit cs) - length c) (kept_tail limit cs) @ [c] else [])"
  using assms by (simp add: kept_tail_def kept_head_snoc after_head_snoc fit_suffix_snoc fit_suffix_idem)

lemma kept_tail_bytes: "bytes_of (kept_tail limit cs) \<le> bytes_of (after_head limit cs)"
  by (simp add: kept_tail_def fit_suffix_bytes_le)

lemma after_head_bytes: "bytes_of (kept_head limit cs) + bytes_of (after_head limit cs) = bytes_of cs"
  by (metis concat_append kept_head_splits length_append)

lemma scalars_length: "\<forall>c \<in> set cs. utf8_scalar c \<Longrightarrow> length cs \<le> bytes_of cs"
proof (induction cs)
  case (Cons c cs)
  then show ?case using utf8_scalar_nonempty [of c] by (cases c) auto
qed simp

lemma kept_tail_length: "length (kept_tail limit cs) \<le> length (after_head limit cs)"
  unfolding kept_tail_def by (metis fit_suffix_splits length_append le_add2)

lemma after_head_length: "length (kept_head limit cs) + length (after_head limit cs) = length cs"
  by (metis kept_head_splits length_append)

lemma kept_parts:
  assumes "\<forall>c \<in> set cs. utf8_scalar c"
  shows "\<forall>c \<in> set (kept_head limit cs). utf8_scalar c" "\<forall>c \<in> set (kept_tail limit cs). utf8_scalar c"
    "\<forall>c \<in> set (after_head limit cs). utf8_scalar c"
proof -
  show rest: "\<forall>c \<in> set (after_head limit cs). utf8_scalar c" using assms in_set_dropD by (fastforce simp: after_head_def)
  show "\<forall>c \<in> set (kept_head limit cs). utf8_scalar c" using assms kept_head_splits [of cs limit] by (metis Un_iff set_append)
  show "\<forall>c \<in> set (kept_tail limit cs). utf8_scalar c" using rest fit_suffix_subset unfolding kept_tail_def by blast
qed

lemma append_char_refines:
  assumes "\<forall>d \<in> set cs. utf8_scalar d" "utf8_scalar c" "bytes_of (cs @ [c]) \<le> u64_max"
  shows "append_char c (buffer_of limit cs) = buffer_of limit (cs @ [c])"
proof -
  have cursor: "sat_add (length cs) 1 = length cs + 1"
    using scalars_length [of "cs @ [c]"] assms by (intro sat_add_exact) auto
  have sizes: "bytes_of (kept_tail limit cs) \<le> bytes_of (after_head limit cs)"
    "bytes_of (kept_head limit cs) + bytes_of (after_head limit cs) = bytes_of cs"
    by (rule kept_tail_bytes after_head_bytes)+
  note lengths = kept_tail_length [of limit cs] after_head_length [of limit cs]
  consider (head) "bytes_of cs + length c \<le> limit div 2"
    | (wide) "\<not> bytes_of cs + length c \<le> limit div 2" "limit - bytes_of (kept_head limit cs) < length c"
    | (tail) "\<not> bytes_of cs + length c \<le> limit div 2" "length c \<le> limit - bytes_of (kept_head limit cs)" by linarith
  then show ?thesis
  proof cases
    case head
    then have none: "after_head limit cs = []" "kept_head limit cs = cs" "kept_tail limit cs = []"
      using head_takes [of limit cs "length c"] by (auto simp: kept_head_def fit_prefix_all kept_tail_def fit_suffix_def)
    with head have "append_char c (buffer_of limit cs) = (buffer_of limit cs)\<lparr>out_cursor := length cs + 1,
        out_head := concat cs @ c, head_chars := length cs + 1\<rparr>"
      using cursor by (simp add: append_char_def buffer_of_def)
    with head none show ?thesis
      by (simp add: buffer_of_def kept_head_snoc after_head_snoc kept_tail_def fit_suffix_def)
  next
    case wide
    have "\<not> (after_head limit cs = [] \<and> bytes_of (kept_head limit cs) + length c \<le> limit div 2)"
      using wide(1) head_takes by blast
    moreover have "sat_add (bytes_of (after_head limit cs) - bytes_of (kept_tail limit cs)) (bytes_of (kept_tail limit cs) + length c) =
        bytes_of (after_head limit cs) + length c"
      using sizes assms(3) by (subst sat_add_exact) auto
    ultimately show ?thesis using wide cursor
      by (simp add: append_char_def buffer_of_def Let_def kept_head_snoc after_head_snoc kept_tail_snoc)
  next
    case tail
    let ?l = "limit - bytes_of (kept_head limit cs)"
    let ?ts = "fit_suffix (?l - length c) (kept_tail limit cs)"
    let ?st = "(buffer_of limit cs)\<lparr>out_cursor := length cs + 1, head_sealed := True\<rparr>"
    have fits: "bytes_of ?ts \<le> bytes_of (kept_tail limit cs)" "length ?ts \<le> length (kept_tail limit cs)"
      by (rule fit_suffix_bytes_le, metis fit_suffix_splits length_append le_add2)
    have "evict (length c) ?l ?st = ?st\<lparr>out_tail := concat ?ts, tail_chars := length ?ts,
        omitted_bytes := bytes_of (after_head limit cs) - bytes_of ?ts\<rparr>"
      using tail(2) sizes assms fits(1) kept_parts(2) [OF assms(1)]
      by (subst evict_keeps_suffix [of "kept_tail limit cs"]) (auto simp: buffer_of_def)
    moreover have "\<not> (after_head limit cs = [] \<and> bytes_of (kept_head limit cs) + length c \<le> limit div 2)"
      using tail(1) head_takes by blast
    moreover have "sat_add (length ?ts) 1 = length ?ts + 1"
      using fits(2) lengths scalars_length [of "cs @ [c]"] assms by (intro sat_add_exact) auto
    ultimately show ?thesis using tail cursor
      by (simp add: append_char_def Let_def buffer_of_def kept_head_snoc after_head_snoc kept_tail_snoc)
  qed
qed

lemma fold_append_refines:
  "\<forall>c \<in> set cs. utf8_scalar c \<Longrightarrow> bytes_of cs \<le> u64_max \<Longrightarrow> fold append_char cs (new_output limit) = buffer_of limit cs"
proof (induction cs rule: rev_induct)
  case Nil
  then show ?case by (simp add: new_output_def buffer_of_def kept_head_def after_head_def kept_tail_def fit_suffix_def)
next
  case (snoc c cs)
  then show ?case by (simp add: append_char_refines)
qed

section \<open>What the pages hold\<close>

definition retained :: "nat \<Rightarrow> string list \<Rightarrow> nat \<Rightarrow> bool" where
  "retained limit cs i \<longleftrightarrow> i < length (kept_head limit cs) \<or> length cs - length (kept_tail limit cs) \<le> i"

definition retained_between :: "nat \<Rightarrow> string list \<Rightarrow> nat \<Rightarrow> nat \<Rightarrow> string" where
  "retained_between limit cs i j = concat (map (nth cs) (filter (retained limit cs) [i ..< j]))"

lemma map_nth_interval: "j \<le> length xs \<Longrightarrow> map (nth xs) [i ..< j] = take (j - i) (drop i xs)"
  by (rule nth_equalityI) auto

lemma retained_between_all:
  assumes "j \<le> length cs" "\<forall>k. i \<le> k \<longrightarrow> k < j \<longrightarrow> retained limit cs k"
  shows "retained_between limit cs i j = concat (take (j - i) (drop i cs))"
  using assms by (simp add: retained_between_def map_nth_interval filter_id_conv)

lemma skip_chars_scalars: "\<forall>c \<in> set cs. utf8_scalar c \<Longrightarrow> skip_chars n (concat cs) = concat (drop n cs)"
  by (simp add: skip_chars_def valid_prefix_of_scalars)

lemma tail_byte_offset_scalars:
  "\<forall>c \<in> set ts. utf8_scalar c \<Longrightarrow> k \<le> length ts \<Longrightarrow>
     tail_byte_offset (x @ concat ts) k (length x) = Some (length x + bytes_of (take k ts))"
proof (induction k arbitrary: x ts)
  case (Suc k)
  then obtain t ts' where ts: "ts = t # ts'" by (cases ts) auto
  then have t: "t \<noteq> []" "scalar_width (hd t) = length t" using Suc.prems utf8_scalar_nonempty [of t] scalar_width_scalar by auto
  then have "(x @ concat ts) ! length x = hd t" unfolding ts by (cases t) (simp_all add: nth_append)
  with t Suc.IH [of ts' "x @ t"] Suc.prems show ?case unfolding ts by simp
qed simp

lemma tail_from_char_offset_scalars:
  assumes "\<forall>c \<in> set ts. utf8_scalar c" "k \<le> length ts"
  shows "tail_from_char_offset (concat ts) k = concat (drop k ts)"
proof -
  have "concat ts = concat (take k ts) @ concat (drop k ts)" by (metis append_take_drop_id concat_append)
  then have "drop (bytes_of (take k ts)) (concat ts) = concat (drop k ts)" by simp
  with tail_byte_offset_scalars [OF assms, of "[]"] show ?thesis by (simp add: tail_from_char_offset_def)
qed

lemma kept_tail_splits: "\<exists>ms. after_head limit cs = ms @ kept_tail limit cs"
  unfolding kept_tail_def by (rule fit_suffix_splits)

lemma nothing_omitted:
  assumes "\<forall>c \<in> set cs. utf8_scalar c"
  shows "omitted_bytes (buffer_of limit cs) = 0 \<longleftrightarrow> after_head limit cs = kept_tail limit cs"
proof -
  obtain ms where ms: "after_head limit cs = ms @ kept_tail limit cs" using kept_tail_splits by blast
  then have "\<forall>c \<in> set ms. utf8_scalar c" using kept_parts(3) [OF assms, of limit] by auto
  then have "length ms \<le> bytes_of ms" by (rule scalars_length)
  then have empty: "bytes_of ms = 0 \<longleftrightarrow> ms = []" by (metis concat.simps(1) le_zero_eq length_0_conv)
  have "omitted_bytes (buffer_of limit cs) = bytes_of ms" unfolding buffer_of_def ms by simp
  with empty show ?thesis unfolding ms by simp
qed

lemma page_of_buffer:
  assumes "\<forall>c \<in> set cs. utf8_scalar c" "i < length cs" "st = (buffer_of limit cs)\<lparr>pending_utf8 := p, out_incomplete := b\<rparr>"
  defines "page \<equiv> snapshot_since i st"
  shows "i < page_cursor page \<and> page_cursor page \<le> length cs \<and> page_contiguous page \<and>
    page_bytes page = retained_between limit cs i (page_cursor page)"
proof -
  let ?h = "kept_head limit cs" and ?r = "after_head limit cs" and ?t = "kept_tail limit cs"
  note parts = kept_parts [OF assms(1), of limit]
  have cs: "cs = ?h @ ?r" by (rule kept_head_splits)
  obtain ms where ms: "?r = ms @ ?t" using kept_tail_splits by blast
  have len: "length cs = length ?h + length ms + length ?t" using cs ms by (metis add.assoc length_append)
  have om: "omitted_bytes st = 0 \<longleftrightarrow> ms = []" using nothing_omitted [OF assms(1), of limit] ms assms(3) by simp
  have st: "out_cursor st = length cs" "head_chars st = length ?h" "tail_chars st = length ?t" "out_head st = concat ?h"
    "out_tail st = concat ?t" using assms(3) by (simp_all add: buffer_of_def)
  consider (whole) "ms = []" | (head) "ms \<noteq> []" "i < length ?h" | (gap) "ms \<noteq> []" "length ?h \<le> i" "i < length cs - length ?t"
    | (tail) "ms \<noteq> []" "length ?h \<le> i" "length cs - length ?t \<le> i" by linarith
  then show ?thesis
  proof cases
    case whole
    have "concat ?h @ concat ?t = concat cs" using cs ms whole by (metis append_Nil concat_append)
    moreover have "retained limit cs k" for k using whole len by (simp add: retained_def) linarith
    then have "retained_between limit cs i (length cs) = concat (drop i cs)" by (simp add: retained_between_all)
    ultimately show ?thesis using assms(1,2) whole om st
      by (simp add: page_def snapshot_since_def snapshot_def render_bytes_def skip_chars_scalars)
  next
    case head
    have "take (length ?h - i) (drop i cs) = drop i (take (length ?h) cs)" using head by (simp add: take_drop)
    moreover have "take (length ?h) cs = ?h" using cs by (metis append_eq_conv_conj)
    ultimately have "retained_between limit cs i (length ?h) = concat (drop i ?h)"
      using len by (subst retained_between_all) (auto simp: retained_def)
    with head assms(2) parts om st len show ?thesis
      by (simp add: page_def snapshot_since_def snapshot_def skip_chars_scalars)
  next
    case gap
    then have "retained_between limit cs i (length cs - length ?t) = []"
      unfolding retained_between_def by (auto simp: retained_def)
    with gap assms(2) om st show ?thesis by (simp add: page_def snapshot_since_def snapshot_def)
  next
    case tail
    have "cs = (?h @ ms) @ ?t" using cs ms by (metis append.assoc)
    then have "drop i cs = drop i ((?h @ ms) @ ?t)" by (rule arg_cong)
    also have "\<dots> = drop (i - (length cs - length ?t)) ?t" using tail len by simp
    finally have "drop i cs = drop (i - (length cs - length ?t)) ?t" .
    moreover have "retained_between limit cs i (length cs) = concat (drop i cs)"
      using tail by (subst retained_between_all) (auto simp: retained_def)
    ultimately show ?thesis using tail assms(2) parts om st len
      by (simp add: page_def snapshot_since_def snapshot_def tail_from_char_offset_scalars)
  qed
qed

text \<open>A caller that asks for the next page from the cursor of the page before.\<close>

primrec read_pages :: "nat \<Rightarrow> nat \<Rightarrow> bounded_output \<Rightarrow> string \<times> nat" where
  "read_pages 0 i st = ([], i)"
| "read_pages (Suc n) i st = (case read_pages n (page_cursor (snapshot_since i st)) st of
     (bytes, j) \<Rightarrow> (page_bytes (snapshot_since i st) @ bytes, j))"

lemma retained_between_append:
  "i \<le> j \<Longrightarrow> j \<le> k \<Longrightarrow> retained_between limit cs i j @ retained_between limit cs j k = retained_between limit cs i k"
  using upt_add_eq_append [of i j "k - j"] by (simp add: retained_between_def)

lemma page_at_end: "page_bytes (snapshot_since (out_cursor st) st) = []" "page_cursor (snapshot_since (out_cursor st) st) = out_cursor st"
  by (simp_all add: snapshot_since_def snapshot_def)

lemma read_pages_retained:
  assumes "\<forall>c \<in> set cs. utf8_scalar c" "st = (buffer_of limit cs)\<lparr>pending_utf8 := p, out_incomplete := b\<rparr>" "i \<le> length cs"
  shows "\<exists>j. read_pages n i st = (retained_between limit cs i j, j) \<and> i \<le> j \<and> j \<le> length cs"
  using assms(3)
proof (induction n arbitrary: i)
  case 0
  then show ?case by (auto simp: retained_between_def)
next
  case (Suc n)
  have st: "out_cursor st = length cs" using assms(2) by (simp add: buffer_of_def)
  show ?case
  proof (cases "i = length cs")
    case True
    with Suc.IH [of i] page_at_end [of st] st show ?thesis by auto
  next
    case False
    let ?j = "page_cursor (snapshot_since i st)"
    from False Suc.prems have page: "i < ?j" "?j \<le> length cs" "page_bytes (snapshot_since i st) = retained_between limit cs i ?j"
      using page_of_buffer [OF assms(1) _ assms(2), of i] by auto
    from Suc.IH [OF page(2)] obtain k where "read_pages n ?j st = (retained_between limit cs ?j k, k)" "?j \<le> k" "k \<le> length cs"
      by blast
    with page show ?thesis by (auto simp: retained_between_append)
  qed
qed

lemma page_ends:
  assumes "i < out_cursor st"
  shows "page_cursor (snapshot_since i st) =
    (if omitted_bytes st = 0 then out_cursor st else if i < head_chars st then head_chars st
     else if i < out_cursor st - tail_chars st then out_cursor st - tail_chars st else out_cursor st)"
  using assms by (simp add: snapshot_since_def snapshot_def Let_def)

lemma three_pages_end: "head_chars st \<le> out_cursor st \<Longrightarrow> snd (read_pages 3 0 st) = out_cursor st"
proof -
  assume h: "head_chars st \<le> out_cursor st"
  let ?next = "\<lambda>i. page_cursor (snapshot_since i st)"
  have "snd (read_pages 3 0 st) = ?next (?next (?next 0))" by (simp add: numeral_3_eq_3 case_prod_unfold)
  also have "\<dots> = out_cursor st"
  proof -
    have fin: "?next (out_cursor st) = out_cursor st" by (rule page_at_end)
    have last: "?next i = out_cursor st" if "head_chars st \<le> i" "out_cursor st - tail_chars st \<le> i" "i \<le> out_cursor st" for i
      using that page_ends [of i st] fin by (cases "i = out_cursor st") auto
    show ?thesis using h fin last page_ends [of 0 st] page_ends [of "head_chars st" st]
      by (cases "out_cursor st = 0"; cases "head_chars st = out_cursor st") (auto split: if_splits)
  qed
  finally show ?thesis .
qed

lemma snapshot_bytes:
  assumes "st = (buffer_of limit cs)\<lparr>pending_utf8 := p, out_incomplete := b\<rparr>"
  shows "page_bytes (snapshot st) = retained_between limit cs 0 (length cs)"
proof -
  let ?h = "kept_head limit cs" and ?t = "kept_tail limit cs"
  obtain ms where ms: "after_head limit cs = ms @ ?t" using kept_tail_splits by blast
  have cs: "cs = ?h @ ms @ ?t" using kept_head_splits [of cs limit] ms by metis
  have len: "length cs = length ?h + length ms + length ?t" using cs by (metis add.assoc length_append)
  have gap: "retained_between limit cs (length ?h) (length cs - length ?t) = []"
    by (auto simp: retained_between_def retained_def)
  have "retained_between limit cs 0 (length ?h) = concat (take (length ?h) cs)"
    "retained_between limit cs (length cs - length ?t) (length cs) = concat (drop (length cs - length ?t) cs)"
    using len by (subst retained_between_all; auto simp: retained_def)+
  moreover have "take (length ?h) cs = ?h" "drop (length cs - length ?t) cs = ?t"
    using cs by (metis append_eq_conv_conj, metis append.assoc append_eq_conv_conj length_append diff_add_inverse2)
  ultimately have "concat ?h @ [] @ concat ?t = retained_between limit cs 0 (length ?h) @
      retained_between limit cs (length ?h) (length cs - length ?t) @ retained_between limit cs (length cs - length ?t) (length cs)"
    using gap by simp
  also have "\<dots> = retained_between limit cs 0 (length cs)" using len by (simp add: retained_between_append)
  finally show ?thesis using assms by (simp add: snapshot_def render_bytes_def buffer_of_def)
qed

section \<open>Memory\<close>

definition within_budget :: "bounded_output \<Rightarrow> bool" where
  "within_budget st \<longleftrightarrow> head_limit st \<le> max_bytes st \<and> length (out_head st) \<le> head_limit st \<and>
     length (out_head st) + length (out_tail st) \<le> max_bytes st \<and> (head_sealed st \<or> out_tail st = [])"

lemma evict_frame:
  "max_bytes (evict n l st) = max_bytes st \<and> head_limit (evict n l st) = head_limit st \<and> out_head (evict n l st) = out_head st \<and>
   head_sealed (evict n l st) = head_sealed st"
proof (induction n l st rule: evict.induct)
  case (1 n l st)
  then show ?case by (subst (1 2 3 4) evict.simps) (simp split: prod.split)
qed

lemma evict_fits: "n \<le> l \<Longrightarrow> length (out_tail (evict n l st)) + n \<le> l"
proof (induction n l st rule: evict.induct)
  case (1 n l st)
  then show ?case by (subst evict.simps) (auto split: prod.split)
qed

lemma append_char_within:
  "within_budget st \<Longrightarrow> within_budget (append_char c st) \<and> max_bytes (append_char c st) = max_bytes st \<and>
     head_limit (append_char c st) = head_limit st"
  using evict_fits [of "length c" "max_bytes st - length (out_head st)"
      "st\<lparr>out_cursor := sat_add (out_cursor st) 1, head_sealed := True\<rparr>"]
  by (auto simp: append_char_def Let_def within_budget_def evict_frame)

lemma fold_append_within:
  "within_budget st \<Longrightarrow> within_budget (fold append_char cs st) \<and> max_bytes (fold append_char cs st) = max_bytes st \<and>
     head_limit (fold append_char cs st) = head_limit st"
  by (induction cs arbitrary: st) (simp_all add: append_char_within)

lemma new_output_limits: "max_bytes (new_output limit) = limit" "head_limit (new_output limit) = limit div 2"
  by (simp_all add: new_output_def)

lemma new_output_within: "within_budget (new_output limit)"
  by (simp add: within_budget_def new_output_def)

section \<open>Properties\<close>

text \<open>
  Property C15.  The buffer of a child process refines its specification: whatever the chunks in which
  the reader delivers the stream, and even when a chunk ends inside a UTF-8 scalar, the buffer holds the
  longest prefix of the decoded stream that fits half of the budget and the longest suffix of the rest
  that fits what is left, the counters count them, and only an unfinished scalar is pending.
\<close>

theorem buffer_refines_head_and_tail:
  assumes "bytes_of (fst (lossy (concat chunks))) \<le> u64_max"
  shows "fold append_output chunks (new_output limit) =
    (buffer_of limit (fst (lossy (concat chunks))))\<lparr>pending_utf8 := snd (lossy (concat chunks))\<rparr>"
  using assms by (simp add: chunks_are_lossy fold_append_refines lossy_scalars)

theorem buffer_refines_head_and_tail_witness:
  "bytes_of (fst (lossy (concat [[CHR 0x61, CHR 0xE2], [CHR 0x82, CHR 0xAC, CHR 0xFF]]))) \<le> u64_max \<and>
   fold append_output [[CHR 0x61, CHR 0xE2], [CHR 0x82, CHR 0xAC, CHR 0xFF]] (new_output 6) =
    (buffer_of 6 (fst (lossy (concat [[CHR 0x61, CHR 0xE2], [CHR 0x82, CHR 0xAC, CHR 0xFF]]))))
      \<lparr>pending_utf8 := snd (lossy (concat [[CHR 0x61, CHR 0xE2], [CHR 0x82, CHR 0xAC, CHR 0xFF]]))\<rparr>"
proof -
  have "bytes_of (fst (lossy (concat [[CHR 0x61, CHR 0xE2], [CHR 0x82, CHR 0xAC, CHR 0xFF]]))) = 7" by code_simp
  then have "bytes_of (fst (lossy (concat [[CHR 0x61, CHR 0xE2], [CHR 0x82, CHR 0xAC, CHR 0xFF]]))) \<le> u64_max"
    by (simp add: u64_max_def)
  with buffer_refines_head_and_tail show ?thesis by blast
qed

text \<open>
  The memory of a buffer stays within its budget for every stream, also for one longer
  than any counter: head and tail together never exceed the budget, the head never exceeds half of it, and
  at most three bytes wait for the rest of a scalar.
\<close>

theorem buffer_memory_is_bounded:
  "length (out_head (fold append_output chunks (new_output limit))) + length (out_tail (fold append_output chunks (new_output limit))) \<le> limit \<and>
   length (out_head (fold append_output chunks (new_output limit))) \<le> limit div 2 \<and>
   length (pending_utf8 (fold append_output chunks (new_output limit))) \<le> 3"
  using fold_append_within [OF new_output_within, of "fst (lossy (concat chunks))" limit]
    utf8_next_pending [OF lossy_pending, of "concat chunks"]
  by (auto simp: chunks_are_lossy within_budget_def new_output_limits)

text \<open>
  A page from a cursor inside the stream makes progress and is contiguous: it holds exactly
  the retained scalars between the caller's cursor and the cursor of the page, the omitted ones in between
  contribute nothing, and no retained scalar is repeated or skipped.
\<close>

theorem page_holds_the_retained_scalars:
  fixes chunks :: "string list" and limit :: nat
  defines "cs \<equiv> fst (lossy (concat chunks))" and "st \<equiv> fold append_output chunks (new_output limit)"
  assumes "bytes_of cs \<le> u64_max" "i < length cs"
  shows "i < page_cursor (snapshot_since i st) \<and> page_cursor (snapshot_since i st) \<le> length cs \<and>
    page_contiguous (snapshot_since i st) \<and>
    page_bytes (snapshot_since i st) = retained_between limit cs i (page_cursor (snapshot_since i st))"
  using assms by (intro page_of_buffer [where p = "snd (lossy (concat chunks))" and b = False])
    (simp_all add: chunks_are_lossy fold_append_refines lossy_scalars buffer_of_def)

theorem page_holds_the_retained_scalars_witness:
  "page_bytes (snapshot_since 1 (fold append_output [''abcde'', ''fghi''] (new_output 6))) =
     retained_between 6 (fst (lossy (concat [''abcde'', ''fghi'']))) 1
       (page_cursor (snapshot_since 1 (fold append_output [''abcde'', ''fghi''] (new_output 6)))) \<and>
   1 < page_cursor (snapshot_since 1 (fold append_output [''abcde'', ''fghi''] (new_output 6)))"
proof -
  have "bytes_of (fst (lossy (concat [''abcde'', ''fghi'']))) = 9" by code_simp
  then have "bytes_of (fst (lossy (concat [''abcde'', ''fghi'']))) \<le> u64_max" by (simp add: u64_max_def)
  moreover have "1 < length (fst (lossy (concat [''abcde'', ''fghi''])))" by code_simp
  ultimately show ?thesis using page_holds_the_retained_scalars [of "[''abcde'', ''fghi'']" 1 6] by blast
qed

text \<open>
  Property C16.  A caller that follows the cursors of the pages from the start has, after at most three
  pages, the whole retained output and the cursor of the end of the stream.
\<close>

theorem three_pages_read_everything:
  fixes chunks :: "string list" and limit :: nat
  defines "st \<equiv> fold append_output chunks (new_output limit)"
  assumes "bytes_of (fst (lossy (concat chunks))) \<le> u64_max"
  shows "read_pages 3 0 st = (page_bytes (snapshot st), out_cursor st)"
proof -
  let ?cs = "fst (lossy (concat chunks))"
  have st: "st = (buffer_of limit ?cs)\<lparr>pending_utf8 := snd (lossy (concat chunks)), out_incomplete := False\<rparr>"
    using assms by (simp add: chunks_are_lossy fold_append_refines lossy_scalars buffer_of_def)
  then have fields: "out_cursor st = length ?cs" "head_chars st \<le> out_cursor st" by (simp_all add: buffer_of_def kept_head_length)
  from read_pages_retained [OF lossy_scalars st, of 0 3] obtain j
    where j: "read_pages 3 0 st = (retained_between limit ?cs 0 j, j)" by auto
  with three_pages_end [OF fields(2)] have "j = length ?cs" using fields(1) by simp
  with j snapshot_bytes [OF st] fields(1) show ?thesis by simp
qed

theorem three_pages_read_everything_witness:
  "read_pages 3 0 (fold append_output [''abcde'', ''fghi''] (new_output 6)) =
     (page_bytes (snapshot (fold append_output [''abcde'', ''fghi''] (new_output 6))),
      out_cursor (fold append_output [''abcde'', ''fghi''] (new_output 6)))"
proof -
  have "bytes_of (fst (lossy (concat [''abcde'', ''fghi'']))) = 9" by code_simp
  then have "bytes_of (fst (lossy (concat [''abcde'', ''fghi'']))) \<le> u64_max" by (simp add: u64_max_def)
  then show ?thesis by (rule three_pages_read_everything)
qed

end
