(* ===== verification/Analysis.thy ===== *)
theory Analysis
  imports Team_Store Utf8
begin

text \<open>
  The analysis of a dispute (\<open>src/maintainer/arbitration/types.rs\<close>, \<open>evaluator.rs\<close>, and the record checks
  of \<open>store.rs\<close>, \<open>service.rs\<close> and \<open>resolution.rs\<close>): its record, the answers of the proposing and the
  verifying model with the checks they must pass, and the pure rules of its life cycle.  Texts that are
  shown to people are named by constructors, error codes are the strings of the code.  An \<open>f64\<close> is a
  number \<open>m \<cdot> 2\<^sup>e\<close>, an infinity or no number.
\<close>

section \<open>Floating point\<close>

datatype f64 = Num int int | PosInf | NegInf | NaN

fun f64_le :: "f64 \<Rightarrow> f64 \<Rightarrow> bool" where
  "f64_le NaN b = False"
| "f64_le a NaN = False"
| "f64_le NegInf b = True"
| "f64_le a PosInf = True"
| "f64_le (Num m e) (Num n f) = (m * 2 ^ nat (e - f) \<le> n * 2 ^ nat (f - e))"
| "f64_le _ _ = False"

fun f64_is_finite :: "f64 \<Rightarrow> bool" where
  "f64_is_finite (Num _ _) = True"
| "f64_is_finite _ = False"

section \<open>Data\<close>

datatype analysis_tag = AnalysisTag

type_synonym analysis_id = "analysis_tag ident"

datatype legacy_analysis_source = LegacyAutomatic | LegacyManual

datatype arbitration_mode = Shadow | Auto | Manual

record analysis_job =
  job_dispute_id :: dispute_id
  job_analysis_id :: analysis_id

datatype analysis_state =
    Pending | WaitingContext | WaitingReanalysis | Proposing | Verifying
  | Approved | StateUnresolved | Failed | Adopting | Adopted

fun is_terminal :: "analysis_state \<Rightarrow> bool" where
  "is_terminal s = (s \<in> {Approved, StateUnresolved, Failed, Adopted})"

fun is_recoverable :: "analysis_state \<Rightarrow> bool" where
  "is_recoverable s = (s \<in> {Pending, WaitingContext, WaitingReanalysis, Proposing, Verifying, Adopting})"

datatype analysis_phase = ProposalPhase | VerificationPhase

record analysis_lease =
  lease_token :: string
  lease_phase :: analysis_phase
  lease_expires_at :: time
  lease_renewed_at :: time

record dispute_ref =
  ref_id :: dispute_id
  ref_name :: string
  ref_claim_ids :: "claim_id list"
  ref_summary :: string
  ref_status :: dispute_status

record context_warning =
  warning_code :: string
  warning_detail :: string

record prior_resolution_context =
  prior_dispute_id :: dispute_id
  prior_resolution :: dispute_resolution

record frozen_arbitration_context =
  generated_at :: time
  frozen_dispute :: dispute
  direct_claims :: "claim list"
  source_claims :: "claim list"
  context_policies :: "policy list"
  router_candidate_claims :: "claim list"
  router_disputes :: "dispute_ref list"
  prior_resolutions :: "prior_resolution_context list"
  context_warnings :: "context_warning list"

record arbitration_proposal =
  proposed_type :: resolution_type
  proposed_basis :: resolution_basis
  proposed_conclusion :: string
  proposed_assessments :: "claim_assessment list"
  proposal_confidence :: f64
  evidence_refs :: "string list"
  proposal_missing_evidence :: "string list"
  human_review_reason :: "string option"
  proposal_reasoning :: string

datatype verification_verdict = Approve | VerdictUnresolved

record claim_assessment_verification =
  verified_claim_id :: claim_id
  agreed :: bool
  verification_reason :: string

record arbitration_verification =
  verdict :: verification_verdict
  resolution_type_agreed :: bool
  resolution_basis_agreed :: bool
  conclusion_agreed :: bool
  verified_assessments :: "claim_assessment_verification list"
  verification_confidence :: f64
  verification_missing_evidence :: "string list"
  verification_reasoning :: string

text \<open>Texts for people: a dispute closed meanwhile, reasons that block an adoption, and error messages.\<close>

datatype analysis_text =
    DisputeClosed
  | ContextIncomplete
  | InputsChanged string
  | RepeatedChanges
  | HumanAdoptionFixed analysis_id
  | AdoptionPreemptedBy arbitration_resolution_id
  | DeliveryToBeRecovered
  | SeeLog string
  | ErrorText string

record analysis_error =
  error_code :: string
  error_message :: analysis_text

record analysis_round =
  round_number :: nat
  round_started_at :: time
  round_completed_at :: "time option"
  round_projection_version :: nat
  round_fingerprint :: string
  round_snapshot_hash :: string
  round_proposal :: arbitration_proposal
  round_verification :: arbitration_verification
  round_change_reason :: "string option"

record delivery_target_intent =
  intent_inbox_id :: inbox_id
  intent_target_agent :: agent_id
  intent_inbox_message :: inbox_message

record delivery_intent =
  intent_policy :: policy
  intent_action_id :: maintainer_action_id
  intent_targets :: "delivery_target_intent list"

record arbitration_resolution_record =
  rr_schema_version :: nat
  rr_resolution_id :: arbitration_resolution_id
  rr_dispute_id :: dispute_id
  rr_created_at :: time
  rr_resolution :: dispute_resolution
  rr_dispute_snapshot :: dispute
  rr_direct_claim_snapshots :: "claim list"
  rr_semantic_fingerprint :: "string option"
  rr_context_snapshot_hash :: "string option"
  rr_analysis_source_id :: "analysis_id option"
  rr_legacy_source_attempt_id :: "string option"
  rr_delivery_intent :: "delivery_intent option"
  rr_snapshot_source_resolution_id :: "arbitration_resolution_id option"

record arbitration_analysis =
  schema_version :: nat
  analysis_id :: analysis_id
  analysis_dispute_id :: dispute_id
  legacy_source :: legacy_analysis_source
  report_snapshot :: "dispute option"
  analysis_created_at :: time
  analysis_updated_at :: time
  prompt_version :: string
  analysis_mode :: arbitration_mode
  analysis_model :: string
  confidence_threshold :: f64
  semantic_projection_version :: nat
  semantic_fingerprint :: "string option"
  analysis_snapshot_hash :: "string option"
  analysis_context :: "frozen_arbitration_context option"
  analysis_state :: analysis_state
  analysis_round :: nat
  analysis_rounds :: "analysis_round list"
  context_change_count :: nat
  next_retry_at :: "time option"
  context_change_reason :: "string option"
  analysis_lease :: "analysis_lease option"
  analysis_proposal :: "arbitration_proposal option"
  analysis_verification :: "arbitration_verification option"
  analysis_resolution_id :: "arbitration_resolution_id option"
  pending_resolution :: "arbitration_resolution_record option"
  analysis_error :: "analysis_error option"
  delivery_error :: "analysis_text option"
  adoption_blocked_reason :: "analysis_text option"
  context_prepare_attempts :: nat

definition arbitration_schema_version :: nat where
  "arbitration_schema_version = 2"

definition arbitration_prompt_version :: string where
  "arbitration_prompt_version = ''maintainer-dispute-arbitration-v8''"

definition current_semantic_projection_version :: nat where
  "current_semantic_projection_version = 6"

definition saturating_add32 :: "nat \<Rightarrow> nat \<Rightarrow> nat" where
  "saturating_add32 a b = min (a + b) (2 ^ 32 - 1)"

section \<open>The answers of the models\<close>

definition validate_assessments :: "claim_id list \<Rightarrow> claim_assessment list \<Rightarrow> bool" where
  "validate_assessments direct assessments \<longleftrightarrow>
     assessments = []
     \<or> (distinct (map assessed_claim_id assessments) \<and> set (map assessed_claim_id assessments) = set direct
        \<and> list_all (\<lambda>a. str_trim (assessment a) \<noteq> [] \<and> str_trim (assessment_reason a) \<noteq> []
             \<and> (case recommended_scope a of None \<Rightarrow> True | Some v \<Rightarrow> str_trim v \<noteq> [])
             \<and> (case recommended_statement a of None \<Rightarrow> True | Some v \<Rightarrow> str_trim v \<noteq> [])) assessments)"

definition visible_evidence_ids :: "frozen_arbitration_context \<Rightarrow> string list" where
  "visible_evidence_ids ctx =
     as_str (dispute_id (frozen_dispute ctx))
     # map (as_str \<circ> claim_id) (direct_claims ctx @ source_claims ctx)
     @ map (as_str \<circ> policy_id) (context_policies ctx)
     @ map (as_str \<circ> claim_id) (router_candidate_claims ctx)
     @ map (as_str \<circ> ref_id) (router_disputes ctx)
     @ map (as_str \<circ> resolution_id \<circ> prior_resolution) (prior_resolutions ctx)"

definition confidence_in_range :: "f64 \<Rightarrow> bool" where
  "confidence_in_range c \<longleftrightarrow> f64_is_finite c \<and> f64_le (Num 0 0) c \<and> f64_le c (Num 1 0)"

definition validate_proposal :: "frozen_arbitration_context \<Rightarrow> arbitration_proposal \<Rightarrow> bool" where
  "validate_proposal ctx p \<longleftrightarrow>
     confidence_in_range (proposal_confidence p)
     \<and> str_trim (proposed_conclusion p) \<noteq> [] \<and> str_trim (proposal_reasoning p) \<noteq> []
     \<and> (let direct = map claim_id (direct_claims ctx) in
        (if proposed_type p = Unresolved
         then proposed_basis p = InsufficientEvidence \<and> proposed_assessments p = []
         else proposed_basis p \<noteq> InsufficientEvidence \<and> proposed_assessments p \<noteq> []
              \<and> validate_assessments direct (proposed_assessments p))
        \<and> distinct (evidence_refs p)
        \<and> list_all (\<lambda>i. i \<in> set (visible_evidence_ids ctx)) (evidence_refs p)
        \<and> list_all (\<lambda>i. as_str i \<in> set (evidence_refs p)) direct)"

definition validate_verification ::
  "frozen_arbitration_context \<Rightarrow> arbitration_proposal \<Rightarrow> arbitration_verification \<Rightarrow> bool" where
  "validate_verification ctx p v \<longleftrightarrow>
     confidence_in_range (verification_confidence v)
     \<and> str_trim (verification_reasoning v) \<noteq> []
     \<and> (if verdict v = VerdictUnresolved
        then verified_assessments v = []
        else proposed_type p \<noteq> Unresolved
             \<and> distinct (map verified_claim_id (verified_assessments v))
             \<and> set (map verified_claim_id (verified_assessments v)) = set (map claim_id (direct_claims ctx))
             \<and> list_all (\<lambda>a. str_trim (verification_reason a) \<noteq> []) (verified_assessments v))"

definition analysis_is_approved :: "arbitration_analysis \<Rightarrow> f64 \<Rightarrow> bool" where
  "analysis_is_approved a threshold =
     (case (analysis_proposal a, analysis_verification a) of
        (Some p, Some v) \<Rightarrow>
          is_resolved (proposed_type p) \<and> f64_le threshold (proposal_confidence p) \<and> f64_le threshold (verification_confidence v)
          \<and> verdict v = Approve \<and> resolution_type_agreed v \<and> resolution_basis_agreed v \<and> conclusion_agreed v
          \<and> list_all agreed (verified_assessments v)
      | _ \<Rightarrow> False)"

section \<open>Rules of the life cycle\<close>

definition validate_analysis :: "arbitration_analysis \<Rightarrow> bool" where
  "validate_analysis a \<longleftrightarrow>
     schema_version a = arbitration_schema_version
     \<and> ((analysis_context a \<noteq> None) = (semantic_fingerprint a \<noteq> None \<and> analysis_snapshot_hash a \<noteq> None))
     \<and> ((analysis_state a = WaitingReanalysis) = (next_retry_at a \<noteq> None))
     \<and> 0 < analysis_round a \<and> analysis_round a \<le> 3
     \<and> (case report_snapshot a of None \<Rightarrow> True | Some d \<Rightarrow> dispute_id d = analysis_dispute_id a)"

definition normalize_legacy_adoption_mode ::
  "arbitration_analysis \<Rightarrow> legacy_analysis_source option \<Rightarrow> arbitration_analysis" where
  "normalize_legacy_adoption_mode a hint =
     (if legacy_source a = LegacyManual \<or> hint = Some LegacyManual
      then a\<lparr>legacy_source := LegacyManual, analysis_mode := Manual\<rparr>
      else case hint of Some source \<Rightarrow> a\<lparr>legacy_source := source\<rparr> | None \<Rightarrow> a)"

definition select_legacy_current_analysis ::
  "arbitration_analysis option \<Rightarrow> arbitration_analysis option \<Rightarrow> arbitration_analysis option" where
  "select_legacy_current_analysis automatic manual =
     (case (map_option (\<lambda>a. normalize_legacy_adoption_mode a (Some LegacyAutomatic)) automatic,
            map_option (\<lambda>a. normalize_legacy_adoption_mode a (Some LegacyManual)) manual) of
        (None, None) \<Rightarrow> None
      | (Some a, None) \<Rightarrow> Some a
      | (None, Some m) \<Rightarrow> Some m
      | (Some a, Some m) \<Rightarrow>
          (if analysis_state a = Adopting \<and> analysis_state m \<noteq> Adopting then Some a
           else if analysis_state a \<noteq> Adopting \<and> analysis_state m = Adopting then Some m
           else if (analysis_created_at m > analysis_created_at a
               \<or> (analysis_created_at m = analysis_created_at a
                  \<and> (analysis_updated_at m > analysis_updated_at a
                     \<or> (analysis_updated_at m = analysis_updated_at a \<and> analysis_id m > analysis_id a))))
           then Some m else Some a))"

definition preempt_analysis_for_resolution :: "arbitration_analysis \<Rightarrow> time \<Rightarrow> arbitration_analysis option" where
  "preempt_analysis_for_resolution a now =
     (if \<not> is_recoverable (analysis_state a) \<or> analysis_state a = Adopting then None
      else Some (a\<lparr>analysis_state := Failed, analysis_lease := None, next_retry_at := None,
        analysis_error := Some \<lparr>error_code = ''analysis_preempted'', error_message = DisputeClosed\<rparr>,
        analysis_updated_at := now\<rparr>))"

definition public_analysis_error :: "string \<Rightarrow> string \<Rightarrow> analysis_text" where
  "public_analysis_error code err =
     (if code \<in> {''proposal_failed'', ''verification_failed'', ''context_build_failed''} then SeeLog code
      else ErrorText (take_chars 1000 err))"

definition set_failed :: "string \<Rightarrow> string \<Rightarrow> time \<Rightarrow> arbitration_analysis \<Rightarrow> arbitration_analysis" where
  "set_failed code err now a =
     a\<lparr>analysis_state := Failed, analysis_lease := None, analysis_updated_at := now,
       analysis_error := Some \<lparr>error_code = code, error_message = public_analysis_error code err\<rparr>\<rparr>"

definition nanos_per_minute :: int where
  "nanos_per_minute = 60 * nanos_per_sec"

text \<open>The mutation of \<open>schedule_reanalysis\<close>: two more rounds, five and fifteen minutes later, then no more.\<close>

definition mark_last_round :: "string \<Rightarrow> analysis_round list \<Rightarrow> analysis_round list" where
  "mark_last_round reason rs =
     (if rs = [] then [] else butlast rs @ [(last rs)\<lparr>round_change_reason := Some reason\<rparr>])"

definition reanalysis_scheduled :: "string \<Rightarrow> time \<Rightarrow> arbitration_analysis \<Rightarrow> arbitration_analysis" where
  "reanalysis_scheduled reason now a0 =
     (let a = a0\<lparr>context_change_count := saturating_add32 (context_change_count a0) 1,
            context_change_reason := Some reason,
            analysis_rounds := mark_last_round reason (analysis_rounds a0),
            analysis_updated_at := now, analysis_lease := None, analysis_resolution_id := None,
            pending_resolution := None, delivery_error := None, analysis_error := None\<rparr> in
      if context_change_count a = 1
      then a\<lparr>analysis_round := 2, analysis_state := WaitingReanalysis, next_retry_at := Some (now + 5 * nanos_per_minute),
        adoption_blocked_reason := None\<rparr>
      else if context_change_count a = 2
      then a\<lparr>analysis_round := 3, analysis_state := WaitingReanalysis, next_retry_at := Some (now + 15 * nanos_per_minute),
        adoption_blocked_reason := None\<rparr>
      else a\<lparr>analysis_state := Approved, next_retry_at := None, adoption_blocked_reason := Some RepeatedChanges\<rparr>)"

end
