(* ===== verification/Arbitration.thy ===== *)
theory Arbitration
  imports Mirrors Analysis
begin

text \<open>
  The analysis store and the service that drives an analysis through its states
  (\<open>src/maintainer/arbitration/store.rs\<close> and \<open>service.rs\<close>).  The state is the team store with the
  directory of current analyses, the two legacy directories, which are only read, and a clock.  Each
  definition is one critical section under the lock of the dispute, so an interleaving of workers is a
  sequence of these calls.  What the context builder and the models answer is an argument of the section
  that stores the answer.
\<close>

section \<open>State\<close>

record arb_store =
  arb_team :: team_store
  arb_clock :: "nat \<Rightarrow> time"
  arb_clock_pos :: nat
  current_analyses :: "arbitration_analysis dir"
  legacy_automatic_analyses :: "arbitration_analysis dir"
  legacy_manual_analyses :: "arbitration_analysis dir"

datatype arb_error =
    TeamError team_error
  | Conflict
  | NoCurrentAnalysis
  | JobReplaced
  | AnalysisInvalid
  | AnalysisExists
  | StateMismatch
  | LeaseMissing
  | LeaseTaken
  | DurationOverflow
  | MissingContext
  | MissingProposal
  | ContextBuildError

type_synonym 'a arb_io = "(arb_store, arb_error, 'a) io"

record arb_config =
  cfg_mode :: arbitration_mode
  cfg_threshold :: f64
  cfg_model :: string
  lease_duration :: duration
  context_prepare_max_attempts :: nat

record report_dispute_result =
  report_created :: bool
  report_analysis :: "arbitration_analysis option"
  should_enqueue :: bool

record built_arbitration_context =
  built_frozen :: frozen_arbitration_context
  built_fingerprint :: string
  built_snapshot_hash :: string

datatype build_result = Built built_arbitration_context | NotReady | BuildFailed

definition in_team :: "'a team_io \<Rightarrow> 'a arb_io" where
  "in_team m w = (case m (arb_team w) of (r, t) \<Rightarrow> (map_sum TeamError id r, w\<lparr>arb_team := t\<rparr>))"

definition clock_now :: "time arb_io" where
  "clock_now w = (Inr (arb_clock w (arb_clock_pos w)), w\<lparr>arb_clock_pos := Suc (arb_clock_pos w)\<rparr>)"

text \<open>\<open>fill_bytes\<close> on an array of four bytes per draw, written in hexadecimal.\<close>

fun draw_hex :: "nat \<Rightarrow> string team_io" where
  "draw_hex 0 = return_io []"
| "draw_hex (Suc n) = bind_io draw (\<lambda>r. bind_io (draw_hex n) (\<lambda>s. return_io (random_hex8 r @ s)))"

definition random_analysis_id :: "analysis_id arb_io" where
  "random_analysis_id = bind_io (in_team (draw_hex 2)) (\<lambda>s. return_io (Ident (''analysis_'' @ s)))"

definition random_lease_token :: "string arb_io" where
  "random_lease_token = in_team (draw_hex 4)"

section \<open>The analysis store\<close>

definition arb_read :: "(arb_store \<Rightarrow> 'a dir) \<Rightarrow> string \<Rightarrow> 'a arb_io" where
  "arb_read get name = bind_io (in_team io_call) (\<lambda>_.
     bind_io (get_io (\<lambda>w. map_sum TeamError id (decode_file name (map_of (get w) name)))) lift_sum)"

definition read_optional_yaml :: "(arb_store \<Rightarrow> 'a dir) \<Rightarrow> string \<Rightarrow> 'a option arb_io" where
  "read_optional_yaml get name = bind_io (attempt_io (arb_read get name)) (\<lambda>r. case r of
       Inr x \<Rightarrow> return_io (Some x)
     | Inl (TeamError (NotFound _)) \<Rightarrow> return_io None
     | Inl e \<Rightarrow> throw_io e)"

definition lock_dispute :: "unit arb_io" where
  "lock_dispute = in_team io_call"

definition read_current_analysis :: "dispute_id \<Rightarrow> arbitration_analysis option arb_io" where
  "read_current_analysis d =
     bind_io (read_optional_yaml current_analyses (yaml_name d)) (\<lambda>current. case current of
       Some a \<Rightarrow> return_io (Some (normalize_legacy_adoption_mode a None))
     | None \<Rightarrow>
         bind_io (read_optional_yaml legacy_automatic_analyses (yaml_name d)) (\<lambda>automatic.
         bind_io (read_optional_yaml legacy_manual_analyses (yaml_name d)) (\<lambda>manual.
           return_io (select_legacy_current_analysis automatic manual))))"

definition put_analysis :: "arbitration_analysis \<Rightarrow> unit arb_io" where
  "put_analysis a = bind_io (in_team io_call) (\<lambda>_.
     modify_io (current_analyses_update (AList.update (yaml_name (analysis_dispute_id a)) (Document a))))"

text \<open>\<open>create_once_yaml\<close> for the current analysis: the same record again is no error.\<close>

definition create_report_analysis :: "arbitration_analysis \<Rightarrow> unit arb_io" where
  "create_report_analysis a =
     bind_io (attempt_io (arb_read current_analyses (yaml_name (analysis_dispute_id a)))) (\<lambda>r. case r of
       Inr existing \<Rightarrow> if existing = a then return_io () else throw_io AnalysisExists
     | Inl (TeamError (NotFound _)) \<Rightarrow> put_analysis a
     | Inl e \<Rightarrow> throw_io e)"

definition replace_current_analysis :: "arbitration_analysis \<Rightarrow> unit arb_io" where
  "replace_current_analysis a = put_analysis a"

definition read_analysis :: "analysis_job \<Rightarrow> arbitration_analysis arb_io" where
  "read_analysis job = bind_io (read_current_analysis (job_dispute_id job)) (\<lambda>current. case current of
       None \<Rightarrow> throw_io NoCurrentAnalysis
     | Some a \<Rightarrow> if analysis_id a \<noteq> job_analysis_id job then throw_io JobReplaced else return_io a)"

definition is_current_analysis_job :: "analysis_job \<Rightarrow> bool arb_io" where
  "is_current_analysis_job job = bind_io (read_current_analysis (job_dispute_id job)) (\<lambda>current.
     return_io (case current of None \<Rightarrow> False | Some a \<Rightarrow> analysis_id a = job_analysis_id job))"

definition write_analysis :: "arbitration_analysis \<Rightarrow> unit arb_io" where
  "write_analysis a = (if \<not> validate_analysis a then throw_io AnalysisInvalid else put_analysis a)"

section \<open>Reports and new analyses\<close>

definition dispute_open :: "maintainer_dispute_record \<Rightarrow> bool" where
  "dispute_open r \<longleftrightarrow> dispute_status (record_dispute r) = Open \<and> record_resolution r = None"

definition new_analysis :: "arb_config \<Rightarrow> dispute_id \<Rightarrow> arbitration_analysis arb_io" where
  "new_analysis cfg d = bind_io clock_now (\<lambda>now. bind_io random_analysis_id (\<lambda>i. return_io
     \<lparr>schema_version = arbitration_schema_version, analysis_id = i, analysis_dispute_id = d,
      legacy_source = LegacyAutomatic, report_snapshot = None, analysis_created_at = now, analysis_updated_at = now,
      prompt_version = arbitration_prompt_version, analysis_mode = cfg_mode cfg, analysis_model = cfg_model cfg,
      confidence_threshold = cfg_threshold cfg, semantic_projection_version = current_semantic_projection_version,
      semantic_fingerprint = None, analysis_snapshot_hash = None, analysis_context = None, analysis_state = Pending,
      analysis_round = 1, analysis_rounds = [], context_change_count = 0, next_retry_at = None,
      context_change_reason = None, analysis_lease = None, analysis_proposal = None, analysis_verification = None,
      analysis_resolution_id = None, pending_resolution = None, analysis_error = None, delivery_error = None,
      adoption_blocked_reason = None, context_prepare_attempts = 0\<rparr>))"

definition same_report :: "arbitration_analysis \<Rightarrow> dispute \<Rightarrow> bool" where
  "same_report a d = (case report_snapshot a of None \<Rightarrow> False | Some s \<Rightarrow> same_report_payload s d)"

definition record_report :: "dispute \<Rightarrow> unit arb_io" where
  "record_report d = in_team (write_dispute \<lparr>record_dispute = d, record_resolution = None\<rparr>)"

definition report_known_dispute :: "arb_config \<Rightarrow> maintainer_dispute_record \<Rightarrow> dispute \<Rightarrow> report_dispute_result arb_io" where
  "report_known_dispute cfg existing d =
     (if \<not> same_report_payload (record_dispute existing) d then throw_io Conflict
      else bind_io (read_current_analysis (dispute_id d)) (\<lambda>current. return_io
        \<lparr>report_created = False, report_analysis = current,
         should_enqueue = (cfg_mode cfg \<noteq> Manual
           \<and> (case current of None \<Rightarrow> False | Some a \<Rightarrow> is_recoverable (analysis_state a)))\<rparr>))"

definition report_new_manual :: "dispute \<Rightarrow> report_dispute_result arb_io" where
  "report_new_manual d = bind_io (read_current_analysis (dispute_id d)) (\<lambda>orphan.
     if (case orphan of None \<Rightarrow> False | Some a \<Rightarrow> \<not> same_report a d) then throw_io Conflict
     else bind_io (record_report d) (\<lambda>_. return_io
       \<lparr>report_created = True, report_analysis = orphan,
        should_enqueue = (case orphan of None \<Rightarrow> False | Some a \<Rightarrow> is_recoverable (analysis_state a))\<rparr>))"

definition report_new_analysed :: "arb_config \<Rightarrow> dispute \<Rightarrow> report_dispute_result arb_io" where
  "report_new_analysed cfg d =
     bind_io (bind_io (read_current_analysis (dispute_id d)) (\<lambda>current. case current of
         Some a \<Rightarrow> if same_report a d then return_io a else throw_io Conflict
       | None \<Rightarrow> bind_io (new_analysis cfg (dispute_id d)) (\<lambda>fresh.
           let a = fresh\<lparr>report_snapshot := Some d\<rparr> in
           bind_io (create_report_analysis a) (\<lambda>_. return_io a)))) (\<lambda>a.
     bind_io (record_report d) (\<lambda>_. return_io
       \<lparr>report_created = True, report_analysis = Some a, should_enqueue = True\<rparr>))"

definition report_dispute_analysis :: "arb_config \<Rightarrow> dispute \<Rightarrow> report_dispute_result arb_io" where
  "report_dispute_analysis cfg d =
     (case validate_agent_report d of
        Inl e \<Rightarrow> throw_io (TeamError (ReportInvalid e))
      | Inr _ \<Rightarrow> bind_io lock_dispute (\<lambda>_.
          bind_io (attempt_io (in_team (read_dispute (dispute_id d)))) (\<lambda>r. case r of
              Inr existing \<Rightarrow> report_known_dispute cfg existing d
            | Inl (TeamError (NotFound _)) \<Rightarrow>
                bind_io (in_team (validate_new_dispute_direct_claims d)) (\<lambda>_.
                  if cfg_mode cfg = Manual then report_new_manual d else report_new_analysed cfg d)
            | Inl e \<Rightarrow> throw_io e)))"

definition create_analysis :: "arb_config \<Rightarrow> dispute_id \<Rightarrow> arbitration_analysis arb_io" where
  "create_analysis cfg d = bind_io lock_dispute (\<lambda>_.
     bind_io (in_team (read_dispute d)) (\<lambda>r.
     if \<not> dispute_open r then throw_io Conflict
     else bind_io (read_current_analysis d) (\<lambda>current.
       if (case current of None \<Rightarrow> False | Some a \<Rightarrow> analysis_state a = Adopting) then throw_io Conflict
       else bind_io (new_analysis cfg d) (\<lambda>a.
         bind_io (replace_current_analysis a) (\<lambda>_. return_io a)))))"

section \<open>Leases\<close>

text \<open>\<open>chrono::Duration::from_std\<close> refuses more milliseconds than a signed 64-bit integer holds.\<close>

definition chrono_duration :: "duration \<Rightarrow> duration arb_io" where
  "chrono_duration d = (if (2 ^ 63 - 1) * 1000000 < d then throw_io DurationOverflow else return_io d)"

definition new_lease :: "arb_config \<Rightarrow> analysis_phase \<Rightarrow> time \<Rightarrow> analysis_lease arb_io" where
  "new_lease cfg phase now = bind_io (chrono_duration (lease_duration cfg)) (\<lambda>delta.
     bind_io random_lease_token (\<lambda>token. return_io
       \<lparr>lease_token = token, lease_phase = phase, lease_expires_at = now + delta, lease_renewed_at = now\<rparr>))"

definition ensure_lease :: "arbitration_analysis \<Rightarrow> string \<Rightarrow> analysis_phase \<Rightarrow> unit arb_io" where
  "ensure_lease a token phase = (case analysis_lease a of
       None \<Rightarrow> throw_io LeaseMissing
     | Some l \<Rightarrow> if lease_phase l \<noteq> phase \<or> lease_token l \<noteq> token then throw_io LeaseTaken else return_io ())"

fun phase_state :: "analysis_phase \<Rightarrow> analysis_state" where
  "phase_state ProposalPhase = Proposing"
| "phase_state VerificationPhase = Verifying"

text \<open>A live lease is respected; an expired or missing one is taken over with a new token.\<close>

definition acquire_phase :: "arb_config \<Rightarrow> analysis_job \<Rightarrow> analysis_phase \<Rightarrow> string option arb_io" where
  "acquire_phase cfg job phase = bind_io lock_dispute (\<lambda>_.
     bind_io (read_analysis job) (\<lambda>a.
     if analysis_state a \<noteq> phase_state phase then return_io None
     else bind_io clock_now (\<lambda>now.
       if (case analysis_lease a of None \<Rightarrow> False | Some l \<Rightarrow> now < lease_expires_at l) then return_io None
       else bind_io (new_lease cfg phase now) (\<lambda>l.
         bind_io (write_analysis (a\<lparr>analysis_lease := Some l, analysis_updated_at := now\<rparr>)) (\<lambda>_.
           return_io (Some (lease_token l)))))))"

section \<open>Preparing the context\<close>

definition record_waiting_context :: "analysis_job \<Rightarrow> nat arb_io" where
  "record_waiting_context job = bind_io lock_dispute (\<lambda>_.
     bind_io (read_analysis job) (\<lambda>a.
     if analysis_state a \<notin> {Pending, WaitingContext} then return_io (context_prepare_attempts a)
     else bind_io clock_now (\<lambda>now.
       let a' = a\<lparr>analysis_state := WaitingContext,
             context_prepare_attempts := saturating_add32 (context_prepare_attempts a) 1, analysis_updated_at := now\<rparr> in
       bind_io (write_analysis a') (\<lambda>_. return_io (context_prepare_attempts a')))))"

definition closed_meanwhile :: "time \<Rightarrow> arbitration_analysis \<Rightarrow> arbitration_analysis" where
  "closed_meanwhile now a = a\<lparr>analysis_state := Failed,
     analysis_error := Some \<lparr>error_code = ''analysis_preempted'', error_message = DisputeClosed\<rparr>, analysis_updated_at := now\<rparr>"

definition save_prepared_context :: "arb_config \<Rightarrow> analysis_job \<Rightarrow> built_arbitration_context \<Rightarrow> string arb_io" where
  "save_prepared_context cfg job built = bind_io lock_dispute (\<lambda>_.
     bind_io (in_team (read_dispute (job_dispute_id job))) (\<lambda>r.
     bind_io (read_analysis job) (\<lambda>a.
     if \<not> dispute_open r then
       bind_io clock_now (\<lambda>now. bind_io (write_analysis (closed_meanwhile now a)) (\<lambda>_. throw_io Conflict))
     else if analysis_state a \<notin> {Pending, WaitingContext} then throw_io StateMismatch
     else bind_io clock_now (\<lambda>now.
       bind_io (new_lease cfg ProposalPhase now) (\<lambda>l.
       bind_io (write_analysis (a\<lparr>semantic_fingerprint := Some (built_fingerprint built),
           analysis_snapshot_hash := Some (built_snapshot_hash built), analysis_context := Some (built_frozen built),
           analysis_state := Proposing, analysis_lease := Some l, analysis_updated_at := now, analysis_error := None\<rparr>)) (\<lambda>_.
         return_io (lease_token l)))))))"

section \<open>Saving the answers\<close>

definition save_proposal :: "arb_config \<Rightarrow> analysis_job \<Rightarrow> string \<Rightarrow> arbitration_proposal \<Rightarrow> string arb_io" where
  "save_proposal cfg job token p = bind_io lock_dispute (\<lambda>_.
     bind_io clock_now (\<lambda>now.
     bind_io (read_analysis job) (\<lambda>a.
     bind_io (ensure_lease a token ProposalPhase) (\<lambda>_.
     bind_io (in_team (read_dispute (job_dispute_id job))) (\<lambda>r.
     if \<not> dispute_open r then
       bind_io (write_analysis ((closed_meanwhile now a)\<lparr>analysis_lease := None\<rparr>)) (\<lambda>_. throw_io Conflict)
     else bind_io (new_lease cfg VerificationPhase now) (\<lambda>l.
       bind_io (write_analysis (a\<lparr>analysis_proposal := Some p, analysis_state := Verifying,
           analysis_lease := Some (l\<lparr>lease_token := token\<rparr>), analysis_updated_at := now\<rparr>)) (\<lambda>_.
         return_io token)))))))"

definition completed_round :: "time \<Rightarrow> arbitration_analysis \<Rightarrow> analysis_round list" where
  "completed_round now a =
     (case (semantic_fingerprint a, analysis_snapshot_hash a, analysis_proposal a, analysis_verification a, analysis_context a) of
        (Some f, Some h, Some p, Some v, Some ctx) \<Rightarrow>
          [\<lparr>round_number = analysis_round a, round_started_at = generated_at ctx, round_completed_at = Some now,
            round_projection_version = semantic_projection_version a, round_fingerprint = f, round_snapshot_hash = h,
            round_proposal = p, round_verification = v, round_change_reason = context_change_reason a\<rparr>]
      | _ \<Rightarrow> [])"

definition verified_analysis :: "arb_config \<Rightarrow> time \<Rightarrow> arbitration_verification \<Rightarrow> arbitration_analysis \<Rightarrow> arbitration_analysis" where
  "verified_analysis cfg now v a0 =
     (let a = a0\<lparr>analysis_verification := Some v\<rparr>;
          b = a\<lparr>analysis_state := (if analysis_is_approved a (cfg_threshold cfg) then Approved else StateUnresolved),
             analysis_lease := None, analysis_updated_at := now\<rparr> in
      b\<lparr>analysis_rounds := analysis_rounds b @ completed_round now b\<rparr>)"

definition save_verification :: "arb_config \<Rightarrow> analysis_job \<Rightarrow> string \<Rightarrow> arbitration_verification \<Rightarrow> unit arb_io" where
  "save_verification cfg job token v = bind_io lock_dispute (\<lambda>_.
     bind_io clock_now (\<lambda>now.
     bind_io (read_analysis job) (\<lambda>a.
     bind_io (ensure_lease a token VerificationPhase) (\<lambda>_.
       write_analysis (verified_analysis cfg now v a)))))"

section \<open>Ends and restarts\<close>

definition mark_analysis_preempted :: "analysis_job \<Rightarrow> unit arb_io" where
  "mark_analysis_preempted job = bind_io lock_dispute (\<lambda>_.
     bind_io (read_analysis job) (\<lambda>a.
     bind_io clock_now (\<lambda>now.
       case preempt_analysis_for_resolution a now of
         None \<Rightarrow> return_io ()
       | Some a' \<Rightarrow> write_analysis a')))"

definition finish_failed :: "analysis_job \<Rightarrow> string \<Rightarrow> string \<Rightarrow> string \<Rightarrow> unit arb_io" where
  "finish_failed job token code err = bind_io lock_dispute (\<lambda>_.
     bind_io clock_now (\<lambda>now.
     bind_io (read_analysis job) (\<lambda>a.
       case analysis_lease a of
         None \<Rightarrow> throw_io LeaseMissing
       | Some l \<Rightarrow> bind_io (ensure_lease a token (lease_phase l)) (\<lambda>_. write_analysis (set_failed code err now a)))))"

definition finish_failed_without_lease :: "analysis_job \<Rightarrow> string \<Rightarrow> string \<Rightarrow> unit arb_io" where
  "finish_failed_without_lease job code err = bind_io lock_dispute (\<lambda>_.
     bind_io (read_analysis job) (\<lambda>a.
     if is_terminal (analysis_state a) then return_io ()
     else bind_io clock_now (\<lambda>now. write_analysis (set_failed code err now a))))"

definition restarted :: "time \<Rightarrow> arbitration_analysis \<Rightarrow> arbitration_analysis" where
  "restarted now a = a\<lparr>semantic_fingerprint := None, analysis_snapshot_hash := None, analysis_context := None,
     analysis_proposal := None, analysis_verification := None, context_change_reason := None, analysis_lease := None,
     next_retry_at := None, analysis_state := Pending, context_prepare_attempts := 0, analysis_updated_at := now\<rparr>"

definition start_reanalysis_round :: "analysis_job \<Rightarrow> unit arb_io" where
  "start_reanalysis_round job = bind_io lock_dispute (\<lambda>_.
     bind_io (read_analysis job) (\<lambda>a.
     if analysis_state a \<noteq> WaitingReanalysis then return_io ()
     else case next_retry_at a of
       None \<Rightarrow> bind_io clock_now (\<lambda>now. write_analysis (restarted now a))
     | Some t \<Rightarrow> bind_io clock_now (\<lambda>now.
         if now < t then return_io ()
         else bind_io clock_now (\<lambda>later. write_analysis (restarted later a)))))"

definition persisted_retry_delay :: "analysis_job \<Rightarrow> analysis_state \<Rightarrow> duration option arb_io" where
  "persisted_retry_delay job state =
     (if state \<noteq> WaitingReanalysis then return_io None
      else bind_io (read_analysis job) (\<lambda>a. case next_retry_at a of
          None \<Rightarrow> return_io (Some 0)
        | Some t \<Rightarrow> bind_io clock_now (\<lambda>now. return_io (Some (max 0 (t - now))))))"

section \<open>Adoption checks\<close>

definition ensure_adoption_preconditions :: "arbitration_analysis \<Rightarrow> maintainer_dispute_record \<Rightarrow> unit arb_io" where
  "ensure_adoption_preconditions a r =
     (if analysis_state a \<noteq> Approved \<or> adoption_blocked_reason a \<noteq> None \<or> \<not> dispute_open r
      then throw_io Conflict else return_io ())"

definition schedule_reanalysis :: "arbitration_analysis \<Rightarrow> string \<Rightarrow> unit arb_io" where
  "schedule_reanalysis a reason = bind_io clock_now (\<lambda>now. write_analysis (reanalysis_scheduled reason now a))"

text \<open>
  The second critical section of \<open>adopt_approved\<close> up to the commit: the analysis is read again and is
  only committed when the context built meanwhile has the fingerprint that was analysed.  The reason is
  the description of the changes.
\<close>

definition recheck_adoption :: "arb_config \<Rightarrow> analysis_job \<Rightarrow> build_result \<Rightarrow> string \<Rightarrow> unit arb_io" where
  "recheck_adoption cfg job current reason =
     bind_io (read_analysis job) (\<lambda>a.
     bind_io (in_team (read_dispute (job_dispute_id job))) (\<lambda>r.
     bind_io (ensure_adoption_preconditions a r) (\<lambda>_.
     case current of
       NotReady \<Rightarrow> bind_io clock_now (\<lambda>now.
         bind_io (write_analysis (a\<lparr>adoption_blocked_reason := Some ContextIncomplete, analysis_updated_at := now\<rparr>)) (\<lambda>_.
           throw_io Conflict))
     | BuildFailed \<Rightarrow> throw_io ContextBuildError
     | Built built \<Rightarrow>
         if semantic_fingerprint a = Some (built_fingerprint built) then return_io ()
         else if analysis_mode a = Auto \<and> cfg_mode cfg = Auto
         then bind_io (schedule_reanalysis a reason) (\<lambda>_. throw_io Conflict)
         else bind_io clock_now (\<lambda>now.
           bind_io (write_analysis (a\<lparr>adoption_blocked_reason := Some (InputsChanged reason),
               context_change_reason := Some reason, analysis_updated_at := now\<rparr>)) (\<lambda>_.
             throw_io Conflict)))))"

section \<open>Phases\<close>

text \<open>
  What a model call may end with: the worker was cancelled or preempted while it waited, the call failed
  (with an answer that never passed the checks, or otherwise), or an answer.
\<close>

datatype 'a model_answer = Interrupted | CallFailed bool string | Answer 'a

record models =
  propose :: "frozen_arbitration_context \<Rightarrow> arbitration_proposal model_answer"
  verify :: "frozen_arbitration_context \<Rightarrow> arbitration_proposal \<Rightarrow> arbitration_verification model_answer"
  defect_text :: "frozen_arbitration_context \<Rightarrow> arbitration_proposal \<Rightarrow> string"

definition run_verification :: "arb_config \<Rightarrow> models \<Rightarrow> analysis_job \<Rightarrow> string \<Rightarrow> bool arb_io" where
  "run_verification cfg llm job token = bind_io (read_analysis job) (\<lambda>a.
     case analysis_context a of
       None \<Rightarrow> throw_io MissingContext
     | Some ctx \<Rightarrow> (case analysis_proposal a of
         None \<Rightarrow> throw_io MissingProposal
       | Some p \<Rightarrow> (case verify llm ctx p of
           Interrupted \<Rightarrow> return_io False
         | CallFailed invalid err \<Rightarrow>
             bind_io (finish_failed job token (if invalid then ''verification_invalid'' else ''verification_failed'') err)
               (\<lambda>_. return_io False)
         | Answer v \<Rightarrow>
             if \<not> validate_verification ctx p v
             then bind_io (finish_failed job token ''verification_invalid'' (defect_text llm ctx p)) (\<lambda>_. return_io False)
             else bind_io (save_verification cfg job token v) (\<lambda>_. return_io True))))"

definition run_proposal :: "arb_config \<Rightarrow> models \<Rightarrow> analysis_job \<Rightarrow> string \<Rightarrow> bool arb_io" where
  "run_proposal cfg llm job token = bind_io (read_analysis job) (\<lambda>a.
     case analysis_context a of
       None \<Rightarrow> throw_io MissingContext
     | Some ctx \<Rightarrow> (case propose llm ctx of
         Interrupted \<Rightarrow> return_io False
       | CallFailed invalid err \<Rightarrow>
           bind_io (finish_failed job token (if invalid then ''proposal_invalid'' else ''proposal_failed'') err)
             (\<lambda>_. return_io False)
       | Answer p \<Rightarrow>
           if \<not> validate_proposal ctx p
           then bind_io (finish_failed job token ''proposal_invalid'' (defect_text llm ctx p)) (\<lambda>_. return_io False)
           else bind_io (save_proposal cfg job token p) (\<lambda>verification_token.
             run_verification cfg llm job verification_token)))"

text \<open>
  The retry loop of \<open>prepare_context\<close>.  The list holds what the builder answers at each attempt; the worker
  is cancelled or preempted at the end of it, or where it says so.
\<close>

fun prepare_context :: "arb_config \<Rightarrow> analysis_job \<Rightarrow> build_result option list \<Rightarrow> string option arb_io" where
  "prepare_context cfg job answers = bind_io (read_analysis job) (\<lambda>a.
     if context_prepare_max_attempts cfg \<le> context_prepare_attempts a
     then bind_io (finish_failed_without_lease job ''context_build_failed'' []) (\<lambda>_. return_io None)
     else case answers of
       [] \<Rightarrow> return_io None
     | None # _ \<Rightarrow> return_io None
     | Some (Built built) # _ \<Rightarrow> bind_io (save_prepared_context cfg job built) (\<lambda>token. return_io (Some token))
     | Some BuildFailed # _ \<Rightarrow> bind_io (finish_failed_without_lease job ''context_build_failed'' []) (\<lambda>_. return_io None)
     | Some NotReady # rest \<Rightarrow> bind_io (record_waiting_context job) (\<lambda>used.
         if context_prepare_max_attempts cfg \<le> used
         then bind_io (finish_failed_without_lease job ''context_build_failed'' []) (\<lambda>_. return_io None)
         else prepare_context cfg job rest))"

section \<open>Recovery after a restart\<close>

definition push_recoverable_analysis ::
  "dispute_id \<Rightarrow> bool \<Rightarrow> arbitration_analysis \<Rightarrow> analysis_job list \<Rightarrow> analysis_job list" where
  "push_recoverable_analysis d include_auto_approved a jobs =
     (if validate_analysis a \<and> analysis_dispute_id a = d
         \<and> (is_recoverable (analysis_state a)
            \<or> (include_auto_approved \<and> analysis_state a = Approved \<and> analysis_mode a = Auto \<and> adoption_blocked_reason a = None))
      then jobs @ [\<lparr>job_dispute_id = d, job_analysis_id = analysis_id a\<rparr>] else jobs)"

definition read_legacy_tolerant :: "(arb_store \<Rightarrow> arbitration_analysis dir) \<Rightarrow> dispute_id \<Rightarrow> arbitration_analysis option arb_io" where
  "read_legacy_tolerant get d = bind_io (attempt_io (read_optional_yaml get (yaml_name d))) (\<lambda>r.
     return_io (case r of Inl _ \<Rightarrow> None | Inr a \<Rightarrow> a))"

definition recovered_current :: "dispute_id \<Rightarrow> arbitration_analysis option arb_io" where
  "recovered_current d = bind_io (attempt_io (read_optional_yaml current_analyses (yaml_name d))) (\<lambda>r. case r of
       Inr (Some a) \<Rightarrow> return_io (Some (normalize_legacy_adoption_mode a None))
     | Inr None \<Rightarrow>
         bind_io (read_legacy_tolerant legacy_automatic_analyses d) (\<lambda>automatic.
         bind_io (read_legacy_tolerant legacy_manual_analyses d) (\<lambda>manual.
           return_io (select_legacy_current_analysis automatic manual)))
     | Inl _ \<Rightarrow> return_io None)"

text \<open>The scan: a directory error ends it with what it has, a bad file only hides its own dispute.\<close>

fun recover_scan :: "bool \<Rightarrow> maintainer_dispute_record dir \<Rightarrow> analysis_job list \<Rightarrow> analysis_job list arb_io" where
  "recover_scan include_auto [] jobs = return_io jobs"
| "recover_scan include_auto ((n, f) # fs) jobs =
     bind_io (attempt_io (in_team io_call)) (\<lambda>entry. case entry of
       Inl _ \<Rightarrow> return_io jobs
     | Inr _ \<Rightarrow>
         if \<not> is_yaml_file_name n then recover_scan include_auto fs jobs
         else bind_io (attempt_io (in_team io_call)) (\<lambda>content. case content of
           Inl _ \<Rightarrow> recover_scan include_auto fs jobs
         | Inr _ \<Rightarrow> (case f of
             Document r \<Rightarrow>
               if \<not> validate_dispute_record r \<or> strip_suffix ''.yaml'' n \<noteq> Some (as_str (dispute_id (record_dispute r)))
               then recover_scan include_auto fs jobs
               else bind_io (recovered_current (dispute_id (record_dispute r))) (\<lambda>current.
                 recover_scan include_auto fs (case current of
                     None \<Rightarrow> jobs
                   | Some a \<Rightarrow> push_recoverable_analysis (dispute_id (record_dispute r))
                       (include_auto \<and> dispute_status (record_dispute r) = Open) a jobs))
           | _ \<Rightarrow> recover_scan include_auto fs jobs)))"

definition job_order :: "analysis_job \<Rightarrow> analysis_job \<Rightarrow> bool" where
  "job_order = then_with (cmp_key job_dispute_id) (cmp_key job_analysis_id)"

definition recoverable_jobs :: "bool \<Rightarrow> analysis_job list arb_io" where
  "recoverable_jobs include_auto =
     bind_io (in_team io_call) (\<lambda>_. bind_io (in_team io_call) (\<lambda>_.
     bind_io (get_io (\<lambda>w. disputes (arb_team w))) (\<lambda>d.
     bind_io (recover_scan include_auto d []) (\<lambda>jobs. return_io (remdups_adj (sort_by job_order jobs))))))"

definition service_recoverable_jobs :: "arb_config \<Rightarrow> analysis_job list arb_io" where
  "service_recoverable_jobs cfg = recoverable_jobs (cfg_mode cfg = Auto)"

end
