(* ===== verification/Resolution.thy ===== *)
theory Resolution
  imports Arbitration
begin

text \<open>
  The resolution service (\<open>src/maintainer/arbitration/resolution.rs\<close>, with the resolution half of \<open>store.rs\<close>
  and the adoption calls of \<open>service.rs\<close>): human resolutions, replacements and adoptions of an approved
  analysis share one commit.  A commit first stores its fixed record as a pending delivery, then the
  resolution record and the dispute, and then delivers the policy and one outbox entry per holder; each
  part can be repeated from the pending delivery.  The calls that hold the lock of the dispute are the
  critical sections; in-process wake-ups and logging have no state here.
\<close>

section \<open>State\<close>

record resolution_event_target =
  target_dispute_id :: dispute_id
  target_resolution_id :: arbitration_resolution_id

record pending_resolution_delivery =
  pd_schema_version :: nat
  pd_target :: resolution_event_target
  pd_record :: "arbitration_resolution_record option"
  pd_created_at :: time
  pd_retry_count :: nat
  pd_next_retry_at :: "time option"

datatype policy_event_kind = PolicyUpdatePublished | ClaimAttributeUpdatePublished | PolicyDeprecatedEvent

record policy_event_record =
  pe_event_id :: string
  pe_policy_id :: policy_id
  pe_event_kind :: policy_event_kind
  pe_occurred_at :: time
  pe_policy_name :: string
  pe_policy_scope :: string
  pe_policy_status :: policy_status
  pe_message_type :: policy_message_type
  pe_target_agents :: "agent_id list"
  pe_statement :: string

record dispute_resolution_event_record =
  de_event_id :: string
  de_dispute_id :: dispute_id
  de_occurred_at :: time
  de_summary :: "string option"

text \<open>
  The directories of the service beside the analyses.  The claim index has a directory per claim; the
  histories are the decoded streams.
\<close>

record res_store =
  res_arb :: arb_store
  resolutions :: "arbitration_resolution_record dir"
  legacy_decisions :: "dispute_id \<Rightarrow> arbitration_resolution_record dir"
  pending_deliveries :: "pending_resolution_delivery dir"
  pending_observations :: "resolution_event_target dir"
  policy_index :: "resolution_event_target dir"
  inbox_index :: "resolution_event_target dir"
  claim_index :: "claim_id \<Rightarrow> resolution_event_target dir"
  policy_events :: "policy_event_record list"
  resolution_events :: "dispute_resolution_event_record list"

datatype res_error =
    ArbError arb_error
  | ResolutionSchema | ResolutionIdMismatch | ResolutionNotCurrent
  | EmptyConclusion | UnresolvedType | InsufficientBasis | AssessmentsWithoutNotice | EmptyReason | InvalidAssessments
  | DisputeResolvedAlready | InputDiffers | NothingToReplace | ExpectedDiffers | NotAutomaticRecord
  | RepeatedDirectClaim | AmbiguousDirectClaim | HolderDiffers | NoHolder | ResolutionIdsExhausted | ActionIdsExhausted
  | PolicyDiffers | EntryDiffers | PendingTargetDiffers | PendingIntentDiffers | PendingEventDiffers
  | SeveralHumanIntents | HumanRecordMissing | HumanRecordDiffers
  | NotAdoptable | HumanResolvedAlready | ClosedByOther | ProposalMissing | UnresolvedAnalysis | FrozenContextMissing
  | FingerprintMissing | SnapshotHashMissing | IntentMissing | IntentIdDiffers | OwnerFixedIntent | UsedByOtherAdoption
  | AdoptedNotCurrent | AdoptionOvertaken | AdoptingDiffers

type_synonym 'a res_io = "(res_store, res_error, 'a) io"

definition in_arb :: "'a arb_io \<Rightarrow> 'a res_io" where
  "in_arb m w = (case m (res_arb w) of (r, a) \<Rightarrow> (map_sum ArbError id r, w\<lparr>res_arb := a\<rparr>))"

abbreviation in_store :: "'a team_io \<Rightarrow> 'a res_io" where
  "in_store m \<equiv> in_arb (in_team m)"

definition res_read :: "(res_store \<Rightarrow> 'a dir) \<Rightarrow> string \<Rightarrow> 'a res_io" where
  "res_read get name = bind_io (in_store io_call) (\<lambda>_.
     bind_io (get_io (\<lambda>w. map_sum (ArbError \<circ> TeamError) id (decode_file name (map_of (get w) name)))) lift_sum)"

definition res_read_optional :: "(res_store \<Rightarrow> 'a dir) \<Rightarrow> string \<Rightarrow> 'a option res_io" where
  "res_read_optional get name = bind_io (attempt_io (res_read get name)) (\<lambda>r. case r of
       Inr x \<Rightarrow> return_io (Some x)
     | Inl (ArbError (TeamError (NotFound _))) \<Rightarrow> return_io None
     | Inl e \<Rightarrow> throw_io e)"

definition res_write :: "(('a dir \<Rightarrow> 'a dir) \<Rightarrow> res_store \<Rightarrow> res_store) \<Rightarrow> string \<Rightarrow> 'a \<Rightarrow> unit res_io" where
  "res_write upd name x = bind_io (in_store io_call) (\<lambda>_. modify_io (upd (AList.update name (Document x))))"

fun read_listed :: "'a dir \<Rightarrow> 'a list \<Rightarrow> 'a list res_io" where
  "read_listed [] out = return_io out"
| "read_listed ((n, f) # fs) out =
     (if \<not> is_yaml_file_name n then read_listed fs out
      else bind_io (in_store io_call) (\<lambda>_.
        bind_io (lift_sum (map_sum (ArbError \<circ> TeamError) id (decode_file n (Some f)))) (\<lambda>x. read_listed fs (out @ [x]))))"

definition list_yaml :: "(res_store \<Rightarrow> 'a dir) \<Rightarrow> 'a list res_io" where
  "list_yaml get = bind_io (in_store io_ok) (\<lambda>found.
     if \<not> found then return_io []
     else bind_io (in_store io_call) (\<lambda>_. bind_io (get_io get) (\<lambda>d. read_listed d [])))"

section \<open>Stored resolutions and pending deliveries\<close>

definition write_resolution_record :: "arbitration_resolution_record \<Rightarrow> unit res_io" where
  "write_resolution_record r =
     (if rr_schema_version r \<noteq> arbitration_schema_version then throw_io ResolutionSchema
      else if rr_resolution_id r \<noteq> resolution_id (rr_resolution r) then throw_io ResolutionIdMismatch
      else res_write resolutions_update (yaml_name (rr_dispute_id r)) r)"

definition read_current_resolution_record :: "dispute_id \<Rightarrow> arbitration_resolution_record option res_io" where
  "read_current_resolution_record d = res_read_optional resolutions (yaml_name d)"

definition resolution_id_exists :: "dispute_id \<Rightarrow> arbitration_resolution_id \<Rightarrow> bool res_io" where
  "resolution_id_exists d i = bind_io (read_current_resolution_record d) (\<lambda>current.
     if (case current of None \<Rightarrow> False | Some r \<Rightarrow> rr_resolution_id r = i) then return_io True
     else bind_io (in_store io_call) (\<lambda>_. get_io (\<lambda>w. map_of (legacy_decisions w d) (yaml_name i) \<noteq> None)))"

definition read_resolution_record :: "dispute_id \<Rightarrow> arbitration_resolution_id \<Rightarrow> arbitration_resolution_record res_io" where
  "read_resolution_record d i =
     bind_io (bind_io (attempt_io (res_read resolutions (yaml_name d))) (\<lambda>r. case r of
         Inr x \<Rightarrow> return_io x
       | Inl (ArbError (TeamError (NotFound _))) \<Rightarrow> res_read (\<lambda>w. legacy_decisions w d) (yaml_name i)
       | Inl e \<Rightarrow> throw_io e)) (\<lambda>current.
     if rr_resolution_id current \<noteq> i then throw_io ResolutionNotCurrent else return_io current)"

definition write_pending_delivery :: "pending_resolution_delivery \<Rightarrow> unit res_io" where
  "write_pending_delivery p = res_write pending_deliveries_update (yaml_name (target_resolution_id (pd_target p))) p"

definition read_pending_delivery :: "arbitration_resolution_id \<Rightarrow> pending_resolution_delivery option res_io" where
  "read_pending_delivery i = res_read_optional pending_deliveries (yaml_name i)"

definition remove_pending_delivery :: "arbitration_resolution_id \<Rightarrow> unit res_io" where
  "remove_pending_delivery i = bind_io (in_store io_call) (\<lambda>_.
     modify_io (pending_deliveries_update (AList.delete (yaml_name i))))"

definition list_pending_deliveries :: "pending_resolution_delivery list res_io" where
  "list_pending_deliveries = list_yaml pending_deliveries"

definition write_pending_observation :: "resolution_event_target \<Rightarrow> unit res_io" where
  "write_pending_observation t = res_write pending_observations_update (yaml_name (target_resolution_id t)) t"

definition record_target :: "arbitration_resolution_record \<Rightarrow> resolution_event_target" where
  "record_target r = \<lparr>target_dispute_id = rr_dispute_id r, target_resolution_id = rr_resolution_id r\<rparr>"

definition register_resolution_event_targets :: "arbitration_resolution_record \<Rightarrow> unit res_io" where
  "register_resolution_event_targets r =
     bind_io (case rr_delivery_intent r of
         None \<Rightarrow> return_io ()
       | Some intent \<Rightarrow>
           bind_io (res_write policy_index_update (yaml_name (policy_id (intent_policy intent))) (record_target r)) (\<lambda>_.
           for_io (\<lambda>t. res_write inbox_index_update (yaml_name (intent_inbox_id t)) (record_target r)) (intent_targets intent)))
     (\<lambda>_. for_io (\<lambda>c. res_write (\<lambda>f. claim_index_update (\<lambda>ix. ix(claim_id c := f (ix (claim_id c)))))
             (yaml_name (rr_dispute_id r)) (record_target r)) (rr_direct_claim_snapshots r))"

section \<open>Histories\<close>

definition ensure_policy_event :: "policy_event_record \<Rightarrow> unit res_io" where
  "ensure_policy_event e = bind_io (in_store io_call) (\<lambda>_. bind_io (get_io policy_events) (\<lambda>es.
     if list_ex (\<lambda>x. pe_event_id x = pe_event_id e) es then return_io ()
     else bind_io (in_store io_call) (\<lambda>_. modify_io (policy_events_update (\<lambda>es. es @ [e])))))"

definition ensure_dispute_resolution_event :: "dispute_resolution_event_record \<Rightarrow> unit res_io" where
  "ensure_dispute_resolution_event e = bind_io (in_store io_call) (\<lambda>_. bind_io (get_io resolution_events) (\<lambda>es.
     if list_ex (\<lambda>x. de_event_id x = de_event_id e) es then return_io ()
     else bind_io (in_store io_call) (\<lambda>_. modify_io (resolution_events_update (\<lambda>es. es @ [e])))))"

definition ensure_resolution_history :: "arbitration_resolution_record \<Rightarrow> unit res_io" where
  "ensure_resolution_history r =
     bind_io (case rr_delivery_intent r of
         None \<Rightarrow> return_io ()
       | Some intent \<Rightarrow> (let p = intent_policy intent in ensure_policy_event
           \<lparr>pe_event_id = ''resolution_policy:'' @ as_str (rr_resolution_id r), pe_policy_id = policy_id p,
            pe_event_kind = ClaimAttributeUpdatePublished,
            pe_occurred_at = (case policy_updated_at p of None \<Rightarrow> policy_created_at p | Some t \<Rightarrow> t),
            pe_policy_name = policy_name p, pe_policy_scope = policy_scope p, pe_policy_status = policy_status p,
            pe_message_type = policy_message_type p,
            pe_target_agents = (case target_agents p of None \<Rightarrow> [] | Some as \<Rightarrow> as), pe_statement = policy_statement p\<rparr>))
     (\<lambda>_. ensure_dispute_resolution_event
       \<lparr>de_event_id = ''resolution:'' @ as_str (rr_resolution_id r), de_dispute_id = rr_dispute_id r,
        de_occurred_at = resolution_resolved_at (rr_resolution r), de_summary = Some (conclusion (rr_resolution r))\<rparr>)"

section \<open>Delivery\<close>

text \<open>
  A file that cannot be decoded is only written when it is empty, which a mint left behind.
\<close>

definition on_read_error :: "(res_store \<Rightarrow> 'a dir) \<Rightarrow> string \<Rightarrow> unit res_io \<Rightarrow> res_error \<Rightarrow> unit res_io" where
  "on_read_error get name wr e = (case e of
       ArbError (TeamError (NotFound _)) \<Rightarrow> wr
     | ArbError (TeamError (DecodeError _)) \<Rightarrow>
         bind_io (in_store io_call) (\<lambda>_. bind_io (get_io (\<lambda>w. map_of (get w) name)) (\<lambda>f.
           if f = Some EmptyFile then wr else throw_io e))
     | _ \<Rightarrow> throw_io e)"

definition write_if_reserved ::
  "(res_store \<Rightarrow> 'a dir) \<Rightarrow> string \<Rightarrow> ('a \<Rightarrow> unit res_io) \<Rightarrow> unit res_io \<Rightarrow> unit res_io" where
  "write_if_reserved get name found wr = bind_io (attempt_io (res_read get name)) (\<lambda>r. case r of
       Inr existing \<Rightarrow> found existing
     | Inl e \<Rightarrow> on_read_error get name wr e)"

abbreviation team_of :: "res_store \<Rightarrow> team_store" where
  "team_of w \<equiv> arb_team (res_arb w)"

definition ensure_policy :: "policy \<Rightarrow> unit res_io" where
  "ensure_policy p = write_if_reserved (\<lambda>w. policies (team_of w)) (yaml_name (policy_id p))
     (\<lambda>existing. if existing = p then return_io () else throw_io PolicyDiffers)
     (in_store (write_yaml_atomic policies_update (yaml_name (policy_id p)) p))"

definition same_immutable :: "outbox_entry \<Rightarrow> outbox_entry \<Rightarrow> bool" where
  "same_immutable e e' \<longleftrightarrow> entry_inbox_id e = entry_inbox_id e' \<and> maintainer_action_id e = maintainer_action_id e'
     \<and> entry_target e = entry_target e' \<and> entry_created_at e = entry_created_at e' \<and> entry_message e = entry_message e'"

definition ensure_outbox_entry :: "outbox_entry \<Rightarrow> unit res_io" where
  "ensure_outbox_entry wanted = write_if_reserved (\<lambda>w. outbox (team_of w)) (yaml_name (entry_inbox_id wanted))
     (\<lambda>existing. if same_immutable existing wanted then return_io () else throw_io EntryDiffers)
     (in_store (outbox_write wanted))"

definition intent_entry :: "arbitration_resolution_record \<Rightarrow> delivery_intent \<Rightarrow> delivery_target_intent \<Rightarrow> outbox_entry" where
  "intent_entry r intent t =
     \<lparr>entry_inbox_id = intent_inbox_id t, maintainer_action_id = intent_action_id intent,
      entry_target = Targeted (intent_target_agent t), entry_created_at = rr_created_at r, offered_to = [], delivered_to = [],
      sweep_items = [], entry_message = intent_inbox_message t\<rparr>"

definition deliver_intent :: "arbitration_resolution_record \<Rightarrow> delivery_intent \<Rightarrow> unit res_io" where
  "deliver_intent r intent = bind_io (in_store lock_outbox_file) (\<lambda>_.
     bind_io (ensure_policy (intent_policy intent)) (\<lambda>_.
     for_io (\<lambda>t. ensure_outbox_entry (intent_entry r intent t)) (intent_targets intent)))"

definition ensure_delivery :: "arbitration_resolution_record \<Rightarrow> unit res_io" where
  "ensure_delivery r =
     bind_io (case rr_delivery_intent r of None \<Rightarrow> return_io () | Some intent \<Rightarrow> deliver_intent r intent) (\<lambda>_.
     bind_io (register_resolution_event_targets r) (\<lambda>_.
     bind_io (write_pending_observation (record_target r)) (\<lambda>_.
     bind_io (ensure_resolution_history r) (\<lambda>_.
       remove_pending_delivery (rr_resolution_id r)))))"

definition persist_pending_delivery :: "arbitration_resolution_record \<Rightarrow> time \<Rightarrow> unit res_io" where
  "persist_pending_delivery r now = bind_io (read_pending_delivery (rr_resolution_id r)) (\<lambda>existing. case existing of
       Some p \<Rightarrow>
         if pd_target p \<noteq> record_target r then throw_io PendingTargetDiffers
         else (case pd_record p of
             Some stored \<Rightarrow> if stored \<noteq> r then throw_io PendingIntentDiffers else return_io ()
           | None \<Rightarrow> write_pending_delivery (p\<lparr>pd_record := Some r\<rparr>))
     | None \<Rightarrow> write_pending_delivery
         \<lparr>pd_schema_version = arbitration_schema_version, pd_target = record_target r, pd_record = Some r,
          pd_created_at = now, pd_retry_count = 0, pd_next_retry_at = None\<rparr>)"

section \<open>The delivery intent\<close>

definition resolve_direct_step ::
  "(agent_id \<times> claim) list \<Rightarrow> claim_id \<Rightarrow> claim_id list \<times> claim list \<Rightarrow> res_error + claim_id list \<times> claim list" where
  "resolve_direct_step all i st = (case st of (seen, direct) \<Rightarrow>
     if i \<in> set seen then Inl RepeatedDirectClaim
     else case filter (\<lambda>(_, c). claim_id c = i) all of
       [(a, c)] \<Rightarrow> if a \<noteq> claim_holder c then Inl HolderDiffers else Inr (i # seen, direct @ [c])
     | _ \<Rightarrow> Inl AmbiguousDirectClaim)"

fun resolve_direct_loop ::
  "(agent_id \<times> claim) list \<Rightarrow> claim_id list \<Rightarrow> claim_id list \<times> claim list \<Rightarrow> res_error + claim_id list \<times> claim list" where
  "resolve_direct_loop all [] st = Inr st"
| "resolve_direct_loop all (i # is) st =
     (case resolve_direct_step all i st of Inl e \<Rightarrow> Inl e | Inr st' \<Rightarrow> resolve_direct_loop all is st')"

definition resolve_direct_claims :: "claim_id list \<Rightarrow> (agent_id \<times> claim) list \<Rightarrow> res_error + claim list" where
  "resolve_direct_claims ids all =
     map_sum id (\<lambda>(_, direct). sort_by (cmp_key claim_id) direct) (resolve_direct_loop all ids ([], []))"

definition load_direct_snapshots :: "claim_id list \<Rightarrow> claim list res_io" where
  "load_direct_snapshots ids = bind_io (in_store load_team_claims) (\<lambda>all. lift_sum (resolve_direct_claims ids all))"

fun mint_resolution_loop :: "dispute_id \<Rightarrow> nat \<Rightarrow> arbitration_resolution_id res_io" where
  "mint_resolution_loop d 0 = throw_io ResolutionIdsExhausted"
| "mint_resolution_loop d (Suc n) = bind_io (in_store draw) (\<lambda>r. let candidate = random_id resolution_prefix r in
     bind_io (resolution_id_exists d candidate) (\<lambda>taken.
       if taken then mint_resolution_loop d n else return_io candidate))"

definition mint_resolution_id :: "maintainer_config \<Rightarrow> dispute_id \<Rightarrow> arbitration_resolution_id res_io" where
  "mint_resolution_id mc d = mint_resolution_loop d (max (id_mint_max_attempts mc) 1)"

definition list_dispute_records :: "maintainer_dispute_record list res_io" where
  "list_dispute_records = list_yaml (\<lambda>w. disputes (team_of w))"

fun used_actions :: "maintainer_dispute_record list \<Rightarrow> maintainer_action_id list \<Rightarrow> maintainer_action_id list res_io" where
  "used_actions [] used = return_io used"
| "used_actions (d # ds) used = bind_io (read_current_resolution_record (dispute_id (record_dispute d))) (\<lambda>current.
     used_actions ds (case current of
         None \<Rightarrow> used
       | Some r \<Rightarrow> (case rr_delivery_intent r of None \<Rightarrow> used | Some i \<Rightarrow> intent_action_id i # used)))"

fun mint_unused_action :: "maintainer_action_id list \<Rightarrow> nat \<Rightarrow> maintainer_action_id res_io" where
  "mint_unused_action used 0 = throw_io ActionIdsExhausted"
| "mint_unused_action used (Suc n) = bind_io (in_store draw) (\<lambda>r. let candidate = random_id action_prefix r in
     if candidate \<notin> set used then return_io candidate else mint_unused_action used n)"

definition mint_action_id :: "maintainer_config \<Rightarrow> maintainer_action_id res_io" where
  "mint_action_id mc = bind_io (in_store outbox_list) (\<lambda>entries. bind_io list_dispute_records (\<lambda>ds.
     bind_io (used_actions ds (map maintainer_action_id entries)) (\<lambda>used.
       mint_unused_action used (max (id_mint_max_attempts mc) 1))))"

definition arbitration_policy_name :: string where
  "arbitration_policy_name = ''dispute_arbitration''"

definition arbitration_policy_scope :: string where
  "arbitration_policy_scope = ''maintainer / dispute-arbitration''"

fun claim_status_debug :: "claim_status \<Rightarrow> string" where
  "claim_status_debug Active = ''Active''"
| "claim_status_debug Stale = ''Stale''"
| "claim_status_debug Deprecated = ''Deprecated''"

fun join_lines :: "string list \<Rightarrow> string" where
  "join_lines [] = []"
| "join_lines [l] = l"
| "join_lines (l # ls) = l @ [CHR 0x0A] @ join_lines ls"

text \<open>The first line is the text of the code, in UTF-8.\<close>

definition arbitration_policy_statement :: "dispute \<Rightarrow> claim list \<Rightarrow> dispute_resolution \<Rightarrow> string" where
  "arbitration_policy_statement d snapshots r = join_lines
     ([''Maintainer '' @ [CHR 0xE5, CHR 0xB7, CHR 0xB2, CHR 0xE8, CHR 0xA3, CHR 0x81, CHR 0xE5, CHR 0x86, CHR 0xB3]
         @ '' dispute '' @ as_str (dispute_id d) @ [CHR 0xE3, CHR 0x80, CHR 0x82],
       ''Resolution: '' @ as_str (resolution_id r), [], ''Conclusion: '' @ conclusion r, [],
       ''Original dispute: '' @ dispute_summary d, [], ''Direct claims:'', []]
      @ map (\<lambda>c. ''- '' @ as_str (claim_id c) @ '' holder='' @ as_str (claim_holder c) @ '' status='' @ claim_status_debug (claim_status c)
           @ '' scope='' @ claim_scope c @ '' statement='' @ claim_statement c) snapshots
      @ (if claim_assessments r = [] then []
         else [[], ''Assessments:'', []]
           @ map (\<lambda>a. ''- '' @ as_str (assessed_claim_id a) @ '' recommended_status='' @ claim_status_debug (recommended_status a)
                @ '' assessment='' @ assessment a @ '' reason='' @ assessment_reason a) (claim_assessments r)))"

fun mint_targets :: "maintainer_config \<Rightarrow> inbox_message_kind \<Rightarrow> agent_id list \<Rightarrow> delivery_target_intent list \<Rightarrow> delivery_target_intent list res_io" where
  "mint_targets mc kind [] out = return_io out"
| "mint_targets mc kind (a # as) out = bind_io (in_store (mint_inbox_id_for_outbox mc)) (\<lambda>i.
     mint_targets mc kind as (out @ [\<lparr>intent_inbox_id = i, intent_target_agent = a,
       intent_inbox_message = \<lparr>message_id = i, message_kind = kind, handled_at = None\<rparr>\<rparr>]))"

definition build_delivery_intent ::
  "maintainer_config \<Rightarrow> dispute \<Rightarrow> claim list \<Rightarrow> dispute_resolution \<Rightarrow> string option \<Rightarrow> arbitration_resolution_id option \<Rightarrow> time
   \<Rightarrow> delivery_intent res_io" where
  "build_delivery_intent mc d snapshots r hash source now =
     (let holders = sorted_list_of_set (set (map claim_holder (filter (\<lambda>c. claim_id c \<in> set (dispute_claims d)) snapshots))) in
      if holders = [] then throw_io NoHolder
      else bind_io (in_store lock_outbox_file) (\<lambda>_.
        bind_io (in_store (mint_policy_id mc)) (\<lambda>pid.
        bind_io (mint_action_id mc) (\<lambda>action.
        let p = \<lparr>policy_id = pid, policy_message_type = ClaimAttributeUpdateType, policy_name = arbitration_policy_name,
              policy_statement = arbitration_policy_statement d snapshots r, policy_scope = arbitration_policy_scope,
              policy_status = PolicyActive, policy_created_at = now, policy_updated_at = None, target_agents = Some holders\<rparr>;
            ctx = \<lparr>context_dispute_id = dispute_id d, context_resolution = r, context_snapshot_hash = hash,
              dispute_snapshot = d, direct_claim_snapshots = snapshots, snapshot_source_resolution_id = source\<rparr> in
        bind_io (mint_targets mc (ClaimAttributeUpdate p (Some ctx)) holders []) (\<lambda>targets.
        return_io \<lparr>intent_policy = p, intent_action_id = action, intent_targets = targets\<rparr>)))))"

section \<open>Recovering a human resolution\<close>

definition resolved_with :: "dispute_resolution \<Rightarrow> maintainer_dispute_record \<Rightarrow> maintainer_dispute_record" where
  "resolved_with s d = d\<lparr>record_dispute := (record_dispute d)\<lparr>dispute_status := Resolved, dispute_resolved_at := Some (resolution_resolved_at s)\<rparr>,
     record_resolution := Some s\<rparr>"

definition recovers_human :: "arbitration_resolution_record \<Rightarrow> maintainer_dispute_record \<Rightarrow> bool" where
  "recovers_human r d \<longleftrightarrow> resolved_by (rr_resolution r) = Human
     \<and> (case record_resolution d of
          None \<Rightarrow> True
        | Some s \<Rightarrow> rejection_reason (rr_resolution r) \<noteq> None \<and> resolved_by s = Automatic \<and> resolution_id s \<noteq> rr_resolution_id r)"

text \<open>The dispute record is passed and returned, as the code changes its argument.\<close>

definition recover_human_resolution_locked ::
  "dispute_id \<Rightarrow> maintainer_dispute_record \<Rightarrow> (maintainer_dispute_record \<times> arbitration_resolution_record option) res_io" where
  "recover_human_resolution_locked i d =
     bind_io (read_current_resolution_record i) (\<lambda>current.
     bind_io list_pending_deliveries (\<lambda>pending.
     let human = filter (\<lambda>r. rr_dispute_id r = i \<and> resolved_by (rr_resolution r) = Human) (List.map_filter pd_record pending) in
     if 1 < length human then throw_io SeveralHumanIntents
     else
       let stored = (case human of [] \<Rightarrow> current | r # _ \<Rightarrow> Some r) in
       bind_io (case stored of
           Some r \<Rightarrow> if recovers_human r d
             then bind_io (write_resolution_record r) (\<lambda>_.
                  bind_io (in_store (write_dispute (resolved_with (rr_resolution r) d))) (\<lambda>_.
                  return_io (resolved_with (rr_resolution r) d)))
             else return_io d
         | None \<Rightarrow> return_io d) (\<lambda>d'.
       case record_resolution d' of
         None \<Rightarrow> return_io (d', None)
       | Some s \<Rightarrow>
           if resolved_by s \<noteq> Human then return_io (d', None)
           else (case stored of
             None \<Rightarrow> throw_io HumanRecordMissing
           | Some r \<Rightarrow> if rr_resolution_id r \<noteq> resolution_id s then throw_io HumanRecordDiffers else return_io (d', Some r)))))"

definition preempt_current_analysis_locked :: "dispute_id \<Rightarrow> time \<Rightarrow> unit res_io" where
  "preempt_current_analysis_locked i now = bind_io (attempt_io (in_arb (
     bind_io (read_current_analysis i) (\<lambda>current. case current of
       None \<Rightarrow> return_io ()
     | Some a \<Rightarrow> (case preempt_analysis_for_resolution a now of None \<Rightarrow> return_io () | Some a' \<Rightarrow> write_analysis a'))))) (\<lambda>_. return_io ())"

section \<open>Human resolutions\<close>

record human_resolution_input =
  hi_conclusion :: string
  notify_affected_agents :: bool
  hi_resolution_type :: "resolution_type option"
  hi_resolution_basis :: "resolution_basis option"
  hi_claim_assessments :: "claim_assessment list"

record reject_resolution_input =
  expected_resolution_id :: arbitration_resolution_id
  ri_rejection_reason :: string
  ri_conclusion :: string
  ri_resolution_type :: "resolution_type option"
  ri_resolution_basis :: "resolution_basis option"
  ri_claim_assessments :: "claim_assessment list"

definition assessments_match :: "claim_assessment list \<Rightarrow> claim_assessment list \<Rightarrow> bool" where
  "assessments_match left right \<longleftrightarrow> length left = length right \<and> list_all (\<lambda>a. a \<in> set right) left"

definition human_resolution_matches_input :: "arbitration_resolution_record \<Rightarrow> human_resolution_input \<Rightarrow> bool" where
  "human_resolution_matches_input r input \<longleftrightarrow>
     rejection_reason (rr_resolution r) = None \<and> conclusion (rr_resolution r) = hi_conclusion input
     \<and> resolution_type (rr_resolution r) = hi_resolution_type input \<and> resolution_basis (rr_resolution r) = hi_resolution_basis input
     \<and> assessments_match (claim_assessments (rr_resolution r)) (hi_claim_assessments input)
     \<and> (rr_delivery_intent r \<noteq> None) = notify_affected_agents input"

definition replacement_resolution_matches_input :: "arbitration_resolution_record \<Rightarrow> reject_resolution_input \<Rightarrow> bool" where
  "replacement_resolution_matches_input r input \<longleftrightarrow>
     rejection_reason (rr_resolution r) = Some (ri_rejection_reason input) \<and> conclusion (rr_resolution r) = ri_conclusion input
     \<and> resolution_type (rr_resolution r) = ri_resolution_type input \<and> resolution_basis (rr_resolution r) = ri_resolution_basis input
     \<and> assessments_match (claim_assessments (rr_resolution r)) (ri_claim_assessments input)
     \<and> rr_delivery_intent r \<noteq> None"

definition validate_human_input :: "human_resolution_input \<Rightarrow> res_error + unit" where
  "validate_human_input input =
     (if str_trim (hi_conclusion input) = [] then Inl EmptyConclusion
      else if (case hi_resolution_type input of None \<Rightarrow> False | Some k \<Rightarrow> \<not> is_resolved k) then Inl UnresolvedType
      else if hi_resolution_basis input = Some InsufficientEvidence then Inl InsufficientBasis
      else if hi_claim_assessments input \<noteq> [] \<and> \<not> notify_affected_agents input then Inl AssessmentsWithoutNotice
      else Inr ())"

definition validate_reject_input :: "reject_resolution_input \<Rightarrow> res_error + unit" where
  "validate_reject_input input =
     (if str_trim (ri_rejection_reason input) = [] \<or> str_trim (ri_conclusion input) = [] then Inl EmptyReason
      else if (case ri_resolution_type input of None \<Rightarrow> False | Some k \<Rightarrow> \<not> is_resolved k) then Inl UnresolvedType
      else if ri_resolution_basis input = Some InsufficientEvidence then Inl InsufficientBasis
      else Inr ())"

text \<open>
  What follows when an earlier human resolution was found: it is finished, and the call succeeds only
  when it asked for the same.
\<close>

definition finish_recovered :: "dispute_id \<Rightarrow> time \<Rightarrow> bool \<Rightarrow> arbitration_resolution_record \<Rightarrow> arbitration_resolution_record res_io" where
  "finish_recovered i now same_input r =
     bind_io (preempt_current_analysis_locked i now) (\<lambda>_.
     bind_io (persist_pending_delivery r (rr_created_at r)) (\<lambda>_.
     bind_io (attempt_io (ensure_delivery r)) (\<lambda>_.
       if \<not> same_input then throw_io InputDiffers else return_io r)))"

text \<open>The commit of a new human resolution, shared by both calls.\<close>

definition commit_resolution ::
  "dispute_id \<Rightarrow> maintainer_dispute_record \<Rightarrow> arbitration_resolution_record \<Rightarrow> time \<Rightarrow> arbitration_resolution_record res_io" where
  "commit_resolution i d r now =
     bind_io (persist_pending_delivery r now) (\<lambda>_.
     bind_io (write_resolution_record r) (\<lambda>_.
     bind_io (in_store (write_dispute (d\<lparr>record_dispute := (record_dispute d)\<lparr>dispute_status := Resolved, dispute_resolved_at := Some now\<rparr>,
         record_resolution := Some (rr_resolution r)\<rparr>))) (\<lambda>_.
     bind_io (preempt_current_analysis_locked i now) (\<lambda>_.
     bind_io (attempt_io (ensure_delivery r)) (\<lambda>_. return_io r)))))"

definition human_record ::
  "dispute_id \<Rightarrow> dispute \<Rightarrow> dispute_resolution \<Rightarrow> claim list \<Rightarrow> string option \<Rightarrow> string option \<Rightarrow> delivery_intent option
   \<Rightarrow> arbitration_resolution_id option \<Rightarrow> time \<Rightarrow> arbitration_resolution_record" where
  "human_record i d s snapshots fingerprint hash intent source now =
     \<lparr>rr_schema_version = arbitration_schema_version, rr_resolution_id = resolution_id s, rr_dispute_id = i, rr_created_at = now,
      rr_resolution = s, rr_dispute_snapshot = d, rr_direct_claim_snapshots = snapshots, rr_semantic_fingerprint = fingerprint,
      rr_context_snapshot_hash = hash, rr_analysis_source_id = None, rr_legacy_source_attempt_id = None,
      rr_delivery_intent = intent, rr_snapshot_source_resolution_id = source\<rparr>"

definition human_snapshots :: "human_resolution_input \<Rightarrow> claim_id list \<Rightarrow> claim list res_io" where
  "human_snapshots input ids = bind_io (attempt_io (load_direct_snapshots ids)) (\<lambda>r. case r of
       Inr snapshots \<Rightarrow> return_io snapshots
     | Inl e \<Rightarrow> if \<not> notify_affected_agents input \<and> hi_claim_assessments input = [] then return_io [] else throw_io e)"

definition resolve_open :: "maintainer_config \<Rightarrow> dispute_id \<Rightarrow> maintainer_dispute_record \<Rightarrow> human_resolution_input \<Rightarrow> time
   \<Rightarrow> arbitration_resolution_record res_io" where
  "resolve_open mc i d input now =
     bind_io (human_snapshots input (dispute_claims (record_dispute d))) (\<lambda>snapshots.
     bind_io (mint_resolution_id mc i) (\<lambda>rid.
     let s = \<lparr>resolution_id = rid, resolved_by = Human, resolution_resolved_at = now, resolution_type = hi_resolution_type input,
              resolution_basis = hi_resolution_basis input, conclusion = hi_conclusion input,
              claim_assessments = hi_claim_assessments input, rejection_reason = None\<rparr> in
     bind_io (if notify_affected_agents input
         then bind_io (build_delivery_intent mc (record_dispute d) snapshots s None None now) (\<lambda>x. return_io (Some x))
         else return_io None) (\<lambda>intent.
       commit_resolution i d (human_record i (record_dispute d) s snapshots None None intent None now) now)))"

definition resolve_human :: "maintainer_config \<Rightarrow> dispute_id \<Rightarrow> human_resolution_input \<Rightarrow> time \<Rightarrow> arbitration_resolution_record res_io" where
  "resolve_human mc i input now =
     bind_io (lift_sum (validate_human_input input)) (\<lambda>_.
     bind_io (in_arb lock_dispute) (\<lambda>_.
     bind_io (in_store (read_dispute i)) (\<lambda>d.
     if \<not> validate_assessments (dispute_claims (record_dispute d)) (hi_claim_assessments input) then throw_io InvalidAssessments
     else if dispute_status (record_dispute d) \<noteq> Open then throw_io DisputeResolvedAlready
     else bind_io (recover_human_resolution_locked i d) (\<lambda>(d', found). case found of
         Some r \<Rightarrow> finish_recovered i now (human_resolution_matches_input r input) r
       | None \<Rightarrow>
           if dispute_status (record_dispute d') \<noteq> Open then throw_io DisputeResolvedAlready
           else resolve_open mc i d' input now))))"

definition replace_current :: "maintainer_config \<Rightarrow> dispute_id \<Rightarrow> maintainer_dispute_record \<Rightarrow> reject_resolution_input \<Rightarrow> time
   \<Rightarrow> arbitration_resolution_record res_io" where
  "replace_current mc i d input now = (case record_resolution d of
       None \<Rightarrow> throw_io NothingToReplace
     | Some current \<Rightarrow>
         if resolution_id current \<noteq> expected_resolution_id input then throw_io ExpectedDiffers
         else if resolved_by current \<noteq> Automatic then throw_io NotAutomaticRecord
         else if \<not> validate_assessments (dispute_claims (record_dispute d)) (ri_claim_assessments input) then throw_io InvalidAssessments
         else bind_io (read_resolution_record i (expected_resolution_id input)) (\<lambda>superseded.
           bind_io (attempt_io (load_direct_snapshots (dispute_claims (record_dispute d)))) (\<lambda>loaded.
           let snapshots = (case loaded of Inr cs \<Rightarrow> cs | Inl _ \<Rightarrow> rr_direct_claim_snapshots superseded);
               source = (case loaded of Inr _ \<Rightarrow> None | Inl _ \<Rightarrow> Some (rr_resolution_id superseded)) in
           bind_io (mint_resolution_id mc i) (\<lambda>rid.
           let s = \<lparr>resolution_id = rid, resolved_by = Human, resolution_resolved_at = now, resolution_type = ri_resolution_type input,
                    resolution_basis = ri_resolution_basis input, conclusion = ri_conclusion input,
                    claim_assessments = ri_claim_assessments input, rejection_reason = Some (ri_rejection_reason input)\<rparr> in
           bind_io (build_delivery_intent mc (record_dispute d) snapshots s (rr_context_snapshot_hash superseded) source now) (\<lambda>intent.
             commit_resolution i d (human_record i (record_dispute d) s snapshots (rr_semantic_fingerprint superseded)
               (rr_context_snapshot_hash superseded) (Some intent) source now) now)))))"

definition reject_and_replace :: "maintainer_config \<Rightarrow> dispute_id \<Rightarrow> reject_resolution_input \<Rightarrow> time \<Rightarrow> arbitration_resolution_record res_io" where
  "reject_and_replace mc i input now =
     bind_io (lift_sum (validate_reject_input input)) (\<lambda>_.
     bind_io (in_arb lock_dispute) (\<lambda>_.
     bind_io (in_store (read_dispute i)) (\<lambda>d.
     bind_io (recover_human_resolution_locked i d) (\<lambda>(d', found).
       if (case found of None \<Rightarrow> False | Some r \<Rightarrow> map_option resolution_id (record_resolution d) \<noteq> Some (rr_resolution_id r))
       then finish_recovered i now (replacement_resolution_matches_input (the found) input) (the found)
       else replace_current mc i d' input now))))"

section \<open>Adopting an approved analysis\<close>

definition fixed_analysis_resolution :: "analysis_job \<Rightarrow> arbitration_analysis \<Rightarrow> arbitration_resolution_record res_io" where
  "fixed_analysis_resolution job a = (case analysis_resolution_id a of
       None \<Rightarrow> throw_io IntentMissing
     | Some rid \<Rightarrow> bind_io (case pending_resolution a of
           Some r \<Rightarrow> return_io r
         | None \<Rightarrow> read_resolution_record (job_dispute_id job) rid) (\<lambda>r.
         if rr_resolution_id r \<noteq> rid then throw_io IntentIdDiffers else return_io r))"

definition find_human_analysis_adoption_owner :: "dispute_id \<Rightarrow> analysis_job option res_io" where
  "find_human_analysis_adoption_owner i = bind_io (in_arb (read_current_analysis i)) (\<lambda>current. case current of
       None \<Rightarrow> return_io None
     | Some a \<Rightarrow>
         if analysis_state a \<noteq> Adopting then return_io None
         else let candidate = \<lparr>job_dispute_id = i, job_analysis_id = analysis_id a\<rparr> in
           bind_io (fixed_analysis_resolution candidate a) (\<lambda>r.
             return_io (if resolved_by (rr_resolution r) = Human then Some candidate else None)))"

definition finish_analysis_adoption_locked ::
  "arbitration_analysis \<Rightarrow> maintainer_dispute_record \<Rightarrow> arbitration_resolution_record \<Rightarrow> time \<Rightarrow> arbitration_analysis res_io" where
  "finish_analysis_adoption_locked a d r now =
     bind_io (persist_pending_delivery r now) (\<lambda>_.
     bind_io (write_resolution_record r) (\<lambda>_.
     bind_io (if dispute_status (record_dispute d) = Open then in_store (write_dispute (resolved_with (rr_resolution r) d)) else return_io ()) (\<lambda>_.
     bind_io (attempt_io (ensure_delivery r)) (\<lambda>delivered.
     let a' = (case delivered of
           Inr _ \<Rightarrow> a\<lparr>analysis_state := Adopted, delivery_error := None, pending_resolution := None\<rparr>
         | Inl _ \<Rightarrow> a\<lparr>analysis_state := Adopting, delivery_error := Some DeliveryToBeRecovered\<rparr>)\<lparr>analysis_updated_at := now\<rparr> in
     bind_io (in_arb (write_analysis a')) (\<lambda>_. return_io a')))))"

definition adoption_record ::
  "analysis_job \<Rightarrow> arbitration_analysis \<Rightarrow> frozen_arbitration_context \<Rightarrow> string \<Rightarrow> string \<Rightarrow> dispute_resolution \<Rightarrow> delivery_intent \<Rightarrow> time
   \<Rightarrow> arbitration_resolution_record" where
  "adoption_record job a ctx fingerprint hash s intent now =
     \<lparr>rr_schema_version = arbitration_schema_version, rr_resolution_id = resolution_id s, rr_dispute_id = job_dispute_id job,
      rr_created_at = now, rr_resolution = s, rr_dispute_snapshot = frozen_dispute ctx,
      rr_direct_claim_snapshots = direct_claims ctx, rr_semantic_fingerprint = Some fingerprint, rr_context_snapshot_hash = Some hash,
      rr_analysis_source_id = Some (analysis_id a), rr_legacy_source_attempt_id = None, rr_delivery_intent = Some intent,
      rr_snapshot_source_resolution_id = None\<rparr>"

definition begin_adoption :: "maintainer_config \<Rightarrow> analysis_job \<Rightarrow> resolved_by \<Rightarrow> time \<Rightarrow> arbitration_analysis \<Rightarrow> maintainer_dispute_record
   \<Rightarrow> arbitration_resolution_record res_io" where
  "begin_adoption mc job by now a d = (case analysis_proposal a of
       None \<Rightarrow> throw_io ProposalMissing
     | Some p \<Rightarrow>
         if \<not> is_resolved (proposed_type p) then throw_io UnresolvedAnalysis
         else (case analysis_context a of None \<Rightarrow> throw_io FrozenContextMissing | Some ctx \<Rightarrow>
           (case semantic_fingerprint a of None \<Rightarrow> throw_io FingerprintMissing | Some fingerprint \<Rightarrow>
           (case analysis_snapshot_hash a of None \<Rightarrow> throw_io SnapshotHashMissing | Some hash \<Rightarrow>
             bind_io (mint_resolution_id mc (job_dispute_id job)) (\<lambda>rid.
             let s = \<lparr>resolution_id = rid, resolved_by = by, resolution_resolved_at = now, resolution_type = Some (proposed_type p),
                      resolution_basis = Some (proposed_basis p), conclusion = proposed_conclusion p,
                      claim_assessments = proposed_assessments p, rejection_reason = None\<rparr> in
             bind_io (build_delivery_intent mc (frozen_dispute ctx) (direct_claims ctx) s (Some hash) None now) (\<lambda>intent.
             let r = adoption_record job a ctx fingerprint hash s intent now;
                 a' = a\<lparr>analysis_state := Adopting, analysis_resolution_id := Some rid, pending_resolution := Some r,
                   analysis_lease := None, analysis_updated_at := now\<rparr> in
             bind_io (in_arb (write_analysis a')) (\<lambda>_.
             bind_io (finish_analysis_adoption_locked a' d r now) (\<lambda>_. return_io r))))))))"

definition begin_analysis_adoption_locked :: "maintainer_config \<Rightarrow> analysis_job \<Rightarrow> resolved_by \<Rightarrow> time \<Rightarrow> arbitration_resolution_record res_io" where
  "begin_analysis_adoption_locked mc job by now =
     bind_io (in_arb (read_analysis job)) (\<lambda>a.
     if analysis_state a \<noteq> Approved then throw_io NotAdoptable
     else bind_io (in_store (read_dispute (job_dispute_id job))) (\<lambda>d.
       bind_io (recover_human_resolution_locked (job_dispute_id job) d) (\<lambda>(d', found). case found of
         Some human \<Rightarrow> bind_io (attempt_io (ensure_delivery human)) (\<lambda>_. throw_io HumanResolvedAlready)
       | None \<Rightarrow>
           if dispute_status (record_dispute d') \<noteq> Open \<or> record_resolution d' \<noteq> None then throw_io ClosedByOther
           else begin_adoption mc job by now a d')))"

definition adoption_overtaken :: "arbitration_resolution_id \<Rightarrow> time \<Rightarrow> arbitration_analysis \<Rightarrow> arbitration_analysis" where
  "adoption_overtaken rid now a = a\<lparr>analysis_state := Approved, pending_resolution := None,
     adoption_blocked_reason := Some (AdoptionPreemptedBy rid),
     analysis_error := Some \<lparr>error_code = ''adoption_preempted'', error_message = AdoptionPreemptedBy rid\<rparr>, analysis_updated_at := now\<rparr>"

definition overtaken_by_human :: "analysis_job \<Rightarrow> time \<Rightarrow> arbitration_analysis \<Rightarrow> arbitration_analysis" where
  "overtaken_by_human owner now a = a\<lparr>analysis_state := Approved,
     adoption_blocked_reason := Some (HumanAdoptionFixed (job_analysis_id owner)),
     analysis_error := Some \<lparr>error_code = ''adoption_preempted_by_human'', error_message = HumanAdoptionFixed (job_analysis_id owner)\<rparr>,
     analysis_updated_at := now\<rparr>"

definition other_resolution :: "maintainer_dispute_record \<Rightarrow> arbitration_resolution_record \<Rightarrow> arbitration_resolution_id option" where
  "other_resolution d r = (case record_resolution d of
       Some s \<Rightarrow> if resolution_id s \<noteq> rr_resolution_id r then Some (resolution_id s) else None
     | None \<Rightarrow> None)"

definition recover_analysis_adoption :: "analysis_job \<Rightarrow> time \<Rightarrow> analysis_state res_io" where
  "recover_analysis_adoption job now =
     bind_io (in_arb lock_dispute) (\<lambda>_.
     bind_io (in_arb (read_analysis job)) (\<lambda>a.
     if analysis_state a \<noteq> Adopting then return_io (analysis_state a)
     else bind_io (fixed_analysis_resolution job a) (\<lambda>r.
       bind_io (if resolved_by (rr_resolution r) = Automatic then find_human_analysis_adoption_owner (job_dispute_id job)
                else return_io None) (\<lambda>owner.
       if owner \<noteq> None \<and> owner \<noteq> Some job
       then bind_io (in_arb (write_analysis (overtaken_by_human (the owner) now a))) (\<lambda>_. return_io Approved)
       else bind_io (in_store (read_dispute (job_dispute_id job))) (\<lambda>d. case other_resolution d r of
           Some rid \<Rightarrow> bind_io (in_arb (write_analysis (adoption_overtaken rid now a))) (\<lambda>_. return_io Approved)
         | None \<Rightarrow> bind_io (finish_analysis_adoption_locked a d r now) (\<lambda>a'. return_io (analysis_state a')))))))"

definition resume_matching_analysis_adoption_locked :: "analysis_job \<Rightarrow> resolved_by \<Rightarrow> time \<Rightarrow> arbitration_resolution_record option res_io" where
  "resume_matching_analysis_adoption_locked job expected now =
     bind_io (find_human_analysis_adoption_owner (job_dispute_id job)) (\<lambda>owner.
     if owner \<noteq> None \<and> owner \<noteq> Some job then throw_io OwnerFixedIntent
     else bind_io (in_arb (read_analysis job)) (\<lambda>a.
       if analysis_state a \<notin> {Adopting, Adopted} then return_io None
       else bind_io (fixed_analysis_resolution job a) (\<lambda>r.
         if resolved_by (rr_resolution r) \<noteq> expected then throw_io UsedByOtherAdoption
         else bind_io (in_store (read_dispute (job_dispute_id job))) (\<lambda>d.
           if analysis_state a = Adopted then
             (if map_option resolution_id (record_resolution d) = Some (rr_resolution_id r) then return_io (Some r)
              else throw_io AdoptedNotCurrent)
           else case other_resolution d r of
             Some rid \<Rightarrow> bind_io (in_arb (write_analysis (adoption_overtaken rid now a))) (\<lambda>_. throw_io AdoptionOvertaken)
           | None \<Rightarrow> bind_io (finish_analysis_adoption_locked a d r now) (\<lambda>_. return_io (Some r))))))"

text \<open>Errors whose text says that somebody else was first become conflicts.\<close>

fun map_adoption_commit_error :: "res_error \<Rightarrow> res_error" where
  "map_adoption_commit_error e =
     (if e \<in> {NotAdoptable, HumanResolvedAlready, ClosedByOther, UnresolvedAnalysis, OwnerFixedIntent, UsedByOtherAdoption,
             AdoptedNotCurrent, AdoptionOvertaken, ArbError JobReplaced}
      then ArbError Conflict else e)"

text \<open>
  Adoption has two critical sections; the context is built between them.  The instants are the clock
  readings of the code.
\<close>

definition adopt_check :: "analysis_job \<Rightarrow> resolved_by \<Rightarrow> arbitration_resolution_record option res_io" where
  "adopt_check job by =
     bind_io (in_arb lock_dispute) (\<lambda>_. bind_io (in_arb clock_now) (\<lambda>now.
     bind_io (map_err_io map_adoption_commit_error (resume_matching_analysis_adoption_locked job by now)) (\<lambda>resumed.
     if resumed \<noteq> None then return_io resumed
     else bind_io (in_arb (read_analysis job)) (\<lambda>a.
       bind_io (in_store (read_dispute (job_dispute_id job))) (\<lambda>d.
       bind_io (in_arb (ensure_adoption_preconditions a d)) (\<lambda>_. return_io None))))))"

definition adopt_commit :: "maintainer_config \<Rightarrow> arb_config \<Rightarrow> analysis_job \<Rightarrow> resolved_by \<Rightarrow> build_result \<Rightarrow> string \<Rightarrow> arbitration_resolution_record res_io" where
  "adopt_commit mc cfg job by current reason =
     bind_io (in_arb lock_dispute) (\<lambda>_. bind_io (in_arb clock_now) (\<lambda>now.
     bind_io (map_err_io map_adoption_commit_error (resume_matching_analysis_adoption_locked job by now)) (\<lambda>resumed. case resumed of
       Some r \<Rightarrow> return_io r
     | None \<Rightarrow> bind_io (in_arb (recheck_adoption cfg job current reason)) (\<lambda>_.
         bind_io (in_arb clock_now) (\<lambda>later.
           map_err_io map_adoption_commit_error (begin_analysis_adoption_locked mc job by later))))))"

definition adopt_approved :: "maintainer_config \<Rightarrow> arb_config \<Rightarrow> analysis_job \<Rightarrow> resolved_by \<Rightarrow> build_result \<Rightarrow> string \<Rightarrow> arbitration_resolution_record res_io" where
  "adopt_approved mc cfg job by current reason = bind_io (adopt_check job by) (\<lambda>resumed. case resumed of
       Some r \<Rightarrow> return_io r
     | None \<Rightarrow> bind_io (in_arb clock_now) (\<lambda>_. adopt_commit mc cfg job by current reason))"

section \<open>Recovering a pending delivery\<close>

definition can_recover_commit :: "maintainer_dispute_record \<Rightarrow> arbitration_resolution_record \<Rightarrow> bool" where
  "can_recover_commit d r = (case record_resolution d of
       None \<Rightarrow> True
     | Some s \<Rightarrow> resolved_by (rr_resolution r) = Human \<and> rejection_reason (rr_resolution r) \<noteq> None \<and> resolved_by s = Automatic)"

definition has_id :: "arbitration_resolution_id \<Rightarrow> arbitration_resolution_record option \<Rightarrow> bool" where
  "has_id i x = (case x of None \<Rightarrow> False | Some r \<Rightarrow> rr_resolution_id r = i)"

definition recover_with :: "resolution_event_target \<Rightarrow> arbitration_resolution_record option \<Rightarrow> arbitration_resolution_record \<Rightarrow> unit res_io" where
  "recover_with t current r =
     (if rr_resolution_id r \<noteq> target_resolution_id t \<or> rr_dispute_id r \<noteq> target_dispute_id t then throw_io PendingEventDiffers
      else bind_io (in_store (read_dispute (target_dispute_id t))) (\<lambda>d.
        let is_current = (map_option resolution_id (record_resolution d) = Some (target_resolution_id t)) in
        if \<not> is_current \<and> \<not> can_recover_commit d r then remove_pending_delivery (target_resolution_id t)
        else bind_io (if is_current then return_io ()
            else bind_io (write_resolution_record r) (\<lambda>_. in_store (write_dispute (resolved_with (rr_resolution r) d)))) (\<lambda>_.
          bind_io (if has_id (target_resolution_id t) current then return_io () else write_resolution_record r) (\<lambda>_.
            ensure_delivery r))))"

definition recover_pending_delivery :: "resolution_event_target \<Rightarrow> unit res_io" where
  "recover_pending_delivery t =
     bind_io (in_arb lock_dispute) (\<lambda>_.
     bind_io (read_pending_delivery (target_resolution_id t)) (\<lambda>pending.
     bind_io (read_current_resolution_record (target_dispute_id t)) (\<lambda>current.
     case (case Option.bind pending pd_record of
             Some r \<Rightarrow> Some r
           | None \<Rightarrow> if has_id (target_resolution_id t) current then current else None) of
       None \<Rightarrow> remove_pending_delivery (target_resolution_id t)
     | Some r \<Rightarrow> recover_with t current r)))"

definition complete_analysis_adoption_after_delivery :: "resolution_event_target \<Rightarrow> time \<Rightarrow> unit res_io" where
  "complete_analysis_adoption_after_delivery t now =
     bind_io (in_arb lock_dispute) (\<lambda>_.
     bind_io (read_current_resolution_record (target_dispute_id t)) (\<lambda>current.
     case (if has_id (target_resolution_id t) current then Option.bind current rr_analysis_source_id else None) of
       None \<Rightarrow> return_io ()
     | Some source \<Rightarrow> bind_io (in_arb (read_current_analysis (target_dispute_id t))) (\<lambda>analysis. case analysis of
         None \<Rightarrow> return_io ()
       | Some a \<Rightarrow>
           if analysis_id a \<noteq> source \<or> analysis_state a \<noteq> Adopting then return_io ()
           else if analysis_resolution_id a \<noteq> Some (target_resolution_id t) then throw_io AdoptingDiffers
           else in_arb (write_analysis (a\<lparr>analysis_state := Adopted, delivery_error := None, pending_resolution := None,
                  analysis_updated_at := now\<rparr>)))))"

end
