(* ===== verification/Io_Rules.thy ===== *)
theory Io_Rules
  imports Prelude
begin

text \<open>
  Rules for programs that keep an invariant and promise something of the value they return: the
  continuation of a step may use what the step promises.
\<close>

definition keeping :: "('w \<Rightarrow> bool) \<Rightarrow> ('w, 'e, 'a) io \<Rightarrow> ('a \<Rightarrow> bool) \<Rightarrow> bool" where
  "keeping I m Q \<longleftrightarrow> (\<forall>w r w'. I w \<longrightarrow> m w = (r, w') \<longrightarrow> I w' \<and> (\<forall>x. r = Inr x \<longrightarrow> Q x))"

lemma keepingI: "(\<And>w r w'. I w \<Longrightarrow> m w = (r, w') \<Longrightarrow> I w' \<and> (\<forall>x. r = Inr x \<longrightarrow> Q x)) \<Longrightarrow> keeping I m Q"
  by (simp add: keeping_def)

lemma keepingD: "keeping I m Q \<Longrightarrow> m w = (r, w') \<Longrightarrow> I w \<Longrightarrow> I w'"
  by (auto simp: keeping_def)

lemma keeping_value: "keeping I m Q \<Longrightarrow> m w = (Inr x, w') \<Longrightarrow> I w \<Longrightarrow> Q x"
  by (auto simp: keeping_def)

lemma keeping_weaken: "keeping I m P \<Longrightarrow> (\<And>x. P x \<Longrightarrow> Q x) \<Longrightarrow> keeping I m Q"
  by (auto simp: keeping_def)

lemma keeping_return: "Q x \<Longrightarrow> keeping I (return_io x) Q"
  by (auto simp: keeping_def)

lemma keeping_throw: "keeping I (throw_io e) Q"
  by (auto simp: keeping_def)

lemma keeping_bind:
  assumes "keeping I m P" and "\<And>x. P x \<Longrightarrow> keeping I (k x) Q"
  shows "keeping I (bind_io m k) Q"
proof (rule keepingI)
  fix w r w'
  assume I: "I w" and run: "bind_io m k w = (r, w')"
  obtain q w1 where q: "m w = (q, w1)" by fastforce
  with I assms(1) have w1: "I w1" by (auto dest: keepingD)
  show "I w' \<and> (\<forall>x. r = Inr x \<longrightarrow> Q x)"
  proof (cases q)
    case (Inl e)
    with q run w1 show ?thesis by (auto simp: bind_io_def)
  next
    case (Inr x)
    with q I assms(1) have "P x" by (auto dest: keeping_value)
    with Inr q run w1 assms(2) show ?thesis by (auto simp: bind_io_def keeping_def)
  qed
qed

lemma keeping_attempt: "keeping I m P \<Longrightarrow> keeping I (attempt_io m) (\<lambda>r. \<forall>x. r = Inr x \<longrightarrow> P x)"
  by (auto simp: keeping_def attempt_io_def split: prod.splits)

lemma keeping_any: "keeping I m P \<Longrightarrow> keeping I m (\<lambda>_. True)"
  by (auto simp: keeping_def)

lemma keeping_if: "(b \<Longrightarrow> keeping I m Q) \<Longrightarrow> (\<not> b \<Longrightarrow> keeping I n Q) \<Longrightarrow> keeping I (if b then m else n) Q"
  by simp

lemma keeping_option:
  "(v = None \<Longrightarrow> keeping I m Q) \<Longrightarrow> (\<And>x. v = Some x \<Longrightarrow> keeping I (f x) Q) \<Longrightarrow>
   keeping I (case v of None \<Rightarrow> m | Some x \<Rightarrow> f x) Q"
  by (cases v) auto

lemma keeping_sum:
  "(\<And>x. v = Inl x \<Longrightarrow> keeping I (f x) Q) \<Longrightarrow> (\<And>y. v = Inr y \<Longrightarrow> keeping I (g y) Q) \<Longrightarrow>
   keeping I (case v of Inl x \<Rightarrow> f x | Inr y \<Rightarrow> g y) Q"
  by (cases v) auto

lemma keeping_get: "(\<And>w. I w \<Longrightarrow> Q (f w)) \<Longrightarrow> keeping I (get_io f) Q"
  by (auto simp: keeping_def)

text \<open>A program whose steps keep the invariant until the last one, which establishes the result.\<close>

definition ending :: "('w \<Rightarrow> bool) \<Rightarrow> ('w, 'e, 'a) io \<Rightarrow> ('a \<Rightarrow> 'w \<Rightarrow> bool) \<Rightarrow> bool" where
  "ending I m R \<longleftrightarrow> (\<forall>w x w'. I w \<longrightarrow> m w = (Inr x, w') \<longrightarrow> R x w')"

lemma endingD: "ending I m R \<Longrightarrow> m w = (Inr x, w') \<Longrightarrow> I w \<Longrightarrow> R x w'"
  by (auto simp: ending_def)

lemma ending_bind: "keeping I m P \<Longrightarrow> (\<And>x. P x \<Longrightarrow> ending I (k x) R) \<Longrightarrow> ending I (bind_io m k) R"
  unfolding ending_def bind_io_Inr_iff by (metis keepingD keeping_value)

lemma ending_bind_return: "ending I m (\<lambda>x. R (f x)) \<Longrightarrow> ending I (bind_io m (\<lambda>x. return_io (f x))) R"
  unfolding ending_def by (auto simp: bind_io_Inr_iff)

lemma ending_throw: "ending I (throw_io e) R"
  by (simp add: ending_def)

lemma ending_bind_throw: "ending I (bind_io m (\<lambda>_. throw_io e)) R"
  by (simp add: ending_def bind_io_Inr_iff)

lemma ending_return: "(\<And>w. I w \<Longrightarrow> R x w) \<Longrightarrow> ending I (return_io x) R"
  by (simp add: ending_def)

lemma ending_if: "(b \<Longrightarrow> ending I m R) \<Longrightarrow> (\<not> b \<Longrightarrow> ending I n R) \<Longrightarrow> ending I (if b then m else n) R"
  by simp

lemma bind_io_InrE:
  assumes "bind_io m k w = (Inr x, w')"
  obtains y w1 where "m w = (Inr y, w1)" "k y w1 = (Inr x, w')"
  using assms by (auto simp: bind_io_Inr_iff)

lemma keeping_both: "keeping I m P \<Longrightarrow> keeping J m Q \<Longrightarrow> keeping (\<lambda>w. I w \<and> J w) m P"
  unfolding keeping_def by blast

lemmas keeping_intros = keeping_throw keeping_if keeping_option keeping_sum

end
