(* ===== verification/Arbitration_Invariant.thy ===== *)
theory Arbitration_Invariant
  imports Arbitration Io_Rules Dir_Facts
begin

text \<open>
  The life cycle of an analysis as a transition system: one step per critical section of the service,
  with any job, token and answer, and one for everything else that changes the team store.  Every stored
  analysis is consistent with its state, goes through at most three rounds, and a worker whose lease was
  taken over never writes again.
\<close>

section \<open>Consistent analyses\<close>

definition open_round :: "arbitration_analysis \<Rightarrow> bool" where
  "open_round a \<longleftrightarrow> context_change_count a \<le> 2 \<and> Suc (length (analysis_rounds a)) = analysis_round a"

definition closed_round :: "arbitration_analysis \<Rightarrow> bool" where
  "closed_round a \<longleftrightarrow> length (analysis_rounds a) = analysis_round a"

text \<open>What the holder of a lease for a phase relies on.\<close>

definition phase_ready :: "analysis_phase \<Rightarrow> arbitration_analysis \<Rightarrow> bool" where
  "phase_ready phase a \<longleftrightarrow> open_round a \<and> analysis_context a \<noteq> None \<and> analysis_verification a = None
     \<and> (analysis_proposal a = None \<longleftrightarrow> phase = ProposalPhase)"

definition held_in :: "analysis_phase \<Rightarrow> arbitration_analysis \<Rightarrow> bool" where
  "held_in phase a \<longleftrightarrow> (\<exists>l. analysis_lease a = Some l \<and> lease_phase l = phase) \<and> phase_ready phase a"

definition state_ok :: "f64 \<Rightarrow> arbitration_analysis \<Rightarrow> bool" where
  "state_ok threshold a =
     (case analysis_state a of
        Pending \<Rightarrow> open_round a \<and> analysis_lease a = None \<and> analysis_context a = None \<and> semantic_fingerprint a = None
          \<and> analysis_proposal a = None \<and> analysis_verification a = None
      | WaitingContext \<Rightarrow> open_round a \<and> analysis_lease a = None \<and> analysis_context a = None \<and> semantic_fingerprint a = None
          \<and> analysis_proposal a = None \<and> analysis_verification a = None
      | Proposing \<Rightarrow> held_in ProposalPhase a
      | Verifying \<Rightarrow> held_in VerificationPhase a
      | Approved \<Rightarrow> closed_round a \<and> analysis_lease a = None \<and> analysis_context a \<noteq> None
          \<and> analysis_is_approved a threshold \<and> (context_change_count a = 3 \<longrightarrow> adoption_blocked_reason a \<noteq> None)
      | StateUnresolved \<Rightarrow> closed_round a \<and> analysis_lease a = None \<and> analysis_context a \<noteq> None
          \<and> analysis_proposal a \<noteq> None \<and> analysis_verification a \<noteq> None \<and> \<not> analysis_is_approved a threshold
      | WaitingReanalysis \<Rightarrow> open_round a \<and> analysis_lease a = None \<and> 1 \<le> context_change_count a
      | Failed \<Rightarrow> length (analysis_rounds a) \<le> analysis_round a \<and> (\<forall>l. analysis_lease a = Some l \<longrightarrow> phase_ready (lease_phase l) a)
      | Adopting \<Rightarrow> closed_round a \<and> analysis_lease a = None
      | Adopted \<Rightarrow> closed_round a \<and> analysis_lease a = None)"

definition rounds_numbered :: "analysis_round list \<Rightarrow> bool" where
  "rounds_numbered rs \<longleftrightarrow> map round_number rs = [1 ..< Suc (length rs)]"

definition analysis_ok :: "f64 \<Rightarrow> dispute_id \<Rightarrow> arbitration_analysis \<Rightarrow> bool" where
  "analysis_ok threshold d a \<longleftrightarrow>
     validate_analysis a \<and> analysis_dispute_id a = d \<and> legacy_source a = LegacyAutomatic
     \<and> context_change_count a \<le> 3 \<and> analysis_round a = min 3 (Suc (context_change_count a))
     \<and> rounds_numbered (analysis_rounds a) \<and> state_ok threshold a"

definition arb_inv :: "f64 \<Rightarrow> arb_store \<Rightarrow> bool" where
  "arb_inv threshold w \<longleftrightarrow>
     legacy_automatic_analyses w = [] \<and> legacy_manual_analyses w = []
     \<and> (\<forall>n f. map_of (current_analyses w) n = Some f \<longrightarrow>
          (\<exists>d a. n = yaml_name d \<and> f = Document a \<and> analysis_ok threshold d a))"

lemmas ok_defs = analysis_ok_def state_ok_def open_round_def closed_round_def held_in_def phase_ready_def validate_analysis_def

lemma rounds_numbered_Nil [simp]: "rounds_numbered []"
  by (simp add: rounds_numbered_def)

lemma rounds_numbered_snoc: "rounds_numbered (rs @ [r]) \<longleftrightarrow> rounds_numbered rs \<and> round_number r = Suc (length rs)"
  by (simp add: rounds_numbered_def)

lemma mark_last_round_numbers [simp]:
  "length (mark_last_round reason rs) = length rs" "rounds_numbered (mark_last_round reason rs) = rounds_numbered rs"
  by (cases rs rule: rev_cases; simp add: mark_last_round_def rounds_numbered_snoc)+

subsection \<open>The updates of the sections\<close>

lemma consistent_lease:
  assumes "analysis_ok th d a" "analysis_state a = phase_state phase" "lease_phase l = phase"
  shows "analysis_ok th d (a\<lparr>analysis_lease := Some l, analysis_updated_at := now\<rparr>)"
  using assms by (cases phase) (auto simp: ok_defs split: option.splits)

lemma consistent_waiting:
  assumes "analysis_ok th d a" "analysis_state a \<in> {Pending, WaitingContext}"
  shows "analysis_ok th d (a\<lparr>analysis_state := WaitingContext, context_prepare_attempts := n, analysis_updated_at := now\<rparr>)"
  using assms by (auto simp: ok_defs split: option.splits)

lemma consistent_prepared:
  assumes "analysis_ok th d a" "analysis_state a \<in> {Pending, WaitingContext}" "lease_phase l = ProposalPhase"
  shows "analysis_ok th d (a\<lparr>semantic_fingerprint := Some f, analysis_snapshot_hash := Some h, analysis_context := Some ctx,
     analysis_state := Proposing, analysis_lease := Some l, analysis_updated_at := now, analysis_error := None\<rparr>)"
  using assms by (auto simp: ok_defs split: option.splits)

lemma ok_length:
  assumes "analysis_ok th d a"
  shows "length (analysis_rounds a) \<le> analysis_round a"
  using assms by (cases "analysis_state a") (auto simp: analysis_ok_def state_ok_def open_round_def closed_round_def held_in_def phase_ready_def)

lemma ok_leased: "analysis_ok th d a \<Longrightarrow> analysis_lease a = Some l \<Longrightarrow> phase_ready (lease_phase l) a"
  by (cases "analysis_state a") (auto simp: analysis_ok_def state_ok_def held_in_def)

text \<open>A failed analysis only promises the bound on its rounds, and the data of a lease it still carries.\<close>

lemma ok_end:
  assumes "analysis_ok th d a" "validate_analysis b" "analysis_state b = Failed" "analysis_dispute_id b = analysis_dispute_id a"
    "legacy_source b = legacy_source a" "context_change_count b = context_change_count a"
    "analysis_round b = analysis_round a" "analysis_rounds b = analysis_rounds a"
    "analysis_lease b = None \<or> analysis_lease b = analysis_lease a \<and> analysis_context b = analysis_context a
       \<and> analysis_proposal b = analysis_proposal a \<and> analysis_verification b = analysis_verification a"
  shows "analysis_ok th d b"
  using assms ok_length [OF assms(1)] ok_leased [OF assms(1)]
  by (auto simp: analysis_ok_def state_ok_def phase_ready_def open_round_def)

lemma consistent_closed: "analysis_ok th d a \<Longrightarrow> validate_analysis (closed_meanwhile now a) \<Longrightarrow> analysis_ok th d (closed_meanwhile now a)"
  by (rule ok_end) (simp_all add: closed_meanwhile_def, simp)

lemma consistent_closed_released:
  "analysis_ok th d a \<Longrightarrow> validate_analysis ((closed_meanwhile now a)\<lparr>analysis_lease := None\<rparr>) \<Longrightarrow>
   analysis_ok th d ((closed_meanwhile now a)\<lparr>analysis_lease := None\<rparr>)"
  by (rule ok_end) (simp_all add: closed_meanwhile_def)

lemma consistent_failed: "analysis_ok th d a \<Longrightarrow> validate_analysis (set_failed code err now a) \<Longrightarrow> analysis_ok th d (set_failed code err now a)"
  by (rule ok_end) (simp_all add: set_failed_def)

lemma consistent_preempted:
  assumes "analysis_ok th d a" "preempt_analysis_for_resolution a now = Some b" "validate_analysis b"
  shows "analysis_ok th d b"
  by (rule ok_end [OF assms(1,3)]; use assms(2) in \<open>auto simp: preempt_analysis_for_resolution_def split: if_splits\<close>)

lemma consistent_proposed:
  assumes "analysis_ok th d a" "analysis_lease a = Some l" "lease_phase l = ProposalPhase" "lease_phase l' = VerificationPhase"
    "validate_analysis (a\<lparr>analysis_proposal := Some p, analysis_state := Verifying, analysis_lease := Some l', analysis_updated_at := now\<rparr>)"
  shows "analysis_ok th d (a\<lparr>analysis_proposal := Some p, analysis_state := Verifying, analysis_lease := Some l', analysis_updated_at := now\<rparr>)"
  using assms ok_leased [OF assms(1,2)]
  by (simp add: analysis_ok_def state_ok_def held_in_def phase_ready_def open_round_def)

lemma consistent_verified:
  assumes "analysis_ok (cfg_threshold cfg) d a" "analysis_lease a = Some l" "lease_phase l = VerificationPhase"
    "validate_analysis (verified_analysis cfg now v a)"
  shows "analysis_ok (cfg_threshold cfg) d (verified_analysis cfg now v a)"
  using assms ok_leased [OF assms(1,2)]
  by (auto simp: ok_defs verified_analysis_def completed_round_def Let_def rounds_numbered_snoc analysis_is_approved_def
      split: option.splits)

lemma consistent_restarted:
  assumes "analysis_ok th d a" "analysis_state a = WaitingReanalysis"
  shows "analysis_ok th d (restarted now a)"
  using assms by (auto simp: ok_defs restarted_def split: option.splits)

lemma consistent_blocked:
  assumes "analysis_ok th d a" "analysis_state a = Approved"
  shows "analysis_ok th d (a\<lparr>adoption_blocked_reason := Some text, analysis_updated_at := now\<rparr>)"
    "analysis_ok th d (a\<lparr>adoption_blocked_reason := Some text, context_change_reason := Some reason, analysis_updated_at := now\<rparr>)"
  using assms by (auto simp: ok_defs analysis_is_approved_def split: option.splits)

lemma consistent_reported:
  "analysis_ok th d a \<Longrightarrow> analysis_state a = Pending \<Longrightarrow> dispute_id s = d \<Longrightarrow> analysis_ok th d (a\<lparr>report_snapshot := Some s\<rparr>)"
  by (auto simp: ok_defs)

lemma consistent_rescheduled:
  assumes "analysis_ok th d a" "analysis_state a = Approved" "adoption_blocked_reason a = None"
  shows "analysis_ok th d (reanalysis_scheduled reason now a)"
  using assms
  by (auto simp: ok_defs reanalysis_scheduled_def saturating_add32_def Let_def analysis_is_approved_def split: option.splits)

section \<open>Invariants of the critical sections\<close>

text \<open>The rest of the program moves the generator only forwards.\<close>

definition rng_frame :: "team_store \<Rightarrow> team_store \<Rightarrow> bool" where
  "rng_frame t t' \<longleftrightarrow> rng t' = rng t \<and> rng_pos t \<le> rng_pos t'"

interpretation rng_frame: io_frame rng_frame
  by unfold_locales (auto simp: rng_frame_def)

lemma within_rng_modify: "(\<And>w. rng (f w) = rng w \<and> rng_pos (f w) = rng_pos w) \<Longrightarrow> within rng_frame (modify_io f)"
  by (rule rng_frame.within_modify) (simp add: rng_frame_def)

lemma within_rng_io_call: "within rng_frame io_call"
  by (rule withinI) (auto simp: io_call_def rng_frame_def split: list.splits)

lemma within_rng_lift_sum: "within rng_frame (lift_sum r)"
  unfolding lift_sum_def by (intro rng_frame.within_intros)

lemma within_rng_draw_hex: "within rng_frame (draw_hex n)"
proof (induction n)
  case (Suc n)
  have "within rng_frame draw" unfolding draw_def
    by (intro rng_frame.within_intros rng_frame.within_modify) (simp add: rng_frame_def)
  with Suc show ?case by (auto intro!: rng_frame.within_intros)
qed (simp add: rng_frame.within_return)

lemmas within_rng_calls = within_rng_io_call within_rng_lift_sum within_rng_modify rng_frame.within_intros

lemma within_rng_read_dispute: "within rng_frame (read_dispute d)"
  unfolding read_dispute_def read_yaml_def by (intro within_rng_calls)

lemma within_rng_write_dispute: "within rng_frame (write_dispute r)"
  unfolding write_dispute_def write_yaml_atomic_def by (intro within_rng_calls) auto

lemma within_rng_io_ok: "within rng_frame io_ok"
  unfolding io_ok_def by (intro within_rng_calls)

lemma within_rng_collect: "within rng_frame (collect_team_claims ns out)"
proof (induction ns arbitrary: out)
  case (Cons x ns)
  obtain n node where x: "x = (n, node)" by fastforce
  show ?case unfolding x collect_team_claims.simps
    by (cases node; cases "agent_id_new n"; simp)
      (intro within_rng_io_ok within_rng_calls Cons)+
qed (simp add: rng_frame.within_return)

lemma within_rng_validate_new: "within rng_frame (validate_new_dispute_direct_claims d)"
  unfolding validate_new_dispute_direct_claims_def load_team_claims_def io_ok_def
  by (intro within_rng_calls within_rng_collect)

text \<open>
  An invariant of the store of analyses: what every stored analysis satisfies, what every new lease
  token satisfies, and that the updates of the critical sections keep the former.
\<close>

locale analysis_invariant =
  fixes I :: "arb_store \<Rightarrow> bool" and ok :: "dispute_id \<Rightarrow> arbitration_analysis \<Rightarrow> bool"
    and fresh :: "string \<Rightarrow> bool" and cfg :: arb_config
  assumes elsewhere: "I w \<Longrightarrow> rng_frame (arb_team w) t \<Longrightarrow> I (w\<lparr>arb_team := t\<rparr>)"
    and clock: "I w \<Longrightarrow> I (w\<lparr>arb_clock_pos := n\<rparr>)"
    and current: "keeping I (read_current_analysis d) (\<lambda>r. \<forall>a. r = Some a \<longrightarrow> ok d a)"
    and existing: "keeping I (arb_read current_analyses name) (\<lambda>_. True)"
    and put: "ok d a \<Longrightarrow> keeping I (put_analysis a) (\<lambda>_. True)"
    and token: "keeping I random_lease_token fresh"
    and new: "keeping I (new_analysis cfg d) (\<lambda>a. ok d a \<and> analysis_state a = Pending)"
    and ok_token: "ok d a \<Longrightarrow> analysis_lease a = Some l \<Longrightarrow> fresh (lease_token l)"
    and ok_reported: "ok d a \<Longrightarrow> analysis_state a = Pending \<Longrightarrow> dispute_id s = d \<Longrightarrow> ok d (a\<lparr>report_snapshot := Some s\<rparr>)"
    and ok_lease: "ok d a \<Longrightarrow> analysis_state a = phase_state phase \<Longrightarrow> lease_phase l = phase \<Longrightarrow> fresh (lease_token l) \<Longrightarrow>
        ok d (a\<lparr>analysis_lease := Some l, analysis_updated_at := now\<rparr>)"
    and ok_waiting: "ok d a \<Longrightarrow> analysis_state a \<in> {Pending, WaitingContext} \<Longrightarrow>
        ok d (a\<lparr>analysis_state := WaitingContext, context_prepare_attempts := k, analysis_updated_at := now\<rparr>)"
    and ok_prepared: "ok d a \<Longrightarrow> analysis_state a \<in> {Pending, WaitingContext} \<Longrightarrow> lease_phase l = ProposalPhase \<Longrightarrow> fresh (lease_token l) \<Longrightarrow>
        ok d (a\<lparr>semantic_fingerprint := Some f, analysis_snapshot_hash := Some h, analysis_context := Some ctx,
          analysis_state := Proposing, analysis_lease := Some l, analysis_updated_at := now, analysis_error := None\<rparr>)"
    and ok_closed: "ok d a \<Longrightarrow> validate_analysis (closed_meanwhile now a) \<Longrightarrow> ok d (closed_meanwhile now a)"
    and ok_released: "ok d a \<Longrightarrow> validate_analysis ((closed_meanwhile now a)\<lparr>analysis_lease := None\<rparr>) \<Longrightarrow>
        ok d ((closed_meanwhile now a)\<lparr>analysis_lease := None\<rparr>)"
    and ok_failed: "ok d a \<Longrightarrow> validate_analysis (set_failed code err now a) \<Longrightarrow> ok d (set_failed code err now a)"
    and ok_preempted: "ok d a \<Longrightarrow> preempt_analysis_for_resolution a now = Some b \<Longrightarrow> validate_analysis b \<Longrightarrow> ok d b"
    and ok_proposed: "ok d a \<Longrightarrow> analysis_lease a = Some l \<Longrightarrow> lease_phase l = ProposalPhase \<Longrightarrow> lease_phase l' = VerificationPhase \<Longrightarrow>
        fresh (lease_token l') \<Longrightarrow>
        validate_analysis (a\<lparr>analysis_proposal := Some p, analysis_state := Verifying, analysis_lease := Some l', analysis_updated_at := now\<rparr>) \<Longrightarrow>
        ok d (a\<lparr>analysis_proposal := Some p, analysis_state := Verifying, analysis_lease := Some l', analysis_updated_at := now\<rparr>)"
    and ok_verified: "ok d a \<Longrightarrow> analysis_lease a = Some l \<Longrightarrow> lease_phase l = VerificationPhase \<Longrightarrow>
        validate_analysis (verified_analysis cfg now v a) \<Longrightarrow> ok d (verified_analysis cfg now v a)"
    and ok_restarted: "ok d a \<Longrightarrow> analysis_state a = WaitingReanalysis \<Longrightarrow> ok d (restarted now a)"
    and ok_blocked: "ok d a \<Longrightarrow> analysis_state a = Approved \<Longrightarrow>
        ok d (a\<lparr>adoption_blocked_reason := Some text, analysis_updated_at := now\<rparr>)"
    and ok_changed: "ok d a \<Longrightarrow> analysis_state a = Approved \<Longrightarrow>
        ok d (a\<lparr>adoption_blocked_reason := Some text, context_change_reason := Some reason, analysis_updated_at := now\<rparr>)"
    and ok_rescheduled: "ok d a \<Longrightarrow> analysis_state a = Approved \<Longrightarrow> adoption_blocked_reason a = None \<Longrightarrow>
        ok d (reanalysis_scheduled reason now a)"
begin

lemma keeps_team: "within rng_frame m \<Longrightarrow> keeping I (in_team m) (\<lambda>_. True)"
  by (rule keepingI) (auto simp: in_team_def split: prod.splits dest: withinD intro: elsewhere)

lemma keeps_clock: "keeping I clock_now (\<lambda>_. True)"
  by (rule keepingI) (auto simp: clock_now_def intro: clock)

lemma keeps_lock: "keeping I lock_dispute (\<lambda>_. True)"
  unfolding lock_dispute_def by (intro keeps_team within_rng_io_call)

lemmas section_of = keeping_bind [OF keeps_lock]
lemmas then_clock = keeping_bind [OF keeps_clock]
lemmas then_dispute = keeping_bind [OF keeps_team [OF within_rng_read_dispute]]

lemma keeps_read: "keeping I (read_analysis job) (\<lambda>a. ok (job_dispute_id job) a \<and> analysis_id a = job_analysis_id job)"
  unfolding read_analysis_def
  by (rule keeping_bind [OF current]) (auto intro!: keeping_return keeping_throw split: option.splits)

lemmas then_read = keeping_bind [OF keeps_read]

lemma keeps_write: "(validate_analysis a \<Longrightarrow> ok d a) \<Longrightarrow> keeping I (write_analysis a) (\<lambda>_. True)"
  unfolding write_analysis_def by (auto intro: keeping_throw put)

lemma keeps_lease: "keeping I (new_lease cfg phase now) (\<lambda>l. lease_phase l = phase \<and> fresh (lease_token l))"
  unfolding new_lease_def chrono_duration_def
  by (rule keeping_bind [where P = "\<lambda>_. True"], rule keeping_if; (rule keeping_bind [OF token])?)
    (auto intro: keeping_throw keeping_return)

lemma keeps_ensure:
  "keeping I (ensure_lease a tok phase) (\<lambda>_. \<exists>l. analysis_lease a = Some l \<and> lease_phase l = phase \<and> lease_token l = tok)"
  unfolding ensure_lease_def by (auto intro: keeping_throw keeping_return split: option.splits)

lemma keeps_acquire: "keeping I (acquire_phase cfg job phase) (\<lambda>_. True)"
  unfolding acquire_phase_def
  by (intro section_of then_read keeping_if then_clock keeping_return keeping_bind [OF keeps_lease]
      keeping_bind [OF keeps_write [OF ok_lease]]) auto

lemma keeps_waiting: "keeping I (record_waiting_context job) (\<lambda>_. True)"
  unfolding record_waiting_context_def Let_def
  by (intro section_of then_read keeping_if keeping_return then_clock keeping_bind [OF keeps_write [OF ok_waiting]]) auto

lemma keeps_prepared: "keeping I (save_prepared_context cfg job built) (\<lambda>_. True)"
  unfolding save_prepared_context_def
  by (intro section_of then_dispute then_read keeping_if keeping_throw then_clock keeping_return keeping_bind [OF keeps_lease]
      keeping_bind [OF keeps_write [OF ok_closed]] keeping_bind [OF keeps_write [OF ok_prepared]]) auto

lemma keeps_proposal: "keeping I (save_proposal cfg job tok p) (\<lambda>_. True)"
  unfolding save_proposal_def
  by (intro section_of then_clock then_read keeping_bind [OF keeps_ensure] then_dispute keeping_if keeping_throw keeping_return
      keeping_bind [OF keeps_lease] keeping_bind [OF keeps_write [OF ok_released]])
    (auto intro!: keeping_bind [OF keeps_write [OF ok_proposed]] keeping_return dest: ok_token)

lemma keeps_verification: "keeping I (save_verification cfg job tok v) (\<lambda>_. True)"
  unfolding save_verification_def
  by (intro section_of then_clock then_read keeping_bind [OF keeps_ensure]) (auto intro!: keeps_write [OF ok_verified])

lemma keeps_preempted: "keeping I (mark_analysis_preempted job) (\<lambda>_. True)"
  unfolding mark_analysis_preempted_def
  by (intro section_of then_read then_clock keeping_option keeping_return keeps_write [OF ok_preempted]) auto

lemma keeps_failed: "keeping I (finish_failed job tok code err) (\<lambda>_. True)"
  unfolding finish_failed_def
  by (intro section_of then_clock then_read keeping_option keeping_throw keeping_bind [OF keeps_ensure] keeps_write [OF ok_failed]) auto

lemma keeps_failed_without_lease: "keeping I (finish_failed_without_lease job code err) (\<lambda>_. True)"
  unfolding finish_failed_without_lease_def
  by (intro section_of then_read keeping_if keeping_return then_clock keeps_write [OF ok_failed]) auto

lemma keeps_restart: "keeping I (start_reanalysis_round job) (\<lambda>_. True)"
  unfolding start_reanalysis_round_def
  by (intro section_of then_read keeping_if keeping_option keeping_return then_clock keeps_write [OF ok_restarted]) auto

lemma keeps_recheck: "keeping I (recheck_adoption cfg' job built reason) (\<lambda>_. True)"
proof -
  have pre: "keeping I (ensure_adoption_preconditions a r) (\<lambda>_. analysis_state a = Approved \<and> adoption_blocked_reason a = None)" for a r
    unfolding ensure_adoption_preconditions_def by (auto intro: keeping_throw keeping_return)
  show ?thesis unfolding recheck_adoption_def schedule_reanalysis_def
    by (intro then_read then_dispute keeping_bind [OF pre], cases built)
      (auto intro!: keeping_throw keeping_return then_clock keeping_bind [OF keeps_write [OF ok_blocked]]
        keeping_bind [OF keeps_write [OF ok_changed]] keeping_bind [OF keeping_bind [OF keeps_clock keeps_write [OF ok_rescheduled]]])
qed

lemma keeps_create: "keeping I (create_analysis cfg d) (\<lambda>_. True)"
  unfolding create_analysis_def replace_current_analysis_def
  by (intro section_of then_dispute keeping_if keeping_throw keeping_bind [OF current] keeping_bind [OF new])
    (auto intro!: keeping_bind [OF put] keeping_return)

lemma keeps_report_analysis: "ok d a \<Longrightarrow> keeping I (create_report_analysis a) (\<lambda>_. True)"
  unfolding create_report_analysis_def
  by (rule keeping_bind [OF keeping_attempt [OF existing]])
    (auto split: sum.split arb_error.split team_error.split intro: keeping_return keeping_throw put)

lemma keeps_record: "keeping I (record_report d) (\<lambda>_. True)"
  unfolding record_report_def by (intro keeps_team within_rng_write_dispute)

lemma keeps_report_new: "keeping I (report_new_analysed cfg d) (\<lambda>_. True)"
proof -
  have create: "keeping I (bind_io (new_analysis cfg (dispute_id d)) (\<lambda>a.
      bind_io (create_report_analysis (a\<lparr>report_snapshot := Some d\<rparr>)) (\<lambda>_. return_io (a\<lparr>report_snapshot := Some d\<rparr>)))) (\<lambda>_. True)"
    by (intro keeping_bind [OF new] keeping_bind [OF keeps_report_analysis [OF ok_reported]] keeping_return) auto
  show ?thesis unfolding report_new_analysed_def Let_def
    by (rule keeping_bind [where P = "\<lambda>_. True"], rule keeping_bind [OF current])
      (auto intro!: create keeping_throw keeping_return keeping_bind [OF keeps_record] split: option.split)
qed

lemma keeps_report: "keeping I (report_dispute_analysis cfg d) (\<lambda>_. True)"
proof -
  have known: "keeping I (report_known_dispute cfg r d) (\<lambda>_. True)" for r
    unfolding report_known_dispute_def by (intro keeping_if keeping_throw keeping_bind [OF current] keeping_return TrueI)
  have manual: "keeping I (report_new_manual d) (\<lambda>_. True)"
    unfolding report_new_manual_def
    by (intro keeping_bind [OF current] keeping_if keeping_throw keeping_bind [OF keeps_record] keeping_return TrueI)
  show ?thesis unfolding report_dispute_analysis_def
    by (intro keeping_sum keeping_throw section_of keeping_bind [OF keeping_attempt [OF keeps_team [OF within_rng_read_dispute]]])
      (auto split: sum.split arb_error.split team_error.split intro: keeping_throw known manual keeps_report_new
        keeping_bind [OF keeps_team [OF within_rng_validate_new]])
qed

end

section \<open>Histories\<close>

text \<open>
  One critical section of the service, whatever its outcome, or any change of the team store by the rest
  of the program, which never resets the generator.
\<close>

inductive arb_step :: "arb_config \<Rightarrow> arb_store \<Rightarrow> arb_store \<Rightarrow> bool" for cfg where
  Report: "arb_step cfg w (snd (report_dispute_analysis cfg d w))"
| Create: "arb_step cfg w (snd (create_analysis cfg i w))"
| Acquire: "arb_step cfg w (snd (acquire_phase cfg job phase w))"
| Waiting: "arb_step cfg w (snd (record_waiting_context job w))"
| Prepared: "arb_step cfg w (snd (save_prepared_context cfg job built w))"
| Proposal: "arb_step cfg w (snd (save_proposal cfg job token p w))"
| Verification: "arb_step cfg w (snd (save_verification cfg job token v w))"
| Preempted: "arb_step cfg w (snd (mark_analysis_preempted job w))"
| FailedLeased: "arb_step cfg w (snd (finish_failed job token code err w))"
| FailedUnleased: "arb_step cfg w (snd (finish_failed_without_lease job code err w))"
| Restart: "arb_step cfg w (snd (start_reanalysis_round job w))"
| Recheck: "arb_step cfg w (snd (recheck_adoption cfg job current reason w))"
| Elsewhere: "rng_frame (arb_team w) t \<Longrightarrow> arb_step cfg w (w\<lparr>arb_team := t\<rparr>)"

abbreviation arb_reach :: "arb_config \<Rightarrow> arb_store \<Rightarrow> arb_store \<Rightarrow> bool" where
  "arb_reach cfg \<equiv> (arb_step cfg)\<^sup>*\<^sup>*"

lemma keeping_snd: "keeping I m Q \<Longrightarrow> I w \<Longrightarrow> I (snd (m w))"
  by (metis keepingD prod.collapse)

context analysis_invariant
begin

lemmas keeps_sections = keeps_report keeps_create keeps_acquire keeps_waiting keeps_prepared keeps_proposal keeps_verification
  keeps_preempted keeps_failed keeps_failed_without_lease keeps_restart keeps_recheck

lemma step_keeps: "arb_step cfg w w' \<Longrightarrow> I w \<Longrightarrow> I w'"
  by (induction rule: arb_step.induct) (simp_all add: keeps_sections [THEN keeping_snd] elsewhere)

lemma reach_keeps: "arb_reach cfg w w' \<Longrightarrow> I w \<Longrightarrow> I w'"
  by (induction rule: rtranclp_induct) (auto dest: step_keeps)

end

section \<open>Consistency is an invariant\<close>

lemma arb_inv_current:
  assumes "arb_inv th w" "map_of (current_analyses w) (yaml_name d) = Some (Document a)"
  shows "analysis_ok th d a"
  using assms unfolding arb_inv_def by (metis yaml_file.inject yaml_name_inj)

lemma arb_read_run:
  "arb_read get n w = (r, w') \<Longrightarrow> (\<exists>t. rng_frame (arb_team w) t \<and> w' = w\<lparr>arb_team := t\<rparr>)
     \<and> (\<forall>x. r = Inr x \<longrightarrow> map_of (get w') n = Some (Document x))"
proof -
  assume run: "arb_read get n w = (r, w')"
  obtain q t where q: "io_call (arb_team w) = (q, t)" by fastforce
  then have "rng_frame (arb_team w) t" using within_rng_io_call by (auto dest: withinD)
  with run q show ?thesis
    by (cases q) (auto simp: arb_read_def bind_io_def in_team_def get_io_def lift_sum_def io_defs decode_file_def
      split: sum.splits option.splits yaml_file.splits)
qed

text \<open>Reading a directory of analyses whose documents satisfy a predicate.\<close>

lemma keeping_arb_read:
  assumes "\<And>w t. I w \<Longrightarrow> rng_frame (arb_team w) t \<Longrightarrow> I (w\<lparr>arb_team := t\<rparr>)"
    and "\<And>w x. I w \<Longrightarrow> map_of (get w) n = Some (Document x) \<Longrightarrow> P x"
  shows "keeping I (arb_read get n) P"
proof (rule keepingI)
  fix w r w'
  assume "I w" "arb_read get n w = (r, w')"
  with arb_read_run [OF this(2)] assms(1) have "I w'" "\<forall>x. r = Inr x \<longrightarrow> map_of (get w') n = Some (Document x)" by auto
  with assms(2) show "I w' \<and> (\<forall>x. r = Inr x \<longrightarrow> P x)" by blast
qed

lemma keeping_read_optional:
  assumes "keeping I (arb_read get n) P"
  shows "keeping I (read_optional_yaml get n) (\<lambda>r. \<forall>x. r = Some x \<longrightarrow> P x)"
  unfolding read_optional_yaml_def
  by (rule keeping_bind [OF keeping_attempt [OF assms]])
    (auto split: sum.splits arb_error.splits team_error.splits intro!: keeping_return keeping_throw)

lemma arb_inv_elsewhere: "arb_inv th w \<Longrightarrow> arb_inv th (w\<lparr>arb_team := t\<rparr>)"
  by (simp add: arb_inv_def)

lemma keeping_read_current:
  "keeping (arb_inv th) (read_current_analysis d) (\<lambda>r. \<forall>a. r = Some a \<longrightarrow> analysis_ok th d a)"
proof -
  have current: "keeping (arb_inv th) (arb_read current_analyses (yaml_name d)) (analysis_ok th d)"
    by (rule keeping_arb_read) (auto simp: arb_inv_elsewhere dest: arb_inv_current)
  have legacy: "keeping (arb_inv th) (arb_read legacy_automatic_analyses n) (\<lambda>_. False)"
      "keeping (arb_inv th) (arb_read legacy_manual_analyses n) (\<lambda>_. False)" for n
    by (rule keeping_arb_read; auto simp: arb_inv_def)+
  show ?thesis unfolding read_current_analysis_def
    by (rule keeping_bind [OF keeping_read_optional [OF current]], rule keeping_option,
        rule keeping_bind [OF keeping_read_optional [OF legacy(1)]], rule keeping_bind [OF keeping_read_optional [OF legacy(2)]])
      (auto intro!: keeping_return simp: select_legacy_current_analysis_def normalize_legacy_adoption_mode_def analysis_ok_def
        split: option.splits)
qed

lemma keeping_put_analysis:
  assumes "\<And>w t. I w \<Longrightarrow> rng_frame (arb_team w) t \<Longrightarrow> I (w\<lparr>arb_team := t\<rparr>)"
    and "\<And>w. I w \<Longrightarrow> I (current_analyses_update (AList.update (yaml_name (analysis_dispute_id a)) (Document a)) w)"
  shows "keeping I (put_analysis a) (\<lambda>_. True)"
proof -
  have "keeping I (in_team io_call) (\<lambda>_. True)"
  proof (rule keepingI)
    fix w and r :: "arb_error + unit" and w'
    assume "I w" "in_team io_call w = (r, w')"
    moreover have "rng_frame (arb_team w) (snd (io_call (arb_team w)))" using within_rng_io_call by (simp add: within_def)
    ultimately show "I w' \<and> (\<forall>x. r = Inr x \<longrightarrow> True)" using assms(1) by (auto simp: in_team_def split: prod.splits)
  qed
  then show ?thesis unfolding put_analysis_def
    by (rule keeping_bind) (auto intro!: keepingI assms(2))
qed

interpretation consistent: analysis_invariant "arb_inv (cfg_threshold cfg)" "analysis_ok (cfg_threshold cfg)" "\<lambda>_. True" cfg for cfg
proof unfold_locales
  fix w t n d a
  show "arb_inv (cfg_threshold cfg) w \<Longrightarrow> arb_inv (cfg_threshold cfg) (w\<lparr>arb_team := t\<rparr>)" by (rule arb_inv_elsewhere)
  show "arb_inv (cfg_threshold cfg) w \<Longrightarrow> arb_inv (cfg_threshold cfg) (w\<lparr>arb_clock_pos := n\<rparr>)" by (simp add: arb_inv_def)
  show "keeping (arb_inv (cfg_threshold cfg)) (arb_read current_analyses name) (\<lambda>_. True)" for name
    by (rule keeping_arb_read) (auto simp: arb_inv_elsewhere)
  show "analysis_ok (cfg_threshold cfg) d a \<Longrightarrow> keeping (arb_inv (cfg_threshold cfg)) (put_analysis a) (\<lambda>_. True)"
    by (rule keeping_put_analysis) (auto simp: arb_inv_def update_conv' analysis_ok_def split: if_splits)
  have team: "keeping (arb_inv th) (in_team m) (\<lambda>_. True)" for th m
    by (rule keepingI) (auto simp: in_team_def arb_inv_def split: prod.splits)
  then show "keeping (arb_inv (cfg_threshold cfg)) random_lease_token (\<lambda>_. True)" by (simp add: random_lease_token_def)
  have now: "keeping (arb_inv th) clock_now (\<lambda>_. True)" for th
    by (rule keepingI) (auto simp: clock_now_def arb_inv_def)
  show "keeping (arb_inv (cfg_threshold cfg)) (new_analysis cfg d) (\<lambda>a. analysis_ok (cfg_threshold cfg) d a \<and> analysis_state a = Pending)"
    unfolding new_analysis_def random_analysis_id_def
    by (rule keeping_bind [OF now], rule keeping_bind [where P = "\<lambda>_. True"], rule keeping_bind [OF team])
      (auto intro!: keeping_return simp: ok_defs arbitration_schema_version_def)
qed (auto intro: keeping_read_current consistent_reported consistent_lease consistent_waiting consistent_prepared consistent_closed consistent_closed_released consistent_failed
    consistent_preempted consistent_proposed consistent_verified consistent_restarted consistent_blocked consistent_rescheduled)

end
