(* ===== verification/Arbitration_Properties.thy ===== *)
theory Arbitration_Properties
  imports Arbitration_Invariant Dispute_Reports
begin

text \<open>
  The promises of the arbitration service: consistent records, bounded rounds, approval only by both
  models, fencing of workers that lost their lease, and reports that can be repeated after a crash.
\<close>

section \<open>Retired tokens\<close>

definition token_at :: "(nat \<Rightarrow> 32 word) \<Rightarrow> nat \<Rightarrow> string" where
  "token_at g p = concat (map (\<lambda>i. random_hex8 (g (p + i))) [0 ..< 4])"

definition carries :: "string \<Rightarrow> arbitration_analysis \<Rightarrow> bool" where
  "carries t a \<longleftrightarrow> (\<exists>l. analysis_lease a = Some l \<and> lease_token l = t)"

definition carried_in :: "string \<Rightarrow> arbitration_analysis dir \<Rightarrow> bool" where
  "carried_in t d \<longleftrightarrow> (\<exists>n a. map_of d n = Some (Document a) \<and> carries t a)"

text \<open>No later draw yields the token, and no stored analysis carries it.\<close>

definition retired :: "string \<Rightarrow> arb_store \<Rightarrow> bool" where
  "retired t w \<longleftrightarrow> (\<forall>p \<ge> rng_pos (arb_team w). token_at (rng (arb_team w)) p \<noteq> t)
     \<and> \<not> carried_in t (current_analyses w) \<and> \<not> carried_in t (legacy_automatic_analyses w) \<and> \<not> carried_in t (legacy_manual_analyses w)"

lemma draw_hex_run:
  "draw_hex n t = (Inr (concat (map (\<lambda>i. random_hex8 (rng t (rng_pos t + i))) [0 ..< n])), t\<lparr>rng_pos := rng_pos t + n\<rparr>)"
proof (induction n arbitrary: t)
  case (Suc n)
  have "[0 ..< Suc n] = 0 # map Suc [0 ..< n]" by (simp add: map_Suc_upt upt_conv_Cons)
  then show ?case
    by (simp add: draw_def bind_io_def get_io_def modify_io_def return_io_def Suc o_def del: upt_Suc)
qed (simp add: return_io_def)

lemma retired_elsewhere: "retired t w \<Longrightarrow> rng_frame (arb_team w) s \<Longrightarrow> retired t (w\<lparr>arb_team := s\<rparr>)"
  by (auto simp: retired_def rng_frame_def)

lemma not_carriedD: "\<not> carried_in t d \<Longrightarrow> map_of d n = Some (Document a) \<Longrightarrow> \<not> carries t a"
  by (auto simp: carried_in_def)

lemma carries_normalize [simp]: "carries t (normalize_legacy_adoption_mode a hint) = carries t a"
  by (auto simp: carries_def normalize_legacy_adoption_mode_def split: option.splits)

lemma retired_read_current: "keeping (retired t) (read_current_analysis d) (\<lambda>r. \<forall>a. r = Some a \<longrightarrow> \<not> carries t a)"
proof -
  have read: "keeping (retired t) (arb_read current_analyses n) (\<lambda>a. \<not> carries t a)"
      "keeping (retired t) (arb_read legacy_automatic_analyses n) (\<lambda>a. \<not> carries t a)"
      "keeping (retired t) (arb_read legacy_manual_analyses n) (\<lambda>a. \<not> carries t a)" for n
    by (rule keeping_arb_read; auto simp: retired_def rng_frame_def dest: not_carriedD)+
  show ?thesis unfolding read_current_analysis_def
    by (rule keeping_bind [OF keeping_read_optional [OF read(1)]], rule keeping_option,
        rule keeping_bind [OF keeping_read_optional [OF read(2)]], rule keeping_bind [OF keeping_read_optional [OF read(3)]])
      (auto intro!: keeping_return simp: select_legacy_current_analysis_def split: option.splits)
qed

lemma retired_put: "retired t w \<Longrightarrow> \<not> carries t a \<Longrightarrow> retired t (current_analyses_update (AList.update n (Document a)) w)"
  by (auto simp: retired_def carried_in_def update_conv')

lemma retired_token: "keeping (retired t) random_lease_token (\<lambda>s. s \<noteq> t)"
  by (rule keepingI) (auto simp: random_lease_token_def in_team_def draw_hex_run retired_def token_at_def)

lemma retired_new: "keeping (retired t) (new_analysis cfg d) (\<lambda>a. \<not> carries t a \<and> analysis_state a = Pending)"
proof -
  have now: "keeping (retired t) clock_now (\<lambda>_. True)"
    by (rule keepingI) (auto simp: clock_now_def retired_def)
  have draws: "keeping (retired t) (in_team (draw_hex 2)) (\<lambda>_. True)"
    by (rule keepingI) (auto simp: in_team_def draw_hex_run intro!: retired_elsewhere simp: rng_frame_def)
  show ?thesis unfolding new_analysis_def random_analysis_id_def
    by (rule keeping_bind [OF now], rule keeping_bind [where P = "\<lambda>_. True"], rule keeping_bind [OF draws])
      (auto intro!: keeping_return simp: carries_def)
qed

interpretation fenced: analysis_invariant "retired t" "\<lambda>_ a. \<not> carries t a" "\<lambda>s. s \<noteq> t" cfg for t cfg
proof unfold_locales
  show "keeping (retired t) (arb_read current_analyses name) (\<lambda>_. True)" for name
    by (rule keeping_arb_read) (auto intro: retired_elsewhere)
  show "\<not> carries t a \<Longrightarrow> keeping (retired t) (put_analysis a) (\<lambda>_. True)" for a
    by (rule keeping_put_analysis) (auto intro: retired_elsewhere retired_put)
  show "retired t w \<Longrightarrow> retired t (w\<lparr>arb_clock_pos := n\<rparr>)" for w n by (simp add: retired_def)
  show "keeping (retired t) (read_current_analysis d) (\<lambda>r. \<forall>a. r = Some a \<longrightarrow> \<not> carries t a)" for d
    by (rule retired_read_current)
  show "keeping (retired t) (new_analysis cfg d) (\<lambda>a. \<not> carries t a \<and> analysis_state a = Pending)" for d by (rule retired_new)
qed (auto intro: retired_elsewhere retired_token
    simp: carries_def closed_meanwhile_def set_failed_def verified_analysis_def restarted_def reanalysis_scheduled_def Let_def
      preempt_analysis_for_resolution_def split: if_splits)

section \<open>Runs of the sections\<close>

lemma same_in_team: "within (same current_analyses) (in_team m)"
  by (rule withinI) (auto simp: in_team_def same_def split: prod.splits)

lemma same_clock: "within (same current_analyses) clock_now"
  by (rule withinI) (auto simp: clock_now_def same_def)

lemma same_lift_sum: "within (same current_analyses) (lift_sum r)"
  unfolding lift_sum_def by (intro same.within_intros)

lemmas same_calls = same_in_team same_clock same_lift_sum same.within_intros

lemma same_read_optional: "within (same current_analyses) (read_optional_yaml get n)"
  unfolding read_optional_yaml_def arb_read_def
  by (intro same_calls) (auto split: arb_error.split team_error.split intro: same_calls)

lemma same_read_current: "within (same current_analyses) (read_current_analysis d)"
  unfolding read_current_analysis_def by (intro same_read_optional same_calls)

lemma same_read_analysis: "within (same current_analyses) (read_analysis job)"
  unfolding read_analysis_def by (intro same_read_current same_calls)

lemma same_lock: "within (same current_analyses) lock_dispute"
  unfolding lock_dispute_def by (rule same_in_team)

lemma same_ensure_lease: "within (same current_analyses) (ensure_lease a t phase)"
  unfolding ensure_lease_def by (intro same_calls)

lemma same_new_lease: "within (same current_analyses) (new_lease cfg phase now)"
  unfolding new_lease_def chrono_duration_def random_lease_token_def by (intro same_calls)

lemmas reads_nothing_else = same_lock same_clock same_in_team same_read_analysis same_ensure_lease same_new_lease

text \<open>The states of a section before it writes: only the faults, the clock and the generator have moved.\<close>

definition since :: "f64 \<Rightarrow> arb_store \<Rightarrow> arb_store \<Rightarrow> bool" where
  "since th w0 w \<longleftrightarrow> arb_inv th w \<and> current_analyses w = current_analyses w0 \<and> rng_frame (arb_team w0) (arb_team w)"

lemma since_refl: "arb_inv th w \<Longrightarrow> since th w w"
  by (simp add: since_def rng_frame.frame_refl)

lemma since_elsewhere: "since th w0 w \<Longrightarrow> rng_frame (arb_team w) t \<Longrightarrow> since th w0 (w\<lparr>arb_team := t\<rparr>)"
  by (auto simp: since_def arb_inv_elsewhere intro: rng_frame.frame_trans)

lemma since_team: "within rng_frame m \<Longrightarrow> keeping (since th w0) (in_team m) (\<lambda>_. True)"
  by (rule keepingI) (auto simp: in_team_def split: prod.splits dest: withinD intro: since_elsewhere)

lemma since_clock: "keeping (since th w0) clock_now (\<lambda>_. True)"
  by (rule keepingI) (auto simp: clock_now_def since_def arb_inv_def)

lemma since_lock: "keeping (since th w0) lock_dispute (\<lambda>_. True)"
  unfolding lock_dispute_def by (intro since_team within_rng_io_call)

lemma since_read_current:
  "keeping (since th w0) (read_current_analysis d)
     (\<lambda>r. \<forall>a. r = Some a \<longrightarrow> map_of (current_analyses w0) (yaml_name d) = Some (Document a) \<and> analysis_ok th d a)"
proof -
  have read: "keeping (since th w0) (arb_read current_analyses (yaml_name d))
        (\<lambda>a. map_of (current_analyses w0) (yaml_name d) = Some (Document a) \<and> analysis_ok th d a)"
      "keeping (since th w0) (arb_read legacy_automatic_analyses n) (\<lambda>_. False)"
      "keeping (since th w0) (arb_read legacy_manual_analyses n) (\<lambda>_. False)" for n
    by (rule keeping_arb_read, erule (1) since_elsewhere; auto simp: since_def dest: arb_inv_current; simp add: arb_inv_def)+
  show ?thesis unfolding read_current_analysis_def
    by (rule keeping_bind [OF keeping_read_optional [OF read(1)]], rule keeping_option,
        rule keeping_bind [OF keeping_read_optional [OF read(2)]], rule keeping_bind [OF keeping_read_optional [OF read(3)]])
      (auto intro!: keeping_return simp: select_legacy_current_analysis_def normalize_legacy_adoption_mode_def analysis_ok_def
        split: option.splits)
qed

lemma since_read_analysis:
  "keeping (since th w0) (read_analysis job) (\<lambda>a. map_of (current_analyses w0) (yaml_name (job_dispute_id job)) = Some (Document a)
     \<and> analysis_ok th (job_dispute_id job) a \<and> analysis_id a = job_analysis_id job)"
  unfolding read_analysis_def
  by (rule keeping_bind [OF since_read_current]) (auto intro!: keeping_return keeping_throw split: option.splits)

lemma put_analysis_run:
  assumes "put_analysis a w = (Inr u, w')"
  shows "\<exists>t. rng_frame (arb_team w) t
    \<and> w' = current_analyses_update (AList.update (yaml_name (analysis_dispute_id a)) (Document a)) (w\<lparr>arb_team := t\<rparr>)"
proof -
  from assms obtain v w1 where call: "in_team io_call w = (Inr v, w1)"
    and w': "w' = current_analyses_update (AList.update (yaml_name (analysis_dispute_id a)) (Document a)) w1"
    by (auto simp: put_analysis_def io_iffs)
  have "w1 = w\<lparr>arb_team := snd (io_call (arb_team w))\<rparr>" using call by (auto simp: in_team_def split: prod.splits)
  moreover have "rng_frame (arb_team w) (snd (io_call (arb_team w)))" using within_rng_io_call by (simp add: within_def)
  ultimately show ?thesis using w' by blast
qed

lemma write_analysis_run:
  "write_analysis a w = (Inr u, w') \<Longrightarrow> validate_analysis a \<and> (\<exists>t. rng_frame (arb_team w) t
     \<and> w' = current_analyses_update (AList.update (yaml_name (analysis_dispute_id a)) (Document a)) (w\<lparr>arb_team := t\<rparr>))"
  by (auto simp: write_analysis_def io_iffs dest: put_analysis_run split: if_splits)

section \<open>Fencing\<close>

text \<open>A call that fails and leaves every analysis as it is.\<close>

definition refused :: "('a arb_io) \<Rightarrow> arb_store \<Rightarrow> bool" where
  "refused m w \<longleftrightarrow> (\<exists>e. fst (m w) = Inl e) \<and> current_analyses (snd (m w)) = current_analyses w"

definition refusing :: "(arb_store \<Rightarrow> bool) \<Rightarrow> 'a arb_io \<Rightarrow> bool" where
  "refusing I m \<longleftrightarrow> (\<forall>w. I w \<longrightarrow> refused m w)"

lemma refusing_throw: "refusing I (throw_io e)"
  by (simp add: refusing_def refused_def throw_io_def)

lemma refusing_bind:
  assumes "keeping I m P" "within (same current_analyses) m" "\<And>x. P x \<Longrightarrow> refusing I (k x)"
  shows "refusing I (bind_io m k)"
  unfolding refusing_def
proof (intro allI impI)
  fix w
  assume I: "I w"
  obtain q w1 where q: "m w = (q, w1)" by fastforce
  with assms(2) have same: "current_analyses w1 = current_analyses w" by (auto dest: within_sameD)
  show "refused (bind_io m k) w"
  proof (cases q)
    case (Inl e)
    with q same show ?thesis by (simp add: refused_def bind_io_def)
  next
    case (Inr x)
    with q I assms(1) have "P x" "I w1" by (auto dest: keeping_value keepingD)
    with assms(3) have "refused (k x) w1" by (simp add: refusing_def)
    with q Inr same show ?thesis by (simp add: refused_def bind_io_def)
  qed
qed

lemma ensure_lease_stale: "\<not> carries t a \<Longrightarrow> refusing I (bind_io (ensure_lease a t phase) k)"
  by (auto simp: ensure_lease_def carries_def refusing_throw split: option.splits)

lemma stale_calls_refused:
  "refusing (retired t) (save_proposal cfg job t p)" "refusing (retired t) (save_verification cfg job t v)"
  "refusing (retired t) (finish_failed job t code err)"
proof -
  note steps = refusing_bind [OF fenced.keeps_lock same_lock] refusing_bind [OF fenced.keeps_clock same_clock]
    refusing_bind [OF fenced.keeps_read same_read_analysis]
  show "refusing (retired t) (save_proposal cfg job t p)" "refusing (retired t) (save_verification cfg job t v)"
    unfolding save_proposal_def save_verification_def by (intro steps ensure_lease_stale; blast)+
  show "refusing (retired t) (finish_failed job t code err)"
    unfolding finish_failed_def
    by (intro steps) (auto split: option.split intro: refusing_throw ensure_lease_stale)
qed

text \<open>The token belongs to one dispute, and the generator does not produce it again.\<close>

definition sole_token :: "string \<Rightarrow> dispute_id \<Rightarrow> arb_store \<Rightarrow> bool" where
  "sole_token t d w \<longleftrightarrow> (\<forall>p \<ge> rng_pos (arb_team w). token_at (rng (arb_team w)) p \<noteq> t)
     \<and> (\<forall>n a. map_of (current_analyses w) n = Some (Document a) \<longrightarrow> carries t a \<longrightarrow> n = yaml_name d)"

lemma since_token: "keeping (since th w0) random_lease_token (\<lambda>s. \<exists>p \<ge> rng_pos (arb_team w0). s = token_at (rng (arb_team w0)) p)"
proof (rule keepingI)
  fix w r w'
  assume w: "since th w0 w" and run: "random_lease_token w = (r, w')"
  from run have r: "r = Inr (token_at (rng (arb_team w)) (rng_pos (arb_team w)))"
    and w': "w' = w\<lparr>arb_team := (arb_team w)\<lparr>rng_pos := rng_pos (arb_team w) + 4\<rparr>\<rparr>"
    by (simp_all add: random_lease_token_def in_team_def draw_hex_run token_at_def)
  have "since th w0 w'" unfolding w' by (rule since_elsewhere [OF w]) (simp add: rng_frame_def)
  with w r show "since th w0 w' \<and> (\<forall>s. r = Inr s \<longrightarrow> (\<exists>p \<ge> rng_pos (arb_team w0). s = token_at (rng (arb_team w0)) p))"
    by (auto simp: since_def rng_frame_def)
qed

lemma since_new_lease: "keeping (since th w0) (new_lease cfg phase now)
    (\<lambda>l. lease_phase l = phase \<and> (\<exists>p \<ge> rng_pos (arb_team w0). lease_token l = token_at (rng (arb_team w0)) p))"
  unfolding new_lease_def chrono_duration_def
  by (rule keeping_bind [where P = "\<lambda>_. True"]) (auto intro!: keeping_bind [OF since_token] keeping_return keeping_throw)

lemma takeover_retires:
  assumes inv: "arb_inv th w" and run: "acquire_phase cfg job phase w = (Inr (Some t'), w1)" and sole: "sole_token t (job_dispute_id job) w"
  shows "retired t w1"
proof -
  from run obtain a now l wa wb wc wd u where steps: "lock_dispute w = (Inr u, wa)" "read_analysis job wa = (Inr a, wb)"
      "clock_now wb = (Inr now, wc)" "new_lease cfg phase now wc = (Inr l, wd)"
    and wr: "write_analysis (a\<lparr>analysis_lease := Some l, analysis_updated_at := now\<rparr>) wd = (Inr (), w1)"
    by (auto simp: acquire_phase_def io_iffs split: if_splits)
  have sa: "since th w wa" by (rule keepingD [OF since_lock steps(1) since_refl [OF inv]])
  have sc: "since th w wc" by (rule keepingD [OF since_clock steps(3) keepingD [OF since_read_analysis steps(2) sa]])
  have sd: "since th w wd" by (rule keepingD [OF since_new_lease steps(4) sc])
  have a: "analysis_ok th (job_dispute_id job) a" using keeping_value [OF since_read_analysis steps(2) sa] by blast
  obtain p where p: "rng_pos (arb_team w) \<le> p" "lease_token l = token_at (rng (arb_team w)) p"
    using keeping_value [OF since_new_lease steps(4) sc] by blast
  let ?a = "a\<lparr>analysis_lease := Some l, analysis_updated_at := now\<rparr>"
  obtain tm where tm: "rng_frame (arb_team wd) tm"
    and w1: "w1 = current_analyses_update (AList.update (yaml_name (job_dispute_id job)) (Document ?a)) (wd\<lparr>arb_team := tm\<rparr>)"
    using write_analysis_run [OF wr] a by (auto simp: analysis_ok_def)
  have "lease_token l \<noteq> t" using sole p by (auto simp: sole_token_def)
  then have "\<not> carried_in t (current_analyses w1)"
    using sole sd by (auto simp: w1 carried_in_def update_conv' sole_token_def since_def carries_def split: if_splits)
  moreover have "rng_frame (arb_team w) (arb_team w1)" using sd tm by (auto simp: w1 since_def intro: rng_frame.frame_trans)
  moreover have "legacy_automatic_analyses w1 = []" "legacy_manual_analyses w1 = []" using sd by (simp_all add: w1 since_def arb_inv_def)
  ultimately show ?thesis using sole unfolding retired_def sole_token_def rng_frame_def
    by (metis carried_in_def le_trans map_of.simps(1) option.distinct(1))
qed

section \<open>What every history keeps\<close>

definition no_analyses :: "arb_store \<Rightarrow> bool" where
  "no_analyses w \<longleftrightarrow> current_analyses w = [] \<and> legacy_automatic_analyses w = [] \<and> legacy_manual_analyses w = []"

lemma no_analyses_inv: "no_analyses w \<Longrightarrow> arb_inv th w"
  by (simp add: no_analyses_def arb_inv_def)

lemma stored_ok:
  assumes "no_analyses w" "arb_reach cfg w w'" "map_of (current_analyses w') n = Some f"
  shows "\<exists>d a. n = yaml_name d \<and> f = Document a \<and> analysis_ok (cfg_threshold cfg) d a"
  using consistent.reach_keeps [OF assms(2) no_analyses_inv [OF assms(1)]] assms(3) unfolding arb_inv_def by blast

text \<open>
  Property C17.  Starting without analyses, after any sequence of reports, lease takeovers, stored or
  failed model answers, preemptions, restarts and adoption checks, in any interleaving and with any
  storage fault, every file of the analysis directory is a readable record under the name of its dispute
  that passes the record check, and its state agrees with its data: pending ones hold no context, a
  proposing or verifying one holds a lease of its phase and the data that phase needs, an approved one
  holds an answer of both models that meets the threshold and no lease.
\<close>

theorem stored_analyses_are_consistent:
  assumes "no_analyses w" "arb_reach cfg w w'" "map_of (current_analyses w') n = Some f"
  shows "\<exists>a. f = Document a \<and> n = yaml_name (analysis_dispute_id a) \<and> validate_analysis a
    \<and> (analysis_state a \<in> {Pending, WaitingContext} \<longrightarrow>
         analysis_context a = None \<and> analysis_proposal a = None \<and> analysis_verification a = None \<and> analysis_lease a = None)
    \<and> (analysis_state a = Proposing \<longrightarrow> (\<exists>l. analysis_lease a = Some l \<and> lease_phase l = ProposalPhase)
         \<and> analysis_context a \<noteq> None \<and> analysis_proposal a = None)
    \<and> (analysis_state a = Verifying \<longrightarrow> (\<exists>l. analysis_lease a = Some l \<and> lease_phase l = VerificationPhase)
         \<and> analysis_context a \<noteq> None \<and> analysis_proposal a \<noteq> None \<and> analysis_verification a = None)
    \<and> (analysis_state a = Approved \<longrightarrow> analysis_is_approved a (cfg_threshold cfg) \<and> analysis_lease a = None)
    \<and> (analysis_state a = StateUnresolved \<longrightarrow> analysis_verification a \<noteq> None
         \<and> \<not> analysis_is_approved a (cfg_threshold cfg) \<and> analysis_lease a = None)"
proof -
  obtain d a where a: "n = yaml_name d" "f = Document a" "analysis_ok (cfg_threshold cfg) d a"
    using stored_ok [OF assms] by blast
  then show ?thesis
    by (intro exI [of _ a]) (cases "analysis_state a"; auto simp: analysis_ok_def state_ok_def held_in_def phase_ready_def)
qed

text \<open>
  Property C18.  A worker that took over a phase fences the previous holder: from the takeover on, in
  every later history, no call with the old token stores a proposal, a verification or a failure; each is
  refused and changes no analysis.  The old token is one that no other dispute uses and that the
  generator does not produce a second time.
\<close>

theorem takeover_fences_the_old_worker:
  assumes "arb_inv (cfg_threshold cfg) w" and "acquire_phase cfg job phase w = (Inr (Some t'), w1)"
    and "sole_token t (job_dispute_id job) w" and "arb_reach cfg w1 w2"
  shows "refused (save_proposal cfg other t p) w2 \<and> refused (save_verification cfg other t v) w2
    \<and> refused (finish_failed other t code err) w2"
proof -
  have "retired t w2" by (rule fenced.reach_keeps [OF assms(4) takeover_retires [OF assms(1-3)]])
  then show ?thesis using stale_calls_refused unfolding refusing_def by blast
qed

lemma blocked_recheck:
  assumes "arb_inv th w" "map_of (current_analyses w) (yaml_name (job_dispute_id job)) = Some (Document a)"
    "analysis_state a \<noteq> Approved \<or> adoption_blocked_reason a \<noteq> None"
  shows "refused (recheck_adoption cfg job built reason) w"
proof -
  have read: "keeping (since th w) (read_analysis job) (\<lambda>b. b = a)"
    by (rule keeping_weaken [OF since_read_analysis]) (use assms(2) in simp)
  have disp: "keeping (since th w) (in_team (read_dispute d)) (\<lambda>_. True)" for d
    by (intro since_team within_rng_read_dispute)
  have "refusing (since th w) (recheck_adoption cfg job built reason)"
    unfolding recheck_adoption_def
    by (rule refusing_bind [OF read same_read_analysis], rule refusing_bind [OF disp same_in_team])
      (use assms(3) in \<open>auto simp: ensure_adoption_preconditions_def intro: refusing_throw\<close>)
  then show ?thesis using since_refl [OF assms(1)] by (simp add: refusing_def)
qed

text \<open>
  Property C19.  An analysis goes through at most three rounds, numbered from one, however often its
  inputs change; after the third change an approval stays for a human: every adoption check of it is
  refused.
\<close>

theorem analysis_runs_at_most_three_rounds:
  assumes "no_analyses w" "arb_reach cfg w w'" "map_of (current_analyses w') (yaml_name d) = Some (Document a)"
  shows "length (analysis_rounds a) \<le> analysis_round a \<and> analysis_round a \<le> 3
    \<and> map round_number (analysis_rounds a) = [1 ..< Suc (length (analysis_rounds a))]
    \<and> context_change_count a \<le> 3
    \<and> (context_change_count a = 3 \<longrightarrow> refused (recheck_adoption cfg \<lparr>job_dispute_id = d, job_analysis_id = i\<rparr> built reason) w')"
proof -
  have inv: "arb_inv (cfg_threshold cfg) w'" by (rule consistent.reach_keeps [OF assms(2) no_analyses_inv [OF assms(1)]])
  have ok: "analysis_ok (cfg_threshold cfg) d a" by (rule arb_inv_current [OF inv assms(3)])
  have "context_change_count a = 3 \<Longrightarrow> analysis_state a \<noteq> Approved \<or> adoption_blocked_reason a \<noteq> None"
    using ok by (auto simp: analysis_ok_def state_ok_def)
  then have "context_change_count a = 3 \<Longrightarrow> refused (recheck_adoption cfg \<lparr>job_dispute_id = d, job_analysis_id = i\<rparr> built reason) w'"
    using blocked_recheck [OF inv] assms(3) by simp
  then show ?thesis using ok ok_length [OF ok] by (simp add: analysis_ok_def rounds_numbered_def)
qed

section \<open>A completed run\<close>

definition stored :: "dispute_id \<Rightarrow> arbitration_analysis \<Rightarrow> arb_store \<Rightarrow> bool" where
  "stored d a w \<longleftrightarrow> map_of (current_analyses w) (yaml_name d) = Some (Document a)"

lemma keeping_ensure_lease: "keeping I (ensure_lease a t phase) (\<lambda>_. True)"
  unfolding ensure_lease_def by (auto split: option.split intro: keeping_return keeping_throw)

lemma ending_write:
  "analysis_dispute_id a = d \<Longrightarrow> ending I (write_analysis a) (\<lambda>_ w'. stored d a w')"
  by (auto simp: ending_def stored_def update_conv' dest!: write_analysis_run)

lemma since_read_dispute: "keeping (since th w0) (in_team (read_dispute d)) (\<lambda>_. True)"
  by (intro since_team within_rng_read_dispute)

lemma proposal_is_stored:
  "ending (since th w) (save_proposal cfg job t p) (\<lambda>t' w'. \<exists>a b. stored (job_dispute_id job) a w
     \<and> stored (job_dispute_id job) b w' \<and> analysis_context b = analysis_context a \<and> analysis_proposal b = Some p)"
  unfolding save_proposal_def
proof (rule ending_bind [OF since_lock], rule ending_bind [OF since_clock], rule ending_bind [OF since_read_analysis],
    rule ending_bind [OF keeping_ensure_lease], rule ending_bind [OF since_read_dispute], rule ending_if)
  fix now a l r
  let ?d = "job_dispute_id job"
  assume a: "map_of (current_analyses w) (yaml_name ?d) = Some (Document a)
    \<and> analysis_ok th ?d a \<and> analysis_id a = job_analysis_id job"
  have "ending (since th w) (write_analysis b) (\<lambda>_ w'. \<exists>a b. stored ?d a w \<and> stored ?d b w'
       \<and> analysis_context b = analysis_context a \<and> analysis_proposal b = Some p)"
    if "analysis_dispute_id b = analysis_dispute_id a" "analysis_context b = analysis_context a" "analysis_proposal b = Some p" for b
    using ending_write [of b ?d "since th w"] that a unfolding ending_def stored_def analysis_ok_def by metis
  then show "ending (since th w) (bind_io (new_lease cfg VerificationPhase now) (\<lambda>l.
       bind_io (write_analysis (a\<lparr>analysis_proposal := Some p, analysis_state := Verifying,
           analysis_lease := Some (l\<lparr>lease_token := t\<rparr>), analysis_updated_at := now\<rparr>)) (\<lambda>_. return_io t)))
     (\<lambda>t' w'. \<exists>a b. stored ?d a w \<and> stored ?d b w' \<and> analysis_context b = analysis_context a \<and> analysis_proposal b = Some p)"
    by (intro ending_bind [OF since_new_lease] ending_bind_return) simp
qed (rule ending_bind_throw)

lemma verification_is_stored:
  "ending (since th w) (save_verification cfg job t v) (\<lambda>_ w'. \<exists>a now. stored (job_dispute_id job) a w
     \<and> analysis_id a = job_analysis_id job \<and> stored (job_dispute_id job) (verified_analysis cfg now v a) w')"
  unfolding save_verification_def
proof (rule ending_bind [OF since_lock], rule ending_bind [OF since_clock], rule ending_bind [OF since_read_analysis],
    rule ending_bind [OF keeping_ensure_lease])
  fix now a
  let ?d = "job_dispute_id job"
  assume a: "map_of (current_analyses w) (yaml_name ?d) = Some (Document a)
    \<and> analysis_ok th ?d a \<and> analysis_id a = job_analysis_id job"
  then have "analysis_dispute_id (verified_analysis cfg now v a) = ?d" by (simp add: verified_analysis_def analysis_ok_def Let_def)
  from ending_write [OF this, of "since th w"] show "ending (since th w) (write_analysis (verified_analysis cfg now v a)) (\<lambda>_ w'. \<exists>a now. stored ?d a w
     \<and> analysis_id a = job_analysis_id job \<and> stored ?d (verified_analysis cfg now v a) w')"
    using a unfolding ending_def stored_def by metis
qed

lemma verified_fields:
  "analysis_id (verified_analysis cfg now v a) = analysis_id a" "analysis_context (verified_analysis cfg now v a) = analysis_context a"
  "analysis_proposal (verified_analysis cfg now v a) = analysis_proposal a" "analysis_verification (verified_analysis cfg now v a) = Some v"
  "analysis_lease (verified_analysis cfg now v a) = None"
  "analysis_state (verified_analysis cfg now v a)
     = (if analysis_is_approved (verified_analysis cfg now v a) (cfg_threshold cfg) then Approved else StateUnresolved)"
  by (simp_all add: verified_analysis_def Let_def analysis_is_approved_def split: option.split)

lemma completed_verification:
  assumes inv: "arb_inv th w" and run: "run_verification cfg llm job t w = (Inr True, w')"
  shows "\<exists>a v ctx p now. stored (job_dispute_id job) a w \<and> analysis_id a = job_analysis_id job
    \<and> analysis_context a = Some ctx \<and> analysis_proposal a = Some p \<and> verify llm ctx p = Answer v
    \<and> validate_verification ctx p v \<and> stored (job_dispute_id job) (verified_analysis cfg now v a) w'"
proof -
  from run obtain a w1 ctx p v where read: "read_analysis job w = (Inr a, w1)" and ctx: "analysis_context a = Some ctx"
      and p: "analysis_proposal a = Some p" and v: "verify llm ctx p = Answer v" "validate_verification ctx p v"
      and save: "save_verification cfg job t v w1 = (Inr (), w')"
    unfolding run_verification_def
    by (elim bind_io_InrE) (auto elim!: bind_io_InrE split: option.splits model_answer.splits if_splits)
  have "stored (job_dispute_id job) a w" "analysis_id a = job_analysis_id job"
    using keeping_value [OF since_read_analysis read since_refl [OF inv]] by (auto simp: stored_def)
  moreover obtain a' now where "stored (job_dispute_id job) a' w" "stored (job_dispute_id job) (verified_analysis cfg now v a') w'"
    using endingD [OF verification_is_stored save keepingD [OF since_read_analysis read since_refl [OF inv]]] by blast
  ultimately show ?thesis using ctx p v by (auto simp: stored_def)
qed

lemma approved_iff:
  assumes "analysis_proposal a = Some p" "analysis_verification a = Some v"
  shows "analysis_is_approved a th \<longleftrightarrow>
     proposed_type p \<noteq> Unresolved \<and> f64_le th (proposal_confidence p) \<and> f64_le th (verification_confidence v)
     \<and> verdict v = Approve \<and> resolution_type_agreed v \<and> resolution_basis_agreed v \<and> conclusion_agreed v
     \<and> list_all agreed (verified_assessments v)"
  using assms by (simp add: analysis_is_approved_def is_resolved_def split: resolution_type.split)

text \<open>What the checks of the two answers promise.\<close>

lemma checked_proposal:
  assumes "validate_proposal ctx p"
  shows "f64_is_finite (proposal_confidence p)" "f64_le (Num 0 0) (proposal_confidence p)" "f64_le (proposal_confidence p) (Num 1 0)"
    "distinct (evidence_refs p)" "set (evidence_refs p) \<subseteq> set (visible_evidence_ids ctx)"
    "(as_str \<circ> claim_id) ` set (direct_claims ctx) \<subseteq> set (evidence_refs p)"
    "proposed_type p \<noteq> Unresolved \<Longrightarrow> distinct (map assessed_claim_id (proposed_assessments p))"
    "proposed_type p \<noteq> Unresolved \<Longrightarrow> assessed_claim_id ` set (proposed_assessments p) = claim_id ` set (direct_claims ctx)"
  using assms
  by (auto simp: validate_proposal_def validate_assessments_def confidence_in_range_def Let_def list_all_iff split: if_splits)

lemma checked_verification:
  assumes "validate_verification ctx p v"
  shows "f64_is_finite (verification_confidence v)" "f64_le (Num 0 0) (verification_confidence v)"
    "f64_le (verification_confidence v) (Num 1 0)"
    "verdict v \<noteq> VerdictUnresolved \<Longrightarrow> distinct (map verified_claim_id (verified_assessments v))"
    "verdict v \<noteq> VerdictUnresolved \<Longrightarrow> verified_claim_id ` set (verified_assessments v) = claim_id ` set (direct_claims ctx)"
  using assms by (auto simp: validate_verification_def confidence_in_range_def)

text \<open>
  Property C20.  A worker that runs both phases to the end, without another worker in between, stores what the
  models answered for the frozen context of the analysis, and no lease.  Both confidences are numbers between 0 and 1; the
  proposal cites every disputed claim and only evidence the context shows; a proposal that resolves the dispute assesses
  every disputed claim once, and a verdict other than unresolved verifies every one of them once.  The state is
  \<open>Approved\<close> exactly when the proposal resolves the dispute, the confidences of both models reach the threshold, the
  verifier approves, and it agrees with the type, the basis, the conclusion and every single assessment; otherwise it is
  \<open>Unresolved\<close>.
\<close>

theorem completed_run_stores_checked_answers:
  assumes inv: "arb_inv (cfg_threshold cfg) w" and run: "run_proposal cfg llm job t w = (Inr True, w')"
  shows "\<exists>a ctx p v. stored (job_dispute_id job) a w' \<and> analysis_id a = job_analysis_id job
    \<and> analysis_context a = Some ctx \<and> propose llm ctx = Answer p \<and> verify llm ctx p = Answer v
    \<and> analysis_proposal a = Some p \<and> analysis_verification a = Some v \<and> analysis_lease a = None
    \<and> f64_is_finite (proposal_confidence p) \<and> f64_le (Num 0 0) (proposal_confidence p) \<and> f64_le (proposal_confidence p) (Num 1 0)
    \<and> f64_is_finite (verification_confidence v) \<and> f64_le (Num 0 0) (verification_confidence v) \<and> f64_le (verification_confidence v) (Num 1 0)
    \<and> distinct (evidence_refs p) \<and> set (evidence_refs p) \<subseteq> set (visible_evidence_ids ctx)
    \<and> (as_str \<circ> claim_id) ` set (direct_claims ctx) \<subseteq> set (evidence_refs p)
    \<and> (proposed_type p \<noteq> Unresolved \<longrightarrow> distinct (map assessed_claim_id (proposed_assessments p))
         \<and> assessed_claim_id ` set (proposed_assessments p) = claim_id ` set (direct_claims ctx))
    \<and> (verdict v \<noteq> VerdictUnresolved \<longrightarrow> distinct (map verified_claim_id (verified_assessments v))
         \<and> verified_claim_id ` set (verified_assessments v) = claim_id ` set (direct_claims ctx))
    \<and> analysis_state a =
        (if proposed_type p \<noteq> Unresolved
            \<and> f64_le (cfg_threshold cfg) (proposal_confidence p) \<and> f64_le (cfg_threshold cfg) (verification_confidence v)
            \<and> verdict v = Approve \<and> resolution_type_agreed v \<and> resolution_basis_agreed v \<and> conclusion_agreed v
            \<and> list_all agreed (verified_assessments v)
         then Approved else StateUnresolved)"
proof -
  let ?d = "job_dispute_id job"
  from run obtain a w1 ctx p t' w2 where read: "read_analysis job w = (Inr a, w1)" and ctx: "analysis_context a = Some ctx"
      and p: "propose llm ctx = Answer p" "validate_proposal ctx p"
      and save: "save_proposal cfg job t p w1 = (Inr t', w2)" and rest: "run_verification cfg llm job t' w2 = (Inr True, w')"
    unfolding run_proposal_def
    by (elim bind_io_InrE) (auto elim!: bind_io_InrE split: option.splits model_answer.splits if_splits)
  have w1: "since (cfg_threshold cfg) w w1" by (rule keepingD [OF since_read_analysis read since_refl [OF inv]])
  have a: "stored ?d a w" using keeping_value [OF since_read_analysis read since_refl [OF inv]] by (simp add: stored_def)
  obtain b where b: "stored ?d b w2" "analysis_context b = Some ctx" "analysis_proposal b = Some p"
    using endingD [OF proposal_is_stored save w1] a ctx by (auto simp: stored_def)
  have "arb_inv (cfg_threshold cfg) w1" using w1 by (simp add: since_def)
  then have w2: "arb_inv (cfg_threshold cfg) w2" by (rule keepingD [OF consistent.keeps_proposal save])
  obtain v now where v: "analysis_id b = job_analysis_id job" "verify llm ctx p = Answer v" "validate_verification ctx p v"
      "stored ?d (verified_analysis cfg now v b) w'"
    using completed_verification [OF w2 rest] b by (auto simp: stored_def)
  let ?a = "verified_analysis cfg now v b"
  have fields: "analysis_id ?a = job_analysis_id job" "analysis_context ?a = Some ctx" "analysis_proposal ?a = Some p"
      "analysis_verification ?a = Some v" "analysis_lease ?a = None"
    using v(1) b by (simp_all add: verified_fields)
  note state = verified_fields(6) [of cfg now v b, unfolded approved_iff [OF fields(3,4)]]
  show ?thesis
    by (rule exI [of _ ?a], rule exI [of _ ctx], rule exI [of _ p], rule exI [of _ v])
      (intro conjI impI fields state v(2,4) p(1) checked_proposal [OF p(2)] checked_verification [OF v(3)])
qed

section \<open>Repeated reports\<close>

lemma since_current:
  assumes "stored d a w0" "arb_inv th w0"
  shows "keeping (since th w0) (read_current_analysis d) (\<lambda>r. r = Some a)"
proof -
  have a: "legacy_source a = LegacyAutomatic"
    using arb_inv_current [OF assms(2)] assms(1) by (simp add: stored_def analysis_ok_def)
  have "keeping (since th w0) (read_optional_yaml current_analyses (yaml_name d)) (\<lambda>r. r = Some a)"
  proof (rule keepingI)
    fix w r w'
    assume w: "since th w0 w" and run: "read_optional_yaml current_analyses (yaml_name d) w = (r, w')"
    have doc: "map_of (current_analyses w) (yaml_name d) = Some (Document a)" using w assms(1) by (simp add: since_def stored_def)
    obtain q t where q: "io_call (arb_team w) = (q, t)" by fastforce
    then have "q = Inr () \<or> q = Inl IoError" by (auto simp: io_call_def split: list.splits if_splits)
    with run q doc have "w' = w\<lparr>arb_team := t\<rparr> \<and> (r = Inr (Some a) \<or> (\<exists>e. r = Inl e))"
      by (auto simp: read_optional_yaml_def arb_read_def in_team_def bind_io_def attempt_io_def get_io_def lift_sum_def
          decode_file_def return_io_def throw_io_def)
    moreover have "since th w0 (w\<lparr>arb_team := t\<rparr>)"
      using since_elsewhere [OF w] within_rng_io_call q by (auto dest: withinD)
    ultimately show "since th w0 w' \<and> (\<forall>x. r = Inr x \<longrightarrow> x = Some a)" by auto
  qed
  then show ?thesis unfolding read_current_analysis_def
    by (rule keeping_bind) (use a in \<open>auto intro!: keeping_return simp: normalize_legacy_adoption_mode_def\<close>)
qed

lemma keeping_read_not_found:
  "keeping I (in_team (read_dispute d)) (\<lambda>_. True) \<Longrightarrow> keeping I (attempt_io (in_team (read_dispute d))) (\<lambda>_. True)"
  by (rule keeping_any [OF keeping_attempt])

lemma since_record: "keeping (since th w0) (record_report d) (\<lambda>_. True)"
  unfolding record_report_def by (intro since_team within_rng_write_dispute)

text \<open>A report of a dispute with a stored analysis that is not running yet answers with that analysis.\<close>

lemma report_answers_stored:
  assumes "stored (dispute_id d) a w0" "arb_inv th w0" "analysis_state a = Pending" "cfg_mode cfg \<noteq> Manual"
  shows "keeping (since th w0) (report_dispute_analysis cfg d) (\<lambda>r. report_analysis r = Some a \<and> should_enqueue r)"
proof -
  note current = since_current [OF assms(1,2)]
  have known: "keeping (since th w0) (report_known_dispute cfg x d) (\<lambda>r. report_analysis r = Some a \<and> should_enqueue r)" for x
    unfolding report_known_dispute_def
    by (intro keeping_if keeping_throw keeping_bind [OF current] keeping_return) (use assms(3,4) in simp)
  have new: "keeping (since th w0) (report_new_analysed cfg d) (\<lambda>r. report_analysis r = Some a \<and> should_enqueue r)"
    unfolding report_new_analysed_def
    by (rule keeping_bind [where P = "\<lambda>x. x = a"], rule keeping_bind [OF current])
      (auto intro!: keeping_throw keeping_return keeping_bind [OF since_record] keeping_if)
  show ?thesis unfolding report_dispute_analysis_def
    by (intro keeping_sum keeping_throw keeping_bind [OF since_lock] keeping_bind [OF keeping_attempt [OF since_read_dispute]])
      (use assms(4) in \<open>auto split: sum.split arb_error.split team_error.split intro: keeping_throw known new
        keeping_bind [OF since_team [OF within_rng_validate_new]]\<close>)
qed

text \<open>The directory of analyses while a report runs: as it was, or with a new analysis of this report.\<close>

definition reported_into :: "arbitration_analysis dir \<Rightarrow> dispute \<Rightarrow> arb_store \<Rightarrow> bool" where
  "reported_into c d w \<longleftrightarrow> current_analyses w = c \<or>
     (\<exists>a. analysis_state a = Pending \<and> report_snapshot a = Some d
        \<and> current_analyses w = AList.update (yaml_name (dispute_id d)) (Document a) c)"

lemma reported_same: "within (same current_analyses) m \<Longrightarrow> keeping (reported_into c d) m (\<lambda>_. True)"
  unfolding keeping_def reported_into_def by (metis within_sameD)

lemma reported_put:
  assumes "analysis_state a = Pending" "report_snapshot a = Some d" "analysis_dispute_id a = dispute_id d"
  shows "keeping (reported_into c d) (put_analysis a) (\<lambda>_. True)"
proof -
  have "keeping (reported_into c d) (modify_io (current_analyses_update (AList.update (yaml_name (analysis_dispute_id a)) (Document a)))) (\<lambda>_. True)"
    by (rule keepingI) (use assms in \<open>auto simp: reported_into_def update_last\<close>)
  then show ?thesis unfolding put_analysis_def by (intro keeping_bind [OF reported_same [OF same_in_team]])
qed

lemma reported_new:
  "keeping (reported_into c d) (new_analysis cfg i) (\<lambda>a. analysis_state a = Pending \<and> analysis_dispute_id a = i)"
  unfolding new_analysis_def random_analysis_id_def
  by (intro keeping_bind [OF reported_same [OF same_clock]] keeping_bind [where P = "\<lambda>_. True"]
      keeping_bind [OF reported_same [OF same_in_team]] keeping_return) auto

lemma reported_report: "keeping (reported_into c d) (report_dispute_analysis cfg d) (\<lambda>_. True)"
proof -
  note same = reported_same [OF same_lock] reported_same [OF same_in_team] reported_same [OF same_read_current]
  have entry: "keeping (reported_into c d) (record_report d) (\<lambda>_. True)" unfolding record_report_def by (rule same(2))
  have known: "keeping (reported_into c d) (report_known_dispute cfg x d) (\<lambda>_. True)" for x
    unfolding report_known_dispute_def by (intro keeping_if keeping_throw keeping_bind [OF same(3)] keeping_return TrueI)
  have manual: "keeping (reported_into c d) (report_new_manual d) (\<lambda>_. True)"
    unfolding report_new_manual_def
    by (intro keeping_if keeping_throw keeping_bind [OF same(3)] keeping_bind [OF entry] keeping_return TrueI)
  have read: "keeping (reported_into c d) (attempt_io (arb_read current_analyses n)) (\<lambda>_. True)" for n
    unfolding arb_read_def by (intro reported_same same_calls)
  have create: "keeping (reported_into c d) (create_report_analysis (a\<lparr>report_snapshot := Some d\<rparr>)) (\<lambda>_. True)"
    if "analysis_state a = Pending \<and> analysis_dispute_id a = dispute_id d" for a
    unfolding create_report_analysis_def
    by (rule keeping_bind [OF read])
      (use that in \<open>auto split: sum.split arb_error.split team_error.split intro: keeping_return keeping_throw reported_put\<close>)
  have new: "keeping (reported_into c d) (report_new_analysed cfg d) (\<lambda>_. True)"
    unfolding report_new_analysed_def Let_def
    by (rule keeping_bind [where P = "\<lambda>_. True"], rule keeping_bind [OF same(3)])
      (auto intro!: keeping_throw keeping_return keeping_bind [OF entry] keeping_bind [OF reported_new] keeping_bind [OF create]
        split: option.split)
  show ?thesis unfolding report_dispute_analysis_def
    by (intro keeping_sum keeping_throw keeping_bind [OF same(1)] keeping_bind [OF keeping_any [OF keeping_attempt [OF same(2)]]])
      (auto split: sum.split arb_error.split team_error.split intro: keeping_throw known manual new keeping_bind [OF same(2)])
qed

text \<open>A section that has changed nothing yet.\<close>

definition untouched_since :: "f64 \<Rightarrow> arb_store \<Rightarrow> arb_store \<Rightarrow> bool" where
  "untouched_since th w0 w \<longleftrightarrow> since th w0 w \<and> disputes (arb_team w) = disputes (arb_team w0)"

lemma same_disputes_in_team: "within (same disputes) m \<Longrightarrow> within (same (\<lambda>w. disputes (arb_team w))) (in_team m)"
  by (rule withinI) (auto simp: in_team_def same_def split: prod.splits dest: within_sameD)

lemma same_disputes_read_optional: "within (same (\<lambda>w. disputes (arb_team w))) (read_optional_yaml get n)"
  unfolding read_optional_yaml_def arb_read_def lift_sum_def
  by (intro same_disputes_in_team disputes_dir.within_reads same.within_intros)
    (auto split: arb_error.split team_error.split intro: same.within_intros)

lemma same_disputes_read_current: "within (same (\<lambda>w. disputes (arb_team w))) (read_current_analysis d)"
  unfolding read_current_analysis_def by (intro same_disputes_read_optional same.within_intros)

lemma keeping_untouched:
  assumes "keeping (since th w0) m P" "within (same (\<lambda>w. disputes (arb_team w))) m"
  shows "keeping (untouched_since th w0) m P"
  unfolding keeping_def untouched_since_def
  using assms by (metis (no_types, lifting) keepingD keeping_value within_sameD)

lemma in_team_Inr_iff: "in_team m w = (Inr x, w') \<longleftrightarrow> (\<exists>t. m (arb_team w) = (Inr x, t) \<and> w' = w\<lparr>arb_team := t\<rparr>)"
proof -
  obtain r t where "m (arb_team w) = (r, t)" by fastforce
  then show ?thesis by (cases r) (auto simp: in_team_def)
qed

lemma untouched_read_dispute:
  "keeping (untouched_since th w0) (in_team (read_dispute d))
     (\<lambda>x. map_of (disputes (arb_team w0)) (yaml_name d) = Some (Document x))"
proof (rule keepingI)
  fix w r w'
  assume w: "untouched_since th w0 w" and run: "in_team (read_dispute d) w = (r, w')"
  have "keeping (untouched_since th w0) (in_team (read_dispute d)) (\<lambda>_. True)"
    by (intro keeping_untouched since_read_dispute same_disputes_in_team)
      (simp add: read_dispute_def disputes_dir.within_read_yaml)
  then have "untouched_since th w0 w'" using run w by (rule keepingD)
  moreover have "map_of (disputes (arb_team w0)) (yaml_name d) = Some (Document x)" if "r = Inr x" for x
    using run w that by (auto simp: in_team_Inr_iff read_dispute_def untouched_since_def dest!: disputes_dir.read_yaml_ok)
  ultimately show "untouched_since th w0 w' \<and> (\<forall>x. r = Inr x \<longrightarrow> map_of (disputes (arb_team w0)) (yaml_name d) = Some (Document x))"
    by blast
qed

text \<open>A report that succeeds leaves the record of the dispute: the one it found, with this content, or its own.\<close>

lemma recorded_report:
  assumes "record_report d w = (Inr u, w')"
  shows "map_of (disputes (arb_team w')) (yaml_name (dispute_id d)) = Some (Document \<lparr>record_dispute = d, record_resolution = None\<rparr>)"
proof -
  from assms obtain t where t: "write_dispute \<lparr>record_dispute = d, record_resolution = None\<rparr> (arb_team w) = (Inr u, t)"
      "w' = w\<lparr>arb_team := t\<rparr>"
    by (auto simp: record_report_def in_team_Inr_iff)
  then have "write_yaml_atomic disputes_update (yaml_name (dispute_id d)) \<lparr>record_dispute = d, record_resolution = None\<rparr> (arb_team w)
      = (Inr u, t)"
    by (simp add: write_dispute_def throw_io_def split: if_splits)
  then show ?thesis using t(2) by (cases rule: disputes_dir.write_yaml_atomic_cases) (simp_all add: update_conv')
qed

lemma report_leaves_record:
  assumes run: "report_dispute_analysis cfg d w = (Inr r, w')"
  shows "\<exists>x. map_of (disputes (arb_team w')) (yaml_name (dispute_id d)) = Some (Document x) \<and> same_report_payload (record_dispute x) d
     \<and> (map_of (disputes (arb_team w)) (yaml_name (dispute_id d)) = None \<longrightarrow> x = \<lparr>record_dispute = d, record_resolution = None\<rparr>)"
proof -
  have refl: "same_report_payload d d" by (simp add: same_report_payload_def)
  let ?k = "\<lambda>q. case q of Inr existing \<Rightarrow> report_known_dispute cfg existing d
      | Inl (TeamError (NotFound _)) \<Rightarrow> bind_io (in_team (validate_new_dispute_direct_claims d)) (\<lambda>_.
          if cfg_mode cfg = Manual then report_new_manual d else report_new_analysed cfg d)
      | Inl e \<Rightarrow> throw_io e"
  have "bind_io lock_dispute (\<lambda>_. bind_io (attempt_io (in_team (read_dispute (dispute_id d)))) ?k) w = (Inr r, w')"
  proof (cases "validate_agent_report d")
    case (Inl e)
    with run show ?thesis by (simp add: report_dispute_analysis_def throw_io_def)
  next
    case (Inr u)
    with run show ?thesis by (simp only: report_dispute_analysis_def sum.case)
  qed
  then obtain u w1 q w2 where lock: "lock_dispute w = (Inr u, w1)"
      and read: "attempt_io (in_team (read_dispute (dispute_id d))) w1 = (Inr q :: arb_error + _, w2)" and rest: "?k q w2 = (Inr r, w')"
    by (elim bind_io_InrE) blast
  show ?thesis
  proof (cases q)
    case (Inr x)
    have "disputes (arb_team w1) = disputes (arb_team w)"
      using within_sameD [OF same_disputes_in_team [OF disputes_dir.within_io_call]] lock by (simp add: lock_dispute_def)
    moreover have "read_dispute (dispute_id d) (arb_team w1) = (Inr x, arb_team w2)"
      using read Inr by (auto simp: attempt_io_def in_team_Inr_iff split: prod.splits)
    ultimately have x: "map_of (disputes (arb_team w)) (yaml_name (dispute_id d)) = Some (Document x)"
        "disputes (arb_team w2) = disputes (arb_team w)"
      using read_dispute_outcome [of "dispute_id d" "arb_team w1"] by auto
    moreover have "same_report_payload (record_dispute x) d" "disputes (arb_team w') = disputes (arb_team w2)"
      using rest Inr within_sameD [OF same_disputes_read_current]
      by (auto simp: report_known_dispute_def throw_io_def return_io_def elim!: bind_io_InrE split: if_splits)
    ultimately show ?thesis by simp
  next
    case (Inl e)
    from rest Inl obtain w3 u w4 where "record_report d w3 = (Inr u, w4)" "w' = w4"
      by (auto simp: throw_io_def return_io_def report_new_manual_def report_new_analysed_def
          elim!: bind_io_InrE split: arb_error.splits team_error.splits if_splits)
    with recorded_report [of d w3] refl show ?thesis by simp
  qed
qed

text \<open>
  Property C21.  A report that failed halfway can be repeated.  The next successful report of the same dispute, in any
  later consistent state in which this dispute's analysis has not been touched, leaves the record of the dispute: the one
  somebody else has stored meanwhile, if it has the reported content, or the open record of this very report.  And if the
  failed attempt changed the analysis directory at all, it left a pending analysis of this report; the repetition answers
  with that analysis, asks to queue it, and creates no second one.
\<close>

theorem interrupted_report_is_completed:
  assumes inv: "arb_inv (cfg_threshold cfg) w" and mode: "cfg_mode cfg \<noteq> Manual"
    and fails: "report_dispute_analysis cfg d w = (Inl e, w1)"
    and later: "arb_inv (cfg_threshold cfg) w2"
      "map_of (current_analyses w2) (yaml_name (dispute_id d)) = map_of (current_analyses w1) (yaml_name (dispute_id d))"
    and again: "report_dispute_analysis cfg d w2 = (Inr r, w3)"
  shows "(\<exists>x. map_of (disputes (arb_team w3)) (yaml_name (dispute_id d)) = Some (Document x)
        \<and> same_report_payload (record_dispute x) d
        \<and> (map_of (disputes (arb_team w2)) (yaml_name (dispute_id d)) = None \<longrightarrow>
             x = \<lparr>record_dispute = d, record_resolution = None\<rparr>))
    \<and> (current_analyses w1 = current_analyses w \<or>
       (\<exists>a. stored (dispute_id d) a w1 \<and> report_snapshot a = Some d \<and> analysis_state a = Pending
          \<and> report_analysis r = Some a \<and> should_enqueue r
          \<and> stored (dispute_id d) a w3 \<and> current_analyses w3 = current_analyses w2))"
proof (rule conjI [OF report_leaves_record [OF again]])
  have "reported_into (current_analyses w) d w1"
    by (rule keepingD [OF reported_report fails]) (simp add: reported_into_def)
  then consider "current_analyses w1 = current_analyses w"
    | a where "analysis_state a = Pending" "report_snapshot a = Some d" "stored (dispute_id d) a w1"
    by (auto simp: reported_into_def stored_def update_conv')
  then show "current_analyses w1 = current_analyses w \<or>
       (\<exists>a. stored (dispute_id d) a w1 \<and> report_snapshot a = Some d \<and> analysis_state a = Pending
          \<and> report_analysis r = Some a \<and> should_enqueue r
          \<and> stored (dispute_id d) a w3 \<and> current_analyses w3 = current_analyses w2)"
  proof cases
    case (2 a)
    then have a2: "stored (dispute_id d) a w2" using later(2) by (simp add: stored_def)
    from report_answers_stored [OF this later(1) 2(1) mode] again have
      "report_analysis r = Some a \<and> should_enqueue r" "since (cfg_threshold cfg) w2 w3"
      using since_refl [OF later(1)] by (auto dest: keeping_value keepingD)
    with 2 a2 show ?thesis by (auto simp: since_def stored_def)
  qed simp
qed

text \<open>
  While an analysis of another report is stored for a dispute, and no record of the
  dispute has the reported content, every report fails and changes neither the analyses nor the
  disputes: a half-finished report is never taken over by a different one.
\<close>

theorem conflicting_report_is_refused:
  assumes inv: "arb_inv th w" and a: "stored (dispute_id d) a w" and other: "\<not> same_report a d"
    and records: "\<And>x. map_of (disputes (arb_team w)) (yaml_name (dispute_id d)) = Some (Document x) \<Longrightarrow>
      \<not> same_report_payload (record_dispute x) d"
  shows "\<exists>e w'. report_dispute_analysis cfg d w = (Inl e, w') \<and> current_analyses w' = current_analyses w
    \<and> disputes (arb_team w') = disputes (arb_team w)"
proof -
  let ?K = "untouched_since th w"
  note current = keeping_untouched [OF since_current [OF a inv] same_disputes_read_current]
  have known: "keeping ?K (report_known_dispute cfg x d) (\<lambda>_. False)" if "\<not> same_report_payload (record_dispute x) d" for x
    using that by (simp add: report_known_dispute_def keeping_throw)
  have new: "keeping ?K (report_new_analysed cfg d) (\<lambda>_. False)" unfolding report_new_analysed_def
    by (rule keeping_bind [where P = "\<lambda>_. False"], rule keeping_bind [OF current]) (use other in \<open>auto intro: keeping_throw\<close>)
  have manual: "keeping ?K (report_new_manual d) (\<lambda>_. False)" unfolding report_new_manual_def
    by (rule keeping_bind [OF current]) (use other in \<open>auto intro: keeping_throw\<close>)
  have lock: "keeping ?K lock_dispute (\<lambda>_. True)"
    by (rule keeping_untouched [OF since_lock]) (simp add: lock_dispute_def same_disputes_in_team disputes_dir.within_io_call)
  have valid: "keeping ?K (in_team (validate_new_dispute_direct_claims d)) (\<lambda>_. True)"
    by (intro keeping_untouched since_team within_rng_validate_new same_disputes_in_team validate_claims_disputes)
  have "keeping ?K (report_dispute_analysis cfg d) (\<lambda>_. False)" unfolding report_dispute_analysis_def
    by (intro keeping_sum keeping_throw keeping_bind [OF lock] keeping_bind [OF keeping_attempt [OF untouched_read_dispute]])
      (auto split: sum.split arb_error.split team_error.split intro: keeping_throw known new manual
        intro!: keeping_bind [OF valid] dest: records)
  moreover have "?K w" using since_refl [OF inv] by (simp add: untouched_since_def)
  moreover obtain r w' where "report_dispute_analysis cfg d w = (r, w')" by fastforce
  ultimately show ?thesis
    by (cases r) (auto simp: untouched_since_def since_def dest: keeping_value keepingD)
qed

end
