(* ===== verification/Resolution_Properties.thy ===== *)
theory Resolution_Properties
  imports Resolution Arbitration_Properties
begin

text \<open>
  The promises of the resolution service: a human resolution is final, and a commit that was interrupted
  is completed from its pending delivery.
\<close>

section \<open>What the calls leave alone\<close>

abbreviation disputes_of :: "res_store \<Rightarrow> maintainer_dispute_record dir" where
  "disputes_of w \<equiv> disputes (team_of w)"

interpretation disputes_by_outbox: untouched disputes outbox_update
  by unfold_locales auto

interpretation disputes_by_policies: untouched disputes policies_update
  by unfold_locales auto

text \<open>
  An observation of the store, and the part of the team store it depends on: the calls that only read
  leave it alone.
\<close>

locale reading_calls = observation g for g :: "team_store \<Rightarrow> 'c" +
  fixes f :: "res_store \<Rightarrow> 'b"
  assumes f_arb: "g (arb_team a) = g (team_of w) \<Longrightarrow> f (w\<lparr>res_arb := a\<rparr>) = f w"
begin

lemma quiet_arb: "within (same (\<lambda>w. g (arb_team w))) m \<Longrightarrow> within (same f) (in_arb m)"
  by (rule withinI) (auto simp: in_arb_def same_def f_arb split: prod.splits dest: within_sameD)

lemma quiet_in_team: "within (same g) m \<Longrightarrow> within (same (\<lambda>w. g (arb_team w))) (in_team m)"
  by (rule withinI) (auto simp: in_team_def same_def split: prod.splits dest: within_sameD)

lemmas quiet_team = quiet_in_team [THEN quiet_arb]

lemma arb_quiet_read_current: "within (same (\<lambda>w. g (arb_team w))) (read_current_analysis d)"
  unfolding read_current_analysis_def read_optional_yaml_def arb_read_def lift_sum_def
  by (intro same.within_intros quiet_in_team within_io_call)
    (auto split: arb_error.split team_error.split intro: same.within_intros)

lemma arb_quiet_write: "within (same (\<lambda>w. g (arb_team w))) (write_analysis a)"
  unfolding write_analysis_def put_analysis_def
  by (intro same.within_intros quiet_in_team within_io_call same.within_modify) (simp add: same_def)

lemma quiet_lock: "within (same f) (in_arb lock_dispute)"
  unfolding lock_dispute_def by (rule quiet_team [OF within_io_call])

lemma quiet_preempt: "within (same f) (preempt_current_analysis_locked i now)"
  unfolding preempt_current_analysis_locked_def
  by (intro same.within_intros quiet_arb arb_quiet_read_current arb_quiet_write)

lemmas quiet_intros = same.within_intros within_io_call [THEN quiet_team]

lemma quiet_lift_sum: "within (same f) (lift_sum r)"
  unfolding lift_sum_def by (intro same.within_intros)

lemma quiet_read: "within (same f) (res_read get n)"
  unfolding res_read_def by (intro quiet_intros quiet_lift_sum)

lemma quiet_read_optional: "within (same f) (res_read_optional get n)"
  unfolding res_read_optional_def
  by (intro quiet_intros quiet_read) (auto split: res_error.split arb_error.split team_error.split intro: quiet_intros)

lemma quiet_read_listed: "within (same f) (read_listed d out)"
  by (induction d out rule: read_listed.induct) (auto intro!: quiet_intros quiet_lift_sum)

lemma quiet_list_yaml: "within (same f) (list_yaml get)"
  unfolding list_yaml_def by (intro quiet_intros quiet_team [OF within_io_ok] quiet_read_listed)

lemma quiet_read_current: "within (same f) (read_current_resolution_record i)"
  unfolding read_current_resolution_record_def by (rule quiet_read_optional)

lemma quiet_read_pending: "within (same f) (read_pending_delivery rid)"
  unfolding read_pending_delivery_def by (rule quiet_read_optional)

lemma quiet_list_pending: "within (same f) list_pending_deliveries"
  unfolding list_pending_deliveries_def by (rule quiet_list_yaml)

lemma quiet_read_resolution: "within (same f) (read_resolution_record i rid)"
  unfolding read_resolution_record_def
  by (intro quiet_intros quiet_read) (auto split: res_error.split arb_error.split team_error.split intro: quiet_intros quiet_read)

lemma quiet_draw: "within (same f) (in_store draw)"
  by (rule quiet_team [OF within_draw])

lemma quiet_mint_resolution: "within (same f) (mint_resolution_id mc i)"
proof -
  have "within (same f) (mint_resolution_loop i n)" for n
    by (induction n) (auto simp: Let_def resolution_id_exists_def intro!: quiet_intros quiet_draw quiet_read_current)
  then show ?thesis by (simp add: mint_resolution_id_def)
qed

lemma quiet_mint_action: "within (same f) (mint_action_id mc)"
proof -
  have "within (same f) (used_actions ds used)" for ds used
    by (induction ds arbitrary: used) (auto intro!: quiet_intros quiet_read_current)
  moreover have "within (same f) (mint_unused_action used n)" for used n
    by (induction n) (auto simp: Let_def intro!: quiet_intros quiet_draw)
  ultimately show ?thesis unfolding mint_action_id_def list_dispute_records_def
    by (intro quiet_intros quiet_team [OF within_outbox_list] quiet_list_yaml)
qed

lemma within_load: "within (same g) load_team_claims"
  unfolding load_team_claims_def
  by (intro same.within_intros within_io_ok within_io_call within_collect_team)

lemma quiet_snapshots: "within (same f) (load_direct_snapshots ids)"
  unfolding load_direct_snapshots_def
  by (intro quiet_intros quiet_lift_sum quiet_team within_load)

lemma quiet_human_snapshots: "within (same f) (human_snapshots input ids)"
  unfolding human_snapshots_def by (intro quiet_intros quiet_snapshots)

lemma quiet_build_by:
  assumes "within (same g) (mint_inbox_id_for_outbox mc)" "within (same g) (mint_policy_id mc)"
  shows "within (same f) (build_delivery_intent mc d cs s h src now)"
proof -
  have "within (same f) (mint_targets mc kind as out)" for kind as out
    by (induction as arbitrary: out) (auto intro!: quiet_intros quiet_team assms)
  then show ?thesis unfolding build_delivery_intent_def Let_def lock_outbox_file_def
    by (intro quiet_intros quiet_team [OF assms(2)] quiet_mint_action)
qed

end

interpretation disputes_alone: reading_calls disputes disputes_of
  by unfold_locales simp

lemma minting_keeps_disputes:
  "within (same disputes) (mint_inbox_id_for_outbox mc)" "within (same disputes) (mint_policy_id mc)"
  unfolding mint_inbox_id_for_outbox_def mint_policy_id_def
  by (intro disputes_by_outbox.within_mint disputes_by_policies.within_mint)+

lemmas quiet_build = disputes_alone.quiet_build_by [OF minting_keeps_disputes]

text \<open>The other files of the service are beside the disputes.\<close>

lemma quiet_modify: "(\<And>w. res_arb (g w) = res_arb w) \<Longrightarrow> within (same disputes_of) (modify_io g)"
  by (rule same.within_modify) (simp add: same_def)

lemma quiet_write: "(\<And>g w. res_arb (upd g w) = res_arb w) \<Longrightarrow> within (same disputes_of) (res_write upd n x)"
  unfolding res_write_def by (intro disputes_alone.quiet_intros quiet_modify)

lemma quiet_records:
  "within (same disputes_of) (write_resolution_record r)" "within (same disputes_of) (write_pending_delivery p)"
  "within (same disputes_of) (write_pending_observation t)" "within (same disputes_of) (remove_pending_delivery rid)"
  unfolding write_resolution_record_def write_pending_delivery_def write_pending_observation_def remove_pending_delivery_def
  by (intro disputes_alone.quiet_intros quiet_write quiet_modify; simp)+

lemma quiet_persist: "within (same disputes_of) (persist_pending_delivery r now)"
  unfolding persist_pending_delivery_def
  by (intro disputes_alone.quiet_intros disputes_alone.quiet_read_pending quiet_records)

lemma quiet_reserved:
  assumes "within (same disputes_of) wr" "\<And>x. within (same disputes_of) (found x)"
  shows "within (same disputes_of) (write_if_reserved get n found wr)"
  unfolding write_if_reserved_def on_read_error_def
  by (intro disputes_alone.quiet_intros disputes_alone.quiet_read assms)
    (auto split: res_error.split arb_error.split team_error.split intro!: disputes_alone.quiet_intros assms)

lemma quiet_deliver: "within (same disputes_of) (deliver_intent r intent)"
  unfolding deliver_intent_def ensure_policy_def ensure_outbox_entry_def lock_outbox_file_def outbox_write_def
  by (intro disputes_alone.quiet_intros quiet_reserved disputes_alone.quiet_team disputes_by_outbox.within_write
      disputes_by_policies.within_write)

lemma quiet_register: "within (same disputes_of) (register_resolution_event_targets r)"
  unfolding register_resolution_event_targets_def by (intro disputes_alone.quiet_intros quiet_write; simp)

lemma quiet_history: "within (same disputes_of) (ensure_resolution_history r)"
  unfolding ensure_resolution_history_def ensure_policy_event_def ensure_dispute_resolution_event_def Let_def
  by (intro disputes_alone.quiet_intros quiet_modify; simp)

lemma quiet_delivery: "within (same disputes_of) (ensure_delivery r)"
  unfolding ensure_delivery_def
  by (intro disputes_alone.quiet_intros quiet_deliver quiet_register quiet_history quiet_records)

lemma quiet_write_analysis: "within (same (\<lambda>w. disputes (arb_team w))) (write_analysis a)"
  unfolding write_analysis_def put_analysis_def
  by (intro same.within_intros same_disputes_in_team disputes_dir.within_io_call same.within_modify) (simp add: same_def)

section \<open>A human resolution is final\<close>

definition named :: "maintainer_dispute_record dir \<Rightarrow> bool" where
  "named ds \<longleftrightarrow> (\<forall>n x. map_of ds n = Some (Document x) \<longrightarrow> n = yaml_name (dispute_id (record_dispute x)))"

definition by_human :: "maintainer_dispute_record \<Rightarrow> bool" where
  "by_human d \<longleftrightarrow> dispute_status (record_dispute d) = Resolved \<and> map_option resolved_by (record_resolution d) = Some Human"

definition settled :: "dispute_id \<Rightarrow> maintainer_dispute_record \<Rightarrow> res_store \<Rightarrow> bool" where
  "settled i d w \<longleftrightarrow> named (disputes_of w) \<and> map_of (disputes_of w) (yaml_name i) = Some (Document d)"

text \<open>A record read for a dispute: it carries its id, and for the settled one it is the settled record.\<close>

definition known :: "dispute_id \<Rightarrow> maintainer_dispute_record \<Rightarrow> dispute_id \<Rightarrow> maintainer_dispute_record \<Rightarrow> bool" where
  "known i d j x \<longleftrightarrow> dispute_id (record_dispute x) = j \<and> (j = i \<longrightarrow> x = d)"

lemma namedD: "named ds \<Longrightarrow> map_of ds (yaml_name j) = Some (Document x) \<Longrightarrow> dispute_id (record_dispute x) = j"
  unfolding named_def by (metis yaml_name_inj)

lemma named_update: "named ds \<Longrightarrow> named (AList.update (yaml_name (dispute_id (record_dispute x))) (Document x) ds)"
  by (auto simp: named_def split: if_splits)

lemma settled_quiet: "within (same disputes_of) m \<Longrightarrow> keeping (settled i d) m (\<lambda>_. True)"
  unfolding keeping_def settled_def by (metis within_sameD)

lemma in_arb_Inr_iff: "in_arb m w = (Inr x, w') \<longleftrightarrow> (\<exists>a. m (res_arb w) = (Inr x, a) \<and> w' = w\<lparr>res_arb := a\<rparr>)"
proof -
  obtain r a where "m (res_arb w) = (r, a)" by fastforce
  then show ?thesis by (cases r) (auto simp: in_arb_def)
qed

lemma settled_read: "keeping (settled i d) (in_store (read_dispute j)) (known i d j)"
proof -
  have read: "keeping (settled i d) (in_store (read_dispute j)) (\<lambda>_. True)"
    by (rule settled_quiet [OF disputes_alone.quiet_team]) (simp add: read_dispute_def disputes_dir.within_read_yaml)
  have "known i d j x" if "settled i d w" "in_store (read_dispute j) w = (Inr x, w')" for w x w'
    using that by (auto simp: in_arb_Inr_iff in_team_Inr_iff read_dispute_def settled_def known_def
        dest!: disputes_dir.read_yaml_ok dest: namedD)
  with read show ?thesis unfolding keeping_def by blast
qed

lemma settled_write:
  assumes "dispute_id (record_dispute x) \<noteq> i"
  shows "keeping (settled i d) (in_store (write_dispute x)) (\<lambda>_. True)"
proof (rule keepingI)
  fix w r w'
  assume w: "settled i d w" and run: "in_store (write_dispute x) w = (r, w')"
  obtain q t where q: "write_dispute x (team_of w) = (q, t)" by fastforce
  then have w': "disputes_of w' = disputes t" using run by (auto simp: in_arb_def in_team_def)
  have "disputes t = disputes_of w \<or> disputes t = AList.update (yaml_name (dispute_id (record_dispute x))) (Document x) (disputes_of w)"
    using q unfolding write_dispute_def by (auto split: if_splits elim!: disputes_dir.write_yaml_atomic_cases)
  then have "settled i d w'" using w assms by (auto simp: settled_def w' intro: named_update)
  then show "settled i d w' \<and> (\<forall>y. r = Inr y \<longrightarrow> True)" by simp
qed

lemma known_other: "known i d j x \<Longrightarrow> j \<noteq> i \<Longrightarrow> dispute_id (record_dispute x) \<noteq> i"
  by (simp add: known_def)

lemma known_open: "by_human d \<Longrightarrow> known i d j x \<Longrightarrow> dispute_status (record_dispute x) = Open \<Longrightarrow> j \<noteq> i"
  by (auto simp: known_def by_human_def)

lemma known_resolved: "known i d j x \<Longrightarrow> j \<noteq> i \<Longrightarrow> known i d j (resolved_with s x)"
  by (simp add: known_def resolved_with_def)

lemma settled_recover:
  assumes "by_human d" "known i d j x"
  shows "keeping (settled i d) (recover_human_resolution_locked j x) (\<lambda>(x', _). known i d j x')"
proof -
  have rewrite: "keeping (settled i d) (bind_io (write_resolution_record r) (\<lambda>_.
      bind_io (in_store (write_dispute (resolved_with (rr_resolution r) x))) (\<lambda>_. return_io (resolved_with (rr_resolution r) x)))) (known i d j)"
    if "recovers_human r x" for r
  proof -
    have "j \<noteq> i" using that assms by (auto simp: recovers_human_def known_def by_human_def)
    then show ?thesis using known_other [OF known_resolved [OF assms(2)]] known_resolved [OF assms(2)]
      by (intro keeping_bind [OF settled_quiet [OF quiet_records(1)]] keeping_bind [OF settled_write] keeping_return) auto
  qed
  show ?thesis unfolding recover_human_resolution_locked_def Let_def
    by (intro keeping_bind [OF settled_quiet [OF disputes_alone.quiet_read_current]]
        keeping_bind [OF settled_quiet [OF disputes_alone.quiet_list_pending]] keeping_if keeping_throw
        keeping_bind [where P = "known i d j"])
      (auto split: option.split list.split intro!: keeping_return keeping_throw rewrite assms(2))
qed

lemma settled_commit:
  assumes "dispute_id (record_dispute x) \<noteq> i"
  shows "keeping (settled i d) (commit_resolution j x r now) (\<lambda>_. True)"
  unfolding commit_resolution_def
  by (intro keeping_bind [OF settled_quiet [OF quiet_persist]] keeping_bind [OF settled_quiet [OF quiet_records(1)]]
      keeping_bind [OF settled_write] keeping_bind [OF settled_quiet [OF disputes_alone.quiet_preempt]]
      keeping_bind [OF settled_quiet [OF same.within_attempt [OF quiet_delivery]]] keeping_return)
    (use assms in simp_all)

lemma settled_finish: "keeping (settled i d) (finish_recovered j now b r) (\<lambda>_. True)"
  unfolding finish_recovered_def
  by (intro keeping_bind [OF settled_quiet [OF quiet_persist]] keeping_bind [OF settled_quiet [OF disputes_alone.quiet_preempt]]
      keeping_bind [OF settled_quiet [OF same.within_attempt [OF quiet_delivery]]] keeping_if keeping_throw keeping_return TrueI)

lemmas settled_start = keeping_bind [OF settled_quiet [OF disputes_alone.quiet_lift_sum]] keeping_bind [OF settled_quiet [OF disputes_alone.quiet_lock]]
  keeping_bind [OF settled_read]

lemma settled_resolve_open:
  assumes "by_human d" "known i d j x" "dispute_status (record_dispute x) = Open"
  shows "keeping (settled i d) (resolve_open mc j x input now) (\<lambda>_. True)"
proof -
  have "dispute_id (record_dispute x) \<noteq> i" using known_open [OF assms] known_other [OF assms(2)] by blast
  moreover have "within (same disputes_of) (if b then bind_io (build_delivery_intent mc e cs s h src now) (\<lambda>x. return_io (Some x))
      else return_io None)" for b e cs s h src
    by (intro disputes_alone.quiet_intros quiet_build)
  ultimately show ?thesis unfolding resolve_open_def Let_def
    by (intro keeping_bind [OF settled_quiet [OF disputes_alone.quiet_human_snapshots]]
        keeping_bind [OF settled_quiet [OF disputes_alone.quiet_mint_resolution]] keeping_bind [OF settled_quiet] settled_commit)
qed

lemma settled_resolve:
  assumes "by_human d"
  shows "keeping (settled i d) (resolve_human mc j input now) (\<lambda>_. True)"
  unfolding resolve_human_def
  by (intro settled_start keeping_if keeping_throw keeping_bind [OF settled_recover [OF assms]])
    (auto split: option.split intro: settled_finish settled_resolve_open [OF assms] keeping_throw)

lemma settled_replace:
  assumes "by_human d" "known i d j x"
  shows "keeping (settled i d) (replace_current mc j x input now) (\<lambda>_. True)"
proof -
  have other: "dispute_id (record_dispute x) \<noteq> i" if "record_resolution x = Some s" "resolved_by s = Automatic" for s
    using assms that by (auto simp: known_def by_human_def)
  show ?thesis unfolding replace_current_def Let_def
    by (intro keeping_option keeping_if keeping_throw keeping_bind [OF settled_quiet [OF disputes_alone.quiet_read_resolution]]
        keeping_bind [OF settled_quiet [OF same.within_attempt [OF disputes_alone.quiet_snapshots]]]
        keeping_bind [OF settled_quiet [OF disputes_alone.quiet_mint_resolution]]
        keeping_bind [OF settled_quiet [OF quiet_build]] settled_commit other) auto
qed

lemma settled_reject:
  assumes "by_human d"
  shows "keeping (settled i d) (reject_and_replace mc j input now) (\<lambda>_. True)"
  unfolding reject_and_replace_def
  by (intro settled_start keeping_bind [OF settled_recover [OF assms]])
    (auto intro: settled_finish settled_replace [OF assms] split: prod.split option.split)

subsection \<open>Adoption\<close>

lemma quiet_read_analysis: "within (same (\<lambda>w. disputes (arb_team w))) (read_analysis job)"
  unfolding read_analysis_def by (intro same.within_intros same_disputes_read_current)

lemma quiet_clock: "within (same disputes_of) (in_arb clock_now)"
  by (rule disputes_alone.quiet_arb, rule withinI) (auto simp: clock_now_def same_def)

lemmas settled_arb = keeping_bind [OF settled_quiet [OF disputes_alone.quiet_arb]]

lemma quiet_fixed: "within (same disputes_of) (fixed_analysis_resolution job a)"
  unfolding fixed_analysis_resolution_def by (intro disputes_alone.quiet_intros disputes_alone.quiet_read_resolution)

lemma quiet_owner: "within (same disputes_of) (find_human_analysis_adoption_owner j)"
  unfolding find_human_analysis_adoption_owner_def Let_def
  by (intro disputes_alone.quiet_intros disputes_alone.quiet_arb same_disputes_read_current quiet_fixed)

lemma settled_finish_adoption:
  assumes "by_human d" "known i d j x"
  shows "keeping (settled i d) (finish_analysis_adoption_locked a x r now) (\<lambda>_. True)"
proof -
  have "keeping (settled i d) (if dispute_status (record_dispute x) = Open
      then in_store (write_dispute (resolved_with (rr_resolution r) x)) else return_io ()) (\<lambda>_. True)"
    using known_open [OF assms] known_other [OF known_resolved [OF assms(2)]] by (auto intro: settled_write keeping_return)
  then show ?thesis unfolding finish_analysis_adoption_locked_def Let_def
    by (intro keeping_bind [OF settled_quiet [OF quiet_persist]] keeping_bind [OF settled_quiet [OF quiet_records(1)]]
        keeping_bind [OF settled_quiet [OF same.within_attempt [OF quiet_delivery]]] keeping_return TrueI
        settled_arb [OF quiet_write_analysis])
      (rule keeping_bind, assumption, blast intro: keeping_bind [OF settled_quiet [OF same.within_attempt [OF quiet_delivery]]]
        settled_arb [OF quiet_write_analysis] keeping_return)
qed

lemma settled_begin:
  assumes "by_human d"
  shows "keeping (settled i d) (begin_analysis_adoption_locked mc job by now) (\<lambda>_. True)"
proof -
  have adopt: "keeping (settled i d) (begin_adoption mc job by now a x) (\<lambda>_. True)" if "known i d (job_dispute_id job) x" for a x
    unfolding begin_adoption_def Let_def
    by (intro keeping_option keeping_if keeping_throw keeping_bind [OF settled_quiet [OF disputes_alone.quiet_mint_resolution]]
        keeping_bind [OF settled_quiet [OF quiet_build]] settled_arb [OF quiet_write_analysis]
        keeping_bind [OF settled_finish_adoption [OF assms that]] keeping_return TrueI)
  show ?thesis unfolding begin_analysis_adoption_locked_def
    by (intro settled_arb [OF quiet_read_analysis] keeping_if keeping_throw keeping_bind [OF settled_read]
        keeping_bind [OF settled_recover [OF assms]])
      (auto split: option.split intro!: adopt keeping_throw
        keeping_bind [OF settled_quiet [OF same.within_attempt [OF quiet_delivery]]])
qed

lemma settled_recover_adoption:
  assumes "by_human d"
  shows "keeping (settled i d) (recover_analysis_adoption job now) (\<lambda>_. True)"
  unfolding recover_analysis_adoption_def
  by (intro settled_start settled_arb [OF quiet_read_analysis] keeping_if keeping_return TrueI
      keeping_bind [OF settled_quiet [OF quiet_fixed]] keeping_bind [where P = "\<lambda>_. True"] settled_quiet [OF quiet_owner]
      settled_arb [OF quiet_write_analysis])
    (auto split: option.split intro!: keeping_return settled_arb [OF quiet_write_analysis]
      keeping_bind [OF settled_read] keeping_bind [OF settled_finish_adoption [OF assms]])

lemma settled_resume:
  assumes "by_human d"
  shows "keeping (settled i d) (resume_matching_analysis_adoption_locked job by now) (\<lambda>_. True)"
  unfolding resume_matching_analysis_adoption_locked_def
  by (intro keeping_bind [OF settled_quiet [OF quiet_owner]] settled_arb [OF quiet_read_analysis] keeping_if keeping_return TrueI keeping_throw
      keeping_bind [OF settled_quiet [OF quiet_fixed]] keeping_bind [OF settled_read])
    (auto split: option.split intro!: keeping_return keeping_throw settled_arb [OF quiet_write_analysis]
      keeping_bind [OF settled_finish_adoption [OF assms]])

lemma keeping_map_err: "keeping I m Q \<Longrightarrow> keeping I (map_err_io f m) Q"
  unfolding keeping_def map_err_io_def by (auto split: prod.splits sum.splits)

lemma quiet_preconditions: "within (same (\<lambda>w. disputes (arb_team w))) (ensure_adoption_preconditions a x)"
  unfolding ensure_adoption_preconditions_def by (intro same.within_intros)

lemma quiet_recheck: "within (same (\<lambda>w. disputes (arb_team w))) (recheck_adoption cfg job built reason)"
proof -
  have now: "within (same (\<lambda>w. disputes (arb_team w))) clock_now" by (rule withinI) (auto simp: clock_now_def same_def)
  have read: "within (same (\<lambda>w. disputes (arb_team w))) (in_team (read_dispute j))" for j
    by (rule same_disputes_in_team) (simp add: read_dispute_def disputes_dir.within_read_yaml)
  show ?thesis unfolding recheck_adoption_def schedule_reanalysis_def
    by (intro same.within_bind quiet_read_analysis read quiet_preconditions, cases built)
      (auto intro!: same.within_intros now quiet_write_analysis)
qed

lemma settled_adopt_check:
  assumes "by_human d"
  shows "keeping (settled i d) (adopt_check job by) (\<lambda>_. True)"
  unfolding adopt_check_def
  by (intro settled_start keeping_bind [OF settled_quiet [OF quiet_clock]] keeping_bind [OF keeping_map_err [OF settled_resume [OF assms]]]
      keeping_if keeping_return TrueI settled_arb [OF quiet_read_analysis] settled_arb [OF quiet_preconditions])

lemma settled_adopt_commit:
  assumes "by_human d"
  shows "keeping (settled i d) (adopt_commit mc cfg job by built reason) (\<lambda>_. True)"
  unfolding adopt_commit_def
  by (intro settled_start keeping_bind [OF settled_quiet [OF quiet_clock]] keeping_bind [OF keeping_map_err [OF settled_resume [OF assms]]]
      keeping_option keeping_return TrueI settled_arb [OF quiet_recheck] keeping_map_err settled_begin [OF assms])

lemma settled_recover_pending:
  assumes "by_human d"
  shows "keeping (settled i d) (recover_pending_delivery t) (\<lambda>_. True)"
proof -
  have commit: "keeping (settled i d) (in_store (write_dispute (resolved_with s x))) (\<lambda>_. True)"
    if "known i d j x" "can_recover_commit x r" for r s x j
  proof -
    have "j \<noteq> i" using that assms by (auto simp: can_recover_commit_def known_def by_human_def)
    then show ?thesis using known_other [OF known_resolved [OF that(1)]] by (intro settled_write) auto
  qed
  show ?thesis unfolding recover_pending_delivery_def recover_with_def Let_def
    by (intro settled_start keeping_bind [OF settled_quiet [OF disputes_alone.quiet_read_pending]]
        keeping_bind [OF settled_quiet [OF disputes_alone.quiet_read_current]] keeping_option keeping_if keeping_throw
        settled_quiet [OF quiet_records(4)])
      (auto intro!: keeping_bind [where P = "\<lambda>_. True"] settled_quiet [OF quiet_delivery] settled_quiet [OF quiet_records(1)]
        keeping_return intro: commit)
qed

lemma quiet_complete: "within (same disputes_of) (complete_analysis_adoption_after_delivery t now)"
  unfolding complete_analysis_adoption_after_delivery_def
  by (intro disputes_alone.quiet_intros disputes_alone.quiet_lock disputes_alone.quiet_read_current disputes_alone.quiet_arb
      same_disputes_read_current quiet_write_analysis)

subsection \<open>Histories\<close>

text \<open>
  The critical sections of the service, a report of a dispute, and whatever else the program does that
  writes no dispute: every section of the analysis service is of that kind.
\<close>

inductive res_step :: "maintainer_config \<Rightarrow> arb_config \<Rightarrow> res_store \<Rightarrow> res_store \<Rightarrow> bool" for mc cfg where
  ResolveHuman: "res_step mc cfg w (snd (resolve_human mc i input now w))"
| RejectAndReplace: "res_step mc cfg w (snd (reject_and_replace mc i reject now w))"
| AdoptCheck: "res_step mc cfg w (snd (adopt_check job by w))"
| AdoptCommit: "res_step mc cfg w (snd (adopt_commit mc cfg job by built reason w))"
| RecoverAdoption: "res_step mc cfg w (snd (recover_analysis_adoption job now w))"
| RecoverDelivery: "res_step mc cfg w (snd (recover_pending_delivery t w))"
| CompleteAdoption: "res_step mc cfg w (snd (complete_analysis_adoption_after_delivery t now w))"
| ReportDispute: "res_step mc cfg w (snd (in_arb (report_dispute_analysis cfg d) w))"
| Otherwise: "disputes_of w' = disputes_of w \<Longrightarrow> res_step mc cfg w w'"

abbreviation res_reach :: "maintainer_config \<Rightarrow> arb_config \<Rightarrow> res_store \<Rightarrow> res_store \<Rightarrow> bool" where
  "res_reach mc cfg \<equiv> (res_step mc cfg)\<^sup>*\<^sup>*"

lemma keeping_in_arb: "keeping (\<lambda>a. I a) m Q \<Longrightarrow> keeping (\<lambda>w. I (res_arb w)) (in_arb m) Q"
  unfolding keeping_def
proof (intro allI impI)
  fix w r w'
  assume m: "\<forall>w r w'. I w \<longrightarrow> m w = (r, w') \<longrightarrow> I w' \<and> (\<forall>x. r = Inr x \<longrightarrow> Q x)" and I: "I (res_arb w)" and run: "in_arb m w = (r, w')"
  obtain q a where q: "m (res_arb w) = (q, a)" by fastforce
  with m I have "I a" "\<forall>x. q = Inr x \<longrightarrow> Q x" by blast+
  with run q show "I (res_arb w') \<and> (\<forall>x. r = Inr x \<longrightarrow> Q x)" by (cases q) (auto simp: in_arb_def)
qed

definition settled_arb_store :: "dispute_id \<Rightarrow> maintainer_dispute_record \<Rightarrow> arb_store \<Rightarrow> bool" where
  "settled_arb_store i d a \<longleftrightarrow> named (disputes (arb_team a)) \<and> map_of (disputes (arb_team a)) (yaml_name i) = Some (Document d)"

lemma arb_quiet: "within (same (\<lambda>w. disputes (arb_team w))) m \<Longrightarrow> keeping (settled_arb_store i d) m (\<lambda>_. True)"
  unfolding keeping_def settled_arb_store_def by (metis within_sameD)

lemma arb_not_found:
  "keeping (settled_arb_store i d) (attempt_io (in_team (read_dispute j))) (\<lambda>r. \<forall>n. r = Inl (TeamError (NotFound n)) \<longrightarrow> j \<noteq> i)"
proof (rule keepingI)
  fix w r w'
  assume w: "settled_arb_store i d w" and run: "attempt_io (in_team (read_dispute j)) w = (r, w')"
  obtain q t where q: "read_dispute j (arb_team w) = (q, t)" by fastforce
  then have "w' = w\<lparr>arb_team := t\<rparr>" "r = Inr (map_sum TeamError id q)"
    using run by (auto simp: attempt_io_def in_team_def)
  with read_dispute_outcome [OF q] w
  show "settled_arb_store i d w' \<and> (\<forall>x. r = Inr x \<longrightarrow> (\<forall>n. x = Inl (TeamError (NotFound n)) \<longrightarrow> j \<noteq> i))"
    by (cases q) (auto simp: settled_arb_store_def)
qed

lemma arb_record_report:
  assumes "dispute_id e \<noteq> i"
  shows "keeping (settled_arb_store i d) (record_report e) (\<lambda>_. True)"
proof (rule keepingI)
  fix w r w'
  assume w: "settled_arb_store i d w" and run: "record_report e w = (r, w')"
  let ?x = "\<lparr>record_dispute = e, record_resolution = None\<rparr>"
  obtain q t where q: "write_dispute ?x (arb_team w) = (q, t)" by fastforce
  then have w': "disputes (arb_team w') = disputes t" using run by (auto simp: record_report_def in_team_def)
  have "disputes t = disputes (arb_team w) \<or> disputes t = AList.update (yaml_name (dispute_id (record_dispute ?x))) (Document ?x) (disputes (arb_team w))"
    using q unfolding write_dispute_def by (auto split: if_splits elim!: disputes_dir.write_yaml_atomic_cases)
  then have "settled_arb_store i d w'"
    using w assms named_update [of "disputes (arb_team w)" ?x] by (auto simp: settled_arb_store_def w')
  then show "settled_arb_store i d w' \<and> (\<forall>y. r = Inr y \<longrightarrow> True)" by simp
qed

lemma quiet_new_analysis: "within (same (\<lambda>w. disputes (arb_team w))) (new_analysis cfg j)"
  unfolding new_analysis_def random_analysis_id_def
  by (intro same.within_intros same_disputes_in_team) (auto intro!: withinI simp: clock_now_def same_def draw_hex_run)

lemma quiet_create_report: "within (same (\<lambda>w. disputes (arb_team w))) (create_report_analysis a)"
  unfolding create_report_analysis_def arb_read_def put_analysis_def lift_sum_def
  by (intro same.within_intros same_disputes_in_team disputes_dir.within_io_call)
    (auto split: arb_error.split team_error.split simp: same_def
      intro!: same.within_intros same_disputes_in_team disputes_dir.within_io_call same.within_modify)

lemma settled_report: "keeping (settled i d) (in_arb (report_dispute_analysis cfg e)) (\<lambda>_. True)"
proof -
  let ?S = "settled_arb_store i d"
  note current = arb_quiet [OF same_disputes_read_current]
  have lock: "keeping ?S lock_dispute (\<lambda>_. True)"
    by (rule arb_quiet) (simp add: lock_dispute_def same_disputes_in_team disputes_dir.within_io_call)
  have known: "keeping ?S (report_known_dispute cfg x e) (\<lambda>_. True)" for x
    unfolding report_known_dispute_def by (intro keeping_if keeping_throw keeping_bind [OF current] keeping_return TrueI)
  have manual: "keeping ?S (report_new_manual e) (\<lambda>_. True)" if "dispute_id e \<noteq> i"
    unfolding report_new_manual_def
    by (intro keeping_if keeping_throw keeping_bind [OF current] keeping_bind [OF arb_record_report [OF that]] keeping_return TrueI)
  have new: "keeping ?S (report_new_analysed cfg e) (\<lambda>_. True)" if "dispute_id e \<noteq> i"
    unfolding report_new_analysed_def Let_def
    by (rule keeping_bind [where P = "\<lambda>_. True"], rule keeping_bind [OF current])
      (auto intro!: keeping_throw keeping_return keeping_bind [OF arb_record_report [OF that]] keeping_bind [OF arb_quiet [OF quiet_new_analysis]]
        keeping_bind [OF arb_quiet [OF quiet_create_report]] split: option.split)
  have "keeping ?S (report_dispute_analysis cfg e) (\<lambda>_. True)" unfolding report_dispute_analysis_def
    by (intro keeping_sum keeping_throw keeping_bind [OF lock] keeping_bind [OF arb_not_found])
      (auto split: sum.split arb_error.split team_error.split intro!: keeping_throw known manual new
        keeping_bind [OF arb_quiet [OF same_disputes_in_team [OF validate_claims_disputes]]])
  from keeping_in_arb [OF this] show ?thesis by (simp add: settled_arb_store_def settled_def [abs_def])
qed

lemma settled_step: "res_step mc cfg w w' \<Longrightarrow> by_human d \<Longrightarrow> settled i d w \<Longrightarrow> settled i d w'"
proof (induction rule: res_step.induct)
  case (Otherwise w' w)
  then show ?case by (simp add: settled_def)
qed (simp_all add: settled_resolve [THEN keeping_snd] settled_reject [THEN keeping_snd] settled_adopt_check [THEN keeping_snd]
    settled_adopt_commit [THEN keeping_snd] settled_recover_adoption [THEN keeping_snd] settled_recover_pending [THEN keeping_snd]
    settled_quiet [OF quiet_complete, THEN keeping_snd] settled_report [THEN keeping_snd])

text \<open>
  Property C22.  A human resolution is final: once a dispute is stored as resolved by a human, its record
  never changes again, whatever further resolutions, replacements, adoptions of an analysis, recoveries
  and reports follow, in any order and with any storage fault.
\<close>

theorem human_resolution_is_final:
  fixes i :: dispute_id
  assumes "res_reach mc cfg w w'" "named (disputes_of w)"
    and "map_of (disputes_of w) (yaml_name i) = Some (Document d)" "by_human d"
  shows "map_of (disputes_of w') (yaml_name i) = Some (Document d)"
proof -
  have "settled i d w" using assms(2,3) by (simp add: settled_def)
  with assms(1) have "settled i d w'" by (induction rule: rtranclp_induct) (auto dest: settled_step [OF _ assms(4)])
  then show ?thesis by (simp add: settled_def)
qed

end
