(* ===== verification/Resolution_Recovery.thy ===== *)
theory Resolution_Recovery
  imports Resolution_Properties
begin

text \<open>
  The commit of a human resolution under crashes: either nothing happened, or the pending delivery holds
  the fixed record and a later recovery brings everything to the same end, however far the commit and
  its delivery had come.
\<close>

section \<open>The files of a commit\<close>

definition mail_of :: "team_store \<Rightarrow> policy dir \<times> outbox_entry dir \<times> maintainer_dispute_record dir" where
  "mail_of t = (policies t, outbox t, disputes t)"

definition commit_files :: "res_store \<Rightarrow> (policy dir \<times> outbox_entry dir \<times> maintainer_dispute_record dir)
    \<times> arbitration_resolution_record dir \<times> pending_resolution_delivery dir" where
  "commit_files w = (mail_of (team_of w), resolutions w, pending_deliveries w)"

interpretation mail_of: observation mail_of
  by unfold_locales (simp_all add: mail_of_def)

interpretation commit_files: reading_calls mail_of commit_files
  by unfold_locales (simp add: commit_files_def)

text \<open>The policy and the entries of an intent: reserved, or written by this intent.\<close>

definition deliverable_to :: "arbitration_resolution_record \<Rightarrow> delivery_intent \<Rightarrow> delivery_target_intent \<Rightarrow> team_store \<Rightarrow> bool" where
  "deliverable_to r intent t s \<longleftrightarrow> (\<exists>f. map_of (outbox s) (yaml_name (intent_inbox_id t)) = Some f
     \<and> (f = EmptyFile \<or> (\<exists>e. f = Document e \<and> same_immutable e (intent_entry r intent t))))"

definition arrived_at :: "arbitration_resolution_record \<Rightarrow> delivery_intent \<Rightarrow> delivery_target_intent \<Rightarrow> team_store \<Rightarrow> bool" where
  "arrived_at r intent t s \<longleftrightarrow> (\<exists>e. map_of (outbox s) (yaml_name (intent_inbox_id t)) = Some (Document e)
     \<and> same_immutable e (intent_entry r intent t))"

definition deliverable :: "arbitration_resolution_record \<Rightarrow> team_store \<Rightarrow> bool" where
  "deliverable r s = (case rr_delivery_intent r of
       None \<Rightarrow> True
     | Some intent \<Rightarrow> map_of (policies s) (yaml_name (policy_id (intent_policy intent))) \<in> {Some EmptyFile, Some (Document (intent_policy intent))}
         \<and> distinct (map intent_inbox_id (intent_targets intent))
         \<and> (\<forall>t \<in> set (intent_targets intent). deliverable_to r intent t s))"

definition delivered :: "arbitration_resolution_record \<Rightarrow> team_store \<Rightarrow> bool" where
  "delivered r s = (case rr_delivery_intent r of
       None \<Rightarrow> True
     | Some intent \<Rightarrow> map_of (policies s) (yaml_name (policy_id (intent_policy intent))) = Some (Document (intent_policy intent))
         \<and> (\<forall>t \<in> set (intent_targets intent). arrived_at r intent t s))"

definition pending_for :: "arbitration_resolution_record \<Rightarrow> res_store \<Rightarrow> bool" where
  "pending_for r w \<longleftrightarrow> (\<exists>p. map_of (pending_deliveries w) (yaml_name (rr_resolution_id r)) = Some (Document p) \<and> pd_record p = Some r)"

text \<open>Everything a commit promises, and what a recovery needs.\<close>

definition completed :: "arbitration_resolution_record \<Rightarrow> maintainer_dispute_record \<Rightarrow> res_store \<Rightarrow> bool" where
  "completed r d w \<longleftrightarrow> map_of (disputes_of w) (yaml_name (rr_dispute_id r)) = Some (Document (resolved_with (rr_resolution r) d))
     \<and> map_of (resolutions w) (yaml_name (rr_dispute_id r)) = Some (Document r)
     \<and> delivered r (team_of w) \<and> map_of (pending_deliveries w) (yaml_name (rr_resolution_id r)) = None"

definition committed :: "arbitration_resolution_record \<Rightarrow> maintainer_dispute_record \<Rightarrow> res_store \<Rightarrow> bool" where
  "committed r d w \<longleftrightarrow> (pending_for r w \<or> map_of (pending_deliveries w) (yaml_name (rr_resolution_id r)) = None)
     \<and> deliverable r (team_of w)
     \<and> map_of (disputes_of w) (yaml_name (rr_dispute_id r)) = Some (Document (resolved_with (rr_resolution r) d))
     \<and> map_of (resolutions w) (yaml_name (rr_dispute_id r)) = Some (Document r)"

definition recoverable :: "arbitration_resolution_record \<Rightarrow> maintainer_dispute_record \<Rightarrow> res_store \<Rightarrow> bool" where
  "recoverable r d w \<longleftrightarrow> committed r d w
     \<or> pending_for r w \<and> deliverable r (team_of w)
       \<and> map_of (disputes_of w) (yaml_name (rr_dispute_id r)) = Some (Document d)
       \<and> map_of (resolutions w) (yaml_name (rr_dispute_id r)) \<in> {None, Some (Document r)}"

text \<open>What holds of the record of every commit.\<close>

definition well_formed :: "arbitration_resolution_record \<Rightarrow> maintainer_dispute_record \<Rightarrow> bool" where
  "well_formed r d \<longleftrightarrow> rr_schema_version r = arbitration_schema_version \<and> rr_resolution_id r = resolution_id (rr_resolution r)
     \<and> dispute_id (record_dispute d) = rr_dispute_id r \<and> record_resolution d = None
     \<and> validate_dispute_record (resolved_with (rr_resolution r) d)"

section \<open>Delivery without faults\<close>

definition heal :: "res_store \<Rightarrow> res_store" where
  "heal w = w\<lparr>res_arb := (res_arb w)\<lparr>arb_team := (team_of w)\<lparr>io_faults := []\<rparr>\<rparr>\<rparr>"

abbreviation calm :: "res_store \<Rightarrow> bool" where
  "calm w \<equiv> fault_free (team_of w)"

lemma calm_call: "calm w \<Longrightarrow> in_store io_call w = (Inr (), w)"
  by (simp add: in_arb_def in_team_def)

lemma calm_read: "calm w \<Longrightarrow> res_read get n w = (map_sum (ArbError \<circ> TeamError) id (decode_file n (map_of (get w) n)), w)"
  by (simp add: res_read_def bind_io_def calm_call get_io_def lift_sum_def return_io_def throw_io_def split: sum.split)

lemma calm_read_optional: "calm w \<Longrightarrow> map_of (get w) n \<in> {None, Some (Document x)} \<Longrightarrow>
    res_read_optional get n w = (Inr (if map_of (get w) n = None then None else Some x), w)"
  by (auto simp: res_read_optional_def bind_io_def attempt_io_def calm_read decode_file_def return_io_def)

lemma calm_write: "calm w \<Longrightarrow> res_write upd n x w = (Inr (), upd (AList.update n (Document x)) w)"
  by (simp add: res_write_def bind_io_def calm_call modify_io_def)

lemma in_store_run: "m (team_of w) = (Inr x, t) \<Longrightarrow> in_store m w = (Inr x, w\<lparr>res_arb := (res_arb w)\<lparr>arb_team := t\<rparr>\<rparr>)"
  by (simp add: in_arb_def in_team_def)

lemma calm_store_write: "calm w \<Longrightarrow> in_store (write_yaml_atomic upd n x) w =
    (Inr (), w\<lparr>res_arb := (res_arb w)\<lparr>arb_team := upd (AList.update n (Document x)) (team_of w)\<rparr>\<rparr>)"
  by (rule in_store_run) (simp add: write_yaml_atomic_def bind_io_def modify_io_def)

lemma calm_reserved:
  assumes "calm w" "map_of (get w) n = Some f" "f = EmptyFile \<or> (\<exists>x. f = Document x \<and> found x = return_io ())"
  shows "write_if_reserved get n found wr w = (if f = EmptyFile then wr w else (Inr (), w))"
  using assms by (auto simp: write_if_reserved_def on_read_error_def bind_io_def attempt_io_def calm_read decode_file_def calm_call get_io_def return_io_def)

text \<open>Calls that succeed without faults and touch no file of a commit.\<close>

definition smooth :: "'a res_io \<Rightarrow> bool" where
  "smooth m \<longleftrightarrow> (\<forall>w. calm w \<longrightarrow> (\<exists>x w'. m w = (Inr x, w') \<and> calm w' \<and> commit_files w' = commit_files w))"

lemma smooth_return: "smooth (return_io x)"
  by (simp add: smooth_def)

lemma smooth_bind: "smooth m \<Longrightarrow> (\<And>x. smooth (k x)) \<Longrightarrow> smooth (bind_io m k)"
  unfolding smooth_def bind_io_def by (metis (no_types, lifting) old.prod.case sum.case(2))

lemma smooth_for: "(\<And>x. smooth (m x)) \<Longrightarrow> smooth (for_io m xs)"
  by (induction xs) (auto intro: smooth_return smooth_bind)

lemma smooth_case_option: "(v = None \<Longrightarrow> smooth m) \<Longrightarrow> (\<And>x. smooth (k x)) \<Longrightarrow> smooth (case v of None \<Rightarrow> m | Some x \<Rightarrow> k x)"
  by (cases v) auto

lemma smooth_if: "smooth m \<Longrightarrow> smooth n \<Longrightarrow> smooth (if b then m else n)"
  by simp

lemma smooth_call: "smooth (in_store io_call)"
  by (simp add: smooth_def calm_call)

lemma smooth_get: "smooth (get_io f)"
  by (simp add: smooth_def)

lemma smooth_modify: "(\<And>w. res_arb (h w) = res_arb w \<and> resolutions (h w) = resolutions w \<and> pending_deliveries (h w) = pending_deliveries w) \<Longrightarrow>
    smooth (modify_io h)"
  by (simp add: smooth_def commit_files_def)

lemma smooth_write: "(\<And>h w. res_arb (upd h w) = res_arb w \<and> resolutions (upd h w) = resolutions w \<and> pending_deliveries (upd h w) = pending_deliveries w) \<Longrightarrow>
    smooth (res_write upd n x)"
  unfolding res_write_def by (intro smooth_bind smooth_call smooth_modify)

lemmas smooth_intros = smooth_return smooth_bind smooth_for smooth_case_option smooth_if smooth_call smooth_get

lemma smooth_after_delivery:
  "smooth (register_resolution_event_targets r)" "smooth (write_pending_observation t)" "smooth (ensure_resolution_history r)"
  unfolding register_resolution_event_targets_def write_pending_observation_def ensure_resolution_history_def Let_def
    ensure_policy_event_def ensure_dispute_resolution_event_def
  by (intro smooth_intros smooth_write smooth_modify; simp)+

text \<open>The entries of the intent.\<close>

definition beside_outbox :: "res_store \<Rightarrow> policy dir \<times> maintainer_dispute_record dir \<times> arbitration_resolution_record dir \<times> pending_resolution_delivery dir" where
  "beside_outbox w = (policies (team_of w), disputes_of w, resolutions w, pending_deliveries w)"

lemma same_immutable_refl [simp]: "same_immutable e e"
  by (simp add: same_immutable_def)

lemma calm_entry:
  assumes "calm w" "deliverable_to r intent t (team_of w)"
  shows "\<exists>w'. ensure_outbox_entry (intent_entry r intent t) w = (Inr (), w') \<and> calm w' \<and> arrived_at r intent t (team_of w')
    \<and> beside_outbox w' = beside_outbox w
    \<and> (\<forall>n. n \<noteq> yaml_name (intent_inbox_id t) \<longrightarrow> map_of (outbox (team_of w')) n = map_of (outbox (team_of w)) n)"
proof -
  obtain f where f: "map_of (outbox (team_of w)) (yaml_name (intent_inbox_id t)) = Some f"
      "f = EmptyFile \<or> (\<exists>e. f = Document e \<and> same_immutable e (intent_entry r intent t))"
    using assms(2) by (auto simp: deliverable_to_def)
  have id: "entry_inbox_id (intent_entry r intent t) = intent_inbox_id t" by (simp add: intent_entry_def)
  have run: "ensure_outbox_entry (intent_entry r intent t) w =
      (if f = EmptyFile then in_store (outbox_write (intent_entry r intent t)) w else (Inr (), w))"
    unfolding ensure_outbox_entry_def id by (rule calm_reserved) (use assms(1) f in auto)
  show ?thesis
  proof (cases "f = EmptyFile")
    case True
    with run assms(1) show ?thesis
      by (simp add: outbox_write_def calm_store_write id arrived_at_def beside_outbox_def)
  next
    case False
    with run assms(1) f show ?thesis by (auto simp: arrived_at_def)
  qed
qed

lemma deliverable_to_cong:
  "map_of (outbox s') (yaml_name (intent_inbox_id t)) = map_of (outbox s) (yaml_name (intent_inbox_id t)) \<Longrightarrow>
   deliverable_to r intent t s' = deliverable_to r intent t s"
  by (simp add: deliverable_to_def)

lemma calm_entries:
  assumes "calm w" "distinct (map intent_inbox_id ts)" "\<forall>t \<in> set ts. deliverable_to r intent t (team_of w)"
  shows "\<exists>w'. for_io (\<lambda>t. ensure_outbox_entry (intent_entry r intent t)) ts w = (Inr (), w') \<and> calm w'
    \<and> (\<forall>t \<in> set ts. arrived_at r intent t (team_of w')) \<and> beside_outbox w' = beside_outbox w
    \<and> (\<forall>n. n \<notin> (\<lambda>t. yaml_name (intent_inbox_id t)) ` set ts \<longrightarrow> map_of (outbox (team_of w')) n = map_of (outbox (team_of w)) n)"
  using assms
proof (induction ts arbitrary: w)
  case Nil
  then show ?case by simp
next
  case (Cons t ts)
  obtain w1 where w1: "ensure_outbox_entry (intent_entry r intent t) w = (Inr (), w1)" "calm w1" "arrived_at r intent t (team_of w1)"
      "beside_outbox w1 = beside_outbox w"
      "\<forall>n. n \<noteq> yaml_name (intent_inbox_id t) \<longrightarrow> map_of (outbox (team_of w1)) n = map_of (outbox (team_of w)) n"
    using calm_entry [OF Cons.prems(1)] Cons.prems(3) by (metis list.set_intros(1))
  have fresh: "yaml_name (intent_inbox_id t) \<notin> (\<lambda>t. yaml_name (intent_inbox_id t)) ` set ts"
    using Cons.prems(2) by auto
  have "\<forall>t' \<in> set ts. deliverable_to r intent t' (team_of w1)"
    using Cons.prems(3) w1(5) fresh deliverable_to_cong by (metis (mono_tags, lifting) image_eqI list.set_intros(2))
  then obtain w2 where w2: "for_io (\<lambda>t. ensure_outbox_entry (intent_entry r intent t)) ts w1 = (Inr (), w2)" "calm w2"
      "\<forall>t \<in> set ts. arrived_at r intent t (team_of w2)" "beside_outbox w2 = beside_outbox w1"
      "\<forall>n. n \<notin> (\<lambda>t. yaml_name (intent_inbox_id t)) ` set ts \<longrightarrow> map_of (outbox (team_of w2)) n = map_of (outbox (team_of w1)) n"
    using Cons.IH [OF w1(2)] Cons.prems(2) by auto
  have "arrived_at r intent t (team_of w2)" using w1(3) w2(5) fresh by (simp add: arrived_at_def)
  with w1 w2 show ?case by (auto simp: bind_io_def)
qed

lemma bind_run: "m w = (Inr x, w1) \<Longrightarrow> bind_io m k w = k x w1"
  by (simp add: bind_io_def)

lemma bind_io_assoc: "bind_io (bind_io m k) h = bind_io m (\<lambda>x. bind_io (k x) h)"
  by (rule ext) (simp add: bind_io_def split: prod.split sum.split)

lemma calm_policy:
  assumes "calm w" "map_of (policies (team_of w)) (yaml_name (policy_id p)) \<in> {Some EmptyFile, Some (Document p)}"
  shows "\<exists>w'. ensure_policy p w = (Inr (), w') \<and> calm w' \<and> map_of (policies (team_of w')) (yaml_name (policy_id p)) = Some (Document p)
    \<and> outbox (team_of w') = outbox (team_of w) \<and> disputes_of w' = disputes_of w \<and> resolutions w' = resolutions w
    \<and> pending_deliveries w' = pending_deliveries w"
proof -
  obtain f where f: "map_of (policies (team_of w)) (yaml_name (policy_id p)) = Some f" "f = EmptyFile \<or> f = Document p" using assms(2) by auto
  have run: "ensure_policy p w = (if f = EmptyFile then in_store (write_yaml_atomic policies_update (yaml_name (policy_id p)) p) w else (Inr (), w))"
    unfolding ensure_policy_def by (rule calm_reserved) (use assms(1) f in auto)
  show ?thesis
  proof (cases "f = EmptyFile")
    case True
    with run assms(1) show ?thesis by (simp add: calm_store_write)
  next
    case False
    with run assms(1) f show ?thesis by auto
  qed
qed

lemma calm_intent:
  assumes "calm w" "deliverable r (team_of w)" "rr_delivery_intent r = Some intent"
  shows "\<exists>w'. deliver_intent r intent w = (Inr (), w') \<and> calm w' \<and> delivered r (team_of w') \<and> disputes_of w' = disputes_of w
    \<and> resolutions w' = resolutions w \<and> pending_deliveries w' = pending_deliveries w"
proof -
  note d = assms(2) [unfolded deliverable_def assms(3) option.case]
  obtain w1 where w1: "ensure_policy (intent_policy intent) w = (Inr (), w1)" "calm w1"
      "map_of (policies (team_of w1)) (yaml_name (policy_id (intent_policy intent))) = Some (Document (intent_policy intent))"
      "outbox (team_of w1) = outbox (team_of w)" "disputes_of w1 = disputes_of w" "resolutions w1 = resolutions w"
      "pending_deliveries w1 = pending_deliveries w"
    using calm_policy [OF assms(1)] d by metis
  have "\<forall>t \<in> set (intent_targets intent). deliverable_to r intent t (team_of w1)"
    using d w1(4) by (simp add: deliverable_to_def)
  then obtain w2 where w2: "for_io (\<lambda>t. ensure_outbox_entry (intent_entry r intent t)) (intent_targets intent) w1 = (Inr (), w2)" "calm w2"
      "\<forall>t \<in> set (intent_targets intent). arrived_at r intent t (team_of w2)" "beside_outbox w2 = beside_outbox w1"
    using calm_entries [OF w1(2)] d by blast
  have "deliver_intent r intent w = (Inr (), w2)"
    by (simp add: deliver_intent_def lock_outbox_file_def bind_io_def calm_call assms(1) w1(1) w2(1))
  with w1 w2 assms(3) show ?thesis by (simp add: delivered_def beside_outbox_def)
qed

lemma delivered_cong: "mail_of s' = mail_of s \<Longrightarrow> delivered r s' = delivered r s" "mail_of s' = mail_of s \<Longrightarrow> deliverable r s' = deliverable r s"
  by (simp_all add: delivered_def deliverable_def arrived_at_def deliverable_to_def mail_of_def split: option.split)

lemma map_of_delete [simp]: "map_of (AList.delete n d) n = None"
  by (simp add: delete_conv')

lemma calm_delivery:
  assumes "calm w" "deliverable r (team_of w)"
  shows "\<exists>w'. ensure_delivery r w = (Inr (), w') \<and> delivered r (team_of w') \<and> disputes_of w' = disputes_of w
    \<and> resolutions w' = resolutions w \<and> map_of (pending_deliveries w') (yaml_name (rr_resolution_id r)) = None"
proof -
  obtain w1 where w1: "(case rr_delivery_intent r of None \<Rightarrow> return_io () | Some intent \<Rightarrow> deliver_intent r intent) w = (Inr (), w1)" "calm w1"
      "delivered r (team_of w1)" "disputes_of w1 = disputes_of w" "resolutions w1 = resolutions w"
    using calm_intent [OF assms] assms(1)
    by (cases "rr_delivery_intent r") (auto simp: delivered_def)
  have "smooth (bind_io (register_resolution_event_targets r) (\<lambda>_. bind_io (write_pending_observation (record_target r)) (\<lambda>_.
      ensure_resolution_history r)))"
    by (intro smooth_bind smooth_after_delivery)
  then obtain w2 where w2: "bind_io (register_resolution_event_targets r) (\<lambda>_. bind_io (write_pending_observation (record_target r)) (\<lambda>_.
      ensure_resolution_history r)) w1 = (Inr (), w2)" "calm w2" "commit_files w2 = commit_files w1"
    using w1(2) unfolding smooth_def by fastforce
  have "ensure_delivery r w = bind_io (bind_io (register_resolution_event_targets r) (\<lambda>_. bind_io (write_pending_observation (record_target r)) (\<lambda>_.
      ensure_resolution_history r))) (\<lambda>_. remove_pending_delivery (rr_resolution_id r)) w1"
    unfolding ensure_delivery_def bind_io_assoc by (rule bind_run) (rule w1(1))
  also have "\<dots> = remove_pending_delivery (rr_resolution_id r) w2" by (rule bind_run) (rule w2(1))
  finally have "ensure_delivery r w = remove_pending_delivery (rr_resolution_id r) w2" .
  moreover have "remove_pending_delivery (rr_resolution_id r) w2 =
      (Inr (), pending_deliveries_update (AList.delete (yaml_name (rr_resolution_id r))) w2)"
    using w2(2) by (simp add: remove_pending_delivery_def bind_io_def calm_call modify_io_def)
  moreover have "mail_of (team_of w2) = mail_of (team_of w1)" using w2(3) by (simp add: commit_files_def)
  then have "delivered r (team_of w2)" using w1(3) delivered_cong(1) by blast
  ultimately show ?thesis using w1(4,5) w2(3)
    by (intro exI [of _ "pending_deliveries_update (AList.delete (yaml_name (rr_resolution_id r))) w2"])
      (simp add: commit_files_def mail_of_def)
qed

section \<open>Recovery\<close>

lemma calm_write_resolution: "calm w \<Longrightarrow> well_formed r d \<Longrightarrow>
    write_resolution_record r w = (Inr (), resolutions_update (AList.update (yaml_name (rr_dispute_id r)) (Document r)) w)"
  by (simp add: write_resolution_record_def well_formed_def calm_write)

lemma calm_write_dispute: "calm w \<Longrightarrow> well_formed r d \<Longrightarrow> in_store (write_dispute (resolved_with (rr_resolution r) d)) w =
    (Inr (), w\<lparr>res_arb := (res_arb w)\<lparr>arb_team := disputes_update (AList.update (yaml_name (rr_dispute_id r))
       (Document (resolved_with (rr_resolution r) d))) (team_of w)\<rparr>\<rparr>)"
  by (simp add: write_dispute_def well_formed_def calm_store_write) (simp add: resolved_with_def)

lemma calm_read_dispute: "calm w \<Longrightarrow> map_of (disputes_of w) (yaml_name i) = Some (Document x) \<Longrightarrow> in_store (read_dispute i) w = (Inr x, w)"
  using in_store_run [of "read_dispute i" w x "team_of w"]
  by (simp add: read_dispute_def read_yaml_def bind_io_def get_io_def decode_file_def)

lemma record_target_sel [simp]: "target_dispute_id (record_target r) = rr_dispute_id r" "target_resolution_id (record_target r) = rr_resolution_id r"
  by (simp_all add: record_target_def)

text \<open>Without faults a recovery completes every commit, wherever it had stopped.\<close>

lemma recovery_completes:
  assumes "calm w" "recoverable r d w" "well_formed r d"
  shows "\<exists>w'. recover_pending_delivery (record_target r) w = (Inr (), w') \<and> completed r d w'"
proof -
  let ?i = "rr_dispute_id r" and ?rid = "rr_resolution_id r" and ?d' = "resolved_with (rr_resolution r) d"
  have deliverable: "deliverable r (team_of w)" using assms(2) by (auto simp: recoverable_def committed_def)
  obtain q where pend: "read_pending_delivery ?rid w = (Inr q, w)" "pending_for r w \<Longrightarrow> Option.bind q pd_record = Some r"
      "\<not> pending_for r w \<Longrightarrow> q = None"
  proof (cases "pending_for r w")
    case True
    then obtain p where "map_of (pending_deliveries w) (yaml_name ?rid) = Some (Document p)" "pd_record p = Some r"
      by (auto simp: pending_for_def)
    with calm_read_optional [OF assms(1), of pending_deliveries _ p] True show ?thesis
      by (intro that [of "Some p"]) (auto simp: read_pending_delivery_def)
  next
    case False
    then have "map_of (pending_deliveries w) (yaml_name ?rid) = None"
      using assms(2) by (auto simp: recoverable_def committed_def)
    with calm_read_optional [OF assms(1), of pending_deliveries] False show ?thesis
      by (intro that [of None]) (auto simp: read_pending_delivery_def)
  qed
  obtain c where cur: "read_current_resolution_record ?i w = (Inr c, w)" "c \<in> {None, Some r}"
      "map_of (resolutions w) (yaml_name ?i) = Some (Document r) \<Longrightarrow> c = Some r"
    using calm_read_optional [OF assms(1), of resolutions _ r] assms(2)
    by (auto simp: read_current_resolution_record_def recoverable_def committed_def)
  have lock: "in_arb lock_dispute w = (Inr (), w)" by (simp add: lock_dispute_def calm_call assms(1))
  have "pending_for r w \<or> c = Some r" using assms(2) cur(3) by (auto simp: recoverable_def committed_def)
  then have start: "recover_pending_delivery (record_target r) w = recover_with (record_target r) c r w"
    using pend(2,3) by (cases "pending_for r w") (simp_all add: recover_pending_delivery_def bind_io_def lock pend(1) cur(1) has_id_def)
  show ?thesis
  proof (cases "committed r d w")
    case False
    then have unresolved: "map_of (disputes_of w) (yaml_name ?i) = Some (Document d)" using assms(2) by (simp add: recoverable_def)
    define w1 where "w1 = (resolutions_update (AList.update (yaml_name ?i) (Document r)) w)
      \<lparr>res_arb := (res_arb w)\<lparr>arb_team := disputes_update (AList.update (yaml_name ?i) (Document ?d')) (team_of w)\<rparr>\<rparr>"
    have w1: "calm w1" "deliverable r (team_of w1)"
      using assms(1) deliverable by (simp_all add: w1_def deliverable_def deliverable_to_def split: option.splits)
    have committed: "bind_io (write_resolution_record r) (\<lambda>_. in_store (write_dispute ?d')) w = (Inr (), w1)"
      using assms(1,3) by (simp add: bind_io_def calm_write_resolution calm_write_dispute w1_def)
    have again: "write_resolution_record r w1 = (Inr (), w1)"
      using calm_write_resolution [OF w1(1) assms(3)] by (auto simp: w1_def update_last)
    have "recover_pending_delivery (record_target r) w = ensure_delivery r w1"
      using assms(3) unresolved unfolding start recover_with_def
      by (simp add: bind_io_def calm_read_dispute [OF assms(1) unresolved] well_formed_def can_recover_commit_def committed [unfolded bind_io_def] again return_io_def)
    with calm_delivery [OF w1] show ?thesis by (auto simp: completed_def w1_def)
  next
    case True
    then have x: "map_of (disputes_of w) (yaml_name ?i) = Some (Document ?d')" "map_of (resolutions w) (yaml_name ?i) = Some (Document r)"
      by (auto simp: committed_def)
    have "recover_pending_delivery (record_target r) w = ensure_delivery r w"
      using assms(3) cur(3) [OF x(2)] unfolding start recover_with_def
      by (simp add: bind_io_def calm_read_dispute [OF assms(1) x(1)] well_formed_def resolved_with_def has_id_def x(2) return_io_def)
    with calm_delivery [OF assms(1) deliverable] x show ?thesis by (auto simp: completed_def)
  qed
qed

section \<open>Delivery with faults\<close>

lemma commit_cong:
  assumes "commit_files w' = commit_files w"
  shows "committed r d w' = committed r d w" "recoverable r d w' = recoverable r d w"
  using assms delivered_cong(2) [of "team_of w'" "team_of w" r]
  by (simp_all add: committed_def recoverable_def pending_for_def commit_files_def mail_of_def)

lemma committed_quiet: "within (same commit_files) m \<Longrightarrow> keeping (committed r d) m (\<lambda>_. True)"
  unfolding keeping_def by (metis within_sameD commit_cong(1))

text \<open>A write of one file of the team, successful or not.\<close>

lemma store_write_cases:
  assumes "in_store (write_yaml_atomic upd n x) w = (q, w')"
  obtains (failed) e fs where "q = Inl e" "w' = w\<lparr>res_arb := (res_arb w)\<lparr>arb_team := (team_of w)\<lparr>io_faults := fs\<rparr>\<rparr>\<rparr>"
  | (written) fs where "q = Inr ()" "w' = w\<lparr>res_arb := (res_arb w)\<lparr>arb_team := upd (AList.update n (Document x)) ((team_of w)\<lparr>io_faults := fs\<rparr>)\<rparr>\<rparr>"
proof -
  obtain p t where p: "io_call (team_of w) = (p, t)" by fastforce
  then obtain fs where t: "t = (team_of w)\<lparr>io_faults := fs\<rparr>"
    by (cases "io_faults (team_of w)") (auto simp: io_call_def intro: that [of "[]"] that)
  show ?thesis
    using assms p t failed written by (cases p) (auto simp: in_arb_def in_team_def write_yaml_atomic_def bind_io_def modify_io_def)
qed

lemma committed_policy:
  assumes "rr_delivery_intent r = Some intent"
  shows "keeping (committed r d) (in_store (write_yaml_atomic policies_update (yaml_name (policy_id (intent_policy intent))) (intent_policy intent))) (\<lambda>_. True)"
proof (rule keepingI)
  fix w q w'
  assume w: "committed r d w" and run: "in_store (write_yaml_atomic policies_update (yaml_name (policy_id (intent_policy intent))) (intent_policy intent)) w = (q, w')"
  from run have "committed r d w'"
    by (cases rule: store_write_cases) (use w assms in \<open>auto simp: committed_def pending_for_def deliverable_def deliverable_to_def\<close>)
  then show "committed r d w' \<and> (\<forall>x. q = Inr x \<longrightarrow> True)" by simp
qed

lemma committed_entry:
  assumes "rr_delivery_intent r = Some intent" "t \<in> set (intent_targets intent)"
  shows "keeping (committed r d) (in_store (outbox_write (intent_entry r intent t))) (\<lambda>_. True)"
proof (rule keepingI)
  fix w q w'
  assume w: "committed r d w" and run: "in_store (outbox_write (intent_entry r intent t)) w = (q, w')"
  have id: "entry_inbox_id (intent_entry r intent t) = intent_inbox_id t" by (simp add: intent_entry_def)
  have old: "\<forall>u \<in> set (intent_targets intent). deliverable_to r intent u (team_of w)"
    using w assms(1) by (simp add: committed_def deliverable_def)
  from run [unfolded outbox_write_def] have "committed r d w'"
  proof (cases rule: store_write_cases)
    case (failed e fs)
    with w show ?thesis using commit_cong(1) [of w' w] by (simp add: commit_files_def mail_of_def)
  next
    case (written fs)
    have "deliverable_to r intent u (team_of w')" if "u \<in> set (intent_targets intent)" for u
    proof (cases "intent_inbox_id u = intent_inbox_id t")
      case True
      have "distinct (map intent_inbox_id (intent_targets intent))" using w assms(1) by (simp add: committed_def deliverable_def)
      then have "u = t" using True that assms(2) by (auto simp: distinct_map inj_on_def)
      then show ?thesis by (simp add: written id deliverable_to_def)
    next
      case False
      with old that show ?thesis by (simp add: written id deliverable_to_def)
    qed
    with w assms(1) show ?thesis by (simp add: committed_def deliverable_def pending_for_def written)
  qed
  then show "committed r d w' \<and> (\<forall>x. q = Inr x \<longrightarrow> True)" by simp
qed

lemma committed_reserved:
  assumes "keeping (committed r d) wr (\<lambda>_. True)" "\<And>x. keeping (committed r d) (found x) (\<lambda>_. True)"
  shows "keeping (committed r d) (write_if_reserved get n found wr) (\<lambda>_. True)"
  unfolding write_if_reserved_def on_read_error_def
  by (rule keeping_bind [OF committed_quiet [OF same.within_attempt [OF commit_files.quiet_read]]])
    (auto split: sum.split res_error.split arb_error.split team_error.split
      intro!: assms keeping_throw keeping_bind [OF committed_quiet [OF commit_files.quiet_team [OF mail_of.within_io_call]]]
        keeping_bind [OF committed_quiet [OF same.within_get]])

lemma committed_for: "(\<And>x. x \<in> set xs \<Longrightarrow> keeping I (m x) (\<lambda>_. True)) \<Longrightarrow> keeping I (for_io m xs) (\<lambda>_. True)"
  by (induction xs) (auto intro: keeping_return keeping_bind)

lemma committed_deliver:
  assumes "rr_delivery_intent r = Some intent"
  shows "keeping (committed r d) (deliver_intent r intent) (\<lambda>_. True)"
  unfolding deliver_intent_def ensure_policy_def ensure_outbox_entry_def lock_outbox_file_def
  by (intro keeping_bind [OF committed_quiet [OF commit_files.quiet_team [OF mail_of.within_io_call]]]
      keeping_bind [OF committed_reserved] committed_reserved committed_for committed_policy [OF assms] committed_entry [OF assms]
      keeping_if keeping_return keeping_throw TrueI)

text \<open>The indexes, the observation and the histories are beside the files of a commit.\<close>

lemma beside_modify: "(\<And>w. res_arb (h w) = res_arb w \<and> resolutions (h w) = resolutions w \<and> pending_deliveries (h w) = pending_deliveries w) \<Longrightarrow>
    within (same commit_files) (modify_io h)"
  by (rule same.within_modify) (simp add: same_def commit_files_def)

lemma beside_write: "(\<And>h w. res_arb (upd h w) = res_arb w \<and> resolutions (upd h w) = resolutions w \<and> pending_deliveries (upd h w) = pending_deliveries w) \<Longrightarrow>
    within (same commit_files) (res_write upd n x)"
  unfolding res_write_def by (intro commit_files.quiet_intros beside_modify)

lemma beside_after_delivery:
  "within (same commit_files) (register_resolution_event_targets r)" "within (same commit_files) (write_pending_observation t)"
  "within (same commit_files) (ensure_resolution_history r)"
  unfolding register_resolution_event_targets_def write_pending_observation_def ensure_resolution_history_def Let_def
    ensure_policy_event_def ensure_dispute_resolution_event_def
  by (intro commit_files.quiet_intros beside_write beside_modify; simp)+

lemma committed_remove: "keeping (committed r d) (remove_pending_delivery (rr_resolution_id r)) (\<lambda>_. True)"
proof -
  have "keeping (committed r d) (modify_io (pending_deliveries_update (AList.delete (yaml_name (rr_resolution_id r))))) (\<lambda>_. True)"
    by (rule keepingI) (auto simp: modify_io_def committed_def)
  then show ?thesis unfolding remove_pending_delivery_def
    by (rule keeping_bind [OF committed_quiet [OF commit_files.quiet_team [OF mail_of.within_io_call]]])
qed

lemma committed_delivery: "keeping (committed r d) (ensure_delivery r) (\<lambda>_. True)"
  unfolding ensure_delivery_def
  by (intro keeping_bind [where P = "\<lambda>_. True"] keeping_option keeping_return TrueI committed_deliver
      committed_quiet [OF beside_after_delivery(1)] committed_quiet [OF beside_after_delivery(2)]
      committed_quiet [OF beside_after_delivery(3)] committed_remove)

section \<open>The intent of a new resolution\<close>

definition beside_mail :: "res_store \<Rightarrow> maintainer_dispute_record dir \<times> arbitration_resolution_record dir \<times> pending_resolution_delivery dir" where
  "beside_mail w = (disputes_of w, resolutions w, pending_deliveries w)"

interpretation beside_mail: reading_calls disputes beside_mail
  by unfold_locales (simp add: beside_mail_def)

definition reserved_targets :: "delivery_target_intent list \<Rightarrow> res_store \<Rightarrow> bool" where
  "reserved_targets ts w \<longleftrightarrow> distinct (map intent_inbox_id ts)
     \<and> (\<forall>t \<in> set ts. map_of (outbox (team_of w)) (yaml_name (intent_inbox_id t)) = Some EmptyFile)"

lemma mint_targets_reserves:
  "mint_targets mc kind as out w = (Inr ts, w') \<Longrightarrow> reserved_targets out w \<Longrightarrow>
   reserved_targets ts w' \<and> policies (team_of w') = policies (team_of w)"
proof (induction as arbitrary: out w)
  case Nil
  then show ?case by simp
next
  case (Cons a as)
  from Cons.prems(1) obtain i w1 where i: "in_store (mint_inbox_id_for_outbox mc) w = (Inr i, w1)"
      and rest: "mint_targets mc kind as (out @ [\<lparr>intent_inbox_id = i, intent_target_agent = a,
        intent_inbox_message = \<lparr>message_id = i, message_kind = kind, handled_at = None\<rparr>\<rparr>]) w1 = (Inr ts, w')"
    by (auto simp: io_iffs)
  from i obtain s where s: "mint_inbox_id_for_outbox mc (team_of w) = (Inr i, s)" and w1: "team_of w1 = s"
    by (auto simp: in_arb_Inr_iff in_team_Inr_iff)
  have policies: "policies s = policies (team_of w)"
    using within_sameD [OF policies_by_outbox.within_mint s [unfolded mint_inbox_id_for_outbox_def]] .
  from s [unfolded mint_inbox_id_for_outbox_def] have new: "map_of (outbox (team_of w)) (yaml_name i) = None"
      "outbox s = outbox (team_of w) @ [(yaml_name i, EmptyFile)]"
    by (cases rule: outbox_dir.mint_cases; auto)+
  then have "reserved_targets (out @ [\<lparr>intent_inbox_id = i, intent_target_agent = a,
        intent_inbox_message = \<lparr>message_id = i, message_kind = kind, handled_at = None\<rparr>\<rparr>]) w1"
    using Cons.prems(2) w1 by (auto simp: reserved_targets_def map_add_def)
  from Cons.IH [OF rest this] w1 policies show ?case by simp
qed

lemma build_reserves:
  assumes "build_delivery_intent mc d cs s h src now w = (Inr intent, w')"
  shows "map_of (policies (team_of w')) (yaml_name (policy_id (intent_policy intent))) = Some EmptyFile
    \<and> reserved_targets (intent_targets intent) w'"
proof -
  from assms obtain w1 pid w2 action w3 kind as where pid: "in_store (mint_policy_id mc) w1 = (Inr pid, w2)"
      and action: "mint_action_id mc w2 = (Inr action, w3)" and ts: "mint_targets mc kind as [] w3 = (Inr (intent_targets intent), w')"
      and p: "policy_id (intent_policy intent) = pid"
    by (auto simp: build_delivery_intent_def Let_def io_iffs split: if_splits)
  from pid obtain t where t: "mint_policy_id mc (team_of w1) = (Inr pid, t)" "team_of w2 = t"
    by (auto simp: in_arb_Inr_iff in_team_Inr_iff)
  from t(1) [unfolded mint_policy_id_def] have "map_of (policies t) (yaml_name pid) = Some EmptyFile"
    by (cases rule: policies_dir.mint_cases) (auto simp: map_add_def)
  moreover have "policies (team_of w3) = policies t"
    using within_sameD [OF commit_files.quiet_mint_action action] t(2) by (simp add: commit_files_def mail_of_def)
  ultimately show ?thesis using mint_targets_reserves [OF ts] p by (simp add: reserved_targets_def)
qed

lemma reserved_deliverable:
  assumes "map_of (policies (team_of w)) (yaml_name (policy_id (intent_policy intent))) = Some EmptyFile"
    "reserved_targets (intent_targets intent) w" "rr_delivery_intent r = Some intent"
  shows "deliverable r (team_of w)"
  using assms by (simp add: deliverable_def reserved_targets_def deliverable_to_def)

section \<open>The commit\<close>

lemma read_Inr: "res_read get n w = (Inr x, w') \<Longrightarrow> map_of (get w') n = Some (Document x)"
  by (auto simp: res_read_def io_iffs decode_file_def split: option.splits yaml_file.splits)

lemma read_optional_Some:
  assumes "res_read_optional get n w = (Inr (Some x), w')"
  shows "map_of (get w') n = Some (Document x)"
proof -
  obtain q w1 where q: "res_read get n w = (q, w1)" by fastforce
  show ?thesis
  proof (cases q)
    case (Inl e)
    with assms q show ?thesis
      by (auto simp: res_read_optional_def bind_io_def attempt_io_def return_io_def throw_io_def
          split: res_error.splits arb_error.splits team_error.splits)
  next
    case (Inr y)
    with assms q have "w' = w1" "y = x" by (auto simp: res_read_optional_def bind_io_def attempt_io_def)
    with q Inr show ?thesis by (simp add: read_Inr)
  qed
qed

lemma persisted:
  assumes "persist_pending_delivery r now w = (q, w')"
  shows "mail_of (team_of w') = mail_of (team_of w) \<and> resolutions w' = resolutions w
    \<and> (pending_deliveries w' = pending_deliveries w \<and> q \<noteq> Inr () \<or> pending_for r w')"
proof -
  obtain p w1 where p: "read_pending_delivery (rr_resolution_id r) w = (p, w1)" by fastforce
  have w1: "commit_files w1 = commit_files w" using within_sameD [OF commit_files.quiet_read_pending p] .
  have wr: "mail_of (team_of w') = mail_of (team_of w1) \<and> resolutions w' = resolutions w1
      \<and> (pending_deliveries w' = pending_deliveries w1 \<and> q \<noteq> Inr () \<or> pending_for r w')"
    if "write_pending_delivery x w1 = (q, w')" "target_resolution_id (pd_target x) = rr_resolution_id r" "pd_record x = Some r" for x
  proof -
    obtain u w2 where u: "in_store io_call w1 = (u, w2)" by fastforce
    have "commit_files w2 = commit_files w1" using within_sameD [OF commit_files.quiet_team [OF mail_of.within_io_call] u] .
    with that u show ?thesis
      by (cases u) (auto simp: write_pending_delivery_def res_write_def bind_io_def modify_io_def commit_files_def pending_for_def)
  qed
  have found: "pending_for r w1" if "p = Inr (Some x)" "pd_record x = Some r" for x
    using read_optional_Some p that by (fastforce simp: read_pending_delivery_def pending_for_def)
  show ?thesis
  proof (cases p)
    case (Inl e)
    with assms p w1 show ?thesis by (auto simp: persist_pending_delivery_def bind_io_def commit_files_def)
  next
    case (Inr x)
    show ?thesis
    proof (cases x)
      case None
      with Inr assms p have "write_pending_delivery \<lparr>pd_schema_version = arbitration_schema_version, pd_target = record_target r,
          pd_record = Some r, pd_created_at = now, pd_retry_count = 0, pd_next_retry_at = None\<rparr> w1 = (q, w')"
        by (simp add: persist_pending_delivery_def bind_io_def)
      from wr [OF this] w1 show ?thesis by (simp add: commit_files_def)
    next
      case (Some y)
      note run = assms [unfolded persist_pending_delivery_def bind_io_def p Inr Some, simplified]
      show ?thesis
      proof (cases "pd_target y = record_target r \<and> pd_record y = None")
        case True
        with run have "write_pending_delivery (y\<lparr>pd_record := Some r\<rparr>) w1 = (q, w')" by simp
        from wr [OF this] True w1 show ?thesis by (simp add: commit_files_def)
      next
        case False
        with run have "w' = w1" "q = Inr () \<Longrightarrow> pd_record y = Some r" by (auto split: option.splits if_splits)
        with w1 found Inr Some show ?thesis by (cases "q = Inr ()") (auto simp: commit_files_def)
      qed
    qed
  qed
qed

lemma res_write_cases:
  assumes "res_write upd n x w = (q, w')"
  obtains (failed) e where "q = Inl e" "commit_files w' = commit_files w"
  | (written) w1 where "q = Inr ()" "commit_files w1 = commit_files w" "w' = upd (AList.update n (Document x)) w1"
proof -
  obtain u w1 where u: "in_store io_call w = (u, w1)" by fastforce
  have "commit_files w1 = commit_files w" using within_sameD [OF commit_files.quiet_team [OF mail_of.within_io_call] u] .
  with assms u failed written show ?thesis by (cases u) (auto simp: res_write_def bind_io_def modify_io_def)
qed

text \<open>The two files of the commit itself, from the open dispute.\<close>

lemma files_outcome:
  assumes run: "bind_io (write_resolution_record r) (\<lambda>_. in_store (write_dispute (resolved_with (rr_resolution r) d))) w = (q, w')"
    and w: "pending_for r w" "deliverable r (team_of w)" "map_of (disputes_of w) (yaml_name (rr_dispute_id r)) = Some (Document d)"
      "map_of (resolutions w) (yaml_name (rr_dispute_id r)) \<in> {None, Some (Document r)}"
    and r: "well_formed r d"
  shows "recoverable r d w' \<and> (q = Inr () \<longrightarrow> committed r d w')"
proof -
  have now: "recoverable r d w" using w by (simp add: recoverable_def)
  obtain q1 w1 where first: "res_write resolutions_update (yaml_name (rr_dispute_id r)) r w = (q1, w1)" by fastforce
  have rec: "write_resolution_record r w = (q1, w1)" using first r by (simp add: write_resolution_record_def well_formed_def)
  from first show ?thesis
  proof (cases rule: res_write_cases)
    case (failed e)
    with run rec have "q = Inl e" "w' = w1" by (simp_all add: bind_io_def)
    with failed now commit_cong(2) [of w1 w] show ?thesis by simp
  next
    case (written w0)
    have "recoverable r d w0" using commit_cong(2) [OF written(2)] now by simp
    have w1: "recoverable r d w1" "pending_for r w1" "deliverable r (team_of w1)"
        "map_of (resolutions w1) (yaml_name (rr_dispute_id r)) = Some (Document r)"
      using w written(2) delivered_cong(2) [of "team_of w0" "team_of w" r]
      by (simp_all add: written(3) recoverable_def pending_for_def commit_files_def mail_of_def)
    have dispute: "in_store (write_yaml_atomic disputes_update (yaml_name (rr_dispute_id r)) (resolved_with (rr_resolution r) d)) w1 = (q, w')"
      using run rec written(1) r by (simp add: bind_io_def write_dispute_def well_formed_def resolved_with_def)
    then show ?thesis
    proof (cases rule: store_write_cases)
      case (failed e fs)
      with w1 commit_cong(2) [of w' w1] show ?thesis by (simp add: commit_files_def mail_of_def)
    next
      case (written fs)
      have "committed r d w'" using w1
        by (simp add: committed_def written pending_for_def deliverable_def deliverable_to_def split: option.splits)
      then show ?thesis by (simp add: recoverable_def)
    qed
  qed
qed

lemma commit_outcome:
  assumes run: "commit_resolution i d r now w = (q, w')" and r: "well_formed r d" "rr_dispute_id r = i" "resolution_resolved_at (rr_resolution r) = now"
    and w: "deliverable r (team_of w)" "map_of (disputes_of w) (yaml_name i) = Some (Document d)" "map_of (resolutions w) (yaml_name i) = None"
  shows "beside_mail w' = beside_mail w \<and> (\<exists>e. q = Inl e) \<or> recoverable r d w' \<and> (\<forall>x. q = Inr x \<longrightarrow> x = r)"
proof -
  obtain q1 w1 where first: "persist_pending_delivery r now w = (q1, w1)" by fastforce
  note p = persisted [OF first]
  have w1: "deliverable r (team_of w1)" "disputes_of w1 = disputes_of w" "resolutions w1 = resolutions w"
    using p w(1) delivered_cong(2) [of "team_of w1" "team_of w" r] by (simp_all add: mail_of_def)
  show ?thesis
  proof (cases "pending_for r w1")
    case False
    with p run first show ?thesis
      by (cases q1) (auto simp: commit_resolution_def bind_io_def beside_mail_def mail_of_def)
  next
    case pending: True
    show ?thesis
    proof (cases q1)
      case (Inl e)
      with run first have "w' = w1" "q = Inl e" by (auto simp: commit_resolution_def bind_io_def)
      with pending w1 w r(2) show ?thesis by (simp add: recoverable_def)
    next
      case (Inr u)
      obtain q2 w2 where files: "bind_io (write_resolution_record r) (\<lambda>_. in_store (write_dispute (resolved_with (rr_resolution r) d))) w1 = (q2, w2)"
        by fastforce
      have rest: "bind_io (bind_io (write_resolution_record r) (\<lambda>_. in_store (write_dispute (resolved_with (rr_resolution r) d))))
          (\<lambda>_. bind_io (preempt_current_analysis_locked i now) (\<lambda>_. bind_io (attempt_io (ensure_delivery r)) (\<lambda>_. return_io r))) w1 = (q, w')"
      proof -
        have eq: "d\<lparr>record_dispute := record_dispute d\<lparr>dispute_status := Resolved, dispute_resolved_at := Some now\<rparr>,
            record_resolution := Some (rr_resolution r)\<rparr> = resolved_with (rr_resolution r) d" using r(3) by (simp add: resolved_with_def)
        have "commit_resolution i d r now w = bind_io (write_resolution_record r) (\<lambda>_. bind_io (in_store (write_dispute (resolved_with (rr_resolution r) d)))
            (\<lambda>_. bind_io (preempt_current_analysis_locked i now) (\<lambda>_. bind_io (attempt_io (ensure_delivery r)) (\<lambda>_. return_io r)))) w1"
          unfolding commit_resolution_def eq by (rule bind_run) (simp add: first Inr)
        with run show ?thesis by (simp only: bind_io_assoc)
      qed
      have out: "recoverable r d w2 \<and> (q2 = Inr () \<longrightarrow> committed r d w2)"
        using files_outcome [OF files pending w1(1)] w w1 r by simp
      show ?thesis
      proof (cases q2)
        case (Inl e)
        with rest files out show ?thesis by (auto simp: bind_io_def [of "bind_io _ _"])
      next
        case (Inr v)
        have "keeping (committed r d) (bind_io (preempt_current_analysis_locked i now) (\<lambda>_. bind_io (attempt_io (ensure_delivery r)) (\<lambda>_. return_io r)))
            (\<lambda>x. x = r)"
          by (rule keeping_bind [OF committed_quiet [OF commit_files.quiet_preempt]] keeping_bind [OF keeping_attempt [OF committed_delivery]]
              keeping_return refl)+
        with rest files Inr out show ?thesis
          by (auto simp: bind_io_def [of "bind_io _ _"] recoverable_def keeping_def)
      qed
    qed
  qed
qed

section \<open>A new human resolution\<close>

text \<open>
  What may be left of a call: nothing at all, or a resolution that a recovery completes.
\<close>

type_synonym commit_view = "maintainer_dispute_record dir \<times> arbitration_resolution_record dir \<times> pending_resolution_delivery dir"

definition accounted :: "commit_view \<Rightarrow> dispute_id \<Rightarrow> human_resolution_input \<Rightarrow> maintainer_dispute_record
    \<Rightarrow> (res_error + arbitration_resolution_record) \<times> res_store \<Rightarrow> bool" where
  "accounted b i input d x \<longleftrightarrow> (\<exists>e. fst x = Inl e) \<and> beside_mail (snd x) = b
     \<or> (\<exists>r. rr_dispute_id r = i \<and> resolved_by (rr_resolution r) = Human \<and> human_resolution_matches_input r input
          \<and> well_formed r d \<and> recoverable r d (snd x) \<and> (\<forall>y. fst x = Inr y \<longrightarrow> y = r))"

lemma accounted_bind:
  assumes "keeping (\<lambda>w. beside_mail w = b) m P" "\<And>x w1. beside_mail w1 = b \<Longrightarrow> P x \<Longrightarrow> accounted b i input d (k x w1)"
    "beside_mail w = b"
  shows "accounted b i input d (bind_io m k w)"
proof -
  obtain p w1 where p: "m w = (p, w1)" by fastforce
  with assms(1,3) have w1: "beside_mail w1 = b" "\<And>x. p = Inr x \<Longrightarrow> P x" by (auto simp: keeping_def)
  show ?thesis
  proof (cases p)
    case (Inl e)
    with p w1 show ?thesis by (simp add: bind_io_def accounted_def)
  next
    case (Inr x)
    with p w1 assms(2) show ?thesis by (simp add: bind_io_def)
  qed
qed

lemma accounted_throw: "beside_mail w = b \<Longrightarrow> accounted b i input d (throw_io e w)"
  by (simp add: accounted_def throw_io_def)

lemma unchanged: "within (same beside_mail) m \<Longrightarrow> keeping (\<lambda>w. beside_mail w = b) m (\<lambda>_. True)"
  unfolding keeping_def by (metis within_sameD)

lemma keeping_value_of: "within (same beside_mail) m \<Longrightarrow> (\<And>w x w'. m w = (Inr x, w') \<Longrightarrow> beside_mail w' = b \<Longrightarrow> Q x) \<Longrightarrow>
    keeping (\<lambda>w. beside_mail w = b) m Q"
  unfolding keeping_def by (metis within_sameD)

text \<open>Nothing to recover.\<close>

lemma read_listed_docs: "read_listed d out w = (Inr xs, w') \<Longrightarrow> x \<in> set xs \<Longrightarrow> x \<in> set out \<or> (\<exists>n. (n, Document x) \<in> set d)"
proof (induction d out arbitrary: w rule: read_listed.induct)
  case (2 n f fs out)
  show ?case
  proof (cases "is_yaml_file_name n")
    case True
    with 2(3) obtain y w1 where y: "decode_file n (Some f) = Inr y" "read_listed fs (out @ [y]) w1 = (Inr xs, w')"
      by (cases "decode_file n (Some f)") (auto simp: io_iffs lift_sum_def split: sum.splits)
    have "f = Document y" using y(1) by (auto simp: decode_file_def split: yaml_file.splits)
    with 2(2) [OF _ y(2) 2(4)] True show ?thesis by auto
  qed (use 2 in auto)
qed simp

definition nothing_pending :: "dispute_id \<Rightarrow> pending_resolution_delivery dir \<Rightarrow> bool" where
  "nothing_pending i ps \<longleftrightarrow> (\<forall>n p r. (n, Document p) \<in> set ps \<longrightarrow> pd_record p = Some r \<longrightarrow> rr_dispute_id r \<noteq> i)"

lemma list_pending_value:
  assumes "list_pending_deliveries w = (Inr ps, w')" "nothing_pending i (pending_deliveries w')" "p \<in> set ps" "pd_record p = Some r"
  shows "rr_dispute_id r \<noteq> i"
proof -
  have same: "pending_deliveries w' = pending_deliveries w"
    using within_sameD [OF beside_mail.quiet_list_pending assms(1)] by (simp add: beside_mail_def)
  from assms(1) have "ps = [] \<or> (\<exists>w3. read_listed (pending_deliveries w) [] w3 = (Inr ps, w'))"
    unfolding list_pending_deliveries_def list_yaml_def
    by (auto simp: io_iffs in_arb_def split: if_splits prod.splits)
  with read_listed_docs assms(2-4) same show ?thesis unfolding nothing_pending_def by fastforce
qed

lemma recover_nothing:
  assumes "map_of rs (yaml_name i) = None" "nothing_pending i ps" "record_resolution d = None"
  shows "keeping (\<lambda>w. beside_mail w = (ds, rs, ps)) (recover_human_resolution_locked i d) (\<lambda>x. x = (d, None))"
proof -
  have current: "keeping (\<lambda>w. beside_mail w = (ds, rs, ps)) (read_current_resolution_record i) (\<lambda>c. c = None)"
  proof (rule keeping_value_of [OF beside_mail.quiet_read_current])
    fix w c w'
    assume run: "read_current_resolution_record i w = (Inr c, w')" and w': "beside_mail w' = (ds, rs, ps)"
    show "c = None"
    proof (cases c)
      case (Some x)
      with run w' assms(1) read_optional_Some [of resolutions "yaml_name i" w x w']
      show ?thesis by (simp add: read_current_resolution_record_def beside_mail_def)
    qed
  qed
  have pending: "keeping (\<lambda>w. beside_mail w = (ds, rs, ps)) list_pending_deliveries (\<lambda>xs. \<forall>p \<in> set xs. \<forall>r. pd_record p = Some r \<longrightarrow> rr_dispute_id r \<noteq> i)"
    by (rule keeping_value_of [OF beside_mail.quiet_list_pending]) (use assms(2) list_pending_value in \<open>fastforce simp: beside_mail_def\<close>)
  show ?thesis unfolding recover_human_resolution_locked_def
  proof (rule keeping_bind [OF current], rule keeping_bind [OF pending])
    fix c xs
    assume c: "c = (None :: arbitration_resolution_record option)" and xs: "\<forall>p \<in> set xs. \<forall>r. pd_record p = Some r \<longrightarrow> rr_dispute_id r \<noteq> i"
    have "filter (\<lambda>r. rr_dispute_id r = i \<and> resolved_by (rr_resolution r) = Human) (List.map_filter pd_record xs) = []"
      using xs by (induction xs) (auto simp: List.map_filter_simps split: option.split)
    then show "keeping (\<lambda>w. beside_mail w = (ds, rs, ps)) (let human = filter (\<lambda>r. rr_dispute_id r = i \<and> resolved_by (rr_resolution r) = Human) (List.map_filter pd_record xs) in
     if 1 < length human then throw_io SeveralHumanIntents
     else
       let stored = (case human of [] \<Rightarrow> c | r # _ \<Rightarrow> Some r) in
       bind_io (case stored of
           Some r \<Rightarrow> if recovers_human r d
             then bind_io (write_resolution_record r) (\<lambda>_.
                  bind_io (in_store (write_dispute (resolved_with (rr_resolution r) d))) (\<lambda>_.
                  return_io (resolved_with (rr_resolution r) d)))
             else return_io d
         | None \<Rightarrow> return_io d) (\<lambda>d'.
       case record_resolution d' of
         None \<Rightarrow> return_io (d', None)
       | Some s \<Rightarrow>
           if resolved_by s \<noteq> Human then return_io (d', None)
           else (case stored of
             None \<Rightarrow> throw_io HumanRecordMissing
           | Some r \<Rightarrow> if rr_resolution_id r \<noteq> resolution_id s then throw_io HumanRecordDiffers else return_io (d', Some r)))) (\<lambda>x. x = (d, None))"
      using assms(3) c by (simp add: Let_def keeping_def)
  qed
qed

lemma assessments_match_refl [simp]: "assessments_match xs xs"
  by (simp add: assessments_match_def list_all_iff)

lemma validated_input:
  "validate_human_input input = Inr () \<Longrightarrow> str_trim (hi_conclusion input) \<noteq> [] \<and> hi_resolution_basis input \<noteq> Some InsufficientEvidence
     \<and> (case hi_resolution_type input of None \<Rightarrow> True | Some k \<Rightarrow> is_resolved k)"
  by (cases "hi_resolution_type input") (simp_all add: validate_human_input_def split: if_splits)

lemma accounted_open:
  assumes "validate_human_input input = Inr ()" "dispute_id (record_dispute d) = i" "record_resolution d = None"
    and b: "b = (ds, rs, ps)" "map_of ds (yaml_name i) = Some (Document d)" "map_of rs (yaml_name i) = None" "beside_mail w = b"
  shows "accounted b i input d (resolve_open mc i d input now w)"
proof -
  have commit: "accounted b i input d (commit_resolution i d r now w2)"
    if r: "r = human_record i (record_dispute d) s cs None None intent None now" "resolution_resolved_at s = now" "resolved_by s = Human"
        "resolution_type s = hi_resolution_type input" "resolution_basis s = hi_resolution_basis input" "conclusion s = hi_conclusion input"
        "claim_assessments s = hi_claim_assessments input" "rejection_reason s = None" "(intent \<noteq> None) = notify_affected_agents input"
      and w2: "beside_mail w2 = b" "deliverable r (team_of w2)" for r s cs intent w2
  proof -
    obtain q w3 where run: "commit_resolution i d r now w2 = (q, w3)" by fastforce
    have wf: "well_formed r d" using validated_input [OF assms(1)] assms(2,3) r
      by (simp add: well_formed_def human_record_def validate_dispute_record_def resolved_with_def)
    have same: "rr_dispute_id r = i" "rr_resolution r = s" "human_resolution_matches_input r input"
      using r by (simp_all add: human_record_def human_resolution_matches_input_def)
    have "map_of (disputes_of w2) (yaml_name i) = Some (Document d)" "map_of (resolutions w2) (yaml_name i) = None"
      using b w2(1) by (simp_all add: beside_mail_def)
    from commit_outcome [OF run wf same(1) _ w2(2) this] r(2) same(2) w2(1)
    have "beside_mail w3 = b \<and> (\<exists>e. q = Inl e) \<or> recoverable r d w3 \<and> (\<forall>x. q = Inr x \<longrightarrow> x = r)" by simp
    with wf same r(3) run show ?thesis by (auto simp: accounted_def)
  qed
  show ?thesis unfolding resolve_open_def Let_def
  proof (rule accounted_bind [OF unchanged [OF beside_mail.quiet_human_snapshots]],
      rule accounted_bind [OF unchanged [OF beside_mail.quiet_mint_resolution]])
    fix cs rid w2
    assume w2: "beside_mail w2 = b"
    let ?s = "\<lparr>resolution_id = rid, resolved_by = Human, resolution_resolved_at = now, resolution_type = hi_resolution_type input,
      resolution_basis = hi_resolution_basis input, conclusion = hi_conclusion input,
      claim_assessments = hi_claim_assessments input, rejection_reason = None\<rparr>"
    let ?build = "build_delivery_intent mc (record_dispute d) cs ?s None None now"
    let ?commit = "\<lambda>intent. commit_resolution i d (human_record i (record_dispute d) ?s cs None None intent None now) now"
    show "accounted b i input d (bind_io (if notify_affected_agents input then bind_io ?build (\<lambda>x. return_io (Some x)) else return_io None) ?commit w2)"
    proof (cases "notify_affected_agents input")
      case False
      have "accounted b i input d (?commit None w2)"
        by (rule commit [OF refl]) (simp_all add: False w2 deliverable_def, simp add: human_record_def)
      with False show ?thesis by (simp add: bind_io_def return_io_def)
    next
      case True
      obtain q w3 where build: "?build w2 = (q, w3)" by fastforce
      have w3: "beside_mail w3 = b"
        using within_sameD [OF beside_mail.quiet_build_by [OF minting_keeps_disputes] build] w2 by simp
      show ?thesis
      proof (cases q)
        case (Inl e)
        with True build w3 show ?thesis by (simp add: bind_io_def accounted_def)
      next
        case (Inr intent)
        with build have "deliverable (human_record i (record_dispute d) ?s cs None None (Some intent) None now) (team_of w3)"
          using build_reserves [of mc "record_dispute d" cs ?s None None now w2 intent w3]
          by (intro reserved_deliverable [of _ intent]) (simp_all add: human_record_def)
        with True w3 have "accounted b i input d (?commit (Some intent) w3)" by (intro commit [OF refl]) simp_all
        with True build Inr show ?thesis by (simp add: bind_io_def return_io_def)
      qed
    qed
  qed (use b in simp_all)
qed

lemma accounted_resolve:
  assumes "dispute_id (record_dispute d) = i" "record_resolution d = None" "nothing_pending i ps"
    "b = (ds, rs, ps)" "map_of ds (yaml_name i) = Some (Document d)" "map_of rs (yaml_name i) = None" "beside_mail w = b"
  shows "accounted b i input d (resolve_human mc i input now w)"
proof (cases "validate_human_input input")
  case (Inl e)
  with assms(7) show ?thesis by (simp add: resolve_human_def bind_io_def lift_sum_def accounted_def throw_io_def)
next
  case (Inr u)
  have read: "keeping (\<lambda>w. beside_mail w = b) (in_store (read_dispute i)) (\<lambda>x. x = d)"
  proof (rule keeping_value_of [OF beside_mail.quiet_team])
    show "within (same disputes) (read_dispute i)" by (simp add: read_dispute_def disputes_dir.within_read_yaml)
    fix w x w'
    assume "in_store (read_dispute i) w = (Inr x, w')" "beside_mail w' = b"
    then show "x = d" using assms(4,5)
      by (auto simp: in_arb_Inr_iff in_team_Inr_iff read_dispute_def beside_mail_def dest!: disputes_dir.read_yaml_ok)
  qed
  have input: "validate_human_input input = Inr ()" "lift_sum (validate_human_input input) = return_io u" using Inr by (simp_all add: lift_sum_def)
  show ?thesis unfolding resolve_human_def input(2)
  proof (rule accounted_bind [OF keeping_return], rule TrueI, rule accounted_bind [OF unchanged [OF beside_mail.quiet_lock]],
      rule accounted_bind [OF read])
    fix x w1
    assume w1: "beside_mail w1 = b" and x: "x = d"
    have rest: "accounted b i input d (bind_io (recover_human_resolution_locked i d) (\<lambda>(d', found). case found of
         Some r \<Rightarrow> finish_recovered i now (human_resolution_matches_input r input) r
       | None \<Rightarrow>
           if dispute_status (record_dispute d') \<noteq> Open then throw_io DisputeResolvedAlready
           else resolve_open mc i d' input now) w1)"
      using accounted_open [OF input(1) assms(1,2,4,5,6)] w1
      by (intro accounted_bind [OF recover_nothing [OF assms(6,3,2), of ds, folded assms(4)]]) (auto intro: accounted_throw)
    show "accounted b i input d ((if \<not> validate_assessments (dispute_claims (record_dispute x)) (hi_claim_assessments input) then throw_io InvalidAssessments
     else if dispute_status (record_dispute x) \<noteq> Open then throw_io DisputeResolvedAlready
     else bind_io (recover_human_resolution_locked i x) (\<lambda>(d', found). case found of
         Some r \<Rightarrow> finish_recovered i now (human_resolution_matches_input r input) r
       | None \<Rightarrow>
           if dispute_status (record_dispute d') \<noteq> Open then throw_io DisputeResolvedAlready
           else resolve_open mc i d' input now)) w1)"
      using rest w1 x by (auto intro: accounted_throw)
  qed (use assms(7) in simp_all)
qed

text \<open>
  Property C23.  A human resolution survives a crash: from an open dispute with no resolution and no
  pending delivery of its own, a call under any storage faults either fails and leaves the disputes, the
  resolutions and the pending deliveries as they were, or there is one resolution record, with the
  input of the call and the one returned when it returns, such that a recovery without faults succeeds and
  leaves the dispute resolved with it, its record stored, its policy and every outbox entry in place and
  no pending delivery.
\<close>

theorem resolution_survives_a_crash:
  fixes i :: dispute_id
  assumes "resolve_human mc i input now w = (q, w1)"
    and "map_of (disputes_of w) (yaml_name i) = Some (Document d)" "dispute_id (record_dispute d) = i" "record_resolution d = None"
    and "map_of (resolutions w) (yaml_name i) = None" "nothing_pending i (pending_deliveries w)"
  shows "(\<exists>e. q = Inl e) \<and> disputes_of w1 = disputes_of w \<and> resolutions w1 = resolutions w \<and> pending_deliveries w1 = pending_deliveries w
    \<or> (\<exists>r w2. rr_dispute_id r = i \<and> resolved_by (rr_resolution r) = Human \<and> human_resolution_matches_input r input \<and> (\<forall>y. q = Inr y \<longrightarrow> y = r)
         \<and> recover_pending_delivery (record_target r) (heal w1) = (Inr (), w2) \<and> completed r d w2)"
proof -
  have "accounted (beside_mail w) i input d (q, w1)"
    using accounted_resolve [OF assms(3,4,6), of "beside_mail w" "disputes_of w" "resolutions w" w input mc now] assms(1,2,5)
    by (simp add: beside_mail_def)
  then show ?thesis
  proof (cases "\<exists>r. rr_dispute_id r = i \<and> resolved_by (rr_resolution r) = Human \<and> human_resolution_matches_input r input
      \<and> well_formed r d \<and> recoverable r d w1 \<and> (\<forall>y. q = Inr y \<longrightarrow> y = r)")
    case True
    then obtain r where r: "rr_dispute_id r = i" "resolved_by (rr_resolution r) = Human" "human_resolution_matches_input r input"
        "well_formed r d" "recoverable r d w1" "\<forall>y. q = Inr y \<longrightarrow> y = r" by blast
    have "calm (heal w1)" "commit_files (heal w1) = commit_files w1" by (simp_all add: heal_def commit_files_def mail_of_def)
    with r commit_cong(2) recovery_completes show ?thesis by blast
  next
    case False
    with \<open>accounted (beside_mail w) i input d (q, w1)\<close> show ?thesis by (auto simp: accounted_def beside_mail_def)
  qed
qed

end
