(* ===== verification/Arbitration_Recovery.thy ===== *)
theory Arbitration_Recovery
  imports Arbitration_Properties
begin

text \<open>
  Recovery after a restart: the jobs that the scan of the dispute directory returns are exactly the
  unfinished analyses of readable disputes, against a declarative description of what is stored.
\<close>

section \<open>What is stored for a dispute\<close>

definition readable :: "'a dir \<Rightarrow> dispute_id \<Rightarrow> 'a option" where
  "readable d i = (case map_of d (yaml_name i) of Some (Document a) \<Rightarrow> Some a | _ \<Rightarrow> None)"

definition found_analysis :: "arb_store \<Rightarrow> dispute_id \<Rightarrow> arbitration_analysis option" where
  "found_analysis w d =
     (if map_of (current_analyses w) (yaml_name d) = None
      then select_legacy_current_analysis (readable (legacy_automatic_analyses w) d) (readable (legacy_manual_analyses w) d)
      else map_option (\<lambda>a. normalize_legacy_adoption_mode a None) (readable (current_analyses w) d))"

definition unfinished :: "bool \<Rightarrow> arbitration_analysis \<Rightarrow> bool" where
  "unfinished include_auto_approved a \<longleftrightarrow> is_recoverable (analysis_state a)
     \<or> (include_auto_approved \<and> analysis_state a = Approved \<and> analysis_mode a = Auto \<and> adoption_blocked_reason a = None)"

definition recorded :: "team_store \<Rightarrow> dispute \<Rightarrow> bool" where
  "recorded t d \<longleftrightarrow> is_yaml_file_name (yaml_name (dispute_id d))
     \<and> (\<exists>r. (yaml_name (dispute_id d), Document r) \<in> set (disputes t) \<and> validate_dispute_record r \<and> record_dispute r = d)"

section \<open>The scan without faults\<close>

lemma in_team_io_call: "fault_free (arb_team w) \<Longrightarrow> in_team io_call w = (Inr (), w)"
  by (simp add: in_team_def io_call_def)

lemma read_optional_value:
  "fault_free (arb_team w) \<Longrightarrow> read_optional_yaml get n w =
     (case map_of (get w) n of None \<Rightarrow> Inr None | Some (Document x) \<Rightarrow> Inr (Some x) | Some _ \<Rightarrow> Inl (TeamError (DecodeError n)), w)"
  by (simp add: read_optional_yaml_def arb_read_def bind_io_def attempt_io_def in_team_io_call get_io_def lift_sum_def decode_file_def
      return_io_def throw_io_def split: option.split yaml_file.split)

lemma legacy_value: "fault_free (arb_team w) \<Longrightarrow> read_legacy_tolerant get d w = (Inr (readable (get w) d), w)"
  by (simp add: read_legacy_tolerant_def bind_io_def attempt_io_def read_optional_value return_io_def readable_def
      split: option.split yaml_file.split)

lemma recovered_value: "fault_free (arb_team w) \<Longrightarrow> recovered_current d w = (Inr (found_analysis w d), w)"
  by (simp add: recovered_current_def bind_io_def attempt_io_def read_optional_value legacy_value return_io_def
      found_analysis_def readable_def split: option.split yaml_file.split)

fun entry_jobs :: "arb_store \<Rightarrow> bool \<Rightarrow> string \<times> maintainer_dispute_record yaml_file \<Rightarrow> analysis_job list" where
  "entry_jobs w inc (n, Document r) =
     (let d = dispute_id (record_dispute r) in
      if is_yaml_file_name n \<and> validate_dispute_record r \<and> n = yaml_name d
      then (case found_analysis w d of None \<Rightarrow> []
            | Some a \<Rightarrow> push_recoverable_analysis d (inc \<and> dispute_status (record_dispute r) = Open) a [])
      else [])"
| "entry_jobs w inc (n, _) = []"

lemma if_cases_append: "(if b then xs @ ys else xs) = xs @ (if b then [] @ ys else [])"
  by simp

lemma push_append: "push_recoverable_analysis d inc a jobs = jobs @ push_recoverable_analysis d inc a []"
  unfolding push_recoverable_analysis_def by (rule if_cases_append)

lemma scan_value:
  assumes "fault_free (arb_team w)"
  shows "recover_scan inc fs jobs w = (Inr (jobs @ concat (map (entry_jobs w inc) fs)), w)"
proof (induction fs arbitrary: jobs)
  case Nil
  then show ?case by (simp add: return_io_def)
next
  case (Cons x fs)
  obtain n f where x: "x = (n, f)" by fastforce
  show ?case
    by (cases f) (use assms Cons in \<open>auto simp: x bind_io_def attempt_io_def in_team_io_call recovered_value Let_def
        strip_suffix_Some_iff yaml_name_def push_append [of _ _ _ jobs] split: option.split\<close>)
qed

lemma push_mem:
  "job \<in> set (push_recoverable_analysis d inc a []) \<longleftrightarrow> validate_analysis a \<and> analysis_dispute_id a = d \<and> unfinished inc a
     \<and> job = \<lparr>job_dispute_id = d, job_analysis_id = analysis_id a\<rparr>"
proof (cases "validate_analysis a \<and> analysis_dispute_id a = d \<and> unfinished inc a")
  case True
  then have "push_recoverable_analysis d inc a [] = [] @ [\<lparr>job_dispute_id = d, job_analysis_id = analysis_id a\<rparr>]"
    unfolding push_recoverable_analysis_def unfinished_def by (simp only: if_True simp_thms)
  with True show ?thesis by simp
next
  case False
  then have "push_recoverable_analysis d inc a [] = []"
    unfolding push_recoverable_analysis_def unfinished_def by (simp only: if_False)
  with False show ?thesis by auto
qed

lemma entry_mem:
  "job \<in> set (entry_jobs w inc (n, Document r)) \<longleftrightarrow>
     (is_yaml_file_name n \<and> validate_dispute_record r \<and> n = yaml_name (dispute_id (record_dispute r)))
     \<and> (\<exists>a. found_analysis w (dispute_id (record_dispute r)) = Some a
          \<and> job \<in> set (push_recoverable_analysis (dispute_id (record_dispute r)) (inc \<and> dispute_status (record_dispute r) = Open) a []))"
    (is "_ \<longleftrightarrow> ?valid \<and> _")
proof (cases ?valid)
  case True
  then have "entry_jobs w inc (n, Document r) = (case found_analysis w (dispute_id (record_dispute r)) of None \<Rightarrow> []
      | Some a \<Rightarrow> push_recoverable_analysis (dispute_id (record_dispute r)) (inc \<and> dispute_status (record_dispute r) = Open) a [])"
    unfolding entry_jobs.simps Let_def by (rule if_P)
  with True show ?thesis by (cases "found_analysis w (dispute_id (record_dispute r))") (auto simp del: entry_jobs.simps)
next
  case False
  then have "entry_jobs w inc (n, Document r) = []" by (simp only: entry_jobs.simps Let_def if_False)
  with False show ?thesis by (auto simp del: entry_jobs.simps)
qed

lemma jobs_of_entries:
  "job \<in> set (concat (map (entry_jobs w inc) (disputes (arb_team w)))) \<longleftrightarrow>
     (\<exists>d a. recorded (arb_team w) d \<and> found_analysis w (dispute_id d) = Some a \<and> validate_analysis a
        \<and> analysis_dispute_id a = dispute_id d \<and> unfinished (inc \<and> dispute_status d = Open) a
        \<and> job = \<lparr>job_dispute_id = dispute_id d, job_analysis_id = analysis_id a\<rparr>)" (is "_ \<longleftrightarrow> ?rhs")
proof
  assume "job \<in> set (concat (map (entry_jobs w inc) (disputes (arb_team w))))"
  then obtain n f where nf: "(n, f) \<in> set (disputes (arb_team w))" "job \<in> set (entry_jobs w inc (n, f))" by auto
  then obtain r where r: "f = Document r" by (cases f) simp_all
  have "recorded (arb_team w) (record_dispute r)" using nf unfolding r entry_mem recorded_def by blast
  with nf(2) show ?rhs unfolding r entry_mem push_mem by blast
next
  assume ?rhs
  then obtain r where r: "(yaml_name (dispute_id (record_dispute r)), Document r) \<in> set (disputes (arb_team w))"
      "job \<in> set (entry_jobs w inc (yaml_name (dispute_id (record_dispute r)), Document r))"
    unfolding recorded_def entry_mem push_mem by blast
  then show "job \<in> set (concat (map (entry_jobs w inc) (disputes (arb_team w))))"
    unfolding set_concat set_map by blast
qed

interpretation job_order: comparison job_order
  unfolding job_order_def by blast

lemma job_order_antisym: "job_order x y \<Longrightarrow> job_order y x \<Longrightarrow> x = y"
  by (cases x; cases y) (auto simp: job_order_def then_with_def cmp_key_def)

lemma sorted_remdups_adj_distinct:
  assumes "sorted_wrt le xs" "\<And>x y. le x y \<Longrightarrow> le y x \<Longrightarrow> x = y"
  shows "distinct (remdups_adj xs)"
  using assms(1)
proof (induction xs rule: remdups_adj.induct)
  case (3 x y xs)
  then show ?case by (auto dest: assms(2))
qed auto

text \<open>
  Without storage faults the recovery scan returns, changes nothing, and lists each job
  once: a job is listed exactly when its dispute has a readable and valid record under its own name and
  the analysis stored for it (the current file, or the newer legacy one when there is no current file) is
  valid, belongs to the dispute and is unfinished, or approved and waiting for automatic adoption of an
  open dispute.  A damaged file hides only its own dispute.
\<close>

theorem recovery_finds_the_unfinished_analyses:
  assumes "fault_free (arb_team w)"
  shows "\<exists>jobs. service_recoverable_jobs cfg w = (Inr jobs, w) \<and> distinct jobs
    \<and> (\<forall>job. job \<in> set jobs \<longleftrightarrow>
         (\<exists>d a. recorded (arb_team w) d \<and> found_analysis w (dispute_id d) = Some a \<and> validate_analysis a
            \<and> analysis_dispute_id a = dispute_id d \<and> unfinished (cfg_mode cfg = Auto \<and> dispute_status d = Open) a
            \<and> job = \<lparr>job_dispute_id = dispute_id d, job_analysis_id = analysis_id a\<rparr>))"
proof -
  let ?jobs = "concat (map (entry_jobs w (cfg_mode cfg = Auto)) (disputes (arb_team w)))"
  have "service_recoverable_jobs cfg w = (Inr (remdups_adj (sort_by job_order ?jobs)), w)"
    by (simp add: service_recoverable_jobs_def recoverable_jobs_def bind_io_def in_team_io_call assms scan_value get_io_def return_io_def)
  moreover have "distinct (remdups_adj (sort_by job_order ?jobs))"
    by (rule sorted_remdups_adj_distinct [OF job_order.sorted_wrt_sort_by job_order_antisym])
  ultimately show ?thesis using jobs_of_entries by (intro exI [of _ "remdups_adj (sort_by job_order ?jobs)"]) simp
qed

end
