(* ===== verification/Arbitration_Demo.thy ===== *)
theory Arbitration_Demo
  imports Arbitration_Recovery
begin

text \<open>
  A concrete history of one dispute: it is reported, its context is prepared, the worker loses its lease
  to another one, and both models answer.  The theorems on the arbitration service are applied to its states.
\<close>

section \<open>The states\<close>

definition arb_demo_cfg :: arb_config where
  "arb_demo_cfg = \<lparr>cfg_mode = Auto, cfg_threshold = Num 1 (- 1), cfg_model = ''m'', lease_duration = 100,
     context_prepare_max_attempts = 3\<rparr>"

text \<open>The generator answers one six times, then zero.\<close>

definition arb_demo_rng :: "nat \<Rightarrow> 32 word" where
  "arb_demo_rng i = (if i < 6 then 1 else 0)"

definition arb_demo_id :: analysis_id where
  "arb_demo_id = Ident ''analysis_0000000100000001''"

definition arb_demo_pending :: arbitration_analysis where
  "arb_demo_pending =
     \<lparr>schema_version = 2, analysis_id = arb_demo_id, analysis_dispute_id = random_id dispute_prefix 7,
      legacy_source = LegacyAutomatic, report_snapshot = Some demo_dispute, analysis_created_at = 0, analysis_updated_at = 0,
      prompt_version = arbitration_prompt_version, analysis_mode = Auto, analysis_model = ''m'',
      confidence_threshold = Num 1 (- 1), semantic_projection_version = 6,
      semantic_fingerprint = None, analysis_snapshot_hash = None, analysis_context = None, analysis_state = Pending,
      analysis_round = 1, analysis_rounds = [], context_change_count = 0, next_retry_at = None,
      context_change_reason = None, analysis_lease = None, analysis_proposal = None, analysis_verification = None,
      analysis_resolution_id = None, pending_resolution = None, analysis_error = None, delivery_error = None,
      adoption_blocked_reason = None, context_prepare_attempts = 0\<rparr>"

definition arb_demo_context :: frozen_arbitration_context where
  "arb_demo_context = \<lparr>generated_at = 1, frozen_dispute = demo_dispute, direct_claims = [demo_claim], source_claims = [],
     context_policies = [], router_candidate_claims = [], router_disputes = [], prior_resolutions = [], context_warnings = []\<rparr>"

definition arb_demo_leased :: "string \<Rightarrow> time \<Rightarrow> arbitration_analysis" where
  "arb_demo_leased t now = arb_demo_pending\<lparr>semantic_fingerprint := Some ''f'', analysis_snapshot_hash := Some ''h'',
     analysis_context := Some arb_demo_context, analysis_state := Proposing,
     analysis_lease := Some \<lparr>lease_token = t, lease_phase = ProposalPhase, lease_expires_at = now + 100, lease_renewed_at = now\<rparr>,
     analysis_updated_at := now\<rparr>"

definition arb_demo_store :: "team_store \<Rightarrow> nat \<Rightarrow> nat \<Rightarrow> arbitration_analysis list \<Rightarrow> arb_store" where
  "arb_demo_store t draws ticks as =
     \<lparr>arb_team = t\<lparr>rng := arb_demo_rng, rng_pos := draws\<rparr>, arb_clock = (\<lambda>n. 1000 * int n), arb_clock_pos = ticks,
      current_analyses = map (\<lambda>a. (yaml_name (analysis_dispute_id a), Document a)) as,
      legacy_automatic_analyses = [], legacy_manual_analyses = []\<rparr>"

definition arb_demo_start :: arb_store where
  "arb_demo_start = arb_demo_store demo_uploaded 0 0 []"

definition arb_demo_reported :: arb_store where
  "arb_demo_reported = arb_demo_store demo_disputed 2 1 [arb_demo_pending]"

definition arb_demo_prepared :: arb_store where
  "arb_demo_prepared = arb_demo_store demo_disputed 6 2 [arb_demo_leased ''00000001000000010000000100000001'' 1000]"

definition arb_demo_taken :: arb_store where
  "arb_demo_taken = arb_demo_store demo_disputed 10 3 [arb_demo_leased ''00000000000000000000000000000000'' 2000]"

definition arb_demo_job :: analysis_job where
  "arb_demo_job = \<lparr>job_dispute_id = random_id dispute_prefix 7, job_analysis_id = arb_demo_id\<rparr>"

definition arb_demo_built :: built_arbitration_context where
  "arb_demo_built = \<lparr>built_frozen = arb_demo_context, built_fingerprint = ''f'', built_snapshot_hash = ''h''\<rparr>"

definition arb_demo_proposal :: arbitration_proposal where
  "arb_demo_proposal = \<lparr>proposed_type = Coexist, proposed_basis = Evidence, proposed_conclusion = ''both hold'',
     proposed_assessments = [\<lparr>assessed_claim_id = random_id claim_prefix 9, recommended_status = Active, assessment = ''fine'',
       recommended_scope = None, recommended_statement = None, assessment_reason = ''r''\<rparr>],
     proposal_confidence = Num 3 (- 2), evidence_refs = [as_str (random_id claim_prefix 9 :: claim_id)],
     proposal_missing_evidence = [], human_review_reason = None, proposal_reasoning = ''because''\<rparr>"

definition arb_demo_verification :: arbitration_verification where
  "arb_demo_verification = \<lparr>verdict = Approve, resolution_type_agreed = True, resolution_basis_agreed = True, conclusion_agreed = True,
     verified_assessments = [\<lparr>verified_claim_id = random_id claim_prefix 9, agreed = True, verification_reason = ''yes''\<rparr>],
     verification_confidence = Num 1 (- 1), verification_missing_evidence = [], verification_reasoning = ''checked''\<rparr>"

definition arb_demo_models :: models where
  "arb_demo_models = \<lparr>propose = (\<lambda>_. Answer arb_demo_proposal), verify = (\<lambda>_ _. Answer arb_demo_verification), defect_text = (\<lambda>_ _. [])\<rparr>"

lemmas arb_demo_defs = arb_demo_cfg_def arb_demo_id_def arb_demo_pending_def arb_demo_leased_def arb_demo_store_def
  arb_demo_start_def arb_demo_reported_def arb_demo_prepared_def arb_demo_taken_def arb_demo_job_def arb_demo_built_def

lemmas run_arb = in_team_def clock_now_def draw_hex_run random_analysis_id_def random_lease_token_def arb_read_def read_optional_yaml_def
  lock_dispute_def read_current_analysis_def put_analysis_def create_report_analysis_def read_analysis_def write_analysis_def
  dispute_open_def new_analysis_def same_report_def record_report_def report_known_dispute_def report_new_manual_def
  report_new_analysed_def report_dispute_analysis_def chrono_duration_def new_lease_def ensure_lease_def acquire_phase_def
  save_prepared_context_def save_proposal_def select_legacy_current_analysis_def normalize_legacy_adoption_mode_def
  arbitration_schema_version_def current_semantic_projection_version_def validate_analysis_def
  read_dispute_def read_yaml_def decode_file_def attempt_io_def write_dispute_def write_yaml_atomic_def validate_dispute_record_def

lemma arb_demo_hex: "random_hex8 1 = ''00000001''" "random_hex8 0 = ''00000000''"
  by code_simp+

lemma arb_demo_upt: "[0 ..< 2] = [0, 1]" "[0 ..< 4] = [0, 1, 2, 3 :: nat]"
  by code_simp+

lemma arb_demo_report:
  "report_dispute_analysis arb_demo_cfg demo_dispute arb_demo_start =
     (Inr \<lparr>report_created = True, report_analysis = Some arb_demo_pending, should_enqueue = True\<rparr>, arb_demo_reported)"
  by (simp add: arb_demo_defs run_arb run_io run_scan run_sweep demo_disputed_def demo_dispute_def sweep_stores arb_demo_hex arb_demo_rng_def arb_demo_upt
      validate_agent_report_def validate_new_dispute_direct_claims_def load_team_claims_def io_ok_def)

lemmas run_arb_demo = arb_demo_defs run_arb run_io run_scan demo_disputed_def demo_dispute_def sweep_stores arb_demo_hex arb_demo_rng_def
  arb_demo_upt

lemma arb_demo_prepare:
  "save_prepared_context arb_demo_cfg arb_demo_job arb_demo_built arb_demo_reported =
     (Inr ''00000001000000010000000100000001'', arb_demo_prepared)"
  by (simp add: run_arb_demo)

lemma arb_demo_takeover:
  "acquire_phase arb_demo_cfg arb_demo_job ProposalPhase arb_demo_prepared =
     (Inr (Some ''00000000000000000000000000000000''), arb_demo_taken)"
  by (simp add: run_arb_demo)

lemma arb_demo_reach: "no_analyses arb_demo_start" "arb_reach arb_demo_cfg arb_demo_start arb_demo_reported"
  "arb_reach arb_demo_cfg arb_demo_start arb_demo_prepared"
proof -
  show "no_analyses arb_demo_start" by (simp add: no_analyses_def arb_demo_defs)
  have 1: "arb_step arb_demo_cfg arb_demo_start arb_demo_reported"
    using arb_step.Report [of arb_demo_cfg arb_demo_start demo_dispute] by (simp add: arb_demo_report)
  have 2: "arb_step arb_demo_cfg arb_demo_reported arb_demo_prepared"
    using arb_step.Prepared [of arb_demo_cfg arb_demo_reported arb_demo_job arb_demo_built] by (simp add: arb_demo_prepare)
  show "arb_reach arb_demo_cfg arb_demo_start arb_demo_reported" using 1 by (rule r_into_rtranclp)
  then show "arb_reach arb_demo_cfg arb_demo_start arb_demo_prepared" using 2 by (rule rtranclp.rtrancl_into_rtrancl)
qed

lemma arb_demo_inv: "arb_inv (cfg_threshold arb_demo_cfg) arb_demo_reported" "arb_inv (cfg_threshold arb_demo_cfg) arb_demo_prepared"
  using arb_demo_reach no_analyses_inv consistent.reach_keeps by blast+

section \<open>The theorems at these states\<close>

theorem stored_analyses_are_consistent_witness:
  "\<exists>a. Document (arb_demo_leased ''00000001000000010000000100000001'' 1000) = Document a \<and> validate_analysis a
     \<and> (\<exists>l. analysis_lease a = Some l \<and> lease_phase l = ProposalPhase)"
proof -
  have "map_of (current_analyses arb_demo_prepared) (yaml_name (random_id dispute_prefix 7 :: dispute_id))
      = Some (Document (arb_demo_leased ''00000001000000010000000100000001'' 1000))"
    by (simp add: arb_demo_defs)
  from stored_analyses_are_consistent [OF arb_demo_reach(1,3) this] show ?thesis
    by (auto simp: arb_demo_leased_def)
qed

lemma arb_demo_sole: "sole_token ''00000001000000010000000100000001'' (job_dispute_id arb_demo_job) arb_demo_prepared"
proof -
  have "token_at arb_demo_rng p = ''00000000000000000000000000000000''" if "6 \<le> p" for p
    using that by (simp add: token_at_def arb_demo_rng_def arb_demo_upt arb_demo_hex)
  then show ?thesis by (auto simp: sole_token_def arb_demo_defs split: if_splits)
qed

theorem takeover_fences_the_old_worker_witness:
  "\<exists>e w. save_proposal arb_demo_cfg arb_demo_job ''00000001000000010000000100000001'' arb_demo_proposal arb_demo_taken = (Inl e, w)
     \<and> current_analyses w = current_analyses arb_demo_taken"
  using takeover_fences_the_old_worker [OF arb_demo_inv(2) arb_demo_takeover arb_demo_sole rtranclp.rtrancl_refl]
  unfolding refused_def by (metis prod.collapse)

theorem analysis_runs_at_most_three_rounds_witness:
  "map_of (current_analyses arb_demo_prepared) (yaml_name (random_id dispute_prefix 7 :: dispute_id))
     = Some (Document (arb_demo_leased ''00000001000000010000000100000001'' 1000))
   \<and> analysis_round (arb_demo_leased ''00000001000000010000000100000001'' 1000) \<le> 3"
proof -
  have stored: "map_of (current_analyses arb_demo_prepared) (yaml_name (random_id dispute_prefix 7 :: dispute_id))
      = Some (Document (arb_demo_leased ''00000001000000010000000100000001'' 1000))"
    by (simp add: arb_demo_defs)
  with analysis_runs_at_most_three_rounds [OF arb_demo_reach(1,3) stored] show ?thesis by blast
qed

lemma arb_demo_valid:
  "validate_proposal arb_demo_context arb_demo_proposal"
  "validate_verification arb_demo_context arb_demo_proposal arb_demo_verification"
  by code_simp+

lemma arb_demo_run:
  "fst (run_proposal arb_demo_cfg arb_demo_models arb_demo_job ''00000001000000010000000100000001'' arb_demo_prepared) = Inr True"
  by (simp add: run_proposal_def run_verification_def arb_demo_models_def arb_demo_valid run_arb_demo save_verification_def
      verified_analysis_def completed_round_def analysis_is_approved_def)

theorem completed_run_stores_checked_answers_witness:
  "\<exists>a w. stored (random_id dispute_prefix 7) a w \<and> analysis_proposal a = Some arb_demo_proposal
     \<and> analysis_verification a = Some arb_demo_verification \<and> analysis_state a = Approved"
proof -
  obtain w' where run: "run_proposal arb_demo_cfg arb_demo_models arb_demo_job ''00000001000000010000000100000001'' arb_demo_prepared
      = (Inr True, w')"
    using arb_demo_run by (metis prod.collapse)
  have "proposed_type arb_demo_proposal \<noteq> Unresolved" "verdict arb_demo_verification = Approve"
      "f64_le (cfg_threshold arb_demo_cfg) (proposal_confidence arb_demo_proposal)"
      "f64_le (cfg_threshold arb_demo_cfg) (verification_confidence arb_demo_verification)"
      "resolution_type_agreed arb_demo_verification" "resolution_basis_agreed arb_demo_verification"
      "conclusion_agreed arb_demo_verification" "list_all agreed (verified_assessments arb_demo_verification)"
    by (simp_all add: arb_demo_proposal_def arb_demo_verification_def arb_demo_cfg_def)
  with completed_run_stores_checked_answers [OF arb_demo_inv(2) run] show ?thesis
    by (auto simp: arb_demo_job_def arb_demo_models_def)
qed

text \<open>The write of the dispute record fails, after the analysis was created.\<close>

definition arb_demo_failing :: arb_store where
  "arb_demo_failing = arb_demo_start\<lparr>arb_team := (arb_team arb_demo_start)
     \<lparr>io_faults := [False, False, False, False, False, False, False, False, False, False, False, True]\<rparr>\<rparr>"

definition arb_demo_halfway :: arb_store where
  "arb_demo_halfway = arb_demo_store demo_uploaded 2 1 [arb_demo_pending]"

lemma arb_demo_fails:
  "report_dispute_analysis arb_demo_cfg demo_dispute arb_demo_failing = (Inl (TeamError IoError), arb_demo_halfway)"
  by (simp add: arb_demo_failing_def arb_demo_halfway_def run_arb_demo run_sweep
      validate_agent_report_def validate_new_dispute_direct_claims_def load_team_claims_def io_ok_def)

lemma arb_demo_again:
  "report_dispute_analysis arb_demo_cfg demo_dispute arb_demo_halfway =
     (Inr \<lparr>report_created = True, report_analysis = Some arb_demo_pending, should_enqueue = True\<rparr>, arb_demo_reported)"
  by (simp add: arb_demo_halfway_def run_arb_demo run_sweep same_report_payload_def
      validate_agent_report_def validate_new_dispute_direct_claims_def load_team_claims_def io_ok_def)

lemma arb_demo_failing_inv: "arb_inv (cfg_threshold arb_demo_cfg) arb_demo_failing"
  by (simp add: arb_inv_def arb_demo_failing_def arb_demo_start_def arb_demo_store_def)

theorem interrupted_report_is_completed_witness:
  "map_of (disputes (arb_team arb_demo_reported)) (yaml_name (dispute_id demo_dispute))
     = Some (Document \<lparr>record_dispute = demo_dispute, record_resolution = None\<rparr>)
   \<and> (\<exists>a. stored (dispute_id demo_dispute) a arb_demo_halfway \<and> analysis_state a = Pending
     \<and> current_analyses arb_demo_reported = current_analyses arb_demo_halfway)"
proof -
  have inv: "arb_inv (cfg_threshold arb_demo_cfg) arb_demo_halfway"
    by (rule keepingD [OF consistent.keeps_report arb_demo_fails arb_demo_failing_inv])
  have mode: "cfg_mode arb_demo_cfg \<noteq> Manual" by (simp add: arb_demo_cfg_def)
  have "current_analyses arb_demo_halfway \<noteq> current_analyses arb_demo_failing" "disputes (arb_team arb_demo_halfway) = []"
    by (simp_all add: arb_demo_halfway_def arb_demo_failing_def arb_demo_start_def arb_demo_store_def demo_uploaded_def demo_store_def)
  with interrupted_report_is_completed [OF arb_demo_failing_inv mode arb_demo_fails inv refl arb_demo_again]
  show ?thesis by auto
qed

theorem conflicting_report_is_refused_witness:
  "\<exists>e w'. report_dispute_analysis arb_demo_cfg (demo_dispute\<lparr>dispute_summary := ''other''\<rparr>) arb_demo_halfway = (Inl e, w')
     \<and> current_analyses w' = current_analyses arb_demo_halfway"
proof -
  let ?d = "demo_dispute\<lparr>dispute_summary := ''other''\<rparr>"
  have inv: "arb_inv (cfg_threshold arb_demo_cfg) arb_demo_halfway"
    by (rule keepingD [OF consistent.keeps_report arb_demo_fails arb_demo_failing_inv])
  have stored: "stored (dispute_id ?d) arb_demo_pending arb_demo_halfway"
    by (simp add: stored_def arb_demo_halfway_def arb_demo_store_def arb_demo_pending_def demo_dispute_def)
  have "\<not> same_report arb_demo_pending ?d"
    by (simp add: same_report_def same_report_payload_def arb_demo_pending_def demo_dispute_def)
  moreover have "disputes (arb_team arb_demo_halfway) = []"
    by (simp add: arb_demo_halfway_def arb_demo_store_def demo_uploaded_def demo_store_def)
  ultimately show ?thesis
    using conflicting_report_is_refused [OF inv stored, of arb_demo_cfg] by auto
qed

theorem recovery_finds_the_unfinished_analyses_witness:
  "\<exists>jobs. service_recoverable_jobs arb_demo_cfg arb_demo_reported = (Inr jobs, arb_demo_reported) \<and> arb_demo_job \<in> set jobs"
proof -
  have free: "fault_free (arb_team arb_demo_reported)"
    by (simp add: arb_demo_defs demo_disputed_def sweep_stores)
  have "recorded (arb_team arb_demo_reported) demo_dispute"
    unfolding recorded_def
    by (simp add: arb_demo_defs demo_disputed_def sweep_stores demo_dispute_def validate_dispute_record_def yaml_name_is_yaml
        dispute_prefix_def [THEN arg_cong [where f = set]])
  moreover have "found_analysis arb_demo_reported (dispute_id demo_dispute) = Some arb_demo_pending"
    by (simp add: found_analysis_def readable_def arb_demo_defs demo_dispute_def normalize_legacy_adoption_mode_def)
  moreover have "validate_analysis arb_demo_pending" "analysis_dispute_id arb_demo_pending = dispute_id demo_dispute"
      "unfinished b arb_demo_pending" "arb_demo_job = \<lparr>job_dispute_id = dispute_id demo_dispute, job_analysis_id = analysis_id arb_demo_pending\<rparr>" for b
    by (simp_all add: arb_demo_defs demo_dispute_def validate_analysis_def arbitration_schema_version_def unfinished_def)
  ultimately show ?thesis
    using recovery_finds_the_unfinished_analyses [OF free, of arb_demo_cfg] by blast
qed

end
