(* ===== verification/Resolution_Demo.thy ===== *)
theory Resolution_Demo
  imports Resolution_Recovery Arbitration_Demo
begin

text \<open>
  A human resolves the dispute of the demonstration: once without trouble, once with a storage fault
  right after the pending delivery was stored.  The theorems on the resolution service are applied there.
\<close>

definition res_demo_store :: "bool list \<Rightarrow> maintainer_dispute_record dir \<Rightarrow> res_store" where
  "res_demo_store faults ds =
     \<lparr>res_arb = \<lparr>arb_team = demo_uploaded\<lparr>disputes := ds, io_faults := faults\<rparr>, arb_clock = (\<lambda>n. 1000 * int n), arb_clock_pos = 0,
        current_analyses = [], legacy_automatic_analyses = [], legacy_manual_analyses = []\<rparr>,
      resolutions = [], legacy_decisions = (\<lambda>_. []), pending_deliveries = [], pending_observations = [], policy_index = [],
      inbox_index = [], claim_index = (\<lambda>_. []), policy_events = [], resolution_events = []\<rparr>"

definition res_demo_record :: maintainer_dispute_record where
  "res_demo_record = \<lparr>record_dispute = demo_dispute, record_resolution = None\<rparr>"

definition res_demo_open :: "bool list \<Rightarrow> res_store" where
  "res_demo_open faults = res_demo_store faults [(yaml_name (random_id dispute_prefix 7 :: dispute_id), Document res_demo_record)]"

definition res_demo_input :: human_resolution_input where
  "res_demo_input = \<lparr>hi_conclusion = ''both hold'', notify_affected_agents = True, hi_resolution_type = Some Coexist,
     hi_resolution_basis = Some Evidence, hi_claim_assessments = []\<rparr>"

definition res_demo_interrupted :: "(res_error + arbitration_resolution_record) \<times> res_store" where
  "res_demo_interrupted = resolve_human demo_cfg (random_id dispute_prefix 7) res_demo_input 170 (res_demo_open (replicate 23 False @ [True]))"

lemma res_demo_faults: "replicate 23 False @ [True] = [False, False, False, False, False, False, False, False, False, False, False, False,
    False, False, False, False, False, False, False, False, False, False, False, True]"
  by code_simp

lemma res_demo_conclusion: "str_trim ''both hold'' \<noteq> []"
  by code_simp

lemmas run_res = in_arb_def res_read_def res_read_optional_def res_write_def list_yaml_def write_resolution_record_def
  read_current_resolution_record_def resolution_id_exists_def read_pending_delivery_def write_pending_delivery_def list_pending_deliveries_def
  persist_pending_delivery_def resolve_direct_step_def resolve_direct_claims_def load_direct_snapshots_def mint_resolution_id_def
  list_dispute_records_def mint_action_id_def build_delivery_intent_def recover_human_resolution_locked_def validate_human_input_def
  human_snapshots_def resolve_open_def resolve_human_def commit_resolution_def validate_assessments_def record_target_def human_record_def

lemma res_demo_left_behind: "isl (fst res_demo_interrupted) \<and> pending_deliveries (snd res_demo_interrupted) \<noteq> []"
  by (simp add: res_demo_interrupted_def res_demo_open_def res_demo_store_def res_demo_record_def res_demo_input_def res_demo_faults
      run_res run_arb run_io run_scan run_sweep run_publish sweep_stores demo_dispute_def load_team_claims_def io_ok_def is_resolved_def res_demo_conclusion
      dispute_prefix_def [THEN arg_cong [where f = set]] del: set_map set_filter)

theorem resolution_survives_a_crash_witness:
  "\<exists>r w. conclusion (rr_resolution r) = ''both hold''
     \<and> recover_pending_delivery (record_target r) (heal (snd res_demo_interrupted)) = (Inr (), w) \<and> completed r res_demo_record w"
proof -
  let ?w = "res_demo_open (replicate 23 False @ [True])" and ?i = "random_id dispute_prefix 7 :: dispute_id"
  have run: "resolve_human demo_cfg ?i res_demo_input 170 ?w = (fst res_demo_interrupted, snd res_demo_interrupted)"
    by (simp add: res_demo_interrupted_def)
  have "map_of (disputes_of ?w) (yaml_name ?i) = Some (Document res_demo_record)" "dispute_id (record_dispute res_demo_record) = ?i"
      "record_resolution res_demo_record = None" "map_of (resolutions ?w) (yaml_name ?i) = None" "nothing_pending ?i (pending_deliveries ?w)"
      "pending_deliveries ?w = []"
    by (simp_all add: res_demo_open_def res_demo_store_def res_demo_record_def demo_dispute_def nothing_pending_def)
  with resolution_survives_a_crash [OF run] res_demo_left_behind show ?thesis
    by (auto simp: human_resolution_matches_input_def res_demo_input_def)
qed

text \<open>The dispute once a human resolved it; a second resolution is refused and changes nothing.\<close>

definition res_demo_settled :: maintainer_dispute_record where
  "res_demo_settled = resolved_with \<lparr>resolution_id = random_id resolution_prefix 0, resolved_by = Human, resolution_resolved_at = 170,
     resolution_type = Some Coexist, resolution_basis = Some Evidence, conclusion = ''both hold'', claim_assessments = [],
     rejection_reason = None\<rparr> res_demo_record"

definition res_demo_after :: res_store where
  "res_demo_after = res_demo_store [] [(yaml_name (random_id dispute_prefix 7 :: dispute_id), Document res_demo_settled)]"

theorem human_resolution_is_final_witness:
  "map_of (disputes_of (snd (resolve_human demo_cfg (random_id dispute_prefix 7)
       (res_demo_input\<lparr>hi_conclusion := ''neither holds''\<rparr>) 180 res_demo_after))) (yaml_name (random_id dispute_prefix 7 :: dispute_id))
     = Some (Document res_demo_settled)"
proof -
  have "res_reach demo_cfg arb_demo_cfg res_demo_after (snd (resolve_human demo_cfg (random_id dispute_prefix 7)
       (res_demo_input\<lparr>hi_conclusion := ''neither holds''\<rparr>) 180 res_demo_after))"
    by (rule r_into_rtranclp) (rule res_step.ResolveHuman)
  moreover have "named (disputes_of res_demo_after)" "by_human res_demo_settled"
      "map_of (disputes_of res_demo_after) (yaml_name (random_id dispute_prefix 7 :: dispute_id)) = Some (Document res_demo_settled)"
    by (simp_all add: res_demo_after_def res_demo_store_def named_def by_human_def res_demo_settled_def resolved_with_def
        res_demo_record_def demo_dispute_def)
  ultimately show ?thesis by (blast intro: human_resolution_is_final)
qed

end
