(* ===== verification/Http_Client.thy ===== *)
theory Http_Client
  imports Mirrors
begin

text \<open>
  The agent's connection to the Maintainer: \<open>HttpMaintainerClient\<close> (\<open>src/maintainer/http_client.rs\<close>) with its
  retry loop, the statuses the server gives to the errors of its handlers (\<open>src/maintainer/server/api.rs\<close>)
  and a network that may lose a request, lose a reply, or answer with an error status in the handler's place,
  before or after it ran.
\<close>

section \<open>The network\<close>

datatype link =
    LinkUp
  | RequestLost
  | ReplyLost
  | Garbled
  | Refused nat
  | Overridden nat

record 'h net =
  links :: "link list"
  team :: team_store
  home :: 'h

datatype 'a reply = Success 'a | Unreadable 'a | StatusReply nat | NoReply

definition reply_of :: "('e \<Rightarrow> nat) \<Rightarrow> 'e + 'a \<Rightarrow> 'a reply" where
  "reply_of status r = (case r of Inl e \<Rightarrow> StatusReply (status e) | Inr x \<Rightarrow> Success x)"

definition garble :: "'a reply \<Rightarrow> 'a reply" where
  "garble r = (case r of Success x \<Rightarrow> Unreadable x | _ \<Rightarrow> r)"

text \<open>One request: an exhausted list of link outcomes means that the network works.\<close>

definition send :: "('e \<Rightarrow> nat) \<Rightarrow> (team_store, 'e, 'a) io \<Rightarrow> 'h net \<Rightarrow> 'a reply \<times> 'h net" where
  "send status m n = (let n' = n\<lparr>links := tl (links n)\<rparr>; (r, t) = m (team n); ran = n'\<lparr>team := t\<rparr> in
     case (if links n = [] then LinkUp else hd (links n)) of
       LinkUp \<Rightarrow> (reply_of status r, ran)
     | RequestLost \<Rightarrow> (NoReply, n')
     | ReplyLost \<Rightarrow> (NoReply, ran)
     | Garbled \<Rightarrow> (garble (reply_of status r), ran)
     | Refused s \<Rightarrow> (StatusReply s, n')
     | Overridden s \<Rightarrow> (StatusReply s, ran))"

section \<open>The client\<close>

datatype client_error = Auth nat | Retryable | ClientStatus nat | LegacyServer nat | BadBody

definition is_retryable_http_status :: "nat \<Rightarrow> bool" where
  "is_retryable_http_status s \<longleftrightarrow> s = 408 \<or> s = 429 \<or> 500 \<le> s \<and> s < 600"

definition is_auth_status :: "nat \<Rightarrow> bool" where
  "is_auth_status s \<longleftrightarrow> s = 401"

definition is_client_error_status :: "nat \<Rightarrow> bool" where
  "is_client_error_status s \<longleftrightarrow> 400 \<le> s \<and> s < 500"

text \<open>What the client makes of a reply: an answer, an error it reports at once, or another attempt.\<close>

datatype 'a verdict = Answer 'a | GiveUp client_error | Again

definition judge_status :: "nat \<Rightarrow> 'a verdict" where
  "judge_status s =
     (if is_auth_status s then GiveUp (Auth s)
      else if is_retryable_http_status s then Again
      else if is_client_error_status s then GiveUp (ClientStatus s)
      else Again)"

definition judge :: "bool \<Rightarrow> 'a reply \<Rightarrow> 'a verdict" where
  "judge reads_body r = (case r of
       Success x \<Rightarrow> Answer x
     | Unreadable x \<Rightarrow> (if reads_body then GiveUp BadBody else Answer x)
     | StatusReply s \<Rightarrow> judge_status s
     | NoReply \<Rightarrow> Again)"

text \<open>The retry loop: \<open>k\<close> is the number of attempts left after this one; each attempt has its own handler call.\<close>

fun post :: "bool \<Rightarrow> ('e \<Rightarrow> nat) \<Rightarrow> (nat \<Rightarrow> (team_store, 'e, 'a) io) \<Rightarrow> nat \<Rightarrow> ('h net, client_error, 'a) io" where
  "post reads_body status m k n = (case send status (m k) n of (r, n') \<Rightarrow> (case judge reads_body r of
       Answer x \<Rightarrow> (Inr x, n')
     | GiveUp e \<Rightarrow> (Inl e, n')
     | Again \<Rightarrow> (case k of 0 \<Rightarrow> (Inl Retryable, n') | Suc k' \<Rightarrow> post reads_body status m k' n')))"

declare post.simps [simp del]

definition recognize_legacy_ack_route :: "client_error \<Rightarrow> client_error" where
  "recognize_legacy_ack_route e = (case e of
       ClientStatus s \<Rightarrow> if s \<noteq> 404 \<and> s \<noteq> 405 then e else LegacyServer s
     | _ \<Rightarrow> e)"

section \<open>Statuses of the server\<close>

definition internal_error :: "'e \<Rightarrow> nat" where
  "internal_error e = 500"

definition inbox_ack_error_status :: "inbox_ack_error \<Rightarrow> nat" where
  "inbox_ack_error_status e = (case e of
       UnknownInbox _ \<Rightarrow> 400
     | TargetMismatch _ _ \<Rightarrow> 403
     | NotOffered _ _ \<Rightarrow> 409
     | ReadOutbox _ \<Rightarrow> 500
     | LockOutbox _ \<Rightarrow> 500
     | PersistAck _ _ \<Rightarrow> 500)"

section \<open>The calls\<close>

definition client_pull_inbox :: "nat \<Rightarrow> agent_id \<Rightarrow> (nat \<Rightarrow> time) \<Rightarrow> ('h net, client_error, inbox_message list) io" where
  "client_pull_inbox retries a now = post True internal_error (\<lambda>k. pull_inbox a (now k)) retries"

definition client_ack_inbox :: "nat \<Rightarrow> agent_id \<Rightarrow> inbox_id list \<Rightarrow> (nat \<Rightarrow> time) \<Rightarrow> ('h net, client_error, unit) io" where
  "client_ack_inbox retries a ids now =
     map_err_io recognize_legacy_ack_route (post False inbox_ack_error_status (\<lambda>k. ack_inbox a ids (now k)) retries)"

definition client_upload_claim :: "nat \<Rightarrow> claim \<Rightarrow> ('h net, client_error, unit) io" where
  "client_upload_claim retries c = post False internal_error (\<lambda>_. upload_claim c) retries"

section \<open>What a call leaves behind\<close>

lemma send_cases:
  assumes "send status m n = (r, n')"
  obtains (kept) "team n' = team n" "r = NoReply \<or> (\<exists>s. r = StatusReply s)"
  | (ran) q where "m (team n) = (q, team n')" "\<And>x. r = Success x \<or> r = Unreadable x \<Longrightarrow> q = Inr x"
  using assms
  by (auto simp: send_def reply_of_def garble_def Let_def split: prod.splits if_splits link.splits sum.splits)

lemma send_home: "send status m n = (r, n') \<Longrightarrow> home n' = home n"
  by (auto simp: send_def Let_def split: prod.splits if_splits link.splits)

lemma judge_answer: "judge b r = Answer x \<Longrightarrow> r = Success x \<or> r = Unreadable x"
  by (auto simp: judge_def judge_status_def split: reply.splits if_splits)

text \<open>The calls of the handler compose to a frame of the store; an answer is the answer of the last one.\<close>

lemma post_frame:
  assumes "io_frame R" "\<And>k. within R (m k)"
  shows "post b status m k n = (r, n') \<Longrightarrow> R (team n) (team n')"
proof (induction k arbitrary: n)
  case (0 n)
  obtain q n1 where q: "send status (m 0) n = (q, n1)" by fastforce
  have "R (team n) (team n1)" using q
    by (cases rule: send_cases) (auto intro: io_frame.frame_refl [OF assms(1)] withinD [OF assms(2)])
  then show ?case using 0 q by (auto simp: post.simps split: verdict.splits)
next
  case (Suc k n)
  obtain q n1 where q: "send status (m (Suc k)) n = (q, n1)" by fastforce
  have "R (team n) (team n1)" using q
    by (cases rule: send_cases) (auto intro: io_frame.frame_refl [OF assms(1)] withinD [OF assms(2)])
  then show ?case using Suc q io_frame.frame_trans [OF assms(1)]
    by (auto simp: post.simps [of _ _ _ "Suc k"] split: verdict.splits)
qed

lemma post_home: "post b status m k n = (r, n') \<Longrightarrow> home n' = home n"
proof (induction k arbitrary: n)
  case (0 n)
  then show ?case by (auto simp: post.simps split: prod.splits verdict.splits dest: send_home)
next
  case (Suc k n)
  then show ?case by (force simp: post.simps [of _ _ _ "Suc k"] split: prod.splits verdict.splits dest: send_home)
qed

lemma post_answer:
  assumes "io_frame R" "\<And>k. within R (m k)"
  shows "post b status m k n = (Inr x, n') \<Longrightarrow> \<exists>j t. R (team n) t \<and> m j t = (Inr x, team n')"
proof (induction k arbitrary: n)
  case (0 n)
  obtain q n1 where q: "send status (m 0) n = (q, n1)" by fastforce
  then have "judge b q = Answer x" "n1 = n'" using 0 by (auto simp: post.simps split: verdict.splits)
  with q have "m 0 (team n) = (Inr x, team n')"
    by (cases rule: send_cases) (use judge_answer in fastforce)+
  then show ?case using io_frame.frame_refl [OF assms(1)] by blast
next
  case (Suc k n)
  obtain q n1 where q: "send status (m (Suc k)) n = (q, n1)" by fastforce
  show ?case
  proof (cases "judge b q")
    case (Answer y)
    then have "y = x" "n1 = n'" using Suc.prems q by (auto simp: post.simps [of _ _ _ "Suc k"])
    with q Answer have "m (Suc k) (team n) = (Inr x, team n')"
      by (cases rule: send_cases) (use judge_answer in fastforce)+
    then show ?thesis using io_frame.frame_refl [OF assms(1)] by blast
  next
    case Again
    then have "post b status m k n1 = (Inr x, n')" using Suc.prems q by (simp add: post.simps [of _ _ _ "Suc k"])
    moreover have "R (team n) (team n1)" using q
      by (cases rule: send_cases) (auto intro: io_frame.frame_refl [OF assms(1)] withinD [OF assms(2)])
    ultimately show ?thesis using Suc.IH io_frame.frame_trans [OF assms(1)] by blast
  qed (use Suc.prems q in \<open>simp add: post.simps [of _ _ _ "Suc k"]\<close>)
qed

lemma post_up: "links n = [] \<Longrightarrow> m k (team n) = (Inr x, t) \<Longrightarrow> post b status m k n = (Inr x, n\<lparr>team := t\<rparr>)"
  by (subst post.simps) (simp add: send_def reply_of_def judge_def)

end
