(* ===== verification/Local_Inbox.thy ===== *)
theory Local_Inbox
  imports Maintainer "HOL-Library.Word"
begin

text \<open>
  The agent's own inbox directory (\<open>LocalFsInboxReader\<close> in \<open>src/agent/fs.rs\<close>).  A message is one file that
  moves through three names: \<open><id>.yaml\<close> while it waits, \<open><id>.processing.<pid>.<random>.yaml\<close> while a
  process works on it, \<open><id>.done.yaml\<close> once it was handled.  The instants are the clock readings of the
  code; a rename keeps the time of the last write, as the file system does.
\<close>

section \<open>State\<close>

type_synonym inbox_file = "time \<times> inbox_message yaml_file"

record inbox_store =
  ib_faults :: "bool list"
  ib_rng :: "nat \<Rightarrow> 64 word"
  ib_rng_pos :: nat
  process_id :: nat
  inbox_files :: "(string \<times> inbox_file) list"
  seen_ids :: "inbox_id list"

datatype inbox_error = InboxStorage team_error | SnapshotConflict inbox_id string

type_synonym 'a inbox_io = "(inbox_store, inbox_error, 'a) io"

record claimed_inbox_message =
  claimed_message :: inbox_message
  lease_id :: "string option"

section \<open>File system calls\<close>

definition ib_call :: "unit inbox_io" where
  "ib_call w = (case ib_faults w of
                  [] \<Rightarrow> (Inr (), w)
                | f # fs \<Rightarrow> (if f then Inl (InboxStorage IoError) else Inr (), w\<lparr>ib_faults := fs\<rparr>))"

text \<open>\<open>fs::try_exists(..).unwrap_or(false)\<close>: a fault reads as absence.\<close>

definition ib_exists :: "string \<Rightarrow> bool inbox_io" where
  "ib_exists n = bind_io (attempt_io ib_call) (\<lambda>r. case r of
       Inl _ \<Rightarrow> return_io False
     | Inr _ \<Rightarrow> get_io (\<lambda>w. map_of (inbox_files w) n \<noteq> None))"

definition read_message :: "string \<Rightarrow> inbox_message inbox_io" where
  "read_message n = bind_io ib_call (\<lambda>_.
     bind_io (get_io (\<lambda>w. map_sum InboxStorage id (decode_file n (map_option snd (map_of (inbox_files w) n))))) lift_sum)"

definition write_message :: "string \<Rightarrow> inbox_message \<Rightarrow> time \<Rightarrow> unit inbox_io" where
  "write_message n m now = bind_io ib_call (\<lambda>_. modify_io (inbox_files_update (AList.update n (now, Document m))))"

definition remove_file :: "string \<Rightarrow> unit inbox_io" where
  "remove_file n = bind_io ib_call (\<lambda>_. bind_io (get_io (\<lambda>w. map_of (inbox_files w) n)) (\<lambda>f.
     if f = None then throw_io (InboxStorage (NotFound n)) else modify_io (inbox_files_update (AList.delete n))))"

definition rename_file :: "string \<Rightarrow> string \<Rightarrow> unit inbox_io" where
  "rename_file from to = bind_io ib_call (\<lambda>_. bind_io (get_io (\<lambda>w. map_of (inbox_files w) from)) (\<lambda>f. case f of
       None \<Rightarrow> throw_io (InboxStorage (NotFound from))
     | Some x \<Rightarrow> modify_io (inbox_files_update (\<lambda>d. AList.update to x (AList.delete from d)))))"

definition draw64 :: "64 word inbox_io" where
  "draw64 = bind_io (get_io (\<lambda>w. ib_rng w (ib_rng_pos w))) (\<lambda>r.
     bind_io (modify_io (\<lambda>w. w\<lparr>ib_rng_pos := Suc (ib_rng_pos w)\<rparr>)) (\<lambda>_. return_io r))"

section \<open>File names\<close>

fun show_nat :: "nat \<Rightarrow> string" where
  "show_nat n = (if n < 10 then [char_of (48 + n)] else show_nat (n div 10) @ [char_of (48 + n mod 10)])"

definition done_name :: "inbox_id \<Rightarrow> string" where
  "done_name i = as_str i @ ''.done.yaml''"

definition processing_path_for :: "inbox_id \<Rightarrow> nat \<Rightarrow> 64 word \<Rightarrow> string" where
  "processing_path_for i pid suffix = as_str i @ ''.processing.'' @ show_nat pid @ ''.'' @ show_nat (unat suffix) @ ''.yaml''"

definition is_payload_yaml :: "string \<Rightarrow> bool" where
  "is_payload_yaml n \<longleftrightarrow> str_ends_with n ''.yaml'' \<and> \<not> str_contains n ''.tmp.'' \<and> \<not> str_ends_with n ''.done.yaml''"

definition is_processing_payload_yaml :: "string \<Rightarrow> bool" where
  "is_processing_payload_yaml n \<longleftrightarrow> str_ends_with n ''.yaml'' \<and> str_contains n ''.processing.''"

definition is_pending_payload_yaml :: "string \<Rightarrow> bool" where
  "is_pending_payload_yaml n \<longleftrightarrow> is_payload_yaml n \<and> \<not> is_processing_payload_yaml n"

definition processing_paths_for_id :: "inbox_id \<Rightarrow> string list inbox_io" where
  "processing_paths_for_id i = bind_io ib_call (\<lambda>_. get_io (\<lambda>w.
     filter (\<lambda>n. str_starts_with n (as_str i @ ''.processing.'') \<and> str_ends_with n ''.yaml'') (map fst (inbox_files w))))"

section \<open>Receiving\<close>

definition ensure_existing_inbox_snapshot :: "inbox_message \<Rightarrow> string \<Rightarrow> unit inbox_io" where
  "ensure_existing_inbox_snapshot expected n = bind_io (read_message n) (\<lambda>actual.
     if actual\<lparr>handled_at := None\<rparr> \<noteq> expected\<lparr>handled_at := None\<rparr> then throw_io (SnapshotConflict (message_id expected) n)
     else return_io ())"

definition accept_pulled :: "inbox_message \<Rightarrow> time \<Rightarrow> unit inbox_io" where
  "accept_pulled m now =
     bind_io ib_call (\<lambda>_.
     bind_io (ib_exists (done_name (message_id m))) (\<lambda>done.
     bind_io (ib_exists (yaml_name (message_id m))) (\<lambda>active.
     bind_io (processing_paths_for_id (message_id m)) (\<lambda>processing.
     let existing = (if done then [done_name (message_id m)] else []) @ (if active then [yaml_name (message_id m)] else []) @ processing in
     if existing \<noteq> [] then for_io (ensure_existing_inbox_snapshot m) existing
     else write_message (yaml_name (message_id m)) m now))))"

section \<open>Claiming\<close>

text \<open>A waiting message with a done file is the residue of an interrupted acknowledgement.\<close>

type_synonym pending_inbox_message = "inbox_message \<times> time \<times> string"

fun scan_pending :: "(string \<times> inbox_file) list \<Rightarrow> pending_inbox_message list \<Rightarrow> pending_inbox_message list inbox_io" where
  "scan_pending [] out = return_io out"
| "scan_pending ((n, t, f) # fs) out =
     (if \<not> is_pending_payload_yaml n then scan_pending fs out
      else bind_io (read_message n) (\<lambda>m.
        bind_io (ib_exists (done_name (message_id m))) (\<lambda>done.
        if done then bind_io (remove_file n) (\<lambda>_. scan_pending fs out)
        else bind_io ib_call (\<lambda>_. scan_pending fs (out @ [(m, t, n)])))))"

definition inbox_order :: "pending_inbox_message \<Rightarrow> pending_inbox_message \<Rightarrow> bool" where
  "inbox_order = then_with (cmp_key (\<lambda>(m, _, _). event_at m))
     (then_with (cmp_key (\<lambda>(_, t, _). t)) (cmp_key (\<lambda>(m, _, _). as_str (message_id m))))"

definition pending_messages :: "pending_inbox_message list inbox_io" where
  "pending_messages = bind_io ib_call (\<lambda>_. bind_io (get_io inbox_files) (\<lambda>fs.
     bind_io (scan_pending fs []) (\<lambda>items.
     bind_io (get_io seen_ids) (\<lambda>s.
       return_io (filter (\<lambda>(m, _, _). message_id m \<notin> set s) (sort_by inbox_order items))))))"

definition inbox_dir_exists :: "bool inbox_io" where
  "inbox_dir_exists = bind_io (attempt_io ib_call) (\<lambda>r. return_io (case r of Inl _ \<Rightarrow> False | Inr _ \<Rightarrow> True))"

definition list_pending :: "inbox_message list inbox_io" where
  "list_pending = bind_io inbox_dir_exists (\<lambda>found.
     if \<not> found then return_io [] else bind_io pending_messages (\<lambda>items. return_io (map fst items)))"

text \<open>Files that belong to a process that went away: their last write lies far enough back.\<close>

definition is_stale :: "time \<Rightarrow> time \<Rightarrow> time \<Rightarrow> bool" where
  "is_stale limit now modified \<longleftrightarrow> modified \<le> now \<and> limit \<le> now - modified"

fun recover_stale :: "time \<Rightarrow> time \<Rightarrow> (string \<times> inbox_file) list \<Rightarrow> unit inbox_io" where
  "recover_stale limit now [] = return_io ()"
| "recover_stale limit now ((n, t, f) # fs) =
     (if \<not> is_processing_payload_yaml n then recover_stale limit now fs
      else bind_io ib_call (\<lambda>_.
        if \<not> is_stale limit now t then recover_stale limit now fs
        else bind_io (attempt_io (read_message n)) (\<lambda>r. case r of
            Inl _ \<Rightarrow> recover_stale limit now fs
          | Inr m \<Rightarrow> bind_io (ib_exists (done_name (message_id m))) (\<lambda>done.
              if done then bind_io (remove_file n) (\<lambda>_. recover_stale limit now fs)
              else bind_io (ib_exists (yaml_name (message_id m))) (\<lambda>active.
                if active then bind_io (remove_file n) (\<lambda>_. recover_stale limit now fs)
                else bind_io (attempt_io (rename_file n (yaml_name (message_id m)))) (\<lambda>q. case q of
                    Inl (InboxStorage (NotFound _)) \<Rightarrow> recover_stale limit now fs
                  | Inl e \<Rightarrow> throw_io e
                  | Inr _ \<Rightarrow> recover_stale limit now fs))))))"

definition recover_stale_processing :: "time \<Rightarrow> time \<Rightarrow> unit inbox_io" where
  "recover_stale_processing limit now = bind_io ib_call (\<lambda>_.
     bind_io (get_io inbox_files) (recover_stale limit now))"

fun claim_items :: "pending_inbox_message list \<Rightarrow> claimed_inbox_message list \<Rightarrow> claimed_inbox_message list inbox_io" where
  "claim_items [] out = return_io out"
| "claim_items ((m, t, n) # items) out =
     bind_io draw64 (\<lambda>suffix. bind_io (get_io process_id) (\<lambda>pid.
     let processing = processing_path_for (message_id m) pid suffix in
     bind_io (attempt_io (rename_file n processing)) (\<lambda>r. case r of
         Inr _ \<Rightarrow> claim_items items (out @ [\<lparr>claimed_message = m, lease_id = Some processing\<rparr>])
       | Inl (InboxStorage (NotFound _)) \<Rightarrow> claim_items items out
       | Inl e \<Rightarrow> throw_io e)))"

definition claim_pending :: "time \<Rightarrow> time \<Rightarrow> claimed_inbox_message list inbox_io" where
  "claim_pending limit now = bind_io inbox_dir_exists (\<lambda>found.
     if \<not> found then return_io []
     else bind_io (recover_stale_processing limit now) (\<lambda>_.
       bind_io pending_messages (\<lambda>items. claim_items items [])))"

section \<open>Acknowledging and releasing\<close>

definition mark_seen :: "inbox_id \<Rightarrow> unit inbox_io" where
  "mark_seen i = modify_io (seen_ids_update (\<lambda>s. if i \<in> set s then s else i # s))"

text \<open>The message is written to its done file before its other file goes away.\<close>

definition finish_file :: "inbox_id \<Rightarrow> string \<Rightarrow> time \<Rightarrow> unit inbox_io" where
  "finish_file i n now = bind_io (read_message n) (\<lambda>m.
     bind_io (write_message (done_name i) (m\<lparr>handled_at := Some (truncate_to_second now)\<rparr>) now) (\<lambda>_. remove_file n))"

definition ack :: "inbox_id \<Rightarrow> time \<Rightarrow> unit inbox_io" where
  "ack i now = bind_io (ib_exists (yaml_name i)) (\<lambda>active.
     bind_io (if active then finish_file i (yaml_name i) now else return_io ()) (\<lambda>_. mark_seen i))"

definition ack_claimed :: "claimed_inbox_message \<Rightarrow> time \<Rightarrow> unit inbox_io" where
  "ack_claimed c now = (let i = message_id (claimed_message c) in case lease_id c of
       None \<Rightarrow> ack i now
     | Some lease \<Rightarrow> bind_io (ib_exists lease) (\<lambda>processing.
         bind_io (if processing then finish_file i lease now
                  else bind_io (ib_exists (done_name i)) (\<lambda>done. if \<not> done then ack i now else return_io ()))
           (\<lambda>_. mark_seen i)))"

definition release_claimed :: "claimed_inbox_message \<Rightarrow> unit inbox_io" where
  "release_claimed c = (let i = message_id (claimed_message c) in case lease_id c of
       None \<Rightarrow> return_io ()
     | Some lease \<Rightarrow> bind_io (ib_exists (done_name i)) (\<lambda>done.
         if done then bind_io (ib_exists lease) (\<lambda>processing. if processing then remove_file lease else return_io ())
         else bind_io (ib_exists lease) (\<lambda>processing.
           if \<not> processing then return_io ()
           else bind_io (ib_exists (yaml_name i)) (\<lambda>active.
             if active then return_io () else rename_file lease (yaml_name i)))))"

text \<open>A new process starts with an empty memory.\<close>

definition restart :: "nat \<Rightarrow> inbox_store \<Rightarrow> inbox_store" where
  "restart pid w = w\<lparr>seen_ids := [], process_id := pid\<rparr>"

end
