(* ===== verification/Agent_Sync.thy ===== *)
theory Agent_Sync
  imports Http_Client Local_Inbox
begin

text \<open>
  \<open>sync_inbox_to_local\<close> and \<open>ack_persisted_inbox\<close> of \<open>src/agent/inbox.rs\<close>: pull from the Maintainer, store every
  message in the local inbox, acknowledge the stored ones.  The readings of the clock are arguments.
\<close>

datatype sync_warning = PullFailed client_error | AckFailed client_error

record inbox_sync_report =
  pull_succeeded :: bool
  accepted :: nat
  sync_warnings :: "sync_warning list"
  sync_failure :: "(inbox_error \<times> inbox_id \<times> nat) option"

definition empty_sync_report :: inbox_sync_report where
  "empty_sync_report = \<lparr>pull_succeeded = False, accepted = 0, sync_warnings = [], sync_failure = None\<rparr>"

type_synonym 'a agent_io = "(inbox_store net, client_error, 'a) io"

definition at_home :: "'a inbox_io \<Rightarrow> (inbox_store net, inbox_error, 'a) io" where
  "at_home m n = (case m (home n) of (r, h) \<Rightarrow> (r, n\<lparr>home := h\<rparr>))"

definition ack_persisted_inbox :: "nat \<Rightarrow> agent_id \<Rightarrow> (nat \<Rightarrow> time) \<Rightarrow> inbox_id list \<Rightarrow> sync_warning option agent_io" where
  "ack_persisted_inbox retries a now ids =
     (if ids = [] then return_io None
      else bind_io (attempt_io (client_ack_inbox retries a ids now)) (\<lambda>r. case r of
          Inr _ \<Rightarrow> return_io None
        | Inl e \<Rightarrow> return_io (Some (AckFailed e))))"

text \<open>The loop over the pulled messages: the ids stored so far, and the error that ended it early.\<close>

fun accept_all :: "time \<Rightarrow> inbox_message list \<Rightarrow> inbox_id list \<Rightarrow> (inbox_id list \<times> (inbox_error \<times> inbox_id) option) agent_io" where
  "accept_all now [] persisted = return_io (persisted, None)"
| "accept_all now (m # ms) persisted =
     bind_io (attempt_io (at_home (accept_pulled m now))) (\<lambda>r. case r of
         Inl e \<Rightarrow> return_io (persisted, Some (e, message_id m))
       | Inr _ \<Rightarrow> accept_all now ms (if message_id m \<in> set persisted then persisted else persisted @ [message_id m]))"

definition sync_inbox_to_local ::
  "bool \<Rightarrow> nat \<Rightarrow> agent_id \<Rightarrow> (nat \<Rightarrow> time) \<Rightarrow> time \<Rightarrow> (nat \<Rightarrow> time) \<Rightarrow> inbox_sync_report agent_io" where
  "sync_inbox_to_local maintainer_client retries a pull_now now ack_now =
     (if \<not> maintainer_client then return_io empty_sync_report
      else bind_io (attempt_io (client_pull_inbox retries a pull_now)) (\<lambda>r. case r of
          Inl e \<Rightarrow> return_io (empty_sync_report\<lparr>sync_warnings := [PullFailed e]\<rparr>)
        | Inr pulled \<Rightarrow>
            bind_io (accept_all now pulled []) (\<lambda>(persisted, failed).
            bind_io (ack_persisted_inbox retries a ack_now persisted) (\<lambda>warning.
              return_io \<lparr>pull_succeeded = True, accepted = length persisted,
                sync_warnings = (case warning of None \<Rightarrow> [] | Some x \<Rightarrow> [x]),
                sync_failure = (case failed of None \<Rightarrow> None | Some (e, i) \<Rightarrow> Some (e, i, length persisted))\<rparr>))))"

end
