(* ===== verification/Io_Contracts.thy ===== *)
theory Io_Contracts
  imports Io_Rules
begin

text \<open>
  Contracts of fallible programs: a condition before, one after success, which may speak about the result,
  and one after an error.  \<open>keeping\<close> is the contract whose three conditions are one invariant.
\<close>

definition contract :: "('w \<Rightarrow> bool) \<Rightarrow> ('w, 'e, 'a) io \<Rightarrow> ('w \<Rightarrow> bool) \<Rightarrow> ('a \<Rightarrow> 'w \<Rightarrow> bool) \<Rightarrow> bool" where
  "contract P m E Q \<longleftrightarrow> (\<forall>w r w'. P w \<longrightarrow> m w = (r, w') \<longrightarrow> (case r of Inl _ \<Rightarrow> E w' | Inr x \<Rightarrow> Q x w'))"

lemma contractI:
  "(\<And>w e w'. P w \<Longrightarrow> m w = (Inl e, w') \<Longrightarrow> E w') \<Longrightarrow> (\<And>w x w'. P w \<Longrightarrow> m w = (Inr x, w') \<Longrightarrow> Q x w') \<Longrightarrow> contract P m E Q"
  by (auto simp: contract_def split: sum.split)

lemma contract_ok: "contract P m E Q \<Longrightarrow> m w = (Inr x, w') \<Longrightarrow> P w \<Longrightarrow> Q x w'"
  by (force simp: contract_def)

lemma contract_err: "contract P m E Q \<Longrightarrow> m w = (Inl e, w') \<Longrightarrow> P w \<Longrightarrow> E w'"
  by (force simp: contract_def)

lemma contract_return: "(\<And>w. P w \<Longrightarrow> Q x w) \<Longrightarrow> contract P (return_io x) E Q"
  by (simp add: contract_def)

lemma contract_throw: "(\<And>w. P w \<Longrightarrow> E w) \<Longrightarrow> contract P (throw_io e) E Q"
  by (simp add: contract_def)

lemma contract_get: "(\<And>w. P w \<Longrightarrow> Q (f w) w) \<Longrightarrow> contract P (get_io f) E Q"
  by (simp add: contract_def)

lemma contract_modify: "(\<And>w. P w \<Longrightarrow> Q () (f w)) \<Longrightarrow> contract P (modify_io f) E Q"
  by (simp add: contract_def)

lemma contract_bind:
  assumes "contract P m E R" "\<And>x. contract (R x) (k x) E Q"
  shows "contract P (bind_io m k) E Q"
proof (rule contractI)
  show "E w'" if "P w" "bind_io m k w = (Inl e, w')" for w e w'
    using that contract_err [OF assms(1)] contract_ok [OF assms(1)] contract_err [OF assms(2)]
    unfolding bind_io_Inl_iff by blast
  show "Q x w'" if "P w" "bind_io m k w = (Inr x, w')" for w x w'
    using that contract_ok [OF assms(1)] contract_ok [OF assms(2)] unfolding bind_io_Inr_iff by blast
qed

lemma contract_attempt: "contract P m E Q \<Longrightarrow> contract P (attempt_io m) E' (\<lambda>r w. case r of Inl _ \<Rightarrow> E w | Inr x \<Rightarrow> Q x w)"
  by (auto intro!: contractI simp: attempt_io_eq split: sum.split dest: contract_ok contract_err)

lemma contract_if: "(b \<Longrightarrow> contract P m E Q) \<Longrightarrow> (\<not> b \<Longrightarrow> contract P n E Q) \<Longrightarrow> contract P (if b then m else n) E Q"
  by simp

lemma contract_option:
  "(v = None \<Longrightarrow> contract P m E Q) \<Longrightarrow> (\<And>x. v = Some x \<Longrightarrow> contract P (f x) E Q) \<Longrightarrow>
   contract P (case v of None \<Rightarrow> m | Some x \<Rightarrow> f x) E Q"
  by (cases v) auto

lemma contract_sum:
  "(\<And>x. v = Inl x \<Longrightarrow> contract P (f x) E Q) \<Longrightarrow> (\<And>y. v = Inr y \<Longrightarrow> contract P (g y) E Q) \<Longrightarrow>
   contract P (case v of Inl x \<Rightarrow> f x | Inr y \<Rightarrow> g y) E Q"
  by (cases v) auto

lemma contract_conseq:
  "contract P m E Q \<Longrightarrow> (\<And>w. P' w \<Longrightarrow> P w) \<Longrightarrow> (\<And>w. E w \<Longrightarrow> E' w) \<Longrightarrow> (\<And>x w. Q x w \<Longrightarrow> Q' x w) \<Longrightarrow> contract P' m E' Q'"
  by (fastforce simp: contract_def split: sum.splits)

lemma contract_pre: "contract P m E Q \<Longrightarrow> (\<And>w. P' w \<Longrightarrow> P w) \<Longrightarrow> contract P' m E Q"
  by (rule contract_conseq)

lemma contract_post: "contract P m E Q \<Longrightarrow> (\<And>x w. Q x w \<Longrightarrow> Q' x w) \<Longrightarrow> contract P m E Q'"
  by (rule contract_conseq)

lemma contract_for: "(\<And>x. x \<in> set xs \<Longrightarrow> contract I (m x) I (\<lambda>_. I)) \<Longrightarrow> contract I (for_io m xs) I (\<lambda>_. I)"
  by (induction xs) (auto intro!: contract_return contract_bind)

lemma contract_keeping: "contract I m I (\<lambda>x w. I w \<and> Q x) \<longleftrightarrow> keeping I m Q"
proof
  assume c: "contract I m I (\<lambda>x w. I w \<and> Q x)"
  show "keeping I m Q"
  proof (rule keepingI)
    fix w r w'
    assume "I w" "m w = (r, w')"
    with c show "I w' \<and> (\<forall>x. r = Inr x \<longrightarrow> Q x)"
      by (cases r) (auto dest: contract_ok contract_err)
  qed
next
  assume "keeping I m Q"
  then show "contract I m I (\<lambda>x w. I w \<and> Q x)"
    by (intro contractI) (auto dest: keepingD keeping_value)
qed

end
