(* ===== verification/Inbox_Properties.thy ===== *)
theory Inbox_Properties
  imports Local_Inbox Io_Contracts Dir_Facts
begin

text \<open>
  What the local inbox promises: a message that was stored stays stored through every operation and fault,
  a handled message is never handed out again, and one that was not handled is.
\<close>

section \<open>File names\<close>

definition minted_id :: "inbox_id \<Rightarrow> bool" where
  "minted_id i \<longleftrightarrow> (\<exists>r. i = random_id inbox_prefix r)"

lemma id_no_dot: "minted_id i \<Longrightarrow> CHR ''.'' \<notin> set (as_str i)"
proof -
  assume "minted_id i"
  then obtain r where "i = random_id inbox_prefix r" by (auto simp: minted_id_def)
  moreover have "CHR ''.'' \<notin> set (random_hex8 r)" using count_dots_hex count_list_0_iff by metis
  moreover have "CHR ''.'' \<notin> set inbox_prefix" by (simp add: inbox_prefix_def)
  ultimately show ?thesis by (simp add: random_id_def)
qed

lemma contains_skip: "CHR ''.'' \<notin> set s \<Longrightarrow> str_contains (s @ t) (CHR ''.'' # p) = str_contains t (CHR ''.'' # p)"
  by (induction s) (auto simp: str_starts_with_def)

lemma contains_prefix: "str_contains (p @ t) p"
  by (auto simp: str_contains_iff intro: exI [of _ "[]"])

lemma done_suffix: "CHR ''.'' \<notin> set s \<Longrightarrow> \<not> str_ends_with (s @ ''.yaml'') ''.done.yaml''"
proof
  assume dot: "CHR ''.'' \<notin> set s" and "str_ends_with (s @ ''.yaml'') ''.done.yaml''"
  then obtain r where "s @ ''.yaml'' = r @ ''.done.yaml''" by (auto simp: str_ends_with_iff)
  then have "s @ ''.yaml'' = (r @ ''.done'') @ ''.yaml''" by simp
  then have "s = r @ ''.done''" by blast
  with dot show False by simp
qed

lemma kind_of_name:
  assumes "minted_id i"
  shows "is_pending_payload_yaml (yaml_name i)" "\<not> is_processing_payload_yaml (yaml_name i)"
    "\<not> is_pending_payload_yaml (done_name i)" "\<not> is_processing_payload_yaml (done_name i)"
    "\<not> is_pending_payload_yaml (processing_path_for i pid s)" "is_processing_payload_yaml (processing_path_for i pid s)"
proof -
  note dot = id_no_dot [OF assms]
  note skip = contains_skip [OF dot]
  show active: "\<not> is_processing_payload_yaml (yaml_name i)"
    by (simp add: is_processing_payload_yaml_def yaml_name_def skip str_starts_with_def)
  have "str_ends_with (yaml_name i) ''.yaml''" by (auto simp: str_ends_with_iff yaml_name_def)
  with active done_suffix [OF dot] show "is_pending_payload_yaml (yaml_name i)"
    by (simp add: is_pending_payload_yaml_def is_payload_yaml_def yaml_name_def skip str_starts_with_def)
  have "str_ends_with (done_name i) ''.done.yaml''" by (auto simp: str_ends_with_iff done_name_def)
  then show "\<not> is_pending_payload_yaml (done_name i)" by (simp add: is_pending_payload_yaml_def is_payload_yaml_def)
  show "\<not> is_processing_payload_yaml (done_name i)"
    by (simp add: is_processing_payload_yaml_def done_name_def skip str_starts_with_def)
  have "str_contains (processing_path_for i pid s) ''.processing.''"
    unfolding processing_path_for_def skip by (rule contains_prefix)
  moreover have "str_ends_with (processing_path_for i pid s) ''.yaml''"
    unfolding str_ends_with_iff processing_path_for_def append_assoc [symmetric] by blast
  ultimately show "is_processing_payload_yaml (processing_path_for i pid s)" by (simp add: is_processing_payload_yaml_def)
  then show "\<not> is_pending_payload_yaml (processing_path_for i pid s)" by (simp add: is_pending_payload_yaml_def)
qed

text \<open>The names of a message.\<close>

definition named_for :: "inbox_id \<Rightarrow> string \<Rightarrow> bool" where
  "named_for i n \<longleftrightarrow> n = yaml_name i \<or> n = done_name i \<or> (\<exists>pid s. n = processing_path_for i pid s)"

lemma named_for_names [simp]: "named_for i (yaml_name i)" "named_for i (done_name i)" "named_for i (processing_path_for i pid s)"
  by (auto simp: named_for_def)

lemma name_stem:
  assumes "minted_id i" "named_for i n"
  shows "takeWhile (\<lambda>c. c \<noteq> CHR ''.'') n = as_str i"
proof -
  have "takeWhile (\<lambda>c. c \<noteq> CHR ''.'') (as_str i @ CHR ''.'' # t) = as_str i" for t
    using id_no_dot [OF assms(1)] by (subst takeWhile_append2) auto
  with assms(2) show ?thesis by (auto simp: named_for_def yaml_name_def done_name_def processing_path_for_def)
qed

lemma named_for_unique: "minted_id i \<Longrightarrow> minted_id j \<Longrightarrow> named_for i n \<Longrightarrow> named_for j n \<Longrightarrow> i = j"
  using name_stem as_str_inject by metis

lemma named_kinds:
  assumes "minted_id i" "named_for i n"
  shows "is_pending_payload_yaml n \<longleftrightarrow> n = yaml_name i" "is_processing_payload_yaml n \<longleftrightarrow> n \<noteq> yaml_name i \<and> n \<noteq> done_name i"
proof -
  have "yaml_name i \<noteq> done_name i" using kind_of_name [OF assms(1)] by metis
  moreover have "processing_path_for i pid s \<noteq> yaml_name i" "processing_path_for i pid s \<noteq> done_name i" for pid s
    using kind_of_name [OF assms(1)] by metis+
  ultimately show "is_pending_payload_yaml n \<longleftrightarrow> n = yaml_name i" "is_processing_payload_yaml n \<longleftrightarrow> n \<noteq> yaml_name i \<and> n \<noteq> done_name i"
    using assms kind_of_name [OF assms(1)] by (auto simp: named_for_def)
qed

section \<open>The files\<close>

type_synonym inbox_dir = "(string \<times> inbox_file) list"

definition snapshot :: "inbox_message \<Rightarrow> inbox_message" where
  "snapshot m = m\<lparr>handled_at := None\<rparr>"

lemma snapshot_simps [simp]: "message_id (snapshot m) = message_id m" "snapshot (m\<lparr>handled_at := h\<rparr>) = snapshot m" "snapshot (snapshot m) = snapshot m"
  by (simp_all add: snapshot_def)

text \<open>The mail that ever reaches the agent: one message per id.\<close>

definition mail_set :: "inbox_message set \<Rightarrow> bool" where
  "mail_set M \<longleftrightarrow> inj_on message_id M \<and> (\<forall>m \<in> M. minted_id (message_id m))"

definition inbox_wf :: "inbox_message set \<Rightarrow> inbox_dir \<Rightarrow> bool" where
  "inbox_wf M fs \<longleftrightarrow> distinct (map fst fs)
     \<and> (\<forall>n t f. map_of fs n = Some (t, f) \<longrightarrow> (\<exists>m. f = Document m \<and> snapshot m \<in> M \<and> named_for (message_id m) n))"

definition held :: "inbox_message \<Rightarrow> inbox_dir \<Rightarrow> bool" where
  "held s fs \<longleftrightarrow> (\<exists>n t m. map_of fs n = Some (t, Document m) \<and> snapshot m = s)"

definition finished :: "inbox_id \<Rightarrow> inbox_dir \<Rightarrow> bool" where
  "finished i fs \<longleftrightarrow> map_of fs (done_name i) \<noteq> None"

text \<open>What every operation preserves: the form of the directory, the messages it holds, the finished ones.\<close>

definition safe :: "inbox_message set \<Rightarrow> inbox_message set \<Rightarrow> inbox_id set \<Rightarrow> inbox_dir \<Rightarrow> bool" where
  "safe M S F fs \<longleftrightarrow> mail_set M \<and> inbox_wf M fs \<and> (\<forall>s \<in> S. held s fs) \<and> (\<forall>i \<in> F. minted_id i \<and> finished i fs)"

lemma wf_doc:
  assumes "inbox_wf M fs" "map_of fs n = Some x"
  obtains t m where "x = (t, Document m)" "snapshot m \<in> M" "named_for (message_id m) n"
proof -
  obtain t f where x: "x = (t, f)" by fastforce
  with assms obtain m where "f = Document m" "snapshot m \<in> M" "named_for (message_id m) n" unfolding inbox_wf_def by blast
  with x that show ?thesis by blast
qed

lemma wf_docD: "inbox_wf M fs \<Longrightarrow> map_of fs n = Some (t, Document m) \<Longrightarrow> snapshot m \<in> M \<and> named_for (message_id m) n"
  unfolding inbox_wf_def by blast

lemma mail_id: "mail_set M \<Longrightarrow> snapshot m \<in> M \<Longrightarrow> minted_id (message_id m)"
  unfolding mail_set_def by (metis snapshot_simps(1))

lemma mail_same: "mail_set M \<Longrightarrow> snapshot m \<in> M \<Longrightarrow> snapshot m' \<in> M \<Longrightarrow> message_id m = message_id m' \<Longrightarrow> snapshot m = snapshot m'"
  unfolding mail_set_def inj_on_def by (metis snapshot_simps(1))

lemma doc_id:
  assumes "mail_set M" "inbox_wf M fs" "map_of fs n = Some (t, Document m)" "named_for i n" "minted_id i"
  shows "message_id m = i"
  using named_for_unique [OF mail_id [OF assms(1)] assms(5) _ assms(4)] wf_docD [OF assms(2,3)] by blast

lemma names_differ:
  assumes "minted_id i"
  shows "yaml_name i \<noteq> done_name i" "processing_path_for i pid s \<noteq> yaml_name i" "processing_path_for i pid s \<noteq> done_name i"
  using kind_of_name [OF assms] by metis+

lemma safe_put:
  assumes "safe M S F fs" "snapshot m \<in> M" "named_for (message_id m) n"
  shows "safe M (insert (snapshot m) S) F (AList.update n (t, Document m) fs)"
proof -
  have wf: "inbox_wf M (AList.update n (t, Document m) fs)"
    using assms by (simp add: safe_def inbox_wf_def distinct_update del: map_of_eq_Some_iff)
  have "held s (AList.update n (t, Document m) fs)" if "held s fs" for s
  proof -
    from that obtain n' t' m' where c: "map_of fs n' = Some (t', Document m')" "snapshot m' = s" by (auto simp: held_def)
    show ?thesis
    proof (cases "n' = n")
      case True
      have wf: "mail_set M" "inbox_wf M fs" using assms(1) by (simp_all add: safe_def)
      have "message_id m' = message_id m"
        using doc_id [OF wf _ assms(3) mail_id [OF wf(1) assms(2)]] c(1) True by blast
      moreover have "snapshot m' \<in> M" using wf_docD [OF wf(2) c(1)] by blast
      ultimately have "snapshot m = s" using mail_same assms(1,2) c(2) by (metis safe_def)
      then show ?thesis by (auto simp: held_def)
    next
      case False
      with c show ?thesis by (auto simp: held_def)
    qed
  qed
  moreover have "held (snapshot m) (AList.update n (t, Document m) fs)" by (auto simp: held_def)
  ultimately show ?thesis using assms(1) wf by (auto simp: safe_def finished_def)
qed

lemma map_of_delete_iff: "map_of (AList.delete n d) n' = (if n' = n then None else map_of d n')"
  by (simp add: delete_conv')

lemma safe_drop:
  assumes "safe M S F fs" "map_of fs n = Some (t, Document m)" "map_of fs n' \<noteq> None" "named_for (message_id m) n'" "n' \<noteq> n"
    and "\<forall>i \<in> F. n \<noteq> done_name i"
  shows "safe M S F (AList.delete n fs)"
proof -
  have wf: "mail_set M" "inbox_wf M fs" using assms(1) by (simp_all add: safe_def)
  obtain t' m' where c': "map_of fs n' = Some (t', Document m')" "snapshot m' \<in> M" using wf_doc [OF wf(2)] assms(3) by blast
  have m: "snapshot m \<in> M" using wf_docD [OF wf(2) assms(2)] by blast
  have "message_id m' = message_id m" using doc_id [OF wf c'(1) assms(4) mail_id [OF wf(1) m]] .
  then have same: "snapshot m' = snapshot m" using mail_same wf(1) c'(2) m by blast
  have "held s (AList.delete n fs)" if held: "held s fs" for s
  proof -
    from held obtain n0 t0 m0 where c: "map_of fs n0 = Some (t0, Document m0)" "snapshot m0 = s" by (auto simp: held_def)
    show ?thesis
    proof (cases "n0 = n")
      case True
      with c assms(2,5) c'(1) same show ?thesis unfolding held_def map_of_delete_iff by fastforce
    next
      case False
      with c show ?thesis unfolding held_def map_of_delete_iff by fastforce
    qed
  qed
  moreover have "inbox_wf M (AList.delete n fs)"
    using wf(2) by (simp add: inbox_wf_def map_of_delete_iff distinct_delete del: map_of_eq_Some_iff)
  ultimately show ?thesis using assms(1,6) by (auto simp: safe_def finished_def map_of_delete_iff)
qed

lemma safe_move:
  assumes "safe M S F fs" "map_of fs n = Some x" "named_for i n" "named_for i n'" "minted_id i" "n \<noteq> n'" "\<forall>j \<in> F. n \<noteq> done_name j"
  shows "safe M S F (AList.update n' x (AList.delete n fs))"
proof -
  have wf: "mail_set M" "inbox_wf M fs" using assms(1) by (simp_all add: safe_def)
  obtain t m where x: "x = (t, Document m)" "snapshot m \<in> M" using wf_doc [OF wf(2) assms(2)] by blast
  have id: "message_id m = i" using doc_id [OF wf _ assms(3,5)] assms(2) x(1) by blast
  have put: "safe M S F (AList.update n' (t, Document m) fs)"
    using safe_put [OF assms(1) x(2), of n' t] assms(4) id by (simp add: safe_def)
  have "safe M S F (AList.delete n (AList.update n' (t, Document m) fs))"
    by (rule safe_drop [OF put, of n t m n']) (use assms x id in auto)
  moreover have "map_of (AList.delete n (AList.update n' x fs)) = map_of (AList.update n' x (AList.delete n fs))"
    using assms(6) by (auto simp: map_of_delete_iff)
  moreover have "distinct (map fst (AList.update n' x (AList.delete n fs)))"
    using wf(2) by (simp add: inbox_wf_def distinct_update distinct_delete)
  ultimately show ?thesis using x(1) by (simp add: safe_def inbox_wf_def held_def finished_def)
qed

lemma safe_mono: "safe M S F fs \<Longrightarrow> S' \<subseteq> S \<Longrightarrow> F' \<subseteq> F \<Longrightarrow> safe M S' F' fs"
  by (auto simp: safe_def)

section \<open>Contracts of the file calls\<close>

abbreviation files_in :: "(inbox_dir \<Rightarrow> bool) \<Rightarrow> inbox_store \<Rightarrow> bool" where
  "files_in p w \<equiv> p (inbox_files w)"

lemma c_call: "contract (files_in p) ib_call (files_in p) (\<lambda>_. files_in p)"
  by (rule contractI) (auto simp: ib_call_def split: list.splits if_splits)

lemma c_call_err: "(\<And>fs. p fs \<Longrightarrow> e fs) \<Longrightarrow> contract (files_in p) ib_call (files_in e) (\<lambda>_. files_in p)"
  by (rule contract_conseq [OF c_call]) auto

lemma c_exists: "contract (files_in p) (ib_exists n) E (\<lambda>b. files_in (\<lambda>fs. p fs \<and> (b \<longrightarrow> map_of fs n \<noteq> None)))"
proof -
  have "contract (files_in p) (attempt_io ib_call) E (\<lambda>_. files_in p)"
    by (rule contract_post [OF contract_attempt [OF c_call]]) (auto split: sum.splits)
  then show ?thesis unfolding ib_exists_def
    by (rule contract_bind) (auto intro!: contract_sum contract_return contract_get)
qed

lemma c_read: "contract (files_in p) (read_message n) (files_in p)
    (\<lambda>m. files_in (\<lambda>fs. p fs \<and> (\<exists>t. map_of fs n = Some (t, Document m))))"
  unfolding read_message_def
proof (rule contract_bind [OF c_call])
  show "contract (files_in p) (bind_io (get_io (\<lambda>w. map_sum InboxStorage id (decode_file n (map_option snd (map_of (inbox_files w) n))))) lift_sum)
      (files_in p) (\<lambda>m. files_in (\<lambda>fs. p fs \<and> (\<exists>t. map_of fs n = Some (t, Document m))))"
    by (rule contractI) (auto simp: io_iffs lift_sum_def decode_file_def split: sum.splits option.splits yaml_file.splits)
qed

lemma c_write: "contract (files_in (\<lambda>fs. e fs \<and> p (AList.update n (now, Document m) fs))) (write_message n m now) (files_in e) (\<lambda>_. files_in p)"
  unfolding write_message_def
  by (rule contract_bind [OF c_call_err]) (auto intro!: contract_modify)

lemma c_remove:
  "contract (files_in (\<lambda>fs. e fs \<and> (map_of fs n \<noteq> None \<longrightarrow> p (AList.delete n fs)))) (remove_file n) (files_in e) (\<lambda>_. files_in p)"
  unfolding remove_file_def
  by (rule contract_bind [OF c_call_err]) (auto simp: contract_def bind_io_def get_io_def throw_io_def modify_io_def split: if_splits)

lemma c_rename:
  "contract (files_in (\<lambda>fs. e fs \<and> (\<forall>x. map_of fs from = Some x \<longrightarrow> p (AList.update to x (AList.delete from fs)))))
     (rename_file from to) (files_in e) (\<lambda>_. files_in p)"
  unfolding rename_file_def
  by (rule contract_bind [OF c_call_err])
    (auto simp: contract_def bind_io_def get_io_def throw_io_def modify_io_def split: option.splits)

lemma c_files: "(\<And>w. inbox_files (h w) = inbox_files w) \<Longrightarrow> contract (files_in p) (modify_io h) E (\<lambda>_. files_in p)"
  by (rule contract_modify) simp

lemma c_draw: "contract (files_in p) draw64 E (\<lambda>_. files_in p)"
  unfolding draw64_def by (rule contractI) (auto simp: io_iffs)

section \<open>Nothing stored is lost\<close>

text \<open>A file may go away when it is no done file and the message has another file.\<close>

lemma drop_contract:
  assumes "minted_id i" "named_for i n" "named_for i n'" "n \<noteq> done_name i" "n' \<noteq> n"
  shows "contract (files_in (\<lambda>fs. safe M S F fs \<and> map_of fs n' \<noteq> None)) (remove_file n) (files_in (safe M S F)) (\<lambda>_. files_in (safe M S F))"
proof (rule contract_pre [OF c_remove])
  fix w
  let ?fs = "inbox_files w"
  assume w: "safe M S F ?fs \<and> map_of ?fs n' \<noteq> None"
  have "safe M S F (AList.delete n ?fs)" if x: "map_of ?fs n = Some x" for x
  proof -
    have wf: "mail_set M" "inbox_wf M ?fs" using w by (simp_all add: safe_def)
    obtain t m where m: "x = (t, Document m)" "named_for (message_id m) n" using wf_doc [OF wf(2) x] by blast
    have id: "message_id m = i" using doc_id [OF wf _ assms(2,1)] x m(1) by blast
    have "n \<noteq> done_name j" if "j \<in> F" for j
      using named_for_unique [OF assms(1) _ assms(2)] w that assms(4) by (auto simp: safe_def)
    then show ?thesis using safe_drop [of M S F ?fs n t m n'] w x m(1) id assms(3,5) by auto
  qed
  then show "safe M S F ?fs \<and> (map_of ?fs n \<noteq> None \<longrightarrow> safe M S F (AList.delete n ?fs))" using w by auto
qed

lemma move_contract:
  assumes "minted_id i" "named_for i n" "named_for i n'" "n \<noteq> done_name i" "n' \<noteq> n"
  shows "contract (files_in (safe M S F)) (rename_file n n') (files_in (safe M S F)) (\<lambda>_. files_in (safe M S F))"
proof (rule contract_pre [OF c_rename])
  fix w
  assume w: "files_in (safe M S F) w"
  have "\<forall>j \<in> F. n \<noteq> done_name j" using named_for_unique [OF assms(1) _ assms(2)] w assms(4) by (auto simp: safe_def)
  with w assms show "safe M S F (inbox_files w) \<and> (\<forall>x. map_of (inbox_files w) n = Some x \<longrightarrow>
      safe M S F (AList.update n' x (AList.delete n (inbox_files w))))"
    using safe_move [of M S F "inbox_files w" n _ i n'] by blast
qed

lemma finish_contract:
  assumes "minted_id i" "named_for i n" "n \<noteq> done_name i"
  shows "contract (files_in (safe M S F)) (finish_file i n now) (files_in (safe M S F)) (\<lambda>_. files_in (safe M S (insert i F)))"
  unfolding finish_file_def
proof (rule contract_bind [OF c_read], rule contract_bind [OF contract_pre [OF c_write]])
  fix m w
  assume w: "safe M S F (inbox_files w) \<and> (\<exists>t. map_of (inbox_files w) n = Some (t, Document m))"
  let ?m = "m\<lparr>handled_at := Some (truncate_to_second now)\<rparr>"
  have wf: "mail_set M" "inbox_wf M (inbox_files w)" using w by (simp_all add: safe_def)
  obtain t where t: "map_of (inbox_files w) n = Some (t, Document m)" using w by blast
  have "message_id m = i" "snapshot m \<in> M" using doc_id [OF wf t assms(2,1)] wf_docD [OF wf(2) t] by blast+
  then have "safe M S F (AList.update (done_name i) (now, Document ?m) (inbox_files w))"
    using safe_put [of M S F "inbox_files w" ?m "done_name i" now] w by (auto intro: safe_mono)
  then have "safe M S (insert i F) (AList.update (done_name i) (now, Document ?m) (inbox_files w))"
    using assms(1) by (simp add: safe_def finished_def)
  then show "safe M S F (inbox_files w) \<and> safe M S (insert i F) (AList.update (done_name i) (now, Document ?m) (inbox_files w))
      \<and> map_of (AList.update (done_name i) (now, Document ?m) (inbox_files w)) (done_name i) \<noteq> None"
    using w by simp
next
  show "contract (files_in (\<lambda>fs. safe M S (insert i F) fs \<and> map_of fs (done_name i) \<noteq> None)) (remove_file n)
      (files_in (safe M S F)) (\<lambda>_. files_in (safe M S (insert i F)))"
    by (rule contract_conseq [OF drop_contract [OF assms(1,2) named_for_names(2) assms(3)]])
      (use assms(3) in \<open>auto intro: safe_mono\<close>)
qed

lemma mark_seen_contract: "contract (files_in p) (mark_seen i) E (\<lambda>_. files_in p)"
  unfolding mark_seen_def by (rule c_files) simp

abbreviation preserves_mail :: "inbox_message set \<Rightarrow> inbox_message set \<Rightarrow> inbox_id set \<Rightarrow> 'a inbox_io \<Rightarrow> ('a \<Rightarrow> bool) \<Rightarrow> bool" where
  "preserves_mail M S F m Q \<equiv> contract (files_in (safe M S F)) m (files_in (safe M S F)) (\<lambda>x w. files_in (safe M S F) w \<and> Q x)"

lemma finish_keeps:
  assumes "minted_id i" "named_for i n" "n \<noteq> done_name i"
  shows "preserves_mail M S F (finish_file i n now) (\<lambda>_. True)"
  by (rule contract_post [OF finish_contract [OF assms]]) (auto intro: safe_mono)

lemma ack_keeps: "minted_id i \<Longrightarrow> preserves_mail M S F (ack i now) (\<lambda>_. True)"
  unfolding ack_def
  by (rule contract_bind [OF c_exists], rule contract_bind [where R = "\<lambda>_. files_in (safe M S F)"])
    (auto intro!: contract_if contract_return contract_post [OF mark_seen_contract] contract_conseq [OF finish_keeps] names_differ)

text \<open>What a claim hands out.\<close>

definition leased :: "inbox_message set \<Rightarrow> claimed_inbox_message \<Rightarrow> bool" where
  "leased M c \<longleftrightarrow> snapshot (claimed_message c) \<in> M
     \<and> (\<exists>pid s. lease_id c = Some (processing_path_for (message_id (claimed_message c)) pid s))"

lemma ack_claimed_keeps:
  assumes "mail_set M" "leased M c"
  shows "preserves_mail M S F (ack_claimed c now) (\<lambda>_. True)"
proof -
  let ?i = "message_id (claimed_message c)"
  obtain pid s where l: "lease_id c = Some (processing_path_for ?i pid s)" using assms(2) by (auto simp: leased_def)
  have i: "minted_id ?i" using assms mail_id by (auto simp: leased_def)
  show ?thesis unfolding ack_claimed_def l Let_def option.case
  proof (rule contract_bind [OF c_exists], rule contract_bind [where R = "\<lambda>_. files_in (safe M S F)"])
    show "contract (files_in (\<lambda>fs. safe M S F fs \<and> (b \<longrightarrow> map_of fs (processing_path_for ?i pid s) \<noteq> None)))
        (if b then finish_file ?i (processing_path_for ?i pid s) now
         else bind_io (ib_exists (done_name ?i)) (\<lambda>done. if \<not> done then ack ?i now else return_io ()))
        (files_in (safe M S F)) (\<lambda>_. files_in (safe M S F))" for b
      by (intro contract_if contract_conseq [OF finish_keeps] contract_bind [OF c_exists] contract_conseq [OF ack_keeps] contract_return)
        (auto simp: i names_differ)
  qed (auto intro!: contract_post [OF mark_seen_contract])
qed

lemma release_keeps:
  assumes "mail_set M" "leased M c"
  shows "preserves_mail M S F (release_claimed c) (\<lambda>_. True)"
proof -
  let ?i = "message_id (claimed_message c)"
  obtain pid s where l: "lease_id c = Some (processing_path_for ?i pid s)" using assms(2) by (auto simp: leased_def)
  let ?n = "processing_path_for ?i pid s"
  have i: "minted_id ?i" using assms mail_id by (auto simp: leased_def)
  have drop: "contract (files_in (\<lambda>fs. safe M S F fs \<and> map_of fs (done_name ?i) \<noteq> None)) (remove_file ?n)
      (files_in (safe M S F)) (\<lambda>_. files_in (safe M S F))"
    by (rule drop_contract [OF i]) (use names_differ [OF i] in \<open>auto simp: eq_commute\<close>)
  have move: "contract (files_in (safe M S F)) (rename_file ?n (yaml_name ?i)) (files_in (safe M S F)) (\<lambda>_. files_in (safe M S F))"
    by (rule move_contract [OF i]) (use names_differ [OF i] in \<open>auto simp: eq_commute\<close>)
  show ?thesis unfolding release_claimed_def l Let_def option.case
    by (rule contract_bind [OF c_exists])
      (auto intro!: contract_if contract_bind [OF c_exists] contract_return contract_conseq [OF drop] contract_conseq [OF move])
qed

text \<open>A message that was accepted is held.\<close>

lemma ensure_contract:
  "contract (files_in p) (ensure_existing_inbox_snapshot m n) (files_in p) (\<lambda>_. files_in (\<lambda>fs. p fs \<and> held (snapshot m) fs))"
  unfolding ensure_existing_inbox_snapshot_def
  by (rule contract_bind [OF c_read]) (auto intro!: contract_if contract_throw contract_return simp: held_def snapshot_def)

lemma ensure_all_contract:
  "contract (files_in p) (for_io (ensure_existing_inbox_snapshot m) ns) (files_in p) (\<lambda>_. files_in (\<lambda>fs. p fs \<and> (ns \<noteq> [] \<longrightarrow> held (snapshot m) fs)))"
proof (induction ns arbitrary: p)
  case Nil
  show ?case by (auto intro: contract_return)
next
  case (Cons n ns)
  have "contract (files_in (\<lambda>fs. p fs \<and> held (snapshot m) fs)) (for_io (ensure_existing_inbox_snapshot m) ns) (files_in p)
      (\<lambda>_. files_in (\<lambda>fs. p fs \<and> held (snapshot m) fs))"
    by (rule contract_conseq [OF Cons.IH [of "\<lambda>fs. p fs \<and> held (snapshot m) fs"]]) auto
  then show ?case using contract_bind [OF ensure_contract] by fastforce
qed

lemma accept_contract:
  assumes "snapshot m \<in> M"
  shows "contract (files_in (safe M S F)) (accept_pulled m now) (files_in (safe M S F)) (\<lambda>_. files_in (safe M (insert (snapshot m) S) F))"
proof -
  have paths: "contract (files_in p) (processing_paths_for_id (message_id m)) (files_in p) (\<lambda>_. files_in p)" for p
    unfolding processing_paths_for_id_def by (rule contract_bind [OF c_call]) (auto intro: contract_get)
  have put: "contract (files_in (safe M S F)) (write_message (yaml_name (message_id m)) m now) (files_in (safe M S F))
      (\<lambda>_. files_in (safe M (insert (snapshot m) S) F))"
    by (rule contract_pre [OF c_write]) (use safe_put assms in auto)
  have check: "contract (files_in (safe M S F)) (for_io (ensure_existing_inbox_snapshot m) ns) (files_in (safe M S F))
      (\<lambda>_. files_in (safe M (insert (snapshot m) S) F))" if "ns \<noteq> []" for ns
    by (rule contract_post [OF ensure_all_contract]) (use that in \<open>auto simp: safe_def\<close>)
  show ?thesis unfolding accept_pulled_def Let_def
    by (rule contract_bind [OF c_call], rule contract_bind [OF contract_post [OF c_exists [where p = "safe M S F"], of _ "\<lambda>_. files_in (safe M S F)"]],
        simp, rule contract_bind [OF contract_post [OF c_exists [where p = "safe M S F"], of _ "\<lambda>_. files_in (safe M S F)"]],
        simp, rule contract_bind [OF paths], rule contract_if, rule check, assumption, rule put)
qed

text \<open>Scanning removes only residues of finished messages.\<close>

definition waiting :: "inbox_message set \<Rightarrow> pending_inbox_message \<Rightarrow> bool" where
  "waiting M x = (case x of (m, _, n) \<Rightarrow> snapshot m \<in> M \<and> n = yaml_name (message_id m))"

lemma waiting_doc:
  assumes "safe M S F fs" "is_pending_payload_yaml n" "map_of fs n = Some (t, Document m)"
  shows "waiting M (m, t', n)"
proof -
  have wf: "mail_set M" "inbox_wf M fs" using assms(1) by (simp_all add: safe_def)
  have "snapshot m \<in> M" "named_for (message_id m) n" using wf_docD [OF wf(2) assms(3)] by blast+
  with named_kinds(1) [OF mail_id [OF wf(1)]] assms(2) show ?thesis by (simp add: waiting_def)
qed

lemma scan_keeps:
  "list_all (waiting M) out \<Longrightarrow> preserves_mail M S F (scan_pending fs out) (list_all (waiting M))"
proof (induction fs out rule: scan_pending.induct)
  case (1 out)
  then show ?case by (auto intro: contract_return)
next
  case (2 n t f fs out)
  show ?case
  proof (cases "is_pending_payload_yaml n")
    case pending: True
    have step: "contract (files_in (\<lambda>fs. (safe M S F fs \<and> (\<exists>t. map_of fs n = Some (t, Document m))) \<and> (b \<longrightarrow> map_of fs (done_name (message_id m)) \<noteq> None)))
        (if b then bind_io (remove_file n) (\<lambda>_. scan_pending fs out) else bind_io ib_call (\<lambda>_. scan_pending fs (out @ [(m, t, n)])))
        (files_in (safe M S F)) (\<lambda>x w. files_in (safe M S F) w \<and> list_all (waiting M) x)" for m b
    proof (cases "waiting M (m, t, n) \<and> minted_id (message_id m)")
      case True
      then have drop: "contract (files_in (\<lambda>fs. safe M S F fs \<and> map_of fs (done_name (message_id m)) \<noteq> None)) (remove_file n)
          (files_in (safe M S F)) (\<lambda>_. files_in (safe M S F))"
        by (intro drop_contract [of "message_id m"]) (use names_differ [of "message_id m"] in \<open>auto simp: waiting_def eq_commute\<close>)
      have "list_all (waiting M) (out @ [(m, t, n)])" using True 2(4) by simp
      then have rest: "preserves_mail M S F (scan_pending fs out) (list_all (waiting M))"
          "preserves_mail M S F (scan_pending fs (out @ [(m, t, n)])) (list_all (waiting M))"
        using 2 pending by auto
      have "contract (files_in (\<lambda>fs. safe M S F fs \<and> map_of fs (done_name (message_id m)) \<noteq> None))
          (bind_io (remove_file n) (\<lambda>_. scan_pending fs out)) (files_in (safe M S F)) (\<lambda>x w. files_in (safe M S F) w \<and> list_all (waiting M) x)"
        by (rule contract_bind [OF drop rest(1)])
      moreover have "contract (files_in (safe M S F)) (bind_io ib_call (\<lambda>_. scan_pending fs (out @ [(m, t, n)]))) (files_in (safe M S F))
          (\<lambda>x w. files_in (safe M S F) w \<and> list_all (waiting M) x)"
        by (rule contract_bind [OF c_call rest(2)])
      ultimately show ?thesis by (cases b) (auto elim!: contract_pre)
    next
      case False
      have "\<not> (safe M S F (inbox_files w) \<and> (\<exists>t. map_of (inbox_files w) n = Some (t, Document m)))" for w
        using False waiting_doc [OF _ pending] wf_docD mail_id unfolding safe_def waiting_def by fastforce
      then show ?thesis unfolding contract_def by blast
    qed
    show ?thesis using pending by (auto intro!: contract_bind [OF c_read] contract_bind [OF c_exists] step split del: if_split)
  next
    case False
    with 2 show ?thesis by simp
  qed
qed

lemma sort_by_all [simp]: "list_all P (sort_by le xs) = list_all P xs"
  by (simp add: list_all_iff)

lemma pending_keeps: "preserves_mail M S F pending_messages (list_all (waiting M))"
proof -
  have scan: "preserves_mail M S F (scan_pending fs []) (list_all (waiting M))" for fs by (rule scan_keeps) simp
  have rest: "contract (\<lambda>w. files_in (safe M S F) w \<and> list_all (waiting M) items)
      (bind_io (get_io seen_ids) (\<lambda>s. return_io (filter (\<lambda>(m, _, _). message_id m \<notin> set s) (sort_by inbox_order items))))
      (files_in (safe M S F)) (\<lambda>x w. files_in (safe M S F) w \<and> list_all (waiting M) x)" for items
    by (rule contract_bind [OF contract_get [where Q = "\<lambda>_ w. files_in (safe M S F) w \<and> list_all (waiting M) items"]])
      (auto intro!: contract_return simp: list_all_iff)
  show ?thesis unfolding pending_messages_def
    by (rule contract_bind [OF c_call], rule contract_bind [OF contract_get [where Q = "\<lambda>_. files_in (safe M S F)"]], assumption,
        rule contract_bind [OF scan rest])
qed

lemma claim_items_keeps:
  assumes "mail_set M"
  shows "list_all (waiting M) items \<Longrightarrow> list_all (leased M) out \<Longrightarrow>
    preserves_mail M S F (claim_items items out) (list_all (leased M))"
proof (induction items out rule: claim_items.induct)
  case (1 out)
  then show ?case by (auto intro: contract_return)
next
  case (2 m t n items out)
  have m: "snapshot m \<in> M" "n = yaml_name (message_id m)" using 2(3) by (simp_all add: waiting_def)
  have i: "minted_id (message_id m)" using mail_id [OF assms m(1)] .
  have go: "preserves_mail M S F (claim_items items out) (list_all (leased M))" by (rule 2(1)) (use 2(3,4) in auto)
  have step: "contract (files_in (safe M S F))
      (let processing = processing_path_for (message_id m) pid suffix in
       bind_io (attempt_io (rename_file n processing)) (\<lambda>r. case r of
           Inr _ \<Rightarrow> claim_items items (out @ [\<lparr>claimed_message = m, lease_id = Some processing\<rparr>])
         | Inl (InboxStorage (NotFound _)) \<Rightarrow> claim_items items out
         | Inl e \<Rightarrow> throw_io e))
      (files_in (safe M S F)) (\<lambda>x w. files_in (safe M S F) w \<and> list_all (leased M) x)" for pid suffix
  proof -
    let ?p = "processing_path_for (message_id m) pid suffix"
    have move: "contract (files_in (safe M S F)) (attempt_io (rename_file n ?p)) (files_in (safe M S F)) (\<lambda>_. files_in (safe M S F))"
      by (rule contract_post [OF contract_attempt [OF move_contract [OF i]]])
        (use names_differ [OF i] m(2) in \<open>auto simp: eq_commute split: sum.splits\<close>)
    have ok: "preserves_mail M S F (claim_items items (out @ [\<lparr>claimed_message = m, lease_id = Some ?p\<rparr>])) (list_all (leased M))"
      by (rule 2(2)) (use 2(3,4) m(1) in \<open>auto simp: leased_def\<close>)
    show ?thesis unfolding Let_def
      by (rule contract_bind [OF move]) (auto intro!: go ok contract_throw split: sum.split inbox_error.split team_error.split)
  qed
  show ?case unfolding claim_items.simps
    by (rule contract_bind [OF c_draw], rule contract_bind [OF contract_get [where Q = "\<lambda>_. files_in (safe M S F)"]], assumption, rule step)
qed

lemma recover_stale_keeps: "contract (files_in (safe M S F)) (recover_stale limit now fs) (files_in (safe M S F)) (\<lambda>_. files_in (safe M S F))"
proof (induction limit now fs rule: recover_stale.induct)
  case (1 limit now)
  then show ?case by (auto intro: contract_return)
next
  case (2 limit now n t f fs)
  let ?rest = "recover_stale limit now fs"
  show ?case
  proof (cases "is_processing_payload_yaml n")
    case processing: True
    have rest: "contract (files_in (safe M S F)) ?rest (files_in (safe M S F)) (\<lambda>_. files_in (safe M S F))" using 2 processing by (cases "is_stale limit now t") auto
    have step: "contract (files_in (\<lambda>fs. safe M S F fs \<and> (\<exists>t. map_of fs n = Some (t, Document m))))
        (bind_io (ib_exists (done_name (message_id m))) (\<lambda>done.
           if done then bind_io (remove_file n) (\<lambda>_. ?rest)
           else bind_io (ib_exists (yaml_name (message_id m))) (\<lambda>active.
             if active then bind_io (remove_file n) (\<lambda>_. ?rest)
             else bind_io (attempt_io (rename_file n (yaml_name (message_id m)))) (\<lambda>q. case q of
                 Inl (InboxStorage (NotFound _)) \<Rightarrow> ?rest
               | Inl e \<Rightarrow> throw_io e
               | Inr _ \<Rightarrow> ?rest))))
        (files_in (safe M S F)) (\<lambda>_. files_in (safe M S F))" for m
    proof (cases "minted_id (message_id m) \<and> named_for (message_id m) n")
      case True
      then have i: "minted_id (message_id m)" and nm: "named_for (message_id m) n" by auto
      have diff: "n \<noteq> yaml_name (message_id m)" "n \<noteq> done_name (message_id m)" using named_kinds(2) [OF i nm] processing by auto
      have drop: "contract (files_in (\<lambda>fs. safe M S F fs \<and> map_of fs n' \<noteq> None)) (bind_io (remove_file n) (\<lambda>_. ?rest))
          (files_in (safe M S F)) (\<lambda>_. files_in (safe M S F))" if "n' = done_name (message_id m) \<or> n' = yaml_name (message_id m)" for n'
        by (rule contract_bind [OF drop_contract [OF i nm _ diff(2)] rest]) (use that diff in auto)
      have move: "contract (files_in (safe M S F)) (attempt_io (rename_file n (yaml_name (message_id m)))) (files_in (safe M S F))
          (\<lambda>_. files_in (safe M S F))"
        by (rule contract_post [OF contract_attempt [OF move_contract [OF i nm _ diff(2)]]])
          (use diff in \<open>auto split: sum.splits\<close>)
      have last: "contract (files_in (safe M S F)) (bind_io (attempt_io (rename_file n (yaml_name (message_id m)))) (\<lambda>q. case q of
                 Inl (InboxStorage (NotFound _)) \<Rightarrow> ?rest
               | Inl e \<Rightarrow> throw_io e
               | Inr _ \<Rightarrow> ?rest)) (files_in (safe M S F)) (\<lambda>_. files_in (safe M S F))"
        by (rule contract_bind [OF move]) (auto intro!: rest contract_throw split: sum.split inbox_error.split team_error.split)
      show ?thesis
        by (rule contract_bind [OF c_exists], rule contract_if, rule contract_pre [OF drop], blast, blast,
            rule contract_bind [OF c_exists], rule contract_if, rule contract_pre [OF drop [of "yaml_name (message_id m)"]], blast, blast,
            rule contract_pre [OF last], blast)
    next
      case False
      have "\<not> (safe M S F (inbox_files w) \<and> (\<exists>t. map_of (inbox_files w) n = Some (t, Document m)))" for w :: inbox_store
        using False wf_docD mail_id unfolding safe_def by blast
      then show ?thesis unfolding contract_def by blast
    qed
    have read: "contract (files_in (safe M S F)) (attempt_io (read_message n)) E
        (\<lambda>r w. case r of Inl _ \<Rightarrow> files_in (safe M S F) w
           | Inr m \<Rightarrow> files_in (\<lambda>fs. safe M S F fs \<and> (\<exists>t. map_of fs n = Some (t, Document m))) w)" for E
      by (rule contract_attempt [OF c_read])
    show ?thesis using processing unfolding recover_stale.simps
      by (simp only: simp_thms if_False, intro contract_bind [OF c_call] contract_if rest contract_bind [OF read] contract_sum)
        (auto intro: contract_pre [OF rest] contract_pre [OF step])
  next
    case False
    with 2 show ?thesis by simp
  qed
qed

lemma recovery_keeps: "contract (files_in (safe M S F)) (recover_stale_processing limit now) (files_in (safe M S F)) (\<lambda>_. files_in (safe M S F))"
  unfolding recover_stale_processing_def
  by (rule contract_bind [OF c_call], rule contract_bind [OF contract_get [where Q = "\<lambda>_. files_in (safe M S F)"]], assumption,
      rule recover_stale_keeps)

lemma dir_keeps: "contract (files_in p) inbox_dir_exists (files_in p) (\<lambda>_. files_in p)"
  unfolding inbox_dir_exists_def
  by (rule contract_bind [OF contract_post [OF contract_attempt [OF c_call], of _ "\<lambda>_. files_in p"]])
    (auto intro: contract_return split: sum.splits)

lemma list_keeps: "preserves_mail M S F list_pending (\<lambda>_. True)"
  unfolding list_pending_def
  by (rule contract_bind [OF dir_keeps], rule contract_if, rule contract_return, simp,
      rule contract_bind [OF pending_keeps], rule contract_return, simp)

lemma claim_keeps:
  assumes "mail_set M"
  shows "preserves_mail M S F (claim_pending limit now) (list_all (leased M))"
proof -
  have items: "contract (\<lambda>w. files_in (safe M S F) w \<and> list_all (waiting M) items) (claim_items items [])
      (files_in (safe M S F)) (\<lambda>x w. files_in (safe M S F) w \<and> list_all (leased M) x)" for items
    using claim_items_keeps [OF assms, of items "[]" S F] by (cases "list_all (waiting M) items") (auto simp: contract_def)
  show ?thesis unfolding claim_pending_def
    by (rule contract_bind [OF dir_keeps], rule contract_if, rule contract_return, simp,
        rule contract_bind [OF recovery_keeps], rule contract_bind [OF pending_keeps], rule items)
qed

section \<open>The life of an inbox\<close>

inductive inbox_step :: "inbox_message set \<Rightarrow> inbox_store \<Rightarrow> inbox_store \<Rightarrow> bool" for M where
  accept: "snapshot m \<in> M \<Longrightarrow> accept_pulled m now w = (r, w') \<Longrightarrow> inbox_step M w w'"
| look: "list_pending w = (r, w') \<Longrightarrow> inbox_step M w w'"
| claim: "claim_pending limit now w = (r, w') \<Longrightarrow> inbox_step M w w'"
| acknowledge: "minted_id i \<Longrightarrow> ack i now w = (r, w') \<Longrightarrow> inbox_step M w w'"
| acknowledge_claimed: "leased M c \<Longrightarrow> ack_claimed c now w = (r, w') \<Longrightarrow> inbox_step M w w'"
| release: "leased M c \<Longrightarrow> release_claimed c w = (r, w') \<Longrightarrow> inbox_step M w w'"
| new_process: "inbox_step M w (restart pid w)"
| faults: "inbox_step M w (w\<lparr>ib_faults := fs\<rparr>)"

lemma contract_either: "contract P m E Q \<Longrightarrow> m w = (r, w') \<Longrightarrow> P w \<Longrightarrow> E w' \<or> (\<exists>x. Q x w')"
  by (cases r) (auto dest: contract_ok contract_err)

lemma inbox_step_safe:
  assumes "inbox_step M w w'" "safe M S F (inbox_files w)"
  shows "safe M S F (inbox_files w')"
proof -
  have M: "mail_set M" using assms(2) by (simp add: safe_def)
  show ?thesis using assms
  proof cases
    case (accept m now r)
    then show ?thesis using contract_either [OF accept_contract accept(2) assms(2)] by (auto intro: safe_mono)
  next
    case (look r)
    then show ?thesis using contract_either [OF list_keeps look(1) assms(2)] by blast
  next
    case (claim limit now r)
    then show ?thesis using contract_either [OF claim_keeps [OF M] claim(1) assms(2)] by blast
  next
    case (acknowledge i now r)
    then show ?thesis using contract_either [OF ack_keeps acknowledge(2) assms(2)] by blast
  next
    case (acknowledge_claimed c now r)
    then show ?thesis using contract_either [OF ack_claimed_keeps [OF M] acknowledge_claimed(2) assms(2)] by blast
  next
    case (release c r)
    then show ?thesis using contract_either [OF release_keeps [OF M] release(2) assms(2)] by blast
  qed (simp_all add: restart_def)
qed

lemma inbox_run_safe: "(inbox_step M)\<^sup>*\<^sup>* w w' \<Longrightarrow> safe M S F (inbox_files w) \<Longrightarrow> safe M S F (inbox_files w')"
  by (induction rule: rtranclp_induct) (auto dest: inbox_step_safe)

end
