(* ===== verification/Inbox_Claims.thy ===== *)
theory Inbox_Claims
  imports Inbox_Properties
begin

text \<open>
  What one claim without faults hands out: the messages that are due, each once, in the order of their events.  Here
  a lease is as old as the last write of its file, which the code compares with the limit; the theorem on what is handed
  out keeps this apart from the time at which the lease was taken.
\<close>

section \<open>Recovering leases\<close>

abbreviation calm :: "inbox_store \<Rightarrow> bool" where
  "calm w \<equiv> ib_faults w = []"

lemma calm_calls:
  assumes "calm w"
  shows "ib_call w = (Inr (), w)" "ib_exists n w = (Inr (map_of (inbox_files w) n \<noteq> None), w)"
    "map_of (inbox_files w) n = Some (t, Document m) \<Longrightarrow> read_message n w = (Inr m, w)"
    "map_of (inbox_files w) n \<noteq> None \<Longrightarrow> remove_file n w = (Inr (), w\<lparr>inbox_files := AList.delete n (inbox_files w)\<rparr>)"
    "map_of (inbox_files w) n = Some x \<Longrightarrow>
       rename_file n to w = (Inr (), w\<lparr>inbox_files := AList.update to x (AList.delete n (inbox_files w))\<rparr>)"
    "inbox_dir_exists w = (Inr True, w)"
  using assms
  by (simp_all add: ib_call_def ib_exists_def read_message_def remove_file_def rename_file_def inbox_dir_exists_def attempt_io_def bind_io_def
      get_io_def lift_sum_def decode_file_def modify_io_def return_io_def)

text \<open>A message is due when it is not finished and waits, or its lease lies far enough back.\<close>

definition due :: "time \<Rightarrow> time \<Rightarrow> inbox_dir \<Rightarrow> inbox_message \<Rightarrow> bool" where
  "due limit now fs s \<longleftrightarrow> \<not> finished (message_id s) fs
     \<and> (\<exists>n t m. map_of fs n = Some (t, Document m) \<and> snapshot m = s \<and> (is_processing_payload_yaml n \<longrightarrow> is_stale limit now t))"

text \<open>Recovering one lease keeps what is due and leaves the other leases alone.\<close>

definition recovered :: "inbox_id \<Rightarrow> string \<Rightarrow> inbox_file \<Rightarrow> inbox_dir \<Rightarrow> inbox_dir" where
  "recovered i n x fs = (if map_of fs (done_name i) \<noteq> None \<or> map_of fs (yaml_name i) \<noteq> None then AList.delete n fs
     else AList.update (yaml_name i) x (AList.delete n fs))"

lemma inbox_wf_safe: "mail_set M \<Longrightarrow> inbox_wf M fs \<longleftrightarrow> safe M {} {} fs"
  by (simp add: safe_def)

lemma map_of_recovered:
  "map_of (recovered i n x fs) n' = (if map_of fs (done_name i) = None \<and> map_of fs (yaml_name i) = None \<and> n' = yaml_name i then Some x
     else if n' = n then None else map_of fs n')"
  by (simp add: recovered_def map_of_delete_iff)

lemma recovered_wf:
  assumes "mail_set M" "inbox_wf M fs" "map_of fs n = Some (t, Document m)" "is_processing_payload_yaml n"
  shows "inbox_wf M (recovered (message_id m) n (t, Document m) fs)"
proof -
  have "distinct (map fst (recovered (message_id m) n (t, Document m) fs))"
    using assms(2) by (simp add: recovered_def inbox_wf_def distinct_update distinct_delete)
  moreover have "snapshot m \<in> M" using wf_docD [OF assms(2,3)] by blast
  ultimately show ?thesis using assms(2) unfolding inbox_wf_def map_of_recovered by (auto split: if_splits simp del: map_of_eq_Some_iff)
qed

lemma recovered_due:
  assumes "mail_set M" "inbox_wf M fs" "map_of fs n = Some (t, Document m)" "is_processing_payload_yaml n" "is_stale limit now t"
  shows "due limit now (recovered (message_id m) n (t, Document m) fs) s \<longleftrightarrow> due limit now fs s"
proof -
  let ?i = "message_id m" and ?fs = "recovered (message_id m) n (t, Document m) fs"
  have m: "snapshot m \<in> M" "named_for ?i n" using wf_docD [OF assms(2,3)] by blast+
  note i = mail_id [OF assms(1) m(1)]
  have n: "n \<noteq> yaml_name ?i" "n \<noteq> done_name ?i" using named_kinds(2) [OF i m(2)] assms(4) by auto
  have fin: "finished (message_id s) ?fs \<longleftrightarrow> finished (message_id s) fs" if "snapshot s \<in> M" for s
  proof -
    have "done_name (message_id s) \<noteq> yaml_name ?i"
      using kind_of_name [OF i] kind_of_name [OF mail_id [OF assms(1) that]] by metis
    moreover have "done_name (message_id s) \<noteq> n"
      using kind_of_name [OF mail_id [OF assms(1) that]] assms(4) by metis
    ultimately show ?thesis by (simp add: finished_def map_of_recovered)
  qed
  show ?thesis
  proof
    assume "due limit now ?fs s"
    then obtain n' t' m' where d: "\<not> finished (message_id s) ?fs" "map_of ?fs n' = Some (t', Document m')" "snapshot m' = s"
        "is_processing_payload_yaml n' \<longrightarrow> is_stale limit now t'"
      by (auto simp: due_def simp del: map_of_eq_Some_iff)
    have "snapshot m' \<in> M" using wf_docD [OF recovered_wf [OF assms(1-4)] d(2)] by blast
    then have f: "\<not> finished (message_id s) fs" using fin [of m'] d(1,3) by auto
    have "\<exists>n'. map_of fs n' = Some (t', Document m') \<and> (is_processing_payload_yaml n' \<longrightarrow> is_stale limit now t')"
      using d(2,4) assms(3,5) by (auto simp: map_of_recovered simp del: map_of_eq_Some_iff split: if_splits)
    with f d(3) show "due limit now fs s" unfolding due_def by blast
  next
    assume "due limit now fs s"
    then obtain n' t' m' where d: "\<not> finished (message_id s) fs" "map_of fs n' = Some (t', Document m')" "snapshot m' = s"
        "is_processing_payload_yaml n' \<longrightarrow> is_stale limit now t'"
      by (auto simp: due_def simp del: map_of_eq_Some_iff)
    have m': "snapshot m' \<in> M" using wf_docD [OF assms(2) d(2)] by blast
    then have f: "\<not> finished (message_id s) ?fs" using fin [of m'] d(1,3) by auto
    have act: "\<not> is_processing_payload_yaml (yaml_name ?i)" using kind_of_name [OF i] by blast
    show "due limit now ?fs s"
    proof (cases "n' = n")
      case True
      then have "m' = m" using d(2) assms(3) by simp
      then have s: "snapshot m = s" "message_id s = ?i" using d(3) by auto
      then have nd: "map_of fs (done_name ?i) = None" using d(1) s(2) unfolding finished_def by metis
      show ?thesis
      proof (cases "map_of fs (yaml_name ?i)")
        case None
        then have "map_of ?fs (yaml_name ?i) = Some (t, Document m)" using nd by (simp add: map_of_recovered)
        with f s(1) act show ?thesis unfolding due_def by blast
      next
        case (Some y)
        obtain u m2 where y: "y = (u, Document m2)" "snapshot m2 \<in> M" using wf_doc [OF assms(2) Some] by blast
        have "message_id m2 = ?i" using doc_id [OF assms(1,2) _ named_for_names(1) i] Some y(1) by blast
        then have "snapshot m2 = s" using mail_same [OF assms(1) y(2) m(1)] s(1) by simp
        moreover have "map_of ?fs (yaml_name ?i) = Some (u, Document m2)" using Some y(1) n by (simp add: map_of_recovered)
        ultimately show ?thesis using f act unfolding due_def by blast
      qed
    next
      case False
      then have "map_of ?fs n' = Some (t', Document m')" using d(2) by (auto simp: map_of_recovered simp del: map_of_eq_Some_iff)
      with f d(3,4) show ?thesis unfolding due_def by blast
    qed
  qed
qed

definition lease_in :: "time \<Rightarrow> time \<Rightarrow> inbox_dir \<Rightarrow> string \<Rightarrow> bool" where
  "lease_in limit now fs n \<longleftrightarrow> is_processing_payload_yaml n \<and> (\<exists>t f. map_of fs n = Some (t, f) \<and> is_stale limit now t)"

lemma recover_one:
  assumes "calm w" "mail_set M" "inbox_wf M (inbox_files w)" "map_of (inbox_files w) n = Some (t, f)"
    "is_processing_payload_yaml n" "is_stale limit now t"
  obtains m where "f = Document m"
    "recover_stale limit now ((n, t, f) # todo) w
       = recover_stale limit now todo (w\<lparr>inbox_files := recovered (message_id m) n (t, f) (inbox_files w)\<rparr>)"
proof -
  obtain m where m: "f = Document m" "snapshot m \<in> M" "named_for (message_id m) n" using wf_doc [OF assms(3,4)] by blast
  have "recover_stale limit now ((n, t, f) # todo) w
      = recover_stale limit now todo (w\<lparr>inbox_files := recovered (message_id m) n (t, f) (inbox_files w)\<rparr>)"
    using assms m(1) by (simp add: bind_io_def attempt_io_def calm_calls recovered_def)
  with m(1) that show ?thesis by blast
qed

lemma recover_stale_calm:
  assumes "mail_set M"
  shows "calm w \<Longrightarrow> inbox_wf M (inbox_files w) \<Longrightarrow> distinct (map fst todo) \<Longrightarrow>
    (\<And>n x. (n, x) \<in> set todo \<Longrightarrow> is_processing_payload_yaml n \<Longrightarrow> map_of (inbox_files w) n = Some x) \<Longrightarrow>
    \<exists>fs. recover_stale limit now todo w = (Inr (), w\<lparr>inbox_files := fs\<rparr>) \<and> inbox_wf M fs
      \<and> (\<forall>s. due limit now fs s \<longleftrightarrow> due limit now (inbox_files w) s)
      \<and> (\<forall>n. lease_in limit now fs n \<longrightarrow> lease_in limit now (inbox_files w) n \<and> n \<notin> fst ` set todo)"
proof (induction todo arbitrary: w)
  case Nil
  then show ?case by (intro exI [of _ "inbox_files w"]) simp
next
  case (Cons e todo)
  obtain n t f where e: "e = (n, t, f)" by (cases e) auto
  have later: "map_of (inbox_files w) n' = Some x" if "(n', x) \<in> set todo" "is_processing_payload_yaml n'" for n' x
    using Cons.prems(4) that by simp
  show ?case
  proof (cases "is_processing_payload_yaml n \<and> is_stale limit now t")
    case False
    have eq: "recover_stale limit now (e # todo) w = recover_stale limit now todo w"
      using False Cons.prems(1) by (simp add: e bind_io_def calm_calls)
    moreover have "\<not> lease_in limit now (inbox_files w) n"
      using False Cons.prems(4) [of n "(t, f)"] by (auto simp: lease_in_def e simp del: map_of_eq_Some_iff)
    moreover have "fst ` set (e # todo) = insert n (fst ` set todo)" by (simp add: e)
    moreover have "distinct (map fst todo)" using Cons.prems(3) by (simp add: e)
    ultimately show ?thesis unfolding eq using Cons.IH [OF Cons.prems(1,2) _ later] by (metis insert_iff)
  next
    case True
    have n: "map_of (inbox_files w) n = Some (t, f)" using True Cons.prems(4) by (simp add: e)
    obtain m where m: "f = Document m" "recover_stale limit now (e # todo) w
        = recover_stale limit now todo (w\<lparr>inbox_files := recovered (message_id m) n (t, f) (inbox_files w)\<rparr>)"
      using recover_one [OF Cons.prems(1) assms Cons.prems(2) n] True e by metis
    let ?fs = "recovered (message_id m) n (t, f) (inbox_files w)"
    have i: "minted_id (message_id m)" using wf_docD [OF Cons.prems(2)] mail_id [OF assms] n m(1) by blast
    have proc: "map_of ?fs n' = (if n' = n then None else map_of (inbox_files w) n')" if "is_processing_payload_yaml n'" for n'
      using that kind_of_name [OF i] by (auto simp: map_of_recovered)
    have "\<exists>fs. recover_stale limit now todo (w\<lparr>inbox_files := ?fs\<rparr>) = (Inr (), w\<lparr>inbox_files := fs\<rparr>) \<and> inbox_wf M fs
        \<and> (\<forall>s. due limit now fs s \<longleftrightarrow> due limit now ?fs s)
        \<and> (\<forall>n. lease_in limit now fs n \<longrightarrow> lease_in limit now ?fs n \<and> n \<notin> fst ` set todo)"
    proof -
      have "inbox_wf M ?fs" using recovered_wf [OF assms Cons.prems(2)] n m(1) True by blast
      moreover have "map_of ?fs n' = Some x" if "(n', x) \<in> set todo" "is_processing_payload_yaml n'" for n' x
      proof -
        have "n' \<noteq> n" using that(1) Cons.prems(3) by (force simp: e)
        then show ?thesis using later [OF that] proc [OF that(2)] by simp
      qed
      ultimately show ?thesis using Cons.IH [of "w\<lparr>inbox_files := ?fs\<rparr>"] Cons.prems(1,3) by simp
    qed
    moreover have "due limit now ?fs s \<longleftrightarrow> due limit now (inbox_files w) s" for s
      using recovered_due [OF assms Cons.prems(2)] n m(1) True by blast
    moreover have "lease_in limit now ?fs n' \<longleftrightarrow> lease_in limit now (inbox_files w) n' \<and> n' \<noteq> n" for n'
      using proc by (auto simp: lease_in_def simp del: map_of_eq_Some_iff split: if_splits)
    moreover have "fst ` set (e # todo) = insert n (fst ` set todo)" by (simp add: e)
    ultimately show ?thesis unfolding m(2) by (metis insert_iff)
  qed
qed

text \<open>Afterwards everything due waits under its own name.\<close>

lemma recovery_calm:
  assumes "mail_set M" "calm w" "inbox_wf M (inbox_files w)"
  obtains fs where "recover_stale_processing limit now w = (Inr (), w\<lparr>inbox_files := fs\<rparr>)" "inbox_wf M fs"
    "\<And>s. due limit now fs s \<longleftrightarrow> due limit now (inbox_files w) s" "\<And>n. \<not> lease_in limit now fs n"
proof -
  have d: "distinct (map fst (inbox_files w))" using assms(3) by (simp add: inbox_wf_def)
  then obtain fs where fs: "recover_stale limit now (inbox_files w) w = (Inr (), w\<lparr>inbox_files := fs\<rparr>)" "inbox_wf M fs"
      "\<forall>s. due limit now fs s \<longleftrightarrow> due limit now (inbox_files w) s"
      "\<forall>n. lease_in limit now fs n \<longrightarrow> lease_in limit now (inbox_files w) n \<and> n \<notin> fst ` set (inbox_files w)"
    using recover_stale_calm [OF assms, of "inbox_files w" limit now] map_of_is_SomeI [OF d] by auto
  have "n \<in> fst ` set (inbox_files w)" if "lease_in limit now (inbox_files w) n" for n
    using that unfolding lease_in_def by (force dest: map_of_SomeD)
  with fs show thesis using assms(2) by (intro that [of fs]) (auto simp: recover_stale_processing_def bind_io_def get_io_def calm_calls)
qed

section \<open>Scanning\<close>

definition pick :: "inbox_dir \<Rightarrow> string \<times> inbox_file \<Rightarrow> pending_inbox_message option" where
  "pick fs e = (case e of (n, t, f) \<Rightarrow> (case f of
       Document m \<Rightarrow> if is_pending_payload_yaml n \<and> \<not> finished (message_id m) fs then Some (m, t, n) else None
     | _ \<Rightarrow> None))"

lemma pick_Some: "pick fs e = Some x \<longleftrightarrow> (\<exists>m t n. x = (m, t, n) \<and> e = (n, t, Document m) \<and> is_pending_payload_yaml n \<and> \<not> finished (message_id m) fs)"
  by (cases e) (auto simp: pick_def split: yaml_file.splits if_splits)

lemma picked_iff:
  "x \<in> set (List.map_filter (pick d) fs) \<longleftrightarrow>
     (\<exists>m t n. x = (m, t, n) \<and> (n, t, Document m) \<in> set fs \<and> is_pending_payload_yaml n \<and> \<not> finished (message_id m) d)"
proof -
  have "x \<in> set (List.map_filter (pick d) fs) \<longleftrightarrow> (\<exists>e \<in> set fs. pick d e = Some x)"
    by (induction fs) (auto simp: map_filter_simps split: option.splits)
  then show ?thesis unfolding pick_Some by blast
qed

lemma scan_pending_calm:
  assumes "mail_set M"
  shows "calm w \<Longrightarrow> inbox_wf M (inbox_files w) \<Longrightarrow> distinct (map fst todo) \<Longrightarrow>
    (\<And>n x. (n, x) \<in> set todo \<Longrightarrow> is_pending_payload_yaml n \<Longrightarrow> map_of (inbox_files w) n = Some x) \<Longrightarrow>
    \<exists>fs. scan_pending todo out w = (Inr (out @ List.map_filter (pick (inbox_files w)) todo), w\<lparr>inbox_files := fs\<rparr>)
      \<and> (\<forall>e x. e \<in> set todo \<longrightarrow> pick (inbox_files w) e = Some x \<longrightarrow> map_of fs (fst e) = Some (snd e))
      \<and> (\<forall>n. n \<notin> fst ` set todo \<longrightarrow> map_of fs n = map_of (inbox_files w) n)"
proof (induction todo arbitrary: w out)
  case Nil
  then show ?case by (intro exI [of _ "inbox_files w"]) (simp add: map_filter_simps)
next
  case (Cons e todo)
  obtain n t f where e: "e = (n, t, f)" by (cases e) auto
  have later: "map_of (inbox_files w) n' = Some x" if "(n', x) \<in> set todo" "is_pending_payload_yaml n'" for n' x
    using Cons.prems(4) that by simp
  have d: "distinct (map fst todo)" "n \<notin> fst ` set todo" using Cons.prems(3) by (auto simp: e)
  show ?case
  proof (cases "is_pending_payload_yaml n")
    case False
    have "scan_pending (e # todo) out w = scan_pending todo out w" using False by (simp add: e)
    moreover have "pick (inbox_files w) e = None" using False by (simp add: pick_def e split: yaml_file.split)
    moreover obtain fs where "scan_pending todo out w = (Inr (out @ List.map_filter (pick (inbox_files w)) todo), w\<lparr>inbox_files := fs\<rparr>)"
        "\<forall>e x. e \<in> set todo \<longrightarrow> pick (inbox_files w) e = Some x \<longrightarrow> map_of fs (fst e) = Some (snd e)"
        "\<forall>n. n \<notin> fst ` set todo \<longrightarrow> map_of fs n = map_of (inbox_files w) n"
      using Cons.IH [OF Cons.prems(1,2) d(1) later, of out] by blast
    ultimately show ?thesis by (intro exI [of _ fs]) (auto simp: map_filter_simps)
  next
    case True
    have n: "map_of (inbox_files w) n = Some (t, f)" using True Cons.prems(4) by (simp add: e)
    obtain m where m: "f = Document m" "snapshot m \<in> M" "named_for (message_id m) n" using wf_doc [OF Cons.prems(2) n] by blast
    show ?thesis
    proof (cases "finished (message_id m) (inbox_files w)")
      case handled: True
      let ?fs = "AList.delete n (inbox_files w)"
      have "scan_pending (e # todo) out w = scan_pending todo out (w\<lparr>inbox_files := ?fs\<rparr>)"
        using True handled Cons.prems(1) n m(1) by (simp add: e bind_io_def calm_calls finished_def)
      moreover have "inbox_wf M ?fs"
        using Cons.prems(2) by (simp add: inbox_wf_def map_of_delete_iff distinct_delete del: map_of_eq_Some_iff)
      moreover have "map_of ?fs n' = Some x" if "(n', x) \<in> set todo" "is_pending_payload_yaml n'" for n' x
        using later [OF that] d(2) that(1) by (force simp: map_of_delete_iff)
      moreover have fin: "finished (message_id m') ?fs = finished (message_id m') (inbox_files w)" if "snapshot m' \<in> M" for m'
        using kind_of_name [OF mail_id [OF assms that]] True by (auto simp: finished_def map_of_delete_iff)
      have "pick ?fs e' = pick (inbox_files w) e'" if e'_in: "e' \<in> set todo" for e'
      proof -
        obtain n' t' f' where e': "e' = (n', t', f')" by (cases e') auto
        show ?thesis
        proof (cases "is_pending_payload_yaml n'")
          case pend: True
          obtain m' where "f' = Document m'" "snapshot m' \<in> M"
            using wf_doc [OF Cons.prems(2) later [OF e'_in [unfolded e'] pend]] by blast
          then show ?thesis using fin by (simp add: e' pick_def)
        qed (simp add: e' pick_def split: yaml_file.split)
      qed
      moreover from this have "List.map_filter (pick ?fs) todo = List.map_filter (pick (inbox_files w)) todo"
        by (simp add: List.map_filter_def cong: filter_cong map_cong)
      moreover have "pick (inbox_files w) e = None" using handled m(1) by (simp add: pick_def e)
      ultimately show ?thesis using Cons.IH [of "w\<lparr>inbox_files := ?fs\<rparr>" out] Cons.prems(1) d
        by (auto simp: map_filter_simps e map_of_delete_iff)
    next
      case False
      have "scan_pending (e # todo) out w = scan_pending todo (out @ [(m, t, n)]) w"
        using True False Cons.prems(1) n m(1) by (simp add: e bind_io_def calm_calls finished_def)
      moreover have "pick (inbox_files w) e = Some (m, t, n)" using True False m(1) by (simp add: pick_def e)
      moreover obtain fs where "scan_pending todo (out @ [(m, t, n)]) w
            = (Inr ((out @ [(m, t, n)]) @ List.map_filter (pick (inbox_files w)) todo), w\<lparr>inbox_files := fs\<rparr>)"
          "\<forall>e x. e \<in> set todo \<longrightarrow> pick (inbox_files w) e = Some x \<longrightarrow> map_of fs (fst e) = Some (snd e)"
          "\<forall>n. n \<notin> fst ` set todo \<longrightarrow> map_of fs n = map_of (inbox_files w) n"
        using Cons.IH [OF Cons.prems(1,2) d(1) later, of "out @ [(m, t, n)]"] by blast
      ultimately show ?thesis using n d(2) by (intro exI [of _ fs]) (auto simp: map_filter_simps e)
    qed
  qed
qed

section \<open>Claiming\<close>

lemma claim_items_calm:
  "calm w \<Longrightarrow> distinct (map (message_id \<circ> fst) items) \<Longrightarrow>
   (\<And>m t n. (m, t, n) \<in> set items \<Longrightarrow> n = yaml_name (message_id m) \<and> map_of (inbox_files w) n \<noteq> None) \<Longrightarrow>
   \<exists>cs w'. claim_items items out w = (Inr (out @ cs), w') \<and> map claimed_message cs = map fst items"
proof (induction items arbitrary: w out)
  case Nil
  then show ?case by simp
next
  case (Cons e items)
  obtain m t n where e: "e = (m, t, n)" by (cases e) auto
  let ?p = "processing_path_for (message_id m) (process_id w) (ib_rng w (ib_rng_pos w))"
  obtain x where n: "n = yaml_name (message_id m)" "map_of (inbox_files w) n = Some x" using Cons.prems(3) [of m t n] by (auto simp: e)
  let ?w = "w\<lparr>ib_rng_pos := Suc (ib_rng_pos w), inbox_files := AList.update ?p x (AList.delete n (inbox_files w))\<rparr>"
  let ?c = "\<lparr>claimed_message = m, lease_id = Some ?p\<rparr>"
  have eq: "claim_items (e # items) out w = claim_items items (out @ [?c]) ?w"
    using Cons.prems(1) n(2) by (simp add: e bind_io_def attempt_io_def draw64_def get_io_def modify_io_def return_io_def Let_def calm_calls)
  have later: "n' = yaml_name (message_id m') \<and> map_of (inbox_files ?w) n' \<noteq> None" if "(m', t', n') \<in> set items" for m' t' n'
  proof -
    have "message_id m' \<noteq> message_id m" using Cons.prems(2) that by (force simp: e)
    then show ?thesis using Cons.prems(3) [of m' t' n'] that n(1) by (auto simp: map_of_delete_iff)
  qed
  have "calm ?w" "distinct (map (message_id \<circ> fst) items)" using Cons.prems(1,2) by (simp_all add: comp_def)
  then obtain cs w' where "claim_items items (out @ [?c]) ?w = (Inr ((out @ [?c]) @ cs), w')" "map claimed_message cs = map fst items"
    using Cons.IH [of ?w "out @ [?c]"] later by blast
  then show ?case unfolding eq by (intro exI [of _ "?c # cs"] exI [of _ w']) (simp add: e)
qed

lemma due_waiting:
  assumes "mail_set M" "inbox_wf M fs" "\<And>n. \<not> lease_in limit now fs n"
  shows "due limit now fs s \<longleftrightarrow> (\<exists>x \<in> set (List.map_filter (pick fs) fs). snapshot (fst x) = s)"
proof -
  have d: "distinct (map fst fs)" using assms(2) by (simp add: inbox_wf_def)
  have "(\<exists>x \<in> set (List.map_filter (pick fs) fs). snapshot (fst x) = s)
      \<longleftrightarrow> (\<exists>m t n. map_of fs n = Some (t, Document m) \<and> is_pending_payload_yaml n \<and> \<not> finished (message_id m) fs \<and> snapshot m = s)"
    using d by (force simp: picked_iff)
  also have "\<dots> \<longleftrightarrow> due limit now fs s"
  proof
    assume "\<exists>m t n. map_of fs n = Some (t, Document m) \<and> is_pending_payload_yaml n \<and> \<not> finished (message_id m) fs \<and> snapshot m = s"
    then show "due limit now fs s" unfolding due_def is_pending_payload_yaml_def by (metis snapshot_simps(1))
  next
    assume "due limit now fs s"
    then obtain n t m where m: "map_of fs n = Some (t, Document m)" "snapshot m = s" "is_processing_payload_yaml n \<longrightarrow> is_stale limit now t"
        "\<not> finished (message_id s) fs"
      unfolding due_def by blast
    have named: "snapshot m \<in> M" "named_for (message_id m) n" using wf_docD [OF assms(2) m(1)] by blast+
    have "\<not> is_processing_payload_yaml n" using assms(3) [of n] m(1,3) unfolding lease_in_def by blast
    moreover have "n \<noteq> done_name (message_id m)" using m(1,2,4) unfolding finished_def by (metis option.distinct(1) snapshot_simps(1))
    ultimately have "is_pending_payload_yaml n" using named_kinds [OF mail_id [OF assms(1) named(1)] named(2)] by blast
    with m show "\<exists>m t n. map_of fs n = Some (t, Document m) \<and> is_pending_payload_yaml n \<and> \<not> finished (message_id m) fs \<and> snapshot m = s"
      by (metis snapshot_simps(1))
  qed
  finally show ?thesis by blast
qed

lemma picked_ids:
  assumes "mail_set M" "inbox_wf M fs" "x \<in> set (List.map_filter (pick fs) fs)"
  shows "snd (snd x) = yaml_name (message_id (fst x))" "map_of fs (snd (snd x)) = Some (fst (snd x), Document (fst x))"
    "pick fs (snd (snd x), fst (snd x), Document (fst x)) = Some x"
proof -
  have d: "distinct (map fst fs)" using assms(2) by (simp add: inbox_wf_def)
  obtain m t n where x: "x = (m, t, n)" "(n, t, Document m) \<in> set fs" "is_pending_payload_yaml n" "\<not> finished (message_id m) fs"
    using assms(3) by (auto simp: picked_iff)
  from x(2) d have "map_of fs n = Some (t, Document m)" by simp
  with x show "map_of fs (snd (snd x)) = Some (fst (snd x), Document (fst x))" "pick fs (snd (snd x), fst (snd x), Document (fst x)) = Some x"
    by (simp_all add: pick_def)
  have "snapshot m \<in> M" "named_for (message_id m) n" using wf_docD [OF assms(2) \<open>map_of fs n = _\<close>] by blast+
  with named_kinds(1) [OF mail_id [OF assms(1)]] x show "snd (snd x) = yaml_name (message_id (fst x))" by simp
qed

lemma map_filter_distinct: "distinct (map fst fs) \<Longrightarrow> distinct (map (snd \<circ> snd) (List.map_filter (pick d) fs))"
  by (induction fs) (auto simp: map_filter_simps picked_iff pick_Some split: option.splits, force)

interpretation inbox_order: comparison inbox_order
  unfolding inbox_order_def by (intro comparison_then_with comparison_key)

lemma inbox_order_event: "inbox_order x y \<Longrightarrow> event_at (fst x) \<le> event_at (fst y)"
  by (simp add: inbox_order_def then_with_def cmp_key_def case_prod_unfold)

lemma pending_calm:
  assumes "mail_set M" "calm w" "inbox_wf M (inbox_files w)" "\<And>n. \<not> lease_in limit now (inbox_files w) n"
  obtains items fs where "pending_messages w = (Inr items, w\<lparr>inbox_files := fs\<rparr>)"
    "snapshot ` fst ` set items = {s. due limit now (inbox_files w) s \<and> message_id s \<notin> set (seen_ids w)}"
    "distinct (map (message_id \<circ> fst) items)" "sorted_wrt (\<lambda>x y. event_at (fst x) \<le> event_at (fst y)) items"
    "\<forall>m t n. (m, t, n) \<in> set items \<longrightarrow> n = yaml_name (message_id m) \<and> map_of fs n \<noteq> None"
proof -
  let ?d = "inbox_files w"
  let ?new = "\<lambda>x. message_id (fst x) \<notin> set (seen_ids w)"
  let ?all = "List.map_filter (pick ?d) ?d"
  let ?items = "filter ?new (sort_by inbox_order ?all)"
  have d: "distinct (map fst ?d)" using assms(3) by (simp add: inbox_wf_def)
  obtain fs where scan: "scan_pending ?d [] w = (Inr ?all, w\<lparr>inbox_files := fs\<rparr>)"
      "\<forall>e x. e \<in> set ?d \<longrightarrow> pick ?d e = Some x \<longrightarrow> map_of fs (fst e) = Some (snd e)"
    using scan_pending_calm [OF assms(1-3) d, of "[]"] map_of_is_SomeI [OF d] by auto
  have "pending_messages w = (Inr ?items, w\<lparr>inbox_files := fs\<rparr>)"
    using assms(2) scan(1) by (simp add: pending_messages_def bind_io_def get_io_def return_io_def calm_calls case_prod_unfold)
  moreover have "snapshot ` fst ` set ?items = {s. due limit now ?d s \<and> message_id s \<notin> set (seen_ids w)}"
    using due_waiting [OF assms(1,3,4)] by (auto simp: image_iff) (metis snapshot_simps(1) fst_conv)+
  moreover have "distinct (map (message_id \<circ> fst) ?items)"
  proof -
    have "inj_on (message_id \<circ> fst) (set ?all)"
    proof (rule inj_onI)
      fix x y
      assume x: "x \<in> set ?all" and y: "y \<in> set ?all" and "(message_id \<circ> fst) x = (message_id \<circ> fst) y"
      then have "snd (snd x) = snd (snd y)" using picked_ids(1) [OF assms(1,3)] by simp
      moreover from this have "(fst (snd x), Document (fst x)) = (fst (snd y), Document (fst y))"
        using picked_ids(2) [OF assms(1,3) x] picked_ids(2) [OF assms(1,3) y] by simp
      ultimately show "x = y" by (simp add: prod_eq_iff)
    qed
    moreover have "distinct ?all" using map_filter_distinct [OF d] by (simp add: distinct_map)
    ultimately show ?thesis by (simp add: distinct_map inj_on_subset)
  qed
  moreover have "sorted_wrt (\<lambda>x y. event_at (fst x) \<le> event_at (fst y)) ?items"
    using inbox_order.sorted_wrt_sort_by [of ?all] by (intro sorted_wrt_filter) (auto elim: sorted_wrt_mono_rel [rotated] intro: inbox_order_event)
  moreover have "n = yaml_name (message_id m) \<and> map_of fs n \<noteq> None" if "(m, t, n) \<in> set ?items" for m t n
  proof -
    have x: "(m, t, n) \<in> set ?all" using that by simp
    then have "(n, t, Document m) \<in> set ?d" by (simp add: picked_iff)
    then show ?thesis using scan(2) picked_ids [OF assms(1,3) x] by force
  qed
  ultimately show thesis by (intro that [of ?items fs]) blast+
qed

lemma claim_calm:
  assumes "mail_set M" "calm w" "inbox_wf M (inbox_files w)"
  shows "\<exists>cs w'. claim_pending limit now w = (Inr cs, w')
    \<and> (snapshot \<circ> claimed_message) ` set cs = {s. due limit now (inbox_files w) s \<and> message_id s \<notin> set (seen_ids w)}
    \<and> distinct (map (message_id \<circ> claimed_message) cs)
    \<and> sorted (map (event_at \<circ> claimed_message) cs)"
proof -
  obtain fs where fs: "recover_stale_processing limit now w = (Inr (), w\<lparr>inbox_files := fs\<rparr>)" "inbox_wf M fs"
      "\<And>s. due limit now fs s \<longleftrightarrow> due limit now (inbox_files w) s" "\<And>n. \<not> lease_in limit now fs n"
    using recovery_calm [OF assms, of limit now] by metis
  obtain items fs' where items: "pending_messages (w\<lparr>inbox_files := fs\<rparr>) = (Inr items, w\<lparr>inbox_files := fs'\<rparr>)"
      "snapshot ` fst ` set items = {s. due limit now fs s \<and> message_id s \<notin> set (seen_ids w)}"
      "distinct (map (message_id \<circ> fst) items)" "sorted_wrt (\<lambda>x y. event_at (fst x) \<le> event_at (fst y)) items"
      "\<forall>m t n. (m, t, n) \<in> set items \<longrightarrow> n = yaml_name (message_id m) \<and> map_of fs' n \<noteq> None"
    by (rule pending_calm [OF assms(1), of "w\<lparr>inbox_files := fs\<rparr>" limit now]) (use assms(2) fs(2,4) in simp_all)
  obtain cs w' where cs: "claim_items items [] (w\<lparr>inbox_files := fs'\<rparr>) = (Inr cs, w')" "map claimed_message cs = map fst items"
    using claim_items_calm [of "w\<lparr>inbox_files := fs'\<rparr>" items "[]"] assms(2) items(3,5) by auto
  have "claim_pending limit now w = (Inr cs, w')"
    using assms(2) fs(1) items(1) cs(1) by (simp add: claim_pending_def bind_io_def calm_calls)
  moreover have "(snapshot \<circ> claimed_message) ` set cs = snapshot ` fst ` set items"
    using cs(2) by (metis image_comp set_map)
  moreover have "distinct (map (message_id \<circ> claimed_message) cs)" using items(3) cs(2) by (metis map_map)
  moreover have "sorted (map (event_at \<circ> claimed_message) cs)"
    using items(4) cs(2) by (metis (mono_tags, lifting) map_map sorted_wrt_map sorted_wrt_mono_rel comp_apply)
  ultimately show ?thesis using items(2) fs(3) by auto
qed

section \<open>The theorems\<close>

text \<open>
  Property C26.  A claim that meets no fault succeeds and hands out the mail that is due, each message once, in the order
  of the events.  No unfinished message is forgotten: with the times at which the leases were taken, none of them before
  the last write of its file, every stored message without a done file that this process has not finished and that
  waits, or whose lease was taken at least the limit ago, is handed out.  And nothing else than such mail is: a message
  handed out has no done file, this process has not finished it, and it waits or its lease file was last written at
  least the limit ago.
\<close>

theorem claim_hands_out_the_due_mail:
  assumes "mail_set M" and "inbox_wf M (inbox_files w)" and "calm w"
    and taken: "\<And>n t f. map_of (inbox_files w) n = Some (t, f) \<Longrightarrow> is_processing_payload_yaml n \<Longrightarrow> t \<le> taken n"
  shows "\<exists>cs w'. claim_pending limit now w = (Inr cs, w')
    \<and> distinct (map (message_id \<circ> claimed_message) cs)
    \<and> sorted (map (event_at \<circ> claimed_message) cs)
    \<and> (\<forall>n t m. map_of (inbox_files w) n = Some (t, Document m)
         \<and> map_of (inbox_files w) (done_name (message_id m)) = None \<and> message_id m \<notin> set (seen_ids w)
         \<and> (is_processing_payload_yaml n \<longrightarrow> taken n \<le> now \<and> limit \<le> now - taken n) \<longrightarrow>
         (\<exists>c \<in> set cs. snapshot (claimed_message c) = snapshot m))
    \<and> (\<forall>c \<in> set cs. map_of (inbox_files w) (done_name (message_id (claimed_message c))) = None
         \<and> message_id (claimed_message c) \<notin> set (seen_ids w)
         \<and> (\<exists>n t m. map_of (inbox_files w) n = Some (t, Document m) \<and> snapshot m = snapshot (claimed_message c)
              \<and> (is_processing_payload_yaml n \<longrightarrow> t \<le> now \<and> limit \<le> now - t)))"
proof -
  let ?fs = "inbox_files w"
  obtain cs w' where cs: "claim_pending limit now w = (Inr cs, w')"
      "(snapshot \<circ> claimed_message) ` set cs = {s. due limit now ?fs s \<and> message_id s \<notin> set (seen_ids w)}"
      "distinct (map (message_id \<circ> claimed_message) cs)" "sorted (map (event_at \<circ> claimed_message) cs)"
    using claim_calm [OF assms(1,3,2)] by blast
  have "\<exists>c \<in> set cs. snapshot (claimed_message c) = snapshot m"
    if "map_of ?fs n = Some (t, Document m)" "map_of ?fs (done_name (message_id m)) = None" "message_id m \<notin> set (seen_ids w)"
      "is_processing_payload_yaml n \<longrightarrow> taken n \<le> now \<and> limit \<le> now - taken n" for n t m
  proof -
    have "is_processing_payload_yaml n \<longrightarrow> is_stale limit now t" using taken [OF that(1)] that(4) by (auto simp: is_stale_def)
    then have "due limit now ?fs (snapshot m)" using that(1,2) unfolding due_def finished_def by auto
    then have "snapshot m \<in> (snapshot \<circ> claimed_message) ` set cs" using cs(2) that(3) by simp
    then show ?thesis by auto
  qed
  moreover have "map_of ?fs (done_name (message_id (claimed_message c))) = None
      \<and> message_id (claimed_message c) \<notin> set (seen_ids w)
      \<and> (\<exists>n t m. map_of ?fs n = Some (t, Document m) \<and> snapshot m = snapshot (claimed_message c)
           \<and> (is_processing_payload_yaml n \<longrightarrow> t \<le> now \<and> limit \<le> now - t))" if "c \<in> set cs" for c
  proof -
    have "snapshot (claimed_message c) \<in> (snapshot \<circ> claimed_message) ` set cs" using that by simp
    then have "due limit now ?fs (snapshot (claimed_message c))" "message_id (claimed_message c) \<notin> set (seen_ids w)"
      unfolding cs(2) by simp_all
    then show ?thesis unfolding due_def finished_def is_stale_def snapshot_simps(1) not_not by blast
  qed
  ultimately show ?thesis using cs(1,3,4) by blast
qed

text \<open>
  Property C27.  The acknowledgement of a claimed message whose lease file is there succeeds, and from then on, after
  any operations, faults and restarts, a claim that meets no fault never hands the message out again.
\<close>

theorem handled_message_is_not_claimed_again:
  assumes "mail_set M" and "inbox_wf M (inbox_files w)" and "calm w"
    and "leased M c" and "lease_id c = Some l" and "map_of (inbox_files w) l \<noteq> None"
  shows "\<exists>w1. ack_claimed c now w = (Inr (), w1) \<and>
    (\<forall>w2. (inbox_step M)\<^sup>*\<^sup>* w1 w2 \<longrightarrow> calm w2 \<longrightarrow>
      (\<exists>cs w3. claim_pending limit now' w2 = (Inr cs, w3)
         \<and> message_id (claimed_message c) \<notin> (message_id \<circ> claimed_message) ` set cs))"
proof -
  let ?i = "message_id (claimed_message c)"
  obtain pid s where l: "l = processing_path_for ?i pid s" using assms(4,5) by (auto simp: leased_def)
  have i: "minted_id ?i" using assms(1,4) mail_id by (auto simp: leased_def)
  obtain t m where m: "map_of (inbox_files w) l = Some (t, Document m)" using wf_doc [OF assms(2)] assms(6) by blast
  have safe: "safe M {} {} (inbox_files w)" using assms(1,2) by (simp add: safe_def)
  obtain w1 where fin: "finish_file ?i l now w = (Inr (), w1)"
  proof -
    let ?w = "w\<lparr>inbox_files := AList.update (done_name ?i) (now, Document (m\<lparr>handled_at := Some (truncate_to_second now)\<rparr>)) (inbox_files w)\<rparr>"
    have "write_message (done_name ?i) (m\<lparr>handled_at := Some (truncate_to_second now)\<rparr>) now w = (Inr (), ?w)"
      using assms(3) by (simp add: write_message_def bind_io_def modify_io_def calm_calls)
    moreover have "map_of (inbox_files ?w) l \<noteq> None" using m by simp
    ultimately show ?thesis using that calm_calls(3) [OF assms(3) m] calm_calls(4) [of ?w l] assms(3)
      by (simp add: finish_file_def bind_io_def)
  qed
  then have run: "ack_claimed c now w = (Inr (), w1\<lparr>seen_ids := if ?i \<in> set (seen_ids w1) then seen_ids w1 else ?i # seen_ids w1\<rparr>)" (is "_ = (_, ?w1)")
    using assms(3,5,6) by (simp add: ack_claimed_def Let_def bind_io_def calm_calls mark_seen_def modify_io_def)
  have "safe M {} {?i} (inbox_files ?w1)"
    using contract_ok [OF finish_contract [OF i] fin safe] l names_differ [OF i] by simp
  then have later: "safe M {} {?i} (inbox_files w2)" if "(inbox_step M)\<^sup>*\<^sup>* ?w1 w2" for w2
    using inbox_run_safe that by blast
  have "\<exists>cs w3. claim_pending limit now' w2 = (Inr cs, w3) \<and> ?i \<notin> (message_id \<circ> claimed_message) ` set cs"
    if steps: "(inbox_step M)\<^sup>*\<^sup>* ?w1 w2" and calm2: "calm w2" for w2
  proof -
    have wf: "inbox_wf M (inbox_files w2)" and handled: "finished ?i (inbox_files w2)" using later [OF steps] by (auto simp: safe_def)
    obtain cs w3 where cs: "claim_pending limit now' w2 = (Inr cs, w3)"
        "(snapshot \<circ> claimed_message) ` set cs = {s. due limit now' (inbox_files w2) s \<and> message_id s \<notin> set (seen_ids w2)}"
      using claim_calm [OF assms(1) calm2 wf] by blast
    have "message_id (claimed_message x) \<noteq> ?i" if "x \<in> set cs" for x
    proof -
      have "due limit now' (inbox_files w2) (snapshot (claimed_message x))" using cs(2) that by auto
      then show ?thesis using handled by (auto simp: due_def)
    qed
    then have "?i \<notin> (message_id \<circ> claimed_message) ` set cs" unfolding image_iff comp_apply by metis
    with cs(1) show ?thesis by blast
  qed
  with run show ?thesis by blast
qed

text \<open>
  Property C28.  Work that a process left behind is taken up again: a message that is stored and was not handled is
  handed out by the first claim of a new process that meets no fault, once the stale limit has passed for every
  file of the directory, whatever state the old process left the directory in.
\<close>

theorem crashed_work_is_claimed_again:
  assumes "mail_set M" and "inbox_wf M (inbox_files w)" and "held s (inbox_files w)" and "\<not> finished (message_id s) (inbox_files w)"
    and "\<And>n t f. map_of (inbox_files w) n = Some (t, f) \<Longrightarrow> is_stale limit now t" and "calm w"
  shows "\<exists>cs w'. claim_pending limit now (restart pid w) = (Inr cs, w') \<and> (\<exists>c \<in> set cs. snapshot (claimed_message c) = s)"
proof -
  have "due limit now (inbox_files w) s" using assms(3-5) unfolding due_def held_def by blast
  moreover obtain cs w' where "claim_pending limit now (restart pid w) = (Inr cs, w')"
      "(snapshot \<circ> claimed_message) ` set cs = {s. due limit now (inbox_files w) s \<and> message_id s \<notin> set []}"
    using claim_calm [OF assms(1), of "restart pid w" limit now] assms(2,6) by (auto simp: restart_def)
  ultimately have "claim_pending limit now (restart pid w) = (Inr cs, w')" "s \<in> (snapshot \<circ> claimed_message) ` set cs" by auto
  then show ?thesis by auto
qed

end
