(* ===== verification/Sync_Properties.thy ===== *)
theory Sync_Properties
  imports Agent_Sync Inbox_Claims Delivery_Protocol
begin

text \<open>
  The way of a message from the Maintainer's outbox to the agent's inbox, over a network that loses requests
  and replies and stores that fail: a receipt is given only for mail that is held, and mail without a receipt
  is offered again.
\<close>

section \<open>Receipts\<close>

text \<open>Apart from the given ids, no message gets a new receipt of the agent.\<close>

definition receipts :: "agent_id \<Rightarrow> inbox_id set \<Rightarrow> team_store \<Rightarrow> team_store \<Rightarrow> bool" where
  "receipts a I w w' \<longleftrightarrow> (\<forall>i. delivered_at a i w' \<longrightarrow> delivered_at a i w \<or> i \<in> I)"

interpretation receipts: io_frame "receipts a I" for a I
  by unfold_locales (auto simp: receipts_def)

lemma receipts_same: "outbox w' = outbox w \<Longrightarrow> receipts a I w w'"
  by (simp add: receipts_def delivered_at_def)

lemma within_receipts: "within (same outbox) m \<Longrightarrow> within (receipts a I) m"
  by (auto simp: within_def same_def intro: receipts_same)

lemma within_mail_receipts: "within (same mail) m \<Longrightarrow> within (receipts a I) m"
  by (auto simp: within_def same_def mail_def intro: receipts_same)

lemma receipts_append:
  assumes "outbox w' = outbox w @ [(n, f)]" "\<And>e. f = Document e \<Longrightarrow> \<not> delivered_to_agent e a"
  shows "receipts a I w w'"
  using assms by (auto simp: receipts_def delivered_at_def map_add_def split: option.splits if_splits)

lemma receipts_update:
  assumes "map_of (outbox w) n = Some (Document e)" "outbox w' = AList.update n (Document e') (outbox w)"
    and "delivered_to_agent e' a \<Longrightarrow> delivered_to_agent e a \<or> (\<forall>i. n = yaml_name i \<longrightarrow> i \<in> I)"
  shows "receipts a I w w'"
  using assms by (auto simp: receipts_def delivered_at_def simp del: map_of_eq_Some_iff split: if_splits)

lemma new_entry_undelivered: "\<not> delivered_to_agent (new_outbox_entry p action now items target i) a"
  by (simp add: new_outbox_entry_def delivered_to_agent_iff)

lemma create_receipts: "within (receipts a I) (create_outbox_entries cfg p action now items)"
  unfolding create_outbox_entries_def
  by (intro receipts.within_fold withinI, elim create_entry_cases)
    (auto intro: receipts_same receipts_append simp: new_entry_undelivered)

lemma offered_receipts: "within (receipts a I) (record_offered i b t)"
  by (intro withinI, elim record_offered_cases)
    (auto intro: receipts_same receipts_update simp: delivered_to_agent_iff)

lemma append_receipts: "b = a \<longrightarrow> i \<in> I \<Longrightarrow> within (receipts a I) (append_delivered i b t)"
proof (rule withinI)
  fix w r w'
  assume i: "b = a \<longrightarrow> i \<in> I" and "append_delivered i b t w = (r, w')"
  from this(2) show "receipts a I w w'"
  proof (cases rule: append_delivered_cases)
    case (delivered entry)
    then show ?thesis using i by (intro receipts_update [OF delivered(2,4)]) (auto simp: delivered_to_agent_iff)
  qed (auto intro: receipts_same)
qed

lemmas receipts_reads = outbox_dir.within_reads [THEN within_receipts]

lemma action_receipts: "within (receipts a I) (mint_action_id_for_outbox cfg)"
  unfolding mint_action_id_for_outbox_def
  by (intro receipts.within_intros receipts_reads within_receipts mint_action_loop_same outbox_dir.within_draw)

lemma policies_receipts: "within (receipts a I) (write_yaml_atomic policies_update n x)"
  by (rule within_receipts) (rule outbox_by_policies.within_write)

lemma mint_policy_receipts: "within (receipts a I) (mint_policy_id cfg)"
  unfolding mint_policy_id_def by (rule within_receipts) (rule outbox_by_policies.within_mint)

lemma pull_receipts: "within (receipts a I) (pull_inbox b now)"
  unfolding pull_inbox_def lock_outbox_file_def active_policy_id_set_def
  by (intro receipts.within_bind receipts.within_fold receipts.within_return receipts_reads
      offered_receipts list_policies_same [THEN within_receipts]
      ensure_agent_registered_same [THEN within_receipts] outbox_dir.within_io_call) simp

lemma ack_receipts: "within (receipts a (if b = a then set ids else {})) (ack_inbox b ids now)"
proof -
  have loop: "within (receipts a (if b = a then set ids else {})) (for_io (\<lambda>i. map_err_io (PersistAck i) (append_delivered i b now)) (dedup ids))"
    (is "within ?R (for_io ?f _)")
  proof -
    have "within ?R (for_io ?f js)" if "set js \<subseteq> set ids" for js
      using that
    proof (induction js)
      case (Cons j js)
      then show ?case by (auto intro!: receipts.within_bind receipts.within_map_err append_receipts)
    qed (simp add: receipts.within_return)
    then show ?thesis by simp
  qed
  show ?thesis unfolding ack_inbox_def lock_outbox_file_def Let_def lift_sum_def
    by (intro receipts.within_bind receipts.within_map_err receipts.within_case_sum receipts.within_return receipts.within_throw
        receipts_reads loop)
qed

lemmas receipts_parts = receipts_reads action_receipts mint_policy_receipts policies_receipts create_receipts

lemma suggestion_receipts: "within (receipts a I) (claim_update_suggestion_locked cfg st now ts items)"
  unfolding claim_update_suggestion_locked_def Let_def write_policy_def
  by (intro receipts.within_intros receipts_parts)

lemma handler_receipts:
  "within (receipts a I) (publish_new_policy cfg nm st sc now ts)" "within (receipts a I) (deprecate_policy cfg i now)"
  "within (receipts a I) (claim_update_suggestion cfg st now ts)"
  unfolding publish_new_policy_def deprecate_policy_def claim_update_suggestion_def lock_outbox_file_def Let_def write_policy_def
  by (intro receipts.within_intros receipts_parts suggestion_receipts)+

lemma sweep_receipts: "within (receipts a I) (run_stale_sweep cfg now)"
  by (rule within_sweep [OF receipts.io_frame_axioms])
    (auto simp: lock_outbox_file_def intro: within_mail_receipts mail_reads suggestion_receipts)

section \<open>The steps of the network\<close>

text \<open>Every handler of the Maintainer but an ACK in the agent's own name.\<close>

inductive foreign_step :: "maintainer_config \<Rightarrow> agent_id \<Rightarrow> team_store \<Rightarrow> team_store \<Rightarrow> bool" for cfg a where
  "publish_new_policy cfg nm st sc now ts w = (r1, w') \<Longrightarrow> foreign_step cfg a w w'"
| "deprecate_policy cfg i now w = (r2, w') \<Longrightarrow> foreign_step cfg a w w'"
| "claim_update_suggestion cfg st now ts w = (r1, w') \<Longrightarrow> foreign_step cfg a w w'"
| "pull_inbox b now w = (r3, w') \<Longrightarrow> foreign_step cfg a w w'"
| "ack_inbox b ids now w = (r4, w') \<Longrightarrow> b \<noteq> a \<Longrightarrow> foreign_step cfg a w w'"
| "run_stale_sweep cfg now w = (r5, w') \<Longrightarrow> foreign_step cfg a w w'"
| "upload_claim c w = (r6, w') \<Longrightarrow> foreign_step cfg a w w'"
| "report_dispute d w = (r6, w') \<Longrightarrow> foreign_step cfg a w w'"
| "foreign_step cfg a w (w\<lparr>io_faults := fs\<rparr>)"

lemma foreign_maintainer_step: "foreign_step cfg a w w' \<Longrightarrow> maintainer_step cfg w w'"
  by (induction rule: foreign_step.induct) (auto intro: maintainer_step.intros)

lemma foreign_receipts:
  assumes "foreign_step cfg a w w'"
  shows "receipts a {} w w'"
  using assms
proof cases
  case (5 b ids now r)
  then show ?thesis using withinD [OF ack_receipts [of a b ids now] 5(1)] by simp
qed (auto dest: withinD [OF handler_receipts(1)] withinD [OF handler_receipts(2)] withinD [OF handler_receipts(3)]
    withinD [OF pull_receipts] withinD [OF sweep_receipts] withinD [OF within_mail_receipts [OF upload_mail]]
    withinD [OF within_mail_receipts [OF within_report [OF mail_disputes]]] intro: receipts_same)

definition outbox_mail :: "team_store \<Rightarrow> inbox_message set" where
  "outbox_mail t = {snapshot (entry_message e) | e n. map_of (outbox t) n = Some (Document e)}"

definition receipted :: "agent_id \<Rightarrow> team_store \<Rightarrow> inbox_message set" where
  "receipted a t = {snapshot (entry_message e) | e n. map_of (outbox t) n = Some (Document e) \<and> delivered_to_agent e a}"

inductive net_step :: "maintainer_config \<Rightarrow> agent_id \<Rightarrow> inbox_store net \<Rightarrow> inbox_store net \<Rightarrow> bool" for cfg a where
  others: "foreign_step cfg a (team n) t \<Longrightarrow> net_step cfg a n (n\<lparr>team := t\<rparr>)"
| sync: "sync_inbox_to_local c retries a pull_now now ack_now n = (r, n') \<Longrightarrow> net_step cfg a n n'"
| at_the_agent: "inbox_step (outbox_mail (team n)) (home n) h \<Longrightarrow> net_step cfg a n (n\<lparr>home := h\<rparr>)"
| network: "net_step cfg a n (n\<lparr>links := ls\<rparr>)"

section \<open>The mail of an outbox\<close>

lemma entry_names:
  assumes "outbox_wf t" "map_of (outbox t) n = Some (Document e)"
  shows "n = yaml_name (entry_inbox_id e)" "message_id (entry_message e) = entry_inbox_id e" "minted_id (entry_inbox_id e)"
proof -
  show n: "n = yaml_name (entry_inbox_id e)" using assms dir_wf_key by (auto simp: outbox_wf_def)
  show "message_id (entry_message e) = entry_inbox_id e"
    using outbox_wf_entry [OF assms(1), of "entry_inbox_id e" e] assms(2) n by (simp add: entry_wf_def)
  have "\<exists>r. n = yaml_name (random_id inbox_prefix r :: inbox_id)"
    using assms(1) map_of_SomeD [OF assms(2)] by (force simp: outbox_wf_def dir_wf_def)
  then show "minted_id (entry_inbox_id e)" using n by (simp add: minted_id_def)
qed

lemma outbox_mail_entry:
  assumes "store_wf t" "s \<in> outbox_mail t"
  obtains e where "s = snapshot (entry_message e)" "map_of (outbox t) (yaml_name (message_id s)) = Some (Document e)"
    "minted_id (message_id s)"
proof -
  have ow: "outbox_wf t" using assms(1) by (simp add: store_wf_def)
  obtain e n where e: "s = snapshot (entry_message e)" "map_of (outbox t) n = Some (Document e)" using assms(2) by (auto simp: outbox_mail_def)
  with entry_names [OF ow e(2)] that show ?thesis by simp
qed

lemma outbox_mail_set:
  assumes "store_wf t"
  shows "mail_set (outbox_mail t)"
  unfolding mail_set_def
proof (intro conjI inj_onI ballI)
  show "x = y" if xy: "x \<in> outbox_mail t" "y \<in> outbox_mail t" "message_id x = message_id y" for x y
  proof -
    obtain e where e: "x = snapshot (entry_message e)" "map_of (outbox t) (yaml_name (message_id x)) = Some (Document e)"
      using outbox_mail_entry [OF assms xy(1)] by blast
    obtain e' where "y = snapshot (entry_message e')" "map_of (outbox t) (yaml_name (message_id x)) = Some (Document e')"
      using outbox_mail_entry [OF assms xy(2)] xy(3) by metis
    with e show ?thesis by simp
  qed
  show "minted_id (message_id x)" if "x \<in> outbox_mail t" for x
    using outbox_mail_entry [OF assms that] by blast
qed

lemma outbox_mail_mono: "outbox_le t t' \<Longrightarrow> outbox_mail t \<subseteq> outbox_mail t'"
  unfolding outbox_mail_def by (auto simp del: map_of_eq_Some_iff dest!: outbox_leD) (metis entry_le_def)

lemma same_message:
  assumes "outbox_le t t'" "map_of (outbox t) n = Some (Document e0)" "map_of (outbox t') n = Some (Document e)"
  shows "entry_message e = entry_message e0"
  using outbox_leD [OF assms(1,2)] assms(3) by (auto simp: entry_le_def simp del: map_of_eq_Some_iff)

lemma receipted_grows:
  assumes "store_wf t" "outbox_le t t'" "receipts a (set ids) t t'" "\<forall>i \<in> set ids. \<exists>s \<in> outbox_mail t. message_id s = i" "store_wf t'"
  shows "receipted a t' \<subseteq> receipted a t \<union> {s \<in> outbox_mail t. message_id s \<in> set ids}"
proof
  fix s
  assume "s \<in> receipted a t'"
  then obtain e n where e: "s = snapshot (entry_message e)" "map_of (outbox t') n = Some (Document e)" "delivered_to_agent e a"
    by (auto simp: receipted_def)
  have ow: "outbox_wf t'" using assms(5) by (simp add: store_wf_def)
  let ?i = "entry_inbox_id e"
  have n: "n = yaml_name ?i" and id: "message_id s = ?i" using entry_names [OF ow e(2)] e(1) by simp_all
  have "delivered_at a ?i t'" using e n by (auto simp: delivered_at_def)
  then consider "delivered_at a ?i t" | "?i \<in> set ids" using assms(3) by (auto simp: receipts_def)
  then show "s \<in> receipted a t \<union> {s \<in> outbox_mail t. message_id s \<in> set ids}"
  proof cases
    case 1
    then obtain e0 where e0: "map_of (outbox t) (yaml_name ?i) = Some (Document e0)" "delivered_to_agent e0 a" by (auto simp: delivered_at_def)
    have "entry_message e = entry_message e0" using same_message [OF assms(2) e0(1)] e(2) n by blast
    then have "s \<in> receipted a t" unfolding receipted_def using e0 e(1) by force
    then show ?thesis ..
  next
    case 2
    then obtain s0 where s0: "s0 \<in> outbox_mail t" "message_id s0 = ?i" using assms(4) by blast
    obtain e0 where e0: "s0 = snapshot (entry_message e0)" "map_of (outbox t) (yaml_name ?i) = Some (Document e0)"
      using outbox_mail_entry [OF assms(1) s0(1)] s0(2) by metis
    have "entry_message e = entry_message e0" using same_message [OF assms(2) e0(2)] e(2) n by blast
    then show ?thesis using s0 e0(1) e(1) 2 id by simp
  qed
qed

section \<open>What every step preserves\<close>

text \<open>
  The Maintainer's store is reachable, the inbox holds only mail of its outbox, and everything with a receipt
  of the agent is held; so are the messages \<open>S\<close>, and the ids \<open>F\<close> are finished.
\<close>

definition net_safe :: "maintainer_config \<Rightarrow> agent_id \<Rightarrow> inbox_message set \<Rightarrow> inbox_id set \<Rightarrow> inbox_store net \<Rightarrow> bool" where
  "net_safe cfg a S F n \<longleftrightarrow> reachable cfg (team n) \<and> safe (outbox_mail (team n)) (S \<union> receipted a (team n)) F (inbox_files (home n))"

definition mail_of :: "team_store \<Rightarrow> inbox_id list \<Rightarrow> inbox_message set" where
  "mail_of t ids = {s \<in> outbox_mail t. message_id s \<in> set ids}"

lemma net_safe_mono: "net_safe cfg a S F n \<Longrightarrow> S' \<subseteq> S \<Longrightarrow> net_safe cfg a S' F n"
  unfolding net_safe_def by (meson Un_mono order_refl safe_mono)

lemma safe_more_mail:
  assumes "safe M S F fs" "M \<subseteq> M'" "mail_set M'"
  shows "safe M' S F fs"
  using assms unfolding safe_def inbox_wf_def by (meson subsetD)

definition quiet :: "maintainer_config \<Rightarrow> agent_id \<Rightarrow> inbox_id list \<Rightarrow> team_store \<Rightarrow> team_store \<Rightarrow> bool" where
  "quiet cfg a ids w w' \<longleftrightarrow> maintainer_reach cfg w w' \<and> receipts a (set ids) w w'"

interpretation quiet: io_frame "quiet cfg a ids" for cfg a ids
  by unfold_locales (auto simp: quiet_def receipts_def intro: reach_refl reach_trans)

lemma quiet_pull: "within (quiet cfg a []) (pull_inbox a now)"
  by (rule withinI) (auto simp: quiet_def dest: pull_reach withinD [OF pull_receipts])

lemma quiet_ack: "within (quiet cfg a ids) (ack_inbox a ids now)"
  using withinD [OF ack_receipts [of a a ids now]] by (intro withinI) (auto simp: quiet_def dest: ack_reach)

lemma net_safe_team:
  assumes "net_safe cfg a S F n" "quiet cfg a ids (team n) (team n')" "home n' = home n"
    and "set ids \<subseteq> message_id ` outbox_mail (team n)" "mail_of (team n) ids \<subseteq> S"
  shows "net_safe cfg a S F n'"
proof -
  have reach: "maintainer_reach cfg (team n) (team n')" using assms(2) by (simp add: quiet_def)
  have r: "reachable cfg (team n)" "reachable cfg (team n')" using assms(1) reachable_reach [OF _ reach] by (auto simp: net_safe_def)
  note wf = reachable_inv(1) [OF r(1)] reachable_inv(1) [OF r(2)]
  note le = reach_outbox_le [OF reach]
  have "receipted a (team n') \<subseteq> receipted a (team n) \<union> mail_of (team n) ids"
    using receipted_grows [OF wf(1) le _ _ wf(2)] assms(2,4) unfolding quiet_def mail_of_def by force
  then have "S \<union> receipted a (team n') \<subseteq> S \<union> receipted a (team n)" using assms(5) by blast
  then have "safe (outbox_mail (team n)) (S \<union> receipted a (team n')) F (inbox_files (home n'))"
    using assms(1,3) unfolding net_safe_def by (metis order_refl safe_mono)
  then show ?thesis using r(2) safe_more_mail [OF _ outbox_mail_mono [OF le] outbox_mail_set [OF wf(2)]] by (simp add: net_safe_def)
qed

lemma pull_safe:
  assumes "net_safe cfg a S F n" "client_pull_inbox retries a now n = (r, n')"
  shows "net_safe cfg a S F n'" "r = Inr ms \<Longrightarrow> m \<in> set ms \<Longrightarrow> snapshot m \<in> outbox_mail (team n')"
proof -
  have "quiet cfg a [] (team n) (team n')"
    using post_frame [OF quiet.io_frame_axioms quiet_pull] assms(2) unfolding client_pull_inbox_def by blast
  moreover have "home n' = home n" using post_home assms(2) unfolding client_pull_inbox_def by blast
  ultimately show "net_safe cfg a S F n'" using net_safe_team [OF assms(1)] by (simp add: mail_of_def)
  assume "r = Inr ms" and m: "m \<in> set ms"
  then obtain j t where t: "quiet cfg a [] (team n) t" "pull_inbox a (now j) t = (Inr ms, team n')"
    using post_answer [OF quiet.io_frame_axioms quiet_pull] assms(2) unfolding client_pull_inbox_def by blast
  have "reachable cfg t" using reachable_reach assms(1) t(1) unfolding net_safe_def quiet_def by blast
  then obtain e where "m = entry_message e" "map_of (outbox t) (yaml_name (entry_inbox_id e)) = Some (Document e)"
    using pulled_message [OF reachable_inv(1) t(2) m] by metis
  then have "snapshot m \<in> outbox_mail t" unfolding outbox_mail_def by blast
  then show "snapshot m \<in> outbox_mail (team n')" using outbox_mail_mono [OF reach_outbox_le [OF pull_reach [OF t(2)]]] by blast
qed

lemma mail_of_snoc:
  assumes "store_wf t" "snapshot m \<in> outbox_mail t"
  shows "mail_of t (ids @ [message_id m]) = insert (snapshot m) (mail_of t ids)"
proof -
  have same: "s = snapshot m" if "s \<in> outbox_mail t" "message_id s = message_id m" for s
    using inj_onD [of message_id "outbox_mail t" s "snapshot m"] outbox_mail_set [OF assms(1)] that assms(2) by (simp add: mail_set_def)
  have "message_id (snapshot m) \<in> set (ids @ [message_id m])" by simp
  moreover have "s \<in> set (ids @ [message_id m]) \<longleftrightarrow> s \<in> set ids \<or> s = message_id m" for s by auto
  ultimately show ?thesis unfolding mail_of_def using assms(2) same by blast
qed

lemma accept_all_safe:
  "accept_all now ms persisted n = (r, n') \<Longrightarrow> net_safe cfg a (S \<union> mail_of (team n) persisted) F n \<Longrightarrow>
   (\<And>m. m \<in> set ms \<Longrightarrow> snapshot m \<in> outbox_mail (team n)) \<Longrightarrow> set persisted \<subseteq> message_id ` outbox_mail (team n) \<Longrightarrow>
   \<exists>p f. r = Inr (p, f) \<and> team n' = team n \<and> net_safe cfg a (S \<union> mail_of (team n) p) F n' \<and> set p \<subseteq> message_id ` outbox_mail (team n)
     \<and> (f = None \<longrightarrow> set p = set persisted \<union> message_id ` set ms)"
proof (induction ms arbitrary: persisted n)
  case Nil
  then show ?case by simp
next
  case (Cons m ms)
  obtain q h where q: "accept_pulled m now (home n) = (q, h)" by fastforce
  let ?n = "n\<lparr>home := h\<rparr>"
  have m: "snapshot m \<in> outbox_mail (team n)" using Cons.prems(3) by simp
  have wf: "store_wf (team n)" using Cons.prems(2) reachable_inv(1) by (auto simp: net_safe_def)
  note safe = Cons.prems(2) [unfolded net_safe_def, THEN conjunct2]
  show ?case
  proof (cases q)
    case (Inl e)
    have "r = Inr (persisted, Some (e, message_id m))" "n' = ?n"
      using Cons.prems(1) q Inl by (simp_all add: bind_io_def attempt_io_def at_home_def return_io_def)
    moreover have "net_safe cfg a (S \<union> mail_of (team n) persisted) F ?n"
      using contract_err [OF accept_contract [OF m] q [unfolded Inl]] safe Cons.prems(2) by (simp add: net_safe_def)
    ultimately show ?thesis using Cons.prems(4) by simp
  next
    case (Inr u)
    let ?p = "if message_id m \<in> set persisted then persisted else persisted @ [message_id m]"
    have run: "accept_all now ms ?p ?n = (r, n')"
      using Cons.prems(1) q Inr by (simp add: bind_io_def attempt_io_def at_home_def)
    have all: "safe (outbox_mail (team n)) (insert (snapshot m) (S \<union> mail_of (team n) persisted \<union> receipted a (team n))) F (inbox_files h)"
      using contract_ok [OF accept_contract [OF m] q [unfolded Inr]] safe by blast
    have sub: "S \<union> mail_of (team n) ?p \<union> receipted a (team n) \<subseteq> insert (snapshot m) (S \<union> mail_of (team n) persisted \<union> receipted a (team n))"
      using mail_of_snoc [OF wf m, of persisted] by auto
    have "net_safe cfg a (S \<union> mail_of (team n) ?p) F ?n"
      using Cons.prems(2) safe_mono [OF all sub order_refl] by (simp add: net_safe_def)
    moreover have "set ?p \<subseteq> message_id ` outbox_mail (team n)" using Cons.prems(4) m by (auto intro!: rev_image_eqI [OF m])
    moreover have "message_id m \<in> set ?p" "set ?p = insert (message_id m) (set persisted)" by auto
    ultimately show ?thesis using Cons.IH [OF run] Cons.prems(3) by simp
  qed
qed

lemma sync_safe:
  assumes "sync_inbox_to_local c retries a pull_now now ack_now n = (r, n')" "net_safe cfg a S F n"
  shows "net_safe cfg a S F n'"
proof (cases c)
  case True
  obtain q n1 where q: "client_pull_inbox retries a pull_now n = (q, n1)" by fastforce
  note pulled = pull_safe [OF assms(2) q]
  show ?thesis
  proof (cases q)
    case (Inl e)
    then show ?thesis using assms(1) True q pulled(1) by (simp add: sync_inbox_to_local_def bind_io_def attempt_io_def return_io_def)
  next
    case (Inr ms)
    obtain ra n2 where ra: "accept_all now ms [] n1 = (ra, n2)" by fastforce
    have "net_safe cfg a (S \<union> mail_of (team n1) []) F n1" using pulled(1) by (simp add: mail_of_def)
    then obtain p f where p: "ra = Inr (p, f)" "team n2 = team n1" "net_safe cfg a (S \<union> mail_of (team n1) p) F n2"
        "set p \<subseteq> message_id ` outbox_mail (team n1)"
      using accept_all_safe [OF ra, of cfg a S F] pulled(2) [OF Inr] by auto
    show ?thesis
    proof (cases "p = []")
      case True
      then have "n' = n2" using assms(1) \<open>c\<close> q Inr ra p(1)
        by (simp add: sync_inbox_to_local_def bind_io_def attempt_io_def return_io_def ack_persisted_inbox_def)
      then show ?thesis using net_safe_mono [OF p(3)] by simp
    next
      case False
      obtain rk n3 where k: "post False inbox_ack_error_status (\<lambda>k. ack_inbox a p (ack_now k)) retries n2 = (rk, n3)" by fastforce
      have "n' = n3" using assms(1) \<open>c\<close> q Inr ra p(1) k False
        by (auto simp: sync_inbox_to_local_def bind_io_def attempt_io_def return_io_def ack_persisted_inbox_def client_ack_inbox_def
            map_err_io_def split: sum.splits)
      moreover have "quiet cfg a p (team n2) (team n3)" using post_frame [OF quiet.io_frame_axioms quiet_ack k] .
      then have "net_safe cfg a (S \<union> mail_of (team n1) p) F n3"
        using net_safe_team [OF p(3), of p n3] post_home [OF k] p(2,4) by simp
      ultimately show ?thesis using net_safe_mono by blast
    qed
  qed
qed (use assms in \<open>simp add: sync_inbox_to_local_def return_io_def\<close>)

lemma net_step_safe:
  assumes "net_step cfg a n n'" "net_safe cfg a S F n"
  shows "net_safe cfg a S F n'"
  using assms(1)
proof cases
  case (others t)
  have "quiet cfg a [] (team n) t"
    using foreign_maintainer_step [OF others(2)] foreign_receipts [OF others(2)] by (auto simp: quiet_def intro: reach_refl reach_step)
  then show ?thesis using net_safe_team [OF assms(2), of "[]" "n\<lparr>team := t\<rparr>"] others(1) by (simp add: mail_of_def)
next
  case (sync c retries pull_now now ack_now r)
  then show ?thesis using sync_safe assms(2) by blast
next
  case (at_the_agent h)
  then show ?thesis using inbox_step_safe [OF at_the_agent(2)] assms(2) by (simp add: net_safe_def)
next
  case (network ls)
  then show ?thesis using assms(2) by (simp add: net_safe_def)
qed

lemma net_run_safe: "(net_step cfg a)\<^sup>*\<^sup>* n n' \<Longrightarrow> net_safe cfg a S F n \<Longrightarrow> net_safe cfg a S F n'"
  by (induction rule: rtranclp_induct) (auto dest: net_step_safe)

text \<open>An agent that joins: nothing in its inbox, no receipt in its name.\<close>

definition joins :: "maintainer_config \<Rightarrow> agent_id \<Rightarrow> inbox_store net \<Rightarrow> bool" where
  "joins cfg a n \<longleftrightarrow> reachable cfg (team n) \<and> inbox_files (home n) = [] \<and> (\<forall>i. \<not> delivered_at a i (team n))"

lemma joins_safe:
  assumes "joins cfg a n"
  shows "net_safe cfg a {} {} n"
proof -
  have wf: "store_wf (team n)" using assms reachable_inv(1) by (auto simp: joins_def)
  have "receipted a (team n) = {}"
  proof (rule equals0I)
    fix s
    assume "s \<in> receipted a (team n)"
    then obtain e k where "map_of (outbox (team n)) k = Some (Document e)" "delivered_to_agent e a" by (auto simp: receipted_def)
    moreover from this have "k = yaml_name (entry_inbox_id e)" using entry_names(1) wf by (auto simp: store_wf_def)
    ultimately show False using assms by (auto simp: joins_def delivered_at_def)
  qed
  then show ?thesis using assms outbox_mail_set [OF wf] by (simp add: net_safe_def joins_def safe_def inbox_wf_def)
qed

section \<open>A sync without faults\<close>

lemma processing_paths_named:
  assumes "mail_set M" "inbox_wf M fs" "map_of fs n = Some (t, Document m)" "str_starts_with n (as_str i @ ''.processing.'')" "minted_id i"
  shows "message_id m = i"
proof -
  have m: "snapshot m \<in> M" "named_for (message_id m) n" using wf_docD [OF assms(2,3)] by blast+
  obtain r where "n = as_str i @ CHR ''.'' # r" using assms(4) by (auto simp: str_starts_with_iff)
  then have "takeWhile (\<lambda>c. c \<noteq> CHR ''.'') n = as_str i"
    using id_no_dot [OF assms(5)] by (auto simp: takeWhile_append)
  then show ?thesis using name_stem [OF mail_id [OF assms(1) m(1)] m(2)] as_str_inject by metis
qed

lemma ensure_calm:
  assumes "calm w" "\<And>n. n \<in> set ns \<Longrightarrow> \<exists>t m'. map_of (inbox_files w) n = Some (t, Document m') \<and> snapshot m' = snapshot m"
  shows "for_io (ensure_existing_inbox_snapshot m) ns w = (Inr (), w)"
  using assms(2)
proof (induction ns)
  case (Cons n ns)
  obtain t m' where m': "map_of (inbox_files w) n = Some (t, Document m')" "snapshot m' = snapshot m" using Cons.prems by force
  have "ensure_existing_inbox_snapshot m n w = (Inr (), w)"
    using calm_calls(3) [OF assms(1) m'(1)] m'(2) by (simp add: ensure_existing_inbox_snapshot_def bind_io_def return_io_def snapshot_def)
  then show ?case using Cons by (simp add: bind_io_def)
qed (simp add: return_io_def)

lemma accept_calm:
  assumes "calm w" "safe M S F (inbox_files w)" "snapshot m \<in> M"
  shows "\<exists>w'. accept_pulled m now w = (Inr (), w') \<and> calm w'"
proof -
  let ?i = "message_id m" and ?fs = "inbox_files w"
  have wf: "mail_set M" "inbox_wf M ?fs" using assms(2) by (simp_all add: safe_def)
  note i = mail_id [OF wf(1) assms(3)]
  let ?ps = "filter (\<lambda>n. str_starts_with n (as_str ?i @ ''.processing.'') \<and> str_ends_with n ''.yaml'') (map fst ?fs)"
  let ?es = "(if map_of ?fs (done_name ?i) \<noteq> None then [done_name ?i] else [])
    @ (if map_of ?fs (yaml_name ?i) \<noteq> None then [yaml_name ?i] else []) @ ?ps"
  have run: "accept_pulled m now w = (if ?es \<noteq> [] then for_io (ensure_existing_inbox_snapshot m) ?es w else write_message (yaml_name ?i) m now w)"
    using assms(1) by (simp add: accept_pulled_def processing_paths_for_id_def bind_io_def get_io_def calm_calls Let_def)
  have same: "\<exists>t m'. map_of ?fs n = Some (t, Document m') \<and> snapshot m' = snapshot m" if "n \<in> set ?es" for n
  proof -
    have "map_of ?fs n \<noteq> None" using that by (auto simp: map_of_eq_None_iff split: if_splits)
    then obtain t m' where m': "map_of ?fs n = Some (t, Document m')" "snapshot m' \<in> M" using wf_doc [OF wf(2)] by blast
    have "message_id m' = ?i"
    proof (cases "n \<in> set ?ps")
      case True
      then show ?thesis using processing_paths_named [OF wf m'(1) _ i] by auto
    next
      case False
      then have "named_for ?i n" using that by (auto split: if_splits)
      then show ?thesis using doc_id [OF wf m'(1) _ i] by blast
    qed
    then show ?thesis using mail_same [OF wf(1) m'(2) assms(3)] m'(1) by blast
  qed
  show ?thesis
  proof (cases "?es = []")
    case True
    then show ?thesis using run assms(1) by (simp add: write_message_def bind_io_def modify_io_def calm_calls)
  next
    case False
    have "for_io (ensure_existing_inbox_snapshot m) ?es w = (Inr (), w)" by (rule ensure_calm [OF assms(1) same])
    then have "accept_pulled m now w = (Inr (), w)" unfolding run using False by (simp only: if_True not_False_eq_True simp_thms)
    then show ?thesis using assms(1) by blast
  qed
qed

lemma accept_all_calm:
  "calm (home n) \<Longrightarrow> net_safe cfg a S F n \<Longrightarrow> (\<And>m. m \<in> set ms \<Longrightarrow> snapshot m \<in> outbox_mail (team n)) \<Longrightarrow>
   \<exists>p n'. accept_all now ms persisted n = (Inr (p, None), n') \<and> links n' = links n"
proof (induction ms arbitrary: persisted n)
  case (Cons m ms)
  have m: "snapshot m \<in> outbox_mail (team n)" using Cons.prems(3) by simp
  have s: "safe (outbox_mail (team n)) (S \<union> receipted a (team n)) F (inbox_files (home n))" using Cons.prems(2) by (simp add: net_safe_def)
  obtain h where h: "accept_pulled m now (home n) = (Inr (), h)" "calm h" using accept_calm [OF Cons.prems(1) s m] by blast
  let ?n = "n\<lparr>home := h\<rparr>" and ?p = "if message_id m \<in> set persisted then persisted else persisted @ [message_id m]"
  have run: "accept_all now (m # ms) persisted n = accept_all now ms ?p ?n"
    using h(1) by (simp add: bind_io_def attempt_io_def at_home_def)
  have "net_safe cfg a S F ?n"
    using safe_mono [OF contract_ok [OF accept_contract [OF m] h(1) s] subset_insertI order_refl] Cons.prems(2) by (simp add: net_safe_def)
  then show ?case unfolding run using Cons.IH [of ?n ?p] h(2) Cons.prems(3) by simp
qed (simp add: return_io_def)

lemma pull_keeps_fault_free: "within (keeps fault_free) (pull_inbox a now)"
proof -
  have call: "within (keeps fault_free) io_call" by (auto simp: within_def keeps_def io_call_def split: list.splits)
  have ok: "within (keeps fault_free) io_ok" by (auto simp: io_ok_def intro!: keeps.within_intros call)
  show ?thesis
    unfolding pull_inbox_def lock_outbox_file_def active_policy_id_set_def list_policies_def outbox_list_def record_offered_def
      read_yaml_def write_yaml_atomic_def ensure_agent_registered_def lift_sum_def Let_def
    by (auto intro!: keeps.within_intros keeps.within_modify call ok simp: keeps_def split: option.split agent_node.split sum.split)
qed

lemma sync_calm:
  assumes "net_safe cfg a S F n" "links n = []" "fault_free (team n)" "calm (home n)"
  shows "\<exists>k n'. sync_inbox_to_local True retries a pull_now now ack_now n
      = (Inr \<lparr>pull_succeeded = True, accepted = k, sync_warnings = [], sync_failure = None\<rparr>, n')
    \<and> (\<forall>i e. map_of (outbox (team n)) (yaml_name i) = Some (Document e) \<and> entry_target e = Targeted a \<longrightarrow>
         held (snapshot (entry_message e)) (inbox_files (home n')) \<and> delivered_at a i (team n'))"
proof -
  have r: "reachable cfg (team n)" using assms(1) by (simp add: net_safe_def)
  note inv = reachable_inv [OF r]
  let ?es = "pull_chosen a (active_ids (team n)) (docs (outbox (team n)))"
  let ?ms = "map entry_message ?es"
  obtain t1 where t1: "pull_inbox a (pull_now retries) (team n) = (Inr ?ms, t1)" using fault_free_pull [OF assms(3) inv] by blast
  let ?n1 = "n\<lparr>team := t1\<rparr>"
  have pull: "client_pull_inbox retries a pull_now n = (Inr ?ms, ?n1)"
    unfolding client_pull_inbox_def by (rule post_up [OF assms(2)]) (rule t1)
  note pulled = pull_safe [OF assms(1) pull]
  have le: "outbox_le (team n) t1" using reach_outbox_le [OF pull_reach [OF t1]] .
  obtain p n2 where p: "accept_all now ?ms [] ?n1 = (Inr (p, None), n2)" "links n2 = []"
    using accept_all_calm [of ?n1 cfg a S F ?ms now "[]"] pulled assms(2,4) by auto
  have n2: "team n2 = t1" "net_safe cfg a (S \<union> mail_of t1 p) F n2" "set p \<subseteq> message_id ` outbox_mail t1" "set p = message_id ` set ?ms"
    using accept_all_safe [OF p(1), of cfg a S F] pulled by (auto simp: mail_of_def)
  have mine: "i \<in> set p \<and> snapshot (entry_message e) \<in> mail_of t1 p"
    if "map_of (outbox (team n)) (yaml_name i) = Some (Document e)" "entry_target e = Targeted a" "\<not> delivered_to_agent e a" for i e
  proof -
    have ow: "outbox_wf (team n)" using inv(1) by (simp add: store_wf_def)
    have i: "entry_inbox_id e = i" "message_id (entry_message e) = i" using entry_names(1,2) [OF ow that(1)] by simp_all
    have "e \<in> set (docs (outbox (team n)))" using that(1) i(1) by (simp add: docs_outbox_iff [OF ow])
    then have e: "e \<in> set ?es" using selects_targeted [OF that(2,3)] by (simp add: pull_chosen_mem)
    then have "entry_message e \<in> set ?ms" by simp
    then show ?thesis using n2(4) i(2) pulled(2) [OF refl] by (auto simp: mail_of_def)
  qed
  have ackable: "ackable a i t1" if i_in: "i \<in> set p" for i
  proof -
    obtain m where m: "m \<in> set ?ms" "message_id m = i" using i_in n2(4) by auto
    obtain e where e: "m = entry_message e" "map_of (outbox (team n)) (yaml_name (entry_inbox_id e)) = Some (Document e)"
        "targets_agent e a" "offered_at a (entry_inbox_id e) t1" "message_id m = entry_inbox_id e"
      using pulled_message [OF inv(1) t1 m(1)] by metis
    obtain e1 where e1: "map_of (outbox t1) (yaml_name i) = Some (Document e1)" "entry_le e e1"
      using outbox_leD [OF le e(2)] e(5) m(2) by auto
    then show ?thesis using e(3,4,5) m(2) targets_agent_mono [OF e1(2)] by (auto simp: ackable_def offered_at_def)
  qed
  have ff: "fault_free t1" using within_keepsD [OF pull_keeps_fault_free t1] assms(3) by blast
  have wf1: "store_wf t1" using pulled(1) reachable_inv(1) by (auto simp: net_safe_def)
  obtain n3 where n3: "ack_persisted_inbox retries a ack_now p n2 = (Inr None, n3)" "home n3 = home n2" "outbox_le t1 (team n3)"
      "\<forall>i \<in> set p. delivered_at a i (team n3)"
  proof (cases "p = []")
    case True
    then show ?thesis using n2(1) by (intro that [of n2]) (simp_all add: ack_persisted_inbox_def return_io_def outbox_le.frame_refl)
  next
    case False
    obtain t2 where t2: "ack_inbox a p (ack_now retries) t1 = (Inr (), t2)" using fault_free_ack [OF ff wf1] ackable by blast
    have "post False inbox_ack_error_status (\<lambda>k. ack_inbox a p (ack_now k)) retries n2 = (Inr (), n2\<lparr>team := t2\<rparr>)"
      by (rule post_up [OF p(2)]) (use t2 n2(1) in simp)
    then have "ack_persisted_inbox retries a ack_now p n2 = (Inr None, n2\<lparr>team := t2\<rparr>)"
      using False by (simp add: ack_persisted_inbox_def client_ack_inbox_def map_err_io_def bind_io_def attempt_io_def return_io_def)
    then show ?thesis using ack_inbox_ok [OF wf1 t2] reach_outbox_le [OF ack_reach [OF t2]]
      by (intro that [of "n2\<lparr>team := t2\<rparr>"]) simp_all
  qed
  have "sync_inbox_to_local True retries a pull_now now ack_now n
      = (Inr \<lparr>pull_succeeded = True, accepted = length p, sync_warnings = [], sync_failure = None\<rparr>, n3)"
    using pull p(1) n3(1) by (simp add: sync_inbox_to_local_def bind_io_def attempt_io_def return_io_def)
  moreover have "held (snapshot (entry_message e)) (inbox_files (home n3)) \<and> delivered_at a i (team n3)"
    if e: "map_of (outbox (team n)) (yaml_name i) = Some (Document e)" "entry_target e = Targeted a" for i e
  proof (cases "delivered_to_agent e a")
    case True
    have "delivered_at a i (team n)" using e(1) True by (auto simp: delivered_at_def)
    then have d: "delivered_at a i t1" using marks_mono(3) [OF le] by blast
    then obtain e1 where e1: "map_of (outbox t1) (yaml_name i) = Some (Document e1)" "delivered_to_agent e1 a" by (auto simp: delivered_at_def)
    then have "snapshot (entry_message e1) \<in> receipted a t1" unfolding receipted_def by blast
    then have "snapshot (entry_message e) \<in> receipted a t1" using same_message [OF le e(1) e1(1)] by simp
    then show ?thesis using n2(1,2) n3(2) marks_mono(3) [OF n3(3) d] by (auto simp: net_safe_def safe_def)
  next
    case False
    then show ?thesis using mine [OF e] n2(1,2) n3(2,4) by (auto simp: net_safe_def safe_def)
  qed
  ultimately show ?thesis by blast
qed

section \<open>The theorems\<close>

text \<open>
  Property C24.  The Maintainer holds a receipt of an agent only for mail that is in the agent's inbox directory:
  in every state that an agent, the Maintainer and the network between them can get into from the moment the
  agent joins, whatever requests and replies were lost, whatever calls failed on either side, and however
  often the agent was restarted.
\<close>

theorem receipt_means_stored:
  assumes "joins cfg a n" and "(net_step cfg a)\<^sup>*\<^sup>* n n'"
    and "map_of (outbox (team n')) (yaml_name i) = Some (Document e)" and "delivered_to_agent e a"
  shows "held (snapshot (entry_message e)) (inbox_files (home n'))"
proof -
  have "net_safe cfg a {} {} n'" using net_run_safe [OF assms(2) joins_safe [OF assms(1)]] .
  then show ?thesis using assms(3,4) unfolding net_safe_def safe_def receipted_def by blast
qed

text \<open>
  Property C25.  From every such state, one sync over a working network brings all mail that is addressed to the
  agent: the sync succeeds, every targeted message of the outbox is in the inbox directory and has its receipt,
  and the message is still there after any further steps.
\<close>

theorem targeted_mail_arrives:
  assumes "joins cfg a n" and "(net_step cfg a)\<^sup>*\<^sup>* n n1"
    and "links n1 = []" and "fault_free (team n1)" and "calm (home n1)"
    and "map_of (outbox (team n1)) (yaml_name i) = Some (Document e)" and "entry_target e = Targeted a"
  shows "\<exists>report n2. sync_inbox_to_local True retries a pull_now now ack_now n1 = (Inr report, n2)
    \<and> sync_failure report = None \<and> sync_warnings report = [] \<and> delivered_at a i (team n2)
    \<and> (\<forall>n3. (net_step cfg a)\<^sup>*\<^sup>* n2 n3 \<longrightarrow> held (snapshot (entry_message e)) (inbox_files (home n3)))"
proof -
  have safe: "net_safe cfg a {} {} n1" using net_run_safe [OF assms(2) joins_safe [OF assms(1)]] .
  obtain k n2 where run: "sync_inbox_to_local True retries a pull_now now ack_now n1
        = (Inr \<lparr>pull_succeeded = True, accepted = k, sync_warnings = [], sync_failure = None\<rparr>, n2)"
      and held: "held (snapshot (entry_message e)) (inbox_files (home n2))" "delivered_at a i (team n2)"
    using sync_calm [OF safe assms(3-5)] assms(6,7) by blast
  have "net_safe cfg a {snapshot (entry_message e)} {} n2"
    using sync_safe [OF run safe] held(1) by (simp add: net_safe_def safe_def)
  then have "held (snapshot (entry_message e)) (inbox_files (home n3))" if "(net_step cfg a)\<^sup>*\<^sup>* n2 n3" for n3
    using net_run_safe [OF that, of "{snapshot (entry_message e)}" "{}"] by (simp add: net_safe_def safe_def)
  with run held(2) show ?thesis by auto
qed

end
