(* ===== verification/Agent_Demo.thy ===== *)
theory Agent_Demo
  imports Sync_Properties Demo
begin

text \<open>
  The agent of the demonstration syncs its inbox, and an inbox that a crashed process left with one leased
  message; the theorems on the agent's mail are applied to them.
\<close>

section \<open>A crashed process\<close>

definition inbox_demo_message :: inbox_message where
  "inbox_demo_message = entry_message (demo_first [] [])"

definition inbox_demo_lease :: string where
  "inbox_demo_lease = processing_path_for (random_id inbox_prefix 2) 7 9"

definition inbox_demo :: "string list \<Rightarrow> inbox_store" where
  "inbox_demo ns = \<lparr>ib_faults = [], ib_rng = of_nat, ib_rng_pos = 0, process_id = 8,
     inbox_files = map (\<lambda>n. (n, 100, Document inbox_demo_message)) ns, seen_ids = []\<rparr>"

definition inbox_demo_claim :: claimed_inbox_message where
  "inbox_demo_claim = \<lparr>claimed_message = inbox_demo_message, lease_id = Some inbox_demo_lease\<rparr>"

lemma inbox_demo_facts [simp]:
  "message_id inbox_demo_message = random_id inbox_prefix 2" "snapshot inbox_demo_message = inbox_demo_message"
  by (simp_all add: inbox_demo_message_def demo_first_def new_outbox_entry_def snapshot_def)

lemma inbox_demo_id: "minted_id (random_id inbox_prefix 2)"
  by (auto simp: minted_id_def)

lemma inbox_demo_mail: "mail_set {inbox_demo_message}"
  using inbox_demo_id by (simp add: mail_set_def)

lemma inbox_demo_wf: "inbox_wf {inbox_demo_message} (inbox_files (inbox_demo [inbox_demo_lease]))"
  by (simp add: inbox_wf_def inbox_demo_def inbox_demo_lease_def)

lemma inbox_demo_unfinished: "\<not> finished (random_id inbox_prefix 2) (inbox_files (inbox_demo [inbox_demo_lease]))"
  using names_differ(3) [OF inbox_demo_id, of 7 9] by (simp add: finished_def inbox_demo_def inbox_demo_lease_def)

lemma inbox_demo_leased: "leased {inbox_demo_message} inbox_demo_claim"
  by (auto simp: leased_def inbox_demo_claim_def inbox_demo_lease_def)

theorem claim_hands_out_the_due_mail_witness:
  "\<exists>cs w'. claim_pending 30 200 (inbox_demo [inbox_demo_lease]) = (Inr cs, w')
    \<and> sorted (map (event_at \<circ> claimed_message) cs) \<and> (\<exists>c \<in> set cs. snapshot (claimed_message c) = inbox_demo_message)"
proof -
  let ?w = "inbox_demo [inbox_demo_lease]"
  have stored: "map_of (inbox_files ?w) inbox_demo_lease = Some (100, Document inbox_demo_message)"
      "map_of (inbox_files ?w) (done_name (message_id inbox_demo_message)) = None"
      "message_id inbox_demo_message \<notin> set (seen_ids ?w)" "calm ?w"
    using names_differ(3) [OF inbox_demo_id, of 7 9] by (simp_all add: inbox_demo_def inbox_demo_lease_def)
  have taken: "t \<le> 150" if "map_of (inbox_files ?w) n = Some (t, f)" for n t f
    using that by (simp add: inbox_demo_def split: if_splits)
  obtain cs w' where cs: "claim_pending 30 200 ?w = (Inr cs, w')" "sorted (map (event_at \<circ> claimed_message) cs)"
      "\<forall>n t m. map_of (inbox_files ?w) n = Some (t, Document m)
         \<and> map_of (inbox_files ?w) (done_name (message_id m)) = None \<and> message_id m \<notin> set (seen_ids ?w)
         \<and> (is_processing_payload_yaml n \<longrightarrow> (150 :: time) \<le> 200 \<and> 30 \<le> (200 :: time) - 150) \<longrightarrow>
         (\<exists>c \<in> set cs. snapshot (claimed_message c) = snapshot m)"
    using claim_hands_out_the_due_mail [OF inbox_demo_mail inbox_demo_wf stored(4), of "\<lambda>_. 150" 30 200] taken by blast
  from cs(3) [rule_format, of inbox_demo_lease 100 inbox_demo_message] stored have
    "\<exists>c \<in> set cs. snapshot (claimed_message c) = inbox_demo_message" by simp
  with cs(1,2) show ?thesis by blast
qed

text \<open>
  The divergence from the configuration guide: the claim of a message that was stored long ago is fresh, and yet another
  process takes the message over at the same moment, because the limit is compared with the last write of the file.
\<close>

theorem fresh_lease_is_taken_over:
  "map (snapshot \<circ> claimed_message) (projr (fst (claim_pending 30 200 (inbox_demo [yaml_name (random_id inbox_prefix 2 :: inbox_id)]))))
     = [inbox_demo_message]
   \<and> map (snapshot \<circ> claimed_message) (projr (fst (claim_pending 30 200 (restart 9
         (snd (claim_pending 30 200 (inbox_demo [yaml_name (random_id inbox_prefix 2 :: inbox_id)])))))))
     = [inbox_demo_message]"
  by code_simp

theorem handled_message_is_not_claimed_again_witness:
  "\<exists>w1 cs w3. ack_claimed inbox_demo_claim 150 (inbox_demo [inbox_demo_lease]) = (Inr (), w1)
    \<and> claim_pending 30 200 (restart 9 (w1\<lparr>ib_faults := []\<rparr>)) = (Inr cs, w3)
    \<and> random_id inbox_prefix 2 \<notin> (message_id \<circ> claimed_message) ` set cs"
proof -
  have "calm (inbox_demo [inbox_demo_lease])" "lease_id inbox_demo_claim = Some inbox_demo_lease"
    "map_of (inbox_files (inbox_demo [inbox_demo_lease])) inbox_demo_lease \<noteq> None"
    "message_id (claimed_message inbox_demo_claim) = random_id inbox_prefix 2"
    by (simp_all add: inbox_demo_def inbox_demo_claim_def)
  then obtain w1 where w1: "ack_claimed inbox_demo_claim 150 (inbox_demo [inbox_demo_lease]) = (Inr (), w1)"
      "\<forall>w2. (inbox_step {inbox_demo_message})\<^sup>*\<^sup>* w1 w2 \<longrightarrow> calm w2 \<longrightarrow> (\<exists>cs w3. claim_pending 30 200 w2 = (Inr cs, w3)
         \<and> random_id inbox_prefix 2 \<notin> (message_id \<circ> claimed_message) ` set cs)"
    using handled_message_is_not_claimed_again [OF inbox_demo_mail inbox_demo_wf _ inbox_demo_leased, of inbox_demo_lease 150 30 200] by auto
  have "inbox_step {inbox_demo_message} w1 (w1\<lparr>ib_faults := []\<rparr>)"
      "inbox_step {inbox_demo_message} (w1\<lparr>ib_faults := []\<rparr>) (restart 9 (w1\<lparr>ib_faults := []\<rparr>))"
    by (rule inbox_step.faults, rule inbox_step.new_process)
  then have "(inbox_step {inbox_demo_message})\<^sup>*\<^sup>* w1 (restart 9 (w1\<lparr>ib_faults := []\<rparr>))" by (meson converse_rtranclp_into_rtranclp r_into_rtranclp)
  moreover have "calm (restart 9 (w1\<lparr>ib_faults := []\<rparr>))" by (simp add: restart_def)
  ultimately show ?thesis using w1 by blast
qed

theorem crashed_work_is_claimed_again_witness:
  "\<exists>cs w'. claim_pending 30 200 (restart 9 (inbox_demo [inbox_demo_lease])) = (Inr cs, w')
    \<and> (\<exists>c \<in> set cs. snapshot (claimed_message c) = inbox_demo_message)"
proof -
  have "held inbox_demo_message (inbox_files (inbox_demo [inbox_demo_lease]))" by (auto simp: held_def inbox_demo_def)
  moreover have "\<not> finished (message_id inbox_demo_message) (inbox_files (inbox_demo [inbox_demo_lease]))" using inbox_demo_unfinished by simp
  moreover have "is_stale 30 200 t" if "map_of (inbox_files (inbox_demo [inbox_demo_lease])) n = Some (t, f)" for n t f
    using that by (simp add: inbox_demo_def is_stale_def split: if_splits)
  moreover have "calm (inbox_demo [inbox_demo_lease])" by (simp add: inbox_demo_def)
  ultimately show ?thesis by (rule crashed_work_is_claimed_again [OF inbox_demo_mail inbox_demo_wf])
qed

section \<open>A new agent\<close>

definition net_demo :: "inbox_store net" where
  "net_demo = \<lparr>links = [], team = demo_broadcast, home = inbox_demo []\<rparr>"

lemma net_demo_joins: "joins demo_cfg demo_ann net_demo"
proof -
  have "\<not> delivered_at demo_ann i demo_broadcast" for i
    by (auto simp: delivered_at_def demo_stores delivered_to_agent_def split: if_splits)
  then show ?thesis using demo_reachable(3) by (simp add: joins_def net_demo_def inbox_demo_def)
qed

lemma net_demo_entry: "map_of (outbox (team net_demo)) (yaml_name (random_id inbox_prefix 2 :: inbox_id)) = Some (Document (demo_first [] []))"
  "entry_target (demo_first [] []) = Targeted demo_ann" "links net_demo = []" "fault_free (team net_demo)" "calm (home net_demo)"
  by (simp_all add: net_demo_def demo_stores inbox_demo_def)

theorem targeted_mail_arrives_witness:
  "\<exists>report n2. sync_inbox_to_local True 3 demo_ann (\<lambda>_. 20) 21 (\<lambda>_. 22) net_demo = (Inr report, n2)
    \<and> sync_failure report = None \<and> delivered_at demo_ann (random_id inbox_prefix 2) (team n2)
    \<and> held inbox_demo_message (inbox_files (home n2))"
  using targeted_mail_arrives [OF net_demo_joins rtranclp.rtrancl_refl net_demo_entry(3-5,1,2), of 3 "\<lambda>_. 20" 21 "\<lambda>_. 22"]
  by (auto simp: inbox_demo_message_def [symmetric])

lemma net_demo_synced:
  obtains r n2 e where "sync_inbox_to_local True 3 demo_ann (\<lambda>_. 20) 21 (\<lambda>_. 22) net_demo = (r, n2)"
    "map_of (outbox (team n2)) (yaml_name (random_id inbox_prefix 2 :: inbox_id)) = Some (Document e)" "delivered_to_agent e demo_ann"
  using sync_calm [OF joins_safe [OF net_demo_joins] net_demo_entry(3-5), of 3 "\<lambda>_. 20" 21 "\<lambda>_. 22"] net_demo_entry(1,2)
  unfolding delivered_at_def by blast

theorem receipt_means_stored_witness:
  "\<exists>r n2 e. sync_inbox_to_local True 3 demo_ann (\<lambda>_. 20) 21 (\<lambda>_. 22) net_demo = (r, n2)
    \<and> map_of (outbox (team n2)) (yaml_name (random_id inbox_prefix 2 :: inbox_id)) = Some (Document e) \<and> delivered_to_agent e demo_ann
    \<and> held (snapshot (entry_message e)) (inbox_files (home n2))"
proof -
  obtain r n2 e where e: "sync_inbox_to_local True 3 demo_ann (\<lambda>_. 20) 21 (\<lambda>_. 22) net_demo = (r, n2)"
      "map_of (outbox (team n2)) (yaml_name (random_id inbox_prefix 2 :: inbox_id)) = Some (Document e)" "delivered_to_agent e demo_ann"
    by (rule net_demo_synced)
  have "(net_step demo_cfg demo_ann)\<^sup>*\<^sup>* net_demo n2" using net_step.sync [OF e(1)] by blast
  from receipt_means_stored [OF net_demo_joins this e(2,3)] e show ?thesis by blast
qed

end
