(* ===== verification/Consolidation.thy ===== *)
theory Consolidation
  imports Claim_Types
begin

text \<open>
  Delivery of consolidated knowledge (\<open>src/agent/consolidation_delivery.rs\<close>): a claim that was merged into others
  may be retired at the team only after the claims that carry its knowledge on were confirmed, directly or
  through later consolidations of those carriers.
\<close>

section \<open>Model\<close>

record consolidation_delivery =
  before :: claim
  retired :: claim
  carriers :: "claim list"

definition acknowledge :: "claim list \<Rightarrow> claim \<Rightarrow> claim list" where
  "acknowledge acknowledged c = filter (\<lambda>x. claim_id x \<noteq> claim_id c) acknowledged @ [c]"

definition related_ids :: "consolidation_delivery list \<Rightarrow> claim_id set" where
  "related_ids groups = (\<Union>g \<in> set groups. insert (claim_id (retired g)) (claim_id ` set (carriers g)))"

text \<open>\<open>visiting\<close> holds the ids of the claims the search is inside of; a call leaves it as it found it.\<close>

function carrier_ready :: "consolidation_delivery list \<Rightarrow> claim list \<Rightarrow> claim list \<Rightarrow> claim_id list \<Rightarrow> claim \<Rightarrow> bool" where
  "carrier_ready groups acknowledged current visiting c =
     (if claim_status c \<noteq> Deprecated \<and> c \<in> set current \<and> c \<in> set acknowledged then True
      else if claim_id c \<in> set visiting then False
      else list_ex (\<lambda>g. if before g = c \<and> retired g \<in> set current \<and> carriers g \<noteq> []
                        then list_all (carrier_ready groups acknowledged current (claim_id c # visiting)) (carriers g) else False) groups)"
  by pat_completeness auto

termination
proof (relation "measure (\<lambda>(groups, _, _, visiting, _). card ((claim_id \<circ> before) ` set groups - set visiting))")
  fix groups acknowledged current visiting c g x
  assume "claim_id c \<notin> set visiting" "g \<in> set groups" "before g = c \<and> retired g \<in> set current \<and> carriers g \<noteq> []"
  then have "(claim_id \<circ> before) ` set groups - set (claim_id c # visiting) \<subset> (claim_id \<circ> before) ` set groups - set visiting" by auto
  then show "((groups, acknowledged, current, claim_id c # visiting, x), groups, acknowledged, current, visiting, c)
      \<in> measure (\<lambda>(groups, _, _, visiting, _). card ((claim_id \<circ> before) ` set groups - set visiting))"
    by (simp add: psubset_card_mono)
qed simp

declare carrier_ready.simps [simp del]

definition ready :: "claim \<Rightarrow> consolidation_delivery list \<Rightarrow> claim list \<Rightarrow> claim list \<Rightarrow> bool" where
  "ready c groups acknowledged current =
     list_all (\<lambda>g. carriers g \<noteq> [] \<and> list_all (carrier_ready groups acknowledged current []) (carriers g))
       (filter (\<lambda>g. retired g = c) groups)"

definition supersede :: "consolidation_delivery list \<Rightarrow> claim \<Rightarrow> consolidation_delivery list" where
  "supersede groups c =
     (if claim_status c \<noteq> Deprecated then filter (\<lambda>g. claim_id (retired g) \<noteq> claim_id c) groups
      else map (\<lambda>g. if claim_id (retired g) = claim_id c then g\<lparr>retired := c\<rparr> else g) groups)"

text \<open>The loop of \<open>prune\<close> on the indices to keep; one round per group is enough for it to settle.\<close>

definition keep_more :: "consolidation_delivery list \<Rightarrow> nat list \<Rightarrow> nat list" where
  "keep_more groups keep =
     filter (\<lambda>i. i \<in> set keep \<or> list_ex (\<lambda>j. before (groups ! i) \<in> set (carriers (groups ! j))) keep) [0..<length groups]"

fun keep_loop :: "nat \<Rightarrow> consolidation_delivery list \<Rightarrow> nat list \<Rightarrow> nat list" where
  "keep_loop 0 groups keep = keep"
| "keep_loop (Suc n) groups keep = (if keep_more groups keep = keep then keep else keep_loop n groups (keep_more groups keep))"

definition kept :: "consolidation_delivery list \<Rightarrow> claim list \<Rightarrow> nat list" where
  "kept groups pending = keep_loop (length groups) groups (filter (\<lambda>i. retired (groups ! i) \<in> set pending) [0..<length groups])"

definition prune :: "consolidation_delivery list \<Rightarrow> claim list \<Rightarrow> claim list \<Rightarrow> consolidation_delivery list \<times> claim list" where
  "prune groups acknowledged pending = (let groups' = map ((!) groups) (kept groups pending) in
     (groups', filter (\<lambda>c. claim_id c \<in> related_ids groups') acknowledged))"

section \<open>What readiness means\<close>

text \<open>The knowledge of a claim is carried on: it is current and confirmed, or was itself consolidated into such claims.\<close>

inductive carried :: "consolidation_delivery list \<Rightarrow> claim list \<Rightarrow> claim list \<Rightarrow> claim \<Rightarrow> bool" for groups acknowledged current where
  confirmed: "claim_status c \<noteq> Deprecated \<Longrightarrow> c \<in> set current \<Longrightarrow> c \<in> set acknowledged \<Longrightarrow> carried groups acknowledged current c"
| consolidated: "g \<in> set groups \<Longrightarrow> before g = c \<Longrightarrow> retired g \<in> set current \<Longrightarrow> carriers g \<noteq> [] \<Longrightarrow>
    (\<And>x. x \<in> set (carriers g) \<Longrightarrow> carried groups acknowledged current x) \<Longrightarrow> carried groups acknowledged current c"

lemma carrier_ready_carried: "carrier_ready groups acknowledged current visiting c \<Longrightarrow> carried groups acknowledged current c"
proof (induction groups acknowledged current visiting c rule: carrier_ready.induct)
  case (1 groups acknowledged current visiting c)
  show ?case
  proof (cases "claim_status c \<noteq> Deprecated \<and> c \<in> set current \<and> c \<in> set acknowledged")
    case True
    then show ?thesis by (simp add: carried.confirmed)
  next
    case False
    then obtain g where g: "claim_id c \<notin> set visiting" "g \<in> set groups" "before g = c" "retired g \<in> set current" "carriers g \<noteq> []"
        "\<forall>x \<in> set (carriers g). carrier_ready groups acknowledged current (claim_id c # visiting) x"
      using "1.prems" by (auto simp: carrier_ready.simps [of _ _ _ _ c] list_ex_iff list_all_iff split: if_splits)
    then show ?thesis using "1.IH" [OF False g(1,2)] by (intro carried.consolidated [OF g(2-5)]) auto
  qed
qed

lemma carried_mono:
  assumes "carried groups acknowledged current c" "set acknowledged \<subseteq> set acknowledged'"
  shows "carried groups acknowledged' current c"
  using assms(1)
proof induction
  case (confirmed c)
  then show ?case using assms(2) by (auto intro: carried.confirmed)
next
  case (consolidated g c)
  then show ?case by (auto intro: carried.consolidated)
qed

lemma ready_carried:
  assumes "ready c groups acknowledged current" "g \<in> set groups" "retired g = c"
  shows "carriers g \<noteq> []" "x \<in> set (carriers g) \<Longrightarrow> carried groups acknowledged current x"
  using assms by (auto simp: ready_def list_all_iff intro: carrier_ready_carried)

section \<open>Pruning\<close>

lemma keep_more_superset: "set keep \<subseteq> {..<length groups} \<Longrightarrow> set keep \<subseteq> set (keep_more groups keep)"
  by (auto simp: keep_more_def)

lemma keep_more_range: "set (keep_more groups keep) \<subseteq> {..<length groups}"
  by (auto simp: keep_more_def)

definition settled :: "consolidation_delivery list \<Rightarrow> nat list \<Rightarrow> bool" where
  "settled groups keep \<longleftrightarrow> (\<forall>i < length groups. \<forall>j \<in> set keep. before (groups ! i) \<in> set (carriers (groups ! j)) \<longrightarrow> i \<in> set keep)"

lemma keep_more_mem:
  "i \<in> set (keep_more groups keep) \<longleftrightarrow>
     i < length groups \<and> (i \<in> set keep \<or> (\<exists>j \<in> set keep. before (groups ! i) \<in> set (carriers (groups ! j))))"
  by (auto simp: keep_more_def list_ex_iff)

lemma fixpoint_settled:
  assumes "keep_more groups keep = keep"
  shows "settled groups keep"
  using keep_more_mem [of _ groups keep] unfolding assms settled_def by blast

lemma filter_upt_eq:
  assumes "keep = filter P [0..<n]" "keep' = filter Q [0..<n]" "set keep = set keep'"
  shows "keep = keep'"
  using assms by (metis sorted_distinct_set_unique sorted_wrt_filter sorted_upt distinct_filter distinct_upt)

lemma keep_loop_settles:
  assumes "n \<ge> length groups - card (set keep)" "keep = filter P [0..<length groups]"
  shows "settled groups (keep_loop n groups keep) \<and> set keep \<subseteq> set (keep_loop n groups keep) \<and> set (keep_loop n groups keep) \<subseteq> {..<length groups}"
  using assms
proof (induction n arbitrary: keep P)
  case (0 keep P)
  have range: "set keep \<subseteq> {..<length groups}" using "0.prems"(2) by auto
  moreover have "card (set keep) \<ge> length groups" using "0.prems"(1) by simp
  ultimately have "set keep = {..<length groups}" by (metis card_lessThan card_seteq finite_lessThan)
  then show ?case by (simp add: settled_def)
next
  case (Suc n keep P)
  have range: "set keep \<subseteq> {..<length groups}" using Suc.prems(2) by auto
  show ?case
  proof (cases "keep_more groups keep = keep")
    case True
    then show ?thesis using fixpoint_settled range by simp
  next
    case False
    let ?k = "keep_more groups keep"
    have "set keep \<noteq> set ?k" using False filter_upt_eq [OF Suc.prems(2) keep_more_def] by metis
    then have less: "set keep \<subset> set ?k" using keep_more_superset [OF range] by blast
    then have "card (set keep) < card (set ?k)" by (simp add: psubset_card_mono)
    then have "n \<ge> length groups - card (set ?k)" using Suc.prems(1) by linarith
    then have "settled groups (keep_loop n groups ?k) \<and> set ?k \<subseteq> set (keep_loop n groups ?k) \<and> set (keep_loop n groups ?k) \<subseteq> {..<length groups}"
      by (rule Suc.IH [OF _ keep_more_def])
    moreover have eq: "keep_loop (Suc n) groups keep = keep_loop n groups ?k" using False by simp
    moreover have "set keep \<subseteq> set ?k" using less by blast
    ultimately show ?thesis unfolding eq by blast
  qed
qed

lemma kept_settled:
  "settled groups (kept groups pending)" "i < length groups \<Longrightarrow> retired (groups ! i) \<in> set pending \<Longrightarrow> i \<in> set (kept groups pending)"
  "set (kept groups pending) \<subseteq> {..<length groups}"
  using keep_loop_settles [of groups "filter (\<lambda>i. retired (groups ! i) \<in> set pending) [0..<length groups]" "length groups"]
  unfolding kept_def by auto

lemma pruned_groups:
  assumes "prune groups acknowledged pending = (groups', acknowledged')"
  shows "set groups' \<subseteq> set groups" "g \<in> set groups \<Longrightarrow> retired g \<in> set pending \<Longrightarrow> g \<in> set groups'"
    "g \<in> set groups \<Longrightarrow> h \<in> set groups' \<Longrightarrow> before g \<in> set (carriers h) \<Longrightarrow> g \<in> set groups'"
    "acknowledged' = filter (\<lambda>c. claim_id c \<in> related_ids groups') acknowledged"
proof -
  have g': "groups' = map ((!) groups) (kept groups pending)" using assms by (auto simp: prune_def Let_def)
  show "set groups' \<subseteq> set groups" using kept_settled(3) g' by fastforce
  show "g \<in> set groups'" if "g \<in> set groups" "retired g \<in> set pending"
    using that kept_settled(2) g' by (force simp: in_set_conv_nth [of g groups])
  show "g \<in> set groups'" if gh: "g \<in> set groups" "h \<in> set groups'" "before g \<in> set (carriers h)"
  proof -
    obtain i where i: "i < length groups" "g = groups ! i" using gh(1) by (metis in_set_conv_nth)
    obtain j where j: "j \<in> set (kept groups pending)" "h = groups ! j" using gh(2) g' by auto
    have "i \<in> set (kept groups pending)" using kept_settled(1) i j gh(3) unfolding settled_def by blast
    then show ?thesis using i(2) g' by simp
  qed
  show "acknowledged' = filter (\<lambda>c. claim_id c \<in> related_ids groups') acknowledged" using assms by (auto simp: prune_def Let_def)
qed

lemma carrier_ready_prune:
  assumes "prune groups acknowledged pending = (groups', acknowledged')" "h \<in> set groups'" "c \<in> set (carriers h)"
  shows "carrier_ready groups' acknowledged' current visiting c \<longleftrightarrow> carrier_ready groups acknowledged current visiting c"
  using assms
proof (induction groups acknowledged current visiting c arbitrary: h rule: carrier_ready.induct)
  case (1 groups acknowledged current visiting c)
  note pruned = pruned_groups [OF "1.prems"(1)]
  have "claim_id c \<in> related_ids groups'" using "1.prems"(2,3) by (auto simp: related_ids_def)
  then have base: "c \<in> set acknowledged' \<longleftrightarrow> c \<in> set acknowledged" using pruned(4) by simp
  have same: "list_all (carrier_ready groups' acknowledged' current (claim_id c # visiting)) (carriers g)
      \<longleftrightarrow> list_all (carrier_ready groups acknowledged current (claim_id c # visiting)) (carriers g)"
    if g: "g \<in> set groups" "before g = c \<and> retired g \<in> set current \<and> carriers g \<noteq> []"
      and new: "\<not> (claim_status c \<noteq> Deprecated \<and> c \<in> set current \<and> c \<in> set acknowledged)" "claim_id c \<notin> set visiting" for g
    using "1.IH" [OF new g] "1.prems"(1) pruned(3) [OF g(1) "1.prems"(2)] g(2) "1.prems"(3) by (auto simp: list_all_iff)
  have mem: "g \<in> set groups' \<longleftrightarrow> g \<in> set groups" if "before g = c" for g
    using pruned(1) pruned(3) [OF _ "1.prems"(2)] that "1.prems"(3) by blast
  show ?case
    unfolding carrier_ready.simps [of groups' acknowledged' current visiting c] carrier_ready.simps [of groups acknowledged current visiting c] base list_ex_iff
    by (intro if_cong refl iffI; elim bexE; intro bexI) (use same mem in \<open>auto split: if_splits\<close>)
qed

text \<open>
  Property C31.  Cleaning up the delivery records never changes what may be uploaded: for every claim that is still
  pending, the retirement is ready with the pruned groups and confirmations exactly when it is with all of them.
\<close>

theorem pruning_keeps_readiness:
  assumes "prune groups acknowledged pending = (groups', acknowledged')" and "c \<in> set pending"
  shows "ready c groups' acknowledged' current \<longleftrightarrow> ready c groups acknowledged current"
proof -
  note pruned = pruned_groups [OF assms(1)]
  have "set (filter (\<lambda>g. retired g = c) groups') = set (filter (\<lambda>g. retired g = c) groups)"
    using pruned(1,2) assms(2) by auto
  moreover have "list_all (carrier_ready groups' acknowledged' current []) (carriers g) \<longleftrightarrow> list_all (carrier_ready groups acknowledged current []) (carriers g)"
    if "g \<in> set groups'" for g
    using carrier_ready_prune [OF assms(1) that] by (auto simp: list_all_iff)
  ultimately show ?thesis unfolding ready_def list_all_iff by auto
qed

end
