(* ===== verification/Id_Maps.thy ===== *)
theory Id_Maps
  imports Prelude
begin

text \<open>A \<open>BTreeMap\<close> from the ids of its values, as the list of the values in the order of their ids.\<close>

section \<open>Operations\<close>

fun put_by :: "('a \<Rightarrow> 'k::linorder) \<Rightarrow> 'a \<Rightarrow> 'a list \<Rightarrow> 'a list" where
  "put_by k x [] = [x]"
| "put_by k x (y # ys) = (if k x = k y then x # ys else if k x < k y then x # y # ys else y # put_by k x ys)"

definition get_by :: "('a \<Rightarrow> 'k) \<Rightarrow> 'k \<Rightarrow> 'a list \<Rightarrow> 'a option" where
  "get_by k i xs = find (\<lambda>x. k x = i) xs"

definition drop_by :: "('a \<Rightarrow> 'k) \<Rightarrow> 'k \<Rightarrow> 'a list \<Rightarrow> 'a list" where
  "drop_by k i xs = filter (\<lambda>x. k x \<noteq> i) xs"

definition by_id :: "('a \<Rightarrow> 'k::linorder) \<Rightarrow> 'a list \<Rightarrow> 'a list" where
  "by_id k xs = fold (put_by k) xs []"

section \<open>Facts\<close>

definition ordered_by :: "('a \<Rightarrow> 'k::linorder) \<Rightarrow> 'a list \<Rightarrow> bool" where
  "ordered_by k xs \<longleftrightarrow> sorted_wrt (\<lambda>x y. k x < k y) xs"

lemma put_by_set: "ordered_by k xs \<Longrightarrow> set (put_by k x xs) = insert x {y \<in> set xs. k y \<noteq> k x}"
  by (induction xs) (auto simp: ordered_by_def)

lemma put_by_ordered: "ordered_by k xs \<Longrightarrow> ordered_by k (put_by k x xs)"
proof (induction xs)
  case (Cons y ys)
  have tail: "ordered_by k ys" "\<forall>z \<in> set ys. k y < k z" using Cons.prems by (auto simp: ordered_by_def)
  have "set (put_by k x ys) = insert x {z \<in> set ys. k z \<noteq> k x}" using put_by_set [OF tail(1)] .
  with Cons.IH [OF tail(1)] tail show ?case by (auto simp: ordered_by_def)
qed (simp add: ordered_by_def)

lemma ordered_by_inj: "ordered_by k xs \<Longrightarrow> inj_on k (set xs)"
proof (induction xs)
  case (Cons x xs)
  then have "k x \<notin> k ` set xs" "inj_on k (set xs)" by (force simp: ordered_by_def)+
  then show ?case by (auto simp: inj_on_insert)
qed simp

lemma get_by_iff: "inj_on k (set xs) \<Longrightarrow> get_by k i xs = Some x \<longleftrightarrow> x \<in> set xs \<and> k x = i"
proof
  assume "inj_on k (set xs)" "x \<in> set xs \<and> k x = i"
  then show "get_by k i xs = Some x" unfolding get_by_def
    by (cases "find (\<lambda>x. k x = i) xs") (auto simp: find_None_iff dest!: find_SomeD dest: inj_onD)
qed (auto simp: get_by_def dest: find_SomeD)

lemma get_by_None: "get_by k i xs = None \<longleftrightarrow> i \<notin> k ` set xs"
  by (auto simp: get_by_def find_None_iff)

lemma drop_by_ordered: "ordered_by k xs \<Longrightarrow> ordered_by k (drop_by k i xs)"
  by (simp add: ordered_by_def drop_by_def sorted_wrt_filter)

lemma drop_by_set: "set (drop_by k i xs) = {x \<in> set xs. k x \<noteq> i}"
  by (auto simp: drop_by_def)

lemma by_id_fold: "ordered_by k ys \<Longrightarrow> inj_on k (set xs) \<Longrightarrow>
    ordered_by k (fold (put_by k) xs ys) \<and> set (fold (put_by k) xs ys) = set xs \<union> {y \<in> set ys. k y \<notin> k ` set xs}"
proof (induction xs arbitrary: ys)
  case (Cons x xs)
  have x: "ordered_by k (put_by k x ys)" "set (put_by k x ys) = insert x {y \<in> set ys. k y \<noteq> k x}"
    using Cons.prems(1) by (simp_all add: put_by_ordered put_by_set)
  have "x \<in> set xs \<or> k x \<notin> k ` set xs" using Cons.prems(2) by (auto simp: inj_on_def)
  with Cons.IH [OF x(1)] Cons.prems(2) x(2) show ?case by auto
qed simp

lemma by_id_ordered: "inj_on k (set xs) \<Longrightarrow> ordered_by k (by_id k xs)" "inj_on k (set xs) \<Longrightarrow> set (by_id k xs) = set xs"
  using by_id_fold [of k "[]" xs] by (auto simp: by_id_def ordered_by_def)

lemma ordered_distinct: "ordered_by k xs \<Longrightarrow> distinct (map k xs)"
  by (induction xs) (force simp: ordered_by_def)+

end
