(* ===== verification/Upload_Queue.thy ===== *)
theory Upload_Queue
  imports Consolidation Http_Client Id_Maps
begin

text \<open>
  The agent's queue of uploads to the Maintainer (\<open>src/agent/maintainer_upload.rs\<close>): claims and disputes are put into
  a file first, an upload run sends what the file holds, and what could not be delivered stays in it.  While a
  run is under way other tasks may go on staging; the run settles its outcome against the file as it is then.
\<close>

section \<open>The queue file\<close>

record pending_maintainer_uploads =
  consolidations :: "consolidation_delivery list"
  acknowledgements :: "claim list"
  queued_claims :: "claim list"
  durable_claim_ids :: "claim_id set"
  queued_disputes :: "dispute list"

definition no_uploads :: pending_maintainer_uploads where
  "no_uploads = \<lparr>consolidations = [], acknowledgements = [], queued_claims = [], durable_claim_ids = {}, queued_disputes = []\<rparr>"

record upload_queue =
  up_faults :: "bool list"
  queue_file :: "pending_maintainer_uploads yaml_file option"

datatype upload_error = UploadStorage team_error | TeamDeliveryDisabled | DependencyChanged

type_synonym 'a queue_io = "(upload_queue, upload_error, 'a) io"

definition up_call :: "unit queue_io" where
  "up_call w = (case up_faults w of
                  [] \<Rightarrow> (Inr (), w)
                | f # fs \<Rightarrow> (if f then Inl (UploadStorage IoError) else Inr (), w\<lparr>up_faults := fs\<rparr>))"

definition read_queue :: "pending_maintainer_uploads queue_io" where
  "read_queue = bind_io up_call (\<lambda>_. bind_io (get_io queue_file) (\<lambda>f. case f of
       None \<Rightarrow> return_io no_uploads
     | Some (Document p) \<Rightarrow> return_io p
     | Some _ \<Rightarrow> throw_io (UploadStorage (DecodeError ''pending.yaml''))))"

definition write_or_clear :: "pending_maintainer_uploads \<Rightarrow> unit queue_io" where
  "write_or_clear p = bind_io up_call (\<lambda>_.
     modify_io (queue_file_update (\<lambda>_. if queued_claims p = [] \<and> queued_disputes p = [] then None else Some (Document p))))"

section \<open>Staging\<close>

definition merge_claim :: "claim \<Rightarrow> consolidation_delivery list \<times> claim list \<Rightarrow> consolidation_delivery list \<times> claim list" where
  "merge_claim c s = (case s of (groups, claims) \<Rightarrow>
     (if (case get_by claim_id (claim_id c) claims of None \<Rightarrow> True | Some old \<Rightarrow> effective_updated_at old \<le> effective_updated_at c)
      then (supersede groups c, put_by claim_id c claims) else (groups, claims)))"

definition merge_dispute :: "dispute \<Rightarrow> dispute list \<Rightarrow> dispute list" where
  "merge_dispute d ds =
     (if (case get_by dispute_id (dispute_id d) ds of None \<Rightarrow> True | Some old \<Rightarrow> dispute_created_at old \<le> dispute_created_at d)
      then put_by dispute_id d ds else ds)"

definition merge_pending_uploads :: "pending_maintainer_uploads \<Rightarrow> claim list \<Rightarrow> dispute list \<Rightarrow> pending_maintainer_uploads" where
  "merge_pending_uploads p cs ds =
     (case fold merge_claim cs (consolidations p, by_id claim_id (queued_claims p)) of (groups, claims) \<Rightarrow>
        \<lparr>consolidations = groups, acknowledgements = acknowledgements p, queued_claims = claims,
         durable_claim_ids = durable_claim_ids p \<inter> claim_id ` set claims,
         queued_disputes = fold merge_dispute ds (by_id dispute_id (queued_disputes p))\<rparr>)"

definition merged_with :: "claim list \<Rightarrow> dispute list \<Rightarrow> bool \<Rightarrow> pending_maintainer_uploads queue_io" where
  "merged_with cs ds durable = bind_io read_queue (\<lambda>p.
     return_io (merge_pending_uploads (if durable then p\<lparr>durable_claim_ids := durable_claim_ids p \<union> claim_id ` set cs\<rparr> else p) cs ds))"

text \<open>A withdrawn policy retires the knowledge itself, so its retirements wait for no carrier.\<close>

definition withdraw :: "policy_id \<Rightarrow> pending_maintainer_uploads \<Rightarrow> pending_maintainer_uploads" where
  "withdraw i p = (let groups = filter (\<lambda>g. \<not> list_ex (\<lambda>c. claim_id c = claim_id (retired g) \<and> claim_status c = Deprecated
                        \<and> SourcePolicy i \<in> set (source_claim_ids c)) (queued_claims p)) (consolidations p);
                       (groups', acks) = prune groups (acknowledgements p) (queued_claims p) in
     p\<lparr>consolidations := groups', acknowledgements := acks\<rparr>)"

definition add_group :: "consolidation_delivery \<Rightarrow> pending_maintainer_uploads \<Rightarrow> pending_maintainer_uploads" where
  "add_group g p = p\<lparr>consolidations := filter (\<lambda>x. claim_id (retired x) \<noteq> claim_id (retired g)) (consolidations p) @ [g]\<rparr>"

definition stage_maintainer_batch_inner ::
  "bool \<Rightarrow> claim list \<Rightarrow> dispute list \<Rightarrow> bool \<Rightarrow> consolidation_delivery list \<Rightarrow> policy_id option \<Rightarrow> unit queue_io" where
  "stage_maintainer_batch_inner client cs ds durable groups withdrawn =
     (if \<not> client then return_io ()
      else bind_io up_call (\<lambda>_. bind_io (merged_with cs ds durable) (\<lambda>p.
        write_or_clear (fold add_group groups (case withdrawn of None \<Rightarrow> p | Some i \<Rightarrow> withdraw i p)))))"

definition stage_maintainer_batch :: "bool \<Rightarrow> claim list \<Rightarrow> dispute list \<Rightarrow> unit queue_io" where
  "stage_maintainer_batch client cs ds = stage_maintainer_batch_inner client cs ds False [] None"

definition stage_maintainer_batch_with_durable_claims :: "bool \<Rightarrow> claim list \<Rightarrow> dispute list \<Rightarrow> unit queue_io" where
  "stage_maintainer_batch_with_durable_claims client cs ds = stage_maintainer_batch_inner client cs ds True [] None"

definition stage_policy_deprecation :: "bool \<Rightarrow> claim list \<Rightarrow> policy_id \<Rightarrow> unit queue_io" where
  "stage_policy_deprecation client cs i = stage_maintainer_batch_inner client cs [] False [] (Some i)"

definition stage_consolidation_batch :: "bool \<Rightarrow> claim list \<Rightarrow> consolidation_delivery list \<Rightarrow> unit queue_io" where
  "stage_consolidation_batch client cs groups = stage_maintainer_batch_inner client cs [] True groups None"

definition pending_consolidations :: "bool \<Rightarrow> consolidation_delivery list queue_io" where
  "pending_consolidations client = (if \<not> client then return_io [] else bind_io read_queue (\<lambda>p. return_io (consolidations p)))"

definition rebind_consolidation :: "bool \<Rightarrow> consolidation_delivery \<Rightarrow> consolidation_delivery \<Rightarrow> unit queue_io" where
  "rebind_consolidation client previous revised =
     (if \<not> client then throw_io TeamDeliveryDisabled
      else bind_io up_call (\<lambda>_. bind_io read_queue (\<lambda>p.
        if \<not> (retired previous \<in> set (queued_claims p) \<and> previous \<in> set (consolidations p)) then throw_io DependencyChanged
        else write_or_clear (p\<lparr>
          consolidations := filter (\<lambda>g. claim_id (retired g) \<noteq> claim_id (retired revised)) (consolidations p) @ [revised],
          queued_claims := filter (\<lambda>c. claim_id c \<notin> claim_id ` set (carriers revised)) (queued_claims p) @ carriers revised,
          durable_claim_ids := durable_claim_ids p \<union> claim_id ` set (carriers revised)\<rparr>))))"

section \<open>An upload run\<close>

text \<open>
  Pending versions of claims in a consolidation follow the local claim, if the knowledge lock is free and no
  consolidation is half done; \<open>local\<close> is what the claim store lists then.
\<close>

fun refresh_claims :: "claim_id set \<Rightarrow> claim list \<Rightarrow> consolidation_delivery list \<Rightarrow> claim list \<Rightarrow> claim list \<times> consolidation_delivery list" where
  "refresh_claims related local groups [] = ([], groups)"
| "refresh_claims related local groups (c # cs) =
     (case (if claim_id c \<in> related then get_by claim_id (claim_id c) local else None) of
        None \<Rightarrow> (case refresh_claims related local groups cs of (cs', groups') \<Rightarrow> (c # cs', groups'))
      | Some actual \<Rightarrow> (case refresh_claims related local (supersede groups actual) cs of (cs', groups') \<Rightarrow> (actual # cs', groups')))"

definition refresh_uploads :: "claim list \<Rightarrow> pending_maintainer_uploads \<Rightarrow> pending_maintainer_uploads" where
  "refresh_uploads local p =
     (case refresh_claims (related_ids (consolidations p)) local (consolidations p) (queued_claims p) of (cs, groups) \<Rightarrow>
        p\<lparr>queued_claims := cs, consolidations := groups\<rparr>)"

definition begin_upload :: "claim list option \<Rightarrow> pending_maintainer_uploads option queue_io" where
  "begin_upload view =
     bind_io up_call (\<lambda>_. bind_io up_call (\<lambda>_. bind_io read_queue (\<lambda>p.
       if queued_claims p = [] \<and> queued_disputes p = [] then return_io None
       else bind_io (if consolidations p = [] then return_io p
                     else bind_io up_call (\<lambda>_. case view of
                         None \<Rightarrow> return_io p
                       | Some local \<Rightarrow> bind_io up_call (\<lambda>_. bind_io up_call (\<lambda>_. bind_io read_queue (\<lambda>q.
                           let q' = refresh_uploads local q in bind_io (write_or_clear q') (\<lambda>_. return_io q'))))))
         (\<lambda>a. return_io (if queued_claims a = [] \<and> queued_disputes a = [] then None else Some a)))))"

datatype upload_error_kind = AuthKind | ForbiddenKind | RetryableKind | ConflictKind | ClientKind | UnknownKind

definition classify_upload_error :: "client_error \<Rightarrow> upload_error_kind" where
  "classify_upload_error e = (case e of
       Auth _ \<Rightarrow> AuthKind
     | Retryable \<Rightarrow> RetryableKind
     | ClientStatus s \<Rightarrow> if s = 403 then ForbiddenKind else if s = 409 then ConflictKind else ClientKind
     | LegacyServer _ \<Rightarrow> UnknownKind
     | BadBody \<Rightarrow> UnknownKind)"

record upload_tally =
  failed :: pending_maintainer_uploads
  auth_failures :: nat
  forbidden_failures :: nat
  retryable_failures :: nat
  rejected_failures :: nat
  dispute_conflicts :: nat

definition no_tally :: upload_tally where
  "no_tally = \<lparr>failed = no_uploads, auth_failures = 0, forbidden_failures = 0, retryable_failures = 0, rejected_failures = 0, dispute_conflicts = 0\<rparr>"

definition retain_failed_claim :: "claim \<Rightarrow> bool \<Rightarrow> upload_tally \<Rightarrow> upload_tally" where
  "retain_failed_claim c durable s = s\<lparr>failed := failed s\<lparr>queued_claims := queued_claims (failed s) @ [c],
     durable_claim_ids := durable_claim_ids (failed s) \<union> (if durable then {claim_id c} else {})\<rparr>\<rparr>"

definition claim_failed :: "claim \<Rightarrow> bool \<Rightarrow> client_error \<Rightarrow> upload_tally \<Rightarrow> upload_tally" where
  "claim_failed c durable e s = (case classify_upload_error e of
       RetryableKind \<Rightarrow> retain_failed_claim c durable (s\<lparr>retryable_failures := Suc (retryable_failures s)\<rparr>)
     | AuthKind \<Rightarrow> (if durable then retain_failed_claim c True else id) (s\<lparr>auth_failures := Suc (auth_failures s)\<rparr>)
     | ForbiddenKind \<Rightarrow> (if durable then retain_failed_claim c True else id) (s\<lparr>forbidden_failures := Suc (forbidden_failures s)\<rparr>)
     | _ \<Rightarrow> retain_failed_claim c durable (s\<lparr>rejected_failures := Suc (rejected_failures s)\<rparr>))"

definition retain_failed_dispute :: "dispute \<Rightarrow> upload_tally \<Rightarrow> upload_tally" where
  "retain_failed_dispute d s = s\<lparr>failed := failed s\<lparr>queued_disputes := queued_disputes (failed s) @ [d]\<rparr>\<rparr>"

definition dispute_failed :: "dispute \<Rightarrow> client_error \<Rightarrow> upload_tally \<Rightarrow> upload_tally" where
  "dispute_failed d e s = (case classify_upload_error e of
       RetryableKind \<Rightarrow> retain_failed_dispute d (s\<lparr>retryable_failures := Suc (retryable_failures s)\<rparr>)
     | AuthKind \<Rightarrow> retain_failed_dispute d (s\<lparr>auth_failures := Suc (auth_failures s)\<rparr>)
     | ForbiddenKind \<Rightarrow> retain_failed_dispute d (s\<lparr>forbidden_failures := Suc (forbidden_failures s)\<rparr>)
     | ConflictKind \<Rightarrow> s\<lparr>dispute_conflicts := Suc (dispute_conflicts s)\<rparr>
     | _ \<Rightarrow> retain_failed_dispute d (s\<lparr>rejected_failures := Suc (rejected_failures s)\<rparr>))"

type_synonym 'a upload_io = "(upload_queue net, upload_error, 'a) io"

definition at_queue :: "'a queue_io \<Rightarrow> 'a upload_io" where
  "at_queue m n = (case m (home n) of (r, h) \<Rightarrow> (r, n\<lparr>home := h\<rparr>))"

text \<open>The requests of one round, in the order in which they take effect.\<close>

fun send_claims :: "nat \<Rightarrow> claim_id set \<Rightarrow> claim list \<Rightarrow> claim list \<times> upload_tally \<Rightarrow> (claim list \<times> upload_tally) upload_io" where
  "send_claims retries durable [] s = return_io s"
| "send_claims retries durable (c # cs) (acks, s) =
     bind_io (attempt_io (client_upload_claim retries c)) (\<lambda>r. send_claims retries durable cs (case r of
         Inr _ \<Rightarrow> (acknowledge acks c, s)
       | Inl e \<Rightarrow> (acks, claim_failed c (claim_id c \<in> durable) e s)))"

definition ready_claims :: "claim list option \<Rightarrow> consolidation_delivery list \<Rightarrow> claim list \<Rightarrow> claim list \<Rightarrow> claim list" where
  "ready_claims view groups acks remaining = filter (\<lambda>c. claim_id c \<notin> related_ids groups
     \<or> (case view of None \<Rightarrow> False | Some local \<Rightarrow> c \<in> set local \<and> ready c groups acks local)) remaining"

lemma ready_claims_subset: "set (ready_claims view groups acks remaining) \<subseteq> set remaining"
  by (auto simp: ready_claims_def)

text \<open>
  The rounds: \<open>views k\<close> is what the claim store lists in the round with \<open>k\<close> claims left, if the knowledge lock is free
  and no consolidation is half done; taking the lock and reading the store may fail, which ends the run.
  \<open>order\<close> is the order in which the concurrent requests of a round take effect.
\<close>

definition round_view :: "(nat \<Rightarrow> claim list option) \<Rightarrow> consolidation_delivery list \<Rightarrow> nat \<Rightarrow> claim list option upload_io" where
  "round_view views groups k =
     (if related_ids groups = {} then return_io (Some [])
      else bind_io (at_queue up_call) (\<lambda>_. case views k of
             None \<Rightarrow> return_io None
           | Some local \<Rightarrow> bind_io (at_queue up_call) (\<lambda>_. return_io (Some local))))"

function deliver_claims :: "nat \<Rightarrow> (nat \<Rightarrow> claim list option) \<Rightarrow> (claim list \<Rightarrow> claim list) \<Rightarrow> consolidation_delivery list \<Rightarrow> claim_id set
    \<Rightarrow> claim list \<Rightarrow> claim list \<times> upload_tally \<Rightarrow> (claim list \<times> claim list \<times> upload_tally) upload_io" where
  "deliver_claims retries views order groups durable remaining (acks, s) =
     bind_io (round_view views groups (length remaining)) (\<lambda>view.
       let now_ready = ready_claims view groups acks remaining in
       if now_ready = [] then return_io (remaining, acks, s)
       else bind_io (send_claims retries durable (order now_ready) (acks, s))
              (deliver_claims retries views order groups durable (filter (\<lambda>c. c \<notin> set now_ready) remaining)))"
  by pat_completeness auto

termination
proof (relation "measure (\<lambda>(_, _, _, _, _, remaining, _). length remaining)")
  fix retries views order groups durable remaining acks s view x y
  assume x: "x = ready_claims view groups acks remaining" "x \<noteq> []"
  have "hd x \<in> set remaining" using x(2) ready_claims_subset unfolding x(1) by (meson hd_in_set subsetD)
  then have "length (filter (\<lambda>c. c \<notin> set x) remaining) < length remaining"
    using x(2) by (intro length_filter_less) auto
  then show "((retries, views, order, groups, durable, filter (\<lambda>c. c \<notin> set x) remaining, y),
      retries, views, order, groups, durable, remaining, acks, s) \<in> measure (\<lambda>(_, _, _, _, _, remaining, _). length remaining)" by simp
qed simp

declare deliver_claims.simps [simp del]

fun deliver_disputes :: "nat \<Rightarrow> (team_error \<Rightarrow> nat) \<Rightarrow> dispute list \<Rightarrow> upload_tally \<Rightarrow> upload_tally upload_io" where
  "deliver_disputes retries status [] s = return_io s"
| "deliver_disputes retries status (d # ds) s =
     bind_io (attempt_io (post False status (\<lambda>_. report_dispute d) retries)) (\<lambda>r. deliver_disputes retries status ds (case r of
         Inr _ \<Rightarrow> s
       | Inl e \<Rightarrow> dispute_failed d e s))"

section \<open>Settling\<close>

definition reconcile_claim :: "pending_maintainer_uploads \<Rightarrow> claim \<Rightarrow> claim list \<times> claim_id set \<Rightarrow> claim list \<times> claim_id set" where
  "reconcile_claim fails c s = (case s of (claims, durable) \<Rightarrow>
     (if claim_id c \<in> claim_id ` set (queued_claims fails) then
        ((if (case get_by claim_id (claim_id c) claims of None \<Rightarrow> True | Some x \<Rightarrow> x = c) then put_by claim_id c claims else claims),
         (if claim_id c \<in> durable_claim_ids fails then insert (claim_id c) durable else durable))
      else if get_by claim_id (claim_id c) claims = Some c then (drop_by claim_id (claim_id c) claims, durable - {claim_id c})
      else (claims, durable)))"

definition reconcile_dispute :: "pending_maintainer_uploads \<Rightarrow> dispute \<Rightarrow> dispute list \<Rightarrow> dispute list" where
  "reconcile_dispute fails d ds =
     (if dispute_id d \<in> dispute_id ` set (queued_disputes fails) then
        (if (case get_by dispute_id (dispute_id d) ds of None \<Rightarrow> True | Some x \<Rightarrow> x = d) then put_by dispute_id d ds else ds)
      else if get_by dispute_id (dispute_id d) ds = Some d then drop_by dispute_id (dispute_id d) ds
      else ds)"

definition reconcile_pending_uploads_after_attempt ::
  "pending_maintainer_uploads \<Rightarrow> pending_maintainer_uploads \<Rightarrow> pending_maintainer_uploads \<Rightarrow> pending_maintainer_uploads" where
  "reconcile_pending_uploads_after_attempt current attempted fails =
     (case fold (reconcile_claim fails) (queued_claims attempted) (by_id claim_id (queued_claims current), durable_claim_ids current) of
        (claims, durable) \<Rightarrow>
        (case prune (consolidations current) (fold (\<lambda>c a. acknowledge a c) (acknowledgements attempted) (acknowledgements current)) claims of
           (groups, acks) \<Rightarrow>
           \<lparr>consolidations = groups, acknowledgements = acks, queued_claims = claims,
            durable_claim_ids = durable \<inter> claim_id ` set claims,
            queued_disputes = fold (reconcile_dispute fails) (queued_disputes attempted) (by_id dispute_id (queued_disputes current))\<rparr>))"

definition settle_upload :: "pending_maintainer_uploads \<Rightarrow> pending_maintainer_uploads \<Rightarrow> unit queue_io" where
  "settle_upload attempted fails = bind_io up_call (\<lambda>_. bind_io read_queue (\<lambda>current.
     write_or_clear (reconcile_pending_uploads_after_attempt current attempted fails)))"

text \<open>
  The run.  Runs of an agent exclude each other by the delivery lock, but other tasks may stage: \<open>meanwhile\<close> is what
  they do to the queue file during the delivery.  The warning of the report is kept as the counts it is made of, with
  one count for the two kinds of conflicting disputes.
\<close>

record maintainer_upload_report =
  report_pending_claims :: nat
  report_pending_disputes :: nat
  blocked_claims :: nat
  report_tally :: "upload_tally option"

definition empty_upload_report :: maintainer_upload_report where
  "empty_upload_report = \<lparr>report_pending_claims = 0, report_pending_disputes = 0, blocked_claims = 0, report_tally = None\<rparr>"

record upload_setting =
  request_retries :: nat
  report_status :: "team_error \<Rightarrow> nat"
  view_at_start :: "claim list option"
  view_in_round :: "nat \<Rightarrow> claim list option"
  claim_order :: "claim list \<Rightarrow> claim list"
  dispute_order :: "dispute list \<Rightarrow> dispute list"
  meanwhile :: "upload_queue \<Rightarrow> upload_queue"

definition upload_maintainer_batch_inner ::
  "upload_setting \<Rightarrow> bool \<Rightarrow> claim list \<Rightarrow> dispute list \<Rightarrow> bool \<Rightarrow> maintainer_upload_report upload_io" where
  "upload_maintainer_batch_inner u client cs ds durable =
     (if \<not> client then return_io empty_upload_report
      else bind_io (at_queue (stage_maintainer_batch_inner client cs ds durable [] None)) (\<lambda>_.
        bind_io (at_queue (begin_upload (view_at_start u))) (\<lambda>a. case a of
          None \<Rightarrow> return_io empty_upload_report
        | Some attempted \<Rightarrow>
            bind_io (deliver_claims (request_retries u) (view_in_round u) (claim_order u) (consolidations attempted) (durable_claim_ids attempted)
                       (queued_claims attempted) (acknowledgements attempted, no_tally)) (\<lambda>(remaining, acks, s).
            bind_io (deliver_disputes (request_retries u) (report_status u) (dispute_order u (queued_disputes attempted))
                       (fold (\<lambda>c. retain_failed_claim c True) remaining s)) (\<lambda>s'.
            bind_io (modify_io (home_update (meanwhile u))) (\<lambda>_.
            bind_io (at_queue (settle_upload (attempted\<lparr>acknowledgements := acks\<rparr>) (failed s'))) (\<lambda>_.
              return_io \<lparr>report_pending_claims = length (queued_claims (failed s')), report_pending_disputes = length (queued_disputes (failed s')),
                blocked_claims = length remaining, report_tally = Some s'\<rparr>)))))))"

definition upload_maintainer_batch :: "upload_setting \<Rightarrow> bool \<Rightarrow> claim list \<Rightarrow> dispute list \<Rightarrow> maintainer_upload_report upload_io" where
  "upload_maintainer_batch u client cs ds = upload_maintainer_batch_inner u client cs ds False"

definition upload_maintainer_batch_with_durable_claims ::
  "upload_setting \<Rightarrow> bool \<Rightarrow> claim list \<Rightarrow> dispute list \<Rightarrow> maintainer_upload_report upload_io" where
  "upload_maintainer_batch_with_durable_claims u client cs ds = upload_maintainer_batch_inner u client cs ds True"

end
