(* ===== verification/Upload_Properties.thy ===== *)
theory Upload_Properties
  imports Upload_Queue Maintainer_Steps Io_Contracts
begin

text \<open>
  What the upload queue promises: a claim that is queued stays queued until the Maintainer has its latest version,
  and a source is retired at the team only after the claims that carry its knowledge on are there.
\<close>

section \<open>Mirrors at the Maintainer\<close>

definition mirrored :: "claim \<Rightarrow> team_store \<Rightarrow> bool" where
  "mirrored c t \<longleftrightarrow> map_of (claims_dir_of (map_of (agents t) (as_str (claim_holder c)))) (yaml_name (claim_id c)) = Some (Document c)"

text \<open>Only versions of \<open>C\<close> become mirrored, and a version is lost only to another one of \<open>C\<close> with its id.\<close>

definition uploads :: "claim set \<Rightarrow> team_store \<Rightarrow> team_store \<Rightarrow> bool" where
  "uploads C t t' \<longleftrightarrow> (\<forall>c. (mirrored c t' \<longrightarrow> mirrored c t \<or> c \<in> C)
     \<and> (mirrored c t \<longrightarrow> claim_id c \<notin> claim_id ` (C - {c}) \<longrightarrow> mirrored c t'))"

interpretation uploads: io_frame "uploads C" for C
  by unfold_locales (auto simp: uploads_def)

lemma uploads_mono: "uploads C t t' \<Longrightarrow> C \<subseteq> C' \<Longrightarrow> uploads C' t t'"
  unfolding uploads_def by blast

lemma uploads_same: "agents t' = agents t \<Longrightarrow> uploads C t t'"
  by (simp add: uploads_def mirrored_def)

lemma mirrored_put:
  "mirrored x (agents_update (put_mirror c) t) \<longleftrightarrow>
     (if claim_holder x = claim_holder c \<and> claim_id x = claim_id c then x = c else mirrored x t)"
  by (auto simp: mirrored_def put_mirror_def claims_dir_of_def as_str_inject)

lemma ensure_mirrored:
  assumes "ensure_agent_registered a t = (r, t')"
  shows "mirrored x t' \<longleftrightarrow> mirrored x t"
proof -
  have call: "agents t1 = agents t" if "io_call t = (q, t1)" for q t1
    using that by (auto simp: io_call_def split: list.splits if_splits)
  from assms show ?thesis unfolding ensure_agent_registered_def
    by (auto simp: bind_io_def get_io_def throw_io_def return_io_def modify_io_def mirrored_def claims_dir_of_def
        split: prod.splits sum.splits option.splits agent_node.splits if_splits dest!: call)
qed

lemma upload_claim_cases:
  assumes "upload_claim c t = (r, t')"
  obtains (none) e where "r = Inl e" "\<And>x. mirrored x t' \<longleftrightarrow> mirrored x t"
  | (stored) t1 where "r = Inr ()" "\<And>x. mirrored x t1 \<longleftrightarrow> mirrored x t" "t' = agents_update (put_mirror c) t1"
proof -
  obtain q t1 where q: "ensure_agent_registered (claim_holder c) t = (q, t1)" by fastforce
  note e = ensure_mirrored [OF q]
  have call: "agents t3 = agents t1" if "io_call t1 = (q, t3)" for q t3
    using that by (auto simp: io_call_def split: list.splits if_splits)
  show ?thesis
  proof (cases q)
    case (Inl err)
    then show ?thesis using assms q e by (intro none [of err]) (auto simp: upload_claim_def bind_io_def)
  next
    case (Inr u)
    obtain q2 t2 where q2: "io_call t1 = (q2, t2)" by fastforce
    have same: "mirrored x t2 \<longleftrightarrow> mirrored x t" for x using call [OF q2] e by (simp add: mirrored_def)
    show ?thesis
    proof (cases q2)
      case (Inl err)
      then show ?thesis using assms q Inr q2 same by (intro none [of err]) (auto simp: upload_claim_def bind_io_def)
    next
      case (Inr v)
      then show ?thesis using assms q \<open>q = Inr u\<close> q2 same by (intro stored [of t2]) (auto simp: upload_claim_def bind_io_def modify_io_def)
    qed
  qed
qed

lemma upload_claim_uploads: "within (uploads {c}) (upload_claim c)"
  by (intro withinI, elim upload_claim_cases) (auto simp: uploads_def mirrored_put)

lemma upload_claim_ok: "upload_claim c t = (Inr u, t') \<Longrightarrow> mirrored c t'"
  by (elim upload_claim_cases) (auto simp: mirrored_put)

lemma client_upload_uploads: "client_upload_claim retries c n = (r, n') \<Longrightarrow> uploads {c} (team n) (team n')"
  unfolding client_upload_claim_def by (rule post_frame [OF uploads.io_frame_axioms upload_claim_uploads])

lemma client_upload_ok: "client_upload_claim retries c n = (Inr u, n') \<Longrightarrow> mirrored c (team n')"
  unfolding client_upload_claim_def using post_answer [OF uploads.io_frame_axioms upload_claim_uploads] upload_claim_ok by blast

section \<open>The requests of a run\<close>

definition failed_ids :: "upload_tally \<Rightarrow> claim_id set" where
  "failed_ids s = claim_id ` set (queued_claims (failed s))"

lemma retain_failed: "failed_ids (retain_failed_claim c d s) = insert (claim_id c) (failed_ids s)"
  by (auto simp: failed_ids_def retain_failed_claim_def)

lemma claim_failed_ids:
  "failed_ids s \<subseteq> failed_ids (claim_failed c d e s)" "d \<Longrightarrow> claim_id c \<in> failed_ids (claim_failed c d e s)"
  unfolding claim_failed_def by (auto simp: retain_failed failed_ids_def split: upload_error_kind.splits)
    (auto simp: retain_failed_claim_def)

lemma send_claims_outcome:
  "send_claims retries durable cs (acks, s) n = (r, n') \<Longrightarrow> distinct (map claim_id cs) \<Longrightarrow>
   \<exists>acks' s'. r = Inr (acks', s') \<and> home n' = home n \<and> uploads (set cs) (team n) (team n') \<and> failed_ids s \<subseteq> failed_ids s'
     \<and> set acks' \<subseteq> set acks \<union> {c \<in> set cs. mirrored c (team n')}
     \<and> (\<forall>c \<in> set cs. claim_id c \<in> durable \<longrightarrow> claim_id c \<in> failed_ids s' \<or> mirrored c (team n'))"
proof (induction cs arbitrary: acks s n)
  case Nil
  then show ?case by (auto simp: return_io_def intro: uploads.frame_refl)
next
  case (Cons c cs)
  obtain q n1 where q: "client_upload_claim retries c n = (q, n1)" by fastforce
  let ?s = "case q of Inr _ \<Rightarrow> (acknowledge acks c, s) | Inl e \<Rightarrow> (acks, claim_failed c (claim_id c \<in> durable) e s)"
  have rest: "send_claims retries durable cs ?s n1 = (r, n')"
    using Cons.prems(1) q by (simp add: bind_io_def attempt_io_def)
  have ids: "distinct (map claim_id cs)" "claim_id c \<notin> claim_id ` set cs" using Cons.prems(2) by auto
  obtain acks1 s1 where s1: "?s = (acks1, s1)" by fastforce
  obtain acks' s' where o: "r = Inr (acks', s')" "home n' = home n1" "uploads (set cs) (team n1) (team n')" "failed_ids s1 \<subseteq> failed_ids s'"
      "set acks' \<subseteq> set acks1 \<union> {c \<in> set cs. mirrored c (team n')}"
      "\<forall>c \<in> set cs. claim_id c \<in> durable \<longrightarrow> claim_id c \<in> failed_ids s' \<or> mirrored c (team n')"
    using Cons.IH [OF rest [unfolded s1] ids(1)] by blast
  have home: "home n1 = home n" using q post_home unfolding client_upload_claim_def by blast
  have up: "uploads {c} (team n) (team n1)" using client_upload_uploads [OF q] .
  have later: "mirrored c (team n')" if "mirrored c (team n1)" using o(3) that ids(2) unfolding uploads_def by blast
  have all: "uploads (set (c # cs)) (team n) (team n')"
    using uploads.frame_trans [OF uploads_mono [OF up, of "set (c # cs)"] uploads_mono [OF o(3), of "set (c # cs)"]] by auto
  have now: "failed_ids s \<subseteq> failed_ids s1" "set acks1 \<subseteq> set acks \<union> (if \<exists>u. q = Inr u then {c} else {})"
    "claim_id c \<in> durable \<longrightarrow> claim_id c \<in> failed_ids s1 \<or> (\<exists>u. q = Inr u)"
    using s1 by (auto simp: acknowledge_def split: sum.splits intro: subsetD [OF claim_failed_ids(1)] claim_failed_ids(2))
  have ok: "mirrored c (team n')" if "q = Inr u" for u using client_upload_ok q that later by blast
  have "set acks' \<subseteq> set acks \<union> {x \<in> set (c # cs). mirrored x (team n')}" using o(5) now(2) ok by (auto split: if_splits)
  moreover have "\<forall>x \<in> set (c # cs). claim_id x \<in> durable \<longrightarrow> claim_id x \<in> failed_ids s' \<or> mirrored x (team n')"
    using o(4,6) now(3) ok by auto
  ultimately show ?case using o(1,2,4) home all now(1) by (intro exI [of _ acks'] exI [of _ s']) auto
qed

text \<open>What makes a retirement admissible: every carrier is carried on by confirmed claims.\<close>

definition knowledge_carried :: "(nat \<Rightarrow> claim list option) \<Rightarrow> consolidation_delivery list \<Rightarrow> claim set \<Rightarrow> consolidation_delivery \<Rightarrow> bool" where
  "knowledge_carried views groups C g \<longleftrightarrow> carriers g \<noteq> []
     \<and> (\<exists>k local acks. views k = Some local \<and> set acks \<subseteq> C \<and> (\<forall>x \<in> set (carriers g). carried groups acks local x))"

lemma knowledge_carried_mono: "knowledge_carried views groups C g \<Longrightarrow> C \<subseteq> C' \<Longrightarrow> knowledge_carried views groups C' g"
  unfolding knowledge_carried_def by (meson order_trans)

lemma up_call_file: "up_call h = (r, h') \<Longrightarrow> queue_file h' = queue_file h"
  by (auto simp: up_call_def split: list.splits if_splits)

text \<open>What a round sees; looking at it changes neither the queue nor the team.\<close>

lemma round_view_cases:
  assumes "round_view views groups k n = (r, n')"
  obtains (error) e where "r = Inl e" "team n' = team n" "queue_file (home n') = queue_file (home n)"
  | (seen) v where "r = Inr v" "team n' = team n" "queue_file (home n') = queue_file (home n)" "related_ids groups = {} \<or> v = views k"
  using assms unfolding round_view_def
  by (auto simp: at_queue_def bind_io_def return_io_def split: if_splits prod.splits sum.splits option.splits dest!: up_call_file)

lemma ready_claims_carried:
  assumes "c \<in> set (ready_claims view groups acks remaining)" "related_ids groups = {} \<or> view = views k" "g \<in> set groups" "retired g = c"
  shows "knowledge_carried views groups (set acks) g"
proof -
  have "claim_id c \<in> related_ids groups" using assms(3,4) by (auto simp: related_ids_def)
  then obtain local where "views k = Some local" "ready c groups acks local"
    using assms(1,2) by (cases "views k") (auto simp: ready_claims_def split: option.splits)
  then show ?thesis using ready_carried [OF _ assms(3,4)] unfolding knowledge_carried_def by blast
qed

text \<open>What a delivery has done: also when it ended with an error, which leaves the queue to the next run.\<close>

definition delivery :: "(nat \<Rightarrow> claim list option) \<Rightarrow> consolidation_delivery list \<Rightarrow> claim_id set \<Rightarrow> claim list \<Rightarrow> claim list \<times> upload_tally
    \<Rightarrow> upload_error + claim list \<times> claim list \<times> upload_tally \<Rightarrow> team_store \<Rightarrow> team_store \<Rightarrow> bool" where
  "delivery views groups durable remaining before_it r t t' \<longleftrightarrow> (case before_it of (acks, s) \<Rightarrow>
     uploads (set remaining) t t'
     \<and> (\<forall>g \<in> set groups. retired g \<in> set remaining \<longrightarrow> mirrored (retired g) t' \<longrightarrow> mirrored (retired g) t
          \<or> knowledge_carried views groups (set acks \<union> {c \<in> set remaining. mirrored c t'}) g)
     \<and> (\<forall>left acks' s'. r = Inr (left, acks', s') \<longrightarrow> failed_ids s \<subseteq> failed_ids s'
          \<and> (\<forall>c \<in> set remaining. claim_id c \<in> durable \<longrightarrow> c \<in> set left \<or> claim_id c \<in> failed_ids s' \<or> mirrored c t')))"

lemma delivery_stops:
  "delivery views groups durable remaining s (Inl e) t t" "delivery views groups durable remaining (acks, s') (Inr (remaining, acks, s')) t t"
  by (cases s) (auto simp: delivery_def intro: uploads.frame_refl)

lemma delivery_step:
  assumes rs: "set rs \<subseteq> set remaining" "inj_on claim_id (set remaining)"
    and carried: "\<And>g. g \<in> set groups \<Longrightarrow> retired g \<in> set rs \<Longrightarrow> knowledge_carried views groups (set acks) g"
    and one: "uploads (set rs) t t1" "failed_ids s \<subseteq> failed_ids s1" "set acks1 \<subseteq> set acks \<union> {c \<in> set rs. mirrored c t1}"
      "\<forall>c \<in> set rs. claim_id c \<in> durable \<longrightarrow> claim_id c \<in> failed_ids s1 \<or> mirrored c t1"
    and rest: "delivery views groups durable (filter (\<lambda>c. c \<notin> set rs) remaining) (acks1, s1) r t1 t'"
  shows "delivery views groups durable remaining (acks, s) r t t'"
proof -
  let ?rest = "filter (\<lambda>c. c \<notin> set rs) remaining"
  have two: "uploads (set ?rest) t1 t'"
    "\<forall>g \<in> set groups. retired g \<in> set ?rest \<longrightarrow> mirrored (retired g) t' \<longrightarrow> mirrored (retired g) t1
       \<or> knowledge_carried views groups (set acks1 \<union> {c \<in> set ?rest. mirrored c t'}) g"
    using rest by (simp_all add: delivery_def)
  have sub: "set ?rest \<subseteq> set remaining" by auto
  have apart: "claim_id c \<notin> claim_id ` set ?rest" if "c \<in> set rs" for c
    using inj_onD [OF rs(2)] rs(1) that by fastforce
  have sent: "mirrored c t'" if "c \<in> set rs" "mirrored c t1" for c
    using two(1) that apart [OF that(1)] unfolding uploads_def by blast
  have unsent: "mirrored c t" if "c \<in> set ?rest" "mirrored c t1" for c
    using one(1) that unfolding uploads_def by auto
  let ?C = "set acks \<union> {c \<in> set remaining. mirrored c t'}"
  have acks1: "set acks1 \<union> {c \<in> set ?rest. mirrored c t'} \<subseteq> ?C" using one(3) sent rs(1) sub by blast
  have retire: "mirrored (retired g) t \<or> knowledge_carried views groups ?C g"
    if g: "g \<in> set groups" "retired g \<in> set remaining" "mirrored (retired g) t'" for g
  proof (cases "retired g \<in> set rs")
    case True
    then show ?thesis using carried [OF g(1)] knowledge_carried_mono by blast
  next
    case False
    then have "retired g \<in> set ?rest" using g(2) by simp
    then show ?thesis using two(2) g(1,3) unsent knowledge_carried_mono [OF _ acks1] by blast
  qed
  have kept: "c \<in> set left \<or> claim_id c \<in> failed_ids s' \<or> mirrored c t'"
    if c: "r = Inr (left, acks', s')" "c \<in> set remaining" "claim_id c \<in> durable" for left acks' s' c
  proof (cases "c \<in> set rs")
    case True
    then show ?thesis using one(4) rest sent c(1,3) unfolding delivery_def by auto
  next
    case False
    then show ?thesis using rest c unfolding delivery_def by auto
  qed
  have "uploads (set remaining) t t'" using uploads.frame_trans [OF uploads_mono [OF one(1) rs(1)] uploads_mono [OF two(1) sub]] .
  moreover have "failed_ids s \<subseteq> failed_ids s'" if "r = Inr (left, acks', s')" for left acks' s'
    using one(2) rest that unfolding delivery_def by auto
  ultimately show ?thesis using retire kept unfolding delivery_def by simp
qed

lemma deliver_claims_outcome:
  assumes "deliver_claims retries views order groups durable remaining (acks, s) n = (r, n')"
    and "distinct (map claim_id remaining)" and "\<And>xs. mset (order xs) = mset xs"
  shows "queue_file (home n') = queue_file (home n) \<and> delivery views groups durable remaining (acks, s) r (team n) (team n')"
  using assms
proof (induction retries views order groups durable remaining "(acks, s)" arbitrary: acks s n rule: deliver_claims.induct)
  case (1 retries views order groups durable remaining acks s)
  note unfolded = "1.prems"(1) [unfolded deliver_claims.simps [of retries views order groups durable remaining]]
  obtain v n0 where v: "round_view views groups (length remaining) n = (v, n0)" by fastforce
  then show ?case
  proof (cases rule: round_view_cases)
    case (error e)
    then show ?thesis using unfolded v by (auto simp: bind_io_def intro: delivery_stops)
  next
    case (seen view)
    let ?rs = "ready_claims view groups acks remaining"
    show ?thesis
    proof (cases "?rs = []")
      case True
      then show ?thesis using unfolded v seen by (auto simp: bind_io_def return_io_def intro: delivery_stops)
    next
      case False
      let ?rest = "filter (\<lambda>c. c \<notin> set ?rs) remaining"
      have ord: "set (order ?rs) = set ?rs" "distinct (map claim_id (order ?rs))"
      proof -
        show "set (order ?rs) = set ?rs" using "1.prems"(3) [of ?rs] by (metis set_mset_mset)
        have "distinct (map claim_id ?rs)" using "1.prems"(2) by (simp add: ready_claims_def distinct_map_filter)
        then show "distinct (map claim_id (order ?rs))" using "1.prems"(3) [of ?rs] by (metis mset_eq_imp_distinct_iff mset_map)
      qed
      obtain q n1 where q: "send_claims retries durable (order ?rs) (acks, s) n0 = (q, n1)" by fastforce
      obtain acks1 s1 where o1: "q = Inr (acks1, s1)" "home n1 = home n0" "uploads (set ?rs) (team n0) (team n1)" "failed_ids s \<subseteq> failed_ids s1"
          "set acks1 \<subseteq> set acks \<union> {c \<in> set ?rs. mirrored c (team n1)}"
          "\<forall>c \<in> set ?rs. claim_id c \<in> durable \<longrightarrow> claim_id c \<in> failed_ids s1 \<or> mirrored c (team n1)"
        using send_claims_outcome [OF q ord(2)] unfolding ord(1) by blast
      have "deliver_claims retries views order groups durable ?rest (acks1, s1) n1 = (r, n')"
        using unfolded v seen(1) q o1(1) False by (simp add: bind_io_def Let_def)
      from "1.hyps" [OF refl False this _ "1.prems"(3)]
      have o2: "queue_file (home n') = queue_file (home n1)" "delivery views groups durable ?rest (acks1, s1) r (team n1) (team n')"
        using "1.prems"(2) by (auto simp: distinct_map_filter)
      have "delivery views groups durable remaining (acks, s) r (team n0) (team n')"
        using "1.prems"(2) ready_claims_carried [where views = views and k = "length remaining", OF _ seen(4)] ready_claims_subset
        by (intro delivery_step [OF _ _ _ o1(3-6) o2(2)]) (auto simp: distinct_map)
      then show ?thesis using o1(2) o2(1) seen(2,3) by simp
    qed
  qed
qed

section \<open>The queue file\<close>

definition queued :: "upload_queue \<Rightarrow> claim list" where
  "queued h = (case queue_file h of Some (Document p) \<Rightarrow> queued_claims p | _ \<Rightarrow> [])"

definition queue_ids :: "upload_queue \<Rightarrow> claim_id set" where
  "queue_ids h = claim_id ` set (queued h)"

definition durable_ids :: "upload_queue \<Rightarrow> claim_id set" where
  "durable_ids h = (case queue_file h of Some (Document p) \<Rightarrow> durable_claim_ids p | _ \<Rightarrow> {})"

definition queue_ok :: "upload_queue \<Rightarrow> bool" where
  "queue_ok h \<longleftrightarrow> distinct (map claim_id (queued h))"

lemma read_queue_cases:
  assumes "read_queue h = (r, h')"
  obtains (error) e where "r = Inl e" "queue_file h' = queue_file h"
  | (content) p where "r = Inr p" "queue_file h' = queue_file h" "queue_file h = Some (Document p) \<or> queue_file h = None \<and> p = no_uploads"
  using assms unfolding read_queue_def
  by (auto simp: bind_io_def get_io_def return_io_def throw_io_def split: prod.splits sum.splits option.splits yaml_file.splits dest!: up_call_file)

lemma write_or_clear_cases:
  assumes "write_or_clear p h = (r, h')"
  obtains (error) e where "r = Inl e" "queue_file h' = queue_file h"
  | (stored) "r = Inr ()" "queue_file h' = (if queued_claims p = [] \<and> queued_disputes p = [] then None else Some (Document p))"
  using assms unfolding write_or_clear_def
  by (auto simp: bind_io_def modify_io_def split: prod.splits sum.splits dest!: up_call_file)

text \<open>A change that forgets no queued claim: other tasks may add versions, the ids stay.\<close>

definition keeps_queue :: "upload_queue \<Rightarrow> upload_queue \<Rightarrow> bool" where
  "keeps_queue h h' \<longleftrightarrow> (queue_ok h \<longrightarrow> queue_ok h' \<and> queue_ids h \<subseteq> queue_ids h' \<and> durable_ids h \<inter> queue_ids h \<subseteq> durable_ids h')"

interpretation keeps_queue: io_frame keeps_queue
  unfolding keeps_queue_def by unfold_locales (simp, blast)

lemma keeps_queue_same: "queue_file h' = queue_file h \<Longrightarrow> keeps_queue h h'"
  by (simp add: keeps_queue_def queue_ok_def queue_ids_def durable_ids_def queued_def)

lemma keeps_queue_call: "within keeps_queue up_call"
  by (rule withinI) (auto intro: keeps_queue_same up_call_file)

lemma merge_claims_ids:
  "ordered_by claim_id xs \<Longrightarrow> fold merge_claim cs (groups, xs) = (groups', ys) \<Longrightarrow>
   ordered_by claim_id ys \<and> claim_id ` set xs \<subseteq> claim_id ` set ys"
proof (induction cs arbitrary: groups xs)
  case (Cons c cs)
  obtain g1 x1 where s: "merge_claim c (groups, xs) = (g1, x1)" by fastforce
  then have "ordered_by claim_id x1" "claim_id ` set xs \<subseteq> claim_id ` set x1"
    using Cons.prems(1) put_by_set [OF Cons.prems(1)] by (auto simp: merge_claim_def put_by_ordered split: option.splits if_splits)
  with Cons.IH [of x1 g1] Cons.prems(2) s show ?case by auto
qed simp

lemma merge_ids:
  assumes "inj_on claim_id (set (queued_claims p))"
  shows "distinct (map claim_id (queued_claims (merge_pending_uploads p cs ds)))"
    "claim_id ` set (queued_claims p) \<subseteq> claim_id ` set (queued_claims (merge_pending_uploads p cs ds))"
    "durable_claim_ids p \<inter> claim_id ` set (queued_claims p) \<subseteq> durable_claim_ids (merge_pending_uploads p cs ds)"
proof -
  obtain groups xs where m: "fold merge_claim cs (consolidations p, by_id claim_id (queued_claims p)) = (groups, xs)" by fastforce
  have "ordered_by claim_id xs \<and> claim_id ` set (queued_claims p) \<subseteq> claim_id ` set xs"
    using merge_claims_ids [OF by_id_ordered(1) [OF assms] m] by_id_ordered(2) [OF assms] by simp
  with m show "distinct (map claim_id (queued_claims (merge_pending_uploads p cs ds)))"
    "claim_id ` set (queued_claims p) \<subseteq> claim_id ` set (queued_claims (merge_pending_uploads p cs ds))"
    "durable_claim_ids p \<inter> claim_id ` set (queued_claims p) \<subseteq> durable_claim_ids (merge_pending_uploads p cs ds)"
    using ordered_distinct by (auto simp: merge_pending_uploads_def)
qed

lemma staged_content:
  "queued_claims (fold add_group groups p) = queued_claims p" "queued_claims (withdraw i p) = queued_claims p"
  "durable_claim_ids (fold add_group groups p) = durable_claim_ids p" "durable_claim_ids (withdraw i p) = durable_claim_ids p"
  by (induction groups arbitrary: p) (auto simp: add_group_def withdraw_def Let_def split: prod.splits)

text \<open>Writing other content keeps the queue when that content has all ids of the old one.\<close>

lemma write_keeps_queue:
  assumes "write_or_clear p h = (r, h')"
    and "queue_ok h \<Longrightarrow> distinct (map claim_id (queued_claims p)) \<and> queue_ids h \<subseteq> claim_id ` set (queued_claims p)
           \<and> durable_ids h \<inter> queue_ids h \<subseteq> durable_claim_ids p"
  shows "keeps_queue h h'"
  using assms(1)
proof (cases rule: write_or_clear_cases)
  case (error e)
  then show ?thesis by (simp add: keeps_queue_same)
next
  case stored
  show ?thesis
  proof (cases "queued_claims p = [] \<and> queued_disputes p = []")
    case True
    then have "queue_ok h'" using stored by (simp add: queue_ok_def queued_def)
    moreover have "queue_ok h \<Longrightarrow> queue_ids h = {}" using assms(2) True by auto
    ultimately show ?thesis unfolding keeps_queue_def by auto
  next
    case False
    then have "queue_file h' = Some (Document p)" using stored by simp
    then show ?thesis using assms(2) by (simp add: keeps_queue_def queue_ok_def queue_ids_def durable_ids_def queued_def)
  qed
qed

lemma stage_keeps_queue: "within keeps_queue (stage_maintainer_batch_inner client cs ds durable groups withdrawn)"
proof -
  have "within keeps_queue (bind_io (merged_with cs ds durable) (\<lambda>p. write_or_clear (fold add_group groups
      (case withdrawn of None \<Rightarrow> p | Some i \<Rightarrow> withdraw i p))))"
  proof (rule withinI)
    fix h r h'
    assume run: "bind_io (merged_with cs ds durable) (\<lambda>p. write_or_clear (fold add_group groups
      (case withdrawn of None \<Rightarrow> p | Some i \<Rightarrow> withdraw i p))) h = (r, h')"
    obtain q h1 where q: "read_queue h = (q, h1)" by fastforce
    then show "keeps_queue h h'"
    proof (cases rule: read_queue_cases)
      case (error e)
      then show ?thesis using run q by (auto simp: merged_with_def bind_io_def intro: keeps_queue_same)
    next
      case (content p)
      let ?p = "if durable then p\<lparr>durable_claim_ids := durable_claim_ids p \<union> claim_id ` set cs\<rparr> else p"
      let ?m = "merge_pending_uploads ?p cs ds"
      let ?w = "fold add_group groups (case withdrawn of None \<Rightarrow> ?m | Some i \<Rightarrow> withdraw i ?m)"
      have w: "write_or_clear ?w h1 = (r, h')" using run q content(1) by (simp add: merged_with_def bind_io_def return_io_def)
      have p: "queued h1 = queued_claims p" "durable_ids h1 = durable_claim_ids p"
        using content(2,3) by (auto simp: queued_def durable_ids_def no_uploads_def)
      have parts: "queued_claims ?w = queued_claims ?m" "durable_claim_ids ?w = durable_claim_ids ?m"
        by (auto simp: staged_content split: option.split)
      have "keeps_queue h1 h'"
      proof (rule write_keeps_queue [OF w])
        assume "queue_ok h1"
        then have "inj_on claim_id (set (queued_claims ?p))" by (simp add: queue_ok_def p distinct_map)
        from merge_ids [OF this, of cs ds] show "distinct (map claim_id (queued_claims ?w)) \<and> queue_ids h1 \<subseteq> claim_id ` set (queued_claims ?w)
            \<and> durable_ids h1 \<inter> queue_ids h1 \<subseteq> durable_claim_ids ?w"
          unfolding parts queue_ids_def p by (cases durable; simp; blast)
      qed
      then show ?thesis using keeps_queue.frame_trans [OF keeps_queue_same [OF content(2)]] by blast
    qed
  qed
  then show ?thesis unfolding stage_maintainer_batch_inner_def
    by (intro keeps_queue.within_if keeps_queue.within_return keeps_queue.within_bind [OF keeps_queue_call])
qed

section \<open>Beginning and settling a run\<close>

definition content :: "pending_maintainer_uploads \<Rightarrow> upload_queue \<Rightarrow> bool" where
  "content p h \<longleftrightarrow> queue_file h = Some (Document p) \<or> queue_file h = None \<and> p = no_uploads"

lemma contract_up_call:
  assumes "\<And>h h'. queue_file h' = queue_file h \<Longrightarrow> P h \<Longrightarrow> P h'" "\<And>h. P h \<Longrightarrow> E h"
  shows "contract P up_call E (\<lambda>_. P)"
  using assms up_call_file by (intro contractI) blast+

lemma contract_read_queue:
  assumes "\<And>h h'. queue_file h' = queue_file h \<Longrightarrow> P h \<Longrightarrow> P h'"
  shows "contract P read_queue P (\<lambda>p h. P h \<and> content p h)"
  using assms by (intro contractI) (auto elim!: read_queue_cases simp: content_def)

lemma keeps_queue_file: "queue_file h' = queue_file h \<Longrightarrow> keeps_queue h0 h \<Longrightarrow> keeps_queue h0 h'"
  by (auto intro: keeps_queue.frame_trans keeps_queue_same)

lemma refresh_claims_ids: "map claim_id (fst (refresh_claims related local groups cs)) = map claim_id cs"
proof (induction cs arbitrary: groups)
  case (Cons c cs)
  show ?case
  proof (cases "if claim_id c \<in> related then get_by claim_id (claim_id c) local else None")
    case None
    then show ?thesis using Cons.IH [of groups] by (simp add: case_prod_unfold)
  next
    case (Some actual)
    then have "claim_id actual = claim_id c" by (auto simp: get_by_def dest: find_SomeD split: if_splits)
    then show ?thesis using Some Cons.IH [of "supersede groups actual"] by (simp add: case_prod_unfold)
  qed
qed simp

lemma refresh_uploads_content:
  "map claim_id (queued_claims (refresh_uploads local p)) = map claim_id (queued_claims p)"
  "durable_claim_ids (refresh_uploads local p) = durable_claim_ids p" "queued_disputes (refresh_uploads local p) = queued_disputes p"
  using refresh_claims_ids [of "related_ids (consolidations p)" local "consolidations p" "queued_claims p"]
  by (auto simp: refresh_uploads_def split: prod.split)

lemma contract_refresh:
  "contract (\<lambda>h. keeps_queue h0 h \<and> content q h) (write_or_clear (refresh_uploads local q)) (keeps_queue h0)
     (\<lambda>_ h. keeps_queue h0 h \<and> (queued_claims (refresh_uploads local q) = [] \<and> queued_disputes (refresh_uploads local q) = []
        \<or> queue_file h = Some (Document (refresh_uploads local q))))"
proof -
  let ?q = "refresh_uploads local q"
  have ids: "claim_id ` set (queued_claims ?q) = claim_id ` set (queued_claims q)"
    using arg_cong [OF refresh_uploads_content(1), of set local q] by simp
  have q: "queued h = queued_claims q" "durable_ids h = durable_claim_ids q" if "content q h" for h
    using that by (auto simp: content_def queued_def durable_ids_def no_uploads_def)
  have keep: "keeps_queue h h'" if "content q h" "write_or_clear ?q h = (r, h')" for h r h'
    using that(2) by (rule write_keeps_queue) (use q [OF that(1)] ids in \<open>auto simp: queue_ok_def queue_ids_def refresh_uploads_content\<close>)
  have more: "keeps_queue h0 h'" if "keeps_queue h0 h \<and> content q h" "write_or_clear ?q h = (r, h')" for h r h'
    using that keep keeps_queue.frame_trans by blast
  have stored: "queued_claims ?q = [] \<and> queued_disputes ?q = [] \<or> queue_file h' = Some (Document ?q)" if "write_or_clear ?q h = (Inr u, h')" for h u h'
    using that by (cases rule: write_or_clear_cases) auto
  show ?thesis by (rule contractI, rule more, assumption+, rule conjI [OF more stored], assumption+)
qed

lemma begin_upload_contract:
  "contract (keeps_queue h0) (begin_upload view) (keeps_queue h0) (\<lambda>a h. keeps_queue h0 h \<and> (\<forall>p. a = Some p \<longrightarrow> queue_file h = Some (Document p)))"
proof -
  let ?K = "keeps_queue h0"
  have call: "contract ?K up_call ?K (\<lambda>_. ?K)" by (rule contract_up_call [OF keeps_queue_file])
  have call_p: "contract (\<lambda>h. ?K h \<and> content p h) up_call ?K (\<lambda>_ h. ?K h \<and> content p h)" for p
    by (rule contract_up_call) (auto simp: content_def intro: keeps_queue_file)
  have read: "contract ?K read_queue ?K (\<lambda>p h. ?K h \<and> content p h)" by (rule contract_read_queue [OF keeps_queue_file])
  let ?done = "\<lambda>a h. ?K h \<and> (queued_claims a = [] \<and> queued_disputes a = [] \<or> queue_file h = Some (Document a))"
  have ret: "contract (\<lambda>h. ?K h \<and> content p h) (return_io p) ?K ?done" for p
    by (rule contract_return) (auto simp: content_def no_uploads_def)
  have fresh: "contract ?K (bind_io up_call (\<lambda>_. bind_io up_call (\<lambda>_. bind_io read_queue (\<lambda>q.
      let q' = refresh_uploads local q in bind_io (write_or_clear q') (\<lambda>_. return_io q'))))) ?K ?done" for local
    unfolding Let_def
    by (intro contract_bind [OF call] contract_bind [OF read] contract_bind [OF contract_refresh] contract_return) simp
  have mid: "contract (\<lambda>h. ?K h \<and> content p h) (if consolidations p = [] then return_io p else bind_io up_call (\<lambda>_. case view of
      None \<Rightarrow> return_io p
    | Some local \<Rightarrow> bind_io up_call (\<lambda>_. bind_io up_call (\<lambda>_. bind_io read_queue (\<lambda>q.
        let q' = refresh_uploads local q in bind_io (write_or_clear q') (\<lambda>_. return_io q')))))) ?K ?done" for p
    by (intro contract_if ret contract_bind [OF call_p] contract_option contract_pre [OF fresh]) simp
  have last: "contract (?done a) (return_io (if queued_claims a = [] \<and> queued_disputes a = [] then None else Some a)) ?K
      (\<lambda>a h. ?K h \<and> (\<forall>p. a = Some p \<longrightarrow> queue_file h = Some (Document p)))" for a
    by (rule contract_return) auto
  have none: "contract (\<lambda>h. ?K h \<and> content p h) (return_io None) ?K (\<lambda>a h. ?K h \<and> (\<forall>p. a = Some p \<longrightarrow> queue_file h = Some (Document p)))" for p
    by (rule contract_return) auto
  show ?thesis unfolding begin_upload_def
    by (rule contract_bind [OF call], rule contract_bind [OF call], rule contract_bind [OF read], rule contract_if, rule none,
        rule contract_bind [OF mid last])
qed

text \<open>Settling takes a claim out of the queue only if the queued version was attempted and did not fail.\<close>

lemma reconcile_claims:
  "fold (reconcile_claim fails) as (xs, d) = (ys, d') \<Longrightarrow> ordered_by claim_id xs \<Longrightarrow>
   ordered_by claim_id ys \<and> (\<forall>x \<in> set xs. x \<in> set ys \<or> x \<in> set as \<and> claim_id x \<notin> claim_id ` set (queued_claims fails))"
proof (induction as arbitrary: xs d)
  case Nil
  then show ?case by simp
next
  case (Cons a as)
  obtain x1 d1 where s: "reconcile_claim fails a (xs, d) = (x1, d1)" by fastforce
  have inj: "inj_on claim_id (set xs)" using ordered_by_inj [OF Cons.prems(2)] .
  have o: "ordered_by claim_id x1"
    using s Cons.prems(2) by (auto simp: reconcile_claim_def put_by_ordered drop_by_ordered split: if_splits option.splits)
  have step: "x \<in> set x1 \<or> x = a \<and> claim_id a \<notin> claim_id ` set (queued_claims fails)" if "x \<in> set xs" for x
  proof (cases "claim_id x = claim_id a")
    case True
    then have "get_by claim_id (claim_id a) xs = Some x" using that get_by_iff [OF inj] by blast
    then show ?thesis using s that put_by_set [OF Cons.prems(2), of a]
      by (auto simp: reconcile_claim_def drop_by_set split: if_splits)
  next
    case False
    then show ?thesis using s that put_by_set [OF Cons.prems(2), of a]
      by (auto simp: reconcile_claim_def drop_by_set split: if_splits)
  qed
  have "ordered_by claim_id ys" "\<forall>x \<in> set x1. x \<in> set ys \<or> x \<in> set as \<and> claim_id x \<notin> claim_id ` set (queued_claims fails)"
    using Cons.IH [of x1 d1] Cons.prems(1) s o by auto
  with step show ?case by (metis list.set_intros)
qed

lemma settle_upload_outcome:
  assumes "settle_upload attempted fails h = (r, h')" "queue_ok h" "x \<in> set (queued h)"
  shows "x \<in> set (queued h') \<or> x \<in> set (queued_claims attempted) \<and> claim_id x \<notin> claim_id ` set (queued_claims fails)"
proof -
  obtain p where p: "queue_file h = Some (Document p)" "x \<in> set (queued_claims p)"
    using assms(3) unfolding queued_def by (cases "queue_file h") (auto split: yaml_file.splits)
  have stay: "x \<in> set (queued h')" if "queue_file h' = queue_file h" using that p by (simp add: queued_def)
  obtain q1 h1 where c1: "up_call h = (q1, h1)" by fastforce
  obtain q2 h2 where c2: "read_queue h1 = (q2, h2)" by fastforce
  have f: "queue_file h1 = queue_file h" "queue_file h2 = queue_file h"
    using up_call_file [OF c1] c2 by (auto elim!: read_queue_cases)
  show ?thesis
  proof (cases "\<exists>u v. q1 = Inr u \<and> q2 = Inr v")
    case False
    then have "queue_file h' = queue_file h"
      using assms(1) c1 c2 f unfolding settle_upload_def by (cases q1; cases q2) (auto simp: bind_io_def)
    then show ?thesis using stay by blast
  next
    case True
    have q2: "q2 = Inr p" using True c2 f(1) p(1) by (auto elim!: read_queue_cases)
    let ?n = "reconcile_pending_uploads_after_attempt p attempted fails"
    have w: "write_or_clear ?n h2 = (r, h')" using assms(1) c1 c2 True q2 unfolding settle_upload_def by (auto simp: bind_io_def)
    obtain ys d where ys: "fold (reconcile_claim fails) (queued_claims attempted) (by_id claim_id (queued_claims p), durable_claim_ids p) = (ys, d)"
      by fastforce
    have inj: "inj_on claim_id (set (queued_claims p))" using assms(2) p(1) by (simp add: queue_ok_def queued_def distinct_map)
    have out: "x \<in> set ys \<or> x \<in> set (queued_claims attempted) \<and> claim_id x \<notin> claim_id ` set (queued_claims fails)"
      using reconcile_claims [OF ys by_id_ordered(1) [OF inj]] by_id_ordered(2) [OF inj] p(2) by blast
    have n: "queued_claims ?n = ys" using ys by (auto simp: reconcile_pending_uploads_after_attempt_def split: prod.splits)
    from w show ?thesis
    proof (cases rule: write_or_clear_cases)
      case (error e)
      then show ?thesis using stay f(2) by simp
    next
      case stored
      then show ?thesis using out n by (auto simp: queued_def split: if_splits)
    qed
  qed
qed

section \<open>A whole run\<close>

lemma report_agents: "post False status (\<lambda>_. report_dispute d) retries n = (r, n') \<Longrightarrow> agents (team n') = agents (team n)"
  using post_frame [OF same.io_frame_axioms within_report [OF agents_by_disputes.untouched_axioms]] by (fastforce simp: same_def)

lemma dispute_failed_ids: "failed_ids (dispute_failed d e s) = failed_ids s"
  by (simp add: dispute_failed_def failed_ids_def retain_failed_dispute_def split: upload_error_kind.split)

lemma deliver_disputes_outcome:
  "deliver_disputes retries status ds s n = (r, n') \<Longrightarrow>
   \<exists>s'. r = Inr s' \<and> home n' = home n \<and> agents (team n') = agents (team n) \<and> failed_ids s' = failed_ids s"
proof (induction ds arbitrary: s n)
  case (Cons d ds)
  obtain q n1 where q: "post False status (\<lambda>_. report_dispute d) retries n = (q, n1)" by fastforce
  have "deliver_disputes retries status ds (case q of Inr _ \<Rightarrow> s | Inl e \<Rightarrow> dispute_failed d e s) n1 = (r, n')"
    using Cons.prems q by (simp add: bind_io_def attempt_io_def)
  from Cons.IH [OF this] post_home [OF q] report_agents [OF q] show ?case
    by (cases q) (simp_all add: dispute_failed_ids)
qed (auto simp: return_io_def)

lemma retain_remaining: "failed_ids (fold (\<lambda>c. retain_failed_claim c True) cs s) = claim_id ` set cs \<union> failed_ids s"
  by (induction cs arbitrary: s) (auto simp: retain_failed)

text \<open>Batches that other tasks stage while the requests are under way, some of which may fail.\<close>

definition stagings :: "(claim list \<times> dispute list \<times> bool \<times> consolidation_delivery list \<times> policy_id option) list \<Rightarrow> upload_queue \<Rightarrow> upload_queue" where
  "stagings bs h = fold (\<lambda>(cs, ds, durable, groups, withdrawn) h. snd (stage_maintainer_batch_inner True cs ds durable groups withdrawn h)) bs h"

lemma stage_step: "keeps_queue h (snd (stage_maintainer_batch_inner client cs ds durable groups withdrawn h))"
  by (rule withinD [OF stage_keeps_queue prod.collapse [symmetric]])

lemma stagings_keep: "keeps_queue h (stagings bs h)"
proof (induction bs arbitrary: h)
  case Nil
  then show ?case by (simp add: stagings_def keeps_queue.frame_refl)
next
  case (Cons b bs)
  then show ?case using keeps_queue.frame_trans [OF stage_step Cons.IH]
    by (cases b) (simp add: stagings_def)
qed

lemma run_start:
  assumes "queue_ok h0" "h = snd (stage_maintainer_batch_inner True cs ds durable [] None h0)"
  shows "queue_ok h" "keeps_queue h (snd (begin_upload view h))"
proof -
  show "queue_ok h" using stage_step [of h0] assms unfolding keeps_queue_def by blast
  obtain r b where b: "begin_upload view h = (r, b)" by fastforce
  then show "keeps_queue h (snd (begin_upload view h))"
    using contract_ok [OF begin_upload_contract] contract_err [OF begin_upload_contract] keeps_queue.frame_refl
    by (cases r) (metis snd_conv)+
qed

text \<open>
  The queue a run settles: what the run up to that point, and the tasks beside it, have left in it.  A run that ends
  before it settles leaves the queue like that.
\<close>

definition queue_at_settling :: "upload_setting \<Rightarrow> claim list \<Rightarrow> dispute list \<Rightarrow> bool \<Rightarrow> upload_queue net \<Rightarrow> upload_queue" where
  "queue_at_settling u cs ds durable n = home (snd
     (bind_io (at_queue (stage_maintainer_batch_inner True cs ds durable [] None)) (\<lambda>_.
      bind_io (at_queue (begin_upload (view_at_start u))) (\<lambda>a. case a of
        None \<Rightarrow> return_io ()
      | Some attempted \<Rightarrow>
          bind_io (deliver_claims (request_retries u) (view_in_round u) (claim_order u) (consolidations attempted) (durable_claim_ids attempted)
                     (queued_claims attempted) (acknowledgements attempted, no_tally)) (\<lambda>(remaining, acks, s).
          bind_io (deliver_disputes (request_retries u) (report_status u) (dispute_order u (queued_disputes attempted))
                     (fold (\<lambda>c. retain_failed_claim c True) remaining s)) (\<lambda>_.
          modify_io (home_update (meanwhile u)))))) n))"

text \<open>What the run does to the queue and the team; \<open>b\<close> is the queue the delivery starts from.\<close>

lemma upload_run_cases:
  assumes "upload_maintainer_batch_inner u True cs ds durable n = (r, n')"
    and "h = snd (stage_maintainer_batch_inner True cs ds durable [] None (home n))" "b = snd (begin_upload (view_at_start u) h)"
    and "queue_ok (home n)" "\<And>xs. mset (claim_order u xs) = mset xs"
  obtains (early) "team n' = team n" "home n' = h \<or> home n' = b" "queue_at_settling u cs ds durable n = home n'"
  | (unfinished) p e where "queue_file b = Some (Document p)" "distinct (map claim_id (queued_claims p))"
      "delivery (view_in_round u) (consolidations p) (durable_claim_ids p) (queued_claims p) (acknowledgements p, no_tally) (Inl e) (team n) (team n')"
      "queue_file (home n') = queue_file b" "queue_at_settling u cs ds durable n = home n'"
  | (run) p left acks' s' s q t1 h1 where "queue_file b = Some (Document p)" "distinct (map claim_id (queued_claims p))"
      "delivery (view_in_round u) (consolidations p) (durable_claim_ids p) (queued_claims p) (acknowledgements p, no_tally)
         (Inr (left, acks', s')) (team n) t1"
      "agents (team n') = agents t1" "failed_ids s = claim_id ` set left \<union> failed_ids s'" "queue_file h1 = queue_file b"
      "settle_upload (p\<lparr>acknowledgements := acks'\<rparr>) (failed s) (meanwhile u h1) = (q, home n')"
      "queue_at_settling u cs ds durable n = meanwhile u h1"
proof -
  obtain r1 where st: "stage_maintainer_batch_inner True cs ds durable [] None (home n) = (r1, h)"
    using assms(2) by (metis prod.collapse)
  obtain r2 where be: "begin_upload (view_at_start u) h = (r2, b)" using assms(3) by (metis prod.collapse)
  show ?thesis
  proof (cases "\<exists>p. r1 = Inr () \<and> r2 = Inr (Some p)")
    case False
    then have "team n' = team n" "home n' = h \<or> home n' = b" "queue_at_settling u cs ds durable n = home n'"
      using assms(1) st be unfolding upload_maintainer_batch_inner_def queue_at_settling_def
      by (cases r1; auto simp: at_queue_def bind_io_def return_io_def split: prod.splits sum.splits option.splits)+
    then show ?thesis by (rule early)
  next
    case True
    then obtain p where p: "r1 = Inr ()" "r2 = Inr (Some p)" by blast
    note ok = run_start(1) [OF assms(4,2)]
    have b: "queue_file b = Some (Document p)" "keeps_queue h b"
      using contract_ok [OF begin_upload_contract [of h]] be p(2) keeps_queue.frame_refl by blast+
    then have dist: "distinct (map claim_id (queued_claims p))" using ok by (simp add: keeps_queue_def queue_ok_def queued_def)
    obtain q1 n1 where d: "deliver_claims (request_retries u) (view_in_round u) (claim_order u) (consolidations p) (durable_claim_ids p)
        (queued_claims p) (acknowledgements p, no_tally) (n\<lparr>home := b\<rparr>) = (q1, n1)" by fastforce
    note out = deliver_claims_outcome [OF d dist assms(5)]
    show ?thesis
    proof (cases q1)
      case (Inl e)
      have "n' = n1" "queue_at_settling u cs ds durable n = home n1"
        using assms(1) st be p d Inl unfolding upload_maintainer_batch_inner_def queue_at_settling_def
        by (auto simp: at_queue_def bind_io_def)
      then show ?thesis using out Inl by (intro unfinished [OF b(1) dist]) auto
    next
      case (Inr y)
      obtain left acks' s' where q1: "q1 = Inr (left, acks', s')" using Inr by (cases y) auto
      obtain q2 n2 where e: "deliver_disputes (request_retries u) (report_status u) (dispute_order u (queued_disputes p))
          (fold (\<lambda>c. retain_failed_claim c True) left s') n1 = (q2, n2)" by fastforce
      obtain s where s: "q2 = Inr s" "home n2 = home n1" "agents (team n2) = agents (team n1)" "failed_ids s = claim_id ` set left \<union> failed_ids s'"
        using deliver_disputes_outcome [OF e] by (auto simp: retain_remaining)
      obtain q h' where f: "settle_upload (p\<lparr>acknowledgements := acks'\<rparr>) (failed s) (meanwhile u (home n1)) = (q, h')" by fastforce
      have "team n' = team n2" "home n' = h'" "queue_at_settling u cs ds durable n = meanwhile u (home n1)"
        using assms(1) st be p d q1 e s(1,2) f unfolding upload_maintainer_batch_inner_def queue_at_settling_def
        by (auto simp: at_queue_def bind_io_def return_io_def modify_io_def split: sum.splits)
      then show ?thesis using run [OF b(1) dist _ _ s(4), of acks' "team n1" "home n1" q] out q1 s(3) f by simp
    qed
  qed
qed

text \<open>
  Property C29.  No upload run loses a durable claim.  Take any claim that is queued as durable once the run's own
  claims are in the queue.  Whatever link and disk do, in whatever order the requests take effect, and whatever
  other tasks stage meanwhile: a version of the claim is in the queue when the run settles it, and this very version is
  still queued when the run ends, or it is mirrored at the Maintainer.
\<close>

theorem durable_claim_is_delivered_or_queued:
  assumes "upload_maintainer_batch_inner u True cs ds durable n = (r, n')" and "meanwhile u = stagings bs"
    and "queue_ok (home n)" and "\<And>xs. mset (claim_order u xs) = mset xs"
    and "h = snd (stage_maintainer_batch_inner True cs ds durable [] None (home n))"
    and "i \<in> durable_ids h \<inter> queue_ids h"
  shows "\<exists>c \<in> set (queued (queue_at_settling u cs ds durable n)). claim_id c = i
    \<and> (c \<in> set (queued (home n')) \<or> mirrored c (team n'))"
proof -
  note start = run_start(1) [OF assms(3,5)] run_start(2) [OF assms(3,5), of "view_at_start u"]
  let ?b = "snd (begin_upload (view_at_start u) h)"
  have b: "queue_ok ?b" "i \<in> queue_ids ?b" "i \<in> durable_ids ?b" using start assms(6) unfolding keeps_queue_def by auto
  have same: "queue_ids h1 = queue_ids ?b" "durable_ids h1 = durable_ids ?b" "queue_ok h1 = queue_ok ?b" if "queue_file h1 = queue_file ?b" for h1
    using that by (simp_all add: queue_ids_def durable_ids_def queued_def queue_ok_def)
  have kept: ?thesis if "i \<in> queue_ids (home n')" "queue_at_settling u cs ds durable n = home n'"
    using that by (auto simp: queue_ids_def)
  from assms(1,5) refl assms(3,4) show ?thesis
  proof (cases rule: upload_run_cases)
    case early
    then have "i \<in> queue_ids (home n')" using b(2) assms(6) by (metis IntD2)
    then show ?thesis using early(3) by (rule kept)
  next
    case (unfinished p e)
    then have "i \<in> queue_ids (home n')" using same(1) b(2) by metis
    then show ?thesis using unfinished(5) by (rule kept)
  next
    case (run p left acks' s' s q t1 h1)
    let ?m = "stagings bs h1"
    have m: "queue_ok ?m" "i \<in> queue_ids ?m" using stagings_keep [of h1 bs] b same [OF run(6)] unfolding keeps_queue_def by auto
    have p: "i \<in> durable_claim_ids p" using b(3) run(1) by (auto simp: durable_ids_def)
    obtain x where x: "x \<in> set (queued ?m)" "claim_id x = i" using m(2) by (auto simp: queue_ids_def)
    have "x \<in> set (queued (home n')) \<or> x \<in> set (queued_claims p) \<and> i \<notin> failed_ids s"
      using settle_upload_outcome [OF run(7) [unfolded assms(2)] m(1) x(1)] x(2) by (simp add: failed_ids_def)
    moreover have "mirrored x (team n')" if "x \<in> set (queued_claims p)" "i \<notin> failed_ids s"
    proof -
      have "mirrored x t1" using that run(3,5) p x(2) unfolding delivery_def by auto
      then show ?thesis using run(4) by (simp add: mirrored_def)
    qed
    ultimately show ?thesis using x run(8) assms(2) by auto
  qed
qed

text \<open>
  Property C30.  Knowledge is never retired before what carries it on is confirmed.  If a run makes the retirement of
  a consolidation group reach the Maintainer, then every claim that carries the retired knowledge was confirmed by
  the Maintainer first, or was consolidated again into such claims: the confirmations come from earlier runs or are
  mirrored at the end of this one.
\<close>

theorem retirement_waits_for_its_carriers:
  assumes "upload_maintainer_batch_inner u True cs ds durable n = (r, n')"
    and "queue_ok (home n)" and "\<And>xs. mset (claim_order u xs) = mset xs"
    and "b = snd (begin_upload (view_at_start u) (snd (stage_maintainer_batch_inner True cs ds durable [] None (home n))))"
    and "queue_file b = Some (Document p)" and "g \<in> set (consolidations p)"
    and "\<not> mirrored (retired g) (team n)" and "mirrored (retired g) (team n')"
  shows "knowledge_carried (view_in_round u) (consolidations p)
    (set (acknowledgements p) \<union> {c \<in> set (queued_claims p). mirrored c (team n')}) g"
proof -
  have from_delivery: ?thesis
    if d: "delivery (view_in_round u) (consolidations p) (durable_claim_ids p) (queued_claims p) (acknowledgements p, no_tally) q (team n) t1"
      and t1: "agents (team n') = agents t1" for q t1
  proof -
    have same: "mirrored c (team n') \<longleftrightarrow> mirrored c t1" for c using t1 by (simp add: mirrored_def)
    have up: "uploads (set (queued_claims p)) (team n) t1"
      and retire: "\<forall>g \<in> set (consolidations p). retired g \<in> set (queued_claims p) \<longrightarrow> mirrored (retired g) t1 \<longrightarrow> mirrored (retired g) (team n)
        \<or> knowledge_carried (view_in_round u) (consolidations p) (set (acknowledgements p) \<union> {c \<in> set (queued_claims p). mirrored c t1}) g"
      using d by (simp_all add: delivery_def)
    have g: "mirrored (retired g) t1" using assms(8) by (simp add: same)
    then have "retired g \<in> set (queued_claims p)" using up assms(7) unfolding uploads_def by blast
    then show ?thesis using retire g assms(6,7) unfolding same by blast
  qed
  from assms(1) refl assms(4,2,3) show ?thesis
  proof (cases rule: upload_run_cases)
    case early
    then show ?thesis using assms(7,8) by simp
  next
    case (unfinished q e)
    then show ?thesis using assms(5) from_delivery by simp
  next
    case (run q left acks' s' s a t1 h1)
    then show ?thesis using assms(5) from_delivery [OF _ run(4)] by simp
  qed
qed

end
