(* ===== verification/Upload_Demo.thy ===== *)
theory Upload_Demo
  imports Upload_Properties Demo
begin

text \<open>
  An agent merged the claim \<open>old\<close> into \<open>new\<close>: the queue holds the retirement of the one and the other, which
  carries its knowledge on.  The theorems on uploads are applied to a run on this queue.
\<close>

definition demo_old :: "claim_status \<Rightarrow> claim" where
  "demo_old st = \<lparr>claim_id = Ident ''c1'', claim_name = ''old'', claim_statement = ''x'', claim_scope = ''s'', claim_holder = demo_ann,
     claim_confidence = Medium, claim_status = st, claim_created_at = 1, claim_updated_at = None, source_claim_ids = [], evidence_summary = ''e''\<rparr>"

definition demo_new :: claim where
  "demo_new = \<lparr>claim_id = Ident ''c2'', claim_name = ''new'', claim_statement = ''y'', claim_scope = ''s'', claim_holder = demo_ann,
     claim_confidence = Medium, claim_status = Active, claim_created_at = 2, claim_updated_at = None, source_claim_ids = [], evidence_summary = ''e''\<rparr>"

definition demo_group :: consolidation_delivery where
  "demo_group = \<lparr>before = demo_old Active, retired = demo_old Deprecated, carriers = [demo_new]\<rparr>"

definition demo_uploads :: pending_maintainer_uploads where
  "demo_uploads = \<lparr>consolidations = [demo_group], acknowledgements = [], queued_claims = [demo_old Deprecated, demo_new],
     durable_claim_ids = {Ident ''c1'', Ident ''c2''}, queued_disputes = []\<rparr>"

definition demo_local :: "claim list" where
  "demo_local = [demo_old Deprecated, demo_new]"

definition upload_demo :: "upload_queue net" where
  "upload_demo = \<lparr>links = [], team = demo_empty, home = \<lparr>up_faults = [], queue_file = Some (Document demo_uploads)\<rparr>\<rparr>"

lemmas upload_demo_defs = demo_old_def demo_new_def demo_group_def demo_uploads_def demo_local_def upload_demo_def

lemma demo_staged: "stage_maintainer_batch_inner True [] [] False [] None (home upload_demo) = (Inr (), home upload_demo)"
  by (simp add: stage_maintainer_batch_inner_def upload_demo_defs up_call_def run_io merged_with_def read_queue_def
      merge_pending_uploads_def by_id_def write_or_clear_def less_ident_def)

lemma demo_begun: "begin_upload (Some demo_local) (home upload_demo) = (Inr (Some demo_uploads), home upload_demo)"
  by (simp add: begin_upload_def upload_demo_defs up_call_def run_io read_queue_def refresh_uploads_def related_ids_def get_by_def
      supersede_def write_or_clear_def)

text \<open>The run sends the new claim, then the retirement of the old one.\<close>

lemma demo_rounds:
  "ready_claims (Some demo_local) [demo_group] [] [demo_old Deprecated, demo_new] = [demo_new]"
  "ready_claims (Some demo_local) [demo_group] [demo_new] [demo_old Deprecated] = [demo_old Deprecated]"
  "related_ids [demo_group] \<noteq> {}" "demo_old Deprecated \<noteq> demo_new" "acknowledge [] demo_new = [demo_new]"
  by (simp_all add: ready_claims_def ready_def upload_demo_defs carrier_ready.simps related_ids_def acknowledge_def)

definition demo_team :: "claim list \<Rightarrow> team_store" where
  "demo_team cs = demo_store 0 [] [] [(''ann'', AgentDir (Some (map (\<lambda>c. (yaml_name (claim_id c), Document c)) cs)))]"

lemma demo_requests:
  "upload_claim demo_new demo_empty = (Inr (), demo_team [demo_new])"
  "upload_claim (demo_old Deprecated) (demo_team [demo_new]) = (Inr (), demo_team [demo_new, demo_old Deprecated])"
  by (simp_all add: upload_claim_def ensure_agent_registered_def put_mirror_def claims_dir_of_def demo_team_def demo_empty_def demo_store_def
      demo_new_def demo_old_def demo_ann_def run_io yaml_name_def)

lemma demo_delivered:
  "deliver_claims 0 (\<lambda>_. Some demo_local) (\<lambda>xs. xs) [demo_group] {Ident ''c1'', Ident ''c2''} [demo_old Deprecated, demo_new] ([], no_tally) upload_demo
    = (Inr ([], acknowledge [demo_new] (demo_old Deprecated), no_tally), upload_demo\<lparr>team := demo_team [demo_new, demo_old Deprecated]\<rparr>)"
proof -
  let ?n = "upload_demo\<lparr>team := demo_team [demo_new]\<rparr>"
  have first: "client_upload_claim 0 demo_new upload_demo = (Inr (), ?n)"
    unfolding client_upload_claim_def by (rule post_up) (simp_all add: upload_demo_def demo_requests)
  have second: "client_upload_claim 0 (demo_old Deprecated) ?n = (Inr (), upload_demo\<lparr>team := demo_team [demo_new, demo_old Deprecated]\<rparr>)"
    unfolding client_upload_claim_def by (subst post_up) (simp_all add: upload_demo_def demo_requests)
  have last: "ready_claims (Some demo_local) [demo_group] (acknowledge [demo_new] (demo_old Deprecated)) [] = []" by (simp add: ready_claims_def)
  have look: "round_view (\<lambda>_. Some demo_local) [demo_group] k n = (Inr (Some demo_local), n)" if "up_faults (home n) = []" for k n
    using that by (simp add: round_view_def demo_rounds at_queue_def up_call_def bind_io_def return_io_def)
  have "up_faults (home upload_demo) = []" by (simp add: upload_demo_def)
  then show ?thesis
    by (simp add: deliver_claims.simps Let_def demo_rounds bind_io_def attempt_io_def first second last look return_io_def)
qed

definition demo_setting :: upload_setting where
  "demo_setting = \<lparr>request_retries = 0, report_status = internal_error, view_at_start = Some demo_local, view_in_round = \<lambda>_. Some demo_local,
     claim_order = \<lambda>xs. xs, dispute_order = \<lambda>xs. xs, meanwhile = stagings []\<rparr>"

definition upload_demo_run :: "upload_queue net" where
  "upload_demo_run = snd (upload_maintainer_batch_inner demo_setting True [] [] False upload_demo)"

lemma upload_demo_team: "team upload_demo_run = demo_team [demo_new, demo_old Deprecated]"
  unfolding upload_demo_run_def upload_maintainer_batch_inner_def
  by (simp add: demo_setting_def at_queue_def demo_staged demo_begun bind_io_def return_io_def modify_io_def demo_uploads_def demo_delivered
      split: prod.split sum.split)

lemma upload_demo_call:
  "\<exists>r. upload_maintainer_batch_inner demo_setting True [] [] False upload_demo = (r, upload_demo_run)"
  unfolding upload_demo_run_def by (metis prod.collapse)

lemma upload_demo_ok: "queue_ok (home upload_demo)" "mset (claim_order demo_setting xs) = mset xs"
  by (simp_all add: queue_ok_def queued_def upload_demo_defs demo_setting_def)

lemma demo_mirrors: "mirrored demo_new (demo_team [demo_new, demo_old Deprecated])" "mirrored (demo_old Deprecated) (demo_team [demo_new, demo_old Deprecated])"
  "\<not> mirrored c demo_empty"
  by (simp_all add: mirrored_def claims_dir_of_def demo_team_def demo_empty_def demo_store_def demo_new_def demo_old_def demo_ann_def yaml_name_def)

section \<open>Witnesses\<close>

theorem durable_claim_is_delivered_or_queued_witness:
  "\<exists>c \<in> set (queued (queue_at_settling demo_setting [] [] False upload_demo)). claim_id c = Ident ''c2''
    \<and> (c \<in> set (queued (home upload_demo_run)) \<or> mirrored c (team upload_demo_run))"
proof -
  obtain r where run: "upload_maintainer_batch_inner demo_setting True [] [] False upload_demo = (r, upload_demo_run)" using upload_demo_call by blast
  have "home upload_demo = snd (stage_maintainer_batch_inner True [] [] False [] None (home upload_demo))" by (simp add: demo_staged)
  moreover have "Ident ''c2'' \<in> durable_ids (home upload_demo) \<inter> queue_ids (home upload_demo)"
    by (simp add: durable_ids_def queue_ids_def queued_def upload_demo_defs)
  moreover have "meanwhile demo_setting = stagings []" by (simp add: demo_setting_def)
  ultimately show ?thesis using durable_claim_is_delivered_or_queued [OF run _ upload_demo_ok] by blast
qed

theorem retirement_waits_for_its_carriers_witness:
  "mirrored (demo_old Deprecated) (team upload_demo_run)
    \<and> knowledge_carried (\<lambda>_. Some demo_local) [demo_group] {c \<in> {demo_old Deprecated, demo_new}. mirrored c (team upload_demo_run)} demo_group"
proof -
  obtain r where run: "upload_maintainer_batch_inner demo_setting True [] [] False upload_demo = (r, upload_demo_run)" using upload_demo_call by blast
  have "home upload_demo
      = snd (begin_upload (view_at_start demo_setting) (snd (stage_maintainer_batch_inner True [] [] False [] None (home upload_demo))))"
    by (simp add: demo_staged demo_begun demo_setting_def)
  moreover have "queue_file (home upload_demo) = Some (Document demo_uploads)" by (simp add: upload_demo_def)
  moreover have "demo_group \<in> set (consolidations demo_uploads)" by (simp add: demo_uploads_def)
  moreover have "\<not> mirrored (retired demo_group) (team upload_demo)" by (simp add: upload_demo_def demo_mirrors)
  moreover have old: "mirrored (retired demo_group) (team upload_demo_run)" by (simp add: upload_demo_team demo_group_def demo_mirrors)
  ultimately have "knowledge_carried (view_in_round demo_setting) (consolidations demo_uploads)
      (set (acknowledgements demo_uploads) \<union> {c \<in> set (queued_claims demo_uploads). mirrored c (team upload_demo_run)}) demo_group"
    by (rule retirement_waits_for_its_carriers [OF run upload_demo_ok])
  then show ?thesis using old by (simp add: demo_uploads_def demo_group_def demo_setting_def)
qed

theorem pruning_keeps_readiness_witness:
  "ready (demo_old Deprecated) (fst (prune [demo_group] [demo_new] [demo_old Deprecated])) (snd (prune [demo_group] [demo_new] [demo_old Deprecated])) demo_local
    \<longleftrightarrow> ready (demo_old Deprecated) [demo_group] [demo_new] demo_local"
  by (rule pruning_keeps_readiness [where pending = "[demo_old Deprecated]"]) simp_all

end
