(* ===== verification/Placeholder.thy ===== *)
theory Placeholder
  imports Claim_Types Id_Maps
begin

text \<open>
  The placeholders of a model's answer (\<open>src/api/placeholder.rs\<close>).  A model cannot know the ids its new claims and
  disputes will get, so it writes \<open>$new_claim_N$\<close> and \<open>$new_dispute_N$\<close>; the resolver derives the ids, puts them in
  everywhere and refuses an answer that still mentions a placeholder.
\<close>

section \<open>Values\<close>

datatype json = JNull | JBool bool | JNumber string | JString string | JArray "json list" | JObject "(string \<times> json) list"

fun json_get :: "string \<Rightarrow> json \<Rightarrow> json option" where
  "json_get k (JObject kvs) = map_of kvs k"
| "json_get k _ = None"

fun as_text :: "json \<Rightarrow> string option" where
  "as_text (JString s) = Some s"
| "as_text _ = None"

fun as_array :: "json \<Rightarrow> json list option" where
  "as_array (JArray xs) = Some xs"
| "as_array _ = None"

definition text_field :: "string \<Rightarrow> json \<Rightarrow> string option" where
  "text_field k v = Option.bind (json_get k v) as_text"

definition array_field :: "string \<Rightarrow> json \<Rightarrow> json list option" where
  "array_field k v = Option.bind (json_get k v) as_array"

datatype path_step = At nat | Field string

datatype placeholder_error =
    ClaimIdMissing nat
  | ClaimIdBadFormat nat string
  | ClaimIdNotSequential nat nat string
  | ClaimNameMissing nat
  | ClaimScopeMissing nat
  | DisputeIdMissing nat
  | DisputeIdBadFormat nat string
  | DisputeIdNotSequential nat nat string
  | DisputeNameMissing nat
  | DisputeSummaryMissing nat
  | DisputeClaimsMissing nat
  | DisputeClaimNotString nat nat
  | DisputeClaimUnresolved nat nat string
  | UnresolvedPlaceholder string string "path_step list"

section \<open>Strings\<close>

text \<open>\<open>str::replace\<close> with a pattern that is not empty.\<close>

function str_replace :: "string \<Rightarrow> string \<Rightarrow> string \<Rightarrow> string" where
  "str_replace p r [] = []"
| "str_replace p r (c # s) =
     (if p \<noteq> [] \<and> str_starts_with (c # s) p then r @ str_replace p r (drop (length p) (c # s)) else c # str_replace p r s)"
  by pat_completeness auto

termination
  by (relation "measure (\<lambda>(_, _, s). length s)") (auto simp: neq_Nil_conv)

declare str_replace.simps [simp del]

definition new_claim_mark :: string where "new_claim_mark = ''$new_claim_''"
definition new_dispute_mark :: string where "new_dispute_mark = ''$new_dispute_''"

definition digits_value :: "string \<Rightarrow> nat" where
  "digits_value ds = foldl (\<lambda>n d. 10 * n + (of_char d - 48)) 0 ds"

definition parse_placeholder :: "string \<Rightarrow> string \<Rightarrow> nat option" where
  "parse_placeholder prefix full =
     Option.bind (strip_prefix prefix full) (\<lambda>inner. Option.bind (strip_suffix ''$'' inner) (\<lambda>ds.
       if ds = [] \<or> \<not> list_all is_ascii_digit ds then None
       else if digits_value ds < 2 ^ 64 then Some (digits_value ds) else None))"

fun find_mark :: "string \<Rightarrow> string \<Rightarrow> string option" where
  "find_mark mark [] = None"
| "find_mark mark (c # s) =
     (let after = drop (length mark) (c # s); ds = takeWhile is_ascii_digit after in
      if str_starts_with (c # s) mark \<and> ds \<noteq> [] \<and> str_starts_with (drop (length ds) after) ''$'' then Some ds
      else find_mark mark s)"

definition find_placeholder :: "string \<Rightarrow> (string \<times> string) option" where
  "find_placeholder s = (case find_mark new_claim_mark s of
       Some ds \<Rightarrow> Some (''new_claim_'', ds)
     | None \<Rightarrow> map_option (Pair ''new_dispute_'') (find_mark new_dispute_mark s))"

section \<open>Substitution\<close>

type_synonym subs = "(string \<times> string) list"

definition substitute_text :: "subs \<Rightarrow> string \<Rightarrow> string" where
  "substitute_text subs s = fold (\<lambda>(p, real) s. if str_contains s p then str_replace p real s else s) subs s"

fun walk_substitute :: "subs \<Rightarrow> json \<Rightarrow> json" where
  "walk_substitute subs (JString s) = JString (substitute_text subs s)"
| "walk_substitute subs (JArray xs) = JArray (map (walk_substitute subs) xs)"
| "walk_substitute subs (JObject kvs) = JObject (map (\<lambda>(k, v). (k, walk_substitute subs v)) kvs)"
| "walk_substitute subs JNull = JNull"
| "walk_substitute subs (JBool b) = JBool b"
| "walk_substitute subs (JNumber n) = JNumber n"

definition apply_substitutions :: "subs \<Rightarrow> json \<Rightarrow> json" where
  "apply_substitutions subs v = (if subs = [] then v else walk_substitute subs v)"

text \<open>The residual scan; the path is kept as its steps.\<close>

fun walk_unresolved :: "path_step list \<Rightarrow> json \<Rightarrow> placeholder_error option"
  and walk_items :: "path_step list \<Rightarrow> nat \<Rightarrow> json list \<Rightarrow> placeholder_error option"
  and walk_fields :: "path_step list \<Rightarrow> (string \<times> json) list \<Rightarrow> placeholder_error option" where
  "walk_unresolved path (JString s) = map_option (\<lambda>(kind, n). UnresolvedPlaceholder kind n path) (find_placeholder s)"
| "walk_unresolved path (JArray xs) = walk_items path 0 xs"
| "walk_unresolved path (JObject kvs) = walk_fields path kvs"
| "walk_unresolved path JNull = None"
| "walk_unresolved path (JBool b) = None"
| "walk_unresolved path (JNumber n) = None"
| "walk_items path i [] = None"
| "walk_items path i (x # xs) = (case walk_unresolved (path @ [At i]) x of Some e \<Rightarrow> Some e | None \<Rightarrow> walk_items path (Suc i) xs)"
| "walk_fields path [] = None"
| "walk_fields path ((k, v) # kvs) = (case walk_unresolved (path @ [Field k]) v of Some e \<Rightarrow> Some e | None \<Rightarrow> walk_fields path kvs)"

definition verify_no_unresolved :: "json \<Rightarrow> placeholder_error + unit" where
  "verify_no_unresolved v = (case walk_unresolved [] v of Some e \<Rightarrow> Inl e | None \<Rightarrow> Inr ())"

section \<open>Resolution\<close>

definition require :: "'e \<Rightarrow> 'a option \<Rightarrow> 'e + 'a" where
  "require e v = (case v of None \<Rightarrow> Inl e | Some x \<Rightarrow> Inr x)"

text \<open>The salt of an id is random, so it is a function of the position.\<close>

fun extract_claims :: "(string \<Rightarrow> string \<Rightarrow> nat \<Rightarrow> claim_id) \<Rightarrow> nat \<Rightarrow> json list \<Rightarrow> subs \<Rightarrow> placeholder_error + subs" where
  "extract_claims derive idx [] subs = Inr subs"
| "extract_claims derive idx (c # cs) subs =
     and_then (require (ClaimIdMissing idx) (text_field ''id'' c)) (\<lambda>i.
     and_then (require (ClaimIdBadFormat idx i) (parse_placeholder new_claim_mark i)) (\<lambda>n.
     if n \<noteq> idx then Inl (ClaimIdNotSequential idx n i) else
     and_then (require (ClaimNameMissing idx) (text_field ''name'' c)) (\<lambda>nm.
     and_then (require (ClaimScopeMissing idx) (text_field ''scope'' c)) (\<lambda>sc.
       extract_claims derive (Suc idx) cs (put_by fst (i, as_str (derive nm sc idx)) subs)))))"

definition extract_claim_substitutions :: "(string \<Rightarrow> string \<Rightarrow> nat \<Rightarrow> claim_id) \<Rightarrow> json \<Rightarrow> placeholder_error + subs" where
  "extract_claim_substitutions derive v = (case array_field ''new_claims'' v of None \<Rightarrow> Inr [] | Some cs \<Rightarrow> extract_claims derive 0 cs [])"

fun parse_claim_refs :: "nat \<Rightarrow> nat \<Rightarrow> json list \<Rightarrow> placeholder_error + claim_id list" where
  "parse_claim_refs idx j [] = Inr []"
| "parse_claim_refs idx j (v # vs) =
     and_then (require (DisputeClaimNotString idx j) (as_text v)) (\<lambda>s.
     case id_from_str claim_prefix s of
       Inl _ \<Rightarrow> Inl (DisputeClaimUnresolved idx j s)
     | Inr c \<Rightarrow> and_then (parse_claim_refs idx (Suc j) vs) (\<lambda>cs. Inr (c # cs)))"

fun extract_disputes :: "(string \<Rightarrow> claim_id list \<Rightarrow> string \<Rightarrow> nat \<Rightarrow> dispute_id) \<Rightarrow> nat \<Rightarrow> json list \<Rightarrow> subs \<Rightarrow> placeholder_error + subs" where
  "extract_disputes derive idx [] subs = Inr subs"
| "extract_disputes derive idx (d # ds) subs =
     and_then (require (DisputeIdMissing idx) (text_field ''id'' d)) (\<lambda>i.
     and_then (require (DisputeIdBadFormat idx i) (parse_placeholder new_dispute_mark i)) (\<lambda>n.
     if n \<noteq> idx then Inl (DisputeIdNotSequential idx n i) else
     and_then (require (DisputeNameMissing idx) (text_field ''name'' d)) (\<lambda>nm.
     and_then (require (DisputeClaimsMissing idx) (array_field ''claims'' d)) (\<lambda>arr.
     and_then (parse_claim_refs idx 0 arr) (\<lambda>claims.
     and_then (require (DisputeSummaryMissing idx) (text_field ''summary'' d)) (\<lambda>sm.
       extract_disputes derive (Suc idx) ds (put_by fst (i, as_str (derive nm claims sm idx)) subs)))))))"

definition extract_dispute_substitutions ::
  "(string \<Rightarrow> claim_id list \<Rightarrow> string \<Rightarrow> nat \<Rightarrow> dispute_id) \<Rightarrow> json \<Rightarrow> placeholder_error + subs" where
  "extract_dispute_substitutions derive v = (case array_field ''new_disputes'' v of None \<Rightarrow> Inr [] | Some ds \<Rightarrow> extract_disputes derive 0 ds [])"

definition resolve_placeholders ::
  "(hash_write list \<Rightarrow> 64 word) \<Rightarrow> (nat \<Rightarrow> 16 word) \<Rightarrow> (nat \<Rightarrow> 16 word) \<Rightarrow> json \<Rightarrow> time \<Rightarrow> placeholder_error + json" where
  "resolve_placeholders finish claim_salt dispute_salt v now =
     and_then (extract_claim_substitutions (\<lambda>nm sc k. claim_id_from_parts finish now nm sc (random_hex4 (claim_salt k))) v) (\<lambda>claim_subs.
     let v1 = apply_substitutions claim_subs v in
     and_then (extract_dispute_substitutions
        (\<lambda>nm cs sm k. dispute_id_from_parts finish now nm cs sm (random_hex4 (dispute_salt k))) v1) (\<lambda>dispute_subs.
     let v2 = apply_substitutions dispute_subs v1 in
     and_then (verify_no_unresolved v2) (\<lambda>_. Inr v2)))"

section \<open>Nothing unresolved is left\<close>

text \<open>A placeholder as the documentation describes it: a mark, at least one digit, a dollar sign.\<close>

definition placeholder :: "string \<Rightarrow> bool" where
  "placeholder p \<longleftrightarrow> (\<exists>mark ds. mark \<in> {new_claim_mark, new_dispute_mark} \<and> ds \<noteq> [] \<and> list_all is_ascii_digit ds \<and> p = mark @ ds @ ''$'')"

fun texts :: "json \<Rightarrow> string set" where
  "texts (JString s) = {s}"
| "texts (JArray xs) = (\<Union>x \<in> set xs. texts x)"
| "texts (JObject kvs) = (\<Union>kv \<in> set kvs. texts (snd kv))"
| "texts JNull = {}"
| "texts (JBool b) = {}"
| "texts (JNumber n) = {}"

lemma dollar_no_digit [simp]: "\<not> is_ascii_digit CHR ''$''"
  by (simp add: is_ascii_digit_def less_eq_char_def)

lemma find_mark_finds:
  assumes "ds \<noteq> []" "list_all is_ascii_digit ds" "mark \<noteq> []"
  shows "find_mark mark (a @ mark @ ds @ CHR ''$'' # b) \<noteq> None"
proof (induction a)
  case Nil
  obtain c m where m: "mark = c # m" using assms(3) by (cases mark) auto
  have ds: "takeWhile is_ascii_digit (ds @ CHR ''$'' # b) = ds" using assms(2) by (simp add: takeWhile_append2 list_all_iff)
  show ?case using assms(1) by (simp add: m ds Let_def str_starts_with_iff)
next
  case (Cons c a)
  then show ?case by (simp add: Let_def)
qed

lemma find_placeholder_None:
  assumes "find_placeholder s = None" "placeholder p"
  shows "\<not> str_contains s p"
proof
  assume "str_contains s p"
  then obtain a b where s: "s = a @ p @ b" by (auto simp: str_contains_iff)
  obtain mark ds where m: "mark \<in> {new_claim_mark, new_dispute_mark}" "ds \<noteq> []" "list_all is_ascii_digit ds" "p = mark @ ds @ ''$''"
    using assms(2) unfolding placeholder_def by blast
  have "mark \<noteq> []" using m(1) by (auto simp: new_claim_mark_def new_dispute_mark_def)
  then have "find_mark mark s \<noteq> None" using find_mark_finds [OF m(2,3), of mark a b] s m(4) by simp
  then show False using assms(1) m(1) by (auto simp: find_placeholder_def split: option.splits)
qed

lemma walk_unresolved_None:
  "walk_unresolved path v = None \<Longrightarrow> s \<in> texts v \<Longrightarrow> find_placeholder s = None"
  "walk_items path i xs = None \<Longrightarrow> x \<in> set xs \<Longrightarrow> s \<in> texts x \<Longrightarrow> find_placeholder s = None"
  "walk_fields path kvs = None \<Longrightarrow> kv \<in> set kvs \<Longrightarrow> s \<in> texts (snd kv) \<Longrightarrow> find_placeholder s = None"
  by (induction path v and path i xs and path kvs arbitrary: s and s x and s kv rule: walk_unresolved_walk_items_walk_fields.induct)
     (auto split: option.splits)

text \<open>
  An accepted answer mentions no placeholder any more: neither in a field that holds an id nor inside a
  sentence of any text, at any depth.
\<close>

theorem resolved_answer_has_no_placeholder:
  assumes "resolve_placeholders finish claim_salt dispute_salt v now = Inr v'" and "s \<in> texts v'" and "placeholder p"
  shows "\<not> str_contains s p"
proof -
  have "walk_unresolved [] v' = None"
    using assms(1) by (auto simp: resolve_placeholders_def and_then_def verify_no_unresolved_def Let_def split: sum.splits option.splits)
  then show ?thesis using walk_unresolved_None(1) assms(2,3) find_placeholder_None by blast
qed

section \<open>Declared placeholders become their ids\<close>

lemma parse_placeholder_shape:
  assumes "parse_placeholder mark p = Some n"
  shows "\<exists>ds. p = mark @ ds @ ''$'' \<and> ds \<noteq> [] \<and> list_all is_ascii_digit ds \<and> digits_value ds = n"
  using assms by (auto simp: parse_placeholder_def strip_prefix_Some_iff strip_suffix_Some_iff bind_eq_Some_conv split: if_splits)

lemma parsed_placeholder:
  "parse_placeholder mark p = Some n \<Longrightarrow> mark \<in> {new_claim_mark, new_dispute_mark} \<Longrightarrow> placeholder p"
  unfolding placeholder_def by (metis parse_placeholder_shape)

text \<open>
  Sentences with placeholders: a text, and then placeholders with the text that follows each.  The texts have no dollar
  sign, and none goes on after a placeholder as if its last dollar sign began another one.
\<close>

definition sentence :: "string \<Rightarrow> (string \<times> string) list \<Rightarrow> string" where
  "sentence t ps = t @ concat (map (\<lambda>(p, u). p @ u) ps)"

definition plain_text :: "string \<Rightarrow> bool" where
  "plain_text u \<longleftrightarrow> CHR ''$'' \<notin> set u \<and> \<not> str_starts_with u ''new_''"

definition marked :: "string \<Rightarrow> bool" where
  "marked p \<longleftrightarrow> (\<exists>m. p = ''$new_'' @ m @ ''$'' \<and> CHR ''$'' \<notin> set m)"

definition settled :: "string \<Rightarrow> bool" where
  "settled r \<longleftrightarrow> CHR ''$'' \<notin> set r \<and> r \<noteq> [] \<and> hd r \<notin> set ''new_''"

lemma placeholder_marked: "placeholder p \<Longrightarrow> marked p"
proof -
  assume "placeholder p"
  then obtain mark ds where p: "mark \<in> {new_claim_mark, new_dispute_mark}" "list_all is_ascii_digit ds" "p = mark @ ds @ ''$''"
    unfolding placeholder_def by blast
  obtain k where "mark = ''$new_'' @ k" "CHR ''$'' \<notin> set k"
    using p(1) by (auto simp: new_claim_mark_def new_dispute_mark_def)
  moreover have "CHR ''$'' \<notin> set ds" using p(2) by (auto simp: list_all_iff)
  ultimately show ?thesis using p(3) unfolding marked_def by (intro exI [of _ "k @ ds"]) simp
qed

lemma marked_settled: "marked p \<Longrightarrow> settled p \<Longrightarrow> False"
  by (auto simp: marked_def settled_def)

lemma first_dollar: "a @ CHR ''$'' # x = b @ CHR ''$'' # y \<Longrightarrow> CHR ''$'' \<notin> set a \<Longrightarrow> CHR ''$'' \<notin> set b \<Longrightarrow> a = b"
  by (induction a arbitrary: b) (auto simp: Cons_eq_append_conv append_eq_Cons_conv)

lemma marked_prefix:
  assumes "marked p" "marked q" "str_starts_with (p @ s) q"
  shows "p = q"
proof -
  obtain m n z where "p = ''$new_'' @ m @ ''$''" "CHR ''$'' \<notin> set m" "q = ''$new_'' @ n @ ''$''" "CHR ''$'' \<notin> set n" "p @ s = q @ z"
    using assms unfolding marked_def str_starts_with_iff by blast
  then show ?thesis using first_dollar [of m s n z] by simp
qed

lemma tail_no_new:
  assumes "plain_text u" "rest = [] \<or> hd rest \<notin> set ''new_''"
  shows "\<not> str_starts_with (u @ rest) ''new_''"
proof
  assume "str_starts_with (u @ rest) ''new_''"
  then obtain z where "u @ rest = ''new_'' @ z" by (auto simp: str_starts_with_iff)
  then obtain us where "u = ''new_'' @ us \<or> u @ us = ''new_'' \<and> rest = us @ z"
    unfolding append_eq_append_conv2 by metis
  moreover have "u \<noteq> ''new_'' @ us" for us using assms(1) by (auto simp: plain_text_def str_starts_with_iff)
  ultimately have us: "u @ us = ''new_''" "rest = us @ z" by blast+
  have "us \<noteq> []" using us(1) \<open>\<And>us. u \<noteq> ''new_'' @ us\<close> [of "[]"] by auto
  moreover have "set us \<subseteq> set ''new_''" unfolding us(1) [symmetric] by simp
  ultimately show False using assms(2) us(2) by (cases us) auto
qed

lemma replace_skip: "CHR ''$'' \<notin> set a \<Longrightarrow> marked q \<Longrightarrow> str_replace q r (a @ s) = a @ str_replace q r s"
  by (induction a) (auto simp: str_replace.simps str_starts_with_iff marked_def)

lemma replace_here: "q \<noteq> [] \<Longrightarrow> str_replace q r (q @ s) = r @ str_replace q r s"
  by (cases q) (simp_all add: str_replace.simps str_starts_with_iff)

lemma replace_absent: "\<not> str_contains s q \<Longrightarrow> str_replace q r s = s"
proof (induction s)
  case (Cons c s)
  have "\<not> str_starts_with (c # s) q" "\<not> str_contains s q"
    using Cons.prems unfolding str_contains_iff str_starts_with_iff by (metis append_Nil, metis append_Cons)
  then show ?case using Cons.IH by (simp add: str_replace.simps)
qed (simp add: str_replace.simps)

text \<open>One replacement exchanges the marked words of a sentence that are equal to the pattern, and nothing else.\<close>

lemma replace_marked_text:
  assumes "marked p" "marked q" "p \<noteq> q" "\<not> str_starts_with s ''new_''"
  shows "str_replace q r (p @ s) = p @ str_replace q r s"
proof -
  obtain m where p: "p = CHR ''$'' # (''new_'' @ m) @ [CHR ''$'']" "CHR ''$'' \<notin> set (''new_'' @ m)"
    using assms(1) by (auto simp: marked_def)
  have "\<not> str_starts_with (p @ s) q" using marked_prefix assms(1-3) by blast
  then have first: "str_replace q r (p @ s) = CHR ''$'' # str_replace q r ((''new_'' @ m) @ CHR ''$'' # s)"
    unfolding p(1) by (simp add: str_replace.simps(2) [of q r "CHR ''$''"])
  have "\<not> str_starts_with (CHR ''$'' # s) q" using assms(2,4) by (auto simp: marked_def str_starts_with_iff)
  then have last: "str_replace q r (CHR ''$'' # s) = CHR ''$'' # str_replace q r s" by (simp add: str_replace.simps)
  show ?thesis unfolding first replace_skip [OF p(2) assms(2)] last by (simp add: p(1))
qed

lemma replace_sentence:
  assumes "marked q" "\<forall>(p, u) \<in> set ps. (marked p \<or> settled p) \<and> plain_text u"
  shows "str_replace q r (concat (map (\<lambda>(p, u). p @ u) ps)) = concat (map (\<lambda>(p, u). (if p = q then r else p) @ u) ps)"
  using assms(2)
proof (induction ps)
  case Nil
  then show ?case by (simp add: str_replace.simps)
next
  case (Cons e ps)
  obtain p u where e: "e = (p, u)" by (cases e)
  let ?rest = "concat (map (\<lambda>(p, u). p @ u) ps)"
  have u: "plain_text u" "CHR ''$'' \<notin> set u" using Cons.prems by (auto simp: e plain_text_def)
  have IH: "str_replace q r ?rest = concat (map (\<lambda>(p, u). (if p = q then r else p) @ u) ps)" using Cons by simp
  have "?rest = [] \<or> hd ?rest \<notin> set ''new_''"
  proof (cases ps)
    case (Cons e' ps')
    obtain p' u' where "e' = (p', u')" by (cases e')
    then show ?thesis using Cons.prems Cons by (auto simp: marked_def settled_def)
  qed simp
  then have tail: "\<not> str_starts_with (u @ ?rest) ''new_''" by (rule tail_no_new [OF u(1)])
  have q: "q \<noteq> []" using assms(1) by (auto simp: marked_def)
  consider "p = q" | "p \<noteq> q" "marked p" | "p \<noteq> q" "settled p" using Cons.prems by (auto simp: e)
  then have "str_replace q r (p @ u @ ?rest) = (if p = q then r else p) @ str_replace q r (u @ ?rest)"
  proof cases
    case 1
    then show ?thesis using replace_here [OF q] by simp
  next
    case 2
    then show ?thesis using replace_marked_text [OF 2(2) assms(1) 2(1) tail] by simp
  next
    case 3
    then show ?thesis using replace_skip [OF _ assms(1)] by (simp add: settled_def)
  qed
  then show ?case using replace_skip [OF u(2) assms(1)] IH by (simp add: e)
qed

definition named_by :: "subs \<Rightarrow> string \<Rightarrow> string" where
  "named_by subs p = (case map_of subs p of Some r \<Rightarrow> r | None \<Rightarrow> p)"

lemma substitute_text_sentence:
  assumes "\<forall>(q, r) \<in> set subs. marked q \<and> settled r" "distinct (map fst subs)" "CHR ''$'' \<notin> set t"
    "\<forall>(p, u) \<in> set ps. (marked p \<or> settled p) \<and> plain_text u"
  shows "substitute_text subs (sentence t ps) = sentence t (map (\<lambda>(p, u). (named_by subs p, u)) ps)"
  using assms
proof (induction subs arbitrary: ps)
  case Nil
  then show ?case by (simp add: substitute_text_def named_by_def)
next
  case (Cons e subs)
  obtain q r where e: "e = (q, r)" by (cases e)
  have q: "marked q" "settled r" using Cons.prems(1) by (auto simp: e)
  let ?ps = "map (\<lambda>(p, u). (if p = q then r else p, u)) ps"
  have one: "str_replace q r (sentence t ps) = sentence t ?ps"
    unfolding sentence_def replace_skip [OF Cons.prems(3) q(1)] replace_sentence [OF q(1) Cons.prems(4)]
    by (simp add: case_prod_unfold comp_def)
  have "substitute_text (e # subs) (sentence t ps) = substitute_text subs (str_replace q r (sentence t ps))"
    using replace_absent by (simp add: substitute_text_def e)
  also have "\<dots> = sentence t (map (\<lambda>(p, u). (named_by subs p, u)) ?ps)"
  proof -
    have "\<forall>(p, u) \<in> set ?ps. (marked p \<or> settled p) \<and> plain_text u" using Cons.prems(4) q(2) by fastforce
    then show ?thesis unfolding one using Cons.prems(1-3) by (intro Cons.IH) auto
  qed
  also have "\<dots> = sentence t (map (\<lambda>(p, u). (named_by (e # subs) p, u)) ps)"
  proof -
    have "map_of subs r = None"
      using Cons.prems(1) q(2) marked_settled by (fastforce simp: map_of_eq_None_iff)
    moreover have "map_of subs q = None" using Cons.prems(2) by (simp add: e map_of_eq_None_iff)
    ultimately have "named_by subs (if p = q then r else p) = named_by (e # subs) p" for p
      by (simp add: named_by_def e)
    then show ?thesis by (simp add: case_prod_unfold comp_def)
  qed
  finally show ?case .
qed

lemma substitute_text_marked:
  assumes "\<forall>(q, r) \<in> set subs. marked q \<and> settled r" "distinct (map fst subs)" "marked p \<or> settled p"
  shows "substitute_text subs p = named_by subs p"
  using substitute_text_sentence [OF assms(1,2), of "[]" "[(p, [])]"] assms(3)
  by (simp add: sentence_def plain_text_def str_starts_with_def)

lemma named_by_kind:
  "\<forall>(q, r) \<in> set subs. marked q \<and> settled r \<Longrightarrow> marked p \<or> settled p \<Longrightarrow> marked (named_by subs p) \<or> settled (named_by subs p)"
  by (auto simp: named_by_def split: option.split dest!: map_of_SomeD)

fun map_texts :: "(string \<Rightarrow> string) \<Rightarrow> json \<Rightarrow> json" where
  "map_texts f (JString s) = JString (f s)"
| "map_texts f (JArray xs) = JArray (map (map_texts f) xs)"
| "map_texts f (JObject kvs) = JObject (map (\<lambda>(k, v). (k, map_texts f v)) kvs)"
| "map_texts f JNull = JNull"
| "map_texts f (JBool b) = JBool b"
| "map_texts f (JNumber n) = JNumber n"

lemma walk_map_texts: "walk_substitute subs v = map_texts (substitute_text subs) v"
  by (induction v) (auto simp: case_prod_unfold)

lemma map_texts_id: "map_texts (\<lambda>s. s) v = v"
  by (induction v) (auto simp: case_prod_unfold intro: map_idI)

lemma map_texts_comp: "map_texts f (map_texts g v) = map_texts (\<lambda>s. f (g s)) v"
  by (induction v) (auto simp: case_prod_unfold)

lemma apply_map_texts: "apply_substitutions subs v = map_texts (substitute_text subs) v"
proof (cases "subs = []")
  case True
  then have "substitute_text subs = (\<lambda>s. s)" by (auto simp: substitute_text_def)
  then show ?thesis using True by (simp add: apply_substitutions_def map_texts_id)
qed (simp add: apply_substitutions_def walk_map_texts)

text \<open>
  What the extraction of the substitutions finds: one pair for each declared item, in order, of its placeholder, with its
  position, and its id.
\<close>

lemma extract_claims_pairs:
  "extract_claims derive idx cs subs = Inr subs' \<Longrightarrow> \<exists>prs. subs' = fold (put_by fst) prs subs \<and> length prs = length cs
    \<and> (\<forall>i < length cs. parse_placeholder new_claim_mark (fst (prs ! i)) = Some (idx + i)
         \<and> text_field ''id'' (cs ! i) = Some (fst (prs ! i))
         \<and> (\<exists>nm sc. text_field ''name'' (cs ! i) = Some nm \<and> text_field ''scope'' (cs ! i) = Some sc
              \<and> snd (prs ! i) = as_str (derive nm sc (idx + i))))"
proof (induction cs arbitrary: idx subs)
  case (Cons c cs)
  obtain p nm sc where c: "text_field ''id'' c = Some p" "parse_placeholder new_claim_mark p = Some idx" "text_field ''name'' c = Some nm"
      "text_field ''scope'' c = Some sc"
      "extract_claims derive (Suc idx) cs (put_by fst (p, as_str (derive nm sc idx)) subs) = Inr subs'"
    using Cons.prems by (auto simp: and_then_def require_def split: sum.splits option.splits if_splits)
  from Cons.IH [OF c(5)] obtain prs where prs: "subs' = fold (put_by fst) prs (put_by fst (p, as_str (derive nm sc idx)) subs)"
      "length prs = length cs"
      "\<forall>i < length cs. parse_placeholder new_claim_mark (fst (prs ! i)) = Some (Suc idx + i)
         \<and> text_field ''id'' (cs ! i) = Some (fst (prs ! i))
         \<and> (\<exists>nm sc. text_field ''name'' (cs ! i) = Some nm \<and> text_field ''scope'' (cs ! i) = Some sc
              \<and> snd (prs ! i) = as_str (derive nm sc (Suc idx + i)))"
    by blast
  then show ?case using c
    by (intro exI [of _ "(p, as_str (derive nm sc idx)) # prs"]) (auto simp: less_Suc_eq_0_disj)
qed simp

lemma parsed_claim_refs: "parse_claim_refs idx j vs = Inr ids \<Longrightarrow> map as_text vs = map (\<lambda>c. Some (as_str c)) ids"
proof (induction vs arbitrary: j ids)
  case (Cons v vs)
  then obtain s c cs where v: "as_text v = Some s" "id_from_str claim_prefix s = Inr c" "parse_claim_refs idx (Suc j) vs = Inr cs" "ids = c # cs"
    by (auto simp: and_then_def require_def split: sum.splits option.splits)
  then have "as_str c = s" by (auto simp: id_from_str_def split: option.splits if_splits)
  with v Cons.IH [OF v(3)] show ?case by simp
qed simp

lemma extract_disputes_pairs:
  "extract_disputes derive idx ds subs = Inr subs' \<Longrightarrow> \<exists>prs. subs' = fold (put_by fst) prs subs \<and> length prs = length ds
    \<and> (\<forall>j < length ds. parse_placeholder new_dispute_mark (fst (prs ! j)) = Some (idx + j)
         \<and> text_field ''id'' (ds ! j) = Some (fst (prs ! j))
         \<and> (\<exists>nm refs ids sm. text_field ''name'' (ds ! j) = Some nm \<and> array_field ''claims'' (ds ! j) = Some refs
              \<and> map as_text refs = map (\<lambda>c. Some (as_str c)) ids \<and> text_field ''summary'' (ds ! j) = Some sm
              \<and> snd (prs ! j) = as_str (derive nm ids sm (idx + j))))"
proof (induction ds arbitrary: idx subs)
  case (Cons d ds)
  obtain p nm refs ids sm where d: "text_field ''id'' d = Some p" "parse_placeholder new_dispute_mark p = Some idx"
      "text_field ''name'' d = Some nm" "array_field ''claims'' d = Some refs" "parse_claim_refs idx 0 refs = Inr ids"
      "text_field ''summary'' d = Some sm"
      "extract_disputes derive (Suc idx) ds (put_by fst (p, as_str (derive nm ids sm idx)) subs) = Inr subs'"
    using Cons.prems by (auto simp: and_then_def require_def split: sum.splits option.splits if_splits)
  from Cons.IH [OF d(7)] obtain prs where prs: "subs' = fold (put_by fst) prs (put_by fst (p, as_str (derive nm ids sm idx)) subs)"
      "length prs = length ds"
      "\<forall>j < length ds. parse_placeholder new_dispute_mark (fst (prs ! j)) = Some (Suc idx + j)
         \<and> text_field ''id'' (ds ! j) = Some (fst (prs ! j))
         \<and> (\<exists>nm refs ids sm. text_field ''name'' (ds ! j) = Some nm \<and> array_field ''claims'' (ds ! j) = Some refs
              \<and> map as_text refs = map (\<lambda>c. Some (as_str c)) ids \<and> text_field ''summary'' (ds ! j) = Some sm
              \<and> snd (prs ! j) = as_str (derive nm ids sm (Suc idx + j)))"
    by blast
  then show ?case using d parsed_claim_refs [OF d(5)]
    by (intro exI [of _ "(p, as_str (derive nm ids sm idx)) # prs"]) (auto simp: less_Suc_eq_0_disj)
qed simp

lemma fold_put_by:
  "ordered_by fst subs \<Longrightarrow> distinct (map fst prs) \<Longrightarrow> fst ` set prs \<inter> fst ` set subs = {} \<Longrightarrow>
   ordered_by fst (fold (put_by fst) prs subs) \<and> set (fold (put_by fst) prs subs) = set prs \<union> set subs"
proof (induction prs arbitrary: subs)
  case (Cons e prs)
  have "fst y \<noteq> fst e" if "y \<in> set subs" for y
    using Cons.prems(3) that by (metis IntI empty_iff imageI list.set_intros(1))
  then have "set (put_by fst e subs) = insert e (set subs)" using put_by_set [OF Cons.prems(1), of e] by auto
  with Cons.IH [OF put_by_ordered [OF Cons.prems(1), of e]] Cons.prems(2,3) show ?case by auto
qed simp

lemma pairs_lookup:
  assumes "subs = fold (put_by fst) prs []" "\<forall>i < length prs. parse_placeholder mark (fst (prs ! i)) = Some i"
  shows "distinct (map fst subs)" "set subs = set prs" "i < length prs \<Longrightarrow> named_by subs (fst (prs ! i)) = snd (prs ! i)"
proof -
  have "distinct (map fst prs)"
    unfolding distinct_conv_nth using assms(2) by (metis length_map nth_map option.inject)
  then have subs: "ordered_by fst subs" "set subs = set prs"
    using fold_put_by [of "[]" prs] unfolding assms(1) by (simp_all add: ordered_by_def)
  show d: "distinct (map fst subs)" and "set subs = set prs" using ordered_distinct [OF subs(1)] subs(2) by simp_all
  show "named_by subs (fst (prs ! i)) = snd (prs ! i)" if "i < length prs"
    using map_of_is_SomeI [OF d, of "fst (prs ! i)" "snd (prs ! i)"] that subs(2) by (simp add: named_by_def)
qed

lemma pairs_well:
  assumes "\<forall>i < length prs. placeholder (fst (prs ! i)) \<and> settled (snd (prs ! i))"
  shows "\<forall>(q, r) \<in> set prs. marked q \<and> settled r"
  using assms placeholder_marked by (fastforce simp: in_set_conv_nth)

lemma named_by_settled: "\<forall>(q, r) \<in> set subs. marked q \<and> settled r \<Longrightarrow> settled p \<Longrightarrow> named_by subs p = p"
  using marked_settled by (fastforce simp: named_by_def split: option.split dest: map_of_SomeD)

lemma other_mark: "parse_placeholder new_claim_mark p = Some i \<Longrightarrow> parse_placeholder new_dispute_mark p = Some j \<Longrightarrow> False"
  by (auto simp: new_claim_mark_def new_dispute_mark_def dest!: parse_placeholder_shape)

lemma derived_settled:
  "settled (as_str (claim_id_from_parts finish now nm sc salt))" "settled (as_str (dispute_id_from_parts finish now nm ids sm salt))"
proof -
  have "CHR ''$'' \<notin> set hex_chars" by (simp add: hex_chars_def)
  then have "CHR ''$'' \<notin> set (hex_be k v)" for k v using set_hex_be by blast
  then show "settled (as_str (claim_id_from_parts finish now nm sc salt))" "settled (as_str (dispute_id_from_parts finish now nm ids sm salt))"
    by (simp_all add: settled_def claim_id_from_parts_def dispute_id_from_parts_def derive_id_string_def claim_prefix_def dispute_prefix_def)
qed

lemma pairs_substitute:
  assumes "subs = fold (put_by fst) prs []" "mark \<in> {new_claim_mark, new_dispute_mark}"
    and "\<And>i. i < length prs \<Longrightarrow> parse_placeholder mark (fst (prs ! i)) = Some i \<and> settled (snd (prs ! i))"
  shows "\<forall>(q, r) \<in> set subs. marked q \<and> settled r" "distinct (map fst subs)"
    "i < length prs \<Longrightarrow> placeholder (fst (prs ! i)) \<and> substitute_text subs (fst (prs ! i)) = snd (prs ! i)"
    "settled p \<Longrightarrow> substitute_text subs p = p"
    "placeholder p \<Longrightarrow> (\<And>i. parse_placeholder mark p \<noteq> Some i) \<Longrightarrow> substitute_text subs p = p"
proof -
  have parse: "\<forall>i < length prs. parse_placeholder mark (fst (prs ! i)) = Some i" using assms(3) by blast
  have ph: "\<forall>i < length prs. placeholder (fst (prs ! i)) \<and> settled (snd (prs ! i))"
    using assms(3) parsed_placeholder [OF _ assms(2)] by blast
  note look = pairs_lookup [OF assms(1) parse]
  show w: "\<forall>(q, r) \<in> set subs. marked q \<and> settled r" and "distinct (map fst subs)"
    using pairs_well [OF ph] look(1,2) by simp_all
  note put = substitute_text_marked [OF w look(1)]
  show "placeholder (fst (prs ! i)) \<and> substitute_text subs (fst (prs ! i)) = snd (prs ! i)" if "i < length prs"
    using that ph put look(3) placeholder_marked by metis
  show "settled p \<Longrightarrow> substitute_text subs p = p" using put named_by_settled [OF w] by metis
  show "substitute_text subs p = p" if "placeholder p" "\<And>i. parse_placeholder mark p \<noteq> Some i"
  proof -
    have "p \<notin> fst ` set subs" using that(2) parse unfolding look(2) by (fastforce simp: in_set_conv_nth)
    then have "map_of subs p = None" by (simp add: map_of_eq_None_iff)
    then show ?thesis using put placeholder_marked [OF that(1)] by (simp add: named_by_def)
  qed
qed

lemma two_passes_sentence:
  assumes cw: "\<forall>(q, r) \<in> set cs. marked q \<and> settled r" "distinct (map fst cs)"
    and dw: "\<forall>(q, r) \<in> set ds. marked q \<and> settled r" "distinct (map fst ds)"
    and t: "CHR ''$'' \<notin> set t" and ps: "list_all (\<lambda>(p, u). placeholder p \<and> plain_text u) ps"
  shows "substitute_text cs (sentence t ps) = sentence t (map (\<lambda>(p, u). (substitute_text cs p, u)) ps)
    \<and> substitute_text ds (substitute_text cs (sentence t ps))
        = sentence t (map (\<lambda>(p, u). (substitute_text ds (substitute_text cs p), u)) ps)"
proof -
  have m: "\<forall>(p, u) \<in> set ps. (marked p \<or> settled p) \<and> plain_text u"
    using ps placeholder_marked by (auto simp: list_all_iff)
  have one: "substitute_text cs (sentence t ps) = sentence t (map (\<lambda>(p, u). (named_by cs p, u)) ps)"
    by (rule substitute_text_sentence [OF cw t m])
  have "\<forall>(p, u) \<in> set (map (\<lambda>(p, u). (named_by cs p, u)) ps). (marked p \<or> settled p) \<and> plain_text u"
    using m named_by_kind [OF cw(1)] by fastforce
  from substitute_text_sentence [OF dw t this] have
    two: "substitute_text ds (substitute_text cs (sentence t ps)) = sentence t (map (\<lambda>(p, u). (named_by ds (named_by cs p), u)) ps)"
    unfolding one by (simp add: case_prod_unfold comp_def)
  have "substitute_text cs p = named_by cs p" "substitute_text ds (named_by cs p) = named_by ds (named_by cs p)"
    if "(p, u) \<in> set ps" for p u
  proof -
    have p: "marked p \<or> settled p" using m that by blast
    show "substitute_text cs p = named_by cs p" by (rule substitute_text_marked [OF cw p])
    show "substitute_text ds (named_by cs p) = named_by ds (named_by cs p)"
      by (rule substitute_text_marked [OF dw named_by_kind [OF cw(1) p]])
  qed
  then have maps: "map (\<lambda>(p, u). (substitute_text cs p, u)) ps = map (\<lambda>(p, u). (named_by cs p, u)) ps"
      "map (\<lambda>(p, u). (substitute_text ds (substitute_text cs p), u)) ps = map (\<lambda>(p, u). (named_by ds (named_by cs p), u)) ps"
    by auto
  show ?thesis unfolding maps using one two by (rule conjI)
qed

definition declared :: "string \<Rightarrow> json \<Rightarrow> json list" where
  "declared k v = (case array_field k v of None \<Rightarrow> [] | Some xs \<Rightarrow> xs)"

text \<open>
  Property C37.  Resolving changes nothing but texts.  It first puts in the ids of the new claims (\<open>g\<close>) and then, in the
  answer that results, those of the new disputes (\<open>h\<close>).  The placeholder of the \<open>i\<close>-th new claim becomes the id derived
  from the claim's name and scope, the placeholder of the \<open>j\<close>-th new dispute the id derived from the dispute's name,
  claims and summary, and both wherever they are written: in a sentence every placeholder is exchanged for what it stands
  for, as often as it occurs, and the text around the placeholders stays as it is.
\<close>

theorem placeholders_become_the_derived_ids:
  assumes "resolve_placeholders finish claim_salt dispute_salt v now = Inr v'"
  shows "\<exists>g h. v' = map_texts (\<lambda>s. h (g s)) v
    \<and> (\<forall>i < length (declared ''new_claims'' v). \<exists>p nm sc.
         text_field ''id'' (declared ''new_claims'' v ! i) = Some p \<and> placeholder p
         \<and> text_field ''name'' (declared ''new_claims'' v ! i) = Some nm \<and> text_field ''scope'' (declared ''new_claims'' v ! i) = Some sc
         \<and> g p = as_str (claim_id_from_parts finish now nm sc (random_hex4 (claim_salt i))) \<and> h (g p) = g p)
    \<and> (\<forall>j < length (declared ''new_disputes'' (map_texts g v)). \<exists>p nm refs ids sm.
         text_field ''id'' (declared ''new_disputes'' (map_texts g v) ! j) = Some p \<and> placeholder p
         \<and> text_field ''name'' (declared ''new_disputes'' (map_texts g v) ! j) = Some nm
         \<and> array_field ''claims'' (declared ''new_disputes'' (map_texts g v) ! j) = Some refs \<and> map as_text refs = map (\<lambda>c. Some (as_str c)) ids
         \<and> text_field ''summary'' (declared ''new_disputes'' (map_texts g v) ! j) = Some sm
         \<and> g p = p \<and> h p = as_str (dispute_id_from_parts finish now nm ids sm (random_hex4 (dispute_salt j))))
    \<and> (\<forall>t ps. CHR ''$'' \<notin> set t \<and> list_all (\<lambda>(p, u). placeholder p \<and> plain_text u) ps \<longrightarrow>
         g (sentence t ps) = sentence t (map (\<lambda>(p, u). (g p, u)) ps)
         \<and> h (g (sentence t ps)) = sentence t (map (\<lambda>(p, u). (h (g p), u)) ps))"
proof -
  let ?cd = "\<lambda>nm sc k. claim_id_from_parts finish now nm sc (random_hex4 (claim_salt k))"
  let ?dd = "\<lambda>nm cs sm k. dispute_id_from_parts finish now nm cs sm (random_hex4 (dispute_salt k))"
  obtain cs ds where e: "extract_claims ?cd 0 (declared ''new_claims'' v) [] = Inr cs"
      "extract_disputes ?dd 0 (declared ''new_disputes'' (apply_substitutions cs v)) [] = Inr ds"
      "v' = apply_substitutions ds (apply_substitutions cs v)"
    using assms
    by (auto simp: resolve_placeholders_def extract_claim_substitutions_def extract_dispute_substitutions_def declared_def and_then_def Let_def
        split: sum.splits option.splits)
  let ?g = "substitute_text cs" and ?h = "substitute_text ds"
  let ?ds = "declared ''new_disputes'' (map_texts ?g v)"
  obtain cp where cp: "cs = fold (put_by fst) cp []" "length cp = length (declared ''new_claims'' v)"
      "\<forall>i < length cp. parse_placeholder new_claim_mark (fst (cp ! i)) = Some i
         \<and> text_field ''id'' (declared ''new_claims'' v ! i) = Some (fst (cp ! i))
         \<and> (\<exists>nm sc. text_field ''name'' (declared ''new_claims'' v ! i) = Some nm \<and> text_field ''scope'' (declared ''new_claims'' v ! i) = Some sc
              \<and> snd (cp ! i) = as_str (?cd nm sc i))"
    using extract_claims_pairs [OF e(1)] by auto
  obtain dp where dp: "ds = fold (put_by fst) dp []" "length dp = length ?ds"
      "\<forall>j < length dp. parse_placeholder new_dispute_mark (fst (dp ! j)) = Some j
         \<and> text_field ''id'' (?ds ! j) = Some (fst (dp ! j))
         \<and> (\<exists>nm refs ids sm. text_field ''name'' (?ds ! j) = Some nm \<and> array_field ''claims'' (?ds ! j) = Some refs
              \<and> map as_text refs = map (\<lambda>c. Some (as_str c)) ids \<and> text_field ''summary'' (?ds ! j) = Some sm
              \<and> snd (dp ! j) = as_str (?dd nm ids sm j))"
    using extract_disputes_pairs [OF e(2)] unfolding apply_map_texts by auto
  have "parse_placeholder new_claim_mark (fst (cp ! i)) = Some i \<and> settled (snd (cp ! i))" if "i < length cp" for i
    using cp(3) that derived_settled(1) by fastforce
  note c = pairs_substitute [OF cp(1) insertI1 this]
  have dm: "parse_placeholder new_dispute_mark (fst (dp ! j)) = Some j \<and> settled (snd (dp ! j))" if "j < length dp" for j
    using dp(3) that derived_settled(2) by fastforce
  note d = pairs_substitute [OF dp(1) insertI2 [OF singletonI] this]
  have claims: "placeholder (fst (cp ! i)) \<and> ?g (fst (cp ! i)) = snd (cp ! i) \<and> ?h (snd (cp ! i)) = snd (cp ! i)" if "i < length cp" for i
    using that c(3) d(4) cp(3) derived_settled(1) by metis
  have disputes: "placeholder (fst (dp ! j)) \<and> ?g (fst (dp ! j)) = fst (dp ! j) \<and> ?h (fst (dp ! j)) = snd (dp ! j)" if "j < length dp" for j
    using that d(3) c(5) dm other_mark by metis
  note sentences = two_passes_sentence [OF c(1,2) d(1,2)]
  have v': "v' = map_texts (\<lambda>s. ?h (?g s)) v" unfolding e(3) apply_map_texts map_texts_comp ..
  have cl: "\<exists>p nm sc. text_field ''id'' (declared ''new_claims'' v ! i) = Some p \<and> placeholder p
      \<and> text_field ''name'' (declared ''new_claims'' v ! i) = Some nm \<and> text_field ''scope'' (declared ''new_claims'' v ! i) = Some sc
      \<and> ?g p = as_str (?cd nm sc i) \<and> ?h (?g p) = ?g p" if "i < length (declared ''new_claims'' v)" for i
    using cp(3) claims that unfolding cp(2) [symmetric] by - (rule exI [of _ "fst (cp ! i)"], fastforce)
  have di: "\<exists>p nm refs ids sm. text_field ''id'' (?ds ! j) = Some p \<and> placeholder p
      \<and> text_field ''name'' (?ds ! j) = Some nm \<and> array_field ''claims'' (?ds ! j) = Some refs \<and> map as_text refs = map (\<lambda>c. Some (as_str c)) ids
      \<and> text_field ''summary'' (?ds ! j) = Some sm \<and> ?g p = p \<and> ?h p = as_str (?dd nm ids sm j)" if "j < length ?ds" for j
    using dp(3) disputes that unfolding dp(2) [symmetric] by - (rule exI [of _ "fst (dp ! j)"], fastforce)
  show ?thesis
    by (rule exI [of _ ?g], rule exI [of _ ?h]) (use v' cl di sentences in blast)
qed

end
