(* ===== verification/Preparation.thy ===== *)
theory Preparation
  imports Placeholder
begin

text \<open>
  From a model's answer to claims and disputes (\<open>src/agent/prepare.rs\<close>, with the checks of \<open>src/agent/inbox.rs\<close>): ids
  and sources are parsed, everything the answer refers to must have been visible to the model, and updates keep the
  holder and the creation time of the claim they replace.
\<close>

section \<open>Drafts\<close>

record claim_draft =
  draft_id :: string
  draft_name :: string
  draft_statement :: string
  draft_scope :: string
  draft_confidence :: confidence
  draft_status :: "string option"
  draft_evidence :: string
  draft_sources :: "string list"

record dispute_draft =
  dd_id :: string
  dd_name :: string
  dd_claims :: "string list"
  dd_summary :: string

record internalize_outcome =
  drafted_claims :: "claim_draft list"
  drafted_updates :: "claim_draft list"
  drafted_disputes :: "dispute_draft list"

datatype draft_field = NewClaims | UpdatedClaims

datatype prepare_error =
    BadClaimId draft_field nat
  | BadSource draft_field nat nat
  | SelfSource draft_field nat nat
  | SourceNotAllowed draft_field nat nat
  | PolicyNotVisible draft_field nat nat
  | UnknownClaim nat claim_id
  | DuplicateUpdate claim_id
  | StatusMissing nat
  | StatusInvalid nat string
  | BadDisputeClaim nat nat
  | RepeatedDisputeClaim nat
  | TooFewDisputeClaims nat
  | DisputeClaimNotAllowed nat "claim_id list"
  | BadDisputeId nat
  | IdsNotVisible "claim_id list"
  | PolicySourceMissing draft_field nat
  | HolderMismatch
  | DisputesDeprecated dispute_id
  | PlaceholderFailure placeholder_error
  | NotAnOutcome

section \<open>Visible ids\<close>

definition llm_visible_claims :: "claim list \<Rightarrow> claim list" where
  "llm_visible_claims cs = filter (\<lambda>c. claim_status c \<noteq> Deprecated) cs"

definition is_claim_id_token_byte :: "char \<Rightarrow> bool" where
  "is_claim_id_token_byte b \<longleftrightarrow> is_ascii_lowercase b \<or> is_ascii_uppercase b \<or> is_ascii_digit b \<or> b = CHR ''_''"

text \<open>The scan of a text for claim ids; \<open>prev\<close> is the byte before the rest.\<close>

function extract_ids :: "char option \<Rightarrow> string \<Rightarrow> claim_id set" where
  "extract_ids prev [] = {}"
| "extract_ids prev (c # s) =
     (if str_starts_with (c # s) claim_prefix then
        (if 14 \<le> length (c # s) \<and> hex8_suffix (take 8 (drop 6 (c # s)))
            \<and> (case drop 14 (c # s) of [] \<Rightarrow> True | b # _ \<Rightarrow> \<not> is_claim_id_token_byte b)
            \<and> (case prev of None \<Rightarrow> True | Some b \<Rightarrow> \<not> is_claim_id_token_byte b)
         then (case id_from_str claim_prefix (take 14 (c # s)) of Inl _ \<Rightarrow> {} | Inr i \<Rightarrow> {i}) else {})
        \<union> extract_ids (Some (CHR ''_'')) (drop 6 (c # s))
      else extract_ids (Some c) s)"
  by pat_completeness auto

termination
  by (relation "measure (\<lambda>(_, s). length s)") auto

declare extract_ids.simps [simp del]

definition extract_claim_ids_from_text :: "string \<Rightarrow> claim_id set" where
  "extract_claim_ids_from_text s = extract_ids None s"

definition allowed_claim_ids_for_recap :: "claim list \<Rightarrow> string list \<Rightarrow> claim_id set" where
  "allowed_claim_ids_for_recap local transcript = claim_id ` set local \<union> (\<Union>s \<in> set transcript. extract_claim_ids_from_text s)"

definition validate_claim_ids :: "claim_id list \<Rightarrow> claim_id set \<Rightarrow> prepare_error + claim_id list" where
  "validate_claim_ids ids allowed = (let invalid = filter (\<lambda>i. i \<notin> allowed) ids in
     if invalid \<noteq> [] then Inl (IdsNotVisible invalid) else Inr (dedup ids))"

definition push_source_id_once :: "source_id list \<Rightarrow> source_id \<Rightarrow> source_id list" where
  "push_source_id_once sources s = (if s \<in> set sources then sources else sources @ [s])"

definition sorted_source_ids :: "source_id list \<Rightarrow> source_id list" where
  "sorted_source_ids ids = sort_by (cmp_key source_as_str) (dedup ids)"

fun visible_policies :: "draft_field \<Rightarrow> nat \<Rightarrow> nat \<Rightarrow> policy_id set \<Rightarrow> string list \<Rightarrow> prepare_error + unit" where
  "visible_policies field idx j allowed [] = Inr ()"
| "visible_policies field idx j allowed (raw # raws) =
     (case source_from_str raw of
        Inl _ \<Rightarrow> Inl (BadSource field idx j)
      | Inr (SourceClaim _) \<Rightarrow> visible_policies field idx (Suc j) allowed raws
      | Inr (SourcePolicy p) \<Rightarrow> if p \<notin> allowed then Inl (PolicyNotVisible field idx j) else visible_policies field idx (Suc j) allowed raws)"

fun validate_visible_policy_sources :: "draft_field \<Rightarrow> nat \<Rightarrow> claim_draft list \<Rightarrow> policy_id set \<Rightarrow> prepare_error + unit" where
  "validate_visible_policy_sources field idx [] allowed = Inr ()"
| "validate_visible_policy_sources field idx (d # ds) allowed =
     and_then (visible_policies field idx 0 allowed (draft_sources d)) (\<lambda>_. validate_visible_policy_sources field (Suc idx) ds allowed)"

section \<open>Claims\<close>

fun parse_sources :: "draft_field \<Rightarrow> nat \<Rightarrow> nat \<Rightarrow> claim_id \<Rightarrow> claim_id set option \<Rightarrow> string list \<Rightarrow> source_id list \<Rightarrow> prepare_error + source_id list" where
  "parse_sources field idx j own allowed [] sources = Inr sources"
| "parse_sources field idx j own allowed (raw # raws) sources =
     (case source_from_str raw of
        Inl _ \<Rightarrow> Inl (BadSource field idx j)
      | Inr s \<Rightarrow>
          if s = SourceClaim own then Inl (SelfSource field idx j)
          else if (case (allowed, s) of (Some a, SourceClaim i) \<Rightarrow> i \<notin> a | _ \<Rightarrow> False) then Inl (SourceNotAllowed field idx j)
          else parse_sources field idx (Suc j) own allowed raws (push_source_id_once sources s))"

fun prepare_claims :: "nat \<Rightarrow> claim_draft list \<Rightarrow> claim_id set option \<Rightarrow> agent_id \<Rightarrow> time \<Rightarrow> prepare_error + claim list" where
  "prepare_claims idx [] allowed holder now = Inr []"
| "prepare_claims idx (d # ds) allowed holder now =
     (case id_from_str claim_prefix (draft_id d) of
        Inl _ \<Rightarrow> Inl (BadClaimId NewClaims idx)
      | Inr i \<Rightarrow> and_then (parse_sources NewClaims idx 0 i allowed (draft_sources d) []) (\<lambda>sources.
          and_then (prepare_claims (Suc idx) ds allowed holder now) (\<lambda>cs.
            Inr (\<lparr>claim_id = i, claim_name = draft_name d, claim_statement = draft_statement d, claim_scope = draft_scope d,
                  claim_holder = holder, claim_confidence = draft_confidence d, claim_status = Active,
                  claim_created_at = truncate_to_second now, claim_updated_at = None, source_claim_ids = sources,
                  evidence_summary = draft_evidence d\<rparr> # cs))))"

definition parse_status :: "nat \<Rightarrow> string \<Rightarrow> prepare_error + claim_status" where
  "parse_status idx s = (if s = ''active'' then Inr Active else if s = ''stale'' then Inr Stale
     else if s = ''deprecated'' then Inr Deprecated else Inl (StatusInvalid idx s))"

fun prepare_claim_updates ::
  "nat \<Rightarrow> claim_draft list \<Rightarrow> (claim_id \<Rightarrow> claim option) \<Rightarrow> claim_id set option \<Rightarrow> time \<Rightarrow> claim_id list \<Rightarrow> prepare_error + claim list" where
  "prepare_claim_updates idx [] local_by_id allowed now seen = Inr []"
| "prepare_claim_updates idx (d # ds) local_by_id allowed now seen =
     (case id_from_str claim_prefix (draft_id d) of
        Inl _ \<Rightarrow> Inl (BadClaimId UpdatedClaims idx)
      | Inr i \<Rightarrow> (case local_by_id i of
          None \<Rightarrow> Inl (UnknownClaim idx i)
        | Some existing \<Rightarrow>
            if i \<in> set seen then Inl (DuplicateUpdate i) else
            and_then (require (StatusMissing idx) (draft_status d)) (\<lambda>raw.
            and_then (parse_status idx raw) (\<lambda>st.
            and_then (parse_sources UpdatedClaims idx 0 i allowed (draft_sources d) []) (\<lambda>sources.
            and_then (prepare_claim_updates (Suc idx) ds local_by_id allowed now (i # seen)) (\<lambda>cs.
              Inr (\<lparr>claim_id = i, claim_name = draft_name d, claim_statement = draft_statement d, claim_scope = draft_scope d,
                    claim_holder = claim_holder existing, claim_confidence = draft_confidence d, claim_status = st,
                    claim_created_at = claim_created_at existing,
                    claim_updated_at = Some (next_claim_update_at now (effective_updated_at existing)),
                    source_claim_ids = sources, evidence_summary = draft_evidence d\<rparr> # cs)))))))"

section \<open>Disputes\<close>

fun parse_dispute_claims :: "nat \<Rightarrow> nat \<Rightarrow> string list \<Rightarrow> prepare_error + claim_id list" where
  "parse_dispute_claims idx j [] = Inr []"
| "parse_dispute_claims idx j (raw # raws) =
     (case id_from_str claim_prefix raw of
        Inl _ \<Rightarrow> Inl (BadDisputeClaim idx j)
      | Inr i \<Rightarrow> and_then (parse_dispute_claims idx (Suc j) raws) (\<lambda>is. Inr (i # is)))"

fun prepare_disputes :: "nat \<Rightarrow> dispute_draft list \<Rightarrow> claim_id set option \<Rightarrow> agent_id \<Rightarrow> time \<Rightarrow> prepare_error + dispute list" where
  "prepare_disputes idx [] allowed reporter now = Inr []"
| "prepare_disputes idx (d # ds) allowed reporter now =
     and_then (parse_dispute_claims idx 0 (dd_claims d)) (\<lambda>parsed.
     if \<not> distinct parsed then Inl (RepeatedDisputeClaim idx)
     else if length parsed < 2 then Inl (TooFewDisputeClaims idx)
     else let invalid = (case allowed of None \<Rightarrow> [] | Some a \<Rightarrow> filter (\<lambda>i. i \<notin> a) parsed) in
       if invalid \<noteq> [] then Inl (DisputeClaimNotAllowed idx invalid)
       else (case id_from_str dispute_prefix (dd_id d) of
          Inl _ \<Rightarrow> Inl (BadDisputeId idx)
        | Inr i \<Rightarrow> and_then (prepare_disputes (Suc idx) ds allowed reporter now) (\<lambda>rest.
            Inr (\<lparr>dispute_id = i, dispute_name = dd_name d, reporter_agent_id = reporter, dispute_claims = parsed, dispute_summary = dd_summary d,
                  dispute_status = Open, dispute_created_at = truncate_to_second now, dispute_resolved_at = None\<rparr> # rest))))"

section \<open>Checks of an inbox batch\<close>

text \<open>A hash map from ids to claims, collected from a list: the last claim of an id counts.\<close>

definition by_claim_id :: "claim list \<Rightarrow> claim_id \<Rightarrow> claim option" where
  "by_claim_id cs = map_of (rev (map (\<lambda>c. (claim_id c, c)) cs))"

definition validate_new_disputes_against_final_claim_status ::
  "(claim_id \<Rightarrow> claim option) \<Rightarrow> claim list \<Rightarrow> claim list \<Rightarrow> dispute list \<Rightarrow> prepare_error + unit" where
  "validate_new_disputes_against_final_claim_status existing new_claims updated_claims new_disputes =
     (let final = (\<lambda>i. map_option claim_status ((existing ++ by_claim_id (new_claims @ updated_claims)) i)) in
      case find (\<lambda>d. list_ex (\<lambda>i. final i = Some Deprecated) (dispute_claims d)) new_disputes of
        Some d \<Rightarrow> Inl (DisputesDeprecated (dispute_id d))
      | None \<Rightarrow> Inr ())"

definition inbox_policy_ids :: "inbox_message list \<Rightarrow> policy_id list" where
  "inbox_policy_ids ms = dedup (map message_policy_id ms)"

definition missing_cau_policy_source :: "string list \<Rightarrow> policy_id list \<Rightarrow> (policy_id option) option" where
  "missing_cau_policy_source sources batch =
     (if list_ex (\<lambda>s. list_ex (\<lambda>i. s = as_str i) batch) sources then Some None
      else case batch of [i] \<Rightarrow> Some (Some i) | _ \<Rightarrow> None)"

fun ensure_provenance :: "draft_field \<Rightarrow> nat \<Rightarrow> claim_draft list \<Rightarrow> policy_id list \<Rightarrow> prepare_error + claim_draft list" where
  "ensure_provenance field idx [] batch = Inr []"
| "ensure_provenance field idx (d # ds) batch =
     (case missing_cau_policy_source (draft_sources d) batch of
        None \<Rightarrow> Inl (PolicySourceMissing field idx)
      | Some m \<Rightarrow> and_then (ensure_provenance field (Suc idx) ds batch) (\<lambda>rest.
          Inr ((case m of None \<Rightarrow> d | Some i \<Rightarrow> d\<lparr>draft_sources := draft_sources d @ [as_str i]\<rparr>) # rest)))"

definition ensure_cau_policy_provenance :: "internalize_outcome \<Rightarrow> policy_id list \<Rightarrow> prepare_error + internalize_outcome" where
  "ensure_cau_policy_provenance out batch =
     and_then (ensure_provenance NewClaims 0 (drafted_claims out) batch) (\<lambda>cs.
     and_then (ensure_provenance UpdatedClaims 0 (drafted_updates out) batch) (\<lambda>us.
       Inr (out\<lparr>drafted_claims := cs, drafted_updates := us\<rparr>)))"

fun new_claim_ids :: "nat \<Rightarrow> claim_draft list \<Rightarrow> prepare_error + claim_id list" where
  "new_claim_ids idx [] = Inr []"
| "new_claim_ids idx (d # ds) = (case id_from_str claim_prefix (draft_id d) of
     Inl _ \<Rightarrow> Inl (BadClaimId NewClaims idx)
   | Inr i \<Rightarrow> and_then (new_claim_ids (Suc idx) ds) (\<lambda>is. Inr (i # is)))"

definition source_claims_of :: "claim list \<Rightarrow> claim_id set" where
  "source_claims_of cs = (\<Union>c \<in> set cs. \<Union>s \<in> set (source_claim_ids c). case s of SourceClaim i \<Rightarrow> {i} | SourcePolicy _ \<Rightarrow> {})"

definition source_policies_of :: "claim list \<Rightarrow> policy_id set" where
  "source_policies_of cs = (\<Union>c \<in> set cs. \<Union>s \<in> set (source_claim_ids c). case s of SourceClaim _ \<Rightarrow> {} | SourcePolicy i \<Rightarrow> {i})"

type_synonym prepared = "claim list \<times> claim list \<times> dispute list"

text \<open>
  What the model returned, with the instant and the random salts of its ids; \<open>hash_finish\<close> is the hasher of the
  standard library and \<open>outcome_of\<close> the generated deserialiser.
\<close>

record model_answer =
  answer_json :: json
  answered_at :: time
  claim_salts :: "nat \<Rightarrow> 16 word"
  dispute_salts :: "nat \<Rightarrow> 16 word"
  trace_salt :: "16 word"

record decoder =
  hash_finish :: "hash_write list \<Rightarrow> 64 word"
  outcome_of :: "json \<Rightarrow> internalize_outcome option"

definition read_answer :: "decoder \<Rightarrow> model_answer \<Rightarrow> prepare_error + internalize_outcome" where
  "read_answer dec ans =
     (case resolve_placeholders (hash_finish dec) (claim_salts ans) (dispute_salts ans) (answer_json ans) (answered_at ans) of
        Inl e \<Rightarrow> Inl (PlaceholderFailure e)
      | Inr v \<Rightarrow> require NotAnOutcome (outcome_of dec v))"

text \<open>The steps both ways of preparing an answer share, after the placeholders and the provenance.\<close>

definition prepare_drafts ::
  "bool \<Rightarrow> agent_id \<Rightarrow> time \<Rightarrow> internalize_outcome \<Rightarrow> (claim_id \<Rightarrow> claim option) \<Rightarrow> policy_id set \<Rightarrow> claim_id set \<Rightarrow> claim_id set
   \<Rightarrow> prepare_error + prepared" where
  "prepare_drafts own_only a now out local_by_id policies sources disputable =
     and_then (validate_visible_policy_sources NewClaims 0 (drafted_claims out) policies) (\<lambda>_.
     and_then (validate_visible_policy_sources UpdatedClaims 0 (drafted_updates out) policies) (\<lambda>_.
     and_then (new_claim_ids 0 (drafted_claims out)) (\<lambda>new.
     and_then (prepare_claims 0 (drafted_claims out) (Some (sources \<union> set new)) a now) (\<lambda>cs.
     and_then (prepare_claim_updates 0 (drafted_updates out) local_by_id (Some (sources \<union> set new)) now []) (\<lambda>us.
     if own_only \<and> list_ex (\<lambda>c. claim_holder c \<noteq> a) us then Inl HolderMismatch else
     and_then (prepare_disputes 0 (drafted_disputes out) (Some (disputable \<union> set new)) a now) (\<lambda>ds.
       Inr (cs, us, ds)))))))"

definition prepare_internalized_output ::
  "decoder \<Rightarrow> agent_id \<Rightarrow> model_answer \<Rightarrow> (claim_id \<Rightarrow> claim option) \<Rightarrow> policy_id set \<Rightarrow> claim_id set \<Rightarrow> claim_id set \<Rightarrow> prepare_error + prepared" where
  "prepare_internalized_output dec a ans local_by_id policies sources disputable =
     and_then (read_answer dec ans) (\<lambda>out.
     and_then (prepare_drafts False a (answered_at ans) out local_by_id policies sources disputable) (\<lambda>(cs, us, ds).
     and_then (validate_new_disputes_against_final_claim_status local_by_id cs us ds) (\<lambda>_. Inr (cs, us, ds))))"

text \<open>The request of a policy update and what its answer may refer to.\<close>

definition internalize_and_prepare_once ::
  "decoder \<Rightarrow> agent_id \<Rightarrow> model_answer \<Rightarrow> inbox_message list \<Rightarrow> claim list \<Rightarrow> prepare_error + prepared" where
  "internalize_and_prepare_once dec a ans ms local =
     prepare_internalized_output dec a ans (by_claim_id local) (set (inbox_policy_ids ms) \<union> source_policies_of local)
       (claim_id ` set local \<union> source_claims_of local) (claim_id ` set local)"

text \<open>The same for a batch of attribute updates, which also shows the claims the resolutions are about.\<close>

definition cau_resolution_context :: "inbox_message \<Rightarrow> arbitration_resolution_context option" where
  "cau_resolution_context m = (case message_kind m of ClaimAttributeUpdate _ c \<Rightarrow> c | PolicyUpdate _ \<Rightarrow> None)"

definition direct_claims_of :: "inbox_message \<Rightarrow> claim list" where
  "direct_claims_of m = (case cau_resolution_context m of
     None \<Rightarrow> [] | Some c \<Rightarrow> sort_by (cmp_key claim_id) (direct_claim_snapshots c))"

definition claim_attribute_update_internalize_and_prepare_once ::
  "decoder \<Rightarrow> agent_id \<Rightarrow> model_answer \<Rightarrow> inbox_message list \<Rightarrow> claim list \<Rightarrow> prepare_error + prepared" where
  "claim_attribute_update_internalize_and_prepare_once dec a ans ms local =
     (let direct = concat (map direct_claims_of ms); shown = direct @ local; batch = inbox_policy_ids ms in
      and_then (read_answer dec ans) (\<lambda>out0.
      and_then (ensure_cau_policy_provenance out0 batch) (\<lambda>out.
      and_then (prepare_drafts True a (answered_at ans) out (by_claim_id local) (set batch \<union> source_policies_of shown)
        (claim_id ` set shown \<union> source_claims_of shown) (claim_id ` set shown)) (\<lambda>(cs, us, ds).
      and_then (validate_new_disputes_against_final_claim_status (by_claim_id direct ++ by_claim_id local) cs us ds) (\<lambda>_.
        Inr (cs, us, ds))))))"

section \<open>Checks of a resolution\<close>

definition validate_arbitration_message :: "inbox_message \<Rightarrow> arbitration_resolution_context \<Rightarrow> bool" where
  "validate_arbitration_message m c \<longleftrightarrow>
     (let r = context_resolution c; direct = map claim_id (direct_claim_snapshots c); disputed = dispute_claims (dispute_snapshot c);
          assessed = map assessed_claim_id (claim_assessments r) in
      context_dispute_id c = dispute_id (dispute_snapshot c)
      \<and> (case resolution_type r of None \<Rightarrow> True | Some k \<Rightarrow> is_resolved k)
      \<and> resolution_basis r \<noteq> Some InsufficientEvidence
      \<and> distinct direct \<and> distinct disputed \<and> set direct = set disputed
      \<and> (assessed = [] \<or> distinct assessed \<and> set assessed = set direct)
      \<and> as_str (message_id m) \<noteq> [])"

definition claim_semantics_equal :: "claim \<Rightarrow> claim \<Rightarrow> bool" where
  "claim_semantics_equal l r \<longleftrightarrow> claim_id l = claim_id r \<and> claim_name l = claim_name r \<and> claim_statement l = claim_statement r
     \<and> claim_scope l = claim_scope r \<and> claim_holder l = claim_holder r \<and> claim_confidence l = claim_confidence r
     \<and> claim_status l = claim_status r \<and> evidence_summary l = evidence_summary r
     \<and> set (source_claim_ids l) = set (source_claim_ids r)"

definition repeats_resolved_arbitration_input ::
  "dispute \<Rightarrow> arbitration_resolution_context \<Rightarrow> (claim_id \<Rightarrow> claim option) \<Rightarrow> claim list \<Rightarrow> bool" where
  "repeats_resolved_arbitration_input d c local updates \<longleftrightarrow>
     distinct (dispute_claims d) \<and> distinct (dispute_claims (dispute_snapshot c))
     \<and> set (dispute_claims d) = set (dispute_claims (dispute_snapshot c))
     \<and> list_all (\<lambda>s. case (local ++ by_claim_id updates) (claim_id s) of None \<Rightarrow> True | Some x \<Rightarrow> claim_semantics_equal x s)
         (filter (\<lambda>s. local (claim_id s) \<noteq> None) (direct_claim_snapshots c))"

end
