(* ===== verification/Knowledge.thy ===== *)
theory Knowledge
  imports Upload_Queue Preparation
begin

text \<open>
  An agent's own knowledge: the claim and trace files and the ledger of reported disputes (\<open>src/agent/fs.rs\<close>,
  \<open>dispute_report.rs\<close>), the records of the effect journal (\<open>src/agent/inbox.rs\<close>) and the comparison of a plan with the
  claims as they are now (\<open>src/agent/claim_alignment.rs\<close>).
\<close>

section \<open>Records of the journal\<close>

datatype inbox_effect_state = Prepared | Applied

record planned_claim_update =
  update_target :: claim
  preimage_hash :: string

record inbox_effect_member =
  member_inbox_id :: inbox_id
  member_resolution_id :: "arbitration_resolution_id option"
  member_message_hash :: string

text \<open>The warnings of a plan, as the cases of their texts.\<close>

datatype effect_warning = StalePlanWarning | AlreadyReported dispute_id | RepeatedInBatch dispute_id

record inbox_effect_plan =
  plan_schema_version :: nat
  plan_inbox_id :: inbox_id
  plan_resolution_id :: "arbitration_resolution_id option"
  plan_message_hash :: string
  batch_members :: "inbox_effect_member list"
  batch_hash :: "string option"
  analysis_claims :: "claim list option"
  applied_claims :: "claim list"
  effect_state :: inbox_effect_state
  prepared_at :: time
  planned_claims :: "claim list"
  planned_updates :: "planned_claim_update list"
  deprecated_claim_ids :: "claim_id list"
  planned_disputes :: "dispute list"
  planned_trace :: "trace option"
  plan_warnings :: "effect_warning list"

record inbox_effect_ref =
  ref_schema_version :: nat
  canonical_inbox_id :: inbox_id
  ref_batch_hash :: string

datatype inbox_effect_record = PlanRecord inbox_effect_plan | RefRecord inbox_effect_ref

section \<open>State\<close>

record reported_dispute_claim_set_record =
  first_dispute_id :: dispute_id
  reported_at :: time

text \<open>The faults of the file system are those of the upload queue, which lives in the same directory.\<close>

record knowledge_home =
  kn_uploads :: upload_queue
  claim_files :: "claim dir"
  trace_files :: "trace dir"
  effect_files :: "inbox_effect_record dir"
  ledger_file :: "(string \<times> reported_dispute_claim_set_record) list yaml_file option"
  dream_pending :: bool

datatype knowledge_error =
    KnowledgeStorage upload_error
  | KnowledgeBusy
  | NotAnAttributeUpdate
  | InvalidResolution
  | RepeatedInboxId inbox_id
  | EmptyBatch
  | ForeignClaim claim_id
  | RepeatedClaim claim_id
  | ModelUnavailable
  | ModelRejected prepare_error
  | UpdateWithoutPreimage claim_id
  | RefWithoutPlan inbox_id
  | IncompatibleSchema
  | InconsistentPlan
  | BatchCacheMissing
  | DifferentPlan inbox_id
  | InconsistentRef inbox_id
  | NotAMember inbox_id
  | DifferentPayload inbox_id
  | StalePlan
  | TraceConflict trace_id

type_synonym 'a knowledge_io = "(knowledge_home, knowledge_error, 'a) io"

definition at_uploads :: "'a queue_io \<Rightarrow> 'a knowledge_io" where
  "at_uploads m w = (case m (kn_uploads w) of (r, q) \<Rightarrow> (map_sum KnowledgeStorage id r, w\<lparr>kn_uploads := q\<rparr>))"

definition kn_call :: "unit knowledge_io" where
  "kn_call = at_uploads up_call"

definition kn_decode :: "'a knowledge_io" where
  "kn_decode = throw_io (KnowledgeStorage (UploadStorage (DecodeError [])))"

section \<open>Claims and traces\<close>

definition write_claim :: "claim \<Rightarrow> unit knowledge_io" where
  "write_claim c = bind_io kn_call (\<lambda>_. modify_io (claim_files_update (AList.update (yaml_name (claim_id c)) (Document c))))"

definition write_trace_file :: "trace \<Rightarrow> unit knowledge_io" where
  "write_trace_file t = bind_io kn_call (\<lambda>_. modify_io (trace_files_update (AList.update (yaml_name (trace_id t)) (Document t))))"

text \<open>Damaged files are left out of a listing; a failing call ends it.\<close>

fun list_yaml_files :: "'a dir \<Rightarrow> 'a list knowledge_io" where
  "list_yaml_files [] = return_io []"
| "list_yaml_files ((n, f) # fs) = bind_io kn_call (\<lambda>_.
     if \<not> is_yaml_file_name n then list_yaml_files fs
     else bind_io kn_call (\<lambda>_. bind_io (list_yaml_files fs) (\<lambda>xs. return_io (case f of Document x \<Rightarrow> x # xs | _ \<Rightarrow> xs))))"

definition list_local_claims :: "claim list knowledge_io" where
  "list_local_claims = bind_io kn_call (\<lambda>_. bind_io kn_call (\<lambda>_. bind_io (get_io claim_files) list_yaml_files))"

definition list_local_traces :: "trace list knowledge_io" where
  "list_local_traces = bind_io kn_call (\<lambda>_. bind_io kn_call (\<lambda>_. bind_io (get_io trace_files) list_yaml_files))"

definition read_local :: "(knowledge_home \<Rightarrow> 'a dir) \<Rightarrow> 'k ident \<Rightarrow> 'a option knowledge_io" where
  "read_local get i = bind_io kn_call (\<lambda>_. bind_io (get_io (\<lambda>w. map_of (get w) (yaml_name i))) (\<lambda>f. case f of
       None \<Rightarrow> return_io None
     | Some (Document x) \<Rightarrow> return_io (Some x)
     | Some _ \<Rightarrow> kn_decode))"

definition read_inbox_effect_record :: "inbox_id \<Rightarrow> inbox_effect_record option knowledge_io" where
  "read_inbox_effect_record i = read_local effect_files i"

definition write_effect :: "inbox_id \<Rightarrow> inbox_effect_record \<Rightarrow> unit knowledge_io" where
  "write_effect i r = bind_io kn_call (\<lambda>_. modify_io (effect_files_update (AList.update (yaml_name i) (Document r))))"

definition ensure_knowledge_ready :: "unit knowledge_io" where
  "ensure_knowledge_ready = bind_io kn_call (\<lambda>_. bind_io (get_io dream_pending) (\<lambda>p. if p then throw_io KnowledgeBusy else return_io ()))"

section \<open>The ledger of reported disputes\<close>

definition reported_dispute_claim_set_key :: "claim_id list \<Rightarrow> string" where
  "reported_dispute_claim_set_key cs = join_with '' | '' (remdups_adj (sort (map as_str cs)))"

definition read_ledger :: "(string \<times> reported_dispute_claim_set_record) list knowledge_io" where
  "read_ledger = bind_io kn_call (\<lambda>_. bind_io (get_io ledger_file) (\<lambda>f. case f of
       None \<Rightarrow> return_io [] | Some (Document m) \<Rightarrow> return_io m | Some _ \<Rightarrow> kn_decode))"

definition dispute_claim_set_reported :: "dispute \<Rightarrow> bool knowledge_io" where
  "dispute_claim_set_reported d = bind_io read_ledger (\<lambda>m.
     return_io (get_by fst (reported_dispute_claim_set_key (dispute_claims d)) m \<noteq> None))"

definition record_claim_set :: "claim_id list \<Rightarrow> dispute_id \<Rightarrow> time \<Rightarrow> unit knowledge_io" where
  "record_claim_set cs i now = bind_io read_ledger (\<lambda>m. let k = reported_dispute_claim_set_key cs in
     bind_io kn_call (\<lambda>_. modify_io (ledger_file_update (\<lambda>_. Some (Document
       (if get_by fst k m = None then put_by fst (k, \<lparr>first_dispute_id = i, reported_at = now\<rparr>) m else m))))))"

definition record_dispute_if_new :: "time \<Rightarrow> dispute \<Rightarrow> bool knowledge_io" where
  "record_dispute_if_new now d = bind_io (dispute_claim_set_reported d) (\<lambda>known.
     if known then return_io False
     else bind_io (record_claim_set (dispute_claims d) (dispute_id d) now) (\<lambda>_. return_io True))"

section \<open>A plan against the claims of today\<close>

definition observe_applied :: "claim list \<Rightarrow> claim list \<Rightarrow> claim list \<Rightarrow> claim list" where
  "observe_applied targets current applied =
     fold (\<lambda>t applied. if \<not> list_ex (\<lambda>c. claim_id c = claim_id t) applied \<and> t \<in> set current then applied @ [t] else applied) targets applied"

record claim_change =
  change_id :: claim_id
  change_before :: "claim option"
  change_current :: "claim option"
  changed_fields :: "string list"

definition field_changes :: "claim \<Rightarrow> claim \<Rightarrow> string list" where
  "field_changes b c = map fst (filter snd
     [(''name'', claim_name b \<noteq> claim_name c), (''statement'', claim_statement b \<noteq> claim_statement c), (''scope'', claim_scope b \<noteq> claim_scope c),
      (''holder'', claim_holder b \<noteq> claim_holder c), (''confidence'', claim_confidence b \<noteq> claim_confidence c),
      (''status'', claim_status b \<noteq> claim_status c), (''created_at'', claim_created_at b \<noteq> claim_created_at c),
      (''updated_at'', claim_updated_at b \<noteq> claim_updated_at c), (''source_claim_ids'', source_claim_ids b \<noteq> source_claim_ids c),
      (''evidence_summary'', evidence_summary b \<noteq> evidence_summary c)])"

definition expected_claims :: "claim list option \<Rightarrow> claim list \<Rightarrow> claim list \<Rightarrow> (claim_id \<times> claim option) list" where
  "expected_claims analysis targets applied =
     fold (\<lambda>c m. if c \<in> set targets then put_by fst (claim_id c, Some c) m else m) applied
       (fold (\<lambda>t m. if get_by fst (claim_id t) m = None then put_by fst (claim_id t, None) m else m) targets
          (fold (\<lambda>c. put_by fst (claim_id c, Some c)) (case analysis of None \<Rightarrow> [] | Some cs \<Rightarrow> cs) []))"

definition changes :: "claim list option \<Rightarrow> claim list \<Rightarrow> claim list \<Rightarrow> claim list \<Rightarrow> claim_change list" where
  "changes analysis targets applied current =
     map (\<lambda>(i, before). let actual = by_claim_id current i in \<lparr>change_id = i, change_before = before, change_current = actual,
            changed_fields = (case (before, actual) of (Some b, Some c) \<Rightarrow> field_changes b c | _ \<Rightarrow> [''existence''])\<rparr>)
       (filter (\<lambda>(i, before). by_claim_id current i \<noteq> before) (expected_claims analysis targets applied))"

definition analysis_is_stale :: "claim list option \<Rightarrow> claim_change list \<Rightarrow> bool" where
  "analysis_is_stale analysis diffs \<longleftrightarrow> analysis = None \<or> diffs \<noteq> []"

end
