(* ===== verification/Effect_Journal.thy ===== *)
theory Effect_Journal
  imports Knowledge Local_Inbox
begin

text \<open>
  The effect journal of attribute updates (\<open>src/agent/inbox.rs\<close>): the model's answer to a batch of messages is written
  down as a plan before any claim changes, the plan is applied claim by claim with its progress kept, and a plan whose
  analysis no longer fits the claims is given up as a whole.  Locks are calls that can fail; the files of an agent have
  one writer at a time, so the second discovery of the paths to lock finds what the first one found.
\<close>

section \<open>Setting\<close>

text \<open>
  \<open>generator\<close> is the model: the answer its last attempt gave to a request, if any.  The hashes are SHA-256 over the
  serialised value.
\<close>

record journal_setting =
  js_agent :: agent_id
  js_decoder :: decoder
  generator :: "inbox_message list \<Rightarrow> claim list \<Rightarrow> model_answer option"
  hash_message :: "inbox_message \<Rightarrow> string"
  hash_members :: "inbox_effect_member list \<Rightarrow> string"
  hash_claim :: "claim \<Rightarrow> string"
  maintainer_client :: bool
  router_configured :: bool
  ledger_now :: time

definition team_services_configured :: "journal_setting \<Rightarrow> bool" where
  "team_services_configured S \<longleftrightarrow> maintainer_client S \<and> router_configured S"

definition is_attribute_update :: "inbox_message \<Rightarrow> bool" where
  "is_attribute_update m \<longleftrightarrow> (case message_kind m of ClaimAttributeUpdate _ _ \<Rightarrow> True | PolicyUpdate _ \<Rightarrow> False)"

section \<open>Members\<close>

definition effect_schema :: nat where "effect_schema = 1"

definition resolution_id_of :: "inbox_message \<Rightarrow> arbitration_resolution_id option" where
  "resolution_id_of m = map_option (\<lambda>c. resolution_id (context_resolution c)) (cau_resolution_context m)"

fun effect_members_from_messages :: "journal_setting \<Rightarrow> inbox_id list \<Rightarrow> inbox_message list \<Rightarrow> knowledge_error + inbox_effect_member list" where
  "effect_members_from_messages S seen [] = Inr []"
| "effect_members_from_messages S seen (m # ms) =
     (if message_id m \<in> set seen then Inl (RepeatedInboxId (message_id m))
      else and_then (effect_members_from_messages S (message_id m # seen) ms) (\<lambda>rest.
        Inr (\<lparr>member_inbox_id = message_id m, member_resolution_id = resolution_id_of m, member_message_hash = hash_message S m\<rparr> # rest)))"

definition effect_plan_members :: "inbox_effect_plan \<Rightarrow> inbox_effect_member list" where
  "effect_plan_members p = (if batch_members p = []
     then [\<lparr>member_inbox_id = plan_inbox_id p, member_resolution_id = plan_resolution_id p, member_message_hash = plan_message_hash p\<rparr>]
     else batch_members p)"

definition validate_effect_plan_integrity :: "journal_setting \<Rightarrow> inbox_effect_plan \<Rightarrow> knowledge_error + unit" where
  "validate_effect_plan_integrity S p =
     (if plan_schema_version p \<noteq> effect_schema then Inl IncompatibleSchema
      else let ms = effect_plan_members p; canonical = hd ms in
        if member_inbox_id canonical \<noteq> plan_inbox_id p \<or> member_resolution_id canonical \<noteq> plan_resolution_id p
           \<or> member_message_hash canonical \<noteq> plan_message_hash p then Inl InconsistentPlan
        else if \<not> distinct (map member_inbox_id ms) then Inl InconsistentPlan
        else case batch_hash p of
            None \<Rightarrow> if batch_members p = [] then Inr () else Inl InconsistentPlan
          | Some h \<Rightarrow> if batch_members p \<noteq> [] \<and> hash_members S ms = h then Inr () else Inl InconsistentPlan)"

definition validate_effect_ref :: "inbox_effect_ref \<Rightarrow> inbox_effect_plan \<Rightarrow> inbox_message \<Rightarrow> knowledge_error + unit" where
  "validate_effect_ref r p m =
     (if ref_schema_version r \<noteq> effect_schema then Inl IncompatibleSchema
      else if canonical_inbox_id r \<noteq> plan_inbox_id p \<or> batch_hash p \<noteq> Some (ref_batch_hash r) then Inl (InconsistentRef (message_id m))
      else Inr ())"

definition validate_effect_plan_message_member ::
  "journal_setting \<Rightarrow> (inbox_id \<Rightarrow> inbox_effect_member option) \<Rightarrow> inbox_message \<Rightarrow> knowledge_error + unit" where
  "validate_effect_plan_message_member S members m = (case members (message_id m) of
       None \<Rightarrow> Inl (NotAMember (message_id m))
     | Some e \<Rightarrow> if member_resolution_id e \<noteq> resolution_id_of m \<or> member_message_hash e \<noteq> hash_message S m
                then Inl (DifferentPayload (message_id m)) else Inr ())"

section \<open>Planning\<close>

definition utf8_text :: "nat list \<Rightarrow> string" where
  "utf8_text bs = map char_of bs"

definition internalise_text :: string where "internalise_text = utf8_text [229, 134, 133, 229, 140, 150]"
definition in_bulk_text :: string where "in_bulk_text = utf8_text [230, 137, 185, 233, 135, 143]"
definition items_text :: string where "items_text = utf8_text [230, 157, 161]"

definition trace_task_of :: "inbox_message list \<Rightarrow> string" where
  "trace_task_of ms = (case ms of
       [m] \<Rightarrow> (case cau_resolution_context m of
           None \<Rightarrow> internalise_text @ '' ClaimAttributeUpdate''
         | Some c \<Rightarrow> internalise_text @ '' ClaimAttributeUpdate resolution '' @ as_str (resolution_id (context_resolution c)))
     | _ \<Rightarrow> in_bulk_text @ internalise_text @ '' '' @ show_nat (length ms) @ '' '' @ items_text @ '' ClaimAttributeUpdate'')"

fun own_claims :: "agent_id \<Rightarrow> claim_id set \<Rightarrow> claim_id list \<Rightarrow> claim list \<Rightarrow> knowledge_error + claim list" where
  "own_claims a direct seen [] = Inr []"
| "own_claims a direct seen (c # cs) =
     (if claim_holder c \<noteq> a then Inl (ForeignClaim (claim_id c))
      else if claim_id c \<in> set seen then Inl (RepeatedClaim (claim_id c))
      else and_then (own_claims a direct (claim_id c # seen) cs) (\<lambda>rest.
        Inr (if claim_status c \<noteq> Deprecated \<or> claim_id c \<in> direct then c # rest else rest)))"

fun plan_updates :: "journal_setting \<Rightarrow> (claim_id \<Rightarrow> claim option) \<Rightarrow> claim list \<Rightarrow> knowledge_error + (planned_claim_update list \<times> claim_id list)" where
  "plan_updates S local [] = Inr ([], [])"
| "plan_updates S local (t # ts) = (case local (claim_id t) of
       None \<Rightarrow> Inl (UpdateWithoutPreimage (claim_id t))
     | Some old \<Rightarrow> and_then (plan_updates S local ts) (\<lambda>(us, retired).
         Inr (\<lparr>update_target = t, preimage_hash = hash_claim S old\<rparr> # us,
              if claim_status old \<noteq> Deprecated \<and> claim_status t = Deprecated then claim_id t # retired else retired)))"

definition direct_ids_of :: "inbox_message list \<Rightarrow> claim_id list" where
  "direct_ids_of ms = concat (map (\<lambda>m. map claim_id (direct_claims_of m)) ms)"

definition plan_trace ::
  "journal_setting \<Rightarrow> inbox_message list \<Rightarrow> model_answer \<Rightarrow> claim list \<Rightarrow> claim list \<Rightarrow> dispute list \<Rightarrow> trace option" where
  "plan_trace S ms ans cs us ds =
     (let outs = map claim_id cs @ map claim_id us in
      if outs = [] \<and> ds = [] then None
      else let ins = sorted_source_ids (map SourcePolicy (inbox_policy_ids ms) @ map SourceClaim (direct_ids_of ms)
                       @ concat (map source_claim_ids cs) @ concat (map source_claim_ids us));
               nm = ''inbox_claim_attribute_update'' in
        Some \<lparr>trace_id = trace_id_from_parts (hash_finish (js_decoder S)) (answered_at ans) nm ins outs (random_hex4 (trace_salt ans)),
              trace_name = nm, trace_task = trace_task_of ms, trace_agent = js_agent S, input_claims = ins, output_claims = outs,
              trace_created_at = truncate_to_second (answered_at ans)\<rparr>)"

definition make_plan ::
  "journal_setting \<Rightarrow> inbox_message list \<Rightarrow> inbox_effect_member list \<Rightarrow> claim list \<Rightarrow> model_answer \<Rightarrow> knowledge_error + inbox_effect_plan" where
  "make_plan S ms members local ans =
     (case claim_attribute_update_internalize_and_prepare_once (js_decoder S) (js_agent S) ans ms local of
        Inl e \<Rightarrow> Inl (ModelRejected e)
      | Inr (cs, us, ds0) \<Rightarrow>
          let ds = filter (\<lambda>d. \<not> list_ex (\<lambda>m. case cau_resolution_context m of None \<Rightarrow> False
                       | Some c \<Rightarrow> repeats_resolved_arbitration_input d c (by_claim_id local) us) ms) ds0 in
          and_then (plan_updates S (by_claim_id local) us) (\<lambda>(ups, retired). Inr
            \<lparr>plan_schema_version = effect_schema, plan_inbox_id = member_inbox_id (hd members), plan_resolution_id = member_resolution_id (hd members),
             plan_message_hash = member_message_hash (hd members),
             batch_members = (if length members = 1 then [] else members),
             batch_hash = (if length members = 1 then None else Some (hash_members S members)),
             analysis_claims = Some local, applied_claims = [], effect_state = Prepared, prepared_at = answered_at ans,
             planned_claims = cs, planned_updates = ups, deprecated_claim_ids = remdups_adj (sort retired), planned_disputes = ds,
             planned_trace = plan_trace S ms ans cs us ds, plan_warnings = []\<rparr>))"

definition prepare_claim_attribute_update_effect :: "journal_setting \<Rightarrow> inbox_message list \<Rightarrow> inbox_effect_plan knowledge_io" where
  "prepare_claim_attribute_update_effect S ms =
     bind_io (lift_sum (effect_members_from_messages S [] ms)) (\<lambda>members.
     if members = [] then throw_io EmptyBatch
     else bind_io list_local_claims (\<lambda>all.
       bind_io (lift_sum (own_claims (js_agent S) (set (direct_ids_of ms)) [] all)) (\<lambda>own.
       let local = sort_by (cmp_key claim_id) own in
       if \<not> list_all is_attribute_update ms then throw_io NotAnAttributeUpdate
       else case generator S ms local of
         None \<Rightarrow> throw_io ModelUnavailable
       | Some ans \<Rightarrow> lift_sum (make_plan S ms members local ans))))"

definition ref_to :: "inbox_effect_plan \<Rightarrow> string \<Rightarrow> inbox_effect_record" where
  "ref_to p h = RefRecord \<lparr>ref_schema_version = effect_schema, canonical_inbox_id = plan_inbox_id p, ref_batch_hash = h\<rparr>"

definition repair_ref :: "inbox_effect_plan \<Rightarrow> string \<Rightarrow> inbox_effect_member \<Rightarrow> unit knowledge_io" where
  "repair_ref p h m = bind_io (read_inbox_effect_record (member_inbox_id m)) (\<lambda>r. case r of
       Some x \<Rightarrow> if x = ref_to p h then return_io () else throw_io (DifferentPlan (member_inbox_id m))
     | None \<Rightarrow> write_effect (member_inbox_id m) (ref_to p h))"

definition repair_claim_attribute_update_refs :: "inbox_effect_plan \<Rightarrow> unit knowledge_io" where
  "repair_claim_attribute_update_refs p = (case batch_hash p of
       None \<Rightarrow> return_io ()
     | Some h \<Rightarrow> for_io (repair_ref p h) (drop 1 (effect_plan_members p)))"

definition persist_prepared_claim_attribute_update_plan :: "inbox_effect_plan \<Rightarrow> unit knowledge_io" where
  "persist_prepared_claim_attribute_update_plan p =
     bind_io (write_effect (plan_inbox_id p) (PlanRecord p)) (\<lambda>_. repair_claim_attribute_update_refs p)"

section \<open>Applying\<close>

definition plan_targets :: "inbox_effect_plan \<Rightarrow> claim list" where
  "plan_targets p = planned_claims p @ map update_target (planned_updates p)"

definition is_applied :: "inbox_effect_plan \<Rightarrow> claim \<Rightarrow> bool" where
  "is_applied p t \<longleftrightarrow> list_ex (\<lambda>c. claim_id c = claim_id t) (applied_claims p)"

definition discard_stale_inbox_plan :: "inbox_effect_plan \<Rightarrow> inbox_effect_plan knowledge_io" where
  "discard_stale_inbox_plan p0 =
     bind_io list_local_claims (\<lambda>current.
     let targets = plan_targets p0; p = p0\<lparr>applied_claims := observe_applied targets current (applied_claims p0)\<rparr> in
     if \<not> analysis_is_stale (analysis_claims p) (changes (analysis_claims p) targets (applied_claims p) current) then return_io p
     else let q = p\<lparr>plan_warnings := plan_warnings p @ (if list_ex (\<lambda>t. \<not> is_applied p t) targets \<or> planned_disputes p \<noteq> [] then [StalePlanWarning] else []),
                    planned_claims := [], planned_updates := [], planned_disputes := [],
                    planned_trace := (if applied_claims p = [] then None else planned_trace p),
                    deprecated_claim_ids := map claim_id (filter (\<lambda>c. claim_status c = Deprecated) (applied_claims p)),
                    analysis_claims := Some current\<rparr> in
       bind_io (write_effect (plan_inbox_id q) (PlanRecord q)) (\<lambda>_. return_io q))"

definition choose_disputes :: "journal_setting \<Rightarrow> inbox_effect_plan \<Rightarrow> inbox_effect_plan knowledge_io" where
  "choose_disputes S p =
     (if \<not> team_services_configured S then return_io p
      else bind_io (fold_io (\<lambda>d (unreported, accepted, warnings).
          bind_io (dispute_claim_set_reported d) (\<lambda>known.
            let k = reported_dispute_claim_set_key (dispute_claims d) in
            return_io (if known then (unreported, accepted, warnings @ [AlreadyReported (dispute_id d)])
                       else if k \<in> set accepted then (unreported, accepted, warnings @ [RepeatedInBatch (dispute_id d)])
                       else (unreported @ [d], k # accepted, warnings)))) (planned_disputes p) ([], [], plan_warnings p))
        (\<lambda>(unreported, _, warnings). return_io (p\<lparr>planned_disputes := unreported, plan_warnings := warnings\<rparr>)))"

definition write_target :: "claim \<Rightarrow> inbox_effect_plan \<Rightarrow> inbox_effect_plan knowledge_io" where
  "write_target t p =
     (if is_applied p t then return_io p
      else bind_io (write_claim t) (\<lambda>_. let q = p\<lparr>applied_claims := applied_claims p @ [t]\<rparr> in
        bind_io (write_effect (plan_inbox_id q) (PlanRecord q)) (\<lambda>_. return_io q)))"

definition store_trace :: "trace option \<Rightarrow> unit knowledge_io" where
  "store_trace v = (case v of
       None \<Rightarrow> return_io ()
     | Some t \<Rightarrow> bind_io (read_local trace_files (trace_id t)) (\<lambda>existing. case existing of
           Some x \<Rightarrow> if x = t then return_io () else throw_io (TraceConflict (trace_id t))
         | None \<Rightarrow> write_trace_file t))"

text \<open>The texts of the warnings sort by these keys.\<close>

fun warning_key :: "effect_warning \<Rightarrow> string" where
  "warning_key (RepeatedInBatch i) = ''dispute='' @ as_str i @ '' 1''"
| "warning_key (AlreadyReported i) = ''dispute='' @ as_str i @ '' 2''"
| "warning_key StalePlanWarning = utf8_text [230]"

text \<open>Successors are written before the claims they replace retire.\<close>

definition retire_last :: "claim list \<Rightarrow> claim list" where
  "retire_last ts = sort_by (cmp_key (\<lambda>c. claim_status c = Deprecated)) ts"

definition finish_effect :: "inbox_effect_plan \<Rightarrow> (inbox_effect_plan \<times> claim list) knowledge_io" where
  "finish_effect p1 =
     bind_io list_local_claims (\<lambda>latest.
     let p2 = p1\<lparr>planned_trace := map_option (\<lambda>t. t\<lparr>output_claims := map claim_id (applied_claims p1)\<rparr>) (planned_trace p1)\<rparr> in
     bind_io (store_trace (planned_trace p2)) (\<lambda>_.
       return_io (p2\<lparr>plan_warnings := remdups_adj (sort_by (cmp_key warning_key) (plan_warnings p2))\<rparr>,
                  filter (\<lambda>c. c \<in> set latest) (applied_claims p2))))"

definition still_applies :: "inbox_effect_plan \<Rightarrow> claim list \<Rightarrow> bool" where
  "still_applies p current \<longleftrightarrow> list_all (is_applied p) (plan_targets p)
     \<or> \<not> analysis_is_stale (analysis_claims p) (changes (analysis_claims p) (plan_targets p) (applied_claims p) current)"

definition apply_claim_attribute_update_effect :: "journal_setting \<Rightarrow> inbox_effect_plan \<Rightarrow> (inbox_effect_plan \<times> claim list) knowledge_io" where
  "apply_claim_attribute_update_effect S p0 =
     bind_io (choose_disputes S p0) (\<lambda>p.
     bind_io list_local_claims (\<lambda>current.
     if \<not> still_applies p current then throw_io StalePlan
     else bind_io (fold_io write_target (retire_last (plan_targets p)) p) finish_effect))"

text \<open>The claims are queued for the team before the plan counts as applied.\<close>

definition commit_effect :: "journal_setting \<Rightarrow> inbox_effect_plan \<Rightarrow> claim list \<Rightarrow> inbox_effect_plan knowledge_io" where
  "commit_effect S p2 claims =
     bind_io (at_uploads (stage_maintainer_batch_with_durable_claims (maintainer_client S) claims (planned_disputes p2))) (\<lambda>_.
     bind_io (if team_services_configured S then for_io (\<lambda>d. bind_io (record_dispute_if_new (ledger_now S) d) (\<lambda>_. return_io ())) (planned_disputes p2)
              else return_io ()) (\<lambda>_.
     let p3 = p2\<lparr>effect_state := Applied\<rparr> in
     bind_io (write_effect (plan_inbox_id p3) (PlanRecord p3)) (\<lambda>_. return_io p3)))"

definition apply_persisted_claim_attribute_update_plan :: "journal_setting \<Rightarrow> inbox_effect_plan \<Rightarrow> inbox_effect_plan knowledge_io" where
  "apply_persisted_claim_attribute_update_plan S p0 =
     bind_io (repair_claim_attribute_update_refs p0) (\<lambda>_.
     if effect_state p0 \<noteq> Prepared then return_io p0
     else bind_io (discard_stale_inbox_plan p0) (\<lambda>p1.
       bind_io (apply_claim_attribute_update_effect S p1) (\<lambda>(p2, claims). commit_effect S p2 claims)))"

section \<open>Summaries\<close>

record internalize_summary =
  summary_trace_id :: "trace_id option"
  summary_new_claims :: "claim_id list"
  summary_updated_claims :: "claim_id list"
  summary_deprecated_claims :: "claim_id list"
  summary_new_disputes :: "dispute_id list"
  summary_warnings :: "effect_warning list"
  summary_upload :: "maintainer_upload_report option"

definition no_summary :: internalize_summary where
  "no_summary = \<lparr>summary_trace_id = None, summary_new_claims = [], summary_updated_claims = [], summary_deprecated_claims = [],
     summary_new_disputes = [], summary_warnings = [], summary_upload = None\<rparr>"

definition effect_summary :: "inbox_effect_plan \<Rightarrow> internalize_summary" where
  "effect_summary p =
     (let cs = fold (\<lambda>c cs. if list_ex (\<lambda>x. claim_id x = claim_id c) cs then cs else cs @ [c]) (applied_claims p) (plan_targets p) in
      \<lparr>summary_trace_id = map_option trace_id (planned_trace p),
       summary_new_claims = map claim_id (filter (\<lambda>c. claim_updated_at c = None) cs),
       summary_updated_claims = map claim_id (filter (\<lambda>c. claim_updated_at c \<noteq> None) cs),
       summary_deprecated_claims = deprecated_claim_ids p, summary_new_disputes = map dispute_id (planned_disputes p),
       summary_warnings = plan_warnings p, summary_upload = None\<rparr>)"

definition extend_summary :: "internalize_summary \<Rightarrow> internalize_summary \<Rightarrow> internalize_summary" where
  "extend_summary s t = \<lparr>summary_trace_id = (case summary_trace_id s of None \<Rightarrow> summary_trace_id t | Some i \<Rightarrow> Some i),
     summary_new_claims = summary_new_claims s @ summary_new_claims t, summary_updated_claims = summary_updated_claims s @ summary_updated_claims t,
     summary_deprecated_claims = summary_deprecated_claims s @ summary_deprecated_claims t,
     summary_new_disputes = summary_new_disputes s @ summary_new_disputes t, summary_warnings = summary_warnings s @ summary_warnings t,
     summary_upload = summary_upload s\<rparr>"


section \<open>The loop over a batch\<close>

record loaded_inbox_effect_batch =
  loaded_plan :: inbox_effect_plan
  loaded_members :: "inbox_id \<Rightarrow> inbox_effect_member option"

type_synonym batch_cache = "inbox_id \<Rightarrow> loaded_inbox_effect_batch option"

definition members_by_id :: "inbox_effect_plan \<Rightarrow> inbox_id \<Rightarrow> inbox_effect_member option" where
  "members_by_id p = map_of (rev (map (\<lambda>m. (member_inbox_id m, m)) (effect_plan_members p)))"

definition plan_of_record :: "inbox_message \<Rightarrow> inbox_effect_record \<Rightarrow> inbox_effect_plan knowledge_io" where
  "plan_of_record m r = (case r of
       PlanRecord p \<Rightarrow> return_io p
     | RefRecord x \<Rightarrow> bind_io (read_inbox_effect_record (canonical_inbox_id x)) (\<lambda>c. case c of
           Some (PlanRecord p) \<Rightarrow> return_io p
         | _ \<Rightarrow> throw_io (RefWithoutPlan (message_id m))))"

definition canonical_of :: "inbox_effect_record \<Rightarrow> inbox_id" where
  "canonical_of r = (case r of PlanRecord p \<Rightarrow> plan_inbox_id p | RefRecord x \<Rightarrow> canonical_inbox_id x)"

definition load_claim_attribute_update_effect_batch ::
  "journal_setting \<Rightarrow> inbox_message \<Rightarrow> inbox_effect_record \<Rightarrow> batch_cache \<Rightarrow> (inbox_id \<times> batch_cache) knowledge_io" where
  "load_claim_attribute_update_effect_batch S m r cache = (let cid = canonical_of r in
     bind_io (case cache cid of
         Some _ \<Rightarrow> return_io cache
       | None \<Rightarrow> bind_io (plan_of_record m r) (\<lambda>p. bind_io (lift_sum (validate_effect_plan_integrity S p)) (\<lambda>_.
           return_io (cache(cid \<mapsto> \<lparr>loaded_plan = p, loaded_members = members_by_id p\<rparr>))))) (\<lambda>cache'.
     case cache' cid of
       None \<Rightarrow> throw_io BatchCacheMissing
     | Some b \<Rightarrow>
         bind_io (case r of
             PlanRecord p \<Rightarrow> if p \<noteq> loaded_plan b then throw_io (DifferentPlan cid) else return_io ()
           | RefRecord x \<Rightarrow> lift_sum (validate_effect_ref x (loaded_plan b) m)) (\<lambda>_.
         bind_io (lift_sum (validate_effect_plan_message_member S (loaded_members b) m)) (\<lambda>_.
           return_io (cid, cache')))))"

text \<open>A message whose record was not there yet may have got one from a plan applied in the meantime.\<close>

definition recheck :: "inbox_message \<Rightarrow> inbox_effect_record option \<Rightarrow> inbox_effect_record option knowledge_io" where
  "recheck m r = (case r of None \<Rightarrow> read_inbox_effect_record (message_id m) | Some x \<Rightarrow> return_io (Some x))"

text \<open>How many of the next messages have no record, and the record of the first one that has.\<close>

fun count_unplanned :: "(inbox_message \<times> inbox_effect_record option) list \<Rightarrow> (nat \<times> inbox_effect_record option) knowledge_io" where
  "count_unplanned [] = return_io (0, None)"
| "count_unplanned ((m, r) # xs) = bind_io (recheck m r) (\<lambda>r'. case r' of
       Some x \<Rightarrow> return_io (0, Some x)
     | None \<Rightarrow> bind_io (count_unplanned xs) (\<lambda>(k, v). return_io (Suc k, v)))"

fun set_record :: "inbox_effect_record option \<Rightarrow> (inbox_message \<times> inbox_effect_record option) list \<Rightarrow> (inbox_message \<times> inbox_effect_record option) list" where
  "set_record v [] = []"
| "set_record v ((m, r) # xs) = (m, v) # xs"

lemma length_set_record [simp]: "length (set_record v xs) = length xs"
  by (cases "(v, xs)" rule: set_record.cases) auto

definition apply_once ::
  "journal_setting \<Rightarrow> inbox_id \<Rightarrow> batch_cache \<times> inbox_id list \<times> internalize_summary \<Rightarrow> (batch_cache \<times> inbox_id list \<times> internalize_summary) knowledge_io" where
  "apply_once S cid s = (case s of (cache, applied, summary) \<Rightarrow>
     if cid \<in> set applied then return_io s
     else case cache cid of
         None \<Rightarrow> throw_io BatchCacheMissing
       | Some b \<Rightarrow> bind_io (apply_persisted_claim_attribute_update_plan S (loaded_plan b)) (\<lambda>p.
           return_io (cache(cid \<mapsto> b\<lparr>loaded_plan := p\<rparr>), cid # applied, extend_summary summary (effect_summary p))))"

function internalize_loop ::
  "journal_setting \<Rightarrow> (inbox_message \<times> inbox_effect_record option) list \<Rightarrow> batch_cache \<times> inbox_id list \<times> internalize_summary
   \<Rightarrow> internalize_summary knowledge_io" where
  "internalize_loop S [] s = return_io (snd (snd s))"
| "internalize_loop S ((m, r0) # xs) s =
     bind_io (recheck m r0) (\<lambda>r. case r of
         Some x \<Rightarrow> bind_io (load_claim_attribute_update_effect_batch S m x (fst s)) (\<lambda>(cid, cache).
           bind_io (apply_once S cid (cache, snd s)) (internalize_loop S xs))
       | None \<Rightarrow> bind_io (count_unplanned xs) (\<lambda>kv.
           bind_io (prepare_claim_attribute_update_effect S (m # map fst (take (fst kv) xs))) (\<lambda>p.
           bind_io (persist_prepared_claim_attribute_update_plan p) (\<lambda>_.
           bind_io (apply_persisted_claim_attribute_update_plan S p) (\<lambda>p'.
             internalize_loop S (set_record (snd kv) (drop (fst kv) xs))
               (fst s, fst (snd s), extend_summary (snd (snd s)) (effect_summary p')))))))"
  by pat_completeness auto

termination
  by (relation "measure (\<lambda>(_, xs, _). length xs)") auto

declare internalize_loop.simps [simp del]

section \<open>A batch of attribute updates\<close>

definition check_messages :: "inbox_message list \<Rightarrow> unit knowledge_io" where
  "check_messages ms = for_io (\<lambda>m.
     if \<not> is_attribute_update m then throw_io NotAnAttributeUpdate
     else case cau_resolution_context m of
         None \<Rightarrow> return_io ()
       | Some c \<Rightarrow> if validate_arbitration_message m c then return_io () else throw_io InvalidResolution) ms"

type_synonym found_records = "(inbox_id \<times> inbox_effect_record option) list"

definition read_once :: "inbox_id \<Rightarrow> found_records \<Rightarrow> found_records knowledge_io" where
  "read_once i found = (if map_of found i \<noteq> None then return_io found
     else bind_io (read_inbox_effect_record i) (\<lambda>r. return_io ((i, r) # found)))"

definition record_found :: "found_records \<Rightarrow> inbox_id \<Rightarrow> inbox_effect_record option" where
  "record_found found i = (case map_of found i of Some r \<Rightarrow> r | None \<Rightarrow> None)"

definition discover_claim_attribute_update_effect_paths :: "inbox_message list \<Rightarrow> inbox_id list knowledge_io" where
  "discover_claim_attribute_update_effect_paths ms =
     bind_io (fold_io read_once (map message_id ms) []) (\<lambda>found.
     let canonical = dedup (concat (map (\<lambda>m. case record_found found (message_id m) of
                        None \<Rightarrow> [] | Some (PlanRecord _) \<Rightarrow> [message_id m] | Some (RefRecord x) \<Rightarrow> [canonical_inbox_id x]) ms)) in
     bind_io (fold_io read_once canonical found) (\<lambda>found'.
       return_io (remdups_adj (sort (map message_id ms
         @ concat (map (\<lambda>m. case record_found found (message_id m) of Some (RefRecord x) \<Rightarrow> [canonical_inbox_id x] | _ \<Rightarrow> []) ms)
         @ concat (map (\<lambda>i. case record_found found' i of Some (PlanRecord p) \<Rightarrow> map member_inbox_id (effect_plan_members p) | _ \<Rightarrow> []) canonical))))))"

definition lock_effects :: "inbox_message list \<Rightarrow> unit knowledge_io" where
  "lock_effects ms = bind_io (discover_claim_attribute_update_effect_paths ms) (\<lambda>paths.
     bind_io (for_io (\<lambda>_. kn_call) paths) (\<lambda>_.
     bind_io (discover_claim_attribute_update_effect_paths ms) (\<lambda>_. return_io ())))"

definition read_records :: "inbox_message list \<Rightarrow> (inbox_message \<times> inbox_effect_record option) list knowledge_io" where
  "read_records ms = fold_io (\<lambda>m out. bind_io (read_inbox_effect_record (message_id m)) (\<lambda>r. return_io (out @ [(m, r)]))) ms []"

definition load_records :: "journal_setting \<Rightarrow> (inbox_message \<times> inbox_effect_record option) list \<Rightarrow> batch_cache knowledge_io" where
  "load_records S xs = fold_io (\<lambda>(m, r) cache. case r of
       None \<Rightarrow> return_io cache
     | Some x \<Rightarrow> bind_io (load_claim_attribute_update_effect_batch S m x cache) (\<lambda>(_, cache'). return_io cache')) xs (\<lambda>_. None)"

text \<open>Everything that happens under the knowledge lock.\<close>

definition internalize_locally :: "journal_setting \<Rightarrow> inbox_message list \<Rightarrow> internalize_summary knowledge_io" where
  "internalize_locally S ms =
     bind_io (check_messages ms) (\<lambda>_.
     bind_io (lock_effects ms) (\<lambda>_.
     bind_io kn_call (\<lambda>_.
     bind_io ensure_knowledge_ready (\<lambda>_.
     bind_io (read_records ms) (\<lambda>xs.
     bind_io (load_records S xs) (\<lambda>cache.
       internalize_loop S xs (cache, [], no_summary)))))))"

type_synonym 'a knowledge_net_io = "(knowledge_home net, knowledge_error, 'a) io"

definition at_knowledge :: "'a knowledge_io \<Rightarrow> 'a knowledge_net_io" where
  "at_knowledge m n = (case m (home n) of (r, h) \<Rightarrow> (r, n\<lparr>home := h\<rparr>))"

definition upload_from :: "'a upload_io \<Rightarrow> 'a knowledge_net_io" where
  "upload_from m n = (case m \<lparr>links = links n, team = team n, home = kn_uploads (home n)\<rparr> of (r, n') \<Rightarrow>
     (map_sum KnowledgeStorage id r, \<lparr>links = links n', team = team n', home = (home n)\<lparr>kn_uploads := home n'\<rparr>\<rparr>))"

definition internalize_claim_attribute_update_messages ::
  "upload_setting \<Rightarrow> journal_setting \<Rightarrow> inbox_message list \<Rightarrow> internalize_summary knowledge_net_io" where
  "internalize_claim_attribute_update_messages u S ms =
     (if ms = [] then return_io no_summary
      else bind_io (at_knowledge (internalize_locally S ms)) (\<lambda>summary.
        bind_io (upload_from (upload_maintainer_batch_with_durable_claims u (maintainer_client S) [] [])) (\<lambda>report.
          return_io (summary\<lparr>summary_upload := Some report\<rparr>))))"

end
