(* ===== verification/Preparation_Properties.thy ===== *)
theory Preparation_Properties
  imports Preparation
begin

text \<open>
  What the preparation of an answer guarantees: ids found in a text are exactly the ones that stand there as words,
  and an accepted answer changes only the agent's own claims, with sources that were visible.
\<close>

section \<open>Ids in a text\<close>

lemma valid_claim_id_bytes:
  assumes "str_starts_with s claim_prefix"
  shows "14 \<le> length s \<and> hex8_suffix (take 8 (drop 6 s)) \<longleftrightarrow> (\<exists>r. take 14 s = claim_prefix @ random_hex8 r)"
proof -
  obtain t where s: "s = claim_prefix @ t" using assms by (auto simp: str_starts_with_iff)
  have "length claim_prefix = 6" by (simp add: claim_prefix_def)
  then have t: "take 14 s = claim_prefix @ take 8 t" "drop 6 s = t" "length s = 6 + length t" using s by simp_all
  have "8 \<le> length t" if "hex8_suffix (take 8 t)" using that by (auto simp: hex8_suffix_def min_def split: if_splits)
  then have "14 \<le> length s \<and> hex8_suffix (take 8 (drop 6 s)) \<longleftrightarrow> hex8_suffix (take 8 t)" unfolding t(2,3) by auto
  also have "\<dots> \<longleftrightarrow> (\<exists>r. take 8 t = random_hex8 r)" by (rule hex8_suffix_ex)
  finally show ?thesis unfolding t(1) by simp
qed

text \<open>An id stands in a text as a word when no byte of an identifier touches it.\<close>

definition stands_in :: "claim_id \<Rightarrow> char option \<Rightarrow> string \<Rightarrow> bool" where
  "stands_in i prev s \<longleftrightarrow> (\<exists>a b. s = a @ as_str i @ b \<and> (\<exists>r. as_str i = claim_prefix @ random_hex8 r)
     \<and> (case b of [] \<Rightarrow> True | x # _ \<Rightarrow> \<not> is_claim_id_token_byte x)
     \<and> (case (if a = [] then prev else Some (last a)) of None \<Rightarrow> True | Some x \<Rightarrow> \<not> is_claim_id_token_byte x))"

lemma stands_in_Cons:
  "stands_in i prev (c # s) \<longleftrightarrow>
     ((\<exists>b r. c # s = as_str i @ b \<and> as_str i = claim_prefix @ random_hex8 r \<and> (case b of [] \<Rightarrow> True | x # _ \<Rightarrow> \<not> is_claim_id_token_byte x)
        \<and> (case prev of None \<Rightarrow> True | Some x \<Rightarrow> \<not> is_claim_id_token_byte x))
      \<or> stands_in i (Some c) s)"
proof
  assume "stands_in i prev (c # s)"
  then obtain a b where ab: "c # s = a @ as_str i @ b" "\<exists>r. as_str i = claim_prefix @ random_hex8 r"
      "case b of [] \<Rightarrow> True | x # _ \<Rightarrow> \<not> is_claim_id_token_byte x"
      "case (if a = [] then prev else Some (last a)) of None \<Rightarrow> True | Some x \<Rightarrow> \<not> is_claim_id_token_byte x"
    unfolding stands_in_def by blast
  show "(\<exists>b r. c # s = as_str i @ b \<and> as_str i = claim_prefix @ random_hex8 r \<and> (case b of [] \<Rightarrow> True | x # _ \<Rightarrow> \<not> is_claim_id_token_byte x)
        \<and> (case prev of None \<Rightarrow> True | Some x \<Rightarrow> \<not> is_claim_id_token_byte x)) \<or> stands_in i (Some c) s"
  proof (cases a)
    case Nil
    then show ?thesis using ab by auto
  next
    case (Cons x a')
    then have "s = a' @ as_str i @ b" "x = c" using ab(1) by simp_all
    moreover have "case (if a' = [] then Some c else Some (last a')) of None \<Rightarrow> True | Some x \<Rightarrow> \<not> is_claim_id_token_byte x"
      using ab(1,4) Cons by (auto split: if_splits)
    ultimately have "stands_in i (Some c) s" using ab(2,3) unfolding stands_in_def by blast
    then show ?thesis ..
  qed
next
  assume "(\<exists>b r. c # s = as_str i @ b \<and> as_str i = claim_prefix @ random_hex8 r \<and> (case b of [] \<Rightarrow> True | x # _ \<Rightarrow> \<not> is_claim_id_token_byte x)
        \<and> (case prev of None \<Rightarrow> True | Some x \<Rightarrow> \<not> is_claim_id_token_byte x)) \<or> stands_in i (Some c) s"
  then show "stands_in i prev (c # s)"
  proof
    assume "\<exists>b r. c # s = as_str i @ b \<and> as_str i = claim_prefix @ random_hex8 r \<and> (case b of [] \<Rightarrow> True | x # _ \<Rightarrow> \<not> is_claim_id_token_byte x)
        \<and> (case prev of None \<Rightarrow> True | Some x \<Rightarrow> \<not> is_claim_id_token_byte x)"
    then obtain b r where b: "c # s = [] @ as_str i @ b" "as_str i = claim_prefix @ random_hex8 r"
        "case b of [] \<Rightarrow> True | x # _ \<Rightarrow> \<not> is_claim_id_token_byte x"
        "case (if ([] :: string) = [] then prev else Some (last [])) of None \<Rightarrow> True | Some x \<Rightarrow> \<not> is_claim_id_token_byte x" by auto
    then show ?thesis unfolding stands_in_def by blast
  next
    assume "stands_in i (Some c) s"
    then obtain a b where ab: "s = a @ as_str i @ b" "\<exists>r. as_str i = claim_prefix @ random_hex8 r"
        "case b of [] \<Rightarrow> True | x # _ \<Rightarrow> \<not> is_claim_id_token_byte x"
        "case (if a = [] then Some c else Some (last a)) of None \<Rightarrow> True | Some x \<Rightarrow> \<not> is_claim_id_token_byte x"
      unfolding stands_in_def by blast
    then have "c # s = (c # a) @ as_str i @ b" "case (if c # a = [] then prev else Some (last (c # a))) of None \<Rightarrow> True | Some x \<Rightarrow> \<not> is_claim_id_token_byte x"
      by (auto split: if_splits)
    then show ?thesis using ab(2,3) unfolding stands_in_def by blast
  qed
qed

lemma stands_here:
  "(\<exists>b r. s = as_str i @ b \<and> as_str i = claim_prefix @ random_hex8 r \<and> (case b of [] \<Rightarrow> True | x # _ \<Rightarrow> \<not> is_claim_id_token_byte x)) \<longleftrightarrow>
   str_starts_with s claim_prefix \<and> 14 \<le> length s \<and> hex8_suffix (take 8 (drop 6 s)) \<and> i = Ident (take 14 s)
     \<and> (case drop 14 s of [] \<Rightarrow> True | b # _ \<Rightarrow> \<not> is_claim_id_token_byte b)"
proof
  assume "\<exists>b r. s = as_str i @ b \<and> as_str i = claim_prefix @ random_hex8 r \<and> (case b of [] \<Rightarrow> True | x # _ \<Rightarrow> \<not> is_claim_id_token_byte x)"
  then obtain b r where b: "s = as_str i @ b" "as_str i = claim_prefix @ random_hex8 r" "case b of [] \<Rightarrow> True | x # _ \<Rightarrow> \<not> is_claim_id_token_byte x" by blast
  have len: "length (as_str i) = 14" using b(2) by (simp add: claim_prefix_def random_hex8_def)
  then have s: "take 14 s = as_str i" "drop 14 s = b" using b(1) by simp_all
  have start: "str_starts_with s claim_prefix" using b(1,2) by (auto simp: str_starts_with_iff)
  moreover have "14 \<le> length s \<and> hex8_suffix (take 8 (drop 6 s))" using valid_claim_id_bytes [OF start] s(1) b(2) by metis
  ultimately show "str_starts_with s claim_prefix \<and> 14 \<le> length s \<and> hex8_suffix (take 8 (drop 6 s)) \<and> i = Ident (take 14 s)
     \<and> (case drop 14 s of [] \<Rightarrow> True | b # _ \<Rightarrow> \<not> is_claim_id_token_byte b)" using s b(3) by simp
next
  assume a: "str_starts_with s claim_prefix \<and> 14 \<le> length s \<and> hex8_suffix (take 8 (drop 6 s)) \<and> i = Ident (take 14 s)
     \<and> (case drop 14 s of [] \<Rightarrow> True | b # _ \<Rightarrow> \<not> is_claim_id_token_byte b)"
  then obtain r where "take 14 s = claim_prefix @ random_hex8 r" using valid_claim_id_bytes by blast
  moreover have "s = as_str i @ drop 14 s" using a by simp
  ultimately show "\<exists>b r. s = as_str i @ b \<and> as_str i = claim_prefix @ random_hex8 r \<and> (case b of [] \<Rightarrow> True | x # _ \<Rightarrow> \<not> is_claim_id_token_byte x)"
    using a by (metis ident.sel)
qed

text \<open>Inside the prefix no id starts, so the scan may skip it.\<close>

lemma stands_in_start: "stands_in i prev (c # s) \<Longrightarrow> c \<noteq> CHR ''c'' \<Longrightarrow> stands_in i (Some c) s"
  unfolding stands_in_Cons [of i prev] by (auto simp: claim_prefix_def)

lemma stands_in_shift: "c \<noteq> CHR ''c'' \<Longrightarrow> stands_in i prev (c # s) \<longleftrightarrow> stands_in i (Some c) s"
  unfolding stands_in_Cons [of i prev] by (auto simp: claim_prefix_def)

lemma extract_ids_iff: "i \<in> extract_ids prev s \<longleftrightarrow> stands_in i prev s"
proof (induction prev s rule: extract_ids.induct)
  case (1 prev)
  then show ?case by (auto simp: extract_ids.simps stands_in_def claim_prefix_def)
next
  case (2 prev c s)
  let ?s = "c # s"
  let ?here = "\<exists>b r. ?s = as_str i @ b \<and> as_str i = claim_prefix @ random_hex8 r \<and> (case b of [] \<Rightarrow> True | x # _ \<Rightarrow> \<not> is_claim_id_token_byte x)"
  let ?left = "case prev of None \<Rightarrow> True | Some x \<Rightarrow> \<not> is_claim_id_token_byte x"
  have split: "stands_in i prev ?s \<longleftrightarrow> (?here \<and> ?left) \<or> stands_in i (Some c) s" unfolding stands_in_Cons [of i prev] by blast
  show ?case
  proof (cases "str_starts_with ?s claim_prefix")
    case False
    then have "\<not> ?here" unfolding stands_here by blast
    moreover have "i \<in> extract_ids prev ?s \<longleftrightarrow> i \<in> extract_ids (Some c) s" using False by (simp only: extract_ids.simps if_False)
    ultimately show ?thesis using 2(2) [OF False] split by blast
  next
    case True
    then obtain t where t: "c = CHR ''c''" "s = ''laim_'' @ t" by (auto simp: str_starts_with_iff claim_prefix_def)
    have "stands_in i (Some c) s \<longleftrightarrow> stands_in i (Some (CHR ''_'')) t" unfolding t(2) by (simp add: stands_in_shift)
    moreover have "drop 6 ?s = t" using t by simp
    moreover have "(i \<in> (if 14 \<le> length ?s \<and> hex8_suffix (take 8 (drop 6 ?s))
            \<and> (case drop 14 ?s of [] \<Rightarrow> True | b # _ \<Rightarrow> \<not> is_claim_id_token_byte b) \<and> ?left
         then (case id_from_str claim_prefix (take 14 ?s) of Inl _ \<Rightarrow> {} | Inr i \<Rightarrow> {i}) else {})) \<longleftrightarrow> ?here \<and> ?left"
    proof -
      have "id_from_str claim_prefix (take 14 ?s) = Inr (Ident (take 14 ?s) :: claim_id)" if "14 \<le> length ?s \<and> hex8_suffix (take 8 (drop 6 ?s))"
        using valid_claim_id_bytes [OF True] that by (simp add: id_from_str_Inr_iff)
      then show ?thesis unfolding stands_here using True by auto
    qed
    ultimately show ?thesis using True 2(1) [OF True] split by (simp only: extract_ids.simps if_True Un_iff)
  qed
qed

text \<open>
  Property C38.  The ids a recap may refer to, as found in its transcript, are exactly the well-formed claim ids that
  stand in it as words: none inside a longer identifier, and none overlooked.
\<close>

theorem extracted_ids_are_the_words:
  "i \<in> extract_claim_ids_from_text s \<longleftrightarrow>
     (\<exists>a b. s = a @ as_str i @ b \<and> id_from_str claim_prefix (as_str i) = Inr i
        \<and> \<not> (a \<noteq> [] \<and> is_claim_id_token_byte (last a)) \<and> \<not> (b \<noteq> [] \<and> is_claim_id_token_byte (hd b)))"
proof -
  have ends: "(case b of [] \<Rightarrow> True | x # _ \<Rightarrow> \<not> is_claim_id_token_byte x) \<longleftrightarrow> b = [] \<or> \<not> is_claim_id_token_byte (hd b)" for b
    by (cases b) auto
  have "id_from_str claim_prefix (as_str i) = Inr i \<longleftrightarrow> (\<exists>r. as_str i = claim_prefix @ random_hex8 r)"
    by (cases i) (auto simp: id_from_str_Inr_iff)
  then show ?thesis
    unfolding extract_claim_ids_from_text_def extract_ids_iff stands_in_def ends by (auto split: if_splits)
qed


section \<open>Accepted answers\<close>

lemma require_Inr_iff: "require e v = Inr x \<longleftrightarrow> v = Some x"
  by (cases v) (simp_all add: require_def)

lemma map_sum_Inr_iff: "map_sum f g r = Inr y \<longleftrightarrow> (\<exists>x. r = Inr x \<and> y = g x)"
  by (cases r) auto

lemma source_from_str_back: "source_from_str raw = Inr s \<Longrightarrow> source_as_str s = raw"
  by (auto simp: source_from_str_def map_sum_Inr_iff id_from_str_Inr_iff split: if_splits)

lemma by_claim_id_Some: "by_claim_id cs i = Some c \<Longrightarrow> c \<in> set cs \<and> claim_id c = i"
  by (auto simp: by_claim_id_def dest!: map_of_SomeD)

text \<open>The sources of a prepared claim are those of its draft, none is the claim itself and the claims among them were visible.\<close>

definition sources_of :: "string list \<Rightarrow> source_id set" where
  "sources_of raws = {s. \<exists>raw \<in> set raws. source_from_str raw = Inr s}"

definition well_sourced :: "claim_id set \<Rightarrow> claim_draft \<Rightarrow> claim \<Rightarrow> bool" where
  "well_sourced allowed d c \<longleftrightarrow> set (source_claim_ids c) = sources_of (draft_sources d)
     \<and> (\<forall>raw \<in> set (draft_sources d). \<exists>s. source_from_str raw = Inr s)
     \<and> (\<forall>i. SourceClaim i \<in> set (source_claim_ids c) \<longrightarrow> i \<noteq> claim_id c \<and> i \<in> allowed)"

lemma parse_sources_Inr:
  "parse_sources field idx j own (Some allowed) raws sources = Inr sources' \<Longrightarrow>
   set sources' = set sources \<union> sources_of raws \<and> (\<forall>raw \<in> set raws. \<exists>s. source_from_str raw = Inr s)
     \<and> (\<forall>i. SourceClaim i \<in> sources_of raws \<longrightarrow> i \<noteq> own \<and> i \<in> allowed)"
proof (induction raws arbitrary: j sources)
  case (Cons raw raws)
  obtain s where s: "source_from_str raw = Inr s" "s \<noteq> SourceClaim own" "\<And>i. s = SourceClaim i \<Longrightarrow> i \<in> allowed"
      "parse_sources field idx (Suc j) own (Some allowed) raws (push_source_id_once sources s) = Inr sources'"
    using Cons.prems by (auto split: sum.splits if_splits source_id.splits)
  have "sources_of (raw # raws) = insert s (sources_of raws)" using s(1) by (auto simp: sources_of_def)
  moreover have "set (push_source_id_once sources s) = insert s (set sources)" by (auto simp: push_source_id_once_def)
  ultimately show ?case using Cons.IH [OF s(4)] s(1,2,3) by auto
qed (simp add: sources_of_def)

lemma prepare_claims_Inr:
  "prepare_claims idx ds (Some allowed) a now = Inr cs \<Longrightarrow>
   list_all2 (\<lambda>d c. well_sourced allowed d c \<and> claim_holder c = a \<and> claim_status c = Active \<and> claim_updated_at c = None
     \<and> claim_created_at c = truncate_to_second now) ds cs"
proof (induction ds arbitrary: idx cs)
  case (Cons d ds)
  then show ?case by (auto simp: and_then_Inr_iff well_sourced_def dest!: parse_sources_Inr split: sum.splits)
qed simp

lemma prepare_claim_updates_Inr:
  "prepare_claim_updates idx ds local_by_id (Some allowed) now seen = Inr us \<Longrightarrow>
   list_all2 (\<lambda>d c. well_sourced allowed d c \<and> (\<exists>old. local_by_id (claim_id c) = Some old \<and> claim_holder c = claim_holder old
     \<and> claim_created_at c = claim_created_at old \<and> effective_updated_at old < effective_updated_at c)) ds us
   \<and> distinct (map claim_id us) \<and> claim_id ` set us \<inter> set seen = {}"
proof (induction ds arbitrary: idx seen us)
  case (Cons d ds)
  obtain i old st sources cs where d: "local_by_id i = Some old" "i \<notin> set seen"
      "parse_sources UpdatedClaims idx 0 i (Some allowed) (draft_sources d) [] = Inr sources"
      "prepare_claim_updates (Suc idx) ds local_by_id (Some allowed) now (i # seen) = Inr cs"
      "us = \<lparr>claim_id = i, claim_name = draft_name d, claim_statement = draft_statement d, claim_scope = draft_scope d,
                    claim_holder = claim_holder old, claim_confidence = draft_confidence d, claim_status = st,
                    claim_created_at = claim_created_at old,
                    claim_updated_at = Some (next_claim_update_at now (effective_updated_at old)),
                    source_claim_ids = sources, evidence_summary = draft_evidence d\<rparr> # cs"
    using Cons.prems by (auto simp: and_then_Inr_iff split: sum.splits option.splits if_splits)
  have later: "effective_updated_at old < next_claim_update_at now (effective_updated_at old)" by (rule next_claim_update_at_later)
  show ?case using Cons.IH [OF d(4)] d(1,2) parse_sources_Inr [OF d(3)] later
    unfolding d(5) by (auto simp: well_sourced_def) (auto simp: effective_updated_at_def)
qed simp

lemma prepare_disputes_Inr:
  "prepare_disputes idx ds (Some allowed) a now = Inr out \<Longrightarrow>
   \<forall>d \<in> set out. reporter_agent_id d = a \<and> dispute_status d = Open \<and> distinct (dispute_claims d)
     \<and> 2 \<le> length (dispute_claims d) \<and> set (dispute_claims d) \<subseteq> allowed"
proof (induction ds arbitrary: idx out)
  case (Cons d ds)
  obtain parsed where parsed: "parse_dispute_claims idx 0 (dd_claims d) = Inr parsed" "distinct parsed" "2 \<le> length parsed" "set parsed \<subseteq> allowed"
    using Cons.prems by (auto simp: and_then_Inr_iff Let_def filter_empty_conv subset_iff split: if_splits)
  then have pick: "filter (\<lambda>i. i \<notin> allowed) parsed = []" "\<not> length parsed < 2" by (auto simp: filter_empty_conv)
  obtain i where i: "id_from_str dispute_prefix (dd_id d) = Inr (i :: dispute_id)"
    using Cons.prems parsed pick by (cases "id_from_str dispute_prefix (dd_id d) :: id_error + dispute_id") (auto simp: and_then_def)
  then obtain rest where "prepare_disputes (Suc idx) ds (Some allowed) a now = Inr rest"
      "out = \<lparr>dispute_id = i, dispute_name = dd_name d, reporter_agent_id = a, dispute_claims = parsed, dispute_summary = dd_summary d,
                  dispute_status = Open, dispute_created_at = truncate_to_second now, dispute_resolved_at = None\<rparr> # rest"
    using Cons.prems parsed(1,2) pick by (auto simp: and_then_Inr_iff)
  then show ?case using Cons.IH parsed(2,3,4) by simp
qed simp

lemma visible_policies_Inr: "visible_policies field idx j allowed raws = Inr u \<Longrightarrow> SourcePolicy p \<in> sources_of raws \<Longrightarrow> p \<in> allowed"
  by (induction raws arbitrary: j) (auto simp: sources_of_def split: sum.splits source_id.splits if_splits)

lemma validate_visible_policy_sources_Inr:
  "validate_visible_policy_sources field idx ds allowed = Inr u \<Longrightarrow> d \<in> set ds \<Longrightarrow> SourcePolicy p \<in> sources_of (draft_sources d) \<Longrightarrow> p \<in> allowed"
  by (induction ds arbitrary: idx) (auto simp: and_then_Inr_iff dest: visible_policies_Inr)

lemma ensure_provenance_Inr:
  "ensure_provenance field idx ds batch = Inr out \<Longrightarrow> d \<in> set out \<Longrightarrow> \<exists>i \<in> set batch. as_str i \<in> set (draft_sources d)"
proof (induction ds arbitrary: idx out)
  case (Cons x xs)
  then obtain m rest where m: "missing_cau_policy_source (draft_sources x) batch = Some m"
      "ensure_provenance field (Suc idx) xs batch = Inr rest"
      "out = (case m of None \<Rightarrow> x | Some i \<Rightarrow> x\<lparr>draft_sources := draft_sources x @ [as_str i]\<rparr>) # rest"
    by (auto simp: and_then_Inr_iff split: option.splits)
  have "\<exists>i \<in> set batch. as_str i \<in> set (draft_sources (case m of None \<Rightarrow> x | Some i \<Rightarrow> x\<lparr>draft_sources := draft_sources x @ [as_str i]\<rparr>))"
    using m(1) by (auto simp: missing_cau_policy_source_def list_ex_iff split: if_splits list.splits)
  then show ?case using Cons.IH [OF m(2)] Cons.prems(2) m(3) by auto
qed simp

lemma validate_new_disputes_Inr:
  "validate_new_disputes_against_final_claim_status existing cs us ds = Inr u \<Longrightarrow> d \<in> set ds \<Longrightarrow> i \<in> set (dispute_claims d) \<Longrightarrow>
   (existing ++ by_claim_id (cs @ us)) i = Some c \<Longrightarrow> claim_status c \<noteq> Deprecated"
  by (auto simp: validate_new_disputes_against_final_claim_status_def Let_def find_None_iff list_ex_iff split: option.splits)

text \<open>What both ways of preparing an answer share.\<close>

lemma prepare_drafts_Inr:
  assumes "prepare_drafts own_only a now out local_by_id policies sources disputable = Inr (cs, us, ds)"
  shows "list_all2 (\<lambda>d c. well_sourced (sources \<union> claim_id ` set cs) d c \<and> claim_holder c = a \<and> claim_status c = Active) (drafted_claims out) cs"
    and "list_all2 (\<lambda>d c. well_sourced (sources \<union> claim_id ` set cs) d c \<and> (\<exists>old. local_by_id (claim_id c) = Some old \<and> claim_holder c = claim_holder old
           \<and> claim_created_at c = claim_created_at old \<and> effective_updated_at old < effective_updated_at c)) (drafted_updates out) us"
    and "distinct (map claim_id us)" and "own_only \<Longrightarrow> \<forall>c \<in> set us. claim_holder c = a"
    and "\<forall>d \<in> set ds. reporter_agent_id d = a \<and> distinct (dispute_claims d) \<and> 2 \<le> length (dispute_claims d)
           \<and> set (dispute_claims d) \<subseteq> disputable \<union> claim_id ` set cs"
    and "d \<in> set (drafted_claims out @ drafted_updates out) \<Longrightarrow> SourcePolicy p \<in> sources_of (draft_sources d) \<Longrightarrow> p \<in> policies"
proof -
  obtain new where new: "new_claim_ids 0 (drafted_claims out) = Inr new"
      "prepare_claims 0 (drafted_claims out) (Some (sources \<union> set new)) a now = Inr cs"
      "prepare_claim_updates 0 (drafted_updates out) local_by_id (Some (sources \<union> set new)) now [] = Inr us"
      "prepare_disputes 0 (drafted_disputes out) (Some (disputable \<union> set new)) a now = Inr ds"
      "\<not> (own_only \<and> list_ex (\<lambda>c. claim_holder c \<noteq> a) us)"
      "validate_visible_policy_sources NewClaims 0 (drafted_claims out) policies = Inr ()"
      "validate_visible_policy_sources UpdatedClaims 0 (drafted_updates out) policies = Inr ()"
    using assms by (auto simp: prepare_drafts_def and_then_Inr_iff split: if_splits)
  have "new_claim_ids idx drafts = Inr new \<Longrightarrow> prepare_claims idx drafts allowed a now = Inr cs \<Longrightarrow> map claim_id cs = new" for idx drafts allowed new cs
    by (induction drafts arbitrary: idx new cs) (auto simp: and_then_Inr_iff split: sum.splits)
  then have ids: "set new = claim_id ` set cs" using new(1,2) by (metis list.set_map)
  show "list_all2 (\<lambda>d c. well_sourced (sources \<union> claim_id ` set cs) d c \<and> claim_holder c = a \<and> claim_status c = Active) (drafted_claims out) cs"
    using prepare_claims_Inr [OF new(2)] unfolding ids by (auto elim: list_all2_mono)
  show "list_all2 (\<lambda>d c. well_sourced (sources \<union> claim_id ` set cs) d c \<and> (\<exists>old. local_by_id (claim_id c) = Some old \<and> claim_holder c = claim_holder old
           \<and> claim_created_at c = claim_created_at old \<and> effective_updated_at old < effective_updated_at c)) (drafted_updates out) us"
    "distinct (map claim_id us)"
    using prepare_claim_updates_Inr [OF new(3)] unfolding ids by blast+
  show "own_only \<Longrightarrow> \<forall>c \<in> set us. claim_holder c = a" using new(5) by (auto simp: list_ex_iff)
  show "\<forall>d \<in> set ds. reporter_agent_id d = a \<and> distinct (dispute_claims d) \<and> 2 \<le> length (dispute_claims d)
           \<and> set (dispute_claims d) \<subseteq> disputable \<union> claim_id ` set cs"
    using prepare_disputes_Inr [OF new(4)] unfolding ids by blast
  show "d \<in> set (drafted_claims out @ drafted_updates out) \<Longrightarrow> SourcePolicy p \<in> sources_of (draft_sources d) \<Longrightarrow> p \<in> policies"
    using validate_visible_policy_sources_Inr [OF new(6)] validate_visible_policy_sources_Inr [OF new(7)] by auto
qed

lemma well_sourced_cites: "well_sourced allowed d c \<Longrightarrow> raw \<in> set (draft_sources d) \<Longrightarrow> \<exists>s \<in> set (source_claim_ids c). source_as_str s = raw"
  unfolding well_sourced_def sources_of_def by (metis (mono_tags, lifting) mem_Collect_eq source_from_str_back)

lemma well_sourced_claim:
  assumes "well_sourced allowed d c" "i \<in> batch" "as_str i \<in> set (draft_sources d)"
    and "\<And>p. SourcePolicy p \<in> sources_of (draft_sources d) \<Longrightarrow> p \<in> policies"
  shows "(\<exists>s \<in> set (source_claim_ids c). \<exists>i \<in> batch. source_as_str s = as_str i)
    \<and> (\<forall>s \<in> set (source_claim_ids c). case s of SourceClaim i \<Rightarrow> i \<noteq> claim_id c \<and> i \<in> allowed | SourcePolicy p \<Rightarrow> p \<in> policies)"
  using assms well_sourced_cites [OF assms(1,3)] by (fastforce simp: well_sourced_def split: source_id.splits)

lemma list_all2_right: "list_all2 P xs ys \<Longrightarrow> y \<in> set ys \<Longrightarrow> \<exists>x \<in> set xs. P x y"
  by (induction rule: list_all2_induct) auto

text \<open>
  Property C36.  An accepted answer to a batch of attribute updates changes only claims the agent holds, each at most
  once, keeping holder and creation time and moving the update time strictly forward; every new and every updated claim
  cites a policy of the batch, never itself, and only claims and policies the model was shown; and every dispute names
  two or more distinct claims that were shown or are new, none of which the same answer leaves deprecated.
\<close>

theorem accepted_answer_is_sound:
  assumes "claim_attribute_update_internalize_and_prepare_once dec a ans ms local = Inr (cs, us, ds)"
    and "direct = concat (map direct_claims_of ms)"
  shows "(\<forall>c \<in> set us. \<exists>old \<in> set local. claim_id old = claim_id c \<and> claim_holder old = a \<and> claim_holder c = a
            \<and> claim_created_at c = claim_created_at old \<and> effective_updated_at old < effective_updated_at c)
    \<and> distinct (map claim_id us) \<and> (\<forall>c \<in> set cs. claim_holder c = a \<and> claim_status c = Active)
    \<and> (\<forall>c \<in> set (cs @ us). (\<exists>s \<in> set (source_claim_ids c). \<exists>m \<in> set ms. source_as_str s = as_str (message_policy_id m))
         \<and> (\<forall>s \<in> set (source_claim_ids c). case s of
               SourceClaim i \<Rightarrow> i \<noteq> claim_id c \<and> i \<in> claim_id ` set (direct @ local @ cs) \<union> source_claims_of (direct @ local)
             | SourcePolicy p \<Rightarrow> p \<in> message_policy_id ` set ms \<union> source_policies_of (direct @ local)))
    \<and> (\<forall>d \<in> set ds. reporter_agent_id d = a \<and> distinct (dispute_claims d) \<and> 2 \<le> length (dispute_claims d)
         \<and> (\<forall>i \<in> set (dispute_claims d). i \<in> claim_id ` set (direct @ local @ cs)
              \<and> (\<forall>c. (by_claim_id direct ++ by_claim_id local ++ by_claim_id (cs @ us)) i = Some c \<longrightarrow> claim_status c \<noteq> Deprecated)))"
proof -
  let ?batch = "inbox_policy_ids ms" and ?shown = "direct @ local"
  obtain out0 out where out: "ensure_cau_policy_provenance out0 ?batch = Inr out"
      "prepare_drafts True a (answered_at ans) out (by_claim_id local) (set ?batch \<union> source_policies_of ?shown)
        (claim_id ` set ?shown \<union> source_claims_of ?shown) (claim_id ` set ?shown) = Inr (cs, us, ds)"
      "validate_new_disputes_against_final_claim_status (by_claim_id direct ++ by_claim_id local) cs us ds = Inr ()"
    using assms unfolding claim_attribute_update_internalize_and_prepare_once_def Let_def
    by (auto simp: and_then_Inr_iff)
  note p = prepare_drafts_Inr [OF out(2)]
  have batch: "set ?batch = message_policy_id ` set ms" by (simp add: inbox_policy_ids_def)
  have prov: "\<exists>i \<in> set ?batch. as_str i \<in> set (draft_sources d)" if "d \<in> set (drafted_claims out @ drafted_updates out)" for d
  proof -
    obtain xs ys where "ensure_provenance NewClaims 0 (drafted_claims out0) ?batch = Inr xs" "ensure_provenance UpdatedClaims 0 (drafted_updates out0) ?batch = Inr ys"
        "out = out0\<lparr>drafted_claims := xs, drafted_updates := ys\<rparr>"
      using out(1) by (auto simp: ensure_cau_policy_provenance_def and_then_Inr_iff)
    then show ?thesis using that ensure_provenance_Inr by auto
  qed
  have sourced: "\<exists>d \<in> set (drafted_claims out @ drafted_updates out).
      well_sourced ((claim_id ` set ?shown \<union> source_claims_of ?shown) \<union> claim_id ` set cs) d c" if "c \<in> set (cs @ us)" for c
    using that list_all2_right [OF p(1), of c] list_all2_right [OF p(2), of c] by auto
  have all: "(claim_id ` set ?shown \<union> source_claims_of ?shown) \<union> claim_id ` set cs = claim_id ` set (direct @ local @ cs) \<union> source_claims_of ?shown"
    by auto
  have claims: "(\<exists>s \<in> set (source_claim_ids c). \<exists>i \<in> set ?batch. source_as_str s = as_str i)
         \<and> (\<forall>s \<in> set (source_claim_ids c). case s of
               SourceClaim i \<Rightarrow> i \<noteq> claim_id c \<and> i \<in> (claim_id ` set ?shown \<union> source_claims_of ?shown) \<union> claim_id ` set cs
             | SourcePolicy p \<Rightarrow> p \<in> set ?batch \<union> source_policies_of ?shown)" if c: "c \<in> set (cs @ us)" for c
  proof -
    obtain d where d: "d \<in> set (drafted_claims out @ drafted_updates out)"
        "well_sourced ((claim_id ` set ?shown \<union> source_claims_of ?shown) \<union> claim_id ` set cs) d c" using sourced [OF c] by blast
    obtain i where "i \<in> set ?batch" "as_str i \<in> set (draft_sources d)" using prov [OF d(1)] by blast
    then show ?thesis using well_sourced_claim [OF d(2)] p(6) [OF d(1)] by blast
  qed
  have "\<exists>old \<in> set local. claim_id old = claim_id c \<and> claim_holder old = a \<and> claim_holder c = a
            \<and> claim_created_at c = claim_created_at old \<and> effective_updated_at old < effective_updated_at c" if "c \<in> set us" for c
    using list_all2_right [OF p(2) that] p(4) that by_claim_id_Some by metis
  moreover have "claim_holder c = a \<and> claim_status c = Active" if "c \<in> set cs" for c
    using list_all2_right [OF p(1) that] by blast
  moreover have "reporter_agent_id d = a \<and> distinct (dispute_claims d) \<and> 2 \<le> length (dispute_claims d)
         \<and> (\<forall>i \<in> set (dispute_claims d). i \<in> claim_id ` set (direct @ local @ cs)
              \<and> (\<forall>c. (by_claim_id direct ++ by_claim_id local ++ by_claim_id (cs @ us)) i = Some c \<longrightarrow> claim_status c \<noteq> Deprecated))"
    if "d \<in> set ds" for d
    using p(5) that validate_new_disputes_Inr [OF out(3) that] by (simp add: subset_iff image_Un)
  ultimately show ?thesis using claims p(3) unfolding batch all by auto
qed

end
