(* ===== verification/Effect_Properties.thy ===== *)
theory Effect_Properties
  imports Effect_Journal Dir_Facts Io_Contracts Preparation_Properties
begin

text \<open>
  What the effect journal guarantees: a plan replaces only the versions its analysis saw, sources retire after their
  successors are written, and messages that have a record never reach the model again.
\<close>

section \<open>Readings of the claim files\<close>

definition stored_claim :: "knowledge_home \<Rightarrow> claim_id \<Rightarrow> claim option" where
  "stored_claim w i = (case map_of (claim_files w) (yaml_name i) of Some (Document c) \<Rightarrow> Some c | _ \<Rightarrow> None)"

text \<open>Readable claim files are named after their claims, which have ids that parse; other files may be there.\<close>

definition named_claims :: "knowledge_home \<Rightarrow> bool" where
  "named_claims w \<longleftrightarrow> distinct (map fst (claim_files w)) \<and>
     (\<forall>n c. (n, Document c) \<in> set (claim_files w) \<longrightarrow> n = yaml_name (claim_id c) \<and> valid_id claim_prefix (claim_id c))"

lemma valid_id_yaml: "valid_id claim_prefix (i :: claim_id) \<Longrightarrow> is_yaml_file_name (yaml_name i)"
  unfolding valid_id_def using yaml_name_is_yaml [of claim_prefix] by (auto simp: claim_prefix_def)

lemma kn_call_cases:
  assumes "kn_call w = (r, w')"
  shows "w' = w\<lparr>kn_uploads := kn_uploads w'\<rparr>" and "queue_file (kn_uploads w') = queue_file (kn_uploads w)"
    and "up_faults (kn_uploads w) = [] \<Longrightarrow> r = Inr () \<and> w' = w"
  using assms by (auto simp: kn_call_def at_uploads_def up_call_def split: prod.splits list.splits if_splits)

text \<open>A part of the home that no call changes.\<close>

definition unaffected :: "(knowledge_home \<Rightarrow> 'b) \<Rightarrow> bool" where
  "unaffected f \<longleftrightarrow> (\<forall>w q. f (w\<lparr>kn_uploads := q\<rparr>) = f w)"

lemma unaffected_fields [simp]:
  "unaffected claim_files" "unaffected trace_files" "unaffected effect_files" "unaffected ledger_file" "unaffected dream_pending"
  by (simp_all add: unaffected_def)

lemma within_kn_call: "unaffected f \<Longrightarrow> within (same f) kn_call"
  unfolding unaffected_def by (intro withinI) (metis kn_call_cases(1) same_def)

lemma within_list_yaml: "unaffected f \<Longrightarrow> within (same f) (list_yaml_files d)"
  by (induction d rule: list_yaml_files.induct) (auto intro!: same.within_intros within_kn_call)

lemma within_list_local: "unaffected f \<Longrightarrow> within (same f) list_local_claims"
  unfolding list_local_claims_def by (intro same.within_intros within_kn_call within_list_yaml)

lemma within_read_local: "unaffected f \<Longrightarrow> within (same f) (read_local get i)"
  unfolding read_local_def kn_decode_def by (intro same.within_intros within_kn_call) (auto intro!: same.within_intros split: yaml_file.splits option.splits)

lemma within_read_record: "unaffected f \<Longrightarrow> within (same f) (read_inbox_effect_record i)"
  unfolding read_inbox_effect_record_def by (rule within_read_local)

lemma within_write_effect: "unaffected f \<Longrightarrow> (\<And>w x. f (effect_files_update x w) = f w) \<Longrightarrow> within (same f) (write_effect i r)"
  unfolding write_effect_def by (intro same.within_bind within_kn_call same.within_modify) (simp_all add: same_def)

lemma within_ledger: "unaffected f \<Longrightarrow> within (same f) read_ledger"
  unfolding read_ledger_def kn_decode_def by (intro same.within_intros within_kn_call) (auto intro!: same.within_intros split: yaml_file.splits option.splits)

lemma within_reported: "unaffected f \<Longrightarrow> within (same f) (dispute_claim_set_reported d)"
  unfolding dispute_claim_set_reported_def by (intro same.within_intros within_ledger)

lemma within_repair:
  "unaffected f \<Longrightarrow> (\<And>w x. f (effect_files_update x w) = f w) \<Longrightarrow> within (same f) (repair_claim_attribute_update_refs p)"
  unfolding repair_claim_attribute_update_refs_def repair_ref_def by (intro same.within_intros within_read_record within_write_effect)

lemma list_yaml_docs:
  "list_yaml_files d w = (Inr xs, w') \<Longrightarrow> (\<And>n c. (n, Document c) \<in> set d \<Longrightarrow> is_yaml_file_name n) \<Longrightarrow> xs = docs d"
proof (induction d arbitrary: w xs w' rule: list_yaml_files.induct)
  case (2 n f fs)
  have rest: "\<And>n c. (n, Document c) \<in> set fs \<Longrightarrow> is_yaml_file_name n" using 2(4) by (meson list.set_intros(2))
  show ?case
  proof (cases "is_yaml_file_name n")
    case True
    then show ?thesis using 2(2,3) rest by (auto simp: io_iffs split: yaml_file.splits)
  next
    case False
    then have "\<And>c. f \<noteq> Document c" using 2(4) by force
    then show ?thesis using False 2(1,3) rest by (auto simp: io_iffs split: yaml_file.splits)
  qed
qed simp

lemma docs_stored:
  assumes "named_claims w"
  shows "by_claim_id (docs (claim_files w)) = stored_claim w" and "c \<in> set (docs (claim_files w)) \<longleftrightarrow> stored_claim w (claim_id c) = Some c"
proof -
  have d: "distinct (map fst (claim_files w))" "\<And>n c. (n, Document c) \<in> set (claim_files w) \<Longrightarrow> n = yaml_name (claim_id c)"
    using assms unfolding named_claims_def by blast+
  have mem: "c \<in> set (docs (claim_files w)) \<longleftrightarrow> stored_claim w (claim_id c) = Some c" for c
  proof -
    have "c \<in> set (docs (claim_files w)) \<longleftrightarrow> (yaml_name (claim_id c), Document c) \<in> set (claim_files w)"
      using d(2) by (auto simp: docs_mem)
    also have "\<dots> \<longleftrightarrow> map_of (claim_files w) (yaml_name (claim_id c)) = Some (Document c)" using d(1) by (simp add: map_of_eq_Some_iff)
    also have "\<dots> \<longleftrightarrow> stored_claim w (claim_id c) = Some c" by (simp add: stored_claim_def split: option.splits yaml_file.splits)
    finally show ?thesis .
  qed
  then show "c \<in> set (docs (claim_files w)) \<longleftrightarrow> stored_claim w (claim_id c) = Some c" .
  show "by_claim_id (docs (claim_files w)) = stored_claim w"
  proof (rule ext)
    fix i
    have inj: "a = b" if "a \<in> set (docs (claim_files w))" "b \<in> set (docs (claim_files w))" "claim_id a = claim_id b" for a b
      using that mem by (metis option.inject)
    show "by_claim_id (docs (claim_files w)) i = stored_claim w i"
    proof (cases "stored_claim w i")
      case None
      then have "by_claim_id (docs (claim_files w)) i \<noteq> Some c" for c using by_claim_id_Some mem by fastforce
      then show ?thesis using None by fastforce
    next
      case (Some c)
      then have "(yaml_name i, Document c) \<in> set (claim_files w)"
        by (auto simp: stored_claim_def split: option.splits yaml_file.splits dest: map_of_SomeD)
      then have c: "claim_id c = i" "c \<in> set (docs (claim_files w))" using d(2) docs_mem by fastforce+
      have "by_claim_id (docs (claim_files w)) i \<noteq> None"
        using c by (auto simp: by_claim_id_def map_of_eq_None_iff rev_map [symmetric] image_iff)
      then show ?thesis using Some c inj by_claim_id_Some by fastforce
    qed
  qed
qed

lemma list_local_reads:
  assumes "list_local_claims w = (Inr cs, w')" "named_claims w"
  shows "by_claim_id cs = stored_claim w" and "c \<in> set cs \<longleftrightarrow> stored_claim w (claim_id c) = Some c" and "claim_files w' = claim_files w"
proof -
  obtain w1 where w1: "claim_files w1 = claim_files w" "list_yaml_files (claim_files w1) w1 = (Inr cs, w')"
    using assms(1) kn_call_cases(1) unfolding list_local_claims_def by (auto simp: io_iffs) (metis knowledge_home.select_convs(2) knowledge_home.update_convs(1) knowledge_home.surjective)
  then have "cs = docs (claim_files w)"
    using list_yaml_docs [OF w1(2)] assms(2) valid_id_yaml unfolding named_claims_def by force
  then show "by_claim_id cs = stored_claim w" "c \<in> set cs \<longleftrightarrow> stored_claim w (claim_id c) = Some c" using docs_stored [OF assms(2)] by auto
  show "claim_files w' = claim_files w" using within_sameD [OF within_list_local [of claim_files] assms(1)] by simp
qed


section \<open>What a plan expects\<close>

definition look :: "(claim_id \<times> claim option) list \<Rightarrow> claim_id \<Rightarrow> claim option option" where
  "look m i = map_option snd (get_by fst i m)"

lemma get_put: "ordered_by k m \<Longrightarrow> get_by k j (put_by k x m) = (if j = k x then Some x else get_by k j m)"
proof -
  assume m: "ordered_by k m"
  note p = ordered_by_inj [OF put_by_ordered [OF m, of x]]
  have "get_by k j (put_by k x m) = Some y \<longleftrightarrow> (if j = k x then Some x else get_by k j m) = Some y" for y
    unfolding get_by_iff [OF p] put_by_set [OF m]
    by (auto simp: get_by_iff [OF ordered_by_inj [OF m]])
  then show ?thesis by (metis not_Some_eq)
qed

lemma look_put: "ordered_by fst m \<Longrightarrow> look (put_by fst (j, v) m) i = (if i = j then Some v else look m i)"
  by (simp add: look_def get_put)

lemma by_claim_id_Cons: "by_claim_id (c # cs) i = (case by_claim_id cs i of Some x \<Rightarrow> Some x | None \<Rightarrow> if i = claim_id c then Some c else None)"
  by (simp add: by_claim_id_def map_of_append map_add_def split: option.splits)

lemma by_claim_id_None: "by_claim_id cs i = None \<longleftrightarrow> i \<notin> claim_id ` set cs"
  by (induction cs) (auto simp: by_claim_id_Cons by_claim_id_def split: option.splits)

lemma look_analysis:
  "ordered_by fst m \<Longrightarrow> ordered_by fst (fold (\<lambda>c. put_by fst (claim_id c, Some c)) cs m) \<and>
   look (fold (\<lambda>c. put_by fst (claim_id c, Some c)) cs m) i = (case by_claim_id cs i of Some c \<Rightarrow> Some (Some c) | None \<Rightarrow> look m i)"
proof (induction cs arbitrary: m)
  case (Cons c cs)
  have "ordered_by fst (put_by fst (claim_id c, Some c) m)" using Cons.prems by (rule put_by_ordered)
  then show ?case using Cons.IH Cons.prems by (auto simp: by_claim_id_Cons look_put split: option.splits)
qed (simp add: by_claim_id_def)

lemma look_targets:
  "ordered_by fst m \<Longrightarrow> ordered_by fst (fold (\<lambda>t m. if get_by fst (claim_id t) m = None then put_by fst (claim_id t, None) m else m) ts m) \<and>
   look (fold (\<lambda>t m. if get_by fst (claim_id t) m = None then put_by fst (claim_id t, None) m else m) ts m) i
     = (case look m i of Some v \<Rightarrow> Some v | None \<Rightarrow> if i \<in> claim_id ` set ts then Some None else None)"
proof (induction ts arbitrary: m)
  case (Cons t ts)
  let ?m = "if get_by fst (claim_id t) m = None then put_by fst (claim_id t, None) m else m"
  have m: "ordered_by fst ?m" using Cons.prems by (simp add: put_by_ordered)
  have "look ?m i = (case look m i of Some v \<Rightarrow> Some v | None \<Rightarrow> if i = claim_id t then Some None else None)"
    using Cons.prems by (auto simp: look_put) (auto simp: look_def split: option.splits)
  then show ?case using Cons.IH [OF m] by (auto split: option.splits)
qed (simp split: option.splits)

definition applied_target :: "claim list \<Rightarrow> claim list \<Rightarrow> claim_id \<Rightarrow> claim option" where
  "applied_target targets applied i = find (\<lambda>t. claim_id t = i \<and> t \<in> set applied) targets"

lemma applied_target_iff:
  "inj_on claim_id (set targets) \<Longrightarrow> applied_target targets applied i = Some t \<longleftrightarrow> t \<in> set targets \<and> t \<in> set applied \<and> claim_id t = i"
  unfolding applied_target_def
  by (cases "find (\<lambda>t. claim_id t = i \<and> t \<in> set applied) targets") (auto simp: find_None_iff dest!: find_SomeD dest: inj_onD)

lemma applied_target_None: "applied_target targets applied i = None \<longleftrightarrow> (\<forall>t \<in> set targets. t \<in> set applied \<longrightarrow> claim_id t \<noteq> i)"
  by (auto simp: applied_target_def find_None_iff)

lemma look_applied:
  "ordered_by fst m \<Longrightarrow> inj_on claim_id (set targets) \<Longrightarrow>
   ordered_by fst (fold (\<lambda>c m. if c \<in> set targets then put_by fst (claim_id c, Some c) m else m) applied m) \<and>
   look (fold (\<lambda>c m. if c \<in> set targets then put_by fst (claim_id c, Some c) m else m) applied m) i
     = (case applied_target targets applied i of Some t \<Rightarrow> Some (Some t) | None \<Rightarrow> look m i)"
proof (induction applied arbitrary: m)
  case Nil
  have "applied_target targets [] i = None" by (simp add: applied_target_None)
  with Nil show ?case by simp
next
  case (Cons c cs)
  let ?m = "if c \<in> set targets then put_by fst (claim_id c, Some c) m else m"
  have m: "ordered_by fst ?m" using Cons.prems by (simp add: put_by_ordered)
  have step: "look (fold (\<lambda>c m. if c \<in> set targets then put_by fst (claim_id c, Some c) m else m) cs ?m) i
     = (case applied_target targets cs i of Some t \<Rightarrow> Some (Some t) | None \<Rightarrow> look ?m i)" using Cons.IH [OF m Cons.prems(2)] by blast
  have "(case applied_target targets cs i of Some t \<Rightarrow> Some (Some t) | None \<Rightarrow> look ?m i)
     = (case applied_target targets (c # cs) i of Some t \<Rightarrow> Some (Some t) | None \<Rightarrow> look m i)"
  proof (cases "c \<in> set targets \<and> claim_id c = i")
    case True
    then have "applied_target targets (c # cs) i = Some c" using applied_target_iff [OF Cons.prems(2)] by simp
    moreover have "applied_target targets cs i = Some t \<Longrightarrow> t = c" for t
      using True applied_target_iff [OF Cons.prems(2)] Cons.prems(2) by (auto dest: inj_onD)
    ultimately show ?thesis using True Cons.prems(1) by (auto simp: look_put split: option.splits)
  next
    case False
    then have "applied_target targets (c # cs) i = applied_target targets cs i"
      unfolding applied_target_def by (intro find_cong) auto
    then show ?thesis using False Cons.prems(1) by (auto simp: look_put split: option.splits)
  qed
  then show ?case using step Cons.IH [OF m Cons.prems(2)] by simp
qed

text \<open>The version the plan expects of a claim: what it has written itself, else what its analysis saw.\<close>

definition expected_version :: "claim list \<Rightarrow> claim list \<Rightarrow> claim list \<Rightarrow> claim_id \<Rightarrow> claim option" where
  "expected_version analysed targets applied i = (case applied_target targets applied i of Some t \<Rightarrow> Some t | None \<Rightarrow> by_claim_id analysed i)"

lemma not_stale_iff:
  assumes "inj_on claim_id (set targets)"
  shows "\<not> analysis_is_stale (Some analysed) (changes (Some analysed) targets applied current) \<longleftrightarrow>
    (\<forall>i \<in> claim_id ` set (analysed @ targets). by_claim_id current i = expected_version analysed targets applied i)"
proof -
  let ?e = "expected_claims (Some analysed) targets applied"
  have base: "ordered_by fst ([] :: (claim_id \<times> claim option) list)" by (simp add: ordered_by_def)
  note a = look_analysis [OF base, of analysed]
  note b = look_targets [OF conjunct1 [OF a], of targets]
  note c = look_applied [OF conjunct1 [OF b] assms, of applied]
  have ord: "ordered_by fst ?e" using c by (simp add: expected_claims_def)
  have look: "look ?e i = (if i \<in> claim_id ` set (analysed @ targets) then Some (expected_version analysed targets applied i) else None)" for i
  proof -
    have at: "applied_target targets applied i = Some t \<Longrightarrow> i \<in> claim_id ` set targets" for t using applied_target_iff [OF assms] by auto
    have "look ?e i = (case applied_target targets applied i of Some t \<Rightarrow> Some (Some t) | None \<Rightarrow>
        (case by_claim_id analysed i of Some c \<Rightarrow> Some (Some c) | None \<Rightarrow> if i \<in> claim_id ` set targets then Some None else None))"
      using a [of i] b [of i] c [of i] by (auto simp: expected_claims_def look_def get_by_def split: option.splits)
    moreover have "by_claim_id analysed i = None \<longleftrightarrow> i \<notin> claim_id ` set analysed" by (rule by_claim_id_None)
    ultimately show ?thesis using at
      by (cases "applied_target targets applied i"; cases "by_claim_id analysed i") (simp_all add: expected_version_def image_Un)
  qed
  have "(i, v) \<in> set ?e \<longleftrightarrow> look ?e i = Some v" for i v
    unfolding look_def using get_by_iff [OF ordered_by_inj [OF ord]] by auto
  then have mem: "(i, v) \<in> set ?e \<longleftrightarrow> i \<in> claim_id ` set (analysed @ targets) \<and> v = expected_version analysed targets applied i" for i v
    unfolding look by (auto split: if_splits)
  have "\<not> analysis_is_stale (Some analysed) (changes (Some analysed) targets applied current) \<longleftrightarrow> (\<forall>i v. (i, v) \<in> set ?e \<longrightarrow> by_claim_id current i = v)"
    unfolding analysis_is_stale_def changes_def by (auto simp: filter_empty_conv)
  then show ?thesis unfolding mem by blast
qed


section \<open>Writing the targets\<close>

lemma stored_same: "claim_files w' = claim_files w \<Longrightarrow> stored_claim w' = stored_claim w"
  by (auto simp: stored_claim_def)

lemma stored_update: "claim_files w' = AList.update (yaml_name (claim_id t)) (Document t) (claim_files w) \<Longrightarrow> stored_claim w' i = (if i = claim_id t then Some t else stored_claim w i)"
  by (auto simp: stored_claim_def update_conv' split: option.splits)

lemma write_claim_cases:
  assumes "write_claim t w = (r, w')"
  obtains (failed) e where "r = Inl e" "claim_files w' = claim_files w"
  | (written) "r = Inr ()" "claim_files w' = AList.update (yaml_name (claim_id t)) (Document t) (claim_files w)"
proof -
  obtain q w1 where q: "kn_call w = (q, w1)" by fastforce
  have "claim_files w1 = claim_files w" using within_sameD [OF within_kn_call [of claim_files] q] by simp
  then show ?thesis using assms q failed written by (cases q) (auto simp: write_claim_def bind_io_def modify_io_def)
qed

lemma within_claims_effect: "within (same claim_files) (write_effect i r)"
  by (rule within_write_effect) simp_all

definition written_version :: "inbox_effect_plan \<Rightarrow> claim list \<Rightarrow> knowledge_home \<Rightarrow> claim_id \<Rightarrow> claim option" where
  "written_version p ts w i = (case find (\<lambda>t. claim_id t = i \<and> \<not> is_applied p t) ts of Some t \<Rightarrow> Some t | None \<Rightarrow> stored_claim w i)"

lemma written_version_Nil [simp]: "written_version p [] w = stored_claim w"
  by (simp add: written_version_def fun_eq_iff)

lemma written_version_cong: "stored_claim w = stored_claim w' \<Longrightarrow> is_applied p = is_applied p' \<Longrightarrow> written_version p ts w = written_version p' ts w'"
  by (rule ext) (simp add: written_version_def split: option.split)

text \<open>However the writing ends, a prefix of the targets is stored; a claim is written before the progress is.\<close>

lemma write_targets:
  assumes "fold_io write_target ts p w = (r, w')" "distinct (map claim_id ts)"
  shows "\<exists>written rest. ts = written @ rest \<and> stored_claim w' = written_version p written w
    \<and> (\<forall>q. r = Inr q \<longrightarrow> rest = [] \<and> q = p\<lparr>applied_claims := applied_claims p @ filter (\<lambda>t. \<not> is_applied p t) ts\<rparr>)"
  using assms
proof (induction ts arbitrary: p w)
  case Nil
  then show ?case by auto
next
  case (Cons t ts)
  show ?case
  proof (cases "is_applied p t")
    case True
    then have "fold_io write_target ts p w = (r, w')" using Cons.prems(1) by (simp add: write_target_def [of t p] bind_io_def return_io_def)
    moreover have "distinct (map claim_id ts)" using Cons.prems(2) by simp
    ultimately obtain written rest where ih: "ts = written @ rest" "stored_claim w' = written_version p written w"
        "\<forall>q. r = Inr q \<longrightarrow> rest = [] \<and> q = p\<lparr>applied_claims := applied_claims p @ filter (\<lambda>t. \<not> is_applied p t) ts\<rparr>" using Cons.IH by blast
    have "stored_claim w' = written_version p (t # written) w" unfolding ih(2) using True by (simp add: written_version_def fun_eq_iff)
    moreover have "filter (\<lambda>t. \<not> is_applied p t) (t # ts) = filter (\<lambda>t. \<not> is_applied p t) ts" using True by simp
    moreover have "t # ts = (t # written) @ rest" using ih(1) by simp
    ultimately show ?thesis using ih(3) by metis
  next
    case False
    let ?p = "p\<lparr>applied_claims := applied_claims p @ [t]\<rparr>"
    obtain q w1 where q: "write_claim t w = (q, w1)" by fastforce
    from q show ?thesis
    proof (cases rule: write_claim_cases)
      case (failed e)
      then have "r = Inl e" "w' = w1" using Cons.prems(1) False q by (simp_all add: write_target_def [of t p] bind_io_def)
      then show ?thesis using stored_same [OF failed(2)] by - (rule exI [of _ "[]"], rule exI [of _ "t # ts"], auto)
    next
      case written
      have w1: "stored_claim w1 = written_version p [t] w"
        using stored_update [OF written(2)] False by (auto simp: written_version_def fun_eq_iff)
      obtain x w2 where x: "write_effect (plan_inbox_id ?p) (PlanRecord ?p) w1 = (x, w2)" by fastforce
      have w2: "stored_claim w2 = stored_claim w1" using within_sameD [OF within_claims_effect x] by (rule stored_same)
      show ?thesis
      proof (cases x)
        case (Inl e)
        then have "r = Inl e" "w' = w2" using Cons.prems(1) False q written(1) x by (simp_all add: write_target_def [of t p] bind_io_def Let_def)
        then show ?thesis using w1 w2 by - (rule exI [of _ "[t]"], rule exI [of _ ts], auto)
      next
        case (Inr u)
        then have "fold_io write_target ts ?p w2 = (r, w')"
          using Cons.prems(1) False q written(1) x by (simp add: write_target_def [of t p] bind_io_def Let_def return_io_def)
        moreover have "distinct (map claim_id ts)" using Cons.prems(2) by simp
        ultimately obtain written' rest where ih: "ts = written' @ rest" "stored_claim w' = written_version ?p written' w2"
            "\<forall>q. r = Inr q \<longrightarrow> rest = [] \<and> q = ?p\<lparr>applied_claims := applied_claims ?p @ filter (\<lambda>t. \<not> is_applied ?p t) ts\<rparr>" using Cons.IH by blast
        have same: "is_applied ?p u \<longleftrightarrow> is_applied p u" if "u \<in> set ts" for u
          using Cons.prems(2) that by (auto simp: is_applied_def)
        then have f: "filter (\<lambda>t. \<not> is_applied ?p t) ts = filter (\<lambda>t. \<not> is_applied p t) ts" by (intro filter_cong) auto
        have "written_version ?p written' w2 = written_version p (t # written') w"
        proof
          fix i
          have "find (\<lambda>t. claim_id t = i \<and> \<not> is_applied ?p t) written' = find (\<lambda>t. claim_id t = i \<and> \<not> is_applied p t) written'"
            using same ih(1) by (intro find_cong) auto
          moreover have "claim_id u \<noteq> claim_id t" if "u \<in> set written'" for u
            using Cons.prems(2) that unfolding ih(1) by (metis distinct.simps(2) image_eqI list.map(2) map_append set_append Un_iff list.set_map)
          then have "find (\<lambda>u. claim_id u = claim_id t \<and> \<not> is_applied p u) written' = None" unfolding find_None_iff by blast
          ultimately show "written_version ?p written' w2 i = written_version p (t # written') w i"
            using w1 w2 False by (auto simp: written_version_def split: option.splits)
        qed
        then have "stored_claim w' = written_version p (t # written') w" using ih(2) by simp
        moreover have "?p\<lparr>applied_claims := applied_claims ?p @ filter (\<lambda>t. \<not> is_applied ?p t) ts\<rparr>
            = p\<lparr>applied_claims := applied_claims p @ filter (\<lambda>t. \<not> is_applied p t) (t # ts)\<rparr>" using f False by simp
        moreover have "t # ts = (t # written') @ rest" using ih(1) by simp
        ultimately show ?thesis using ih(3) by metis
      qed
    qed
  qed
qed


section \<open>Applying a plan\<close>

lemma choose_disputes_plan:
  "choose_disputes S p w = (Inr p', w') \<Longrightarrow> \<exists>ds ws. p' = p\<lparr>planned_disputes := ds, plan_warnings := ws\<rparr>"
  by (auto simp: choose_disputes_def io_iffs split: if_splits intro: exI [of _ "planned_disputes p"] exI [of _ "plan_warnings p"]) (metis inbox_effect_plan.surjective inbox_effect_plan.update_convs(14,16))

lemma within_choose: "unaffected f \<Longrightarrow> within (same f) (choose_disputes S p)"
  unfolding choose_disputes_def Let_def case_prod_unfold by (intro same.within_intros within_reported)

lemma within_claims_discard: "within (same claim_files) (discard_stale_inbox_plan p)"
  unfolding discard_stale_inbox_plan_def Let_def by (intro same.within_intros within_list_local within_claims_effect) simp

lemma within_claims_trace: "within (same claim_files) (store_trace t)"
  unfolding store_trace_def write_trace_file_def
  by (intro same.within_intros within_read_local within_kn_call same.within_modify) (simp_all add: same_def)

lemma within_claims_uploads: "within (same claim_files) (at_uploads m)"
  by (intro withinI) (auto simp: at_uploads_def same_def split: prod.splits)

lemma within_claims_record: "within (same claim_files) (record_dispute_if_new now d)"
  unfolding record_dispute_if_new_def record_claim_set_def Let_def
  by (intro same.within_intros within_reported within_ledger within_kn_call same.within_modify) (simp_all add: same_def)

lemma within_claims_commit: "within (same claim_files) (commit_effect S p cs)"
  unfolding commit_effect_def Let_def by (intro same.within_intros within_claims_uploads within_claims_record within_claims_effect)

text \<open>What the plan knows of the claims, after it has looked: nothing else may have touched them.\<close>

definition aligned :: "inbox_effect_plan \<Rightarrow> knowledge_home \<Rightarrow> bool" where
  "aligned p w \<longleftrightarrow> (\<exists>analysed. analysis_claims p = Some analysed \<and>
     (\<forall>i \<in> claim_id ` set (analysed @ plan_targets p). stored_claim w i = expected_version analysed (plan_targets p) (applied_claims p) i))"

lemma plan_targets_applied [simp]: "plan_targets (p\<lparr>applied_claims := x\<rparr>) = plan_targets p"
  by (simp add: plan_targets_def)

lemma discard_cases:
  assumes "discard_stale_inbox_plan p w = (Inr p1, w1)" "named_claims w" "distinct (map claim_id (plan_targets p))"
  obtains (kept) cs where "p1 = p\<lparr>applied_claims := observe_applied (plan_targets p) cs (applied_claims p)\<rparr>" "aligned p1 w"
      "by_claim_id cs = stored_claim w" "\<And>c. c \<in> set cs \<longleftrightarrow> stored_claim w (claim_id c) = Some c"
  | (discarded) "plan_targets p1 = []"
proof -
  obtain cs w0 where cs: "list_local_claims w = (Inr cs, w0)" using assms(1) by (auto simp: discard_stale_inbox_plan_def bind_io_Inr_iff)
  note reads = list_local_reads [OF cs assms(2)]
  let ?p = "p\<lparr>applied_claims := observe_applied (plan_targets p) cs (applied_claims p)\<rparr>"
  have inj: "inj_on claim_id (set (plan_targets p))" using assms(3) by (simp add: distinct_map)
  show thesis
  proof (cases "analysis_is_stale (analysis_claims p) (changes (analysis_claims p) (plan_targets p) (applied_claims ?p) cs)")
    case True
    then have "plan_targets p1 = []" using assms(1) cs
      by (auto simp: discard_stale_inbox_plan_def bind_io_Inr_iff Let_def plan_targets_def)
    then show thesis by (rule discarded)
  next
    case False
    then obtain analysed where a: "analysis_claims p = Some analysed" by (auto simp: analysis_is_stale_def)
    have "p1 = ?p" using False assms(1) cs by (simp add: discard_stale_inbox_plan_def bind_io_def Let_def return_io_def)
    moreover have "aligned ?p w" using False unfolding a not_stale_iff [OF inj] reads(1) by (simp add: aligned_def a)
    ultimately show thesis using kept reads(1,2) by blast
  qed
qed

lemma sorted_targets: "distinct (map claim_id (sort_by le ts)) \<longleftrightarrow> distinct (map claim_id ts)"
  by (metis mset_map mset_sort_by mset_eq_imp_distinct_iff)

lemma within_claims_finish: "within (same claim_files) (finish_effect p)"
  unfolding finish_effect_def Let_def by (intro same.within_intros within_list_local within_claims_trace) simp

lemma bind_tail_same:
  assumes "bind_io m k w = (r, w')" "\<And>x. within (same f) (k x)"
  obtains q w1 where "m w = (q, w1)" "f w' = f w1"
proof -
  obtain q w1 where q: "m w = (q, w1)" by fastforce
  have "f w' = f w1" using assms(1) q within_sameD [OF assms(2)] by (cases q) (auto simp: bind_io_def)
  then show thesis using q that by blast
qed

lemma apply_effect_claims:
  assumes "apply_claim_attribute_update_effect S p w = (r, w')" "distinct (map claim_id (plan_targets p))"
  shows "\<exists>written rest. retire_last (plan_targets p) = written @ rest \<and> stored_claim w' = written_version p written w"
proof -
  have unchanged: ?thesis if "stored_claim w' = stored_claim w" using that by - (rule exI [of _ "[]"], auto)
  show ?thesis using assms(1) [unfolded apply_claim_attribute_update_effect_def] within_choose [of claim_files, simplified]
  proof (cases rule: bind_same_cases)
    case failed
    show ?thesis by (rule unchanged, rule stored_same, rule failed(3))
  next
    case (continued p' w1)
    then obtain ds ws where p': "p' = p\<lparr>planned_disputes := ds, plan_warnings := ws\<rparr>" using choose_disputes_plan by blast
    have same: "plan_targets p' = plan_targets p" "is_applied p' = is_applied p" by (simp_all add: p' plan_targets_def is_applied_def fun_eq_iff)
    show ?thesis using continued(3) within_list_local [of claim_files, simplified]
    proof (cases rule: bind_same_cases)
      case failed
      show ?thesis using unchanged [OF stored_same] failed(3) continued(2) by simp
    next
      case inner: (continued current w2)
      have files: "stored_claim w2 = stored_claim w" using inner(2) continued(2) stored_same by metis
      show ?thesis
      proof (cases "still_applies p' current")
        case False
        then show ?thesis using inner(3) files unchanged by (simp add: throw_io_def)
      next
        case True
        then have "bind_io (fold_io write_target (retire_last (plan_targets p)) p') finish_effect w2 = (r, w')" using inner(3) by (simp add: same)
        then obtain q w3 where q: "fold_io write_target (retire_last (plan_targets p)) p' w2 = (q, w3)" "claim_files w' = claim_files w3"
          using bind_tail_same within_claims_finish by metis
        have "distinct (map claim_id (retire_last (plan_targets p)))" using assms(2) by (simp add: retire_last_def sorted_targets)
        then obtain written rest where "retire_last (plan_targets p) = written @ rest" "stored_claim w3 = written_version p' written w2"
          using write_targets [OF q(1)] by blast
        moreover have "written_version p' written w2 = written_version p written w" using files same(2) by (rule written_version_cong)
        ultimately show ?thesis using stored_same [OF q(2)] by auto
      qed
    qed
  qed
qed


lemma observe_applied_set: "set applied \<subseteq> set (observe_applied targets current applied) \<and> set (observe_applied targets current applied) \<subseteq> set applied \<union> set targets"
proof -
  define look_at where "look_at = (\<lambda>t applied. if \<not> list_ex (\<lambda>c. claim_id c = claim_id t) applied \<and> t \<in> set current then applied @ [t] else applied)"
  have step: "set applied \<subseteq> set (look_at t applied) \<and> set (look_at t applied) \<subseteq> insert t (set applied)" for t applied
    by (auto simp: look_at_def)
  have "set applied \<subseteq> set (fold look_at targets applied) \<and> set (fold look_at targets applied) \<subseteq> set applied \<union> set targets"
  proof (induction targets arbitrary: applied)
    case (Cons t ts)
    show ?case using Cons.IH [of "look_at t applied"] step [of applied t] by auto
  qed simp
  then show ?thesis unfolding observe_applied_def look_at_def .
qed

lemma apply_persisted_claims:
  assumes "apply_persisted_claim_attribute_update_plan S p w = (r, w')" "named_claims w" "distinct (map claim_id (plan_targets p))"
  shows "stored_claim w' = stored_claim w \<or>
    (\<exists>p1 written rest. retire_last (plan_targets p) = written @ rest \<and> stored_claim w' = written_version p1 written w \<and> aligned p1 w
       \<and> analysis_claims p1 = analysis_claims p \<and> plan_targets p1 = plan_targets p \<and> set (applied_claims p1) \<subseteq> set (applied_claims p) \<union> set (plan_targets p))"
  using assms(1) [unfolded apply_persisted_claim_attribute_update_plan_def] within_repair [of claim_files, simplified]
proof (cases rule: bind_same_cases)
  case failed
  show ?thesis using stored_same [OF failed(3)] ..
next
  case (continued u w1)
  show ?thesis
  proof (cases "effect_state p = Prepared")
    case False
    then have "w' = w1" using continued(3) by (simp add: return_io_def)
    then show ?thesis using stored_same [OF continued(2)] by simp
  next
    case True
    then have "bind_io (discard_stale_inbox_plan p) (\<lambda>p1. bind_io (apply_claim_attribute_update_effect S p1) (\<lambda>(p2, claims). commit_effect S p2 claims)) w1 = (r, w')"
      using continued(3) by simp
    from this within_claims_discard show ?thesis
    proof (cases rule: bind_same_cases)
      case failed
      show ?thesis using stored_same [of w' w] failed(3) continued(2) by simp
    next
      case inner: (continued p1 w2)
      have files: "stored_claim w1 = stored_claim w" "stored_claim w2 = stored_claim w" using inner(2) continued(2) stored_same by metis+
      have named: "named_claims w1" using assms(2) continued(2) by (simp add: named_claims_def)
      from inner(3) obtain q w3 where q: "apply_claim_attribute_update_effect S p1 w2 = (q, w3)" "claim_files w' = claim_files w3"
        by (rule bind_tail_same) (auto intro!: same.within_intros within_claims_commit)
      have w': "stored_claim w' = stored_claim w3" using q(2) by (rule stored_same)
      from inner(1) named assms(3) show ?thesis
      proof (cases rule: discard_cases)
        case (kept cs)
        then have "plan_targets p1 = plan_targets p" "analysis_claims p1 = analysis_claims p"
            "set (applied_claims p1) \<subseteq> set (applied_claims p) \<union> set (plan_targets p)" using observe_applied_set by simp_all
        moreover have "aligned p1 w" using kept(2) files(1) by (simp add: aligned_def)
        moreover obtain written rest where "retire_last (plan_targets p1) = written @ rest" "stored_claim w3 = written_version p1 written w2"
          using apply_effect_claims [OF q(1)] assms(3) calculation(1) by auto
        moreover have "written_version p1 written w2 = written_version p1 written w" using files(2) refl by (rule written_version_cong)
        ultimately show ?thesis using w' by metis
      next
        case discarded
        then have "stored_claim w3 = stored_claim w2" using apply_effect_claims [OF q(1)] by (auto simp: retire_last_def)
        then show ?thesis using w' files(2) by simp
      qed
    qed
  qed
qed

lemma written_version_cases:
  assumes "distinct (map claim_id ts)"
  shows "t \<in> set ts \<Longrightarrow> written_version p ts w (claim_id t) = (if is_applied p t then stored_claim w (claim_id t) else Some t)"
    and "written_version p ts w i \<noteq> stored_claim w i \<Longrightarrow> \<exists>t \<in> set ts. claim_id t = i \<and> \<not> is_applied p t \<and> written_version p ts w i = Some t"
proof -
  have inj: "inj_on claim_id (set ts)" using assms by (simp add: distinct_map)
  show "written_version p ts w (claim_id t) = (if is_applied p t then stored_claim w (claim_id t) else Some t)" if "t \<in> set ts"
  proof (cases "find (\<lambda>u. claim_id u = claim_id t \<and> \<not> is_applied p u) ts")
    case None
    then have "is_applied p t" using that unfolding find_None_iff by blast
    then show ?thesis using None by (simp add: written_version_def)
  next
    case (Some u)
    then have "u = t" "\<not> is_applied p u" using inj that by (auto dest!: find_SomeD dest: inj_onD)
    then show ?thesis using Some by (simp add: written_version_def)
  qed
  show "\<exists>t \<in> set ts. claim_id t = i \<and> \<not> is_applied p t \<and> written_version p ts w i = Some t" if "written_version p ts w i \<noteq> stored_claim w i"
    using that unfolding written_version_def by (auto split: option.splits dest!: find_SomeD)
qed

text \<open>
  Property C33.  However applying a plan ends, a claim it has changed is one of the plan's targets, now in the planned
  version, and it was replaced in the version the analysis had seen; and nothing at all is changed unless every claim of
  the analysis is still as it was seen or is already the plan's own result.  Edits that others make while a plan waits
  are never overwritten.
\<close>

theorem plan_replaces_only_analysed_versions:
  assumes "apply_persisted_claim_attribute_update_plan S p w = (r, w')" and "named_claims w"
    and "distinct (map claim_id (plan_targets p))" and "stored_claim w' i \<noteq> stored_claim w i"
  shows "\<exists>analysed t. analysis_claims p = Some analysed \<and> t \<in> set (plan_targets p) \<and> claim_id t = i
    \<and> stored_claim w' i = Some t \<and> stored_claim w i = by_claim_id analysed i
    \<and> (\<forall>c \<in> set analysed. stored_claim w (claim_id c) = by_claim_id analysed (claim_id c)
         \<or> (\<exists>u \<in> set (plan_targets p). claim_id u = claim_id c \<and> stored_claim w (claim_id c) = Some u))"
proof -
  obtain p1 written rest where p1: "retire_last (plan_targets p) = written @ rest" "stored_claim w' = written_version p1 written w" "aligned p1 w"
      "analysis_claims p1 = analysis_claims p" "plan_targets p1 = plan_targets p"
    using apply_persisted_claims [OF assms(1-3)] assms(4) by auto
  obtain analysed where a: "analysis_claims p = Some analysed"
      "\<forall>i \<in> claim_id ` set (analysed @ plan_targets p). stored_claim w i = expected_version analysed (plan_targets p) (applied_claims p1) i"
    using p1(3) unfolding aligned_def p1(4,5) by blast
  have inj: "inj_on claim_id (set (plan_targets p))" using assms(3) by (simp add: distinct_map)
  have "distinct (map claim_id (written @ rest))" using assms(3) sorted_targets p1(1) by (metis retire_last_def)
  then obtain t where t: "t \<in> set written" "claim_id t = i" "\<not> is_applied p1 t" "stored_claim w' i = Some t"
    using written_version_cases(2) [of written p1 w i] assms(4) p1(2) by auto
  have mem: "t \<in> set (plan_targets p)" using t(1) p1(1) unfolding retire_last_def by (metis Un_iff set_append set_sort_by)
  have "applied_target (plan_targets p) (applied_claims p1) i = None"
    using inj mem t(2,3) by (auto simp: applied_target_None is_applied_def list_ex_iff dest: inj_onD)
  then have "stored_claim w i = by_claim_id analysed i" using a(2) mem t(2) by (auto simp: expected_version_def)
  moreover have "stored_claim w (claim_id c) = by_claim_id analysed (claim_id c)
         \<or> (\<exists>u \<in> set (plan_targets p). claim_id u = claim_id c \<and> stored_claim w (claim_id c) = Some u)" if "c \<in> set analysed" for c
    using a(2) that applied_target_iff [OF inj] by (auto simp: expected_version_def split: option.splits)
  ultimately show ?thesis using a(1) mem t(2,4) by blast
qed


text \<open>
  Property C34.  A claim is never retired before its successors are there: if applying a plan has written a target that
  is deprecated, then every target that is not deprecated is stored, even when the run ends with an error right after.
\<close>

theorem sources_retire_after_their_successors:
  assumes "apply_persisted_claim_attribute_update_plan S p w = (r, w')" and "named_claims w"
    and "distinct (map claim_id (plan_targets p))" and "set (applied_claims p) \<subseteq> set (plan_targets p)"
    and "t \<in> set (plan_targets p)" and "claim_status t = Deprecated" and "stored_claim w (claim_id t) \<noteq> stored_claim w' (claim_id t)"
    and "u \<in> set (plan_targets p)" and "claim_status u \<noteq> Deprecated"
  shows "stored_claim w' (claim_id u) = Some u"
proof -
  obtain p1 written rest where p1: "retire_last (plan_targets p) = written @ rest" "stored_claim w' = written_version p1 written w" "aligned p1 w"
      "plan_targets p1 = plan_targets p" "set (applied_claims p1) \<subseteq> set (applied_claims p) \<union> set (plan_targets p)"
    using apply_persisted_claims [OF assms(1-3)] assms(7) by auto
  have inj: "inj_on claim_id (set (plan_targets p))" using assms(3) by (simp add: distinct_map)
  have all: "set (written @ rest) = set (plan_targets p)" using p1(1) unfolding retire_last_def by (metis set_sort_by)
  have d: "distinct (map claim_id written)" using assms(3) sorted_targets p1(1) unfolding retire_last_def by (metis distinct_append map_append)
  have "t \<in> set written"
    using written_version_cases(2) [OF d, of p1 w "claim_id t"] assms(5,7) all inj unfolding p1(2) by (metis Un_iff inj_onD set_append)
  moreover have "sorted_wrt (cmp_key (\<lambda>c. claim_status c = Deprecated)) (written @ rest)"
    using comparison.sorted_wrt_sort_by [OF comparison_key] p1(1) unfolding retire_last_def by metis
  ultimately have "u \<notin> set rest" using assms(6,9) by (auto simp: sorted_wrt_append cmp_key_def)
  then have u: "u \<in> set written" using assms(8) all by auto
  show ?thesis
  proof (cases "is_applied p1 u")
    case False
    then show ?thesis using written_version_cases(1) [OF d u] p1(2) by simp
  next
    case True
    then have "u \<in> set (applied_claims p1)" using p1(5) inj assms(4,8) by (auto simp: is_applied_def list_ex_iff dest!: subsetD dest: inj_onD)
    then have "applied_target (plan_targets p) (applied_claims p1) (claim_id u) = Some u" using applied_target_iff [OF inj] assms(8) by simp
    then have "stored_claim w (claim_id u) = Some u" using p1(3) assms(8) unfolding aligned_def p1(4) by (auto simp: expected_version_def)
    then show ?thesis using True written_version_cases(1) [OF d u] p1(2) by simp
  qed
qed


section \<open>Messages with a record\<close>

lemma bind_io_cong_Inr: "(\<And>x w1. m w = (Inr x, w1) \<Longrightarrow> k x w1 = k' x w1) \<Longrightarrow> bind_io m k w = bind_io m k' w"
  by (auto simp: bind_io_def split: prod.splits sum.splits)

lemma other_model_validation:
  "validate_effect_plan_integrity (S\<lparr>generator := g\<rparr>) = validate_effect_plan_integrity S"
  "validate_effect_plan_message_member (S\<lparr>generator := g\<rparr>) = validate_effect_plan_message_member S"
proof -
  have other: "hash_members (S\<lparr>generator := g\<rparr>) = hash_members S" "hash_message (S\<lparr>generator := g\<rparr>) = hash_message S" by simp_all
  show "validate_effect_plan_integrity (S\<lparr>generator := g\<rparr>) = validate_effect_plan_integrity S"
    by (intro ext) (simp only: validate_effect_plan_integrity_def other)
  show "validate_effect_plan_message_member (S\<lparr>generator := g\<rparr>) = validate_effect_plan_message_member S"
    by (intro ext) (simp only: validate_effect_plan_message_member_def other)
qed

lemma other_model_load: "load_claim_attribute_update_effect_batch (S\<lparr>generator := g\<rparr>) = load_claim_attribute_update_effect_batch S"
  by (intro ext) (simp only: load_claim_attribute_update_effect_batch_def other_model_validation)

lemma other_model_apply: "apply_persisted_claim_attribute_update_plan (S\<lparr>generator := g\<rparr>) = apply_persisted_claim_attribute_update_plan S"
proof -
  have "team_services_configured (S\<lparr>generator := g\<rparr>) = team_services_configured S" by (simp add: team_services_configured_def)
  then have "choose_disputes (S\<lparr>generator := g\<rparr>) = choose_disputes S" by (intro ext) (simp only: choose_disputes_def)
  then have "apply_claim_attribute_update_effect (S\<lparr>generator := g\<rparr>) = apply_claim_attribute_update_effect S"
    by (intro ext) (simp only: apply_claim_attribute_update_effect_def)
  moreover have "maintainer_client (S\<lparr>generator := g\<rparr>) = maintainer_client S" "ledger_now (S\<lparr>generator := g\<rparr>) = ledger_now S" by simp_all
  then have "commit_effect (S\<lparr>generator := g\<rparr>) = commit_effect S"
    using \<open>team_services_configured (S\<lparr>generator := g\<rparr>) = team_services_configured S\<close> by (intro ext) (simp only: commit_effect_def)
  ultimately show ?thesis by (intro ext) (simp only: apply_persisted_claim_attribute_update_plan_def)
qed

lemma other_model_once: "apply_once (S\<lparr>generator := g\<rparr>) = apply_once S"
  by (intro ext) (simp only: apply_once_def other_model_apply)

lemma other_model_loop:
  "(\<And>m r. (m, r) \<in> set xs \<Longrightarrow> r \<noteq> None) \<Longrightarrow> internalize_loop (S\<lparr>generator := g\<rparr>) xs s = internalize_loop S xs s"
proof (induction xs arbitrary: s)
  case Nil
  then show ?case by (simp add: internalize_loop.simps)
next
  case (Cons y ys)
  obtain m x where y: "y = (m, Some x)" using Cons.prems by (cases y) auto
  have "internalize_loop (S\<lparr>generator := g\<rparr>) ys = internalize_loop S ys" using Cons by (intro ext) (metis list.set_intros(2))
  then show ?case unfolding y
    by (simp add: internalize_loop.simps recheck_def other_model_load other_model_once)
qed

definition record_at :: "knowledge_home \<Rightarrow> inbox_id \<Rightarrow> inbox_effect_record option" where
  "record_at w i = (case map_of (effect_files w) (yaml_name i) of Some (Document r) \<Rightarrow> Some r | _ \<Rightarrow> None)"

lemma read_record_Inr: "read_inbox_effect_record i w = (Inr v, w') \<Longrightarrow> v = record_at w i \<and> (v = None \<longleftrightarrow> map_of (effect_files w) (yaml_name i) = None)"
proof -
  assume "read_inbox_effect_record i w = (Inr v, w')"
  then obtain w1 where w1: "kn_call w = (Inr (), w1)"
      "(case map_of (effect_files w1) (yaml_name i) of None \<Rightarrow> return_io None | Some (Document x) \<Rightarrow> return_io (Some x) | Some _ \<Rightarrow> kn_decode) w1 = (Inr v, w')"
    by (auto simp: read_inbox_effect_record_def read_local_def bind_io_Inr_iff get_io_def)
  have "effect_files w1 = effect_files w" using within_sameD [OF within_kn_call [of effect_files] w1(1)] by simp
  then show ?thesis using w1(2) by (auto simp: record_at_def kn_decode_def split: option.splits yaml_file.splits)
qed

lemma read_records_from:
  "fold_io (\<lambda>m out. bind_io (read_inbox_effect_record (message_id m)) (\<lambda>r. return_io (out @ [(m, r)]))) ms out w = (Inr xs, w') \<Longrightarrow>
   xs = out @ map (\<lambda>m. (m, record_at w (message_id m))) ms \<and> (\<forall>m \<in> set ms. record_at w (message_id m) = None \<longleftrightarrow> map_of (effect_files w) (yaml_name (message_id m)) = None)"
proof (induction ms arbitrary: out w)
  case (Cons m ms)
  obtain v w1 where v: "read_inbox_effect_record (message_id m) w = (Inr v, w1)"
      "fold_io (\<lambda>m out. bind_io (read_inbox_effect_record (message_id m)) (\<lambda>r. return_io (out @ [(m, r)]))) ms (out @ [(m, v)]) w1 = (Inr xs, w')"
    using Cons.prems by (auto simp: bind_io_Inr_iff)
  have "effect_files w1 = effect_files w" using within_sameD [OF within_read_record [of effect_files] v(1)] by simp
  then have "record_at w1 = record_at w" by (simp add: record_at_def fun_eq_iff)
  with Cons.IH [OF v(2)] read_record_Inr [OF v(1)] \<open>effect_files w1 = effect_files w\<close> show ?case by (auto simp del: not_None_eq)
qed simp

lemma read_records_Inr:
  "read_records ms w = (Inr xs, w') \<Longrightarrow>
   xs = map (\<lambda>m. (m, record_at w (message_id m))) ms \<and> (\<forall>m \<in> set ms. record_at w (message_id m) = None \<longleftrightarrow> map_of (effect_files w) (yaml_name (message_id m)) = None)"
  unfolding read_records_def using read_records_from [of ms "[]"] by auto

lemma within_check: "within (same f) (check_messages ms)"
  unfolding check_messages_def by (intro same.within_intros)

lemma within_lock: "unaffected f \<Longrightarrow> within (same f) (lock_effects ms)"
  unfolding lock_effects_def discover_claim_attribute_update_effect_paths_def read_once_def Let_def
  by (intro same.within_intros within_kn_call within_read_record)

lemma within_ready: "unaffected f \<Longrightarrow> within (same f) ensure_knowledge_ready"
  unfolding ensure_knowledge_ready_def by (intro same.within_intros within_kn_call)

text \<open>
  Property C35.  Messages that already have a record in the journal never reach the model again: whatever the model would
  answer, the run does the same and ends the same.
\<close>

theorem recorded_messages_never_reach_the_model:
  assumes "\<forall>m \<in> set ms. map_of (effect_files w) (yaml_name (message_id m)) \<noteq> None"
  shows "internalize_locally (S\<lparr>generator := g\<rparr>) ms w = internalize_locally S ms w"
  unfolding internalize_locally_def load_records_def other_model_load
proof (intro bind_io_cong_Inr)
  fix u1 w1 u2 w2 u3 w3 u4 w4 xs w5 cache w6
  assume run: "check_messages ms w = (Inr u1, w1)" "lock_effects ms w1 = (Inr u2, w2)" "kn_call w2 = (Inr u3, w3)"
    "ensure_knowledge_ready w3 = (Inr u4, w4)" "read_records ms w4 = (Inr xs, w5)"
  have "effect_files w4 = effect_files w"
    using within_sameD [OF within_check run(1), of effect_files] within_sameD [OF within_lock [of effect_files] run(2)]
      within_sameD [OF within_kn_call [of effect_files] run(3)] within_sameD [OF within_ready [of effect_files] run(4)] by simp
  then have "r \<noteq> None" if "(m, r) \<in> set xs" for m r using read_records_Inr [OF run(5)] assms that by auto
  then show "internalize_loop (S\<lparr>generator := g\<rparr>) xs (cache, [], no_summary) w6 = internalize_loop S xs (cache, [], no_summary) w6"
    using other_model_loop by metis
qed

end
