(* ===== verification/Effect_Progress.thy ===== *)
theory Effect_Progress
  imports Effect_Properties Io_Rules
begin

text \<open>
  A run over a batch of attribute updates that succeeds leaves the effect of every message of the batch applied.
\<close>

section \<open>How the records change\<close>

text \<open>A plan record lies under the id of its plan.\<close>

definition journal_ok :: "knowledge_home \<Rightarrow> bool" where
  "journal_ok w \<longleftrightarrow> (\<forall>i p. record_at w i = Some (PlanRecord p) \<longrightarrow> plan_inbox_id p = i)"

text \<open>Applying the plan of \<open>i\<close> rewrites the record of \<open>i\<close> and adds references where nothing was.\<close>

definition grows :: "inbox_id \<Rightarrow> knowledge_home \<Rightarrow> knowledge_home \<Rightarrow> bool" where
  "grows i w w' \<longleftrightarrow> (\<forall>j r. j \<noteq> i \<longrightarrow> record_at w j = Some r \<longrightarrow> record_at w' j = Some r)
     \<and> (\<forall>j. record_at w' j \<noteq> record_at w j \<longrightarrow>
          (j = i \<and> (\<exists>p. record_at w' j = Some (PlanRecord p) \<and> plan_inbox_id p = i)) \<or> (\<exists>x. record_at w' j = Some (RefRecord x)))"

lemma grows_refl: "grows i w w"
  by (simp add: grows_def)

lemma grows_trans: "grows i u v \<Longrightarrow> grows i v w \<Longrightarrow> grows i u w"
  unfolding grows_def by metis

lemma record_at_same: "effect_files w' = effect_files w \<Longrightarrow> record_at w' = record_at w"
  by (simp add: record_at_def fun_eq_iff)

lemma grows_same: "effect_files w' = effect_files w \<Longrightarrow> grows i u w \<Longrightarrow> grows i u w'"
  unfolding grows_def by (simp only: record_at_same [of w' w])

lemma grows_journal_ok: "grows i w w' \<Longrightarrow> journal_ok w \<Longrightarrow> journal_ok w'"
  unfolding grows_def journal_ok_def by (metis inbox_effect_record.distinct(1) inbox_effect_record.inject(1) option.inject)

lemma write_effect_cases:
  assumes "write_effect i r w = (q, w')"
  obtains (failed) e where "q = Inl e" "record_at w' = record_at w"
  | (written) "q = Inr ()" "\<And>j. record_at w' j = (if j = i then Some r else record_at w j)"
proof -
  obtain x w1 where x: "kn_call w = (x, w1)" by fastforce
  have same: "effect_files w1 = effect_files w" using within_sameD [OF within_kn_call [of effect_files] x] by simp
  show thesis
  proof (cases x)
    case (Inl e)
    then have "q = Inl e" "w' = w1" using assms x by (auto simp: write_effect_def bind_io_def)
    then show thesis using failed record_at_same [OF same] by blast
  next
    case (Inr u)
    then have "q = Inr ()" "effect_files w' = AList.update (yaml_name i) (Document r) (effect_files w)"
      using assms x same by (auto simp: write_effect_def bind_io_def modify_io_def)
    then show thesis using written by (auto simp: record_at_def update_conv')
  qed
qed

section \<open>Every step grows the journal\<close>

lemma keeping_grows_same: "within (same effect_files) m \<Longrightarrow> keeping (grows i w0) m (\<lambda>_. True)"
  by (intro keepingI) (auto dest: within_sameD intro: grows_same)

lemma keeping_grows_plan: "plan_inbox_id q = i \<Longrightarrow> keeping (grows i w0) (write_effect i (PlanRecord q)) (\<lambda>_. True)"
proof (rule keepingI)
  fix w r w'
  assume q: "plan_inbox_id q = i" "grows i w0 w" "write_effect i (PlanRecord q) w = (r, w')"
  from q(3) have "grows i w w'" by (cases rule: write_effect_cases) (auto simp: grows_def q(1))
  then show "grows i w0 w' \<and> (\<forall>x. r = Inr x \<longrightarrow> True)" using grows_trans q(2) by blast
qed

lemma repair_ref_grows:
  assumes "repair_ref p h m w = (r, w')"
  shows "grows i w w'" and "r = Inr () \<Longrightarrow> record_at w' (member_inbox_id m) = Some (ref_to p h)"
proof -
  obtain q w1 where q: "read_inbox_effect_record (member_inbox_id m) w = (q, w1)" by fastforce
  have same: "record_at w1 = record_at w" using record_at_same [OF within_sameD [OF within_read_record [OF unaffected_fields(3)] q]] .
  have "grows i w w' \<and> (r = Inr () \<longrightarrow> record_at w' (member_inbox_id m) = Some (ref_to p h))"
  proof (cases q)
    case (Inl e)
    then show ?thesis using assms q same by (auto simp: repair_ref_def bind_io_def grows_def)
  next
    case (Inr v)
    have v: "v = record_at w (member_inbox_id m)" using read_record_Inr q Inr by blast
    show ?thesis
    proof (cases v)
      case (Some x)
      then show ?thesis using assms q Inr same v by (auto simp: repair_ref_def bind_io_def return_io_def throw_io_def grows_def split: if_splits)
    next
      case None
      then have run: "write_effect (member_inbox_id m) (ref_to p h) w1 = (r, w')" using assms q Inr by (simp add: repair_ref_def bind_io_def)
      from run show ?thesis by (cases rule: write_effect_cases) (use same v None in \<open>auto simp: grows_def ref_to_def\<close>)
    qed
  qed
  then show "grows i w w'" "r = Inr () \<Longrightarrow> record_at w' (member_inbox_id m) = Some (ref_to p h)" by blast+
qed

lemma repair_loop:
  "for_io (repair_ref p h) ms w = (r, w') \<Longrightarrow> grows i w w' \<and> (r = Inr () \<longrightarrow> (\<forall>m \<in> set ms. member_inbox_id m \<noteq> i \<longrightarrow> record_at w' (member_inbox_id m) = Some (ref_to p h)))"
proof (induction ms arbitrary: w)
  case (Cons m ms)
  obtain q w1 where q: "repair_ref p h m w = (q, w1)" by fastforce
  note first = repair_ref_grows [OF q]
  show ?case
  proof (cases q)
    case (Inl e)
    then show ?thesis using Cons.prems q first(1) by (auto simp: bind_io_def)
  next
    case (Inr u)
    then have run: "for_io (repair_ref p h) ms w1 = (r, w')" using Cons.prems q by (simp add: bind_io_def)
    have "record_at w1 (member_inbox_id m) = Some (ref_to p h)" using first(2) Inr by simp
    then have "member_inbox_id m \<noteq> i \<Longrightarrow> record_at w' (member_inbox_id m) = Some (ref_to p h)"
      using Cons.IH [OF run] by (simp add: grows_def)
    then show ?thesis using Cons.IH [OF run] grows_trans [OF first(1)] by auto
  qed
qed (simp add: grows_refl return_io_def)

lemma repair_grows:
  assumes "repair_claim_attribute_update_refs p w = (r, w')"
  shows "grows i w w'" and "r = Inr () \<Longrightarrow> batch_hash p = Some h \<Longrightarrow> m \<in> set (drop 1 (effect_plan_members p)) \<Longrightarrow> member_inbox_id m \<noteq> i \<Longrightarrow>
    record_at w' (member_inbox_id m) = Some (ref_to p h)"
  using assms repair_loop [of p _ "drop 1 (effect_plan_members p)" w r w' i] by (auto simp: repair_claim_attribute_update_refs_def grows_refl return_io_def split: option.splits)

lemma keeping_grows_repair: "keeping (grows i w0) (repair_claim_attribute_update_refs p) (\<lambda>_. True)"
  by (intro keepingI) (auto dest: repair_grows(1) intro: grows_trans)

lemma keeping_grows_target: "plan_inbox_id p = i \<Longrightarrow> keeping (grows i w0) (write_target t p) (\<lambda>q. plan_inbox_id q = i)"
proof -
  assume p: "plan_inbox_id p = i"
  have wc: "within (same effect_files) (write_claim t)"
    unfolding write_claim_def by (intro same.within_bind within_kn_call same.within_modify) (simp_all add: same_def)
  show ?thesis unfolding write_target_def Let_def
    by (intro keeping_if keeping_return keeping_bind [OF keeping_grows_same [OF wc]]) (auto simp: p intro!: keeping_bind [OF keeping_grows_plan] keeping_return)
qed

lemma keeping_grows_targets: "plan_inbox_id p = i \<Longrightarrow> keeping (grows i w0) (fold_io write_target ts p) (\<lambda>q. plan_inbox_id q = i)"
proof (induction ts arbitrary: p)
  case (Cons t ts)
  show ?case unfolding fold_io.simps by (rule keeping_bind [OF keeping_grows_target [OF Cons.prems] Cons.IH])
qed (simp add: keeping_return)

lemma keeping_grows_discard: "plan_inbox_id p = i \<Longrightarrow> keeping (grows i w0) (discard_stale_inbox_plan p) (\<lambda>q. plan_inbox_id q = i)"
  unfolding discard_stale_inbox_plan_def Let_def
  by (intro keeping_bind [OF keeping_grows_same [OF within_list_local]] keeping_if keeping_return)
     (auto intro!: keeping_bind [OF keeping_grows_plan] keeping_return)

lemma keeping_grows_apply: "plan_inbox_id p = i \<Longrightarrow> keeping (grows i w0) (apply_claim_attribute_update_effect S p) (\<lambda>q. plan_inbox_id (fst q) = i)"
proof -
  assume p: "plan_inbox_id p = i"
  have choose: "keeping (grows i w0) (choose_disputes S p) (\<lambda>q. plan_inbox_id q = i)"
  proof (rule keepingI)
    fix w r w'
    assume a: "grows i w0 w" "choose_disputes S p w = (r, w')"
    have "effect_files w' = effect_files w" using within_sameD [OF within_choose [of effect_files] a(2)] by simp
    then show "grows i w0 w' \<and> (\<forall>x. r = Inr x \<longrightarrow> plan_inbox_id x = i)" using a grows_same choose_disputes_plan p by fastforce
  qed
  have trace: "within (same effect_files) (store_trace t)" for t
    unfolding store_trace_def write_trace_file_def
    by (intro same.within_intros within_read_local within_kn_call same.within_modify) (simp_all add: same_def)
  have finish: "keeping (grows i w0) (finish_effect q) (\<lambda>q. plan_inbox_id (fst q) = i)" if "plan_inbox_id q = i" for q
    unfolding finish_effect_def Let_def
    by (intro keeping_bind [OF keeping_grows_same [OF within_list_local]] keeping_bind [OF keeping_grows_same [OF trace]] keeping_return) (simp_all add: that)
  show ?thesis unfolding apply_claim_attribute_update_effect_def
    by (intro keeping_bind [OF choose] keeping_bind [OF keeping_grows_same [OF within_list_local]] keeping_if keeping_throw
        keeping_bind [OF keeping_grows_targets] finish) simp_all
qed

lemma within_effects_uploads: "within (same effect_files) (at_uploads m)"
  by (intro withinI) (auto simp: at_uploads_def same_def split: prod.splits)

lemma within_effects_record: "within (same effect_files) (record_dispute_if_new now d)"
  unfolding record_dispute_if_new_def record_claim_set_def Let_def
  by (intro same.within_intros within_reported within_ledger within_kn_call same.within_modify) (simp_all add: same_def)


section \<open>A plan that was applied\<close>

definition plan_applied :: "knowledge_home \<Rightarrow> inbox_id \<Rightarrow> bool" where
  "plan_applied w i \<longleftrightarrow> (\<exists>p. record_at w i = Some (PlanRecord p) \<and> plan_inbox_id p = i \<and> effect_state p = Applied)"

lemma ending_write_applied:
  "plan_inbox_id q = i \<Longrightarrow> effect_state q = Applied \<Longrightarrow> ending I (bind_io (write_effect i (PlanRecord q)) (\<lambda>_. return_io q)) (\<lambda>_ w. plan_applied w i)"
  unfolding ending_def bind_io_Inr_iff plan_applied_def by (auto elim: write_effect_cases)

lemma within_effects_ledger:
  "within (same effect_files) (if b then for_io (\<lambda>d. bind_io (record_dispute_if_new now d) (\<lambda>_. return_io ())) ds else return_io ())"
  by (intro same.within_intros within_effects_record)

lemma commit_grows:
  assumes "plan_inbox_id p = i"
  shows "keeping (grows i w) (commit_effect S p cs) (\<lambda>_. True)" and "ending (grows i w) (commit_effect S p cs) (\<lambda>_ w. plan_applied w i)"
proof -
  show "keeping (grows i w) (commit_effect S p cs) (\<lambda>_. True)" unfolding commit_effect_def Let_def
    by (intro keeping_bind [OF keeping_grows_same [OF within_effects_uploads]] keeping_bind [OF keeping_grows_same [OF within_effects_ledger]])
       (auto simp: assms intro!: keeping_bind [OF keeping_grows_plan] keeping_return)
  show "ending (grows i w) (commit_effect S p cs) (\<lambda>_ w. plan_applied w i)" unfolding commit_effect_def Let_def
    by (intro ending_bind [OF keeping_grows_same [OF within_effects_uploads]] ending_bind [OF keeping_grows_same [OF within_effects_ledger]])
       (auto simp: assms intro!: ending_write_applied)
qed

lemma repair_keeps_records: "repair_claim_attribute_update_refs p w = (r, w') \<Longrightarrow> record_at w j = Some x \<Longrightarrow> record_at w' j = Some x"
proof -
  have "Ident (CHR ''x'' # as_str j) \<noteq> j" by (cases j) auto
  then show "repair_claim_attribute_update_refs p w = (r, w') \<Longrightarrow> record_at w j = Some x \<Longrightarrow> record_at w' j = Some x"
    using repair_grows(1) unfolding grows_def by metis
qed

lemma apply_persisted_grows:
  assumes "apply_persisted_claim_attribute_update_plan S p w = (r, w')" "plan_inbox_id p = i"
  shows "grows i w w'" and "record_at w i = Some (PlanRecord p) \<Longrightarrow> r = Inr q \<Longrightarrow> plan_applied w' i"
proof -
  let ?apply = "bind_io (discard_stale_inbox_plan p) (\<lambda>p1. bind_io (apply_claim_attribute_update_effect S p1) (\<lambda>(p2, claims). commit_effect S p2 claims))"
  have "keeping (grows i w) ?apply (\<lambda>_. True)"
    by (intro keeping_bind [OF keeping_grows_discard [OF assms(2)]] keeping_bind [OF keeping_grows_apply]) (auto intro: commit_grows(1))
  then have "keeping (grows i w) (apply_persisted_claim_attribute_update_plan S p) (\<lambda>_. True)"
    unfolding apply_persisted_claim_attribute_update_plan_def
    by (intro keeping_bind [OF keeping_grows_repair] keeping_if keeping_return) simp_all
  from keepingD [OF this assms(1) grows_refl] show "grows i w w'" .
  have ends: "ending (grows i w) ?apply (\<lambda>_ w. plan_applied w i)"
    by (intro ending_bind [OF keeping_grows_discard [OF assms(2)]] ending_bind [OF keeping_grows_apply]) (auto intro: commit_grows(2))
  show "plan_applied w' i" if on_disk: "record_at w i = Some (PlanRecord p)" and ok: "r = Inr q"
  proof -
    obtain w1 where w1: "repair_claim_attribute_update_refs p w = (Inr (), w1)" "(if effect_state p \<noteq> Prepared then return_io p else ?apply) w1 = (Inr q, w')"
      using assms(1) unfolding ok apply_persisted_claim_attribute_update_plan_def bind_io_Inr_iff by auto
    show ?thesis
    proof (cases "effect_state p")
      case Prepared
      then have "?apply w1 = (Inr q, w')" using w1(2) by simp
      then show ?thesis using endingD [OF ends] repair_grows(1) [OF w1(1)] by blast
    next
      case Applied
      then have "w' = w1" using w1(2) by (simp add: return_io_def)
      then show ?thesis using repair_keeps_records [OF w1(1) on_disk] Applied assms(2) by (simp add: plan_applied_def)
    qed
  qed
qed

end
