(* ===== verification/Effect_Completion.thy ===== *)
theory Effect_Completion
  imports Effect_Progress
begin

text \<open>The loop over a batch: when it succeeds, every message of the batch has an applied effect.\<close>

section \<open>Effects of messages\<close>

definition effect_applied :: "knowledge_home \<Rightarrow> inbox_id \<Rightarrow> bool" where
  "effect_applied w i \<longleftrightarrow> (\<exists>r. record_at w i = Some r \<and> plan_applied w (canonical_of r))"

lemma plan_applied_grows: "grows i w w' \<Longrightarrow> plan_applied w j \<Longrightarrow> j \<noteq> i \<Longrightarrow> plan_applied w' j"
  unfolding grows_def plan_applied_def by metis

lemma effect_applied_grows:
  assumes "grows i w w'" "record_at w i = None \<or> plan_applied w' i" "effect_applied w j"
  shows "effect_applied w' j"
proof -
  obtain r where r: "record_at w j = Some r" "plan_applied w (canonical_of r)" using assms(3) by (auto simp: effect_applied_def)
  show ?thesis
  proof (cases "record_at w i = None")
    case True
    then have "j \<noteq> i" "canonical_of r \<noteq> i" using r by (auto simp: plan_applied_def)
    then show ?thesis using r assms(1) plan_applied_grows unfolding effect_applied_def grows_def by blast
  next
    case False
    then have i: "plan_applied w' i" using assms(2) by (elim disjE) (erule (1) notE, assumption)
    show ?thesis
    proof (cases "j = i")
      case True
      then show ?thesis using i by (auto simp: effect_applied_def plan_applied_def canonical_of_def)
    next
      case False
      then have "record_at w' j = Some r" using r(1) assms(1) by (simp add: grows_def)
      moreover have "plan_applied w' (canonical_of r)" using i r(2) plan_applied_grows [OF assms(1)] by (cases "canonical_of r = i") auto
      ultimately show ?thesis by (auto simp: effect_applied_def)
    qed
  qed
qed

lemma effect_applied_same: "effect_files w' = effect_files w \<Longrightarrow> effect_applied w' = effect_applied w \<and> plan_applied w' = plan_applied w \<and> journal_ok w' = journal_ok w"
  by (drule record_at_same) (simp add: effect_applied_def plan_applied_def journal_ok_def fun_eq_iff)

section \<open>The invariant of the loop\<close>

definition entry_ok :: "batch_cache \<Rightarrow> knowledge_home \<Rightarrow> inbox_message \<times> inbox_effect_record option \<Rightarrow> bool" where
  "entry_ok cache w e \<longleftrightarrow> (\<forall>x. snd e = Some x \<longrightarrow> (\<exists>x'. record_at w (message_id (fst e)) = Some x' \<and> canonical_of x' = canonical_of x
     \<and> (cache (canonical_of x) = None \<longrightarrow> x' = x)))"

definition cache_ok :: "batch_cache \<Rightarrow> inbox_id list \<Rightarrow> knowledge_home \<Rightarrow> bool" where
  "cache_ok cache applied w \<longleftrightarrow> set applied \<subseteq> dom cache \<and>
     (\<forall>cid b. cache cid = Some b \<longrightarrow> (if cid \<in> set applied then plan_applied w cid else record_at w cid = Some (PlanRecord (loaded_plan b))))"

definition loop_inv :: "(inbox_message \<times> inbox_effect_record option) list \<Rightarrow> batch_cache \<Rightarrow> inbox_id list \<Rightarrow> knowledge_home \<Rightarrow> bool" where
  "loop_inv xs cache applied w \<longleftrightarrow> journal_ok w \<and> cache_ok cache applied w \<and> (\<forall>e \<in> set xs. entry_ok cache w e)"

lemma loop_inv_same: "effect_files w' = effect_files w \<Longrightarrow> loop_inv xs cache applied w' = loop_inv xs cache applied w"
proof -
  assume same: "effect_files w' = effect_files w"
  show ?thesis using record_at_same [OF same] effect_applied_same [OF same] by (simp add: loop_inv_def cache_ok_def entry_ok_def)
qed

text \<open>A new plan under an id without a record leaves the invariant alone.\<close>

lemma loop_inv_new:
  assumes "loop_inv xs cache applied w" "grows i w w'" "record_at w i = None"
  shows "loop_inv xs cache applied w'"
proof -
  have keep: "record_at w j = Some r \<Longrightarrow> record_at w' j = Some r" for j r using assms(2,3) unfolding grows_def by (metis option.distinct(1))
  have plan: "plan_applied w j \<Longrightarrow> plan_applied w' j" for j using keep unfolding plan_applied_def by blast
  have "cache_ok cache applied w'" using assms(1) keep plan unfolding loop_inv_def cache_ok_def by metis
  moreover have "entry_ok cache w' e" if "e \<in> set xs" for e using assms(1) that keep unfolding loop_inv_def entry_ok_def by metis
  ultimately show ?thesis using assms grows_journal_ok unfolding loop_inv_def by blast
qed

text \<open>Applying a cached plan settles its id.\<close>

lemma loop_inv_applied:
  assumes "loop_inv xs cache applied w" "grows i w w'" "cache i = Some b" "i \<notin> set applied" "plan_applied w' i"
  shows "loop_inv xs (cache(i \<mapsto> b')) (i # applied) w'"
proof -
  have keep: "record_at w j = Some r \<Longrightarrow> j \<noteq> i \<Longrightarrow> record_at w' j = Some r" for j r using assms(2) unfolding grows_def by metis
  have c: "cache_ok cache applied w" using assms(1) by (simp add: loop_inv_def)
  have on_disk: "record_at w i = Some (PlanRecord (loaded_plan b))" using c assms(3,4) unfolding cache_ok_def by metis
  have own: "plan_inbox_id (loaded_plan b) = i" using assms(1) on_disk by (simp add: loop_inv_def journal_ok_def)
  have "cache_ok (cache(i \<mapsto> b')) (i # applied) w'"
    using c assms(5) keep plan_applied_grows [OF assms(2)] unfolding cache_ok_def by auto
  moreover have "entry_ok (cache(i \<mapsto> b')) w' e" if e: "e \<in> set xs" for e
    unfolding entry_ok_def
  proof (intro allI impI)
    fix x
    assume x: "snd e = Some x"
    then obtain x' where x': "record_at w (message_id (fst e)) = Some x'" "canonical_of x' = canonical_of x" "cache (canonical_of x) = None \<longrightarrow> x' = x"
      using assms(1) e unfolding loop_inv_def entry_ok_def by blast
    show "\<exists>x'. record_at w' (message_id (fst e)) = Some x' \<and> canonical_of x' = canonical_of x \<and> ((cache(i \<mapsto> b')) (canonical_of x) = None \<longrightarrow> x' = x)"
    proof (cases "message_id (fst e) = i")
      case True
      then have "x' = PlanRecord (loaded_plan b)" using x'(1) on_disk by simp
      then have "canonical_of x = i" using x'(2) own unfolding canonical_of_def by simp
      then show ?thesis using True assms(5) by (auto simp: plan_applied_def canonical_of_def)
    next
      case False
      then show ?thesis using keep [OF x'(1)] x'(2,3) by auto
    qed
  qed
  ultimately show ?thesis using assms(1,2) grows_journal_ok unfolding loop_inv_def by blast
qed

section \<open>Steps of the loop\<close>

lemma recheck_Inr:
  assumes "recheck m v w = (Inr v', w1)" "entry_ok cache w (m, v)"
  shows "effect_files w1 = effect_files w" and "entry_ok cache w (m, v')" and "v' = None \<Longrightarrow> record_at w (message_id m) = None"
proof (atomize (full), cases v)
  case None
  then have run: "read_inbox_effect_record (message_id m) w = (Inr v', w1)" using assms(1) by (simp add: recheck_def)
  have "effect_files w1 = effect_files w" using within_sameD [OF within_read_record [OF unaffected_fields(3)] run] .
  then show "effect_files w1 = effect_files w \<and> entry_ok cache w (m, v') \<and> (v' = None \<longrightarrow> record_at w (message_id m) = None)"
    using read_record_Inr [OF run] by (auto simp: entry_ok_def)
next
  case (Some x)
  then show "effect_files w1 = effect_files w \<and> entry_ok cache w (m, v') \<and> (v' = None \<longrightarrow> record_at w (message_id m) = None)"
    using assms by (auto simp: recheck_def)
qed

lemma count_unplanned_Inr:
  "count_unplanned xs w = (Inr (k, v), w1) \<Longrightarrow> (\<forall>e \<in> set xs. entry_ok cache w e) \<Longrightarrow>
   effect_files w1 = effect_files w \<and> (\<forall>e \<in> set (set_record v (drop k xs)). entry_ok cache w e)"
proof (induction xs arbitrary: w k)
  case (Cons e xs)
  obtain m r where e: "e = (m, r)" by fastforce
  obtain r' w2 where r': "recheck m r w = (Inr r', w2)"
      "(case r' of Some x \<Rightarrow> return_io (0, Some x) | None \<Rightarrow> bind_io (count_unplanned xs) (\<lambda>(k, v). return_io (Suc k, v))) w2 = (Inr (k, v), w1)"
    using Cons.prems(1) by (auto simp: e bind_io_Inr_iff)
  note step = recheck_Inr [OF r'(1), of cache]
  have ok: "entry_ok cache w (m, r)" using Cons.prems(2) e by simp
  show ?case
  proof (cases r')
    case (Some x)
    then show ?thesis using r'(2) step ok Cons.prems(2) e by auto
  next
    case None
    then obtain k' where k: "count_unplanned xs w2 = (Inr (k', v), w1)" "k = Suc k'" using r'(2) by (auto simp: bind_io_Inr_iff)
    have same: "effect_files w2 = effect_files w" using step(1) ok by blast
    then have "entry_ok cache w2 = entry_ok cache w" using record_at_same [OF same] by (simp add: entry_ok_def fun_eq_iff)
    then show ?thesis using Cons.IH [OF k(1)] Cons.prems(2) same k(2) e by simp
  qed
qed simp


lemma within_effects_load: "within (same effect_files) (load_claim_attribute_update_effect_batch S m x cache)"
  unfolding load_claim_attribute_update_effect_batch_def plan_of_record_def lift_sum_def Let_def
  by (intro same.within_intros within_read_record) (auto intro!: same.within_intros within_read_record split: inbox_effect_record.split option.split sum.split)

lemma lift_sum_Inr_iff: "lift_sum r w = (Inr x, w') \<longleftrightarrow> r = Inr x \<and> w' = w"
  by (cases r) (auto simp: lift_sum_def)

lemma plan_of_record_Inr:
  assumes "plan_of_record m x w = (Inr p, w1)" "record_at w (message_id m) = Some x" "journal_ok w"
  shows "record_at w (canonical_of x) = Some (PlanRecord p)"
proof (cases x)
  case (PlanRecord q)
  then show ?thesis using assms by (auto simp: plan_of_record_def canonical_of_def journal_ok_def)
next
  case (RefRecord y)
  then obtain v w2 where v: "read_inbox_effect_record (canonical_inbox_id y) w = (Inr v, w2)"
      "(case v of Some (PlanRecord p) \<Rightarrow> return_io p | _ \<Rightarrow> throw_io (RefWithoutPlan (message_id m))) w2 = (Inr p, w1)"
    using assms(1) by (auto simp: plan_of_record_def bind_io_Inr_iff)
  have "v = Some (PlanRecord p)"
  proof (cases v)
    case (Some r)
    then show ?thesis using v(2) by (cases r) auto
  qed (use v(2) in simp)
  then show ?thesis using read_record_Inr [OF v(1)] RefRecord by (simp add: canonical_of_def)
qed

lemma load_Inr:
  assumes "load_claim_attribute_update_effect_batch S m x cache w = (Inr (cid, cache'), w1)" "journal_ok w" "entry_ok cache w (m, Some x)"
  shows "cid = canonical_of x" and "\<exists>b. cache' cid = Some b \<and> (cache' = cache \<or>
    cache cid = None \<and> cache' = cache(cid \<mapsto> b) \<and> record_at w cid = Some (PlanRecord (loaded_plan b)))"
proof -
  let ?cid = "canonical_of x"
  obtain w2 where w2: "(case cache ?cid of Some _ \<Rightarrow> return_io cache | None \<Rightarrow> bind_io (plan_of_record m x) (\<lambda>p. bind_io (lift_sum (validate_effect_plan_integrity S p)) (\<lambda>_.
           return_io (cache(?cid \<mapsto> \<lparr>loaded_plan = p, loaded_members = members_by_id p\<rparr>))))) w = (Inr cache', w2)" "cid = ?cid" "cache' ?cid \<noteq> None"
    using assms(1) unfolding load_claim_attribute_update_effect_batch_def Let_def by (auto simp: bind_io_Inr_iff split: option.splits)
  show "cid = canonical_of x" using w2(2) .
  obtain x' where x': "record_at w (message_id m) = Some x'" "cache ?cid = None \<longrightarrow> x' = x" using assms(3) by (auto simp: entry_ok_def)
  show "\<exists>b. cache' cid = Some b \<and> (cache' = cache \<or> cache cid = None \<and> cache' = cache(cid \<mapsto> b) \<and> record_at w cid = Some (PlanRecord (loaded_plan b)))"
  proof (cases "cache ?cid")
    case (Some b)
    then show ?thesis using w2 by auto
  next
    case None
    then obtain p w3 where p: "plan_of_record m x w = (Inr p, w3)" "cache' = cache(?cid \<mapsto> \<lparr>loaded_plan = p, loaded_members = members_by_id p\<rparr>)"
      using w2(1) by (auto simp: bind_io_Inr_iff)
    have "record_at w ?cid = Some (PlanRecord p)" using plan_of_record_Inr [OF p(1)] x' None assms(2) by simp
    then show ?thesis using None p(2) w2(2) by auto
  qed
qed

lemma effect_members_ids: "effect_members_from_messages S seen ms = Inr out \<Longrightarrow> map member_inbox_id out = map message_id ms"
  by (induction ms arbitrary: seen out) (auto simp: and_then_Inr_iff split: if_splits)

lemma make_plan_Inr:
  assumes "make_plan S ms members local ans = Inr p" "map member_inbox_id members = map message_id ms" "ms = m # seg"
  shows "plan_inbox_id p = message_id m \<and> effect_state p = Prepared \<and> map member_inbox_id (effect_plan_members p) = map message_id ms
    \<and> (seg \<noteq> [] \<longrightarrow> batch_hash p \<noteq> None)"
proof -
  obtain y ys where members: "members = y # ys" "member_inbox_id y = message_id m" "length ys = length seg"
    using assms(2,3) by (cases members) (auto dest: map_eq_imp_length_eq)
  have p: "plan_inbox_id p = member_inbox_id (hd members)" "effect_state p = Prepared" "batch_members p = (if length members = 1 then [] else members)"
    "batch_hash p = (if length members = 1 then None else Some (hash_members S members))"
    using assms(1) by (auto simp: make_plan_def and_then_Inr_iff Let_def split: sum.splits prod.splits)
  show ?thesis using p members assms(2,3) by (auto simp: effect_plan_members_def)
qed

lemma prepare_Inr:
  assumes "prepare_claim_attribute_update_effect S (m # seg) w = (Inr p, w1)"
  shows "effect_files w1 = effect_files w" and "plan_inbox_id p = message_id m" and "map member_inbox_id (effect_plan_members p) = message_id m # map message_id seg"
    and "seg \<noteq> [] \<longrightarrow> batch_hash p \<noteq> None"
proof -
  have lift: "within (same f) (lift_sum r)" for f :: "knowledge_home \<Rightarrow> 'b" and r :: "knowledge_error + 'c"
    unfolding lift_sum_def by (intro same.within_intros)
  have "within (same effect_files) (prepare_claim_attribute_update_effect S (m # seg))"
    unfolding prepare_claim_attribute_update_effect_def Let_def by (intro same.within_intros lift within_list_local) simp
  from within_sameD [OF this assms] show "effect_files w1 = effect_files w" .
  obtain members all own w2 where run: "effect_members_from_messages S [] (m # seg) = Inr members"
      "(let local = sort_by (cmp_key claim_id) own in if \<not> list_all is_attribute_update (m # seg) then throw_io NotAnAttributeUpdate
        else case generator S (m # seg) local of None \<Rightarrow> throw_io ModelUnavailable | Some ans \<Rightarrow> lift_sum (make_plan S (m # seg) members local ans)) w2 = (Inr p, w1)"
    using assms unfolding prepare_claim_attribute_update_effect_def bind_io_Inr_iff lift_sum_Inr_iff
    by (auto simp: bind_io_Inr_iff split: if_splits simp del: effect_members_from_messages.simps)
  then obtain local ans where a: "effect_members_from_messages S [] (m # seg) = Inr members" "make_plan S (m # seg) members local ans = Inr p"
    by (auto simp: lift_sum_Inr_iff Let_def split: if_splits option.splits simp del: effect_members_from_messages.simps)
  from make_plan_Inr [OF a(2) effect_members_ids [OF a(1)] refl]
  show "plan_inbox_id p = message_id m" "map member_inbox_id (effect_plan_members p) = message_id m # map message_id seg" "seg \<noteq> [] \<longrightarrow> batch_hash p \<noteq> None"
    by simp_all
qed

lemma persist_Inr:
  assumes "persist_prepared_claim_attribute_update_plan p w = (Inr u, w1)" "plan_inbox_id p = i"
  shows "grows i w w1" and "record_at w1 i = Some (PlanRecord p)"
    and "batch_hash p = Some h \<Longrightarrow> e \<in> set (drop 1 (effect_plan_members p)) \<Longrightarrow> member_inbox_id e \<noteq> i \<Longrightarrow> record_at w1 (member_inbox_id e) = Some (ref_to p h)"
proof -
  obtain w0 where w0: "write_effect i (PlanRecord p) w = (Inr (), w0)" "repair_claim_attribute_update_refs p w0 = (Inr (), w1)"
    using assms by (auto simp: persist_prepared_claim_attribute_update_plan_def bind_io_Inr_iff)
  have rec: "\<And>j. record_at w0 j = (if j = i then Some (PlanRecord p) else record_at w j)" using w0(1) by (cases rule: write_effect_cases) auto
  have "grows i w w0" using rec assms(2) by (auto simp: grows_def)
  then show "grows i w w1" using repair_grows(1) [OF w0(2)] grows_trans by blast
  show "record_at w1 i = Some (PlanRecord p)" using repair_keeps_records [OF w0(2)] rec by simp
  show "batch_hash p = Some h \<Longrightarrow> e \<in> set (drop 1 (effect_plan_members p)) \<Longrightarrow> member_inbox_id e \<noteq> i \<Longrightarrow> record_at w1 (member_inbox_id e) = Some (ref_to p h)"
    using repair_grows(2) [OF w0(2)] by blast
qed


section \<open>The loop\<close>

lemma once_Inr:
  assumes "apply_once S cid (cache, applied, sm) w = (Inr (cache', applied', sm'), w')" "loop_inv xs cache applied w" "cache cid = Some b"
  shows "loop_inv xs cache' applied' w'" and "plan_applied w' cid" and "\<And>j. effect_applied w j \<Longrightarrow> effect_applied w' j"
    and "\<And>j x. record_at w j = Some x \<Longrightarrow> canonical_of x = cid \<Longrightarrow> effect_applied w' j"
proof -
  have "loop_inv xs cache' applied' w' \<and> plan_applied w' cid \<and> (\<forall>j. effect_applied w j \<longrightarrow> effect_applied w' j)
      \<and> (\<forall>j x. record_at w j = Some x \<longrightarrow> canonical_of x = cid \<longrightarrow> effect_applied w' j)"
  proof (cases "cid \<in> set applied")
    case True
    then have same: "cache' = cache" "applied' = applied" "w' = w" using assms(1) by (auto simp: apply_once_def)
    have "plan_applied w cid" using assms(2,3) True unfolding loop_inv_def cache_ok_def by auto
    then show ?thesis
      using assms(2) by (auto simp: same effect_applied_def)
  next
    case False
    obtain p where p: "apply_persisted_claim_attribute_update_plan S (loaded_plan b) w = (Inr p, w')" "cache' = cache(cid \<mapsto> b\<lparr>loaded_plan := p\<rparr>)" "applied' = cid # applied"
      using assms(1,3) False by (auto simp: apply_once_def bind_io_Inr_iff)
    have on_disk: "record_at w cid = Some (PlanRecord (loaded_plan b))" using assms(2,3) False unfolding loop_inv_def cache_ok_def by auto
    have own: "plan_inbox_id (loaded_plan b) = cid" using on_disk assms(2) by (simp add: loop_inv_def journal_ok_def)
    note g = apply_persisted_grows(1) [OF p(1) own]
    have fin: "plan_applied w' cid" using apply_persisted_grows(2) [OF p(1) own on_disk] by blast
    have "effect_applied w' j" if "record_at w j = Some x" "canonical_of x = cid" for j x
    proof (cases "j = cid")
      case True
      then show ?thesis using fin by (auto simp: effect_applied_def plan_applied_def canonical_of_def)
    next
      case False
      then show ?thesis using that fin g unfolding effect_applied_def grows_def by metis
    qed
    then show ?thesis
      using loop_inv_applied [OF assms(2) g assms(3) False fin] effect_applied_grows [OF g] fin p(2,3) by blast
  qed
  then show "loop_inv xs cache' applied' w'" "plan_applied w' cid" "\<And>j. effect_applied w j \<Longrightarrow> effect_applied w' j"
    "\<And>j x. record_at w j = Some x \<Longrightarrow> canonical_of x = cid \<Longrightarrow> effect_applied w' j" by blast+
qed

lemma load_step:
  assumes "load_claim_attribute_update_effect_batch S m x cache w = (Inr (cid, cache'), w1)" "loop_inv ((m, Some x) # xs) cache applied w"
  shows "loop_inv xs cache' applied w1" and "\<exists>b. cache' cid = Some b" and "cid = canonical_of x"
    and "\<exists>x'. record_at w1 (message_id m) = Some x' \<and> canonical_of x' = cid" and "effect_applied w1 = effect_applied w"
proof -
  have inv: "journal_ok w" "cache_ok cache applied w" "entry_ok cache w (m, Some x)" "\<forall>e \<in> set xs. entry_ok cache w e"
    using assms(2) by (simp_all add: loop_inv_def)
  have same: "effect_files w1 = effect_files w" using within_sameD [OF within_effects_load assms(1)] .
  note l = load_Inr [OF assms(1) inv(1,3)]
  show "cid = canonical_of x" by (rule l(1))
  show "\<exists>b. cache' cid = Some b" using l(2) by blast
  show "effect_applied w1 = effect_applied w" using effect_applied_same [OF same] by blast
  show "\<exists>x'. record_at w1 (message_id m) = Some x' \<and> canonical_of x' = cid"
    using inv(3) l(1) unfolding entry_ok_def record_at_same [OF same] by auto
  obtain b where b: "cache' cid = Some b" "cache' = cache \<or> cache cid = None \<and> cache' = cache(cid \<mapsto> b) \<and> record_at w cid = Some (PlanRecord (loaded_plan b))"
    using l(2) by blast
  from b(2) have "loop_inv xs cache' applied w"
  proof
    assume "cache' = cache"
    then show ?thesis using inv by (simp add: loop_inv_def)
  next
    assume new: "cache cid = None \<and> cache' = cache(cid \<mapsto> b) \<and> record_at w cid = Some (PlanRecord (loaded_plan b))"
    then have "cid \<notin> set applied" using inv(2) by (auto simp: cache_ok_def)
    then have "cache_ok cache' applied w" using inv(2) new by (auto simp: cache_ok_def)
    moreover have "entry_ok cache' w e" if "e \<in> set xs" for e using inv(4) that new unfolding entry_ok_def by (metis fun_upd_apply option.distinct(1))
    ultimately show ?thesis using inv(1) by (simp add: loop_inv_def)
  qed
  then show "loop_inv xs cache' applied w1" using loop_inv_same [OF same] by blast
qed

text \<open>A new plan for a segment of messages without records.\<close>

lemma plan_step:
  assumes "prepare_claim_attribute_update_effect S (m # seg) w = (Inr p, w1)" "persist_prepared_claim_attribute_update_plan p w1 = (Inr u, w2)"
    "apply_persisted_claim_attribute_update_plan S p w2 = (Inr q, w3)" "record_at w (message_id m) = None" "loop_inv xs cache applied w"
  shows "loop_inv xs cache applied w3" and "\<And>j. effect_applied w j \<Longrightarrow> effect_applied w3 j" and "\<And>m'. m' \<in> set (m # seg) \<Longrightarrow> effect_applied w3 (message_id m')"
proof -
  let ?i = "message_id m"
  note pr = prepare_Inr [OF assms(1)]
  note pe = persist_Inr [OF assms(2) pr(2)]
  note ap = apply_persisted_grows [OF assms(3) pr(2)]
  have rec: "record_at w1 = record_at w" using record_at_same [OF pr(1)] .
  have g: "grows ?i w w3" using grows_trans [OF pe(1) ap(1)] rec by (simp add: grows_def)
  have fin: "plan_applied w3 ?i" using ap(2) [OF pe(2)] by blast
  show "loop_inv xs cache applied w3" using loop_inv_new [OF assms(5) g assms(4)] .
  show "effect_applied w j \<Longrightarrow> effect_applied w3 j" for j using effect_applied_grows [OF g] assms(4) by blast
  have own: "effect_applied w3 ?i" using fin by (auto simp: effect_applied_def plan_applied_def canonical_of_def)
  show "effect_applied w3 (message_id m')" if m': "m' \<in> set (m # seg)" for m'
  proof (cases "message_id m' = ?i")
    case False
    then have "m' \<in> set seg" using m' by auto
    then obtain h where h: "batch_hash p = Some h" using pr(4) by auto
    have "map member_inbox_id (drop 1 (effect_plan_members p)) = map message_id seg" using pr(3) by (metis drop_map drop0 drop_Suc_Cons One_nat_def)
    then obtain e where e: "e \<in> set (drop 1 (effect_plan_members p))" "member_inbox_id e = message_id m'"
      using \<open>m' \<in> set seg\<close> by (metis (no_types, lifting) image_iff list.set_map)
    have "record_at w2 (message_id m') = Some (ref_to p h)" using pe(3) [OF h e(1)] e(2) False by simp
    then have "record_at w3 (message_id m') = Some (ref_to p h)" using ap(1) False by (simp add: grows_def)
    then show ?thesis using fin pr(2) by (auto simp: effect_applied_def canonical_of_def ref_to_def)
  qed (simp add: own)
qed

lemma loop_applies:
  assumes "internalize_loop S xs (cache, applied, sm) w = (Inr s, w')" "loop_inv xs cache applied w"
  shows "(\<forall>e \<in> set xs. effect_applied w' (message_id (fst e))) \<and> (\<forall>j. effect_applied w j \<longrightarrow> effect_applied w' j)"
  using assms
proof (induction "length xs" arbitrary: xs cache applied sm w rule: less_induct)
  case less
  show ?case
  proof (cases xs)
    case Nil
    then show ?thesis using less.prems by (auto simp: internalize_loop.simps)
  next
    case (Cons e ys)
    obtain m r0 where e: "e = (m, r0)" by fastforce
    obtain r w1 where r: "recheck m r0 w = (Inr r, w1)" using less.prems(1) unfolding Cons e internalize_loop.simps bind_io_Inr_iff by blast
    have entry: "entry_ok cache w (m, r0)" using less.prems(2) Cons e by (simp add: loop_inv_def)
    note rc = recheck_Inr [OF r entry]
    have inv1: "loop_inv ((m, r) # ys) cache applied w1"
      using less.prems(2) rc(2) unfolding loop_inv_same [OF rc(1)] Cons e by (simp add: loop_inv_def)
    have eff1: "effect_applied w1 = effect_applied w" using effect_applied_same [OF rc(1)] by blast
    show ?thesis
    proof (cases r)
      case (Some x)
      obtain cid cache1 w2 cache2 applied2 sm2 w3 where run: "load_claim_attribute_update_effect_batch S m x cache w1 = (Inr (cid, cache1), w2)"
          "apply_once S cid (cache1, applied, sm) w2 = (Inr (cache2, applied2, sm2), w3)" "internalize_loop S ys (cache2, applied2, sm2) w3 = (Inr s, w')"
        using less.prems(1) r unfolding Cons e internalize_loop.simps by (auto simp: bind_io_Inr_iff Some)
      note l = load_step [OF run(1) inv1 [unfolded Some]]
      obtain b where b: "cache1 cid = Some b" using l(2) by blast
      note o = once_Inr [OF run(2) l(1) b]
      have "effect_applied w3 (message_id m)" using o(4) l(4) by blast
      then show ?thesis using less.hyps [OF _ run(3) o(1)] o(3) l(5) eff1 Cons e by simp
    next
      case None
      obtain k v w2 p w3 u w4 q w5 where run: "count_unplanned ys w1 = (Inr (k, v), w2)"
          "prepare_claim_attribute_update_effect S (m # map fst (take k ys)) w2 = (Inr p, w3)"
          "persist_prepared_claim_attribute_update_plan p w3 = (Inr u, w4)" "apply_persisted_claim_attribute_update_plan S p w4 = (Inr q, w5)"
          "internalize_loop S (set_record v (drop k ys)) (cache, applied, extend_summary sm (effect_summary q)) w5 = (Inr s, w')"
        using less.prems(1) r unfolding Cons e internalize_loop.simps by (auto simp: bind_io_Inr_iff None)
      have cnt: "effect_files w2 = effect_files w1" "\<forall>e \<in> set (set_record v (drop k ys)). entry_ok cache w1 e"
        using count_unplanned_Inr [OF run(1), of cache] inv1 by (auto simp: loop_inv_def)
      have inv2: "loop_inv (set_record v (drop k ys)) cache applied w2"
        unfolding loop_inv_same [OF cnt(1)] using cnt(2) inv1 by (simp add: loop_inv_def)
      have "record_at w2 (message_id m) = None" using rc(3) None record_at_same [OF cnt(1)] record_at_same [OF rc(1)] by simp
      note pl = plan_step [OF run(2-4) this inv2]
      have eff2: "effect_applied w2 = effect_applied w" using effect_applied_same [OF cnt(1)] eff1 by simp
      have rest: "(\<forall>e \<in> set (set_record v (drop k ys)). effect_applied w' (message_id (fst e))) \<and> (\<forall>j. effect_applied w5 j \<longrightarrow> effect_applied w' j)"
        using less.hyps [OF _ run(5) pl(1)] Cons by simp
      have fsts: "map fst (set_record v zs) = map fst zs" for zs by (cases "(v, zs)" rule: set_record.cases) auto
      have "effect_applied w' (message_id (fst d))" if d: "d \<in> set xs" for d
      proof (cases "fst d \<in> set (m # map fst (take k ys))")
        case True
        then show ?thesis using pl(3) rest by blast
      next
        case False
        then have "fst d \<in> fst ` set (drop k ys)" using d Cons e by (metis append_take_drop_id fst_conv image_eqI list.set_map set_ConsD set_append Un_iff list.set_intros)
        then have "fst d \<in> fst ` set (set_record v (drop k ys))" using fsts by (metis list.set_map)
        then show ?thesis using rest by auto
      qed
      then show ?thesis using rest pl(2) eff2 by auto
    qed
  qed
qed


section \<open>A run over a batch\<close>

lemma load_records_from:
  assumes "fold_io (\<lambda>(m, r) cache. case r of None \<Rightarrow> return_io cache
      | Some x \<Rightarrow> bind_io (load_claim_attribute_update_effect_batch S m x cache) (\<lambda>(_, cache'). return_io cache')) xs cache w = (Inr cache', w')"
    and "journal_ok w" "cache_ok cache [] w" "\<forall>e \<in> set xs. snd e = record_at w (message_id (fst e))"
  shows "effect_files w' = effect_files w \<and> cache_ok cache' [] w'"
  using assms
proof (induction xs arbitrary: cache w)
  case Nil
  then show ?case by simp
next
  case (Cons e xs)
  obtain m r where e: "e = (m, r)" by fastforce
  show ?case
  proof (cases r)
    case None
    then show ?thesis using Cons e by simp
  next
    case (Some x)
    obtain cid cache1 w1 where run: "load_claim_attribute_update_effect_batch S m x cache w = (Inr (cid, cache1), w1)"
        "fold_io (\<lambda>(m, r) cache. case r of None \<Rightarrow> return_io cache
          | Some x \<Rightarrow> bind_io (load_claim_attribute_update_effect_batch S m x cache) (\<lambda>(_, cache'). return_io cache')) xs cache1 w1 = (Inr cache', w')"
      using Cons.prems(1) by (auto simp: e Some bind_io_Inr_iff)
    have "record_at w (message_id m) = Some x" using Cons.prems(4) e Some by auto
    then have inv: "loop_inv [(m, Some x)] cache [] w" using Cons.prems(2,3) by (simp add: loop_inv_def entry_ok_def)
    have same: "effect_files w1 = effect_files w" using within_sameD [OF within_effects_load run(1)] .
    have "journal_ok w1" "cache_ok cache1 [] w1" using load_step(1) [OF run(1) inv] by (simp_all add: loop_inv_def)
    moreover have "\<forall>e \<in> set xs. snd e = record_at w1 (message_id (fst e))" using Cons.prems(4) record_at_same [OF same] by simp
    ultimately show ?thesis using Cons.IH [OF run(2)] same by simp
  qed
qed

text \<open>
  Property C32.  A run over a batch of attribute updates that succeeds leaves the effect of every message of the batch
  applied: its record is a plan marked as applied, or refers to one, whether the plan was made in this run, was left
  half applied by an earlier one, or is shared with other messages.
\<close>

theorem internalised_messages_are_applied:
  assumes "internalize_locally S ms w = (Inr s, w')" and "journal_ok w" and "m \<in> set ms"
  shows "effect_applied w' (message_id m)"
proof -
  obtain u1 w1 u2 w2 u3 w3 u4 w4 xs w5 cache w6 where run: "check_messages ms w = (Inr u1, w1)" "lock_effects ms w1 = (Inr u2, w2)" "kn_call w2 = (Inr u3, w3)"
      "ensure_knowledge_ready w3 = (Inr u4, w4)" "read_records ms w4 = (Inr xs, w5)" "load_records S xs w5 = (Inr cache, w6)"
      "internalize_loop S xs (cache, [], no_summary) w6 = (Inr s, w')"
    using assms(1) unfolding internalize_locally_def bind_io_Inr_iff by blast
  have reading: "within (same effect_files) (read_records ms)" unfolding read_records_def by (intro same.within_intros within_read_record) simp
  have same: "effect_files w4 = effect_files w" "effect_files w5 = effect_files w4"
    using within_sameD [OF within_check run(1), of effect_files] within_sameD [OF within_lock [OF unaffected_fields(3)] run(2)]
      within_sameD [OF within_kn_call [OF unaffected_fields(3)] run(3)] within_sameD [OF within_ready [OF unaffected_fields(3)] run(4)]
      within_sameD [OF reading run(5)] by auto
  have xs: "xs = map (\<lambda>m. (m, record_at w4 (message_id m))) ms" using read_records_Inr [OF run(5)] by blast
  have ok: "journal_ok w5" using assms(2) effect_applied_same [of w5 w] same by simp
  have "\<forall>e \<in> set xs. snd e = record_at w5 (message_id (fst e))" using xs record_at_same [OF same(2)] by simp
  then have load: "effect_files w6 = effect_files w5" "cache_ok cache [] w6"
    using load_records_from [OF run(6) [unfolded load_records_def] ok] by (simp_all add: cache_ok_def)
  have "entry_ok cache w6 e" if "e \<in> set xs" for e
    using that xs record_at_same [OF same(2)] record_at_same [OF load(1)] by (auto simp: entry_ok_def)
  then have "loop_inv xs cache [] w6" using load(2) ok effect_applied_same [OF load(1)] by (simp add: loop_inv_def)
  then show ?thesis using loop_applies [OF run(7)] xs assms(3) by auto
qed

end
