(* ===== verification/Answer_Demo.thy ===== *)
theory Answer_Demo
  imports Preparation_Properties Demo
begin

text \<open>
  An answer of the model, resolved and prepared: it adds one claim, which its own text mentions, and updates another
  one of the agent \<open>ann\<close> after a resolution.
\<close>

section \<open>Placeholders\<close>

definition demo_answer :: json where
  "demo_answer = JObject [(''new_claims'', JArray [JObject [(''id'', JString ''$new_claim_0$''), (''name'', JString ''n''), (''scope'', JString ''s''),
     (''statement'', JString ''see $new_claim_0$'')]])]"

definition demo_resolved :: json where
  "demo_resolved = JObject [(''new_claims'', JArray [JObject [(''id'', JString ''claim_00000000''), (''name'', JString ''n''), (''scope'', JString ''s''),
     (''statement'', JString ''see claim_00000000'')]])]"

lemma demo_parse: "parse_placeholder new_claim_mark ''$new_claim_0$'' = Some 0"
  by (simp add: parse_placeholder_def strip_prefix_def strip_suffix_def str_starts_with_def str_ends_with_def new_claim_mark_def digits_value_def
      is_ascii_digit_def less_eq_char_def)

lemma demo_id: "claim_id_from_parts (\<lambda>_. 0) 0 ''n'' ''s'' (random_hex4 0) = Ident ''claim_00000000''"
  by (simp add: claim_id_from_parts_def derive_id_string_def claim_prefix_def) code_simp

lemma demo_substituted: "substitute_text [(''$new_claim_0$'', ''claim_00000000'')] ''$new_claim_0$'' = ''claim_00000000''"
  "substitute_text [(''$new_claim_0$'', ''claim_00000000'')] ''see $new_claim_0$'' = ''see claim_00000000''"
  "substitute_text [(''$new_claim_0$'', ''claim_00000000'')] ''n'' = ''n''" "substitute_text [(''$new_claim_0$'', ''claim_00000000'')] ''s'' = ''s''"
  by code_simp+

lemma demo_clean: "walk_unresolved [] demo_resolved = None"
  by code_simp

lemma demo_resolves: "resolve_placeholders (\<lambda>_. 0) (\<lambda>_. 0) (\<lambda>_. 0) demo_answer 0 = Inr demo_resolved"
proof -
  have "extract_claim_substitutions (\<lambda>nm sc k. claim_id_from_parts (\<lambda>_. 0) 0 nm sc (random_hex4 0)) demo_answer = Inr [(''$new_claim_0$'', ''claim_00000000'')]"
    by (simp add: extract_claim_substitutions_def demo_answer_def array_field_def text_field_def require_def and_then_def demo_parse demo_id)
  moreover have "apply_substitutions [(''$new_claim_0$'', ''claim_00000000'')] demo_answer = demo_resolved"
    by (simp add: apply_substitutions_def demo_answer_def demo_resolved_def demo_substituted)
  moreover have "extract_dispute_substitutions derive demo_resolved = Inr []" for derive
    by (simp add: extract_dispute_substitutions_def demo_resolved_def array_field_def)
  ultimately show ?thesis by (simp add: resolve_placeholders_def and_then_def apply_substitutions_def verify_no_unresolved_def demo_clean)
qed

lemma demo_claims_array: "array_field ''new_claims'' demo_answer = Some [JObject [(''id'', JString ''$new_claim_0$''), (''name'', JString ''n''), (''scope'', JString ''s''),
     (''statement'', JString ''see $new_claim_0$'')]]"
  by (simp add: demo_answer_def array_field_def)

lemma demo_placeholder: "placeholder ''$new_claim_0$''"
  unfolding placeholder_def by (rule exI [of _ new_claim_mark], rule exI [of _ "''0''"]) (simp add: new_claim_mark_def is_ascii_digit_def less_eq_char_def)

lemma demo_texts: "''see claim_00000000'' \<in> texts demo_resolved"
  by (simp add: demo_resolved_def)

theorem no_placeholder_witness: "''see claim_00000000'' \<in> texts demo_resolved \<and> \<not> str_contains ''see claim_00000000'' ''$new_claim_0$''"
  using resolved_answer_has_no_placeholder [OF demo_resolves demo_texts demo_placeholder] demo_texts by simp

theorem derived_ids_witness:
  "\<exists>(g :: string \<Rightarrow> string) h. demo_resolved = map_texts (\<lambda>s. h (g s)) demo_answer
    \<and> h (g ''see $new_claim_0$'') = ''see '' @ as_str (claim_id_from_parts (\<lambda>_. 0) 0 ''n'' ''s'' (random_hex4 0))"
proof -
  obtain g h where r: "demo_resolved = map_texts (\<lambda>s. h (g s)) demo_answer"
      "\<forall>i < length (declared ''new_claims'' demo_answer). \<exists>p nm sc.
         text_field ''id'' (declared ''new_claims'' demo_answer ! i) = Some p \<and> placeholder p
         \<and> text_field ''name'' (declared ''new_claims'' demo_answer ! i) = Some nm \<and> text_field ''scope'' (declared ''new_claims'' demo_answer ! i) = Some sc
         \<and> g p = as_str (claim_id_from_parts (\<lambda>_. 0) 0 nm sc (random_hex4 0)) \<and> h (g p) = g p"
      "\<forall>t ps. CHR ''$'' \<notin> set t \<and> list_all (\<lambda>(p, u). placeholder p \<and> plain_text u) ps \<longrightarrow>
         g (sentence t ps) = sentence t (map (\<lambda>(p, u). (g p, u)) ps)
         \<and> h (g (sentence t ps)) = sentence t (map (\<lambda>(p, u). (h (g p), u)) ps)"
    using placeholders_become_the_derived_ids [OF demo_resolves] by blast
  have "h (g ''$new_claim_0$'') = as_str (claim_id_from_parts (\<lambda>_. 0) 0 ''n'' ''s'' (random_hex4 0))"
    using r(2) by (auto simp: declared_def demo_claims_array text_field_def)
  moreover have "h (g (sentence ''see '' [(''$new_claim_0$'', [])])) = sentence ''see '' [(h (g ''$new_claim_0$''), [])]"
    using r(3) [rule_format, of "''see ''" "[(''$new_claim_0$'', [])]"] demo_placeholder by (auto simp: plain_text_def str_starts_with_def)
  ultimately have see: "h (g ''see $new_claim_0$'') = ''see '' @ as_str (claim_id_from_parts (\<lambda>_. 0) 0 ''n'' ''s'' (random_hex4 0))"
    by (simp add: sentence_def)
  show ?thesis by (rule exI [of _ g], rule exI [of _ h], rule conjI [OF r(1) see])
qed

section \<open>An accepted answer\<close>

definition demo_claim :: "32 word \<Rightarrow> claim_status \<Rightarrow> claim" where
  "demo_claim r st = \<lparr>claim_id = random_id claim_prefix r, claim_name = ''n'', claim_statement = ''x'', claim_scope = ''s'', claim_holder = demo_ann,
     claim_confidence = Medium, claim_status = st, claim_created_at = 1, claim_updated_at = None, source_claim_ids = [], evidence_summary = ''e''\<rparr>"

definition demo_update_message :: inbox_message where
  "demo_update_message = \<lparr>message_id = random_id inbox_prefix 1, message_kind = ClaimAttributeUpdate demo_naming None, handled_at = None\<rparr>"

definition demo_draft :: "string \<Rightarrow> string option \<Rightarrow> claim_draft" where
  "demo_draft i st = \<lparr>draft_id = i, draft_name = ''n'', draft_statement = ''y'', draft_scope = ''s'', draft_confidence = Medium, draft_status = st,
     draft_evidence = ''e'', draft_sources = []\<rparr>"

definition demo_outcome :: internalize_outcome where
  "demo_outcome = \<lparr>drafted_claims = [demo_draft ''claim_00000005'' None], drafted_updates = [demo_draft ''claim_00000002'' (Some ''deprecated'')],
     drafted_disputes = [\<lparr>dd_id = ''dispute_00000001'', dd_name = ''d'', dd_claims = [''claim_00000005'', ''claim_00000003''], dd_summary = ''q''\<rparr>]\<rparr>"

definition demo_decoder :: decoder where
  "demo_decoder = \<lparr>hash_finish = (\<lambda>_. 0), outcome_of = (\<lambda>_. Some demo_outcome)\<rparr>"

definition demo_reply :: model_answer where
  "demo_reply = \<lparr>answer_json = JObject [], answered_at = 20, claim_salts = (\<lambda>_. 0), dispute_salts = (\<lambda>_. 0), trace_salt = 0\<rparr>"

definition demo_own :: "claim list" where
  "demo_own = [demo_claim 2 Active, demo_claim 3 Active]"

definition demo_prepared :: "prepare_error + prepared" where
  "demo_prepared = claim_attribute_update_internalize_and_prepare_once demo_decoder demo_ann demo_reply [demo_update_message] demo_own"

abbreviation demo_updates :: "claim list" where "demo_updates \<equiv> fst (snd (projr demo_prepared))"
abbreviation demo_disputes :: "dispute list" where "demo_disputes \<equiv> snd (snd (projr demo_prepared))"

lemma demo_accepted: "\<not> isl demo_prepared" "map claim_id demo_updates = [random_id claim_prefix 2]" "length demo_disputes = 1"
  by code_simp+

theorem accepted_answer_witness:
  "map claim_id demo_updates = [random_id claim_prefix 2] \<and> length demo_disputes = 1
   \<and> list_all (\<lambda>c. \<exists>old \<in> set demo_own. claim_id old = claim_id c \<and> claim_holder c = demo_ann \<and> effective_updated_at old < effective_updated_at c) demo_updates
   \<and> list_all (\<lambda>d. 2 \<le> length (dispute_claims d)) demo_disputes"
proof -
  have "demo_prepared = Inr (fst (projr demo_prepared), demo_updates, demo_disputes)"
    unfolding prod.collapse by (rule sum.collapse(2) [OF demo_accepted(1), symmetric])
  from accepted_answer_is_sound [OF this [unfolded demo_prepared_def] refl] show ?thesis
    using demo_accepted(2,3) unfolding demo_prepared_def list_all_iff by blast
qed

end
