(* ===== verification/Effect_Demo.thy ===== *)
theory Effect_Demo
  imports Effect_Completion Answer_Demo
begin

text \<open>
  A plan in the journal of the agent \<open>ann\<close>: it adds a claim and retires the one it replaces.  The theorems on the
  journal are applied to the run that applies it.
\<close>

definition demo_successor :: claim where
  "demo_successor = demo_claim 5 Active"

definition demo_retired :: claim where
  "demo_retired = (demo_claim 2 Deprecated)\<lparr>claim_updated_at := Some 1000000001\<rparr>"

definition demo_plan :: inbox_effect_plan where
  "demo_plan = \<lparr>plan_schema_version = 1, plan_inbox_id = message_id demo_update_message, plan_resolution_id = None, plan_message_hash = ''h'',
     batch_members = [], batch_hash = None, analysis_claims = Some [demo_claim 2 Active], applied_claims = [], effect_state = Prepared, prepared_at = 20,
     planned_claims = [demo_successor], planned_updates = [\<lparr>update_target = demo_retired, preimage_hash = ''h''\<rparr>],
     deprecated_claim_ids = [claim_id demo_retired], planned_disputes = [], planned_trace = None, plan_warnings = []\<rparr>"

definition demo_setting :: journal_setting where
  "demo_setting = \<lparr>js_agent = demo_ann, js_decoder = demo_decoder, generator = (\<lambda>_ _. Some demo_reply), hash_message = (\<lambda>_. ''h''),
     hash_members = (\<lambda>_. ''h''), hash_claim = (\<lambda>_. ''h''), maintainer_client = False, router_configured = False, ledger_now = 0\<rparr>"

definition demo_knowledge :: knowledge_home where
  "demo_knowledge = \<lparr>kn_uploads = \<lparr>up_faults = [], queue_file = None\<rparr>,
     claim_files = [(yaml_name (claim_id (demo_claim 2 Active)), Document (demo_claim 2 Active))], trace_files = [],
     effect_files = [(yaml_name (plan_inbox_id demo_plan), Document (PlanRecord demo_plan))], ledger_file = None, dream_pending = False\<rparr>"

abbreviation demo_after :: knowledge_home where
  "demo_after \<equiv> snd (apply_persisted_claim_attribute_update_plan demo_setting demo_plan demo_knowledge)"

lemma demo_stored:
  "stored_claim demo_knowledge (claim_id demo_retired) = Some (demo_claim 2 Active)"
  "stored_claim demo_after (claim_id demo_retired) = Some demo_retired"
  by code_simp+

lemma demo_named: "named_claims demo_knowledge" "distinct (map claim_id (plan_targets demo_plan))" "applied_claims demo_plan = []"
  by (auto simp: named_claims_def demo_knowledge_def valid_id_def demo_claim_def plan_targets_def demo_plan_def demo_successor_def demo_retired_def random_id_def)

lemma demo_run: "apply_persisted_claim_attribute_update_plan demo_setting demo_plan demo_knowledge
    = (fst (apply_persisted_claim_attribute_update_plan demo_setting demo_plan demo_knowledge), demo_after)"
  by (rule prod.collapse [symmetric])

lemma demo_targets: "demo_retired \<in> set (plan_targets demo_plan)" "demo_successor \<in> set (plan_targets demo_plan)"
  "claim_status demo_retired = Deprecated" "claim_status demo_successor \<noteq> Deprecated"
  by (simp_all add: plan_targets_def demo_plan_def demo_retired_def demo_successor_def demo_claim_def)

lemma demo_changed: "stored_claim demo_after (claim_id demo_retired) \<noteq> stored_claim demo_knowledge (claim_id demo_retired)"
  unfolding demo_stored by (simp add: demo_retired_def demo_claim_def)

theorem replaces_only_analysed_witness:
  "\<exists>analysed t. analysis_claims demo_plan = Some analysed \<and> t \<in> set (plan_targets demo_plan) \<and> stored_claim demo_after (claim_id demo_retired) = Some t
     \<and> stored_claim demo_knowledge (claim_id demo_retired) = by_claim_id analysed (claim_id demo_retired)"
  using plan_replaces_only_analysed_versions [OF demo_run demo_named(1,2) demo_changed] by blast

theorem retire_after_successors_witness: "stored_claim demo_after (claim_id demo_successor) = Some demo_successor"
  using sources_retire_after_their_successors [OF demo_run demo_named(1,2) _ demo_targets(1,3) demo_changed [symmetric] demo_targets(2,4)] demo_named(3) by simp

lemma demo_recorded: "\<forall>m \<in> set [demo_update_message]. map_of (effect_files demo_knowledge) (yaml_name (message_id m)) \<noteq> None"
  by (simp add: demo_knowledge_def demo_plan_def)

theorem recorded_messages_witness:
  "internalize_locally (demo_setting\<lparr>generator := \<lambda>_ _. None\<rparr>) [demo_update_message] demo_knowledge = internalize_locally demo_setting [demo_update_message] demo_knowledge"
  by (rule recorded_messages_never_reach_the_model [OF demo_recorded])

definition demo_internalised :: "(knowledge_error + internalize_summary) \<times> knowledge_home" where
  "demo_internalised = internalize_locally demo_setting [demo_update_message] demo_knowledge"

lemma demo_internalises: "\<not> isl (fst demo_internalised)"
  by code_simp

lemma demo_journal_ok: "journal_ok demo_knowledge"
  by (simp add: journal_ok_def record_at_def demo_knowledge_def split: option.splits yaml_file.splits)

theorem applied_messages_witness: "\<not> isl (fst demo_internalised) \<and> effect_applied (snd demo_internalised) (message_id demo_update_message)"
proof -
  have "internalize_locally demo_setting [demo_update_message] demo_knowledge = (Inr (projr (fst demo_internalised)), snd demo_internalised)"
    unfolding sum.collapse(2) [OF demo_internalises] prod.collapse by (simp add: demo_internalised_def)
  from internalised_messages_are_applied [OF this demo_journal_ok] show ?thesis using demo_internalises by simp
qed

end
