(* ===== verification/Memory.thy ===== *)
theory Memory
  imports Utf8 Team_Store
begin

text \<open>
  The agent's two memory files: the safety scan of what is written (\<open>src/memory_safety.rs\<close>), the operations on the
  texts (\<open>src/memory.rs\<close>) and the file store around them (\<open>LocalFsMemoryStore\<close> in \<open>src/agent/fs.rs\<close>).  A text is its
  UTF-8 bytes.
\<close>

section \<open>Operations\<close>

datatype memory_target = MemoryFile | UserFile

datatype memory_op =
    AddEntry memory_target string
  | ReplaceEntry memory_target string string
  | RemoveEntry memory_target string

fun op_target :: "memory_op \<Rightarrow> memory_target" where
  "op_target (AddEntry t _) = t"
| "op_target (ReplaceEntry t _ _) = t"
| "op_target (RemoveEntry t _) = t"

fun op_new_text :: "memory_op \<Rightarrow> string option" where
  "op_new_text (AddEntry _ e) = Some e"
| "op_new_text (ReplaceEntry _ _ n) = Some n"
| "op_new_text (RemoveEntry _ _) = None"

section \<open>Safety scan\<close>

datatype memory_safety_error = InvisibleUnicode int | ThreatFound string

text \<open>The number of a scalar value given by its bytes.\<close>

definition code_point :: "string \<Rightarrow> int" where
  "code_point c = (case map of_char c of
       [a] \<Rightarrow> a
     | [a, b] \<Rightarrow> (a - 0xC0) * 0x40 + (b - 0x80)
     | [a, b, d] \<Rightarrow> (a - 0xE0) * 0x1000 + (b - 0x80) * 0x40 + (d - 0x80)
     | [a, b, d, e] \<Rightarrow> (a - 0xF0) * 0x40000 + (b - 0x80) * 0x1000 + (d - 0x80) * 0x40 + (e - 0x80)
     | _ \<Rightarrow> 0)"

definition invisible_ranges :: "(int \<times> int) list" where
  "invisible_ranges =
     [(0x0000, 0x001F), (0x007F, 0x009F), (0x00AD, 0x00AD), (0x034F, 0x034F), (0x061C, 0x061C), (0x06DD, 0x06DD), (0x070F, 0x070F),
      (0x0890, 0x0890), (0x0891, 0x0891), (0x08E2, 0x08E2), (0x180E, 0x180E), (0x1BCA, 0x1BCD), (0x1D173, 0x1D17A), (0x200B, 0x200F),
      (0x202A, 0x202E), (0x2060, 0x206F), (0xFE00, 0xFE0F), (0xFEFF, 0xFEFF), (0xFFF9, 0xFFFB), (0xE0100, 0xE01EF)]"

definition is_invisible_injection_char :: "string \<Rightarrow> bool" where
  "is_invisible_injection_char c \<longleftrightarrow> c \<notin> {[CHR 0x09], [CHR 0x0A], [CHR 0x0D]}
     \<and> list_ex (\<lambda>(lo, hi). lo \<le> code_point c \<and> code_point c \<le> hi) invisible_ranges"

text \<open>
  \<open>lower\<close> is \<open>char::to_lowercase\<close>, the Unicode table of the standard library, which gives one or more scalars.
\<close>

fun normalize_loop :: "bool \<Rightarrow> string list \<Rightarrow> string" where
  "normalize_loop last_was_space [] = []"
| "normalize_loop last_was_space (c # cs) =
     (if c \<in> set utf8_whitespace then (if last_was_space then [] else '' '') @ normalize_loop True cs
      else c @ normalize_loop False cs)"

definition normalize_for_scan :: "(string \<Rightarrow> string list) \<Rightarrow> string \<Rightarrow> string" where
  "normalize_for_scan lower content = normalize_loop False (concat (map lower (utf8_chars content)))"

definition threat_patterns :: "(string \<times> string list) list" where
  "threat_patterns =
     [(''prompt_injection'', [''ignore'', ''instructions'']),
      (''role_hijack'', [''you are now'']),
      (''deception_hide'', [''do not tell'', ''user'']),
      (''sys_prompt_override'', [''system prompt'', ''override'']),
      (''sys_prompt_override'', [''override'', ''previous'', ''rules'']),
      (''disregard_rules'', [''disregard'', ''instructions'']),
      (''disregard_rules'', [''disregard'', ''rules'']),
      (''bypass_restrictions'', [''act as if'', ''no'', ''restrictions'']),
      (''bypass_restrictions'', [''act as though'', ''no'', ''rules'']),
      (''exfil_curl'', [''curl'', ''$'', ''key'']),
      (''exfil_curl'', [''curl'', ''$'', ''token'']),
      (''exfil_curl'', [''curl'', ''$'', ''secret'']),
      (''exfil_curl'', [''curl'', ''$'', ''password'']),
      (''exfil_curl'', [''curl'', ''$'', ''credential'']),
      (''exfil_curl'', [''curl'', ''api_key'']),
      (''exfil_curl'', [''curl'', ''token='']),
      (''exfil_wget'', [''wget'', ''$'', ''key'']),
      (''exfil_wget'', [''wget'', ''$'', ''token'']),
      (''exfil_wget'', [''wget'', ''$'', ''secret'']),
      (''exfil_upload'', [''curl'', ''.env'']),
      (''exfil_upload'', [''curl'', ''credentials'']),
      (''exfil_upload'', [''curl'', ''id_rsa'']),
      (''exfil_upload'', [''curl'', ''.netrc'']),
      (''exfil_upload'', [''curl'', ''.npmrc'']),
      (''exfil_upload'', [''curl'', ''.pypirc'']),
      (''exfil_upload'', [''wget'', ''.env'']),
      (''exfil_upload'', [''wget'', ''credentials'']),
      (''exfil_upload'', [''wget'', ''id_rsa'']),
      (''read_secrets'', [''cat'', ''.env'']),
      (''read_secrets'', [''cat'', ''credentials'']),
      (''read_secrets'', [''cat'', ''.netrc'']),
      (''read_secrets'', [''cat'', ''.pgpass'']),
      (''read_secrets'', [''cat'', ''.npmrc'']),
      (''read_secrets'', [''cat'', ''.pypirc'']),
      (''read_secrets'', [''cat'', ''id_rsa'']),
      (''read_secrets'', [''cat'', ''.aws/config'']),
      (''ssh_backdoor'', [''authorized_keys'']),
      (''ssh_access'', [''$home/.ssh'']),
      (''ssh_access'', [''~/.ssh''])]"

definition pattern_matches :: "string list \<Rightarrow> string \<Rightarrow> bool" where
  "pattern_matches terms text \<longleftrightarrow> list_all (str_contains text) terms"

definition scan_memory_content :: "(string \<Rightarrow> string list) \<Rightarrow> string \<Rightarrow> memory_safety_error + unit" where
  "scan_memory_content lower content =
     (case find is_invisible_injection_char (utf8_chars content) of
        Some c \<Rightarrow> Inl (InvisibleUnicode (code_point c))
      | None \<Rightarrow> (case find (\<lambda>(_, terms). pattern_matches terms (normalize_for_scan lower content)) threat_patterns of
          Some (name, _) \<Rightarrow> Inl (ThreatFound name)
        | None \<Rightarrow> Inr ()))"

fun scan_memory_ops :: "(string \<Rightarrow> string list) \<Rightarrow> memory_op list \<Rightarrow> memory_safety_error + unit" where
  "scan_memory_ops lower [] = Inr ()"
| "scan_memory_ops lower (p # ps) =
     and_then (case op_new_text p of None \<Rightarrow> Inr () | Some t \<Rightarrow> scan_memory_content lower t) (\<lambda>_. scan_memory_ops lower ps)"

section \<open>Texts and entries\<close>

definition section_sign :: string where "section_sign = [CHR 0xC2, CHR 0xA7]"

definition entry_delimiter :: string where "entry_delimiter = [CHR 0x0A] @ section_sign @ [CHR 0x0A]"

text \<open>\<open>str::split\<close> with a separator that is not empty.\<close>

function str_split :: "string \<Rightarrow> string \<Rightarrow> string list" where
  "str_split sep [] = [[]]"
| "str_split sep (c # s) =
     (if sep \<noteq> [] \<and> str_starts_with (c # s) sep then [] # str_split sep (drop (length sep) (c # s))
      else (case str_split sep s of [] \<Rightarrow> [[c]] | x # xs \<Rightarrow> (c # x) # xs))"
  by pat_completeness auto
termination by (relation "measure (length \<circ> snd)") (auto simp: less_Suc_eq_le neq_Nil_conv)

definition parse_entries :: "string \<Rightarrow> string list" where
  "parse_entries text = fold (\<lambda>raw entries. let t = str_trim raw in
     if t \<noteq> [] \<and> t \<notin> set entries then entries @ [t] else entries) (str_split section_sign text) []"

definition render_entries :: "string list \<Rightarrow> string" where
  "render_entries entries = join_with entry_delimiter entries"

definition char_count :: "string \<Rightarrow> nat" where
  "char_count text = length (utf8_chars text)"

record memory_usage =
  usage_chars :: nat
  usage_cap_chars :: nat
  usage_percent :: nat
  usage_entry_count :: nat

text \<open>A text of 2^57 characters does not exist, so the saturating product is the product.\<close>

definition usage_for_entries :: "string list \<Rightarrow> nat \<Rightarrow> memory_usage" where
  "usage_for_entries entries cap = (let chars = char_count (render_entries entries) in
     \<lparr>usage_chars = chars, usage_cap_chars = cap, usage_percent = (if 0 < cap then min 100 (chars * 100 div cap) else 0),
      usage_entry_count = length entries\<rparr>)"

record memory_snapshot =
  memory_text :: string
  user_text :: string
  memory_entries :: "string list"
  user_entries :: "string list"
  memory_use :: memory_usage
  user_use :: memory_usage

definition snapshot_texts :: "string \<Rightarrow> string \<Rightarrow> nat \<Rightarrow> nat \<Rightarrow> memory_snapshot" where
  "snapshot_texts memory user memory_cap user_cap =
     (let ms = parse_entries memory; us = parse_entries user in
      \<lparr>memory_text = render_entries ms, user_text = render_entries us, memory_entries = ms, user_entries = us,
       memory_use = usage_for_entries ms memory_cap, user_use = usage_for_entries us user_cap\<rparr>)"

section \<open>Applying operations\<close>

datatype memory_error =
    CapacityExceeded memory_target nat nat nat "string list"
  | AmbiguousSubstring memory_target nat string
  | ReservedDelimiter memory_target
  | EmptyEntry memory_target

definition ensure_no_reserved_delimiter :: "memory_target \<Rightarrow> string option \<Rightarrow> memory_error + unit" where
  "ensure_no_reserved_delimiter t text = (case text of
       Some s \<Rightarrow> if str_contains s section_sign then Inl (ReservedDelimiter t) else Inr ()
     | None \<Rightarrow> Inr ())"

definition trim_entry :: "memory_target \<Rightarrow> string \<Rightarrow> memory_error + string" where
  "trim_entry t entry = (let s = str_trim entry in if s = [] then Inl (EmptyEntry t) else Inr s)"

definition unique_match_index :: "string list \<Rightarrow> memory_target \<Rightarrow> string \<Rightarrow> memory_error + nat" where
  "unique_match_index entries t raw =
     (let needle = str_trim raw in
      if needle = [] then Inl (AmbiguousSubstring t 0 needle)
      else case filter (\<lambda>(_, e). str_contains e needle) (enumerate 0 entries) of
          [] \<Rightarrow> Inl (AmbiguousSubstring t 0 needle)
        | (i, e) # others \<Rightarrow> if list_all (\<lambda>(_, x). x = e) others then Inr i
                          else Inl (AmbiguousSubstring t (Suc (length others)) needle))"

definition replace_unique :: "string list \<Rightarrow> memory_target \<Rightarrow> string \<Rightarrow> string \<Rightarrow> memory_error + string list" where
  "replace_unique entries t old_text new_text = and_then (unique_match_index entries t old_text) (\<lambda>i. Inr (entries[i := new_text]))"

definition remove_unique :: "string list \<Rightarrow> memory_target \<Rightarrow> string \<Rightarrow> memory_error + string list" where
  "remove_unique entries t old_text = and_then (unique_match_index entries t old_text) (\<lambda>i. Inr (take i entries @ drop (Suc i) entries))"

datatype memory_message = EntryExists | EntryAdded | EntryReplaced | EntryRemoved

type_synonym both_entries = "memory_target \<Rightarrow> string list"

definition apply_op :: "memory_op \<Rightarrow> both_entries \<Rightarrow> memory_error + (both_entries \<times> memory_message)" where
  "apply_op p es =
     and_then (ensure_no_reserved_delimiter (op_target p) (op_new_text p)) (\<lambda>_. case p of
         AddEntry t entry \<Rightarrow> and_then (trim_entry t entry) (\<lambda>e.
           Inr (if e \<in> set (es t) then (es, EntryExists) else (es(t := es t @ [e]), EntryAdded)))
       | ReplaceEntry t old_text new_text \<Rightarrow> and_then (trim_entry t new_text) (\<lambda>e.
           and_then (replace_unique (es t) t old_text e) (\<lambda>xs. Inr (es(t := xs), EntryReplaced)))
       | RemoveEntry t old_text \<Rightarrow> and_then (remove_unique (es t) t old_text) (\<lambda>xs. Inr (es(t := xs), EntryRemoved)))"

fun apply_op_loop :: "memory_op list \<Rightarrow> both_entries \<Rightarrow> memory_message option \<Rightarrow> memory_error + (both_entries \<times> memory_message option)" where
  "apply_op_loop [] es message = Inr (es, message)"
| "apply_op_loop (p # ps) es message = and_then (apply_op p es) (\<lambda>(es', msg). apply_op_loop ps es' (Some msg))"

definition ensure_capacity :: "memory_target \<Rightarrow> string list \<Rightarrow> nat \<Rightarrow> memory_error + unit" where
  "ensure_capacity t entries cap = (let current = char_count (render_entries entries) in
     if cap < current then Inl (CapacityExceeded t current cap (current - cap) entries) else Inr ())"

record memory_apply_report =
  applied_memory :: memory_usage
  applied_user :: memory_usage
  applied_target :: "memory_target option"
  target_entries :: "string list"
  no_op :: bool
  apply_message :: "memory_message option"

definition apply_ops_to_texts ::
  "string \<Rightarrow> string \<Rightarrow> nat \<Rightarrow> nat \<Rightarrow> memory_op list \<Rightarrow> memory_error + (string \<times> string \<times> memory_apply_report)" where
  "apply_ops_to_texts memory user memory_cap user_cap ops =
     (let before = (\<lambda>t. case t of MemoryFile \<Rightarrow> parse_entries memory | UserFile \<Rightarrow> parse_entries user);
          target = (if ops = [] then None else Some (op_target (last ops))) in
      and_then (apply_op_loop ops before None) (\<lambda>(after, message).
      let ms = dedup (after MemoryFile); us = dedup (after UserFile) in
      and_then (ensure_capacity MemoryFile ms memory_cap) (\<lambda>_.
      and_then (ensure_capacity UserFile us user_cap) (\<lambda>_.
        Inr (render_entries ms, render_entries us,
          \<lparr>applied_memory = usage_for_entries ms memory_cap, applied_user = usage_for_entries us user_cap, applied_target = target,
           target_entries = (case target of None \<Rightarrow> [] | Some MemoryFile \<Rightarrow> ms | Some UserFile \<Rightarrow> us),
           no_op = (render_entries ms = render_entries (before MemoryFile) \<and> render_entries us = render_entries (before UserFile)),
           apply_message = message\<rparr>)))))"

section \<open>The file store\<close>

text \<open>A file that is missing reads as an empty text; \<open>read_to_string\<close> refuses what is not UTF-8.\<close>

record memory_store =
  mem_faults :: "bool list"
  memory_file :: "string option"
  user_file :: "string option"

datatype memory_store_error = MemoryIo | MemoryNotUtf8 | MemoryUnsafe memory_safety_error | MemoryRefused memory_error

type_synonym 'a memory_io = "(memory_store, memory_store_error, 'a) io"

definition mem_call :: "unit memory_io" where
  "mem_call w = (case mem_faults w of
                   [] \<Rightarrow> (Inr (), w)
                 | f # fs \<Rightarrow> (if f then Inl MemoryIo else Inr (), w\<lparr>mem_faults := fs\<rparr>))"

definition read_path :: "(memory_store \<Rightarrow> string option) \<Rightarrow> string memory_io" where
  "read_path get = bind_io mem_call (\<lambda>_. bind_io (get_io get) (\<lambda>f. case f of
       None \<Rightarrow> return_io []
     | Some s \<Rightarrow> if valid_utf8 s then return_io s else throw_io MemoryNotUtf8))"

definition read_memory :: "string memory_io" where "read_memory = read_path memory_file"
definition read_user :: "string memory_io" where "read_user = read_path user_file"

definition acquire_memory_file_locks :: "unit memory_io" where
  "acquire_memory_file_locks = bind_io mem_call (\<lambda>_. mem_call)"

definition read_memory_snapshot_locked :: "nat \<Rightarrow> nat \<Rightarrow> memory_snapshot memory_io" where
  "read_memory_snapshot_locked memory_cap user_cap =
     bind_io acquire_memory_file_locks (\<lambda>_. bind_io read_memory (\<lambda>m. bind_io read_user (\<lambda>u.
       return_io (snapshot_texts m u memory_cap user_cap))))"

definition apply_memory_ops_locked ::
  "(string \<Rightarrow> string list) \<Rightarrow> nat \<Rightarrow> nat \<Rightarrow> bool \<Rightarrow> memory_op list \<Rightarrow> memory_apply_report memory_io" where
  "apply_memory_ops_locked lower memory_cap user_cap safety_scan ops =
     bind_io (if safety_scan then lift_sum (map_sum MemoryUnsafe id (scan_memory_ops lower ops)) else return_io ()) (\<lambda>_.
     bind_io acquire_memory_file_locks (\<lambda>_. bind_io read_memory (\<lambda>m. bind_io read_user (\<lambda>u.
     let shot = snapshot_texts m u memory_cap user_cap in
     bind_io (lift_sum (map_sum MemoryRefused id (apply_ops_to_texts (memory_text shot) (user_text shot) memory_cap user_cap ops)))
       (\<lambda>(next_memory, next_user, report).
     bind_io (if next_memory \<noteq> memory_text shot then bind_io mem_call (\<lambda>_. modify_io (memory_file_update (\<lambda>_. Some next_memory)))
              else return_io ()) (\<lambda>_.
     bind_io (if next_user \<noteq> user_text shot then bind_io mem_call (\<lambda>_. modify_io (user_file_update (\<lambda>_. Some next_user)))
              else return_io ()) (\<lambda>_.
       return_io report)))))))"

end
