(* ===== verification/Memory_Properties.thy ===== *)
theory Memory_Properties
  imports Memory
begin

text \<open>
  The memory files: what a change writes reads back as the entries it made, within the capacity, and new entries have
  passed the safety scan.
\<close>

section \<open>Trimming\<close>

definition blank_prefix :: "string \<Rightarrow> bool" where
  "blank_prefix s \<longleftrightarrow> list_ex (str_starts_with s) utf8_whitespace"

definition blank_suffix :: "string \<Rightarrow> bool" where
  "blank_suffix s \<longleftrightarrow> list_ex (str_ends_with s) utf8_whitespace"

lemma find_None_list_ex: "find P xs = None \<longleftrightarrow> \<not> list_ex P xs"
  by (auto simp: find_None_iff list_ex_iff)

lemma trim_start_id: "\<not> blank_prefix s \<Longrightarrow> str_trim_start s = s"
  by (subst str_trim_start.simps) (simp add: blank_prefix_def find_None_list_ex [THEN iffD2])

lemma trim_end_id: "\<not> blank_suffix s \<Longrightarrow> str_trim_end s = s"
  by (subst str_trim_end.simps) (simp add: blank_suffix_def find_None_list_ex [THEN iffD2])

lemma trim_start_split: "(\<exists>a. s = a @ str_trim_start s) \<and> \<not> blank_prefix (str_trim_start s)"
proof (induction s rule: str_trim_start.induct)
  case (1 s)
  show ?case
  proof (cases "find (str_starts_with s) utf8_whitespace")
    case None
    then show ?thesis using trim_start_id [of s] by (simp add: blank_prefix_def find_None_list_ex)
  next
    case (Some w)
    then have "str_trim_start s = str_trim_start (drop (length w) s)" by (subst str_trim_start.simps) simp
    moreover obtain a where "drop (length w) s = a @ str_trim_start (drop (length w) s)" using 1 [OF Some] by blast
    ultimately show ?thesis using 1 [OF Some] by (metis append_assoc append_take_drop_id)
  qed
qed

lemma trim_end_split: "(\<exists>b. s = str_trim_end s @ b) \<and> \<not> blank_suffix (str_trim_end s)"
proof (induction s rule: str_trim_end.induct)
  case (1 s)
  show ?case
  proof (cases "find (str_ends_with s) utf8_whitespace")
    case None
    then show ?thesis using trim_end_id [of s] by (simp add: blank_suffix_def find_None_list_ex)
  next
    case (Some w)
    let ?t = "take (length s - length w) s"
    have "str_trim_end s = str_trim_end ?t" using Some by (subst str_trim_end.simps) simp
    moreover obtain b where "?t = str_trim_end ?t @ b" using 1 [OF Some] by blast
    ultimately show ?thesis using 1 [OF Some] by (metis append_assoc append_take_drop_id)
  qed
qed

lemma trim_split: "\<exists>a b. s = a @ str_trim s @ b"
  unfolding str_trim_def using trim_start_split [of s] trim_end_split [of "str_trim_start s"] by (metis append_assoc)

lemma blank_prefix_mono: "blank_prefix s \<Longrightarrow> blank_prefix (s @ t)"
  unfolding blank_prefix_def list_ex_iff str_starts_with_iff by (metis append_assoc)

lemma trim_ends: "\<not> blank_prefix (str_trim s)" "\<not> blank_suffix (str_trim s)"
proof -
  obtain b where "str_trim_start s = str_trim s @ b" using trim_end_split [of "str_trim_start s"] by (auto simp: str_trim_def)
  then show "\<not> blank_prefix (str_trim s)" using trim_start_split [of s] blank_prefix_mono by metis
  show "\<not> blank_suffix (str_trim s)" using trim_end_split [of "str_trim_start s"] by (simp add: str_trim_def)
qed

lemma trim_id: "\<not> blank_prefix s \<Longrightarrow> \<not> blank_suffix s \<Longrightarrow> str_trim s = s"
  by (simp add: str_trim_def trim_start_id trim_end_id)

lemma trim_idem [simp]: "str_trim (str_trim s) = str_trim s"
  by (simp add: trim_id trim_ends)

text \<open>A line break around a text is cut off and nothing else is.\<close>

lemma newline_in_whitespace: "w \<in> set utf8_whitespace \<Longrightarrow> CHR 0x0A \<in> set w \<longleftrightarrow> w = [CHR 0x0A]"
  by (auto simp: utf8_whitespace_def)

lemma blank_prefix_newline: "e \<noteq> [] \<Longrightarrow> blank_prefix (e @ CHR 0x0A # r) \<Longrightarrow> blank_prefix e"
proof -
  assume e: "e \<noteq> []" and "blank_prefix (e @ CHR 0x0A # r)"
  then obtain w t where w: "w \<in> set utf8_whitespace" "e @ CHR 0x0A # r = w @ t"
    by (auto simp: blank_prefix_def list_ex_iff str_starts_with_iff)
  from w(2) consider u where "e = w @ u" | u where "w = e @ u" "u \<noteq> []" "u @ t = CHR 0x0A # r"
    unfolding append_eq_append_conv2 by (metis append_Nil2)
  then show "blank_prefix e"
  proof cases
    case 1
    then show ?thesis using w(1) by (auto simp: blank_prefix_def list_ex_iff str_starts_with_iff)
  next
    case 2
    then have "CHR 0x0A \<in> set w" by (cases u) auto
    then have "w = [CHR 0x0A]" using newline_in_whitespace w(1) by blast
    then show ?thesis using 2 e by (cases e) auto
  qed
qed

lemma trim_start_newline [simp]: "str_trim_start (CHR 0x0A # s) = str_trim_start s"
  by (subst str_trim_start.simps) (simp add: utf8_whitespace_def str_starts_with_def)

lemma trim_end_newline [simp]: "str_trim_end (s @ [CHR 0x0A]) = str_trim_end s"
  by (subst str_trim_end.simps) (simp add: utf8_whitespace_def str_ends_with_def)

definition memory_entry :: "string \<Rightarrow> bool" where
  "memory_entry e \<longleftrightarrow> e \<noteq> [] \<and> str_trim e = e \<and> \<not> str_contains e section_sign"

lemma trim_framed:
  assumes "memory_entry e"
  shows "str_trim (CHR 0x0A # e) = e" "str_trim (e @ [CHR 0x0A]) = e" "str_trim (CHR 0x0A # e @ [CHR 0x0A]) = e" "str_trim e = e"
proof -
  have e: "e \<noteq> []" "\<not> blank_prefix e" "\<not> blank_suffix e" "str_trim e = e"
    using assms trim_ends [of e] by (auto simp: memory_entry_def)
  then have "\<not> blank_prefix (e @ [CHR 0x0A])" using blank_prefix_newline [of e "[]"] by blast
  then show "str_trim (CHR 0x0A # e) = e" "str_trim (e @ [CHR 0x0A]) = e" "str_trim (CHR 0x0A # e @ [CHR 0x0A]) = e" "str_trim e = e"
    using e by (simp_all add: str_trim_def trim_start_id trim_end_id)
qed

section \<open>Splitting\<close>

lemma split_nonempty [simp]: "str_split sep s \<noteq> []"
  by (induction sep s rule: str_split.induct) (auto split: list.splits)

lemma split_hd: "str_split sep s = y # ys \<Longrightarrow> \<exists>r. s = y @ r"
proof (induction sep s arbitrary: y ys rule: str_split.induct)
  case (2 sep c s)
  then show ?case by (fastforce split: if_splits list.splits)
qed simp

lemma split_pieces: "sep \<noteq> [] \<Longrightarrow> x \<in> set (str_split sep s) \<Longrightarrow> \<not> str_contains x sep"
proof (induction sep s arbitrary: x rule: str_split.induct)
  case (2 sep c s)
  show ?case
  proof (cases "str_starts_with (c # s) sep")
    case False
    obtain y ys where ys: "str_split sep s = y # ys" by (cases "str_split sep s") auto
    then have "\<not> str_starts_with (c # y) sep" using False split_hd [OF ys] unfolding str_starts_with_iff by (metis append_Cons append_assoc)
    then show ?thesis using 2 False ys by auto
  qed (use 2 in auto)
qed simp

lemma split_at_separator:
  assumes "a \<noteq> b" and "\<not> str_contains x [a, b]"
  shows "str_split [a, b] (x @ [a, b] @ t) = x # str_split [a, b] t"
  using assms(2)
proof (induction x)
  case (Cons c x)
  have "\<not> str_starts_with (c # x @ [a, b] @ t) [a, b]" using Cons.prems assms(1) by (cases x) (auto simp: str_starts_with_def)
  then show ?case using Cons by simp
qed (simp add: str_starts_with_def)

lemma split_without_separator: "\<not> str_contains s sep \<Longrightarrow> str_split sep s = [s]"
  by (induction s) auto

section \<open>Entries\<close>

definition entries_ok :: "string list \<Rightarrow> bool" where
  "entries_ok es \<longleftrightarrow> distinct es \<and> list_all memory_entry es"

lemma dedup_acc_cong: "(\<And>x. x \<in> set s \<longleftrightarrow> x \<in> set s') \<Longrightarrow> dedup_acc s xs = dedup_acc s' xs"
proof (induction xs arbitrary: s s')
  case (Cons x xs)
  have "dedup_acc (x # s) xs = dedup_acc (x # s') xs" by (rule Cons.IH) (simp add: Cons.prems)
  then show ?case using Cons.IH [OF Cons.prems] Cons.prems by simp
qed simp

lemma parse_entries_eq: "parse_entries text = dedup (filter (\<lambda>t. t \<noteq> []) (map str_trim (str_split section_sign text)))"
proof -
  have "fold (\<lambda>raw entries. let t = str_trim raw in if t \<noteq> [] \<and> t \<notin> set entries then entries @ [t] else entries) xs acc
      = acc @ dedup_acc acc (filter (\<lambda>t. t \<noteq> []) (map str_trim xs))" for xs acc
  proof (induction xs arbitrary: acc)
    case (Cons x xs)
    have "dedup_acc (acc @ [y]) ys = dedup_acc (y # acc) ys" for y ys by (rule dedup_acc_cong) auto
    then show ?case using Cons by (simp add: Let_def)
  qed simp
  from this [of _ "[]"] show ?thesis by (simp add: parse_entries_def dedup_def)
qed

lemma parsed_entries_ok: "entries_ok (parse_entries text)"
proof -
  have "memory_entry (str_trim x)" if x: "x \<in> set (str_split section_sign text)" "str_trim x \<noteq> []" for x
  proof -
    have "\<not> str_contains x section_sign" using split_pieces [OF _ x(1)] by (simp add: section_sign_def)
    then have "\<not> str_contains (str_trim x) section_sign" using trim_split [of x] by (metis append_assoc str_contains_iff)
    then show ?thesis using x(2) by (simp add: memory_entry_def)
  qed
  then show ?thesis by (auto simp: entries_ok_def parse_entries_eq list_all_iff)
qed

lemma split_rendered:
  assumes "list_all memory_entry (e # es)" and "p = [] \<or> p = [CHR 0x0A]"
  shows "map str_trim (str_split section_sign (p @ render_entries (e # es))) = e # es"
  using assms
proof (induction es arbitrary: e p)
  case Nil
  then have "\<not> str_contains (p @ e) section_sign" by (auto simp: memory_entry_def section_sign_def str_starts_with_def)
  then show ?case using Nil trim_framed [of e] by (auto simp: render_entries_def split_without_separator)
next
  case (Cons e' es)
  let ?x = "p @ e @ [CHR 0x0A]"
  have "\<not> str_contains (e @ [CHR 0x0A]) section_sign"
  proof
    assume "str_contains (e @ [CHR 0x0A]) section_sign"
    then obtain a b where "e @ [CHR 0x0A] = a @ section_sign @ b" by (auto simp: str_contains_iff)
    then have "b \<noteq> []" by (auto simp: section_sign_def)
    then have "e = a @ section_sign @ butlast b" using \<open>e @ [CHR 0x0A] = a @ section_sign @ b\<close>
      by (metis butlast_append butlast_snoc append_is_Nil_conv)
    then have "str_contains e section_sign" unfolding str_contains_iff by blast
    then show False using Cons.prems(1) by (simp add: memory_entry_def)
  qed
  then have x: "\<not> str_contains ?x section_sign" using Cons.prems(2) by (auto simp: section_sign_def str_starts_with_def)
  have "p @ render_entries (e # e' # es) = ?x @ section_sign @ ([CHR 0x0A] @ render_entries (e' # es))"
    by (simp add: render_entries_def entry_delimiter_def)
  then have "str_split section_sign (p @ render_entries (e # e' # es)) = ?x # str_split section_sign ([CHR 0x0A] @ render_entries (e' # es))"
    using split_at_separator [OF _ x [unfolded section_sign_def]] by (simp add: section_sign_def)
  moreover have "str_trim ?x = e" using Cons.prems trim_framed [of e] by auto
  ultimately show ?case using Cons.IH [of e' "[CHR 0x0A]"] Cons.prems(1) by simp
qed

lemma parse_rendered: "entries_ok es \<Longrightarrow> parse_entries (render_entries es) = es"
proof (cases es)
  case Nil
  then show ?thesis by (simp add: parse_entries_def render_entries_def trim_id blank_prefix_def blank_suffix_def utf8_whitespace_def str_starts_with_def str_ends_with_def)
next
  case (Cons e r)
  assume "entries_ok es"
  moreover have "filter (\<lambda>t. t \<noteq> []) es = es" using \<open>entries_ok es\<close> by (auto simp: entries_ok_def list_all_iff memory_entry_def intro: filter_True)
  ultimately show ?thesis using split_rendered [of e r "[]"] Cons by (simp add: parse_entries_eq entries_ok_def dedup_distinct)
qed

section \<open>Operations\<close>

text \<open>The text an operation looks for.\<close>

fun op_old_text :: "memory_op \<Rightarrow> string option" where
  "op_old_text (AddEntry _ _) = None"
| "op_old_text (ReplaceEntry _ n _) = Some n"
| "op_old_text (RemoveEntry _ n) = Some n"

definition names_entry :: "memory_op \<Rightarrow> memory_target \<Rightarrow> string \<Rightarrow> bool" where
  "names_entry p t e \<longleftrightarrow> op_target p = t \<and> (case op_old_text p of None \<Rightarrow> False | Some n \<Rightarrow> str_contains e (str_trim n))"

definition brings_entry :: "memory_op \<Rightarrow> memory_target \<Rightarrow> string \<Rightarrow> bool" where
  "brings_entry p t e \<longleftrightarrow> op_target p = t \<and> (case op_new_text p of None \<Rightarrow> False | Some s \<Rightarrow> e = str_trim s)"

lemma unique_match: "unique_match_index es t raw = Inr i \<Longrightarrow> i < length es \<and> str_contains (es ! i) (str_trim raw)"
proof -
  assume "unique_match_index es t raw = Inr i"
  then obtain e rest where "filter (\<lambda>(_, e). str_contains e (str_trim raw)) (enumerate 0 es) = (i, e) # rest"
    by (auto simp: unique_match_index_def Let_def split: if_splits list.splits)
  then have "(i, e) \<in> set (filter (\<lambda>(_, e). str_contains e (str_trim raw)) (enumerate 0 es))" by simp
  then show ?thesis by (auto simp: in_set_enumerate_eq)
qed

lemma set_update_other: "e \<in> set xs \<Longrightarrow> e \<noteq> xs ! i \<Longrightarrow> e \<in> set (xs[i := y])"
  by (metis in_set_conv_nth length_list_update nth_list_update_neq)

lemma set_remove_other: "e \<in> set xs \<Longrightarrow> i < length xs \<Longrightarrow> e \<noteq> xs ! i \<Longrightarrow> e \<notin> set (drop (Suc i) xs) \<Longrightarrow> e \<in> set (take i xs)"
  by (metis Un_iff id_take_nth_drop set_ConsD set_append)

lemma trim_keeps_out: "\<not> str_contains s x \<Longrightarrow> \<not> str_contains (str_trim s) x"
  using trim_split [of s] unfolding str_contains_iff by (metis append_assoc)

lemma trimmed_is_entry:
  assumes "trim_entry t s = Inr e" and "\<not> str_contains s section_sign"
  shows "e = str_trim s \<and> memory_entry e"
proof -
  have e: "e = str_trim s" "e \<noteq> []" using assms(1) unfolding trim_entry_def Let_def by (metis Inl_Inr_False Inr_inject)+
  have "memory_entry (str_trim s)" unfolding memory_entry_def using e trim_keeps_out [OF assms(2)] trim_idem by blast
  with e(1) show ?thesis by blast
qed

lemma no_delimiter: "ensure_no_reserved_delimiter t (Some s) = Inr u \<Longrightarrow> \<not> str_contains s section_sign"
  by (auto simp: ensure_no_reserved_delimiter_def split: if_splits)

lemmas op_cases = apply_op_def replace_unique_def remove_unique_def and_then_Inr_iff

lemma op_keeps:
  assumes "apply_op p es = Inr (es', m)" and "e \<in> set (es t)" and "\<not> names_entry p t e"
  shows "e \<in> set (es' t)"
  using assms by (cases p) (auto simp: op_cases names_entry_def dest!: unique_match intro: set_update_other set_remove_other split: if_splits)

lemma op_adds:
  assumes "apply_op p es = Inr (es', m)" and "e \<in> set (es' t)"
  shows "e \<in> set (es t) \<or> (brings_entry p t e \<and> memory_entry e)"
proof (cases p)
  case (AddEntry u s)
  then show ?thesis using assms by (auto simp: op_cases brings_entry_def dest!: no_delimiter trimmed_is_entry split: if_splits)
next
  case (ReplaceEntry u n s)
  then show ?thesis using assms
    by (auto simp: op_cases brings_entry_def dest!: no_delimiter trimmed_is_entry dest: set_update_subset_insert [THEN subsetD] split: if_splits)
next
  case (RemoveEntry u n)
  then show ?thesis using assms by (auto simp: op_cases dest: in_set_takeD in_set_dropD split: if_splits)
qed

lemma loop_keeps:
  "apply_op_loop ps es m = Inr (es', m') \<Longrightarrow> e \<in> set (es t) \<Longrightarrow> \<forall>p \<in> set ps. \<not> names_entry p t e \<Longrightarrow> e \<in> set (es' t)"
  by (induction ps arbitrary: es m) (auto simp: and_then_Inr_iff dest: op_keeps)

lemma loop_adds:
  "apply_op_loop ps es m = Inr (es', m') \<Longrightarrow> e \<in> set (es' t) \<Longrightarrow> e \<in> set (es t) \<or> ((\<exists>p \<in> set ps. brings_entry p t e) \<and> memory_entry e)"
proof (induction ps arbitrary: es m)
  case (Cons p ps)
  then obtain es1 m1 where "apply_op p es = Inr (es1, m1)" "apply_op_loop ps es1 (Some m1) = Inr (es', m')"
    by (auto simp: and_then_Inr_iff)
  then show ?case using Cons.IH [OF _ Cons.prems(2)] op_adds [of p es es1 m1 e t] by auto
qed simp

section \<open>The store\<close>

definition stored_text :: "memory_store \<Rightarrow> memory_target \<Rightarrow> string" where
  "stored_text w t = (case (case t of MemoryFile \<Rightarrow> memory_file w | UserFile \<Rightarrow> user_file w) of None \<Rightarrow> [] | Some s \<Rightarrow> s)"

definition stored_entries :: "memory_store \<Rightarrow> memory_target \<Rightarrow> string list" where
  "stored_entries w t = parse_entries (stored_text w t)"

lemma rendered_entries: "entries_ok es \<Longrightarrow> parse_entries (render_entries es) = es" "parse_entries (render_entries (parse_entries s)) = parse_entries s"
  by (simp_all add: parse_rendered parsed_entries_ok)

text \<open>What a successful change makes of the entries.\<close>

lemma by_target: "(\<lambda>t. case t of MemoryFile \<Rightarrow> f MemoryFile | UserFile \<Rightarrow> f UserFile) = f"
  by (rule ext) (simp split: memory_target.split)

lemma change_of_texts:
  assumes "apply_ops_to_texts (render_entries (stored_entries w MemoryFile)) (render_entries (stored_entries w UserFile)) cm cu ops = Inr (m', u', rep)"
  obtains es msg where "apply_op_loop ops (stored_entries w) None = Inr (es, msg)"
    and "m' = render_entries (dedup (es MemoryFile))" and "u' = render_entries (dedup (es UserFile))" and "char_count m' \<le> cm" and "char_count u' \<le> cu"
    and "\<forall>t. entries_ok (dedup (es t))" and "\<forall>t. applied_target rep = Some t \<longrightarrow> target_entries rep = dedup (es t)"
proof -
  have read: "parse_entries (render_entries (stored_entries w t)) = stored_entries w t" for t
    by (simp add: stored_entries_def rendered_entries(2))
  obtain es msg where run: "apply_op_loop ops (stored_entries w) None = Inr (es, msg)"
      "ensure_capacity MemoryFile (dedup (es MemoryFile)) cm = Inr ()" "ensure_capacity UserFile (dedup (es UserFile)) cu = Inr ()"
      "m' = render_entries (dedup (es MemoryFile))" "u' = render_entries (dedup (es UserFile))"
      "target_entries rep = (case applied_target rep of None \<Rightarrow> [] | Some MemoryFile \<Rightarrow> dedup (es MemoryFile) | Some UserFile \<Rightarrow> dedup (es UserFile))"
    using assms unfolding apply_ops_to_texts_def Let_def read by_target by (auto simp: and_then_Inr_iff)
  have "memory_entry e" if "e \<in> set (stored_entries w t)" for e t
    using that parsed_entries_ok by (auto simp: stored_entries_def entries_ok_def list_all_iff)
  then have "\<forall>t. entries_ok (dedup (es t))" using loop_adds [OF run(1)] unfolding entries_ok_def list_all_iff by (metis distinct_dedup set_dedup)
  moreover have "\<forall>t. applied_target rep = Some t \<longrightarrow> target_entries rep = dedup (es t)" using run(6) by (auto split: memory_target.splits)
  moreover have "char_count m' \<le> cm" "char_count u' \<le> cu" using run(2-5) by (auto simp: ensure_capacity_def Let_def split: if_splits)
  ultimately show ?thesis using that run by blast
qed

lemma mem_call_run: "mem_call w = (r, w1) \<Longrightarrow> \<exists>fs. w1 = w\<lparr>mem_faults := fs\<rparr>"
  unfolding mem_call_def by (cases "mem_faults w") (simp_all add: exI [of _ "mem_faults w"], blast)

lemma stored_text_faults [simp]: "stored_text (w\<lparr>mem_faults := fs\<rparr>) = stored_text w"
  by (rule ext) (simp add: stored_text_def split: memory_target.split)

lemma mem_call_files: "mem_call w = (r, w1) \<Longrightarrow> stored_text w1 = stored_text w"
  using mem_call_run by fastforce

lemma bind_cases:
  assumes "bind_io m k w = (r, w')"
  obtains (stop) e where "m w = (Inl e, w')" "r = Inl e" | (go) x w1 where "m w = (Inr x, w1)" "k x w1 = (r, w')"
  using assms by (auto simp: bind_io_def split: prod.splits sum.splits)

lemma map_sum_id_Inr_iff: "map_sum f id x = Inr y \<longleftrightarrow> x = Inr y"
  by (cases x) simp_all

lemma lift_sum_run [simp]: "lift_sum x w = (x, w)"
  by (cases x) (simp_all add: lift_sum_def return_io_def throw_io_def)

lemma read_path_run:
  assumes "read_path get w = (r, w1)"
  shows "\<exists>fs. w1 = w\<lparr>mem_faults := fs\<rparr> \<and> (\<forall>s. r = Inr s \<longrightarrow> s = (case get w1 of None \<Rightarrow> [] | Some s \<Rightarrow> s))"
proof -
  obtain r0 w0 where c: "mem_call w = (r0, w0)" by fastforce
  then obtain fs where "w0 = w\<lparr>mem_faults := fs\<rparr>" using mem_call_run by blast
  then show ?thesis using assms c unfolding read_path_def
    by (cases r0) (auto simp: bind_io_def get_io_def return_io_def throw_io_def split: option.splits if_splits)
qed

lemma read_files:
  shows "read_memory w = (r, w1) \<Longrightarrow> stored_text w1 = stored_text w" and "read_memory w = (Inr s, w1) \<Longrightarrow> s = stored_text w MemoryFile"
    and "read_user w = (r, w1) \<Longrightarrow> stored_text w1 = stored_text w" and "read_user w = (Inr s, w1) \<Longrightarrow> s = stored_text w UserFile"
proof -
  show "stored_text w1 = stored_text w" if "read_memory w = (r, w1)"
    using read_path_run [OF that [unfolded read_memory_def]] stored_text_faults by metis
  show "stored_text w1 = stored_text w" if "read_user w = (r, w1)"
    using read_path_run [OF that [unfolded read_user_def]] stored_text_faults by metis
  show "s = stored_text w MemoryFile" if "read_memory w = (Inr s, w1)"
  proof -
    note run = read_path_run [OF that [unfolded read_memory_def]]
    then obtain fs where "w1 = w\<lparr>mem_faults := fs\<rparr>" "s = (case memory_file w1 of None \<Rightarrow> [] | Some s \<Rightarrow> s)" by blast
    then show ?thesis by (simp add: stored_text_def)
  qed
  show "s = stored_text w UserFile" if "read_user w = (Inr s, w1)"
  proof -
    note run = read_path_run [OF that [unfolded read_user_def]]
    then obtain fs where "w1 = w\<lparr>mem_faults := fs\<rparr>" "s = (case user_file w1 of None \<Rightarrow> [] | Some s \<Rightarrow> s)" by blast
    then show ?thesis by (simp add: stored_text_def)
  qed
qed

lemma lock_files: "acquire_memory_file_locks w = (r, w1) \<Longrightarrow> stored_text w1 = stored_text w"
  unfolding acquire_memory_file_locks_def by (erule bind_cases) (simp_all add: mem_call_files)

text \<open>The part before the first write.\<close>

definition planned_change :: "(string \<Rightarrow> string list) \<Rightarrow> nat \<Rightarrow> nat \<Rightarrow> bool \<Rightarrow> memory_op list \<Rightarrow> memory_store \<Rightarrow> string \<times> string \<times> memory_apply_report \<Rightarrow> bool" where
  "planned_change lower cm cu scan ops w c \<longleftrightarrow> (scan \<longrightarrow> scan_memory_ops lower ops = Inr ())
     \<and> apply_ops_to_texts (render_entries (stored_entries w MemoryFile)) (render_entries (stored_entries w UserFile)) cm cu ops = Inr c"

definition write_if :: "bool \<Rightarrow> (memory_store \<Rightarrow> memory_store) \<Rightarrow> unit memory_io" where
  "write_if b f = (if b then bind_io mem_call (\<lambda>_. modify_io f) else return_io ())"

lemma memory_run:
  assumes "apply_memory_ops_locked lower cm cu scan ops w = (r, w')"
  obtains (refused) e where "r = Inl e" "stored_text w' = stored_text w"
  | (planned) m' u' rep w0 where "planned_change lower cm cu scan ops w (m', u', rep)" "stored_text w0 = stored_text w"
      "bind_io (write_if (m' \<noteq> render_entries (stored_entries w MemoryFile)) (memory_file_update (\<lambda>_. Some m'))) (\<lambda>_.
         bind_io (write_if (u' \<noteq> render_entries (stored_entries w UserFile)) (user_file_update (\<lambda>_. Some u'))) (\<lambda>_. return_io rep)) w0 = (r, w')"
proof -
  let ?scan = "if scan then lift_sum (map_sum MemoryUnsafe id (scan_memory_ops lower ops)) else return_io ()"
  from assms show ?thesis unfolding apply_memory_ops_locked_def
  proof (cases rule: bind_cases)
    case (stop e)
    then have "w' = w" by (auto simp: return_io_def split: if_splits)
    with stop refused show ?thesis by simp
  next
    case (go x w1)
    have safe: "w1 = w" "scan \<longrightarrow> scan_memory_ops lower ops = Inr ()"
      using go(1) by (auto simp: return_io_def map_sum_id_Inr_iff split: if_splits)
    from go(2) show ?thesis
    proof (cases rule: bind_cases)
      case (stop e)
      then show ?thesis using refused lock_files safe(1) by metis
    next
      case (go x w2)
      note locked = lock_files [OF go(1)]
      from go(2) show ?thesis
      proof (cases rule: bind_cases)
        case (stop e)
        then show ?thesis using refused read_files(1) locked safe(1) by metis
      next
        case (go m w3)
        note m = read_files(1,2) [OF go(1)]
        from go(2) show ?thesis
        proof (cases rule: bind_cases)
          case (stop e)
          then show ?thesis using refused read_files(3) m locked safe(1) by metis
        next
          case (go u w4)
          note u = read_files(3,4) [OF go(1)]
          have same: "stored_text w4 = stored_text w" using u m locked safe(1) by simp
          have texts: "memory_text (snapshot_texts m u cm cu) = render_entries (stored_entries w MemoryFile)"
              "user_text (snapshot_texts m u cm cu) = render_entries (stored_entries w UserFile)"
            using u m locked safe(1) by (simp_all add: snapshot_texts_def Let_def stored_entries_def)
          from go(2) [unfolded Let_def texts] show ?thesis
          proof (cases rule: bind_cases)
            case (stop e)
            then show ?thesis using refused same by simp
          next
            case (go c w5)
            obtain m' u' rep where c: "c = (m', u', rep)" by (cases c) auto
            have "planned_change lower cm cu scan ops w (m', u', rep)" using go(1) safe(2) c by (simp add: planned_change_def map_sum_id_Inr_iff)
            moreover have "stored_text w5 = stored_text w" using go(1) same by simp
            ultimately show ?thesis using planned go(2) by (simp add: c write_if_def)
          qed
        qed
      qed
    qed
  qed
qed

lemma write_if_run:
  assumes "write_if b (\<lambda>w. put w) w = (r, w')" and "\<And>w fs. put (w\<lparr>mem_faults := fs\<rparr>) = (put w)\<lparr>mem_faults := fs\<rparr>"
  shows "stored_text w' = stored_text w \<and> (isl r \<or> \<not> b) \<or> stored_text w' = stored_text (put w) \<and> b \<and> r = Inr ()"
proof (cases b)
  case True
  obtain r0 w0 where c: "mem_call w = (r0, w0)" by fastforce
  then obtain fs where "w0 = w\<lparr>mem_faults := fs\<rparr>" using mem_call_run by blast
  then show ?thesis using assms True c by (cases r0) (auto simp: write_if_def bind_io_def modify_io_def)
qed (use assms in \<open>simp add: write_if_def return_io_def\<close>)

lemma stored_text_put:
  "stored_text (w\<lparr>memory_file := Some s\<rparr>) = (stored_text w)(MemoryFile := s)"
  "stored_text (w\<lparr>user_file := Some s\<rparr>) = (stored_text w)(UserFile := s)"
  by (rule ext, simp add: stored_text_def split: memory_target.split)+

lemma write_entries:
  assumes "write_if (s \<noteq> render_entries (stored_entries w t)) put w = (r, w')" and "\<And>w fs. put (w\<lparr>mem_faults := fs\<rparr>) = (put w)\<lparr>mem_faults := fs\<rparr>"
    and "stored_text (put w) = (stored_text w)(t := s)"
  shows "(\<forall>u. u \<noteq> t \<longrightarrow> stored_entries w' u = stored_entries w u) \<and> (stored_entries w' t = stored_entries w t \<or> stored_entries w' t = parse_entries s)
    \<and> (\<forall>x. r = Inr x \<longrightarrow> stored_entries w' t = parse_entries s)"
  using write_if_run [OF assms(1,2)] assms(3) by (auto simp: stored_entries_def rendered_entries(2))

text \<open>However a change ends, a file holds the old entries or those of the whole change; both when it succeeded.\<close>

lemma memory_change:
  assumes "apply_memory_ops_locked lower cm cu scan ops w = (r, w')"
  obtains (refused) e where "r = Inl e" "stored_entries w' = stored_entries w"
  | (planned) es msg where "apply_op_loop ops (stored_entries w) None = Inr (es, msg)" "scan \<longrightarrow> scan_memory_ops lower ops = Inr ()"
      "\<forall>t. stored_entries w' t = stored_entries w t \<or> stored_entries w' t = dedup (es t)"
      "\<forall>t. entries_ok (dedup (es t))"
      "\<forall>x. r = Inr x \<longrightarrow> (\<forall>t. stored_entries w' t = dedup (es t)) \<and> (\<forall>t. applied_target x = Some t \<longrightarrow> target_entries x = dedup (es t))
         \<and> char_count (render_entries (dedup (es MemoryFile))) \<le> cm \<and> char_count (render_entries (dedup (es UserFile))) \<le> cu"
  using assms
proof (cases rule: memory_run)
  case (refused e)
  then show ?thesis using that(1) by (simp add: stored_entries_def fun_eq_iff)
next
  case (planned m' u' rep w0)
  let ?old = "stored_entries w"
  obtain es msg where es: "apply_op_loop ops ?old None = Inr (es, msg)" "m' = render_entries (dedup (es MemoryFile))"
      "u' = render_entries (dedup (es UserFile))" "char_count m' \<le> cm" "char_count u' \<le> cu" "\<forall>t. entries_ok (dedup (es t))"
      "\<forall>t. applied_target rep = Some t \<longrightarrow> target_entries rep = dedup (es t)"
    using planned(1) change_of_texts unfolding planned_change_def by metis
  have new: "parse_entries m' = dedup (es MemoryFile)" "parse_entries u' = dedup (es UserFile)"
    unfolding es(2,3) using rendered_entries(1) es(6) by simp_all
  have w0: "stored_entries w0 = ?old" using planned(2) by (simp add: stored_entries_def fun_eq_iff)
  have safe: "scan \<longrightarrow> scan_memory_ops lower ops = Inr ()" using planned(1) by (simp add: planned_change_def)
  have "(\<forall>t. stored_entries w' t = ?old t \<or> stored_entries w' t = dedup (es t)) \<and> (\<forall>x. r = Inr x \<longrightarrow> x = rep \<and> (\<forall>t. stored_entries w' t = dedup (es t)))"
    using planned(3)
  proof (cases rule: bind_cases)
    case (stop e)
    note first = write_entries [OF stop(1) [folded w0], OF _ stored_text_put(1)]
    show ?thesis
    proof (intro conjI allI)
      fix t
      show "stored_entries w' t = ?old t \<or> stored_entries w' t = dedup (es t)" using first new w0 by (cases t) auto
    qed (use stop in simp)
  next
    case (go x w1)
    note first = write_entries [OF go(1) [folded w0], OF _ stored_text_put(1)]
    have w1: "stored_entries w1 UserFile = ?old UserFile" "stored_entries w1 MemoryFile = dedup (es MemoryFile)" using first new w0 by auto
    from go(2) show ?thesis
    proof (cases rule: bind_cases)
      case (stop e)
      note second = write_entries [OF stop(1) [folded w1(1)], OF _ stored_text_put(2)]
      show ?thesis
      proof (intro conjI allI)
        fix t
        show "stored_entries w' t = ?old t \<or> stored_entries w' t = dedup (es t)" using second new w1 by (cases t) auto
      qed (use stop in simp)
    next
      case (go y w2)
      note second = write_entries [OF go(1) [folded w1(1)], OF _ stored_text_put(2)]
      have "stored_entries w2 t = dedup (es t)" for t using second new w1 by (cases t) auto
      then show ?thesis using go(2) by (auto simp: return_io_def)
    qed
  qed
  then show ?thesis using that(2) [OF es(1) safe] es(2-7) by blast
qed

section \<open>Properties\<close>

text \<open>
  Property C39.  Whatever operations are applied and however the call ends, also when a file could not be written, an
  entry of a memory file is lost only if one of the operations on that file looks for a text the entry contains.
\<close>

theorem memory_loses_only_named_entries:
  assumes "apply_memory_ops_locked lower memory_cap user_cap safety_scan ops w = (r, w')"
    and "e \<in> set (stored_entries w t)" and "e \<notin> set (stored_entries w' t)"
  shows "\<exists>p \<in> set ops. names_entry p t e"
  using assms(1)
proof (cases rule: memory_change)
  case (planned es msg)
  then have "e \<notin> set (es t)" using assms(2,3) by (metis set_dedup)
  then show ?thesis using loop_keeps [OF planned(1) assms(2)] by blast
qed (use assms(2,3) in simp)

lemma scanned_op: "scan_memory_ops lower ops = Inr () \<Longrightarrow> p \<in> set ops \<Longrightarrow> op_new_text p = Some s \<Longrightarrow> scan_memory_content lower s = Inr ()"
  by (induction ops) (auto simp: and_then_Inr_iff)

text \<open>
  Property C40.  After a change that succeeded each file reads as a list of distinct, trimmed, non-empty entries within
  its capacity, the report shows that list, and an entry that was not there before is the trimmed new text of one of
  the operations, which has passed the safety scan when the scan is on.
\<close>

theorem memory_change_reads_back:
  assumes "apply_memory_ops_locked lower memory_cap user_cap safety_scan ops w = (Inr rep, w')"
  shows "entries_ok (stored_entries w' t)
    \<and> char_count (render_entries (stored_entries w' t)) \<le> (case t of MemoryFile \<Rightarrow> memory_cap | UserFile \<Rightarrow> user_cap)
    \<and> (applied_target rep = Some t \<longrightarrow> target_entries rep = stored_entries w' t)
    \<and> (\<forall>e \<in> set (stored_entries w' t). e \<in> set (stored_entries w t)
         \<or> (\<exists>p \<in> set ops. op_target p = t \<and> (\<exists>s. op_new_text p = Some s \<and> e = str_trim s \<and> (safety_scan \<longrightarrow> scan_memory_content lower s = Inr ()))))"
  using assms
proof (cases rule: memory_change)
  case (planned es msg)
  have "e \<in> set (stored_entries w t) \<or> (\<exists>p \<in> set ops. op_target p = t \<and> (\<exists>s. op_new_text p = Some s \<and> e = str_trim s
      \<and> (safety_scan \<longrightarrow> scan_memory_content lower s = Inr ())))" if "e \<in> set (dedup (es t))" for e
    using loop_adds [OF planned(1), of e t] that planned(2) scanned_op
    by (fastforce simp: brings_entry_def split: option.splits)
  then show ?thesis using planned(4,5) by (auto split: memory_target.split)
qed simp

section \<open>A concrete change\<close>

definition demo_memory :: memory_store where
  "demo_memory = \<lparr>mem_faults = [False, False], memory_file = Some (''be brief'' @ entry_delimiter @ ''old port 80''), user_file = None\<rparr>"

definition demo_memory_ops :: "memory_op list" where
  "demo_memory_ops = [RemoveEntry MemoryFile ''port'', AddEntry MemoryFile '' Use 81 '']"

definition ascii_lower :: "string \<Rightarrow> string list" where
  "ascii_lower c = [map (\<lambda>x. if is_ascii_uppercase x then char_of (of_char x + (32 :: nat)) else x) c]"

definition demo_change :: "(memory_store_error + memory_apply_report) \<times> memory_store" where
  "demo_change = apply_memory_ops_locked ascii_lower 20 10 True demo_memory_ops demo_memory"

lemma demo_change_succeeds: "\<not> isl (fst demo_change)"
  by code_simp

lemma demo_change_entries: "stored_entries (snd demo_change) MemoryFile = [''be brief'', ''Use 81'']"
    "stored_entries demo_memory MemoryFile = [''be brief'', ''old port 80'']"
  by code_simp+

lemma demo_change_run: "apply_memory_ops_locked ascii_lower 20 10 True demo_memory_ops demo_memory = (Inr (projr (fst demo_change)), snd demo_change)"
  unfolding sum.collapse(2) [OF demo_change_succeeds] prod.collapse by (simp add: demo_change_def)

theorem memory_loses_only_named_witness: "\<exists>p \<in> set demo_memory_ops. names_entry p MemoryFile ''old port 80''"
  by (rule memory_loses_only_named_entries [OF demo_change_run]) (simp_all add: demo_change_entries)

theorem memory_change_reads_back_witness:
  "stored_entries (snd demo_change) MemoryFile = [''be brief'', ''Use 81''] \<and> entries_ok (stored_entries (snd demo_change) MemoryFile)
   \<and> char_count (render_entries (stored_entries (snd demo_change) MemoryFile)) \<le> 20"
  using memory_change_reads_back [OF demo_change_run, of MemoryFile] by (simp add: demo_change_entries)

end
