(* ===== verification/Spec2Isabelle.thy ===== *)
theory Spec2Isabelle
  imports Views Demo Dispute_Reports Sweep_Properties Bash_Safety Dream_Plan Process_Output Resolution_Demo Agent_Demo Upload_Demo Effect_Demo Memory_Properties
begin

text \<open>
  \<^bold>\<open>The program.\<close>  The agent claim network lets a team of agents share what they learned.  Each agent keeps
  \<^emph>\<open>claims\<close>; a central \<^emph>\<open>Maintainer\<close> mirrors them, publishes \<^emph>\<open>policies\<close>, collects \<^emph>\<open>disputes\<close> between claims and has
  them arbitrated.  The Maintainer writes one outbox file per message; agents pull, store and acknowledge them over
  HTTP, turn them into claims and upload their own claims and disputes through a queue file.  All state is in YAML
  files that are written one at a time, so every handler may stop between two writes, and every request may be
  lost before or after it took effect.  The theorems are about what survives that.

  \<^bold>\<open>How code becomes definitions.\<close>  A handler is a function \<open>state \<Rightarrow> (error + value) \<times> state\<close> (\<open>io\<close>, in \<^verbatim>\<open>Prelude\<close>),
  composed with \<open>bind_io\<close> in the order of the source; \<open>?\<close> is the error case of \<open>bind_io\<close>, a \<open>match\<close> on a result is
  \<open>attempt_io\<close>, \<open>map_err\<close> is \<open>map_err_io\<close>.  Structs are records, enums datatypes, a directory the list of its named files
  in the order a scan meets them, with a file a reservation (zero length), a document or something unreadable.
  Every storage call takes the next element of a list of faults in the state and fails if it is set, so a theorem
  about all states is one about all patterns of faults and, where it speaks about later states, all crash points.
  Random numbers come from a stream in the state, the clock is an argument.  Locks are the calls that take them:
  what a lock protects is one step of the transition systems below.

  \<^bold>\<open>The theories.\<close>
  \<^item> \<^verbatim>\<open>Prelude\<close>, \<^verbatim>\<open>Io_Rules\<close>, \<^verbatim>\<open>Io_Contracts\<close>, \<^verbatim>\<open>Dir_Facts\<close>: the programs above, frames, invariants and contracts of them,
    sorting, directories.
  \<^item> \<^verbatim>\<open>Claim_Ids\<close> (\<^verbatim>\<open>claim/id.rs\<close>), \<^verbatim>\<open>Claim_Types\<close> (\<^verbatim>\<open>claim/*.rs\<close>), \<^verbatim>\<open>Team_Store\<close> (\<^verbatim>\<open>storage/\<close>, \<^verbatim>\<open>maintainer/outbox_io.rs\<close>): identifiers,
    entities, the store and its primitives.
  \<^item> \<^verbatim>\<open>Maintainer\<close>, \<^verbatim>\<open>Mirrors\<close>, \<^verbatim>\<open>Views\<close> (\<^verbatim>\<open>maintainer.rs\<close>) and \<^verbatim>\<open>Sweep\<close> (\<^verbatim>\<open>maintainer/sweep.rs\<close>): publication, deprecation,
    pull and ACK, claim mirrors and dispute reports, the read-only views, the stale sweep.  \<^verbatim>\<open>Maintainer_Steps\<close> makes
    them one transition system; \<^verbatim>\<open>Delivery\<close>, \<^verbatim>\<open>Delivery_Properties\<close>, \<^verbatim>\<open>Delivery_Protocol\<close>, \<^verbatim>\<open>Publishing\<close>,
    \<^verbatim>\<open>Sweep_Properties\<close>, \<^verbatim>\<open>Dispute_Reports\<close> hold its theorems and \<^verbatim>\<open>Demo\<close> a concrete history.
  \<^item> \<^verbatim>\<open>Analysis\<close> (\<^verbatim>\<open>arbitration/types.rs\<close>, \<^verbatim>\<open>evaluator.rs\<close>), \<^verbatim>\<open>Arbitration\<close> (\<^verbatim>\<open>store.rs\<close>, \<^verbatim>\<open>service.rs\<close>), \<^verbatim>\<open>Resolution\<close>
    (\<^verbatim>\<open>resolution.rs\<close>): the analysis of a dispute by two models, its leases and rounds, and resolutions by humans and by
    adoption.  \<^verbatim>\<open>Arbitration_Invariant\<close> is the transition system of the critical sections; \<^verbatim>\<open>Arbitration_Properties\<close>,
    \<^verbatim>\<open>Arbitration_Recovery\<close>, \<^verbatim>\<open>Resolution_Properties\<close>, \<^verbatim>\<open>Resolution_Recovery\<close> hold the theorems, \<^verbatim>\<open>Arbitration_Demo\<close>
    and \<^verbatim>\<open>Resolution_Demo\<close> concrete runs.
  \<^item> \<^verbatim>\<open>Http_Client\<close> (\<^verbatim>\<open>maintainer/http_client.rs\<close>): requests over a link that loses, garbles and refuses them, with the
    retries of the client.  \<^verbatim>\<open>Local_Inbox\<close> (\<^verbatim>\<open>agent/fs.rs\<close>) and \<^verbatim>\<open>Agent_Sync\<close> (\<^verbatim>\<open>agent/inbox.rs\<close>): the agent's inbox directory
    and its synchronisation; \<^verbatim>\<open>Inbox_Properties\<close>, \<^verbatim>\<open>Inbox_Claims\<close>, \<^verbatim>\<open>Sync_Properties\<close>, \<^verbatim>\<open>Agent_Demo\<close>.
  \<^item> \<^verbatim>\<open>Consolidation\<close> (\<^verbatim>\<open>agent/consolidation_delivery.rs\<close>) and \<^verbatim>\<open>Upload_Queue\<close> (\<^verbatim>\<open>agent/maintainer_upload.rs\<close>): what may be
    uploaded when, and the queue of uploads; \<^verbatim>\<open>Upload_Properties\<close>, \<^verbatim>\<open>Upload_Demo\<close>.
  \<^item> \<^verbatim>\<open>Placeholder\<close> (\<^verbatim>\<open>api/placeholder.rs\<close>) and \<^verbatim>\<open>Preparation\<close> (\<^verbatim>\<open>agent/prepare.rs\<close>, the checks of \<^verbatim>\<open>agent/inbox.rs\<close>): from the
    JSON answer of a model to claims and disputes.  \<^verbatim>\<open>Knowledge\<close> (\<^verbatim>\<open>agent/fs.rs\<close>, \<^verbatim>\<open>agent/claim_alignment.rs\<close>) and
    \<^verbatim>\<open>Effect_Journal\<close> (\<^verbatim>\<open>agent/inbox.rs\<close>): the agent's claim files and the journal through which attribute updates change
    them.  \<^verbatim>\<open>Id_Maps\<close> holds the ordered maps they share with the queue; \<^verbatim>\<open>Preparation_Properties\<close>, \<^verbatim>\<open>Effect_Properties\<close>,
    \<^verbatim>\<open>Effect_Progress\<close> and \<^verbatim>\<open>Effect_Completion\<close> the theorems, \<^verbatim>\<open>Answer_Demo\<close> and \<^verbatim>\<open>Effect_Demo\<close> concrete runs.
  \<^item> \<^verbatim>\<open>Dream_Plan\<close> (\<^verbatim>\<open>agent/session_engine/dream_plan.rs\<close>), \<^verbatim>\<open>Bash_Safety\<close> (\<^verbatim>\<open>tool/concurrency.rs\<close>), \<^verbatim>\<open>Utf8\<close> and
    \<^verbatim>\<open>Process_Output\<close> (\<^verbatim>\<open>tool/process/output.rs\<close>), \<^verbatim>\<open>Memory\<close> and \<^verbatim>\<open>Memory_Properties\<close> (\<^verbatim>\<open>memory.rs\<close>, \<^verbatim>\<open>memory_safety.rs\<close>, the memory store
    of \<^verbatim>\<open>agent/fs.rs\<close>): components that stand alone.

  \<^bold>\<open>What is shown.\<close>  \<^emph>\<open>Delivery\<close>: an offered message is offered until it is confirmed and never after; an ACK confirms
  all its ids or nothing and can be repeated after a crash; handlers never lose entries or marks; a pull returns what is
  pending for the agent in the order of the events and leaves none of it out; the message posted for a published policy
  reaches its targets, and that of a deprecation reaches who saw the policy.  \<^emph>\<open>Across the network\<close>: a receipt at the Maintainer means
  that the message is in the agent's directory, whatever was lost; one sync over a working link brings all targeted
  mail; a message is handed out until it was handled, also after a crash, and not again after it (the age of a lease is
  that of its file, so that a fresh lease of an old message may be taken over: \<open>fresh_lease_is_taken_over\<close>).  \<^emph>\<open>Uploads\<close>: a run
  never loses a durable claim, also when others stage newer versions meanwhile; knowledge is retired at the team
  only after its carriers were confirmed; pruning the records of this changes no decision.  \<^emph>\<open>Knowledge\<close>:
  placeholders of new claims and disputes become the derived ids in every sentence of an answer, an accepted answer edits only own claims and cites what it was
  shown; a plan overwrites only versions its analysis saw, retires sources after their successors, is made once, and
  a run that succeeds leaves every message applied, also after crashes.  \<^emph>\<open>Arbitration\<close>: every
  stored analysis is consistent, has at most three rounds, and a worker that lost its lease writes nothing; reports
  and human resolutions that stopped halfway are completed by repeating or recovering them; a human resolution is
  final.  \<^emph>\<open>Sweep, reports, identifiers\<close>: exact lists of overdue claims and no repeated suggestions; the first report
  of a dispute stands; identifiers round-trip and hash inputs are unambiguous.  \<^emph>\<open>Stand-alone parts\<close>: accepted dream
  plans keep the sources acyclic; accepted scripts only read; the output buffer is the longest prefix and suffix of
  the decoded stream within its budget, and three pages read all of it; a change of the agent's memory files loses only
  entries its operations name, and what it wrote reads back as scanned, distinct entries within the capacity.

  \<^bold>\<open>Interfaces.\<close>  The locale \<open>io_frame\<close> states what a relation between states needs so that programs built from steps
  within it stay within it; it is interpreted for the order on outboxes, for observations that stay the same, for
  invariants, for the growth of the dispute records, for receipts, mirrors and the upload queue.  \<open>observation\<close>,
  \<open>untouched\<close> and \<open>directory\<close> give the storage primitives once for each directory, \<open>outside_mail\<close>, \<open>outside_agents_too\<close>
  and \<open>reading_calls\<close> what handlers leave alone, \<open>comparison\<close> the laws of the sort orders, and \<open>analysis_invariant\<close>
  the critical sections of an analysis, interpreted once for consistency and once for fencing.

  \<^bold>\<open>Bounds.\<close>  Loops that end by their data are functions with termination proofs (the rounds of an upload, the search
  for carriers).  Minting tries as often as the configuration says, and a request is repeated as often as the client's
  limit.  The search for cycles in a plan has one unit of fuel per node and one more, and the loop of \<open>prune\<close> one per
  group, which \<open>keep_loop_settles\<close> shows to be enough.

  \<^bold>\<open>Not modelled.\<close>  Retrieval (embeddings, full-text search), the adapters and the turn loop of the model providers,
  the terminal interface, MCP connections, configuration and start-up are I/O around libraries.  The answers of the
  models and the parser of shell scripts are arguments.  The context builder and the scheduler of the arbitration
  worker, the internalisation of policies, the browsing and editing of claims, the sessions and the supervisor are not modelled; texts of
  warnings and log lines are reduced to the values they are made from.  What is written is compared as a value, so
  the encoding of YAML is outside the model; a file that cannot be decoded is a kind of file.
\<close>

end
